(* ===== verification/Prelude.thy ===== *)
theory Prelude
  imports Main "HOL-Library.Word" "HOL-Library.AList"
begin

text \<open>
  Shared ground of the development: the names of the model's base types, the pieces of
  the Rust standard library the components use (\<open>HashMap\<close>, saturating integer arithmetic,
  \<open>str::trim\<close> and ASCII case folding), the notion of a reachable state, and the interfaces
  (locales) that several components implement.

  \<^item> \<open>invariant_system\<close>: a step relation with an invariant; gives the invariant in every
    reachable state.
  \<^item> \<open>keyed_store\<close>: a per-agent table whose operations touch one key only; gives isolation
    of agents over whole sequences of operations.
  \<^item> \<open>wire_codec\<close>: an enum with its persisted spelling; gives injectivity and rejection of
    every other string.
\<close>

section \<open>Base types\<close>

text \<open>
  A \<open>Uuid\<close> is a 128-bit number; only equality and order are used, so it is a \<open>nat\<close>
  (\<open>Uuid::nil()\<close> is 0). \<open>String\<close> is its UTF-8 byte sequence, so \<open>string\<close>.
  Instants and UTC timestamps are nanoseconds.
\<close>

type_synonym uuid = nat
type_synonym agent_id = string
type_synonym timestamp = int
type_synonym u64 = "64 word"

section \<open>Collections of rewrite rules\<close>

named_theorems hm_simps \<open>hash-map lookups after an update\<close>
named_theorems inv_intros \<open>preservation of component invariants\<close>

section \<open>\<open>HashMap\<close> as an association list\<close>

text \<open>
  A \<open>HashMap\<close> is an association list with distinct keys. The order of the list stands for
  the iteration order, which Rust leaves unspecified: no property below depends on it.
\<close>

type_synonym ('k, 'v) hmap = "('k \<times> 'v) list"

abbreviation hm_get :: "('k, 'v) hmap \<Rightarrow> 'k \<Rightarrow> 'v option" where
  "hm_get m k \<equiv> map_of m k"

abbreviation hm_insert :: "'k \<Rightarrow> 'v \<Rightarrow> ('k, 'v) hmap \<Rightarrow> ('k, 'v) hmap" where
  "hm_insert k v m \<equiv> AList.update k v m"

abbreviation hm_remove :: "'k \<Rightarrow> ('k, 'v) hmap \<Rightarrow> ('k, 'v) hmap" where
  "hm_remove k m \<equiv> AList.delete k m"

abbreviation hm_wf :: "('k, 'v) hmap \<Rightarrow> bool" where
  "hm_wf m \<equiv> distinct (map fst m)"

lemma hm_get_insert [simp, hm_simps]:
  "hm_get (hm_insert k v m) k' = (if k' = k then Some v else hm_get m k')"
  by (simp add: update_conv')

lemma hm_get_remove [simp, hm_simps]:
  "hm_get (hm_remove k m) k' = (if k' = k then None else hm_get m k')"
  by (simp add: delete_conv')

lemma hm_wf_insert [simp, intro]: "hm_wf m \<Longrightarrow> hm_wf (hm_insert k v m)"
  by (rule distinct_update)

lemma hm_wf_remove [simp, intro]: "hm_wf m \<Longrightarrow> hm_wf (hm_remove k m)"
  by (rule distinct_delete)

lemma hm_remove_absent [simp]: "hm_get m k = None \<Longrightarrow> hm_remove k m = m"
  by (force simp: map_of_eq_None_iff AList.delete_eq filter_id_conv)

text \<open>Sums over the values, as \<open>values().map(f).sum()\<close> computes them.\<close>

definition hm_sum :: "('v \<Rightarrow> nat) \<Rightarrow> ('k, 'v) hmap \<Rightarrow> nat" where
  "hm_sum f m = sum_list (map (f \<circ> snd) m)"

lemma hm_sum_Nil [simp]: "hm_sum f [] = 0"
  by (simp add: hm_sum_def)

lemma hm_sum_Cons [simp]: "hm_sum f ((k, v) # m) = f v + hm_sum f m"
  by (simp add: hm_sum_def)

lemma hm_sum_remove:
  "hm_wf m \<Longrightarrow> hm_sum f m = hm_sum f (hm_remove k m) + (case hm_get m k of None \<Rightarrow> 0 | Some v \<Rightarrow> f v)"
proof (induction m)
  case Nil
  then show ?case by simp
next
  case (Cons kv m)
  obtain k0 v0 where kv: "kv = (k0, v0)" by (cases kv)
  show ?case
  proof (cases "k0 = k")
    case True
    with Cons.prems kv have "hm_get m k = None"
      by (auto simp: map_of_eq_None_iff)
    with True kv show ?thesis by simp
  next
    case False
    with Cons kv show ?thesis by simp
  qed
qed

lemma hm_sum_insert:
  assumes "hm_wf m"
  shows "hm_sum f (hm_insert k v m) = hm_sum f (hm_remove k m) + f v"
proof -
  have "hm_remove k (hm_insert k v m) = hm_remove k m"
    by (induction m) auto
  with hm_sum_remove [OF hm_wf_insert [OF assms, of k v], of f k] show ?thesis
    by simp
qed

section \<open>Saturating arithmetic\<close>

text \<open>\<open>saturating_add\<close> on an unsigned type with maximum \<open>mx\<close>, and on \<open>i32\<close>.\<close>

definition sat_add :: "nat \<Rightarrow> nat \<Rightarrow> nat \<Rightarrow> nat" where
  "sat_add mx a b = min mx (a + b)"

definition u32_max :: nat where
  "u32_max = 4294967295"

definition i32_max :: int where
  "i32_max = 2147483647"

definition i64_max :: int where
  "i64_max = 9223372036854775807"

definition sat_add_i32 :: "int \<Rightarrow> int \<Rightarrow> int" where
  "sat_add_i32 a b = max (- i32_max - 1) (min i32_max (a + b))"

lemma sat_add_le [simp]: "sat_add mx a b \<le> mx"
  by (simp add: sat_add_def)

lemma sat_add_mono: "a \<le> mx \<Longrightarrow> a \<le> sat_add mx a b"
  by (simp add: sat_add_def)

text \<open>The cast \<open>x as i32\<close> of an unsigned 64-bit value keeps the low 32 bits, signed.\<close>

definition as_i32 :: "u64 \<Rightarrow> int" where
  "as_i32 x = sint (ucast x :: 32 word)"

lemma as_i32_small: "uint x < 2 ^ 31 \<Longrightarrow> as_i32 x = uint x"
proof -
  assume a: "uint x < 2 ^ 31"
  have "uint (ucast x :: 32 word) = uint x"
    using a by (simp add: unsigned_ucast_eq take_bit_eq_mod)
  moreover have "signed_take_bit 31 (uint x) = uint x"
    using a by (intro signed_take_bit_int_eq_self) (auto intro: order_trans [OF _ unsigned_greater_eq])
  ultimately show ?thesis
    by (simp add: as_i32_def sint_uint)
qed

section \<open>Reachable states and invariants\<close>

inductive reachable :: "('s \<Rightarrow> bool) \<Rightarrow> ('s \<Rightarrow> 's \<Rightarrow> bool) \<Rightarrow> 's \<Rightarrow> bool"
  for start :: "'s \<Rightarrow> bool" and step :: "'s \<Rightarrow> 's \<Rightarrow> bool" where
  reachable_start: "start s \<Longrightarrow> reachable start step s"
| reachable_step: "reachable start step s \<Longrightarrow> step s t \<Longrightarrow> reachable start step t"

text \<open>
  A component with an inductive invariant: it holds at the start and every step keeps it.
\<close>

locale invariant_system =
  fixes start :: "'s \<Rightarrow> bool"
    and step :: "'s \<Rightarrow> 's \<Rightarrow> bool"
    and inv :: "'s \<Rightarrow> bool"
  assumes inv_start: "start s \<Longrightarrow> inv s"
    and inv_step: "step s t \<Longrightarrow> inv s \<Longrightarrow> inv t"
begin

lemma inv_reachable: "reachable start step s \<Longrightarrow> inv s"
proof (induction rule: reachable.induct)
  case (reachable_start s)
  then show ?case by (rule inv_start)
next
  case (reachable_step s t)
  then show ?case by (blast intro: inv_step)
qed

lemma inv_steps: "step\<^sup>*\<^sup>* s t \<Longrightarrow> inv s \<Longrightarrow> inv t"
  by (induction rule: rtranclp_induct) (auto intro: inv_step)

end

section \<open>Fallible statements\<close>

text \<open>Sequencing of fallible statements (the \<open>?\<close> operator) and a loop whose body may fail.\<close>

definition tx_bind :: "'e + 'a \<Rightarrow> ('a \<Rightarrow> 'e + 'b) \<Rightarrow> 'e + 'b" where
  "tx_bind r f = (case r of Inl e \<Rightarrow> Inl e | Inr a \<Rightarrow> f a)"

lemma tx_bind_simps [simp]: "tx_bind (Inl e) f = Inl e" "tx_bind (Inr a) f = f a"
  by (simp_all add: tx_bind_def)

lemma tx_bind_Inr_iff: "tx_bind r f = Inr y \<longleftrightarrow> (\<exists>a. r = Inr a \<and> f a = Inr y)"
  by (cases r) simp_all

fun tx_fold :: "('s \<Rightarrow> 'x \<Rightarrow> 'e + 's) \<Rightarrow> 's \<Rightarrow> 'x list \<Rightarrow> 'e + 's" where
  "tx_fold f s [] = Inr s"
| "tx_fold f s (x # xs) = tx_bind (f s x) (\<lambda>s'. tx_fold f s' xs)"

lemma tx_fold_append: "tx_fold f s (xs @ ys) = tx_bind (tx_fold f s xs) (\<lambda>s'. tx_fold f s' ys)"
  by (induction xs arbitrary: s) (auto simp: tx_bind_def split: sum.splits)

section \<open>Per-agent tables\<close>

text \<open>
  The contract of a table keyed by agent: \<open>apply_op k x s\<close> performs the operation \<open>x\<close> for
  the key \<open>k\<close>; the view of every other key is unchanged, and the new view of \<open>k\<close> depends on
  the old view of \<open>k\<close> alone. Isolation over whole interleavings follows: what an agent sees
  after a sequence of operations is what it sees after its own operations.
\<close>

locale keyed_store =
  fixes view :: "'s \<Rightarrow> 'k \<Rightarrow> 'v"
    and apply_op :: "'k \<Rightarrow> 'op \<Rightarrow> 's \<Rightarrow> 's"
  assumes view_other: "k' \<noteq> k \<Longrightarrow> view (apply_op k x s) k' = view s k'"
    and view_local: "view s k = view t k \<Longrightarrow> view (apply_op k x s) k = view (apply_op k x t) k"
begin

lemma view_run_cong:
  "view s k = view t k \<Longrightarrow>
   view (fold (\<lambda>(k', x). apply_op k' x) ops s) k =
   view (fold (\<lambda>(k', x). apply_op k' x) (filter (\<lambda>(k', x). k' = k) ops) t) k"
proof (induction ops arbitrary: s t)
  case Nil
  then show ?case by simp
next
  case (Cons kx ops)
  obtain k' x where kx: "kx = (k', x)" by (cases kx)
  show ?case
  proof (cases "k' = k")
    case True
    then have "view (apply_op k' x s) k = view (apply_op k' x t) k"
      using Cons.prems view_local by blast
    with Cons.IH kx True show ?thesis by simp
  next
    case False
    then have "view (apply_op k' x s) k = view t k"
      using Cons.prems view_other by metis
    with Cons.IH kx False show ?thesis by simp
  qed
qed

lemma view_run:
  "view (fold (\<lambda>(k', x). apply_op k' x) ops s) k =
   view (fold (\<lambda>(k', x). apply_op k' x) (filter (\<lambda>(k', x). k' = k) ops) s) k"
  by (rule view_run_cong) simp

end

section \<open>Enums with a persisted spelling\<close>

text \<open>
  An enum and its persisted spelling: \<open>print\<close> is \<open>as_str\<close>, \<open>parse\<close> the decoder that refuses
  any other string.
\<close>

locale wire_codec =
  fixes print :: "'a \<Rightarrow> string"
    and parse :: "string \<Rightarrow> 'e + 'a"
  assumes parse_print: "parse (print x) = Inr x"
    and parse_sound: "parse s = Inr x \<Longrightarrow> s = print x"
begin

lemma print_inject: "print x = print y \<longleftrightarrow> x = y"
  by (metis parse_print sum.inject(2))

lemma parse_iff: "parse s = Inr x \<longleftrightarrow> s = print x"
  by (auto simp: parse_print dest: parse_sound)

lemma parse_error_iff: "(\<exists>e. parse s = Inl e) \<longleftrightarrow> (\<forall>x. s \<noteq> print x)"
  by (cases "parse s") (auto simp: parse_print dest: parse_sound)

end

end
