(* ===== verification/Protocol.thy ===== *)
theory Protocol
  imports Prelude
begin

text \<open>
  The wire types of \<open>crates/cocli-protocol\<close> and the runtime-neutral driver events of
  \<open>crates/cocli-driver-core\<close>: what the router and the agent actors receive, keep and emit.
  JSON spelling (serde attributes) is not modelled: a message is its decoded value. \<open>i64\<close> and
  \<open>i32\<close> fields that are only copied and compared are \<open>int\<close>; \<open>f64\<close> fields are only copied,
  so they are their 64-bit pattern.
\<close>

section \<open>Shared types\<close>

type_synonym f64_bits = "64 word"

datatype json =
    JNull
  | JBool bool
  | JNumber string
  | JString string
  | JArray "json list"
  | JObject "(string \<times> json) list"

record agent_config =
  ac_runtime :: string
  ac_model :: string
  ac_working_runtime :: string
  ac_working_model :: string
  ac_chat_only :: bool
  ac_session_id :: string
  ac_server_url :: string
  ac_auth_token :: string
  ac_env_vars :: "(string, string) hmap option"
  ac_name :: string
  ac_display_name :: string
  ac_description :: string
  ac_onboarding :: string

text \<open>
  \<open>DeliveryMessage\<close> nests in itself through \<open>recent_context\<close>, so it is a datatype with one
  constructor and the struct's fields as selectors.
\<close>

datatype delivery_message = DeliveryMessage
  (dm_channel_id: uuid)
  (dm_sender_name: string)
  (dm_sender_type: string)
  (dm_content: string)
  (dm_channel_name: string)
  (dm_channel_display_name: string)
  (dm_channel_type: string)
  (dm_parent_channel_name: string)
  (dm_parent_channel_type: string)
  (dm_seq: int)
  (dm_message_id: string)
  (dm_timestamp: string)
  (dm_created_at_unix_nano: int)
  (dm_task_status: string)
  (dm_task_number: int)
  (dm_blocks: string)
  (dm_source_message_id: string)
  (dm_expected_reply_target: string)
  (dm_requires_thread: bool)
  (dm_reply_obligation_id: string)
  (dm_reply_required: bool)
  (dm_reply_owner_agent_id: string)
  (dm_reply_deadline_at: string)
  (dm_recent_context: "delivery_message list")
  (dm_priority_class: string)
  (dm_priority_reason: string)
  (dm_relevance_class: string)

text \<open>A message with the four fields the delivery path reads and every other field at its default.\<close>

definition plain_message :: "uuid \<Rightarrow> string \<Rightarrow> string \<Rightarrow> string \<Rightarrow> delivery_message" where
  "plain_message ch chname sender content =
     DeliveryMessage ch sender [] content chname [] [] [] [] 0 [] [] 0 [] 0 [] [] [] False []
       False [] [] [] [] [] []"

lemma plain_message_sel [simp]:
  "dm_channel_id (plain_message ch chname sender content) = ch"
  "dm_channel_name (plain_message ch chname sender content) = chname"
  "dm_sender_name (plain_message ch chname sender content) = sender"
  "dm_content (plain_message ch chname sender content) = content"
  by (simp_all add: plain_message_def)

record recover_session =
  rs_agent_id :: agent_id
  rs_config :: agent_config
  rs_session_id :: string
  rs_launch_id :: string
  rs_turn_count :: int

record trajectory_entry =
  te_kind :: string
  te_id :: string
  te_text :: string
  te_input :: "json option"
  te_result :: string
  te_error :: string
  te_ts :: int

record file_tree_entry =
  ft_name :: string
  ft_is_dir :: bool
  ft_size :: int

record working_state_payload =
  ws_task_id :: "uuid option"
  ws_task_number :: int
  ws_channel_name :: string
  ws_summary :: string
  ws_next_step_hint :: string
  ws_started_at :: string
  ws_last_updated_at :: string

section \<open>Server to daemon\<close>

record agent_deliver_msg =
  ad_agent_id :: agent_id
  ad_seq :: int
  ad_attempt :: int
  ad_priority_class :: string
  ad_priority_reason :: string
  ad_priority_source :: string
  ad_responder_role :: string
  ad_delivery_tier :: string
  ad_routing_reason :: string
  ad_message :: delivery_message
  ad_context :: "delivery_message list"

record agent_working_set_msg =
  wm_agent_id :: agent_id
  wm_request_id :: string
  wm_task_id :: "uuid option"
  wm_task_number :: int
  wm_channel_name :: string
  wm_summary :: string
  wm_next_step_hint :: string

record agent_start_msg =
  sm_agent_id :: agent_id
  sm_config :: agent_config
  sm_wake_message :: "delivery_message option"
  sm_unread_summary :: "(string, int) hmap option"
  sm_resume_prompt :: string
  sm_launch_id :: string
  sm_turn_count :: int

text \<open>The fields of the short messages are the constructor's arguments.\<close>

datatype server_msg =
    AgentStart agent_start_msg
  | AgentStop agent_id bool
  | AgentDeliver agent_deliver_msg
  | AgentTurnCancel agent_id
  | AgentRecoverSessions "recover_session list"
  | Ping
  | ServerShutdown string
  | AgentWorkspaceList agent_id string string
  | AgentWorkspaceRead agent_id string string
  | AgentResetWorkspace agent_id
  | AgentWorkingSet agent_working_set_msg
  | AgentWorkingGet agent_id string
  | AgentWorkingClear agent_id string
  | UnknownServerMsg

section \<open>Daemon to server\<close>

record agent_status_msg =
  as_agent_id :: agent_id
  as_status :: string
  as_launch_id :: string
  as_error_detail :: string

text \<open>\<open>AgentDeliverAckMsg\<close> and \<open>AgentDeliverAcceptedMsg\<close> have the same fields.\<close>

record agent_deliver_ack_msg =
  da_agent_id :: agent_id
  da_seq :: int
  da_attempt :: int
  da_channel_id :: uuid
  da_route_action :: string

record agent_session_msg =
  se_agent_id :: agent_id
  se_session_id :: string
  se_channel_id :: uuid
  se_is_new :: bool
  se_resumed_from :: string
  se_active_sessions :: int
  se_queue_depth :: int
  se_prompt_layer :: string
  se_prompt_tokens :: int
  se_launch_id :: string
  se_launch_generation :: u64
  se_session_type :: string
  se_scope :: string
  se_parent_chat_session_id :: string
  se_execution_intent_id :: string
  se_execution_run_id :: string

record agent_activity_msg =
  aa_agent_id :: agent_id
  aa_activity :: string
  aa_attention_state :: string
  aa_detail :: string
  aa_payload :: "(string, json) hmap option"
  aa_trajectory :: "string list"
  aa_entries :: "trajectory_entry list"
  aa_launch_id :: string
  aa_launch_generation :: u64
  aa_focus_task_id :: string
  aa_focus_scope :: string
  aa_focus_since :: int
  aa_priority_class :: string
  aa_preempted :: bool
  aa_last_input_tokens :: int
  aa_total_output_tokens :: int
  aa_context_window :: int
  aa_total_cost_usd :: f64_bits
  aa_turn_count :: int
  aa_session_type :: string
  aa_scope :: string
  aa_channel_id :: uuid
  aa_channel_name :: string
  aa_rate_limit_type :: string
  aa_rate_limit_status :: string
  aa_rate_limit_resets :: int
  aa_overage_status :: string
  aa_overage_resets :: int
  aa_is_using_overage :: bool
  aa_runtime_event :: string
  aa_runtime_stream :: string
  aa_runtime_gap_from :: int
  aa_runtime_gap_oldest :: int
  aa_runtime_gap_last :: int
  aa_runtime_recover_strategy :: string
  aa_scheduler_event :: string
  aa_scheduler_decision :: string
  aa_scheduler_reason :: string
  aa_scheduler_queue_depth :: int
  aa_scheduler_violation :: bool

record agent_turn_msg =
  at_agent_id :: agent_id
  at_session_id :: string
  at_launch_id :: string
  at_launch_generation :: u64
  at_turn_number :: int
  at_entries :: "trajectory_entry list"
  at_input_tokens :: int
  at_output_tokens :: int
  at_cost_usd :: f64_bits
  at_context_window :: int
  at_cache_creation_tokens :: int
  at_cache_read_tokens :: int
  at_session_type :: string
  at_channel_id :: uuid
  at_channel_name :: string
  at_context_usage_pct :: f64_bits
  at_notif_to_check_ms :: int
  at_check_cadence_s :: f64_bits
  at_nudges_sent :: int
  at_nudges_effective :: int

record agent_working_result_msg =
  wr_agent_id :: agent_id
  wr_request_id :: string
  wr_op :: string
  wr_state :: "working_state_payload option"
  wr_error :: string
  wr_error_code :: string

text \<open>
  The messages the router and the actors send; \<open>ready\<close>, \<open>pong\<close>, \<open>daemon:recover\<close>,
  \<open>agent:session:end\<close>, \<open>agent:session:idle\<close>, \<open>agent:stop:error\<close> and \<open>agent:recovery:record\<close> belong to
  the connection layer.
\<close>

datatype daemon_msg =
    AgentStatus agent_status_msg
  | AgentActivity agent_activity_msg
  | AgentTurn agent_turn_msg
  | AgentSession agent_session_msg
  | AgentDeliverAck agent_deliver_ack_msg
  | AgentDeliverAccepted agent_deliver_ack_msg
  | AgentWorkspaceFileTree agent_id string string "file_tree_entry list"
  | AgentWorkspaceFileContent agent_id string string bool
  | AgentWorkingResult agent_working_result_msg

section \<open>Driver events\<close>

datatype turn_status = Completed | Cancelled | Failed | MaxSteps | UnknownStatus string

datatype error_severity = SevWarning | SevError

datatype signal_type = SigProgress | SigQuestion | SigComplete | SigError | SigOther string

datatype driver_event =
    SessionStarted string
  | MessageStart
  | ThinkingDelta string
  | TextDelta string
  | ToolCall string string json
  | ToolResult string string "string option"
  | MessageStop string
  | UnknownEvent
  | TurnEnd turn_status u64 u64 f64_bits u64 u64 u64
  | RateLimit string string int "string option" "int option" bool
  | DriverErrorEvent string "string option" "error_severity option" "nat option"
  | ToolDone string string "string option"
  | Signal signal_type json
  | WriteReq string
  | CompactStarted
  | CompactFinished

end
