(* ===== verification/DeliveryQueue.thy ===== *)
theory DeliveryQueue
  imports Protocol
begin

text \<open>
  The in-memory delivery queue of \<open>crates/cocli-agent/src/queue.rs\<close>: per agent, a bounded
  FIFO of deliveries that arrived while the agent's mailbox could not take them.
  \<open>HashMap<String, VecDeque<_>>\<close> is a hash map from agents to lists (front of the deque first).
\<close>

section \<open>State and operations\<close>

definition max_pending_per_agent :: nat where
  "max_pending_per_agent = 64"

type_synonym delivery_queue = "(agent_id, agent_deliver_msg list) hmap"

datatype enqueue_result = Queued | Updated | RejectedFull

definition queue_new :: delivery_queue where
  "queue_new = []"

text \<open>\<open>entry(agent_id).or_default()\<close>: the agent's deque, empty when there is none.\<close>

definition pending :: "delivery_queue \<Rightarrow> agent_id \<Rightarrow> agent_deliver_msg list" where
  "pending q a = (case hm_get q a of None \<Rightarrow> [] | Some xs \<Rightarrow> xs)"

definition same_delivery :: "agent_deliver_msg \<Rightarrow> agent_deliver_msg \<Rightarrow> bool" where
  "same_delivery p m \<longleftrightarrow>
     ad_seq p = ad_seq m \<and> dm_channel_id (ad_message p) = dm_channel_id (ad_message m)"

text \<open>\<open>iter_mut().find(..)\<close> and assignment through the reference: the first match is replaced.\<close>

fun replace_first :: "('a \<Rightarrow> bool) \<Rightarrow> 'a \<Rightarrow> 'a list \<Rightarrow> 'a list" where
  "replace_first P y [] = []"
| "replace_first P y (x # xs) = (if P x then y # xs else x # replace_first P y xs)"

definition enqueue :: "agent_id \<Rightarrow> agent_deliver_msg \<Rightarrow> delivery_queue \<Rightarrow> delivery_queue \<times> enqueue_result" where
  "enqueue a m q =
     (let queue = pending q a in
      if ad_seq m > 0 \<and> list_ex (\<lambda>p. same_delivery p m) queue
      then (hm_insert a (replace_first (\<lambda>p. same_delivery p m) m queue) q, Updated)
      else if length queue \<ge> max_pending_per_agent
      then (hm_insert a queue q, RejectedFull)
      else (hm_insert a (queue @ [m]) q, Queued))"

definition drain :: "agent_id \<Rightarrow> delivery_queue \<Rightarrow> agent_deliver_msg list \<times> delivery_queue" where
  "drain a q = (case hm_get q a of None \<Rightarrow> [] | Some xs \<Rightarrow> xs, hm_remove a q)"

text \<open>The loop pushes the messages to the front from the last to the first.\<close>

definition prepend :: "agent_id \<Rightarrow> agent_deliver_msg list \<Rightarrow> delivery_queue \<Rightarrow> delivery_queue" where
  "prepend a ms q =
     (if ms = [] then q
      else hm_insert a (take max_pending_per_agent (fold (#) (rev ms) (pending q a))) q)"

definition forget :: "agent_id \<Rightarrow> delivery_queue \<Rightarrow> delivery_queue" where
  "forget a q = hm_remove a q"

definition total_len :: "delivery_queue \<Rightarrow> nat" where
  "total_len q = hm_sum length q"

section \<open>Views after an operation\<close>

lemma pending_insert [simp]: "pending (hm_insert a xs q) b = (if b = a then xs else pending q b)"
  by (simp add: pending_def)

lemma pending_remove [simp]: "pending (hm_remove a q) b = (if b = a then [] else pending q b)"
  by (simp add: pending_def)

lemma pending_new [simp]: "pending queue_new a = []"
  by (simp add: pending_def queue_new_def)

lemma drain_simps [simp]:
  "fst (drain a q) = pending q a"
  "pending (snd (drain a q)) b = (if b = a then [] else pending q b)"
  by (simp_all add: drain_def pending_def)

lemma pending_forget [simp]: "pending (forget a q) b = (if b = a then [] else pending q b)"
  by (simp add: forget_def)

lemma fold_push_front: "fold (#) (rev ms) xs = ms @ xs"
  by (induction ms arbitrary: xs) auto

lemma pending_prepend [simp]:
  "pending (prepend a ms q) b =
     (if b = a \<and> ms \<noteq> [] then take max_pending_per_agent (ms @ pending q a) else pending q b)"
  by (simp add: prepend_def fold_push_front)

lemma pending_enqueue_other [simp]: "b \<noteq> a \<Longrightarrow> pending (fst (enqueue a m q)) b = pending q b"
  by (simp add: enqueue_def Let_def)

text \<open>The three outcomes of \<open>enqueue\<close>, as an elimination rule.\<close>

lemma enqueue_cases [consumes 1, case_names updated rejected queued]:
  assumes "enqueue a m q = (q', r)"
  obtains
    "r = Updated" "ad_seq m > 0" "\<exists>p \<in> set (pending q a). same_delivery p m"
      "pending q' a = replace_first (\<lambda>p. same_delivery p m) m (pending q a)"
  | "r = RejectedFull" "max_pending_per_agent \<le> length (pending q a)" "pending q' a = pending q a"
      "ad_seq m > 0 \<longrightarrow> (\<forall>p \<in> set (pending q a). \<not> same_delivery p m)"
  | "r = Queued" "length (pending q a) < max_pending_per_agent" "pending q' a = pending q a @ [m]"
      "ad_seq m > 0 \<longrightarrow> (\<forall>p \<in> set (pending q a). \<not> same_delivery p m)"
  using assms
  by (auto simp: enqueue_def Let_def list_ex_iff not_less split: if_splits)

section \<open>Invariant\<close>

text \<open>
  No agent has more than 64 pending deliveries, and no two pending deliveries of an agent
  carry the same positive sequence number in the same channel.
\<close>

definition delivery_key :: "agent_deliver_msg \<Rightarrow> int \<times> uuid" where
  "delivery_key m = (ad_seq m, dm_channel_id (ad_message m))"

definition seq_keys :: "agent_deliver_msg list \<Rightarrow> (int \<times> uuid) list" where
  "seq_keys xs = map delivery_key (filter (\<lambda>m. ad_seq m > 0) xs)"

definition deque_ok :: "agent_deliver_msg list \<Rightarrow> bool" where
  "deque_ok xs \<longleftrightarrow> length xs \<le> max_pending_per_agent \<and> distinct (seq_keys xs)"

definition queue_inv :: "delivery_queue \<Rightarrow> bool" where
  "queue_inv q \<longleftrightarrow> hm_wf q \<and> (\<forall>a. deque_ok (pending q a))"

lemma same_delivery_key: "same_delivery p m \<longleftrightarrow> delivery_key p = delivery_key m"
  by (simp add: same_delivery_def delivery_key_def)

lemma length_replace_first [simp]: "length (replace_first P y xs) = length xs"
  by (induction xs) auto

lemma map_replace_first: "(\<And>x. P x \<Longrightarrow> f x = f y) \<Longrightarrow> map f (replace_first P y xs) = map f xs"
  by (induction xs) auto

lemma replace_first_mem: "\<exists>x \<in> set xs. P x \<Longrightarrow> y \<in> set (replace_first P y xs)"
  by (induction xs) auto

lemma seq_keys_conv: "seq_keys xs = filter (\<lambda>k. fst k > 0) (map delivery_key xs)"
  by (induction xs) (auto simp: seq_keys_def delivery_key_def)

lemma seq_keys_replace_first:
  "seq_keys (replace_first (\<lambda>p. same_delivery p m) m xs) = seq_keys xs"
  by (simp add: seq_keys_conv map_replace_first same_delivery_key)

lemma seq_keys_append [simp]: "seq_keys (xs @ ys) = seq_keys xs @ seq_keys ys"
  by (simp add: seq_keys_def)

lemma seq_keys_mem: "k \<in> set (seq_keys xs) \<longleftrightarrow> (\<exists>p \<in> set xs. ad_seq p > 0 \<and> k = delivery_key p)"
  by (auto simp: seq_keys_def)

lemma deque_ok_Nil [simp]: "deque_ok []"
  by (simp add: deque_ok_def seq_keys_def)

lemma deque_ok_snoc:
  "deque_ok xs \<Longrightarrow> length xs < max_pending_per_agent \<Longrightarrow>
   (ad_seq m > 0 \<longrightarrow> (\<forall>p \<in> set xs. \<not> same_delivery p m)) \<Longrightarrow> deque_ok (xs @ [m])"
  by (cases "ad_seq m > 0")
    (auto simp: deque_ok_def same_delivery_key seq_keys_mem, auto simp: seq_keys_def delivery_key_def)

lemma deque_ok_append: "deque_ok (xs @ ys) \<Longrightarrow> deque_ok xs \<and> deque_ok ys"
  by (auto simp: deque_ok_def)

lemma hm_wf_enqueue: "hm_wf q \<Longrightarrow> hm_wf (fst (enqueue a m q))"
  by (simp add: enqueue_def Let_def)

lemma queue_inv_new [simp, inv_intros]: "queue_inv queue_new"
  by (simp add: queue_inv_def) (simp add: queue_new_def)

lemma queue_inv_enqueue [inv_intros]:
  assumes "queue_inv q" shows "queue_inv (fst (enqueue a m q))"
proof -
  obtain q' r where e: "enqueue a m q = (q', r)" by (cases "enqueue a m q")
  from assms have ok: "deque_ok (pending q a)" by (simp add: queue_inv_def)
  from e have "deque_ok (pending q' a)"
  proof (cases rule: enqueue_cases)
    case updated
    with ok show ?thesis by (simp add: deque_ok_def seq_keys_replace_first)
  next
    case rejected
    with ok show ?thesis by simp
  next
    case queued
    with ok show ?thesis by (simp add: deque_ok_snoc)
  qed
  moreover have "hm_wf q'" using assms hm_wf_enqueue [of q a m] e by (simp add: queue_inv_def)
  ultimately show ?thesis
    using assms pending_enqueue_other [of _ a m q] e by (auto simp: queue_inv_def) metis
qed

lemma queue_inv_drain [inv_intros]: "queue_inv q \<Longrightarrow> queue_inv (snd (drain a q))"
  by (simp add: queue_inv_def) (simp add: drain_def)

lemma queue_inv_forget [inv_intros]: "queue_inv q \<Longrightarrow> queue_inv (forget a q)"
  by (simp add: queue_inv_def) (simp add: forget_def)

lemma deque_ok_take: "deque_ok xs \<Longrightarrow> deque_ok (take n xs)"
  by (metis append_take_drop_id deque_ok_append)

lemma queue_inv_prepend [inv_intros]:
  "queue_inv q \<Longrightarrow> distinct (seq_keys (ms @ pending q a)) \<Longrightarrow> queue_inv (prepend a ms q)"
proof -
  assume inv: "queue_inv q" and d: "distinct (seq_keys (ms @ pending q a))"
  let ?xs = "ms @ pending q a"
  have "distinct (seq_keys (take max_pending_per_agent ?xs))"
    using d by (metis append_take_drop_id distinct_append seq_keys_append)
  then have "deque_ok (take max_pending_per_agent ?xs)"
    by (simp add: deque_ok_def)
  with inv show ?thesis
    by (auto simp: queue_inv_def) (auto simp: prepend_def)
qed

section \<open>Isolation of agents\<close>

datatype queue_op =
    OpEnqueue agent_deliver_msg
  | OpDrain
  | OpPrepend "agent_deliver_msg list"
  | OpForget

fun queue_apply :: "agent_id \<Rightarrow> queue_op \<Rightarrow> delivery_queue \<Rightarrow> delivery_queue" where
  "queue_apply a (OpEnqueue m) q = fst (enqueue a m q)"
| "queue_apply a OpDrain q = snd (drain a q)"
| "queue_apply a (OpPrepend ms) q = prepend a ms q"
| "queue_apply a OpForget q = forget a q"

interpretation dq: keyed_store pending queue_apply
proof
  fix k k' :: agent_id and x s
  assume "k' \<noteq> k"
  then show "pending (queue_apply k x s) k' = pending s k'"
    by (cases x) simp_all
next
  fix s t k x
  assume "pending s k = pending t k"
  then show "pending (queue_apply k x s) k = pending (queue_apply k x t) k"
    by (cases x) (simp_all add: enqueue_def Let_def)
qed

section \<open>Bookkeeping of the total\<close>

lemma total_len_remove:
  "hm_wf q \<Longrightarrow> total_len q = total_len (hm_remove a q) + length (pending q a)"
  using hm_sum_remove [of q length a]
  by (simp add: total_len_def pending_def split: option.splits)

lemma total_len_insert:
  "hm_wf q \<Longrightarrow> total_len (hm_insert a xs q) + length (pending q a) = total_len q + length xs"
  using hm_sum_insert [of q length a xs] total_len_remove [of q a]
  by (simp add: total_len_def)

section \<open>Properties\<close>

text \<open>A delivery with the fields the queue reads, for the concrete instances below.\<close>

definition example_delivery :: "agent_id \<Rightarrow> int \<Rightarrow> int \<Rightarrow> uuid \<Rightarrow> agent_deliver_msg" where
  "example_delivery a seq attempt ch =
     \<lparr>ad_agent_id = a, ad_seq = seq, ad_attempt = attempt, ad_priority_class = [],
      ad_priority_reason = [], ad_priority_source = [], ad_responder_role = [],
      ad_delivery_tier = [], ad_routing_reason = [],
      ad_message = plain_message ch ''general'' ''ann'' ''hi'', ad_context = []\<rparr>"

lemma example_delivery_sel [simp]:
  "ad_agent_id (example_delivery a seq attempt ch) = a"
  "ad_seq (example_delivery a seq attempt ch) = seq"
  "ad_attempt (example_delivery a seq attempt ch) = attempt"
  "dm_channel_id (ad_message (example_delivery a seq attempt ch)) = ch"
  by (simp_all add: example_delivery_def)

lemma filter_same_unique:
  "distinct (seq_keys xs) \<Longrightarrow> ad_seq m > 0 \<Longrightarrow> m \<in> set xs \<Longrightarrow>
   filter (\<lambda>p. same_delivery p m) xs = [m]"
proof (induction xs)
  case Nil
  then show ?case by simp
next
  case (Cons x xs)
  show ?case
  proof (cases "same_delivery x m")
    case True
    then have pos: "ad_seq x > 0" using Cons.prems(2) by (simp add: same_delivery_def)
    then have fresh: "delivery_key x \<notin> set (seq_keys xs)" and d: "distinct (seq_keys xs)"
      using Cons.prems(1) by (auto simp: seq_keys_def)
    have none: "\<not> same_delivery p m" if "p \<in> set xs" for p
    proof
      assume "same_delivery p m"
      then have "delivery_key p = delivery_key x" and "ad_seq p > 0"
        using True Cons.prems(2) by (auto simp: same_delivery_key same_delivery_def delivery_key_def)
      with fresh that show False by (auto simp: seq_keys_mem)
    qed
    have "m \<notin> set xs" using none [of m] by (auto simp: same_delivery_def)
    with Cons.prems(3) True none show ?thesis by (auto simp: filter_empty_conv)
  next
    case False
    with Cons show ?thesis by (auto simp: seq_keys_def same_delivery_def split: if_splits)
  qed
qed

text \<open>
  Retry de-duplication: when a delivery with a positive sequence number is accepted by the
  queue, the agent's queue afterwards holds exactly one delivery with that sequence number and
  channel, and it is the newly arrived one.
\<close>

theorem enqueue_latest_unique:
  assumes "queue_inv q" and "ad_seq m > 0" and "snd (enqueue a m q) \<noteq> RejectedFull"
  shows "filter (\<lambda>p. same_delivery p m) (pending (fst (enqueue a m q)) a) = [m]"
proof -
  obtain q' r where e: "enqueue a m q = (q', r)" by (cases "enqueue a m q")
  have "queue_inv q'" using queue_inv_enqueue [OF assms(1), of a m] e by simp
  then have "distinct (seq_keys (pending q' a))" by (simp add: queue_inv_def deque_ok_def)
  moreover from e have "m \<in> set (pending q' a)"
  proof (cases rule: enqueue_cases)
    case updated
    then show ?thesis by (simp add: replace_first_mem)
  next
    case rejected
    with assms(3) e show ?thesis by simp
  next
    case queued
    then show ?thesis by simp
  qed
  ultimately show ?thesis using assms(2) e by (simp add: filter_same_unique)
qed

theorem enqueue_latest_unique_witness:
  "let q = fst (enqueue ''a'' (example_delivery ''a'' 7 1 5) queue_new);
       m = example_delivery ''a'' 7 2 5
   in filter (\<lambda>p. same_delivery p m) (pending (fst (enqueue ''a'' m q)) ''a'') = [m]"
proof -
  let ?q = "fst (enqueue ''a'' (example_delivery ''a'' 7 1 5) queue_new)"
  have "queue_inv ?q" by (intro inv_intros)
  moreover have "snd (enqueue ''a'' (example_delivery ''a'' 7 2 5) ?q) \<noteq> RejectedFull"
    by (simp add: enqueue_def Let_def same_delivery_def max_pending_per_agent_def)
  ultimately show ?thesis
    unfolding Let_def by (intro enqueue_latest_unique) simp_all
qed

lemma enqueue_all_pending:
  "deque_ok (pending q a @ ms) \<Longrightarrow>
   pending (fold (\<lambda>m q. fst (enqueue a m q)) ms q) a = pending q a @ ms"
proof (induction ms arbitrary: q)
  case Nil
  then show ?case by simp
next
  case (Cons m ms)
  from Cons.prems have len: "length (pending q a) < max_pending_per_agent"
    by (simp add: deque_ok_def)
  have new: "\<not> same_delivery p m" if "p \<in> set (pending q a)" "ad_seq m > 0" for p
  proof
    assume same: "same_delivery p m"
    then have "ad_seq p > 0" using that by (simp add: same_delivery_def)
    with same that have "delivery_key m \<in> set (seq_keys (pending q a))"
      by (auto simp: seq_keys_mem same_delivery_key)
    moreover have "delivery_key m \<in> set (seq_keys (m # ms))"
      using that by (auto simp: seq_keys_mem)
    ultimately show False using Cons.prems by (auto simp: deque_ok_def)
  qed
  have "pending (fst (enqueue a m q)) a = pending q a @ [m]"
    using len new by (auto simp: enqueue_def Let_def list_ex_iff)
  with Cons.IH [of "fst (enqueue a m q)"] Cons.prems show ?case by simp
qed

text \<open>
  Arrival order: up to 64 distinct deliveries enqueued for an agent are drained in exactly
  the order they arrived, and draining leaves nothing behind.
\<close>

theorem enqueue_drain_fifo:
  assumes "deque_ok ms"
  shows "fst (drain a (fold (\<lambda>m q. fst (enqueue a m q)) ms queue_new)) = ms
       \<and> fst (drain a (snd (drain a (fold (\<lambda>m q. fst (enqueue a m q)) ms queue_new)))) = []"
  using enqueue_all_pending [of queue_new a ms] assms by simp_all

theorem enqueue_drain_fifo_witness:
  "let ms = [example_delivery ''a'' 1 1 5, example_delivery ''a'' 2 1 5, example_delivery ''a'' 0 0 5]
   in fst (drain ''a'' (fold (\<lambda>m q. fst (enqueue ''a'' m q)) ms queue_new)) = ms"
  unfolding Let_def
  by (rule enqueue_drain_fifo [THEN conjunct1])
    (simp add: deque_ok_def seq_keys_def delivery_key_def max_pending_per_agent_def)

text \<open>Putting back what an interrupted flush could not send.\<close>

lemma prepend_rest_lemma:
  assumes "queue_inv q" and "pending q a = sent @ rest"
  shows "pending (prepend a rest (snd (drain a q))) a = rest
       \<and> queue_inv (prepend a rest (snd (drain a q)))
       \<and> (\<forall>b. b \<noteq> a \<longrightarrow> pending (prepend a rest (snd (drain a q))) b = pending q b)
       \<and> total_len q = total_len (prepend a rest (snd (drain a q))) + length sent"
proof -
  let ?q = "snd (drain a q)"
  from assms have ok: "deque_ok rest"
    by (metis deque_ok_append queue_inv_def)
  then have p: "pending (prepend a rest ?q) a = rest" by (simp add: deque_ok_def)
  have inv: "queue_inv (prepend a rest ?q)"
    using ok assms(1) by (intro inv_intros) (simp_all add: deque_ok_def)
  have wf: "hm_wf ?q" and "hm_wf (prepend a rest ?q)"
    using inv assms(1) by (simp_all add: queue_inv_def queue_inv_drain [unfolded queue_inv_def])
  have rem: "hm_remove a (prepend a rest ?q) = hm_remove a q"
  proof (cases "rest = []")
    case True
    then show ?thesis by (simp add: prepend_def drain_def)
  next
    case False
    have "hm_remove a (hm_insert a xs m) = hm_remove a m" for xs and m :: delivery_queue
      by (induction m) auto
    with False show ?thesis by (simp add: prepend_def drain_def)
  qed
  have "total_len (prepend a rest ?q) = total_len (hm_remove a q) + length rest"
    using total_len_remove [OF \<open>hm_wf (prepend a rest ?q)\<close>, of a] p rem by simp
  moreover have "total_len q = total_len (hm_remove a q) + length (sent @ rest)"
    using total_len_remove [of q a] assms by (simp add: queue_inv_def)
  ultimately show ?thesis using p inv by simp
qed

text \<open>
  An interrupted flush: when a prefix of an agent's drained deliveries was sent and the rest is
  put back, the agent's queue is exactly that rest in its order (truncation drops nothing), the
  invariant holds, other agents are untouched, and the total shrinks by what was sent.
\<close>

theorem prepend_restores_rest:
  assumes "queue_inv q" and "pending q a = sent @ rest"
  shows "pending (prepend a rest (snd (drain a q))) a = rest
       \<and> queue_inv (prepend a rest (snd (drain a q)))
       \<and> (\<forall>b. b \<noteq> a \<longrightarrow> pending (prepend a rest (snd (drain a q))) b = pending q b)
       \<and> total_len q = total_len (prepend a rest (snd (drain a q))) + length sent"
  using assms by (rule prepend_rest_lemma)

theorem prepend_restores_rest_witness:
  "let m1 = example_delivery ''a'' 1 1 5; m2 = example_delivery ''a'' 2 1 5;
       q = fst (enqueue ''a'' m2 (fst (enqueue ''a'' m1 queue_new)))
   in pending (prepend ''a'' [m2] (snd (drain ''a'' q))) ''a'' = [m2]
    \<and> total_len q = total_len (prepend ''a'' [m2] (snd (drain ''a'' q))) + 1"
proof -
  let ?m1 = "example_delivery ''a'' 1 1 5" and ?m2 = "example_delivery ''a'' 2 1 5"
  let ?q = "fst (enqueue ''a'' ?m2 (fst (enqueue ''a'' ?m1 queue_new)))"
  have "queue_inv ?q" by (intro inv_intros)
  moreover have "pending ?q ''a'' = [?m1] @ [?m2]"
    by (simp add: enqueue_def Let_def same_delivery_def max_pending_per_agent_def)
  ultimately show ?thesis
    using prepend_restores_rest [of ?q "''a''" "[?m1]" "[?m2]"] by (simp add: Let_def)
qed

text \<open>
  Isolation: what is pending for an agent after any interleaving of queue operations of all
  agents is what is pending after that agent's own operations alone.
\<close>

theorem queue_agent_isolation:
  "pending (fold (\<lambda>(b, x). queue_apply b x) ops q) a =
   pending (fold (\<lambda>(b, x). queue_apply b x) (filter (\<lambda>(b, x). b = a) ops) q) a"
  by (rule dq.view_run)

end
