(* ===== verification/WorkingMemory.thy ===== *)
theory WorkingMemory
  imports Protocol
begin

text \<open>
  The per-agent work anchors of \<open>crates/cocli-agent/src/working.rs\<close>. Formatting and parsing of
  UTC instants belong to the \<open>chrono\<close> crate: they are the parameters \<open>fmt\<close> and \<open>parse\<close>, and
  \<open>chrono_ok\<close> names what the code relies on, that an instant survives the round trip through
  its RFC 3339 text and that this text is not empty.
\<close>

section \<open>Text of an instant\<close>

definition chrono_ok :: "(timestamp \<Rightarrow> string) \<Rightarrow> (string \<Rightarrow> timestamp option) \<Rightarrow> bool" where
  "chrono_ok fmt parse \<longleftrightarrow> (\<forall>t. parse (fmt t) = Some t \<and> fmt t \<noteq> [])"

lemma chrono_okD [simp]:
  "chrono_ok fmt parse \<Longrightarrow> parse (fmt t) = Some t"
  "chrono_ok fmt parse \<Longrightarrow> fmt t \<noteq> []"
  by (simp_all add: chrono_ok_def)

text \<open>A concrete pair of functions with this behaviour, for the instances below.\<close>

definition unary_fmt :: "timestamp \<Rightarrow> string" where
  "unary_fmt t = (if 0 \<le> t then CHR ''+'' else CHR ''-'') # replicate (nat \<bar>t\<bar>) (CHR ''1'')"

definition unary_parse :: "string \<Rightarrow> timestamp option" where
  "unary_parse s =
     (case s of [] \<Rightarrow> None
      | c # r \<Rightarrow> if c = CHR ''+'' then Some (int (length r))
                 else if c = CHR ''-'' then Some (- int (length r)) else None)"

lemma chrono_ok_unary [simp]: "chrono_ok unary_fmt unary_parse"
  by (simp add: chrono_ok_def unary_fmt_def unary_parse_def)

section \<open>State and operations\<close>

type_synonym working_memory = "(agent_id, working_state_payload) hmap"

definition working_new :: working_memory where
  "working_new = []"

definition set_at ::
  "(timestamp \<Rightarrow> string) \<Rightarrow> (string \<Rightarrow> timestamp option) \<Rightarrow>
   agent_id \<Rightarrow> working_state_payload \<Rightarrow> timestamp \<Rightarrow> working_memory \<Rightarrow>
   working_state_payload \<times> working_memory" where
  "set_at fmt parse a payload now w =
     (let now_str = fmt now;
          (started_at, last_updated_at) =
            (case hm_get w a of
               Some prev \<Rightarrow>
                 (if ws_started_at prev = [] then now_str else ws_started_at prev,
                  case parse (ws_last_updated_at prev) of
                    Some prev_last \<Rightarrow> if prev_last \<ge> now then fmt (prev_last + 1) else now_str
                  | None \<Rightarrow> now_str)
             | None \<Rightarrow> (now_str, now_str));
          payload' = payload\<lparr>ws_started_at := started_at, ws_last_updated_at := last_updated_at\<rparr>
      in (payload', hm_insert a payload' w))"

definition working_get :: "agent_id \<Rightarrow> working_memory \<Rightarrow> working_state_payload option" where
  "working_get a w = hm_get w a"

definition working_clear :: "agent_id \<Rightarrow> working_memory \<Rightarrow> working_memory" where
  "working_clear a w = hm_remove a w"

section \<open>Views after an operation\<close>

lemma set_at_stores: "working_get a (snd (set_at fmt parse a p now w)) = Some (fst (set_at fmt parse a p now w))"
  by (simp add: set_at_def working_get_def Let_def split: prod.splits)

lemma set_at_other: "b \<noteq> a \<Longrightarrow> working_get b (snd (set_at fmt parse a p now w)) = working_get b w"
  by (simp add: set_at_def working_get_def Let_def split: prod.splits)

lemma working_get_clear [simp]: "working_get b (working_clear a w) = (if b = a then None else working_get b w)"
  by (simp add: working_get_def working_clear_def)

lemma working_get_new [simp]: "working_get a working_new = None"
  by (simp add: working_get_def working_new_def)

text \<open>The content of the payload is the caller's; only the two time stamps are the store's.\<close>

lemma set_at_content:
  "fst (set_at fmt parse a p now w) =
   p\<lparr>ws_started_at := ws_started_at (fst (set_at fmt parse a p now w)),
     ws_last_updated_at := ws_last_updated_at (fst (set_at fmt parse a p now w))\<rparr>"
  by (simp add: set_at_def Let_def split: prod.splits)

lemma set_at_first:
  "working_get a w = None \<Longrightarrow>
   ws_started_at (fst (set_at fmt parse a p now w)) = fmt now \<and>
   ws_last_updated_at (fst (set_at fmt parse a p now w)) = fmt now"
  by (simp add: set_at_def working_get_def Let_def)

lemma set_at_next:
  assumes "working_get a w = Some prev" and "ws_started_at prev \<noteq> []"
    and "parse (ws_last_updated_at prev) = Some t"
  shows "ws_started_at (fst (set_at fmt parse a p now w)) = ws_started_at prev
       \<and> ws_last_updated_at (fst (set_at fmt parse a p now w)) = fmt (max now (t + 1))"
proof -
  have "(if now \<le> t then fmt (t + 1) else fmt now) = fmt (max now (t + 1))"
    by (auto simp: max_def intro: arg_cong [of _ _ fmt])
  with assms show ?thesis by (simp add: set_at_def working_get_def Let_def)
qed

section \<open>Isolation of agents\<close>

datatype working_op = WorkingSet working_state_payload timestamp | WorkingClear

fun working_apply ::
  "(timestamp \<Rightarrow> string) \<Rightarrow> (string \<Rightarrow> timestamp option) \<Rightarrow>
   agent_id \<Rightarrow> working_op \<Rightarrow> working_memory \<Rightarrow> working_memory" where
  "working_apply fmt parse a (WorkingSet p now) w = snd (set_at fmt parse a p now w)"
| "working_apply fmt parse a WorkingClear w = working_clear a w"

interpretation wm: keyed_store "\<lambda>w a. working_get a w" "working_apply fmt parse" for fmt parse
proof
  fix k k' :: agent_id and x s
  assume "k' \<noteq> k"
  then show "working_get k' (working_apply fmt parse k x s) = working_get k' s"
    by (cases x) (simp_all add: set_at_other)
next
  fix s t k x
  assume "working_get k s = working_get k t"
  then show "working_get k (working_apply fmt parse k x s) = working_get k (working_apply fmt parse k x t)"
    by (cases x) (simp_all add: set_at_stores, simp add: set_at_def working_get_def Let_def case_prod_unfold)
qed

section \<open>Histories of an anchor\<close>

text \<open>The payloads returned by successive sets of one agent.\<close>

fun set_history ::
  "(timestamp \<Rightarrow> string) \<Rightarrow> (string \<Rightarrow> timestamp option) \<Rightarrow> agent_id \<Rightarrow>
   (working_state_payload \<times> timestamp) list \<Rightarrow> working_memory \<Rightarrow> working_state_payload list" where
  "set_history fmt parse a [] w = []"
| "set_history fmt parse a ((p, now) # xs) w =
     (let (r, w') = set_at fmt parse a p now w in r # set_history fmt parse a xs w')"

lemma set_history_next:
  assumes "chrono_ok fmt parse" and "working_get a w = Some prev"
    and "ws_started_at prev = fmt t0" and "ws_last_updated_at prev = fmt t1"
  shows "\<exists>ts. map ws_last_updated_at (set_history fmt parse a xs w) = map fmt ts
            \<and> sorted_wrt (<) (t1 # ts)
            \<and> (\<forall>r \<in> set (set_history fmt parse a xs w). ws_started_at r = fmt t0)"
  using assms(2-4)
proof (induction xs arbitrary: w prev t1)
  case Nil
  then show ?case by simp
next
  case (Cons x xs)
  obtain p now where x: "x = (p, now)" by (cases x)
  let ?r = "fst (set_at fmt parse a p now w)" and ?w = "snd (set_at fmt parse a p now w)"
  let ?t = "max now (t1 + 1)"
  have r: "ws_started_at ?r = fmt t0" "ws_last_updated_at ?r = fmt ?t"
    using set_at_next [of a w prev parse t1 fmt p now] Cons.prems assms(1) by simp_all
  from Cons.IH [OF set_at_stores r] obtain ts where
    ts: "map ws_last_updated_at (set_history fmt parse a xs ?w) = map fmt ts"
        "sorted_wrt (<) (?t # ts)"
        "\<forall>r \<in> set (set_history fmt parse a xs ?w). ws_started_at r = fmt t0" by blast
  then have "sorted_wrt (<) (t1 # ?t # ts)" by auto
  with ts r x show ?case
    by (intro exI [of _ "?t # ts"]) (simp add: case_prod_unfold Let_def)
qed

section \<open>Properties\<close>

text \<open>
  Monotone anchors: however the wall clock moves between calls, the anchors returned by
  successive sets of a fresh agent carry strictly increasing update times, the first of them the
  time of the first call, and all keep the start time of the first call.
\<close>

theorem working_set_history:
  assumes "chrono_ok fmt parse" and "working_get a w = None"
  shows "\<exists>ts. map ws_last_updated_at (set_history fmt parse a ((p, now) # xs) w) = map fmt (now # ts)
            \<and> sorted_wrt (<) (now # ts)
            \<and> (\<forall>r \<in> set (set_history fmt parse a ((p, now) # xs) w). ws_started_at r = fmt now)"
proof -
  let ?r = "fst (set_at fmt parse a p now w)" and ?w = "snd (set_at fmt parse a p now w)"
  have r: "ws_started_at ?r = fmt now" "ws_last_updated_at ?r = fmt now"
    using set_at_first [OF assms(2), of fmt parse p now] by simp_all
  from set_history_next [OF assms(1) set_at_stores r] obtain ts where
    "map ws_last_updated_at (set_history fmt parse a xs ?w) = map fmt ts"
    "sorted_wrt (<) (now # ts)"
    "\<forall>r \<in> set (set_history fmt parse a xs ?w). ws_started_at r = fmt now" by blast
  with r show ?thesis
    by (intro exI [of _ ts]) (simp add: case_prod_unfold Let_def)
qed

definition example_payload :: "string \<Rightarrow> working_state_payload" where
  "example_payload s =
     \<lparr>ws_task_id = None, ws_task_number = 0, ws_channel_name = [], ws_summary = s,
      ws_next_step_hint = [], ws_started_at = [], ws_last_updated_at = []\<rparr>"

theorem working_set_history_witness:
  "\<exists>ts. map ws_last_updated_at
          (set_history unary_fmt unary_parse ''a''
            [(example_payload ''x'', 10), (example_payload ''y'', 4), (example_payload ''z'', 10)] working_new)
        = map unary_fmt (10 # ts) \<and> sorted_wrt (<) (10 # ts)"
proof -
  have "chrono_ok unary_fmt unary_parse" and "working_get ''a'' working_new = None" by simp_all
  from working_set_history [OF this, of "example_payload ''x''" 10
      "[(example_payload ''y'', 4), (example_payload ''z'', 10)]"]
  show ?thesis by blast
qed

text \<open>
  Isolation: an agent's anchor after any interleaving of sets and clears of all agents is
  the one its own sets and clears leave.
\<close>

theorem working_agent_isolation:
  "working_get a (fold (\<lambda>(b, x). working_apply fmt parse b x) ops w) =
   working_get a (fold (\<lambda>(b, x). working_apply fmt parse b x) (filter (\<lambda>(b, x). b = a) ops) w)"
  by (rule wm.view_run)

end
