(* ===== verification/Metrics.thy ===== *)
theory Metrics
  imports Prelude
begin

text \<open>
  The agent counters and gauges of \<open>crates/cocli-agent/src/metrics.rs\<close>. An \<open>AtomicU64\<close> is a
  64-bit word: \<open>fetch_add\<close> wraps around, as the atomics do; the two active gauges are decremented
  with saturation.
\<close>

section \<open>State\<close>

record agent_metrics =
  delivery_queue_buffered_total :: u64
  delivery_queue_updated_total :: u64
  delivery_queue_rejected_total :: u64
  delivery_queue_flush_sent_total :: u64
  delivery_queue_rebuffered_total :: u64
  delivery_queue_depth :: u64
  turn_exit_queued_total :: u64
  turn_exit_duplicate_total :: u64
  turn_exit_respawn_total :: u64
  turn_exit_respawn_failure_total :: u64
  turn_exit_pending_depth :: u64
  recovery_probe_scheduled_total :: u64
  recovery_probe_recovered_total :: u64
  recovery_probe_error_total :: u64
  recovery_tracked_agents :: u64
  local_session_started_total :: u64
  local_session_reused_total :: u64
  local_session_stopped_total :: u64
  local_turn_started_total :: u64
  local_turn_completed_total :: u64
  local_turn_failed_total :: u64
  local_turn_cancelled_total :: u64
  local_turn_timed_out_total :: u64
  local_watchdog_restart_total :: u64
  local_watchdog_failure_total :: u64
  local_watchdog_exhausted_total :: u64
  local_active_sessions :: u64
  local_active_turns :: u64

record agent_metrics_snapshot =
  counters :: "(string, int) hmap"
  gauges :: "(string, nat) hmap"

definition metrics_default :: agent_metrics where
  "metrics_default = \<lparr>delivery_queue_buffered_total = 0,
     delivery_queue_updated_total = 0, delivery_queue_rejected_total = 0,
     delivery_queue_flush_sent_total = 0, delivery_queue_rebuffered_total = 0,
     delivery_queue_depth = 0, turn_exit_queued_total = 0, turn_exit_duplicate_total = 0,
     turn_exit_respawn_total = 0, turn_exit_respawn_failure_total = 0,
     turn_exit_pending_depth = 0, recovery_probe_scheduled_total = 0,
     recovery_probe_recovered_total = 0, recovery_probe_error_total = 0,
     recovery_tracked_agents = 0, local_session_started_total = 0,
     local_session_reused_total = 0, local_session_stopped_total = 0,
     local_turn_started_total = 0, local_turn_completed_total = 0, local_turn_failed_total = 0,
     local_turn_cancelled_total = 0, local_turn_timed_out_total = 0,
     local_watchdog_restart_total = 0, local_watchdog_failure_total = 0,
     local_watchdog_exhausted_total = 0, local_active_sessions = 0, local_active_turns = 0\<rparr>"

section \<open>Operations\<close>

text \<open>\<open>saturating_decrement\<close>: \<open>fetch_update\<close> with \<open>saturating_sub(1)\<close>.\<close>

definition saturating_decrement :: "u64 \<Rightarrow> u64" where
  "saturating_decrement x = (if x = 0 then 0 else x - 1)"

definition inc_delivery_queue_buffered :: "agent_metrics \<Rightarrow> agent_metrics" where
  "inc_delivery_queue_buffered m = m\<lparr>delivery_queue_buffered_total := delivery_queue_buffered_total m + 1\<rparr>"

definition inc_delivery_queue_updated :: "agent_metrics \<Rightarrow> agent_metrics" where
  "inc_delivery_queue_updated m = m\<lparr>delivery_queue_updated_total := delivery_queue_updated_total m + 1\<rparr>"

definition inc_delivery_queue_rejected :: "agent_metrics \<Rightarrow> agent_metrics" where
  "inc_delivery_queue_rejected m = m\<lparr>delivery_queue_rejected_total := delivery_queue_rejected_total m + 1\<rparr>"

definition add_delivery_queue_flush_sent :: "nat \<Rightarrow> agent_metrics \<Rightarrow> agent_metrics" where
  "add_delivery_queue_flush_sent count m = m\<lparr>delivery_queue_flush_sent_total := delivery_queue_flush_sent_total m + of_nat count\<rparr>"

definition add_delivery_queue_rebuffered :: "nat \<Rightarrow> agent_metrics \<Rightarrow> agent_metrics" where
  "add_delivery_queue_rebuffered count m = m\<lparr>delivery_queue_rebuffered_total := delivery_queue_rebuffered_total m + of_nat count\<rparr>"

definition set_delivery_queue_depth :: "nat \<Rightarrow> agent_metrics \<Rightarrow> agent_metrics" where
  "set_delivery_queue_depth depth m = m\<lparr>delivery_queue_depth := of_nat depth\<rparr>"

definition inc_turn_exit_queued :: "agent_metrics \<Rightarrow> agent_metrics" where
  "inc_turn_exit_queued m = m\<lparr>turn_exit_queued_total := turn_exit_queued_total m + 1\<rparr>"

definition inc_turn_exit_duplicate :: "agent_metrics \<Rightarrow> agent_metrics" where
  "inc_turn_exit_duplicate m = m\<lparr>turn_exit_duplicate_total := turn_exit_duplicate_total m + 1\<rparr>"

definition inc_turn_exit_respawn :: "agent_metrics \<Rightarrow> agent_metrics" where
  "inc_turn_exit_respawn m = m\<lparr>turn_exit_respawn_total := turn_exit_respawn_total m + 1\<rparr>"

definition inc_turn_exit_respawn_failure :: "agent_metrics \<Rightarrow> agent_metrics" where
  "inc_turn_exit_respawn_failure m = m\<lparr>turn_exit_respawn_failure_total := turn_exit_respawn_failure_total m + 1\<rparr>"

definition set_turn_exit_pending_depth :: "nat \<Rightarrow> agent_metrics \<Rightarrow> agent_metrics" where
  "set_turn_exit_pending_depth depth m = m\<lparr>turn_exit_pending_depth := of_nat depth\<rparr>"

definition inc_recovery_probe_scheduled :: "agent_metrics \<Rightarrow> agent_metrics" where
  "inc_recovery_probe_scheduled m = m\<lparr>recovery_probe_scheduled_total := recovery_probe_scheduled_total m + 1\<rparr>"

definition inc_recovery_probe_recovered :: "agent_metrics \<Rightarrow> agent_metrics" where
  "inc_recovery_probe_recovered m = m\<lparr>recovery_probe_recovered_total := recovery_probe_recovered_total m + 1\<rparr>"

definition inc_recovery_probe_error :: "agent_metrics \<Rightarrow> agent_metrics" where
  "inc_recovery_probe_error m = m\<lparr>recovery_probe_error_total := recovery_probe_error_total m + 1\<rparr>"

definition set_recovery_tracked_agents :: "nat \<Rightarrow> agent_metrics \<Rightarrow> agent_metrics" where
  "set_recovery_tracked_agents count m = m\<lparr>recovery_tracked_agents := of_nat count\<rparr>"

definition inc_local_session_started :: "agent_metrics \<Rightarrow> agent_metrics" where
  "inc_local_session_started m = m\<lparr>local_session_started_total := local_session_started_total m + 1\<rparr>"

definition inc_local_session_reused :: "agent_metrics \<Rightarrow> agent_metrics" where
  "inc_local_session_reused m = m\<lparr>local_session_reused_total := local_session_reused_total m + 1\<rparr>"

definition inc_local_session_stopped :: "agent_metrics \<Rightarrow> agent_metrics" where
  "inc_local_session_stopped m = m\<lparr>local_session_stopped_total := local_session_stopped_total m + 1\<rparr>"

definition inc_local_turn_started :: "agent_metrics \<Rightarrow> agent_metrics" where
  "inc_local_turn_started m = m\<lparr>local_turn_started_total := local_turn_started_total m + 1\<rparr>"

definition inc_local_turn_completed :: "agent_metrics \<Rightarrow> agent_metrics" where
  "inc_local_turn_completed m = m\<lparr>local_turn_completed_total := local_turn_completed_total m + 1\<rparr>"

definition inc_local_turn_failed :: "agent_metrics \<Rightarrow> agent_metrics" where
  "inc_local_turn_failed m = m\<lparr>local_turn_failed_total := local_turn_failed_total m + 1\<rparr>"

definition inc_local_turn_cancelled :: "agent_metrics \<Rightarrow> agent_metrics" where
  "inc_local_turn_cancelled m = m\<lparr>local_turn_cancelled_total := local_turn_cancelled_total m + 1\<rparr>"

definition inc_local_turn_timed_out :: "agent_metrics \<Rightarrow> agent_metrics" where
  "inc_local_turn_timed_out m = m\<lparr>local_turn_timed_out_total := local_turn_timed_out_total m + 1\<rparr>"

definition inc_local_watchdog_restart :: "agent_metrics \<Rightarrow> agent_metrics" where
  "inc_local_watchdog_restart m = m\<lparr>local_watchdog_restart_total := local_watchdog_restart_total m + 1\<rparr>"

definition inc_local_watchdog_failure :: "agent_metrics \<Rightarrow> agent_metrics" where
  "inc_local_watchdog_failure m = m\<lparr>local_watchdog_failure_total := local_watchdog_failure_total m + 1\<rparr>"

definition inc_local_watchdog_exhausted :: "agent_metrics \<Rightarrow> agent_metrics" where
  "inc_local_watchdog_exhausted m = m\<lparr>local_watchdog_exhausted_total := local_watchdog_exhausted_total m + 1\<rparr>"

definition inc_local_active_sessions :: "agent_metrics \<Rightarrow> agent_metrics" where
  "inc_local_active_sessions m = m\<lparr>local_active_sessions := local_active_sessions m + 1\<rparr>"

definition dec_local_active_sessions :: "agent_metrics \<Rightarrow> agent_metrics" where
  "dec_local_active_sessions m = m\<lparr>local_active_sessions := saturating_decrement (local_active_sessions m)\<rparr>"

definition inc_local_active_turns :: "agent_metrics \<Rightarrow> agent_metrics" where
  "inc_local_active_turns m = m\<lparr>local_active_turns := local_active_turns m + 1\<rparr>"

definition dec_local_active_turns :: "agent_metrics \<Rightarrow> agent_metrics" where
  "dec_local_active_turns m = m\<lparr>local_active_turns := saturating_decrement (local_active_turns m)\<rparr>"

section \<open>Snapshot\<close>

definition saturating_i64 :: "u64 \<Rightarrow> int" where
  "saturating_i64 x = (if uint x \<le> i64_max then uint x else i64_max)"

text \<open>
  \<open>x as f64\<close> rounds to the nearest double, ties to even: 53 significant bits are kept. A double
  that comes from a \<open>u64\<close> is a natural number, which is what the model keeps of it.
\<close>

fun bit_len :: "nat \<Rightarrow> nat" where
  "bit_len n = (if n = 0 then 0 else Suc (bit_len (n div 2)))"

declare bit_len.simps [simp del]

definition u64_as_f64 :: "u64 \<Rightarrow> nat" where
  "u64_as_f64 x =
     (let n = unat x; e = bit_len n - 53; q = n div 2 ^ e; r = n mod 2 ^ e
      in if e = 0 then n
         else if 2 * r > 2 ^ e \<or> (2 * r = 2 ^ e \<and> odd q) then (q + 1) * 2 ^ e
         else q * 2 ^ e)"

definition snapshot :: "agent_metrics \<Rightarrow> agent_metrics_snapshot" where
  "snapshot m =
     \<lparr>counters =
       [(''agent_delivery_queue_buffered_total'', saturating_i64 (delivery_queue_buffered_total m)),
        (''agent_delivery_queue_updated_total'', saturating_i64 (delivery_queue_updated_total m)),
        (''agent_delivery_queue_rejected_total'', saturating_i64 (delivery_queue_rejected_total m)),
        (''agent_delivery_queue_flush_sent_total'', saturating_i64 (delivery_queue_flush_sent_total m)),
        (''agent_delivery_queue_rebuffered_total'', saturating_i64 (delivery_queue_rebuffered_total m)),
        (''agent_turn_exit_queued_total'', saturating_i64 (turn_exit_queued_total m)),
        (''agent_turn_exit_duplicate_total'', saturating_i64 (turn_exit_duplicate_total m)),
        (''agent_turn_exit_respawn_total'', saturating_i64 (turn_exit_respawn_total m)),
        (''agent_turn_exit_respawn_failure_total'', saturating_i64 (turn_exit_respawn_failure_total m)),
        (''agent_recovery_probe_scheduled_total'', saturating_i64 (recovery_probe_scheduled_total m)),
        (''agent_recovery_probe_recovered_total'', saturating_i64 (recovery_probe_recovered_total m)),
        (''agent_recovery_probe_error_total'', saturating_i64 (recovery_probe_error_total m)),
        (''local_agent_session_started_total'', saturating_i64 (local_session_started_total m)),
        (''local_agent_session_reused_total'', saturating_i64 (local_session_reused_total m)),
        (''local_agent_session_stopped_total'', saturating_i64 (local_session_stopped_total m)),
        (''local_agent_turn_started_total'', saturating_i64 (local_turn_started_total m)),
        (''local_agent_turn_completed_total'', saturating_i64 (local_turn_completed_total m)),
        (''local_agent_turn_failed_total'', saturating_i64 (local_turn_failed_total m)),
        (''local_agent_turn_cancelled_total'', saturating_i64 (local_turn_cancelled_total m)),
        (''local_agent_turn_timed_out_total'', saturating_i64 (local_turn_timed_out_total m)),
        (''local_agent_watchdog_restart_total'', saturating_i64 (local_watchdog_restart_total m)),
        (''local_agent_watchdog_failure_total'', saturating_i64 (local_watchdog_failure_total m)),
        (''local_agent_watchdog_exhausted_total'', saturating_i64 (local_watchdog_exhausted_total m))],
      gauges =
       [(''agent_delivery_queue_depth'', u64_as_f64 (delivery_queue_depth m)),
        (''agent_turn_exit_pending_depth'', u64_as_f64 (turn_exit_pending_depth m)),
        (''agent_recovery_tracked_agents'', u64_as_f64 (recovery_tracked_agents m)),
        (''local_agent_active_sessions'', u64_as_f64 (local_active_sessions m)),
        (''local_agent_active_turns'', u64_as_f64 (local_active_turns m))]\<rparr>"

section \<open>Lemmas\<close>

lemmas metrics_op_defs =
  inc_delivery_queue_buffered_def inc_delivery_queue_updated_def inc_delivery_queue_rejected_def
  add_delivery_queue_flush_sent_def add_delivery_queue_rebuffered_def set_delivery_queue_depth_def

lemma saturating_i64_bounds: "0 \<le> saturating_i64 x \<and> saturating_i64 x \<le> i64_max"
  by (simp add: saturating_i64_def i64_max_def)

lemma saturating_i64_exact: "uint x \<le> i64_max \<Longrightarrow> saturating_i64 x = uint x"
  by (simp add: saturating_i64_def)

lemma saturating_decrement_no_wrap: "unat (saturating_decrement x) = unat x - 1"
  by (auto simp: saturating_decrement_def unat_minus_one)

lemma bit_len_le: "n < 2 ^ k \<Longrightarrow> bit_len n \<le> k"
proof (induction k arbitrary: n)
  case 0
  then show ?case by (simp add: bit_len.simps)
next
  case (Suc k)
  then have "bit_len (n div 2) \<le> k" by (simp add: less_mult_imp_div_less)
  then show ?case by (subst bit_len.simps) simp
qed

lemma bit_len_pos_le: "n \<noteq> 0 \<Longrightarrow> 2 ^ (bit_len n - 1) \<le> n \<and> bit_len n \<noteq> 0"
proof (induction n rule: bit_len.induct)
  case (1 n)
  show ?case
  proof (cases "n div 2 = 0")
    case True
    with "1.prems" have "n = 1" by linarith
    then show ?thesis by (simp add: bit_len.simps)
  next
    case False
    with "1.IH" "1.prems" have ih: "2 ^ (bit_len (n div 2) - 1) \<le> n div 2" "bit_len (n div 2) \<noteq> 0"
      by auto
    then have "2 ^ bit_len (n div 2) \<le> n"
      by (cases "bit_len (n div 2)") (auto simp: mult.commute less_eq_div_iff_mult_less_eq)
    with "1.prems" show ?thesis by (simp add: bit_len.simps [of n])
  qed
qed

lemma u64_as_f64_exact: "unat x < 2 ^ 53 \<Longrightarrow> u64_as_f64 x = unat x"
  using bit_len_le [of "unat x" 53] by (simp add: u64_as_f64_def Let_def)

text \<open>The rounding error is at most half a unit of the last kept bit.\<close>

lemma round_even_error:
  fixes n m :: nat
  assumes "0 < m"
  defines "v \<equiv> (if 2 * (n mod m) > m \<or> (2 * (n mod m) = m \<and> odd (n div m)) then (n div m + 1) * m
               else n div m * m)"
  shows "2 * v \<le> 2 * n + m \<and> 2 * n \<le> 2 * v + m"
proof -
  have n: "n = n div m * m + n mod m" by simp
  have r: "n mod m < m" using assms(1) by simp
  have up: "(n div m + 1) * m = n div m * m + m" by simp
  show ?thesis
  proof (cases "2 * (n mod m) > m \<or> (2 * (n mod m) = m \<and> odd (n div m))")
    case True
    then have "v = n div m * m + m" and "m \<le> 2 * (n mod m)" using up by (auto simp: v_def)
    with n r show ?thesis by linarith
  next
    case False
    then have "v = n div m * m" and "2 * (n mod m) \<le> m" by (auto simp: v_def)
    with n r show ?thesis by linarith
  qed
qed

lemma u64_as_f64_error:
  "2 * u64_as_f64 x \<le> 2 * unat x + 2 ^ (bit_len (unat x) - 53) \<and>
   2 * unat x \<le> 2 * u64_as_f64 x + 2 ^ (bit_len (unat x) - 53)"
  using round_even_error [of "2 ^ (bit_len (unat x) - 53)" "unat x"]
  unfolding u64_as_f64_def Let_def by (simp only: zero_less_power zero_less_numeral simp_thms split: if_split) auto

end
