(* ===== verification/RustStr.thy ===== *)
theory RustStr
  imports Prelude "HOL-Library.Sublist"
begin

text \<open>
  The string operations of the Rust standard library that the sources call, on UTF-8 byte
  sequences: \<open>trim\<close>, \<open>to_ascii_lowercase\<close>, \<open>eq_ignore_ascii_case\<close>, \<open>starts_with\<close>, \<open>contains\<close>,
  \<open>strip_prefix\<close>, \<open>split_once\<close>. \<open>trim\<close> removes Unicode \<open>White_Space\<close>, so the model lists the
  UTF-8 encodings of those code points; UTF-8 is self-synchronising, so matching whole
  encodings at either end of a valid string is matching code points.
\<close>

section \<open>Trimming\<close>

definition ws_seqs :: "string list" where
  "ws_seqs =
    [[CHR 0x09], [CHR 0x0A], [CHR 0x0B], [CHR 0x0C], [CHR 0x0D], [CHR 0x20],
     [CHR 0xC2, CHR 0x85], [CHR 0xC2, CHR 0xA0], [CHR 0xE1, CHR 0x9A, CHR 0x80]]
    @ map (\<lambda>c. [CHR 0xE2, CHR 0x80, c])
       [CHR 0x80, CHR 0x81, CHR 0x82, CHR 0x83, CHR 0x84, CHR 0x85, CHR 0x86, CHR 0x87,
        CHR 0x88, CHR 0x89, CHR 0x8A, CHR 0xA8, CHR 0xA9, CHR 0xAF]
    @ [[CHR 0xE2, CHR 0x81, CHR 0x9F], [CHR 0xE3, CHR 0x80, CHR 0x80]]"

text \<open>Strip elements of \<open>ws\<close> from the front for as long as one matches.\<close>

function strip_any :: "'a list list \<Rightarrow> 'a list \<Rightarrow> 'a list" where
  "strip_any ws s =
     (case List.find (\<lambda>w. w \<noteq> [] \<and> prefix w s) ws of
        None \<Rightarrow> s
      | Some w \<Rightarrow> strip_any ws (drop (length w) s))"
  by pat_completeness auto
termination
  by (relation "measure (length \<circ> snd)")
    (auto simp: find_Some_iff prefix_def)

declare strip_any.simps [simp del]

definition trim_start :: "string \<Rightarrow> string" where
  "trim_start s = strip_any ws_seqs s"

definition trim_end :: "string \<Rightarrow> string" where
  "trim_end s = rev (strip_any (map rev ws_seqs) (rev s))"

definition trim :: "string \<Rightarrow> string" where
  "trim s = trim_end (trim_start s)"

definition no_front :: "'a list list \<Rightarrow> 'a list \<Rightarrow> bool" where
  "no_front ws s \<longleftrightarrow> (\<forall>w \<in> set ws. w \<noteq> [] \<longrightarrow> \<not> prefix w s)"

lemma strip_any_no_front: "no_front ws (strip_any ws s)"
proof (induction ws s rule: strip_any.induct)
  case (1 ws s)
  show ?case
  proof (cases "List.find (\<lambda>w. w \<noteq> [] \<and> prefix w s) ws")
    case None
    then have "strip_any ws s = s" by (subst strip_any.simps) simp
    with None show ?thesis by (auto simp: no_front_def find_None_iff)
  next
    case (Some w)
    with "1.IH" show ?thesis
      by (subst strip_any.simps) simp
  qed
qed

lemma strip_any_id: "no_front ws s \<Longrightarrow> strip_any ws s = s"
proof -
  assume "no_front ws s"
  then have "List.find (\<lambda>w. w \<noteq> [] \<and> prefix w s) ws = None"
    by (auto simp: no_front_def find_None_iff)
  then show ?thesis
    by (subst strip_any.simps) simp
qed

lemma strip_any_suffix: "suffix (strip_any ws s) s"
proof (induction ws s rule: strip_any.induct)
  case (1 ws s)
  show ?case
  proof (cases "List.find (\<lambda>w. w \<noteq> [] \<and> prefix w s) ws")
    case None
    then show ?thesis by (subst strip_any.simps) simp
  next
    case (Some w)
    with "1.IH" have "suffix (strip_any ws (drop (length w) s)) s"
      by (meson suffix_drop suffix_order.trans)
    with Some show ?thesis by (subst strip_any.simps) simp
  qed
qed

lemma trim_end_prefix: "prefix (trim_end s) s"
  using strip_any_suffix [of "map rev ws_seqs" "rev s"]
  by (simp add: trim_end_def suffix_to_prefix)

text \<open>Trimming leaves nothing to trim.\<close>

lemma trim_no_front: "no_front ws_seqs (trim s)"
  unfolding trim_def trim_start_def
  using strip_any_no_front [of ws_seqs s] trim_end_prefix [of "strip_any ws_seqs s"]
  by (auto simp: no_front_def intro: prefix_order.trans)

lemma trim_idem [simp]: "trim (trim s) = trim s"
proof -
  have "trim_start (trim s) = trim s"
    by (simp add: trim_start_def strip_any_id trim_no_front)
  moreover have "trim_end (trim s) = trim s"
    by (simp add: trim_def trim_end_def strip_any_id strip_any_no_front)
  ultimately show ?thesis by (metis trim_def)
qed

lemma strip_any_Nil [simp]: "strip_any ws [] = []"
  using strip_any_suffix [of ws "[]"] by simp

lemma trim_Nil [simp]: "trim [] = []"
  by (simp add: trim_def trim_start_def trim_end_def)

lemma trim_length: "length (trim s) \<le> length s"
  using strip_any_suffix [of ws_seqs s] trim_end_prefix [of "strip_any ws_seqs s"]
  by (auto simp: trim_def trim_start_def dest!: prefix_length_le suffix_length_le)

section \<open>ASCII case\<close>

definition to_ascii_lowercase_char :: "char \<Rightarrow> char" where
  "to_ascii_lowercase_char c =
     (if 65 \<le> (of_char c :: nat) \<and> (of_char c :: nat) \<le> 90 then char_of ((of_char c :: nat) + 32) else c)"

definition to_ascii_lowercase :: "string \<Rightarrow> string" where
  "to_ascii_lowercase s = map to_ascii_lowercase_char s"

definition eq_ignore_ascii_case :: "string \<Rightarrow> string \<Rightarrow> bool" where
  "eq_ignore_ascii_case a b \<longleftrightarrow> to_ascii_lowercase a = to_ascii_lowercase b"

lemma to_ascii_lowercase_char_idem [simp]:
  "to_ascii_lowercase_char (to_ascii_lowercase_char c) = to_ascii_lowercase_char c"
  by (auto simp: to_ascii_lowercase_char_def)

lemma to_ascii_lowercase_idem [simp]:
  "to_ascii_lowercase (to_ascii_lowercase s) = to_ascii_lowercase s"
  by (simp add: to_ascii_lowercase_def)

lemma to_ascii_lowercase_append [simp]:
  "to_ascii_lowercase (a @ b) = to_ascii_lowercase a @ to_ascii_lowercase b"
  by (simp add: to_ascii_lowercase_def)

section \<open>Searching and splitting\<close>

abbreviation starts_with :: "string \<Rightarrow> string \<Rightarrow> bool" where
  "starts_with s p \<equiv> prefix p s"

abbreviation contains :: "string \<Rightarrow> string \<Rightarrow> bool" where
  "contains s p \<equiv> sublist p s"

definition strip_prefix :: "string \<Rightarrow> string \<Rightarrow> string option" where
  "strip_prefix p s = (if prefix p s then Some (drop (length p) s) else None)"

lemma strip_prefix_Some_iff: "strip_prefix p s = Some r \<longleftrightarrow> s = p @ r"
  by (auto simp: strip_prefix_def prefix_def)

fun split_once :: "string \<Rightarrow> string \<Rightarrow> (string \<times> string) option" where
  "split_once p [] = (if p = [] then Some ([], []) else None)"
| "split_once p (c # s) =
     (if prefix p (c # s) then Some ([], drop (length p) (c # s))
      else map_option (\<lambda>(a, b). (c # a, b)) (split_once p s))"

lemma split_once_Some: "split_once p s = Some (a, b) \<Longrightarrow> s = a @ p @ b"
proof (induction s arbitrary: a)
  case Nil
  then show ?case by (simp split: if_splits)
next
  case (Cons c s)
  then show ?case by (auto simp: prefix_def split: if_splits)
qed

lemma split_once_None_iff: "split_once p s = None \<longleftrightarrow> \<not> sublist p s"
proof (induction s)
  case Nil
  then show ?case by simp
next
  case (Cons c s)
  then show ?case by (auto simp: sublist_Cons_right)
qed

section \<open>Lines\<close>

text \<open>\<open>str::lines\<close>: the text up to each line feed, less one carriage return before it; no line after a final line feed.\<close>

definition strip_cr :: "string \<Rightarrow> string" where
  "strip_cr l = (if l \<noteq> [] \<and> last l = CHR 0x0D then butlast l else l)"

fun lines_from :: "string \<Rightarrow> string \<Rightarrow> string list" where
  "lines_from cur [] = (if cur = [] then [] else [rev cur])"
| "lines_from cur (c # cs) =
     (if c = CHR 0x0A then strip_cr (rev cur) # lines_from [] cs else lines_from (c # cur) cs)"

definition rust_lines :: "string \<Rightarrow> string list" where
  "rust_lines s = lines_from [] s"

lemma lines_from_line: "CHR 0x0A \<notin> set a \<Longrightarrow> lines_from cur (a @ CHR 0x0A # b) = strip_cr (rev cur @ a) # lines_from [] b"
  by (induction a arbitrary: cur) auto

lemma lines_from_last: "CHR 0x0A \<notin> set a \<Longrightarrow> a \<noteq> [] \<or> cur \<noteq> [] \<Longrightarrow> lines_from cur a = [rev cur @ a]"
  by (induction a arbitrary: cur) auto

lemma rust_lines_line: "CHR 0x0A \<notin> set a \<Longrightarrow> rust_lines (a @ CHR 0x0A # b) = strip_cr a # rust_lines b"
  by (simp add: rust_lines_def lines_from_line)

lemma rust_lines_last: "CHR 0x0A \<notin> set a \<Longrightarrow> a \<noteq> [] \<Longrightarrow> rust_lines a = [a]"
  by (simp add: rust_lines_def lines_from_last)

lemma strip_cr_id: "CHR 0x0D \<notin> set a \<Longrightarrow> strip_cr a = a"
  by (auto simp: strip_cr_def dest: last_in_set)

section \<open>UTF-8\<close>

text \<open>\<open>String::from_utf8\<close> accepts exactly the well-formed byte sequences.\<close>

definition byte_in :: "nat \<Rightarrow> nat \<Rightarrow> char \<Rightarrow> bool" where
  "byte_in lo hi c \<longleftrightarrow> lo \<le> of_char c \<and> of_char c \<le> hi"

abbreviation cont_byte :: "char \<Rightarrow> bool" where
  "cont_byte \<equiv> byte_in 0x80 0xBF"

text \<open>The length of the character at the front, 0 when it is malformed.\<close>

definition utf8_len :: "string \<Rightarrow> nat" where
  "utf8_len s =
     (case s of [] \<Rightarrow> 0
      | b0 # t \<Rightarrow>
         if byte_in 0 0x7F b0 then 1
         else (case t of [] \<Rightarrow> 0
          | b1 # t \<Rightarrow>
             if byte_in 0xC2 0xDF b0 \<and> cont_byte b1 then 2
             else (case t of [] \<Rightarrow> 0
              | b2 # t \<Rightarrow>
                 if cont_byte b2 \<and>
                    (byte_in 0xE0 0xE0 b0 \<and> byte_in 0xA0 0xBF b1 \<or>
                     (byte_in 0xE1 0xEC b0 \<or> byte_in 0xEE 0xEF b0) \<and> cont_byte b1 \<or>
                     byte_in 0xED 0xED b0 \<and> byte_in 0x80 0x9F b1) then 3
                 else (case t of [] \<Rightarrow> 0
                  | b3 # t \<Rightarrow>
                     if cont_byte b2 \<and> cont_byte b3 \<and>
                        (byte_in 0xF0 0xF0 b0 \<and> byte_in 0x90 0xBF b1 \<or>
                         byte_in 0xF1 0xF3 b0 \<and> cont_byte b1 \<or>
                         byte_in 0xF4 0xF4 b0 \<and> byte_in 0x80 0x8F b1) then 4 else 0))))"

function utf8_valid :: "string \<Rightarrow> bool" where
  "utf8_valid s = (if s = [] then True else if utf8_len s = 0 then False
                   else utf8_valid (drop (utf8_len s) s))"
  by pat_completeness auto
termination
  by (relation "measure length") auto

declare utf8_valid.simps [simp del]

lemma utf8_valid_ascii: "list_all (byte_in 0 0x7F) s \<Longrightarrow> utf8_valid s"
proof (induction s)
  case Nil
  then show ?case by (subst utf8_valid.simps) simp
next
  case (Cons c s)
  then have "utf8_len (c # s) = 1" by (simp add: utf8_len_def)
  with Cons show ?case by (subst utf8_valid.simps) simp
qed

section \<open>Sorting\<close>

text \<open>Byte-wise order of strings, and a stable sort by a comparison, as \<open>sort_by\<close> performs it.\<close>

fun bytes_le :: "string \<Rightarrow> string \<Rightarrow> bool" where
  "bytes_le [] _ = True"
| "bytes_le (_ # _) [] = False"
| "bytes_le (x # xs) (y # ys) = (if x = y then bytes_le xs ys else (of_char x :: nat) < of_char y)"

fun insert_by :: "('a \<Rightarrow> 'a \<Rightarrow> bool) \<Rightarrow> 'a \<Rightarrow> 'a list \<Rightarrow> 'a list" where
  "insert_by le x [] = [x]"
| "insert_by le x (y # ys) = (if le x y then x # y # ys else y # insert_by le x ys)"

definition sort_by :: "('a \<Rightarrow> 'a \<Rightarrow> bool) \<Rightarrow> 'a list \<Rightarrow> 'a list" where
  "sort_by le xs = foldr (insert_by le) xs []"

lemma set_insert_by [simp]: "set (insert_by le x ys) = insert x (set ys)"
  by (induction ys) auto

lemma set_sort_by [simp]: "set (sort_by le xs) = set xs"
  by (induction xs) (simp_all add: sort_by_def)

end
