(* ===== verification/Workspace.thy ===== *)
theory Workspace
  imports RustStr Protocol
begin

text \<open>
  Agent workspaces (\<open>crates/cocli-agent/src/workspace.rs\<close>): the path gate every workspace
  operation passes through, and the recursive clear. A Unix \<open>Path\<close> is the list of its
  components, as \<open>Path::components\<close> yields them. The file system is outside the program:
  \<open>canonicalize\<close>, \<open>read_dir\<close> and the removals are parameters.
\<close>

section \<open>Paths\<close>

datatype component = RootDir | CurDir | ParentDir | Normal string

type_synonym path = "component list"

fun split_on :: "char \<Rightarrow> string \<Rightarrow> string list" where
  "split_on d [] = [[]]"
| "split_on d (c # s) =
     (if c = d then [] # split_on d s
      else case split_on d s of [] \<Rightarrow> [[c]] | w # ws \<Rightarrow> (c # w) # ws)"

definition segment :: "string \<Rightarrow> component" where
  "segment w = (if w = ''..'' then ParentDir else Normal w)"

text \<open>
  \<open>Path::components\<close>: repeated separators and every \<open>.\<close> but a leading one are dropped.
\<close>

definition components :: "string \<Rightarrow> path" where
  "components s =
     (if starts_with s ''/'' then [RootDir]
      else if hd (split_on CHR ''/'' s) = ''.'' then [CurDir] else [])
     @ map segment (filter (\<lambda>w. w \<noteq> [] \<and> w \<noteq> ''.'') (split_on CHR ''/'' s))"

definition is_absolute :: "path \<Rightarrow> bool" where
  "is_absolute p \<longleftrightarrow> p \<noteq> [] \<and> hd p = RootDir"

text \<open>\<open>Path::join\<close>: an absolute argument replaces the receiver; a leading \<open>.\<close> disappears.\<close>

definition path_join :: "path \<Rightarrow> path \<Rightarrow> path" where
  "path_join p q = (if is_absolute q then q else p @ filter (\<lambda>c. c \<noteq> CurDir) q)"

text \<open>\<open>PathBuf::pop\<close>: drops the last component; there is no parent of the root or of an empty path.\<close>

definition can_pop :: "path \<Rightarrow> bool" where
  "can_pop p \<longleftrightarrow> p \<noteq> [] \<and> last p \<noteq> RootDir"

section \<open>The path gate\<close>

datatype io_kind = PermissionDenied | NotFound | OtherKind string

datatype io_error = IoError (io_kind: io_kind) (io_text: string)

definition agent_workspace_dir :: "path \<Rightarrow> agent_id \<Rightarrow> path" where
  "agent_workspace_dir root a = path_join root (components a)"

text \<open>The loop over the components of the requested path.\<close>

fun check_components :: "path \<Rightarrow> io_error option" where
  "check_components [] = None"
| "check_components (ParentDir # cs) =
     Some (IoError PermissionDenied ''parent-dir traversal (`..`) not allowed'')"
| "check_components (RootDir # cs) =
     Some (IoError PermissionDenied ''absolute/prefixed path not allowed'')"
| "check_components (CurDir # cs) = check_components cs"
| "check_components (Normal w # cs) = check_components cs"

text \<open>The loop that climbs to the deepest ancestor that exists.\<close>

function climb :: "(path \<Rightarrow> io_error + path) \<Rightarrow> path \<Rightarrow> path \<Rightarrow> path \<Rightarrow> io_error + path" where
  "climb canonicalize root_real joined probe =
     (case canonicalize probe of
        Inr real \<Rightarrow>
          if \<not> prefix root_real real
          then Inl (IoError PermissionDenied ''resolved path escapes workspace root'')
          else let tail = (if prefix probe joined then drop (length probe) joined else [])
               in Inr (if tail = [] then real else path_join real tail)
      | Inl _ \<Rightarrow>
          if can_pop probe then climb canonicalize root_real joined (butlast probe)
          else Inl (IoError NotFound ''cannot resolve any ancestor of target''))"
  by pat_completeness auto
termination
  by (relation "measure (\<lambda>(c, r, j, p). length p)") (auto simp: can_pop_def)

declare climb.simps [simp del]

text \<open>\<open>dbg\<close> renders a path for the error text (\<open>{root:?}\<close>).\<close>

definition resolve_within ::
  "(path \<Rightarrow> io_error + path) \<Rightarrow> (path \<Rightarrow> string) \<Rightarrow> path \<Rightarrow> string \<Rightarrow> io_error + path" where
  "resolve_within canonicalize dbg root rel =
     (let rel_path = components rel in
      if is_absolute rel_path then Inl (IoError PermissionDenied ''absolute path not allowed'')
      else case check_components rel_path of
        Some e \<Rightarrow> Inl e
      | None \<Rightarrow>
          (case canonicalize root of
             Inl e \<Rightarrow> Inl (IoError (io_kind e) (''canonicalize root '' @ dbg root @ '': '' @ io_text e))
           | Inr root_real \<Rightarrow>
               let joined = path_join root_real rel_path
               in climb canonicalize root_real joined joined))"

section \<open>Clearing a directory\<close>

text \<open>
  An entry of \<open>read_dir\<close> is an error or a path with the answer of \<open>file_type\<close> (\<open>None\<close> when it
  fails). The removals act on the state of the file system; their errors are only logged.
\<close>

definition clear_entry ::
  "(path \<Rightarrow> 'fs \<Rightarrow> 'fs) \<Rightarrow> (path \<Rightarrow> 'fs \<Rightarrow> 'fs) \<Rightarrow> io_error + (path \<times> bool option) \<Rightarrow> 'fs \<Rightarrow> 'fs" where
  "clear_entry remove_dir_all remove_file entry fs =
     (case entry of
        Inl _ \<Rightarrow> fs
      | Inr (p, is_dir) \<Rightarrow> if is_dir = Some True then remove_dir_all p fs else remove_file p fs)"

definition clear_dir_contents ::
  "(path \<Rightarrow> 'fs \<Rightarrow> io_error + (io_error + (path \<times> bool option)) list) \<Rightarrow>
   (path \<Rightarrow> 'fs \<Rightarrow> 'fs) \<Rightarrow> (path \<Rightarrow> 'fs \<Rightarrow> 'fs) \<Rightarrow> path \<Rightarrow> 'fs \<Rightarrow> (io_error + unit) \<times> 'fs" where
  "clear_dir_contents read_dir remove_dir_all remove_file dir fs =
     (case read_dir dir fs of
        Inl e \<Rightarrow> (Inl e, fs)
      | Inr entries \<Rightarrow> (Inr (), fold (clear_entry remove_dir_all remove_file) entries fs))"

section \<open>Lemmas\<close>

definition plain :: "path \<Rightarrow> bool" where
  "plain p \<longleftrightarrow> list_all (\<lambda>c. case c of Normal _ \<Rightarrow> True | _ \<Rightarrow> False) p"

lemma plain_Nil [simp]: "plain []"
  by (simp add: plain_def)

lemma plain_append [simp]: "plain (p @ q) \<longleftrightarrow> plain p \<and> plain q"
  by (simp add: plain_def)

lemma plain_not_absolute: "plain p \<Longrightarrow> \<not> is_absolute p"
  by (cases p) (auto simp: plain_def is_absolute_def)

lemma plain_drop: "plain p \<Longrightarrow> plain (drop n p)"
  by (auto simp: plain_def list_all_iff dest: in_set_dropD)

lemma path_join_plain [simp]: "plain q \<Longrightarrow> path_join p q = p @ q"
  by (auto simp: path_join_def plain_not_absolute plain_def list_all_iff filter_id_conv)

lemma check_components_None:
  "check_components cs = None \<Longrightarrow> plain (filter (\<lambda>c. c \<noteq> CurDir) cs)"
  by (induction cs rule: check_components.induct) (simp_all add: plain_def)

lemma check_components_ParentDir: "ParentDir \<in> set cs \<Longrightarrow> \<exists>e. check_components cs = Some e \<and> io_kind e = PermissionDenied"
  by (induction cs rule: check_components.induct) auto


text \<open>
  Climbing from below a canonical root never passes the root: the answer is the canonical form
  of an ancestor that lies inside the root, followed by the components that do not exist yet.
\<close>

lemma climb_inside:
  assumes "canon root_real = Inr root_real" and "joined = root_real @ rest" and "plain rest"
    and "prefix root_real probe" and "prefix probe joined"
  shows "(\<exists>anc real. prefix root_real anc \<and> prefix anc joined \<and> canon anc = Inr real
            \<and> prefix root_real real
            \<and> climb canon root_real joined probe = Inr (real @ drop (length anc) joined))
       \<or> (\<exists>anc real. prefix root_real anc \<and> prefix anc joined \<and> canon anc = Inr real
            \<and> \<not> prefix root_real real
            \<and> climb canon root_real joined probe
              = Inl (IoError PermissionDenied ''resolved path escapes workspace root''))"
  using assms
proof (induction canon root_real joined probe rule: climb.induct)
  case (1 canon root_real joined probe)
  have tail: "plain (drop (length probe) joined)"
    using "1.prems" by (auto simp: prefix_def intro: plain_drop)
  show ?case
  proof (cases "canon probe")
    case (Inr real)
    then have "climb canon root_real joined probe =
        (if prefix root_real real then Inr (real @ drop (length probe) joined)
         else Inl (IoError PermissionDenied ''resolved path escapes workspace root''))"
      using "1.prems"(5) tail by (subst climb.simps) (simp only: Let_def sum.case path_join_plain if_True if_False simp_thms split: if_split, simp)
    with Inr "1.prems"(4,5) show ?thesis by (metis (no_types))
  next
    case (Inl e)
    with "1.prems" have "probe \<noteq> root_real" by auto
    then obtain s c where s: "probe = root_real @ s @ [c]"
      using "1.prems"(4) by (metis append_Nil2 prefixE rev_exhaust)
    have "c \<in> set rest" using "1.prems"(2,5) s by (auto simp: prefix_def)
    then have pop: "can_pop probe" using "1.prems"(3) s
      by (auto simp: can_pop_def plain_def list_all_iff)
    have below: "prefix root_real (butlast probe)" "prefix (butlast probe) joined"
      using s "1.prems"(5) by (auto simp: butlast_append prefix_def)
    from "1.IH" [OF Inl pop "1.prems"(1-3) below] Inl pop show ?thesis
      by (simp add: climb.simps [of canon root_real joined probe])
  qed
qed

lemma resolve_within_inside:
  assumes "\<And>p q. canonicalize p = Inr q \<Longrightarrow> canonicalize q = Inr q"
    and "resolve_within canonicalize dbg root rel = Inr target"
  shows "\<exists>root_real anc real tail. canonicalize root = Inr root_real \<and> prefix root_real target
           \<and> canonicalize anc = Inr real \<and> prefix root_real real
           \<and> target = real @ tail \<and> plain tail
           \<and> anc @ tail = path_join root_real (components rel)"
proof -
  let ?cs = "filter (\<lambda>c. c \<noteq> CurDir) (components rel)"
  from assms(2) obtain root_real where r: "canonicalize root = Inr root_real"
    and nabs: "\<not> is_absolute (components rel)" and chk: "check_components (components rel) = None"
    and cl: "climb canonicalize root_real (path_join root_real (components rel))
              (path_join root_real (components rel)) = Inr target"
    by (auto simp: resolve_within_def Let_def split: if_splits option.splits sum.splits)
  from nabs have j: "path_join root_real (components rel) = root_real @ ?cs"
    by (simp add: path_join_def)
  have pl: "plain ?cs" using chk by (rule check_components_None)
  from climb_inside [of canonicalize root_real "root_real @ ?cs" ?cs "root_real @ ?cs"] assms(1) [OF r] pl cl j
  obtain anc real where a: "prefix root_real anc" "prefix anc (root_real @ ?cs)"
    "canonicalize anc = Inr real" "prefix root_real real"
    "target = real @ drop (length anc) (root_real @ ?cs)" by auto
  let ?tail = "drop (length anc) (root_real @ ?cs)"
  have "anc @ ?tail = root_real @ ?cs" using a(2) by (metis append_eq_conv_conj prefix_def)
  moreover have "plain ?tail" using a(1,2) pl by (auto simp: prefix_def)
  ultimately show ?thesis using r a j by (metis prefix_prefix)
qed

section \<open>Properties\<close>

text \<open>
  C39. Containment: whatever the file system answers, a path that the gate lets through lies inside
  the canonical workspace root, and it is the canonical form of an existing ancestor of the
  request followed only by ordinary names that do not exist yet (never \<open>..\<close>). The one thing assumed of
  \<open>canonicalize\<close> is that a canonical path is its own canonical form.
\<close>

theorem resolve_within_contained:
  assumes "\<And>p q. canonicalize p = Inr q \<Longrightarrow> canonicalize q = Inr q"
    and "resolve_within canonicalize dbg root rel = Inr target"
  shows "\<exists>root_real anc real tail. canonicalize root = Inr root_real \<and> prefix root_real target
           \<and> canonicalize anc = Inr real \<and> prefix root_real real
           \<and> target = real @ tail \<and> plain tail
           \<and> anc @ tail = path_join root_real (components rel)"
  using assms by (rule resolve_within_inside)

text \<open>A file system with one agent directory and a link that leads out of it.\<close>

definition example_fs :: "path \<Rightarrow> io_error + path" where
  "example_fs p =
     (if p = [RootDir, Normal ''w''] then Inr p
      else if p = [RootDir, Normal ''w'', Normal ''d''] then Inr p
      else if p = [RootDir, Normal ''etc''] then Inr p
      else if p = [RootDir, Normal ''w'', Normal ''out''] then Inr [RootDir, Normal ''etc'']
      else Inl (IoError NotFound ''no such file''))"

theorem resolve_within_contained_witness:
  "resolve_within example_fs (\<lambda>_. []) [RootDir, Normal ''w''] ''./d//new.txt''
     = Inr [RootDir, Normal ''w'', Normal ''d'', Normal ''new.txt'']
   \<and> prefix [RootDir, Normal ''w''] [RootDir, Normal ''w'', Normal ''d'', Normal ''new.txt'']"
proof -
  let ?t = "[RootDir, Normal ''w'', Normal ''d'', Normal ''new.txt'']"
  have idem: "example_fs p = Inr q \<Longrightarrow> example_fs q = Inr q" for p q
    by (auto simp: example_fs_def split: if_splits)
  have res: "resolve_within example_fs (\<lambda>_. []) [RootDir, Normal ''w''] ''./d//new.txt'' = Inr ?t"
    by (simp add: resolve_within_def components_def segment_def is_absolute_def path_join_def
        climb.simps example_fs_def can_pop_def)
  have "example_fs [RootDir, Normal ''w''] = Inr [RootDir, Normal ''w'']"
    by (simp add: example_fs_def)
  with resolve_within_contained [OF idem res] res show ?thesis by auto
qed

text \<open>
  Lexical refusal: an absolute request, or one with a \<open>..\<close> segment anywhere, is refused
  with \<open>PermissionDenied\<close> whatever the file system holds.
\<close>

theorem resolve_within_refuses_traversal:
  assumes "starts_with rel ''/'' \<or> ''..'' \<in> set (split_on CHR ''/'' rel)"
  shows "\<exists>e. resolve_within canonicalize dbg root rel = Inl e \<and> io_kind e = PermissionDenied"
proof (cases "starts_with rel ''/''")
  case True
  then have "is_absolute (components rel)" by (simp add: is_absolute_def components_def)
  then show ?thesis by (simp add: resolve_within_def)
next
  case False
  with assms have "ParentDir \<in> set (components rel)"
    by (auto simp: components_def segment_def image_iff intro!: bexI [of _ "''..''"])
  from check_components_ParentDir [OF this] show ?thesis
    by (auto simp: resolve_within_def Let_def)
qed

theorem resolve_within_refuses_traversal_witness:
  "\<exists>e. resolve_within example_fs (\<lambda>_. []) [RootDir, Normal ''w''] ''d/../../etc'' = Inl e
      \<and> io_kind e = PermissionDenied"
  by (rule resolve_within_refuses_traversal) simp

end
