(* ===== verification/AgentText.thy ===== *)
theory AgentText
  imports RustStr Protocol
begin

text \<open>
  The texts handed to a runtime: delivery bundles (\<open>crates/cocli-agent/src/format.rs\<close>), fork
  reasons (\<open>fork_reason.rs\<close>), and the prompts (\<open>prompt.rs\<close>, and the bootstrap prompt of
  \<open>router.rs\<close>). Strings are UTF-8 bytes; slicing a string at a byte that is not a character
  boundary panics, which is the value \<open>None\<close>.
\<close>

section \<open>Delivery bundles\<close>

definition nl :: string where
  "nl = [CHR 0x0A]"

definition delivery_line :: "delivery_message \<Rightarrow> string" where
  "delivery_line m = ''['' @ dm_channel_name m @ ''] '' @ dm_sender_name m @ '': '' @ dm_content m"

definition format_delivery_bundle :: "delivery_message \<Rightarrow> delivery_message list \<Rightarrow> string" where
  "format_delivery_bundle m ctx =
     (if ctx \<noteq> []
      then ''<context>'' @ nl @ concat (map (\<lambda>c. delivery_line c @ nl) ctx) @ ''</context>'' @ nl @ nl
      else [])
     @ delivery_line m"

section \<open>Fork reasons\<close>

datatype fork_kind = Manual | ContextReset

definition context_reset_prefix :: string where
  "context_reset_prefix = ''context_reset:''"

text \<open>
  \<open>str::is_char_boundary\<close>: the start, the end, and every byte that is not a UTF-8 continuation
  byte. \<open>&s[..n]\<close> panics elsewhere and beyond the end.
\<close>

definition is_char_boundary :: "string \<Rightarrow> nat \<Rightarrow> bool" where
  "is_char_boundary s n \<longleftrightarrow>
     n = 0 \<or> n = length s \<or>
     (n < length s \<and> \<not> (0x80 \<le> (of_char (s ! n) :: nat) \<and> (of_char (s ! n) :: nat) < 0xC0))"

definition str_prefix :: "string \<Rightarrow> nat \<Rightarrow> string option" where
  "str_prefix s n = (if is_char_boundary s n then Some (take n s) else None)"

definition classify_fork_reason :: "string \<Rightarrow> fork_kind option" where
  "classify_fork_reason reason =
     (let trimmed = trim reason in
      if length trimmed \<ge> length context_reset_prefix
      then (case str_prefix trimmed (length context_reset_prefix) of
              None \<Rightarrow> None
            | Some p \<Rightarrow> Some (if eq_ignore_ascii_case p context_reset_prefix then ContextReset else Manual))
      else Some Manual)"

section \<open>Prompts\<close>

definition compose_session_bootstrap_prompt :: "string \<Rightarrow> string \<Rightarrow> string" where
  "compose_session_bootstrap_prompt system_prompt initial_prompt =
     (let i = trim initial_prompt; s = trim system_prompt in
      if i = [] then []
      else if s = [] then i
      else s @ nl @ nl @ ''---'' @ nl @ nl @ i)"

text \<open>The literal passages of the prompts.\<close>

definition prompt_collaboration :: string where
  \<open>prompt_collaboration =
       ''\<newline>''
     @ ''\<newline>''
     @ ''# Reply Contract\<newline>''
     @ ''\<newline>''
     @ ''- The plain text in your final model response is delivered to the local cocli channel.\<newline>''
     @ ''- Answer the incoming request directly.\<newline>''
     @ ''- If the user requires an exact format, JSON-only response, or exact phrase, follow it literally ''
     @ ''without wrappers.\<newline>''
     @ ''- Do not send an acknowledgement-only response while requested work remains. Continue with ''
     @ ''the available tools in the same turn until the work is complete or genuinely blocked.\<newline>''
     @ ''\<newline>''
     @ ''# Local Collaboration Tools\<newline>''
     @ ''\<newline>''
     @ ''When the runtime exposes the local `chat` MCP server, these tools are available (the runtime ''
     @ ''may prefix their names):\<newline>''
     @ ''\<newline>''
     @ ''- `send_message`: send a side message to another local channel or agent. Do not duplicate ''
     @ ''your final reply through this tool because final model text is already delivered.\<newline>''
     @ ''- `check_messages`: consume unread messages from your local inbox.\<newline>''
     @ ''- `read_history`: inspect bounded channel history without consuming inbox state.\<newline>''
     @ ''- `channel_list` and `channel_create`: inspect or create durable collaboration contexts.\<newline>''
     @ ''- `agent_list` and `agent_create`: inspect or create durable agents whose identity survives ''
     @ ''runtime sessions.\<newline>''
     @ ''- `channel_join_agent`: invite an existing agent into a channel so it can participate in ''
     @ ''shared work.\<newline>''
     @ ''- `list_tasks`, `create_tasks`, `claim_tasks`, `unclaim_task`, `update_task_status`, `add_task_dependency`, ''
     @ ''and `get_task_dependencies`: coordinate durable channel work. Claim a task before doing substantial ''
     @ ''task work, respect blocked dependencies, and keep status/progress current.\<newline>''
     @ ''- `set_working_state`, `get_working_state`, and `clear_working_state`: persist and recover ''
     @ ''a concise work anchor across turns or runtime restarts.\<newline>''
     @ ''- `memory_index_list`, `memory_read`, `memory_write`, and `memory_move`: read or update durable ''
     @ ''L1/L2 memory through SQLite.\<newline>''
     @ ''- `doctor_machine`: run a read-only machine/user/Runtime health check covering Runtime availability, ''
     @ ''instruction context, Skills, and MCP state. Summarize the evidence; do not claim that unknown ''
     @ ''session visibility is healthy.\<newline>''
     @ ''\<newline>''
     @ ''Use collaboration tools only when they advance the requested work. Do not invent memory or ''
     @ ''knowledge-base tools that are not exposed by the runtime.\<newline>''\<close>

definition prompt_workspace_head :: string where
  \<open>prompt_workspace_head =
       ''\<newline>''
     @ ''\<newline>''
     @ ''# Workspace\<newline>''
     @ ''\<newline>''
     @ ''Your persistent workspace is:\<newline>''\<close>

definition prompt_workspace_tail :: string where
  \<open>prompt_workspace_tail =
       ''\<newline>''
     @ ''\<newline>''
     @ ''- Files in this directory survive runtime restarts and thread forks.\<newline>''
     @ ''- Use the workspace for task materials, notes, and durable handoff context.\<newline>''
     @ ''- When work spans turns or context resets, record the current goal, completed work, decisions, ''
     @ ''blockers, and next step in `MEMORY.md`.\<newline>''
     @ ''- You may work outside this directory only when the user request explicitly places another ''
     @ ''local path in scope.\<newline>''\<close>

definition prompt_memory_head :: string where
  \<open>prompt_memory_head =
       ''\<newline>''
     @ ''\<newline>''
     @ ''# Durable Memory\<newline>''
     @ ''\<newline>''
     @ ''- SQLite is the source of truth. The generated `memory/` tree is a read-only runtime mirror.\<newline>''
     @ ''- Use the memory tools to write or move durable memory; do not edit generated mirror files ''
     @ ''directly.\<newline>''
     @ ''- Agent-private L1 memory is mirrored under `memory/`.\<newline>''
     @ ''- Memory shared by member Channels is mirrored under `memory/channels/<channel-id>/`.\<newline>''
     @ ''\<newline>''
     @ ''## L1 Agent Memory Index\<newline>''
     @ ''\<newline>''\<close>

definition prompt_memory_mid :: string where
  \<open>prompt_memory_mid =
       ''\<newline>''
     @ ''\<newline>''
     @ ''## L2 Channel Memory Index\<newline>''
     @ ''\<newline>''\<close>

definition prompt_memory_tail :: string where
  \<open>prompt_memory_tail =
       ''\<newline>''\<close>

definition prompt_discipline :: string where
  \<open>prompt_discipline =
       ''\<newline>''
     @ ''\<newline>''
     @ ''# Operating Discipline\<newline>''
     @ ''\<newline>''
     @ ''- Inspect the relevant context and available evidence before acting.\<newline>''
     @ ''- Keep work scoped to the request and consistent with the domain and workspace in use.\<newline>''
     @ ''- Use domain-appropriate validation before claiming a result is complete.\<newline>''
     @ ''- Preserve unrelated user state and avoid destructive operations unless explicitly requested.\<newline>''
     @ ''- Report concrete results, validation evidence, and any remaining blocker.\<newline>''
     @ ''\<newline>''
     @ ''# Context and Session Continuity\<newline>''
     @ ''\<newline>''
     @ ''- Your context window is finite. Cocli tracks context pressure and may cancel, steer, restart, ''
     @ ''or fork the runtime externally.\<newline>''
     @ ''- At natural breakpoints, keep `MEMORY.md` current so a fresh session can continue without ''
     @ ''guesswork.\<newline>''
     @ ''- A context-reset fork is intentional session renewal, not a task failure.\<newline>''
     @ ''- If a turn contains one unusually large payload, summarize the useful facts before relying ''
     @ ''on a fork; the payload itself may still dominate the fresh context.\<newline>''
     @ ''\<newline>''
     @ ''# Turn Semantics\<newline>''
     @ ''\<newline>''
     @ ''- A turn ends when you stop producing text or tool calls. There is no background continuation ''
     @ ''after the turn ends.\<newline>''
     @ ''- Complete the requested work inside the current turn when possible.\<newline>''
     @ ''- End early only for a concrete blocker that requires user input, unavailable credentials, ''
     @ ''or an unsafe/destructive decision.\<newline>''\<close>

definition bootstrap_head :: string where
  \<open>bootstrap_head =
       '', an AI agent on the cocli platform.\<newline>''
     @ ''\<newline>''
     @ ''# Current Date\<newline>''
     @ ''Today is ''\<close>

definition bootstrap_tail :: string where
  \<open>bootstrap_tail =
       ''.\<newline>''
     @ ''\<newline>''
     @ ''# Chat Tools (prefix "mcp__chat__")\<newline>''
     @ ''send_message, check_messages, read_history, list_tasks, create_tasks,\<newline>''
     @ ''claim_tasks, unclaim_task, update_task_status.\<newline>''
     @ ''\<newline>''
     @ ''# Critical Rules\<newline>''
     @ ''- ALL replies MUST go through mcp__chat__send_message ''
     @ [CHR 0xE2, CHR 0x80, CHR 0x94]
     @ '' never output plain text as a reply.\<newline>''
     @ ''- Text you output as model text is NOT delivered to channel users. Only mcp__chat__send_message ''
     @ ''creates visible messages.\<newline>''
     @ ''- For every user message you receive, call mcp__chat__send_message with your reply.''\<close>

text \<open>\<open>today\<close> is the formatted local date.\<close>

definition build_bootstrap_prompt :: "string \<Rightarrow> agent_config \<Rightarrow> string" where
  "build_bootstrap_prompt today config =
     (let name = ac_name config;
          display_name = (if ac_display_name config = [] then name else ac_display_name config)
      in ''You are '' @ name @ '' ('' @ display_name @ '')'' @ bootstrap_head @ today @ bootstrap_tail)"

definition build_initial_prompt :: string where
  "build_initial_prompt =
     ''You have just started. Use mcp__chat__check_messages to see if there are any pending messages.''"

definition local_initialization_prompt :: string where
  "local_initialization_prompt =
     ''Initialization check only. Do not perform user work. Reply exactly READY with no punctuation or extra text.''"

record local_prompt_config =
  lp_agent_id :: string
  lp_agent_name :: string
  lp_instructions :: string
  lp_runtime :: string
  lp_model :: string
  lp_workspace_dir :: string
  lp_current_date :: string
  lp_agent_memory_index :: string
  lp_channel_memory_index :: string

definition memory_index_or_empty :: "string \<Rightarrow> string" where
  "memory_index_or_empty index =
     (if trim index = [] then ''(no durable memory entries)'' else trim index)"

text \<open>Each \<open>writeln!\<close> ends its text with a newline.\<close>

definition build_local_system_prompt :: "local_prompt_config \<Rightarrow> string" where
  "build_local_system_prompt c =
     (let model = (if trim (lp_model c) = [] then ''runtime default'' else lp_model c) in
      ''# Identity'' @ nl @ nl @ ''You are @'' @ lp_agent_name c @ '' ('' @ lp_agent_name c
        @ ''), a local AI agent managed by cocli.'' @ nl
      @ (if trim (lp_instructions c) \<noteq> []
         then nl @ ''## Durable Instructions'' @ nl @ nl @ trim (lp_instructions c) @ nl else [])
      @ nl @ ''# Local Runtime'' @ nl @ nl @ ''- Agent ID: '' @ lp_agent_id c
        @ nl @ ''- Runtime: '' @ lp_runtime c @ nl @ ''- Model: '' @ model
        @ nl @ ''- Current date: '' @ lp_current_date c @ nl
      @ prompt_collaboration
      @ prompt_workspace_head @ lp_workspace_dir c @ prompt_workspace_tail @ nl
      @ prompt_memory_head @ memory_index_or_empty (lp_agent_memory_index c)
        @ prompt_memory_mid @ memory_index_or_empty (lp_channel_memory_index c)
        @ prompt_memory_tail @ nl
      @ prompt_discipline)"

section \<open>Lemmas\<close>

text \<open>Every line of a bundle can be found in it, and the message itself comes last.\<close>

lemma bundle_ends_with_message: "suffix (delivery_line m) (format_delivery_bundle m ctx)"
  unfolding format_delivery_bundle_def by (rule suffixI) (rule refl)

lemma sublist_concat_map: "x \<in> set xs \<Longrightarrow> sublist (f x) (concat (map f xs))"
  by (induction xs) (auto intro: sublist_order.order.trans)

lemma bundle_contains_context:
  assumes "c \<in> set ctx"
  shows "sublist (delivery_line c @ nl) (format_delivery_bundle m ctx)"
proof -
  let ?k = "concat (map (\<lambda>c. delivery_line c @ nl) ctx)"
  have "sublist (delivery_line c @ nl) ?k" using sublist_concat_map [OF assms, of "\<lambda>c. delivery_line c @ nl"] .
  moreover have "format_delivery_bundle m ctx
      = (''<context>'' @ nl) @ ?k @ (''</context>'' @ nl @ nl @ delivery_line m)"
    using assms by (auto simp: format_delivery_bundle_def)
  then have "sublist ?k (format_delivery_bundle m ctx)"
    by (metis sublist_def)
  ultimately show ?thesis by (rule sublist_order.order.trans)
qed

text \<open>An ASCII string has a character boundary everywhere.\<close>

definition is_ascii :: "string \<Rightarrow> bool" where
  "is_ascii s \<longleftrightarrow> list_all (\<lambda>c. (of_char c :: nat) < 0x80) s"

lemma is_ascii_boundary: "is_ascii s \<Longrightarrow> n \<le> length s \<Longrightarrow> is_char_boundary s n"
proof (cases "n < length s")
  case True
  moreover assume "is_ascii s"
  ultimately have "(of_char (s ! n) :: nat) < 0x80" by (simp add: is_ascii_def list_all_length)
  with True show ?thesis by (simp add: is_char_boundary_def)
qed (simp add: is_char_boundary_def)

lemma trim_sublist: "sublist (trim s) s"
proof -
  have "sublist (trim s) (trim_start s)"
    unfolding trim_def by (simp add: trim_end_prefix)
  moreover have "sublist (trim_start s) s"
    by (simp add: trim_start_def strip_any_suffix)
  ultimately show ?thesis by (rule sublist_order.order.trans)
qed

lemma is_ascii_trim: "is_ascii s \<Longrightarrow> is_ascii (trim s)"
  using trim_sublist [of s] by (auto simp: is_ascii_def list_all_iff dest: set_mono_sublist)

lemma length_context_reset_prefix [simp]: "length context_reset_prefix = 14"
  by (simp add: context_reset_prefix_def)

section \<open>Properties\<close>

text \<open>
  Fork reasons: on ASCII reasons the classifier always answers, and it answers
  \<open>ContextReset\<close> exactly for the reasons that, trimmed, begin with \<open>context_reset:\<close> in any case.
\<close>

theorem classify_fork_reason_ascii:
  assumes "is_ascii reason"
  shows "classify_fork_reason reason =
           Some (if eq_ignore_ascii_case (take 14 (trim reason)) ''context_reset:'' then ContextReset
                 else Manual)"
proof (cases "14 \<le> length (trim reason)")
  case True
  then have "str_prefix (trim reason) 14 = Some (take 14 (trim reason))"
    by (simp add: str_prefix_def is_ascii_boundary is_ascii_trim assms)
  with True show ?thesis
    unfolding classify_fork_reason_def Let_def by (simp only: length_context_reset_prefix if_True option.case) (simp add: context_reset_prefix_def)
next
  case False
  then have "length (take 14 (trim reason)) \<noteq> length ''context_reset:''" by simp
  then have "\<not> eq_ignore_ascii_case (take 14 (trim reason)) ''context_reset:''"
    by (metis eq_ignore_ascii_case_def length_map to_ascii_lowercase_def)
  with False show ?thesis by (simp add: classify_fork_reason_def)
qed

theorem classify_fork_reason_ascii_witness:
  "classify_fork_reason '' Context_Reset: clutter'' =
     Some (if eq_ignore_ascii_case (take 14 (trim '' Context_Reset: clutter'')) ''context_reset:''
           then ContextReset else Manual)"
  by (rule classify_fork_reason_ascii) (simp add: is_ascii_def)

text \<open>
  A fork reason whose fourteenth byte falls inside a multi-byte character makes the classifier
  panic: thirteen ASCII letters followed by an accented letter are enough.
\<close>

theorem classify_fork_reason_panics:
  "classify_fork_reason (''aaaaaaaaaaaaa'' @ [CHR 0xC3, CHR 0xA9]) = None"
proof -
  let ?s = "''aaaaaaaaaaaaa'' @ [CHR 0xC3, CHR 0xA9]"
  have "trim ?s = ?s"
    by (simp add: trim_def trim_start_def trim_end_def strip_any.simps ws_seqs_def)
  then show ?thesis
    by (simp add: classify_fork_reason_def str_prefix_def is_char_boundary_def)
qed

text \<open>
  C. Prompt composition: nothing is sent when the turn is blank; otherwise the composed prompt
  ends with the trimmed turn and, when there is a contract, begins with the trimmed contract.
\<close>

theorem compose_session_bootstrap_prompt_parts:
  "(compose_session_bootstrap_prompt sys turn = [] \<longleftrightarrow> trim turn = [])
 \<and> (trim turn = [] \<or>
     suffix (trim turn) (compose_session_bootstrap_prompt sys turn)
     \<and> prefix (trim sys) (compose_session_bootstrap_prompt sys turn))"
  by (simp add: compose_session_bootstrap_prompt_def Let_def suffix_def)

end
