(* ===== verification/AgentTypes.thy ===== *)
theory AgentTypes
  imports Workspace AgentText
begin

text \<open>
  The types the router and the actors share: mailbox commands and lifecycle changes
  (\<open>crates/cocli-agent/src/types.rs\<close>), observations (\<open>obs.rs\<close>), the start configuration
  (\<open>actor.rs\<close>), and the answers of a channel. Channels belong to tokio: the model keeps the log
  of what was handed to each channel, and the answer of every \<open>try_send\<close> is an input.
\<close>

datatype agent_cmd =
    Deliver agent_deliver_msg
  | TurnCancel
  | Stop bool

datatype agent_state_change =
    Spawned agent_id
  | Running agent_id string
  | Stopping agent_id
  | Stopped agent_id string

datatype agent_observation =
    ObsStarted agent_id string uuid string
  | ObsStdoutSeen agent_id
  | ObsTurnEnded agent_id u64
  | ObsStopped agent_id

text \<open>The runtime registry is shared by all agents and not part of the record.\<close>

record start_cfg =
  sc_runtime_name :: string
  sc_workspace_root :: path
  sc_server_url :: string
  sc_auth_token :: string
  sc_channel_id :: uuid
  sc_channel_name :: string
  sc_model :: string
  sc_launch_id :: string
  sc_resume_session :: "string option"
  sc_system_prompt :: string
  sc_initial_prompt :: string
  sc_env_vars :: "(string, string) hmap"

text \<open>Answers of \<open>mpsc::Sender::try_send\<close>.\<close>

datatype send_answer = SentOk | SendFull | SendClosed

end
