(* ===== verification/Router.thy ===== *)
theory Router
  imports DeliveryQueue WorkingMemory Metrics AgentTypes
begin

text \<open>
  The agent router (\<open>crates/cocli-agent/src/router.rs\<close>): it owns the table of agent mailboxes,
  the delivery queue, the running registry, the working memory and the metrics, and serves the
  server's messages and the actors' state changes one at a time.

  A mailbox is a number; \<open>rt_sent\<close> logs the commands each mailbox accepted, in order. The answers
  of \<open>try_send\<close> and whether an awaited mailbox send still finds its receiver are inputs of the
  handlers (\<open>router_env\<close>), so that every behaviour of the concurrent actor on the other side is
  covered. Messages to the server and to the state channel are logs.
\<close>

section \<open>State\<close>

record daemon_config =
  dc_server_url :: string
  dc_machine_id :: string
  dc_api_key :: string
  dc_agent_workspace_root :: path

text \<open>What \<open>tokio::spawn\<close> received: the agent, its mailbox, its start configuration, its launch.\<close>

record spawned_task =
  st_agent_id :: agent_id
  st_mailbox :: nat
  st_cfg :: start_cfg
  st_launch_id :: string

record router =
  rt_cfg :: daemon_config
  rt_agents :: "(agent_id, nat) hmap"
  rt_next :: nat
  rt_sent :: "nat \<Rightarrow> agent_cmd list"
  rt_queue :: delivery_queue
  rt_outbound :: "daemon_msg list"
  rt_state_out :: "agent_state_change list"
  rt_registry :: "agent_id set"
  rt_working :: working_memory
  rt_metrics :: agent_metrics
  rt_spawned :: "spawned_task list"

text \<open>
  \<open>re_flush n i\<close> answers the \<open>i\<close>-th \<open>try_send\<close> of the \<open>n\<close>-th flush of a handler, \<open>re_final\<close>
  the \<open>try_send\<close> of the delivery itself, \<open>re_open\<close> an awaited send.
\<close>

record router_env =
  re_flush :: "nat \<Rightarrow> nat \<Rightarrow> send_answer"
  re_final :: send_answer
  re_open :: bool
  re_today :: string
  re_now :: timestamp
  re_fmt :: "timestamp \<Rightarrow> string"
  re_parse :: "string \<Rightarrow> timestamp option"

definition router_new :: "daemon_config \<Rightarrow> agent_id set \<Rightarrow> router" where
  "router_new cfg registry =
     \<lparr>rt_cfg = cfg, rt_agents = [], rt_next = 0, rt_sent = (\<lambda>_. []), rt_queue = queue_new,
      rt_outbound = [], rt_state_out = [], rt_registry = registry, rt_working = working_new,
      rt_metrics = metrics_default, rt_spawned = []\<rparr>"

definition running_agents_snapshot :: "router \<Rightarrow> agent_id list" where
  "running_agents_snapshot r = map fst (rt_agents r)"

section \<open>Effects\<close>

definition mailbox_accept :: "nat \<Rightarrow> agent_cmd list \<Rightarrow> router \<Rightarrow> router" where
  "mailbox_accept mb cmds r = r\<lparr>rt_sent := (rt_sent r)(mb := rt_sent r mb @ cmds)\<rparr>"

definition send_outbound :: "daemon_msg \<Rightarrow> router \<Rightarrow> router" where
  "send_outbound x r = r\<lparr>rt_outbound := rt_outbound r @ [x]\<rparr>"

definition set_depth :: "router \<Rightarrow> router" where
  "set_depth r = r\<lparr>rt_metrics := set_delivery_queue_depth (total_len (rt_queue r)) (rt_metrics r)\<rparr>"

section \<open>Delivery\<close>

definition buffer_delivery :: "agent_id \<Rightarrow> agent_deliver_msg \<Rightarrow> router \<Rightarrow> router" where
  "buffer_delivery a d r =
     (let (q, res) = enqueue a d (rt_queue r);
          count = (case res of
                     Queued \<Rightarrow> inc_delivery_queue_buffered
                   | Updated \<Rightarrow> inc_delivery_queue_updated
                   | RejectedFull \<Rightarrow> inc_delivery_queue_rejected)
      in set_depth (r\<lparr>rt_queue := q, rt_metrics := count (rt_metrics r)\<rparr>))"

text \<open>
  The loop of \<open>flush_delivery_queue_for_agent\<close>: the deliveries sent, and on the first refusal the
  answer with what remains (the refused delivery first).
\<close>

fun flush_loop ::
  "(nat \<Rightarrow> send_answer) \<Rightarrow> nat \<Rightarrow> agent_deliver_msg list \<Rightarrow>
   agent_deliver_msg list \<times> (send_answer \<times> agent_deliver_msg list) option" where
  "flush_loop ans i [] = ([], None)"
| "flush_loop ans i (d # ds) =
     (case ans i of
        SentOk \<Rightarrow> (case flush_loop ans (Suc i) ds of (sent, stop) \<Rightarrow> (d # sent, stop))
      | refused \<Rightarrow> ([], Some (refused, d # ds)))"

definition flush_delivery_queue_for_agent ::
  "(nat \<Rightarrow> send_answer) \<Rightarrow> agent_id \<Rightarrow> nat \<Rightarrow> router \<Rightarrow> router" where
  "flush_delivery_queue_for_agent ans a mb r =
     (let (buffered, q) = drain a (rt_queue r);
          r = r\<lparr>rt_queue := q\<rparr>
      in if buffered = [] then r
         else
           let r = set_depth r;
               (sent, stop) = flush_loop ans 0 buffered;
               r = mailbox_accept mb (map Deliver sent) r;
               r = (case stop of
                      None \<Rightarrow> r
                    | Some (refused, remaining) \<Rightarrow>
                        let r = r\<lparr>rt_queue := prepend a remaining (rt_queue r),
                                  rt_metrics := add_delivery_queue_rebuffered (length remaining) (rt_metrics r)\<rparr>
                        in if refused = SendClosed then r\<lparr>rt_agents := hm_remove a (rt_agents r)\<rparr> else r)
           in set_depth (r\<lparr>rt_metrics := add_delivery_queue_flush_sent (length sent) (rt_metrics r)\<rparr>))"

definition handle_deliver :: "router_env \<Rightarrow> agent_deliver_msg \<Rightarrow> router \<Rightarrow> router" where
  "handle_deliver env m r =
     (let a = ad_agent_id m in
      case hm_get (rt_agents r) a of
        Some tx \<Rightarrow>
          let r = flush_delivery_queue_for_agent (re_flush env 0) a tx r
          in (case re_final env of
                SentOk \<Rightarrow> mailbox_accept tx [Deliver m] r
              | SendFull \<Rightarrow> buffer_delivery a m r
              | SendClosed \<Rightarrow>
                  let r = buffer_delivery a m r in r\<lparr>rt_agents := hm_remove a (rt_agents r)\<rparr>)
      | None \<Rightarrow> buffer_delivery a m r)"

section \<open>Lifecycle\<close>

definition agent_start_cfg :: "router_env \<Rightarrow> daemon_config \<Rightarrow> agent_config \<Rightarrow> string \<Rightarrow> string option \<Rightarrow> start_cfg" where
  "agent_start_cfg env cfg config launch_id resume_session =
     (let system_prompt = build_bootstrap_prompt (re_today env) config in
      \<lparr>sc_runtime_name = (if ac_runtime config = [] then ''claude'' else ac_runtime config),
       sc_workspace_root = dc_agent_workspace_root cfg,
       sc_server_url = dc_server_url cfg,
       sc_auth_token = dc_api_key cfg,
       sc_channel_id = 0,
       sc_channel_name = [],
       sc_model = ac_model config,
       sc_launch_id = launch_id,
       sc_resume_session = resume_session,
       sc_system_prompt = system_prompt,
       sc_initial_prompt = compose_session_bootstrap_prompt system_prompt build_initial_prompt,
       sc_env_vars = (case ac_env_vars config of None \<Rightarrow> [] | Some vs \<Rightarrow> vs)\<rparr>)"

text \<open>\<open>n\<close> selects the answers of this spawn's flush.\<close>

definition spawn_agent ::
  "router_env \<Rightarrow> nat \<Rightarrow> agent_id \<Rightarrow> agent_config \<Rightarrow> string \<Rightarrow> string option \<Rightarrow> router \<Rightarrow> router" where
  "spawn_agent env n a config launch_id resume_session r =
     (if hm_get (rt_agents r) a \<noteq> None then r
      else
        let mb = rt_next r;
            r = r\<lparr>rt_next := Suc mb, rt_agents := hm_insert a mb (rt_agents r)\<rparr>;
            r = flush_delivery_queue_for_agent (re_flush env n) a mb r;
            r = r\<lparr>rt_registry := insert a (rt_registry r),
                  rt_state_out := rt_state_out r @ [Spawned a]\<rparr>
        in r\<lparr>rt_spawned := rt_spawned r @
               [\<lparr>st_agent_id = a, st_mailbox = mb,
                 st_cfg = agent_start_cfg env (rt_cfg r) config launch_id resume_session,
                 st_launch_id = launch_id\<rparr>]\<rparr>)"

text \<open>
  The spawned task: what it sends to the server and to the state channel, given how
  \<open>actor.start\<close> ended (a session, or an error text) and once \<open>run_loop\<close> returned.
\<close>

definition spawned_task_start :: "spawned_task \<Rightarrow> string + string \<Rightarrow> daemon_msg list \<times> agent_state_change list" where
  "spawned_task_start t started =
     (case started of
        Inr session_id \<Rightarrow>
          ([AgentStatus \<lparr>as_agent_id = st_agent_id t, as_status = ''active'',
             as_launch_id = st_launch_id t, as_error_detail = []\<rparr>],
           [Running (st_agent_id t) session_id])
      | Inl e \<Rightarrow>
          ([AgentStatus \<lparr>as_agent_id = st_agent_id t, as_status = ''error'',
             as_launch_id = st_launch_id t, as_error_detail = e\<rparr>],
           [Stopped (st_agent_id t) ''error'']))"

definition spawned_task_exit :: "spawned_task \<Rightarrow> agent_state_change" where
  "spawned_task_exit t = Stopped (st_agent_id t) ''manual_stop''"

definition handle_start :: "router_env \<Rightarrow> agent_start_msg \<Rightarrow> router \<Rightarrow> router" where
  "handle_start env m r = spawn_agent env 0 (sm_agent_id m) (sm_config m) (sm_launch_id m) None r"

definition handle_stop :: "router_env \<Rightarrow> agent_id \<Rightarrow> bool \<Rightarrow> router \<Rightarrow> router" where
  "handle_stop env a force r =
     (case hm_get (rt_agents r) a of
        Some tx \<Rightarrow> if re_open env then mailbox_accept tx [Stop force] r else r
      | None \<Rightarrow> r)"

definition handle_turn_cancel :: "router_env \<Rightarrow> agent_id \<Rightarrow> router \<Rightarrow> router" where
  "handle_turn_cancel env a r =
     (case hm_get (rt_agents r) a of
        Some tx \<Rightarrow> if re_open env then mailbox_accept tx [TurnCancel] r else r
      | None \<Rightarrow> r)"

fun recover_loop :: "router_env \<Rightarrow> nat \<Rightarrow> recover_session list \<Rightarrow> router \<Rightarrow> router" where
  "recover_loop env n [] r = r"
| "recover_loop env n (s # ss) r =
     recover_loop env (Suc n) ss
       (if hm_get (rt_agents r) (rs_agent_id s) \<noteq> None then r
        else spawn_agent env n (rs_agent_id s) (rs_config s) [] (Some (rs_session_id s)) r)"

definition handle_recover :: "router_env \<Rightarrow> recover_session list \<Rightarrow> router \<Rightarrow> router" where
  "handle_recover env sessions r = recover_loop env 0 sessions r"

fun handle_state_change :: "agent_state_change \<Rightarrow> router \<Rightarrow> router" where
  "handle_state_change (Spawned a) r = r"
| "handle_state_change (Running a session_id) r = r"
| "handle_state_change (Stopping a) r = r"
| "handle_state_change (Stopped a end_reason) r =
     (let r = r\<lparr>rt_agents := hm_remove a (rt_agents r)\<rparr>;
          r = r\<lparr>rt_queue := forget a (rt_queue r)\<rparr>;
          r = set_depth r;
          r = r\<lparr>rt_registry := rt_registry r - {a}\<rparr>;
          r = r\<lparr>rt_working := working_clear a (rt_working r)\<rparr>
      in send_outbound (AgentStatus \<lparr>as_agent_id = a, as_status = ''inactive'',
           as_launch_id = [], as_error_detail = []\<rparr>) r)"

section \<open>Working memory\<close>

definition handle_working_set :: "router_env \<Rightarrow> agent_working_set_msg \<Rightarrow> router \<Rightarrow> router" where
  "handle_working_set env m r =
     (let incoming = \<lparr>ws_task_id = wm_task_id m, ws_task_number = wm_task_number m,
            ws_channel_name = wm_channel_name m, ws_summary = wm_summary m,
            ws_next_step_hint = wm_next_step_hint m, ws_started_at = [], ws_last_updated_at = []\<rparr>;
          (stored, w) = set_at (re_fmt env) (re_parse env) (wm_agent_id m) incoming (re_now env) (rt_working r)
      in send_outbound (AgentWorkingResult \<lparr>wr_agent_id = wm_agent_id m, wr_request_id = wm_request_id m,
           wr_op = ''set'', wr_state = Some stored, wr_error = [], wr_error_code = []\<rparr>)
         (r\<lparr>rt_working := w\<rparr>))"

definition handle_working_get :: "agent_id \<Rightarrow> string \<Rightarrow> router \<Rightarrow> router" where
  "handle_working_get a request_id r =
     send_outbound (AgentWorkingResult \<lparr>wr_agent_id = a, wr_request_id = request_id,
       wr_op = ''get'', wr_state = working_get a (rt_working r), wr_error = [], wr_error_code = []\<rparr>) r"

definition handle_working_clear :: "agent_id \<Rightarrow> string \<Rightarrow> router \<Rightarrow> router" where
  "handle_working_clear a request_id r =
     send_outbound (AgentWorkingResult \<lparr>wr_agent_id = a, wr_request_id = request_id,
       wr_op = ''clear'', wr_state = None, wr_error = [], wr_error_code = []\<rparr>)
     (r\<lparr>rt_working := working_clear a (rt_working r)\<rparr>)"

section \<open>Workspace operations\<close>

text \<open>
  The file system and the base64 crate, as the handlers use them. A directory entry is \<open>None\<close>
  when reading it failed; its metadata, when available, says whether it is a directory and how
  long it is.
\<close>

record dir_entry =
  de_name :: string
  de_meta :: "(bool \<times> u64) option"

record 'fs fs_ops =
  fs_canonicalize :: "'fs \<Rightarrow> path \<Rightarrow> io_error + path"
  fs_debug :: "path \<Rightarrow> string"
  fs_read_dir :: "'fs \<Rightarrow> path \<Rightarrow> io_error + (dir_entry option) list"
  fs_read :: "'fs \<Rightarrow> path \<Rightarrow> io_error + string"
  fs_exists :: "'fs \<Rightarrow> path \<Rightarrow> bool"
  fs_entries :: "path \<Rightarrow> 'fs \<Rightarrow> io_error + (io_error + (path \<times> bool option)) list"
  fs_remove_dir_all :: "path \<Rightarrow> 'fs \<Rightarrow> 'fs"
  fs_remove_file :: "path \<Rightarrow> 'fs \<Rightarrow> 'fs"
  base64_encode :: "string \<Rightarrow> string"

definition file_tree_entry_of :: "dir_entry \<Rightarrow> file_tree_entry" where
  "file_tree_entry_of e =
     (let is_dir = (case de_meta e of None \<Rightarrow> False | Some (d, _) \<Rightarrow> d);
          size = (if is_dir then 0 else case de_meta e of None \<Rightarrow> 0 | Some (_, n) \<Rightarrow> sint n)
      in \<lparr>ft_name = de_name e, ft_is_dir = is_dir, ft_size = size\<rparr>)"

definition handle_workspace_list :: "'fs fs_ops \<Rightarrow> 'fs \<Rightarrow> agent_id \<Rightarrow> string \<Rightarrow> string \<Rightarrow> router \<Rightarrow> router" where
  "handle_workspace_list ops fs a request_id dir_path r =
     (let work_dir = agent_workspace_dir (dc_agent_workspace_root (rt_cfg r)) a;
          files = (case resolve_within (fs_canonicalize ops fs) (fs_debug ops) work_dir dir_path of
                     Inl _ \<Rightarrow> []
                   | Inr target \<Rightarrow>
                       (case fs_read_dir ops fs target of
                          Inl _ \<Rightarrow> []
                        | Inr entries \<Rightarrow> map file_tree_entry_of (List.map_filter id entries)))
      in send_outbound (AgentWorkspaceFileTree a request_id dir_path files) r)"

definition max_file_bytes :: nat where
  "max_file_bytes = 1024 * 1024"

definition file_content :: "'fs fs_ops \<Rightarrow> 'fs \<Rightarrow> path \<Rightarrow> string \<Rightarrow> string \<times> bool" where
  "file_content ops fs work_dir p =
     (case resolve_within (fs_canonicalize ops fs) (fs_debug ops) work_dir p of
        Inl e \<Rightarrow> if io_kind e = PermissionDenied then (''access denied'', False)
                 else (''error: '' @ io_text e, False)
      | Inr target \<Rightarrow>
          (case fs_read ops fs target of
             Inl e \<Rightarrow> (''error: '' @ io_text e, False)
           | Inr data \<Rightarrow>
               if length data > max_file_bytes then (''file too large (>1MB)'', True)
               else if CHR 0x00 \<in> set (take 512 data) then (base64_encode ops data, True)
               else if utf8_valid data then (data, False)
               else (base64_encode ops data, True)))"

definition handle_workspace_read :: "'fs fs_ops \<Rightarrow> 'fs \<Rightarrow> agent_id \<Rightarrow> string \<Rightarrow> string \<Rightarrow> router \<Rightarrow> router" where
  "handle_workspace_read ops fs a request_id p r =
     (let work_dir = agent_workspace_dir (dc_agent_workspace_root (rt_cfg r)) a;
          (content, binary) = file_content ops fs work_dir p
      in send_outbound (AgentWorkspaceFileContent a request_id content binary) r)"

definition handle_reset_workspace :: "'fs fs_ops \<Rightarrow> agent_id \<Rightarrow> router \<Rightarrow> 'fs \<Rightarrow> 'fs" where
  "handle_reset_workspace ops a r fs =
     (let work_dir = agent_workspace_dir (dc_agent_workspace_root (rt_cfg r)) a in
      if \<not> fs_exists ops fs work_dir then fs
      else snd (clear_dir_contents (fs_entries ops) (fs_remove_dir_all ops) (fs_remove_file ops) work_dir fs))"

section \<open>The loop\<close>

text \<open>One iteration of \<open>run\<close> on a server message, and on the shutdown token.\<close>

fun handle_server_msg :: "router_env \<Rightarrow> 'fs fs_ops \<Rightarrow> server_msg \<Rightarrow> router \<times> 'fs \<Rightarrow> router \<times> 'fs" where
  "handle_server_msg env ops (AgentStart m) (r, fs) = (handle_start env m r, fs)"
| "handle_server_msg env ops (AgentStop a force) (r, fs) = (handle_stop env a force r, fs)"
| "handle_server_msg env ops (AgentDeliver m) (r, fs) = (handle_deliver env m r, fs)"
| "handle_server_msg env ops (AgentTurnCancel a) (r, fs) = (handle_turn_cancel env a r, fs)"
| "handle_server_msg env ops (AgentRecoverSessions ss) (r, fs) = (handle_recover env ss r, fs)"
| "handle_server_msg env ops (AgentWorkspaceList a p rid) (r, fs) = (handle_workspace_list ops fs a rid p r, fs)"
| "handle_server_msg env ops (AgentWorkspaceRead a p rid) (r, fs) = (handle_workspace_read ops fs a rid p r, fs)"
| "handle_server_msg env ops (AgentResetWorkspace a) (r, fs) = (r, handle_reset_workspace ops a r fs)"
| "handle_server_msg env ops (AgentWorkingSet m) (r, fs) = (handle_working_set env m r, fs)"
| "handle_server_msg env ops (AgentWorkingGet a rid) (r, fs) = (handle_working_get a rid r, fs)"
| "handle_server_msg env ops (AgentWorkingClear a rid) (r, fs) = (handle_working_clear a rid r, fs)"
| "handle_server_msg env ops Ping (r, fs) = (r, fs)"
| "handle_server_msg env ops (ServerShutdown reason) (r, fs) = (r, fs)"
| "handle_server_msg env ops UnknownServerMsg (r, fs) = (r, fs)"

text \<open>After the loop every agent is asked to stop; \<open>open\<close> tells which receivers still exist.\<close>

definition router_shutdown :: "(agent_id \<Rightarrow> bool) \<Rightarrow> router \<Rightarrow> router" where
  "router_shutdown open_rx r =
     fold (\<lambda>(a, mb) r. if open_rx a then mailbox_accept mb [Stop False] r else r) (rt_agents r)
       (r\<lparr>rt_agents := []\<rparr>)"

inductive router_step :: "router \<times> 'fs \<Rightarrow> router \<times> 'fs \<Rightarrow> bool" where
  step_server: "router_step s (handle_server_msg env ops m s)"
| step_state: "router_step (r, fs) (handle_state_change c r, fs)"

section \<open>Frames\<close>

text \<open>What the delivery helpers leave alone.\<close>

lemma mailbox_accept_sel [simp]:
  "rt_cfg (mailbox_accept mb cs r) = rt_cfg r" "rt_agents (mailbox_accept mb cs r) = rt_agents r"
  "rt_next (mailbox_accept mb cs r) = rt_next r" "rt_queue (mailbox_accept mb cs r) = rt_queue r"
  "rt_outbound (mailbox_accept mb cs r) = rt_outbound r"
  "rt_state_out (mailbox_accept mb cs r) = rt_state_out r"
  "rt_registry (mailbox_accept mb cs r) = rt_registry r"
  "rt_working (mailbox_accept mb cs r) = rt_working r"
  "rt_metrics (mailbox_accept mb cs r) = rt_metrics r"
  "rt_spawned (mailbox_accept mb cs r) = rt_spawned r"
  "rt_sent (mailbox_accept mb cs r) = (rt_sent r)(mb := rt_sent r mb @ cs)"
  by (simp_all add: mailbox_accept_def)

lemma send_outbound_sel [simp]:
  "rt_cfg (send_outbound x r) = rt_cfg r" "rt_agents (send_outbound x r) = rt_agents r"
  "rt_next (send_outbound x r) = rt_next r" "rt_queue (send_outbound x r) = rt_queue r"
  "rt_outbound (send_outbound x r) = rt_outbound r @ [x]"
  "rt_registry (send_outbound x r) = rt_registry r"
  "rt_working (send_outbound x r) = rt_working r" "rt_metrics (send_outbound x r) = rt_metrics r"
  "rt_sent (send_outbound x r) = rt_sent r"
  by (simp_all add: send_outbound_def)

lemma set_depth_sel [simp]:
  "rt_cfg (set_depth r) = rt_cfg r" "rt_agents (set_depth r) = rt_agents r"
  "rt_next (set_depth r) = rt_next r" "rt_queue (set_depth r) = rt_queue r"
  "rt_outbound (set_depth r) = rt_outbound r" "rt_state_out (set_depth r) = rt_state_out r"
  "rt_registry (set_depth r) = rt_registry r" "rt_working (set_depth r) = rt_working r"
  "rt_sent (set_depth r) = rt_sent r" "rt_spawned (set_depth r) = rt_spawned r"
  "delivery_queue_depth (rt_metrics (set_depth r)) = of_nat (total_len (rt_queue r))"
  by (simp_all add: set_depth_def set_delivery_queue_depth_def)

lemma buffer_delivery_sel [simp]:
  "rt_cfg (buffer_delivery a d r) = rt_cfg r" "rt_agents (buffer_delivery a d r) = rt_agents r"
  "rt_next (buffer_delivery a d r) = rt_next r"
  "rt_queue (buffer_delivery a d r) = fst (enqueue a d (rt_queue r))"
  "rt_registry (buffer_delivery a d r) = rt_registry r"
  "rt_working (buffer_delivery a d r) = rt_working r"
  "rt_sent (buffer_delivery a d r) = rt_sent r"
  "rt_outbound (buffer_delivery a d r) = rt_outbound r"
  "delivery_queue_depth (rt_metrics (buffer_delivery a d r)) = of_nat (total_len (fst (enqueue a d (rt_queue r))))"
  by (simp_all add: buffer_delivery_def Let_def split: prod.splits)

lemma flush_frame [simp]:
  "rt_cfg (flush_delivery_queue_for_agent ans a mb r) = rt_cfg r"
  "rt_next (flush_delivery_queue_for_agent ans a mb r) = rt_next r"
  "rt_registry (flush_delivery_queue_for_agent ans a mb r) = rt_registry r"
  "rt_working (flush_delivery_queue_for_agent ans a mb r) = rt_working r"
  "rt_outbound (flush_delivery_queue_for_agent ans a mb r) = rt_outbound r"
  "rt_state_out (flush_delivery_queue_for_agent ans a mb r) = rt_state_out r"
  "rt_spawned (flush_delivery_queue_for_agent ans a mb r) = rt_spawned r"
  by (simp_all add: flush_delivery_queue_for_agent_def Let_def split: prod.splits option.splits)

section \<open>The flush\<close>

lemma flush_loop_split:
  "flush_loop ans i ds = (sent, stop) \<Longrightarrow>
   ds = sent @ (case stop of None \<Rightarrow> [] | Some (f, rest) \<Rightarrow> rest)
   \<and> (\<forall>f rest. stop = Some (f, rest) \<longrightarrow> rest \<noteq> [] \<and> f \<noteq> SentOk \<and> f = ans (i + length sent))
   \<and> (\<forall>k < length sent. ans (i + k) = SentOk)"
proof (induction ds arbitrary: i sent stop)
  case Nil
  then show ?case by simp
next
  case (Cons d ds)
  show ?case
  proof (cases "ans i")
    case SentOk
    obtain s st where r: "flush_loop ans (Suc i) ds = (s, st)" by fastforce
    with SentOk Cons.prems have e: "sent = d # s" "stop = st" by auto
    have "ans (i + k) = SentOk" if "k < length sent" for k
      using that e SentOk Cons.IH [OF r] by (cases k) auto
    with Cons.IH [OF r] e show ?thesis by auto
  qed (use Cons.prems in auto)
qed

lemma flush_loop_all_ok: "(\<forall>k < length ds. ans (i + k) = SentOk) \<Longrightarrow> flush_loop ans i ds = (ds, None)"
proof (induction ds arbitrary: i)
  case Nil
  then show ?case by simp
next
  case (Cons d ds)
  then have "ans i = SentOk" by (metis add.right_neutral length_Cons zero_less_Suc)
  moreover have "\<forall>k < length ds. ans (Suc i + k) = SentOk" using Cons.prems by auto
  ultimately show ?case using Cons.IH [of "Suc i"] by simp
qed

text \<open>
  The flush of an agent as one fact: the pending deliveries split into what the mailbox took, in
  order, and what stays pending; the agent loses its table entry only when its mailbox is closed.
\<close>

lemma flush_effect:
  assumes inv: "queue_inv (rt_queue r)" and r': "r' = flush_delivery_queue_for_agent ans a mb r"
  obtains sent rest where
    "pending (rt_queue r) a = sent @ rest"
    "pending (rt_queue r') a = rest"
    "\<And>b. b \<noteq> a \<Longrightarrow> pending (rt_queue r') b = pending (rt_queue r) b"
    "queue_inv (rt_queue r')"
    "total_len (rt_queue r) = total_len (rt_queue r') + length sent"
    "rt_sent r' = (rt_sent r)(mb := rt_sent r mb @ map Deliver sent)"
    "rt_agents r' = (if rest \<noteq> [] \<and> ans (length sent) = SendClosed
                     then hm_remove a (rt_agents r) else rt_agents r)"
    "rest \<noteq> [] \<Longrightarrow> ans (length sent) \<noteq> SentOk"
    "\<And>k. k < length sent \<Longrightarrow> ans k = SentOk"
proof -
  obtain sent stop where fl: "flush_loop ans 0 (pending (rt_queue r) a) = (sent, stop)" by fastforce
  define rest where "rest = (case stop of None \<Rightarrow> [] | Some (f, rest) \<Rightarrow> rest)"
  from flush_loop_split [OF fl] have sp: "pending (rt_queue r) a = sent @ rest"
    and stop: "\<And>f rest. stop = Some (f, rest) \<Longrightarrow> rest \<noteq> [] \<and> f \<noteq> SentOk \<and> f = ans (length sent)"
    and ok: "\<And>k. k < length sent \<Longrightarrow> ans k = SentOk"
    by (auto simp: rest_def)
  have q: "rt_queue r' = prepend a rest (snd (drain a (rt_queue r)))"
    using r' fl by (auto simp: flush_delivery_queue_for_agent_def Let_def rest_def prepend_def
        case_prod_unfold split: option.splits)
  have s: "rt_sent r' = (rt_sent r)(mb := rt_sent r mb @ map Deliver sent)"
    using r' fl sp by (auto simp: flush_delivery_queue_for_agent_def Let_def case_prod_unfold
        split: option.splits)
  have ag: "rt_agents r' = (if rest \<noteq> [] \<and> ans (length sent) = SendClosed
                     then hm_remove a (rt_agents r) else rt_agents r)"
    using r' fl sp stop by (auto simp: flush_delivery_queue_for_agent_def Let_def case_prod_unfold rest_def
        split: option.splits)
  note pr = prepend_rest_lemma [OF inv sp]
  show thesis
    by (rule that [of sent rest]) (use sp q s ag stop ok pr in \<open>auto simp: rest_def split: option.splits\<close>)
qed

section \<open>Invariant\<close>

text \<open>
  The queue is well formed and its depth gauge is current; every agent with a mailbox is in the
  running registry (what the reconnect path reads); mailboxes were created by the router and no
  two agents share one.
\<close>

definition table_ok :: "router \<Rightarrow> bool" where
  "table_ok r \<longleftrightarrow>
     (\<forall>a mb. hm_get (rt_agents r) a = Some mb \<longrightarrow> mb < rt_next r) \<and>
     (\<forall>a b mb. hm_get (rt_agents r) a = Some mb \<longrightarrow> hm_get (rt_agents r) b = Some mb \<longrightarrow> a = b)"

definition depth_ok :: "router \<Rightarrow> bool" where
  "depth_ok r \<longleftrightarrow> queue_inv (rt_queue r)
     \<and> delivery_queue_depth (rt_metrics r) = of_nat (total_len (rt_queue r))"

definition router_inv :: "router \<Rightarrow> bool" where
  "router_inv r \<longleftrightarrow> table_ok r \<and> depth_ok r \<and> dom (hm_get (rt_agents r)) \<subseteq> rt_registry r"

lemma table_ok_mono:
  "table_ok r \<Longrightarrow> rt_next r \<le> rt_next r' \<Longrightarrow>
   (\<And>a mb. hm_get (rt_agents r') a = Some mb \<Longrightarrow> hm_get (rt_agents r) a = Some mb) \<Longrightarrow> table_ok r'"
  unfolding table_ok_def by (meson less_le_trans)

lemma table_ok_insert:
  "table_ok r \<Longrightarrow> table_ok (r\<lparr>rt_next := Suc (rt_next r), rt_agents := hm_insert a (rt_next r) (rt_agents r)\<rparr>)"
  unfolding table_ok_def by (auto intro: less_SucI dest: less_imp_neq)

lemma flush_depth [simp]:
  assumes "depth_ok r" shows "depth_ok (flush_delivery_queue_for_agent ans a mb r)"
proof -
  let ?r' = "flush_delivery_queue_for_agent ans a mb r"
  from assms have inv: "queue_inv (rt_queue r)" by (simp add: depth_ok_def)
  obtain sent rest where f: "pending (rt_queue r) a = sent @ rest" "queue_inv (rt_queue ?r')"
      "total_len (rt_queue r) = total_len (rt_queue ?r') + length sent"
    using flush_effect [OF inv refl] by metis
  have "delivery_queue_depth (rt_metrics ?r') = of_nat (total_len (rt_queue ?r'))"
  proof (cases "pending (rt_queue r) a = []")
    case True
    then have "rt_metrics ?r' = rt_metrics r"
      by (simp add: flush_delivery_queue_for_agent_def case_prod_unfold)
    with True f assms show ?thesis by (simp add: depth_ok_def)
  next
    case False
    then show ?thesis
      by (simp add: flush_delivery_queue_for_agent_def Let_def case_prod_unfold split: option.splits)
  qed
  with f show ?thesis by (simp add: depth_ok_def)
qed

lemma flush_agents_sub:
  assumes "queue_inv (rt_queue r)"
  shows "hm_get (rt_agents (flush_delivery_queue_for_agent ans a mb r)) b = Some m \<Longrightarrow>
         hm_get (rt_agents r) b = Some m"
  by (rule flush_effect [OF assms refl [of "flush_delivery_queue_for_agent ans a mb r"]])
    (auto split: if_splits)

lemma flush_dom:
  "queue_inv (rt_queue r) \<Longrightarrow>
   dom (hm_get (rt_agents (flush_delivery_queue_for_agent ans a mb r))) \<subseteq> dom (hm_get (rt_agents r))"
  using flush_agents_sub [of r ans a mb] by auto

lemma flush_table:
  "queue_inv (rt_queue r) \<Longrightarrow> table_ok r \<Longrightarrow> table_ok (flush_delivery_queue_for_agent ans a mb r)"
  by (erule table_ok_mono) (auto dest: flush_agents_sub)

lemma buffer_depth [simp]: "depth_ok r \<Longrightarrow> depth_ok (buffer_delivery a d r)"
  by (simp add: depth_ok_def queue_inv_enqueue)

lemma accept_depth [simp]: "depth_ok (mailbox_accept mb cs r) = depth_ok r"
  by (simp add: depth_ok_def)

lemma accept_inv [simp]: "router_inv (mailbox_accept mb cs r) = router_inv r"
  by (simp add: router_inv_def table_ok_def)

lemma outbound_inv [simp]: "router_inv (send_outbound x r) = router_inv r"
  by (simp add: router_inv_def table_ok_def depth_ok_def)

lemma router_inv_flush [inv_intros]:
  "router_inv r \<Longrightarrow> router_inv (flush_delivery_queue_for_agent ans a mb r)"
  using flush_dom [of r ans a mb] flush_table [of r ans a mb] flush_depth [of r ans a mb]
  by (auto simp: router_inv_def depth_ok_def [of r])

lemma router_inv_buffer [inv_intros]: "router_inv r \<Longrightarrow> router_inv (buffer_delivery a d r)"
  by (simp add: router_inv_def table_ok_def)

lemma router_inv_forget_agent [inv_intros]:
  "router_inv r \<Longrightarrow> router_inv (r\<lparr>rt_agents := hm_remove a (rt_agents r)\<rparr>)"
  by (auto simp: router_inv_def table_ok_def depth_ok_def split: if_splits)

lemma router_inv_new [inv_intros]: "router_inv (router_new cfg registry)"
  by (simp add: router_inv_def table_ok_def depth_ok_def router_new_def metrics_default_def
      total_len_def queue_new_def queue_inv_new [unfolded queue_new_def])

lemma router_inv_deliver [inv_intros]:
  assumes "router_inv r" shows "router_inv (handle_deliver env m r)"
proof -
  let ?a = "ad_agent_id m"
  have "router_inv (buffer_delivery ?a m r')"
    "router_inv ((buffer_delivery ?a m r')\<lparr>rt_agents := hm_remove ?a (rt_agents (buffer_delivery ?a m r'))\<rparr>)"
    if "router_inv r'" for r'
    using that router_inv_buffer router_inv_forget_agent by blast+
  moreover have "router_inv (flush_delivery_queue_for_agent ans ?a mb r)" for ans mb
    using assms by (intro inv_intros)
  ultimately show ?thesis
    unfolding handle_deliver_def Let_def using assms
    by (simp only: accept_inv split: option.splits send_answer.splits) blast
qed

lemma router_inv_spawn [inv_intros]:
  assumes "router_inv r" shows "router_inv (spawn_agent env n a config l s r)"
proof (cases "hm_get (rt_agents r) a")
  case None
  let ?r1 = "r\<lparr>rt_next := Suc (rt_next r), rt_agents := hm_insert a (rt_next r) (rt_agents r)\<rparr>"
  let ?r2 = "flush_delivery_queue_for_agent (re_flush env n) a (rt_next r) ?r1"
  from assms have t: "table_ok ?r1" and d: "depth_ok ?r1"
    by (auto simp: router_inv_def table_ok_insert depth_ok_def)
  then have q: "queue_inv (rt_queue ?r1)" by (simp add: depth_ok_def)
  have "dom (hm_get (rt_agents ?r2)) \<subseteq> insert a (rt_registry r)"
  proof
    fix b assume "b \<in> dom (hm_get (rt_agents ?r2))"
    then have "b \<in> dom (hm_get (rt_agents ?r1))"
      using flush_dom [OF q, of "re_flush env n" a "rt_next r"] by blast
    then have "b = a \<or> b \<in> dom (hm_get (rt_agents r))" by (auto split: if_splits)
    with assms show "b \<in> insert a (rt_registry r)" unfolding router_inv_def by blast
  qed
  moreover have "table_ok ?r2" using flush_table [OF q t] .
  moreover have "depth_ok ?r2" using d by simp
  ultimately show ?thesis
    using None by (simp add: spawn_agent_def Let_def router_inv_def table_ok_def depth_ok_def)
qed (use assms in \<open>simp add: spawn_agent_def\<close>)

lemma router_inv_recover [inv_intros]: "router_inv r \<Longrightarrow> router_inv (recover_loop env n ss r)"
  by (induction ss arbitrary: n r) (simp_all add: router_inv_spawn)

lemma router_inv_state_change [inv_intros]:
  assumes "router_inv r" shows "router_inv (handle_state_change c r)"
proof (cases c)
  case (Stopped a reason)
  with assms show ?thesis
    by (auto simp: Let_def router_inv_def table_ok_def depth_ok_def queue_inv_forget split: if_splits)
qed (use assms in simp_all)

lemma router_inv_working_update [simp]: "router_inv (r\<lparr>rt_working := w\<rparr>) = router_inv r"
  by (simp add: router_inv_def table_ok_def depth_ok_def)

lemma router_inv_server_msg [inv_intros]:
  "router_inv r \<Longrightarrow> router_inv (fst (handle_server_msg env ops m (r, fs)))"
  by (cases m)
    (simp_all add: handle_start_def handle_stop_def handle_turn_cancel_def handle_recover_def
      handle_workspace_list_def handle_workspace_read_def handle_working_set_def
      handle_working_get_def handle_working_clear_def case_prod_unfold Let_def
      router_inv_spawn router_inv_deliver router_inv_recover split: option.splits)

interpretation ro: invariant_system
  "\<lambda>s. \<exists>cfg registry fs. s = (router_new cfg registry, fs)" router_step "router_inv \<circ> fst"
proof
  fix s :: "router \<times> 'a"
  assume "\<exists>cfg registry fs. s = (router_new cfg registry, fs)"
  then show "(router_inv \<circ> fst) s" by (auto intro: router_inv_new)
next
  fix s t :: "router \<times> 'a"
  assume "router_step s t" and "(router_inv \<circ> fst) s"
  then show "(router_inv \<circ> fst) t"
    by (cases rule: router_step.cases)
      (cases s, auto intro: router_inv_server_msg router_inv_state_change)
qed

section \<open>What a delivery does\<close>



lemma enqueue_rejected:
  "snd (enqueue a m q) = RejectedFull \<Longrightarrow>
   pending (fst (enqueue a m q)) a = pending q a \<and> length (pending q a) \<ge> max_pending_per_agent"
  by (auto simp: enqueue_def Let_def split: if_splits)


lemma flush_rejected_counter [simp]:
  "delivery_queue_rejected_total (rt_metrics (flush_delivery_queue_for_agent ans a mb r)) =
   delivery_queue_rejected_total (rt_metrics r)"
  by (simp add: flush_delivery_queue_for_agent_def Let_def case_prod_unfold set_depth_def metrics_op_defs
      split: option.splits)

text \<open>The three ways \<open>handle_deliver\<close> ends, as an elimination rule.\<close>

lemma handle_deliver_cases:
  obtains (accepted) mb where
      "hm_get (rt_agents r) (ad_agent_id m) = Some mb" "re_final env = SentOk"
      "handle_deliver env m r = mailbox_accept mb [Deliver m]
         (flush_delivery_queue_for_agent (re_flush env 0) (ad_agent_id m) mb r)"
  | (refused) mb where
      "hm_get (rt_agents r) (ad_agent_id m) = Some mb" "re_final env \<noteq> SentOk"
      "rt_queue (handle_deliver env m r) = fst (enqueue (ad_agent_id m) m
         (rt_queue (flush_delivery_queue_for_agent (re_flush env 0) (ad_agent_id m) mb r)))"
      "rt_sent (handle_deliver env m r) =
         rt_sent (flush_delivery_queue_for_agent (re_flush env 0) (ad_agent_id m) mb r)"
      "rt_metrics (handle_deliver env m r) = rt_metrics (buffer_delivery (ad_agent_id m) m
         (flush_delivery_queue_for_agent (re_flush env 0) (ad_agent_id m) mb r))"
  | (absent)
      "hm_get (rt_agents r) (ad_agent_id m) = None"
      "handle_deliver env m r = buffer_delivery (ad_agent_id m) m r"
proof (cases "hm_get (rt_agents r) (ad_agent_id m)")
  case None
  then show thesis by (intro absent) (simp_all add: handle_deliver_def)
next
  case (Some mb)
  show thesis
  proof (cases "re_final env")
    case SentOk
    with Some show thesis by (intro accepted [of mb]) (simp_all add: handle_deliver_def Let_def)
  next
    case SendFull
    with Some show thesis by (intro refused [of mb]) (simp_all add: handle_deliver_def Let_def)
  next
    case SendClosed
    with Some show thesis by (intro refused [of mb]) (simp_all add: handle_deliver_def Let_def)
  qed
qed

section \<open>Properties\<close>

text \<open>
  C1. Safety of the router: in every reachable state, whatever the server and the actors send and
  however the mailboxes answer, each agent with a mailbox is listed in the running registry, no
  two agents share a mailbox, no agent has more than 64 buffered deliveries, and the queue-depth
  gauge is the number of buffered deliveries.
\<close>

theorem router_reachable_safe:
  assumes "reachable (\<lambda>s. \<exists>cfg registry fs. s = (router_new cfg registry, fs)) router_step (r, fs)"
  shows "(\<forall>a mb. hm_get (rt_agents r) a = Some mb \<longrightarrow> a \<in> rt_registry r)
       \<and> (\<forall>a b mb. hm_get (rt_agents r) a = Some mb \<and> hm_get (rt_agents r) b = Some mb \<longrightarrow> a = b)
       \<and> (\<forall>a. length (pending (rt_queue r) a) \<le> 64)
       \<and> delivery_queue_depth (rt_metrics r) = of_nat (total_len (rt_queue r))"
proof -
  from ro.inv_reachable [OF assms] have "router_inv r" by simp
  then show ?thesis
    by (auto simp: router_inv_def table_ok_def depth_ok_def queue_inv_def deque_ok_def
        max_pending_per_agent_def)
qed

definition example_cfg :: daemon_config where
  "example_cfg = \<lparr>dc_server_url = ''http://localhost:8080'', dc_machine_id = ''m1'',
     dc_api_key = ''k1'', dc_agent_workspace_root = [RootDir, Normal ''w'']\<rparr>"

definition example_env :: "send_answer \<Rightarrow> router_env" where
  "example_env x = \<lparr>re_flush = (\<lambda>_ _. x), re_final = x, re_open = True, re_today = ''2026-01-01'',
     re_now = 0, re_fmt = unary_fmt, re_parse = unary_parse\<rparr>"

definition example_ops :: "unit fs_ops" where
  "example_ops = \<lparr>fs_canonicalize = (\<lambda>_. example_fs), fs_debug = (\<lambda>_. []),
     fs_read_dir = (\<lambda>_ _. Inr []), fs_read = (\<lambda>_ _. Inr ''x''), fs_exists = (\<lambda>_ _. False),
     fs_entries = (\<lambda>_ _. Inr []), fs_remove_dir_all = (\<lambda>_ fs. fs), fs_remove_file = (\<lambda>_ fs. fs),
     base64_encode = id\<rparr>"

theorem router_reachable_safe_witness:
  "let r = handle_deliver (example_env SendFull) (example_delivery ''a'' 1 1 5) (router_new example_cfg {})
   in length (pending (rt_queue r) ''a'') \<le> 64
    \<and> delivery_queue_depth (rt_metrics r) = of_nat (total_len (rt_queue r))"
proof -
  let ?s = "\<lambda>s :: router \<times> unit. \<exists>cfg registry fs. s = (router_new cfg registry, fs)"
  let ?r = "handle_deliver (example_env SendFull) (example_delivery ''a'' 1 1 5) (router_new example_cfg {})"
  have "reachable ?s router_step (router_new example_cfg {}, ())" by (rule reachable_start) blast
  moreover have "router_step (router_new example_cfg {}, ()) (?r, ())"
    using step_server [of "(router_new example_cfg {}, ())" "example_env SendFull" example_ops
        "AgentDeliver (example_delivery ''a'' 1 1 5)"] by simp
  ultimately have "reachable ?s router_step (?r, ())" by (rule reachable_step)
  from router_reachable_safe [OF this] show ?thesis by (simp add: Let_def)
qed



text \<open>
  C32. Order: for an agent with a mailbox, if a refusal of the mailbox stays the same until the
  handler is done, then what the mailbox accepted followed by what is buffered is extended by the
  new delivery at the end and otherwise unchanged; this needs that the delivery is not an
  attempt of one already buffered and that the buffer is not full.
\<close>

theorem handle_deliver_in_order:
  assumes "queue_inv (rt_queue r)" and "hm_get (rt_agents r) (ad_agent_id m) = Some mb"
    and "\<And>k. re_flush env 0 k \<noteq> SentOk \<Longrightarrow> re_final env \<noteq> SentOk"
    and "\<And>p. p \<in> set (pending (rt_queue r) (ad_agent_id m)) \<Longrightarrow> \<not> same_delivery p m"
    and "length (pending (rt_queue r) (ad_agent_id m)) < max_pending_per_agent"
  shows "rt_sent (handle_deliver env m r) mb
           @ map Deliver (pending (rt_queue (handle_deliver env m r)) (ad_agent_id m))
         = rt_sent r mb @ map Deliver (pending (rt_queue r) (ad_agent_id m)) @ [Deliver m]"
proof -
  let ?a = "ad_agent_id m"
  let ?f = "flush_delivery_queue_for_agent (re_flush env 0) ?a mb r"
  obtain sent rest where fl: "pending (rt_queue r) ?a = sent @ rest" "pending (rt_queue ?f) ?a = rest"
      "rt_sent ?f = (rt_sent r)(mb := rt_sent r mb @ map Deliver sent)"
      "rest \<noteq> [] \<Longrightarrow> re_flush env 0 (length sent) \<noteq> SentOk"
    by (rule flush_effect [OF assms(1) refl [of ?f]]) blast
  show ?thesis
  proof (cases rule: handle_deliver_cases [of r m env, case_names accepted refused absent])
    case (accepted mb')
    with assms(2,3) fl have "rest = []" "mb' = mb" by auto
    with accepted fl show ?thesis by simp
  next
    case (refused mb')
    then have mb: "mb' = mb" using assms(2) by simp
    have "pending (fst (enqueue ?a m (rt_queue ?f))) ?a = rest @ [m]"
      using fl assms(4,5) by (auto simp: enqueue_def Let_def list_ex_iff)
    with refused mb fl show ?thesis by simp
  next
    case absent
    with assms(2) show ?thesis by simp
  qed
qed

text \<open>An agent with mailbox 0 and one buffered delivery.\<close>

definition example_backlog :: router where
  "example_backlog =
     (router_new example_cfg {''a''})\<lparr>rt_agents := [(''a'', 0)], rt_next := 1,
        rt_queue := [(''a'', [example_delivery ''a'' 1 1 5])]\<rparr>"

lemma example_backlog_inv: "queue_inv (rt_queue example_backlog)"
  by (auto simp: example_backlog_def queue_inv_def pending_def deque_ok_def seq_keys_def
      max_pending_per_agent_def split: option.splits if_splits)

theorem handle_deliver_in_order_witness:
  "let m = example_delivery ''a'' 2 1 5; r' = handle_deliver (example_env SentOk) m example_backlog
   in rt_sent r' 0 @ map Deliver (pending (rt_queue r') ''a'')
      = [Deliver (example_delivery ''a'' 1 1 5), Deliver m]"
proof -
  let ?m = "example_delivery ''a'' 2 1 5"
  have p: "pending (rt_queue example_backlog) ''a'' = [example_delivery ''a'' 1 1 5]"
    by (simp add: example_backlog_def pending_def)
  have s: "rt_sent example_backlog 0 = []" by (simp add: example_backlog_def router_new_def)
  have "hm_get (rt_agents example_backlog) (ad_agent_id ?m) = Some 0"
    by (simp add: example_backlog_def)
  from handle_deliver_in_order [OF example_backlog_inv this, of "example_env SentOk"]
  show ?thesis
    using p s by (simp add: Let_def example_env_def same_delivery_def max_pending_per_agent_def)
qed

text \<open>
  The order can be lost when the actor takes a command between the flush and the send: the
  flush found the mailbox full, the send did not, and the new delivery is in the mailbox while the
  older one is still buffered.
\<close>

theorem handle_deliver_overtakes:
  "let m = example_delivery ''a'' 2 1 5;
       r' = handle_deliver ((example_env SendFull)\<lparr>re_final := SentOk\<rparr>) m example_backlog
   in rt_sent r' 0 = [Deliver m] \<and> pending (rt_queue r') ''a'' = [example_delivery ''a'' 1 1 5]"
  by (simp add: example_backlog_def example_env_def handle_deliver_def Let_def router_new_def
      flush_delivery_queue_for_agent_def drain_def prepend_def pending_def max_pending_per_agent_def)

text \<open>
  A stopped agent leaves nothing behind: its mailbox, its buffered deliveries, its registry
  entry and its work anchor are gone, the server is told it is inactive, and every other
  agent keeps all four.
\<close>

theorem stopped_clears_agent:
  fixes r a reason
  defines "r' \<equiv> handle_state_change (Stopped a reason) r"
  shows "hm_get (rt_agents r') a = None \<and> pending (rt_queue r') a = [] \<and> a \<notin> rt_registry r'
       \<and> working_get a (rt_working r') = None
       \<and> rt_outbound r' = rt_outbound r @ [AgentStatus \<lparr>as_agent_id = a, as_status = ''inactive'',
            as_launch_id = [], as_error_detail = []\<rparr>]
       \<and> (\<forall>b. b = a \<or> (hm_get (rt_agents r') b = hm_get (rt_agents r) b
              \<and> pending (rt_queue r') b = pending (rt_queue r) b
              \<and> (b \<in> rt_registry r' \<longleftrightarrow> b \<in> rt_registry r)
              \<and> working_get b (rt_working r') = working_get b (rt_working r)))"
  by (simp add: r'_def Let_def)

lemma spawn_agent_backlog:
  fixes env n a config l s r
  defines "r' \<equiv> spawn_agent env n a config l s r"
  assumes "queue_inv (rt_queue r)" and "hm_get (rt_agents r) a = None" and "rt_sent r (rt_next r) = []"
    and "\<And>k. k < 64 \<Longrightarrow> re_flush env n k = SentOk"
  shows "hm_get (rt_agents r') a = Some (rt_next r)
       \<and> rt_sent r' (rt_next r) = map Deliver (pending (rt_queue r) a)
       \<and> pending (rt_queue r') a = []
       \<and> (\<forall>b. b \<noteq> a \<longrightarrow> pending (rt_queue r') b = pending (rt_queue r) b)
       \<and> rt_registry r' = insert a (rt_registry r)
       \<and> rt_spawned r' = rt_spawned r @ [\<lparr>st_agent_id = a, st_mailbox = rt_next r,
            st_cfg = agent_start_cfg env (rt_cfg r) config l s, st_launch_id = l\<rparr>]
       \<and> rt_next r' = Suc (rt_next r) \<and> (\<forall>mb. mb \<noteq> rt_next r \<longrightarrow> rt_sent r' mb = rt_sent r mb)"
proof -
  let ?r1 = "r\<lparr>rt_next := Suc (rt_next r), rt_agents := hm_insert a (rt_next r) (rt_agents r)\<rparr>"
  let ?r2 = "flush_delivery_queue_for_agent (re_flush env n) a (rt_next r) ?r1"
  have q: "queue_inv (rt_queue ?r1)" using assms(2) by simp
  have len: "length (pending (rt_queue r) a) \<le> 64"
    using assms(2) by (auto simp: queue_inv_def deque_ok_def max_pending_per_agent_def)
  obtain sent rest where f: "pending (rt_queue ?r1) a = sent @ rest" "pending (rt_queue ?r2) a = rest"
      "\<And>b. b \<noteq> a \<Longrightarrow> pending (rt_queue ?r2) b = pending (rt_queue ?r1) b"
      "rt_sent ?r2 = (rt_sent ?r1)(rt_next r := rt_sent ?r1 (rt_next r) @ map Deliver sent)"
      "rt_agents ?r2 = (if rest \<noteq> [] \<and> re_flush env n (length sent) = SendClosed
                     then hm_remove a (rt_agents ?r1) else rt_agents ?r1)"
      "rest \<noteq> [] \<Longrightarrow> re_flush env n (length sent) \<noteq> SentOk"
    by (rule flush_effect [OF q refl [of ?r2]]) blast
  have "rest = []"
  proof (rule ccontr)
    assume "rest \<noteq> []"
    with f len have "length sent < 64" by (cases rest) auto
    with f(6) assms(5) \<open>rest \<noteq> []\<close> show False by blast
  qed
  with f assms(3,4) show ?thesis
    by (simp add: r'_def spawn_agent_def Let_def)
qed

text \<open>
  A start hands over the backlog: when the new mailbox takes as many deliveries as it has room
  for (64), an agent that was not running gets exactly its buffered deliveries in order, nothing
  stays buffered for it, it is registered, and one task with its configuration is spawned.
\<close>

theorem spawn_agent_delivers_backlog:
  fixes env n a config l s r
  defines "r' \<equiv> spawn_agent env n a config l s r"
  assumes "queue_inv (rt_queue r)" and "hm_get (rt_agents r) a = None" and "rt_sent r (rt_next r) = []"
    and "\<And>k. k < 64 \<Longrightarrow> re_flush env n k = SentOk"
  shows "hm_get (rt_agents r') a = Some (rt_next r)
       \<and> rt_sent r' (rt_next r) = map Deliver (pending (rt_queue r) a)
       \<and> pending (rt_queue r') a = []
       \<and> (\<forall>b. b \<noteq> a \<longrightarrow> pending (rt_queue r') b = pending (rt_queue r) b)
       \<and> rt_registry r' = insert a (rt_registry r)
       \<and> rt_spawned r' = rt_spawned r @ [\<lparr>st_agent_id = a, st_mailbox = rt_next r,
            st_cfg = agent_start_cfg env (rt_cfg r) config l s, st_launch_id = l\<rparr>]"
  using spawn_agent_backlog [OF assms(2-5), where config = config and l = l and s = s]
  unfolding r'_def by blast

definition example_agent_config :: agent_config where
  "example_agent_config = \<lparr>ac_runtime = [], ac_model = ''m'', ac_working_runtime = [],
     ac_working_model = [], ac_chat_only = False, ac_session_id = [], ac_server_url = [],
     ac_auth_token = [], ac_env_vars = None, ac_name = ''ann'', ac_display_name = [],
     ac_description = [], ac_onboarding = []\<rparr>"

theorem spawn_agent_delivers_backlog_witness:
  "let r = example_backlog\<lparr>rt_agents := []\<rparr>;
       r' = spawn_agent (example_env SentOk) 0 ''a'' example_agent_config ''l'' None r
   in rt_sent r' 1 = [Deliver (example_delivery ''a'' 1 1 5)] \<and> pending (rt_queue r') ''a'' = []"
proof -
  let ?r = "example_backlog\<lparr>rt_agents := []\<rparr>"
  have "queue_inv (rt_queue ?r)" using example_backlog_inv by simp
  moreover have "hm_get (rt_agents ?r) ''a'' = None" "rt_sent ?r (rt_next ?r) = []" "rt_next ?r = 1"
    by (simp_all add: example_backlog_def router_new_def)
  moreover have "pending (rt_queue ?r) ''a'' = [example_delivery ''a'' 1 1 5]"
    by (simp add: example_backlog_def pending_def)
  ultimately show ?thesis
    using spawn_agent_delivers_backlog [of ?r "''a''" "example_env SentOk" 0 example_agent_config "''l''" None]
    by (simp add: Let_def example_env_def)
qed

lemma example_env_sel [simp]:
  "re_flush (example_env x) n k = x" "re_final (example_env x) = x"
  by (simp_all add: example_env_def)

text \<open>
  A late \<open>Stopped\<close> of an earlier incarnation takes the current one down with it: an agent whose
  first mailbox was found closed is started again, and when the first task's \<open>Stopped\<close> arrives the
  router forgets the mailbox and the registry entry of the second, whose task is still running.
\<close>

theorem stale_stopped_forgets_new_incarnation:
  "let start = \<lparr>sm_agent_id = ''a'', sm_config = example_agent_config, sm_wake_message = None,
         sm_unread_summary = None, sm_resume_prompt = [], sm_launch_id = [], sm_turn_count = 0\<rparr>;
       r1 = handle_start (example_env SentOk) start (router_new example_cfg {});
       r2 = handle_deliver (example_env SendClosed) (example_delivery ''a'' 1 1 5) r1;
       r3 = handle_start (example_env SentOk) start r2;
       r4 = handle_state_change (spawned_task_exit (rt_spawned r3 ! 0)) r3
   in map st_mailbox (rt_spawned r4) = [0, 1] \<and> hm_get (rt_agents r3) ''a'' = Some 1
    \<and> hm_get (rt_agents r4) ''a'' = None \<and> ''a'' \<notin> rt_registry r4"
proof -
  let ?st = "\<lparr>sm_agent_id = ''a'', sm_config = example_agent_config, sm_wake_message = None,
         sm_unread_summary = None, sm_resume_prompt = [], sm_launch_id = [], sm_turn_count = 0\<rparr>"
  let ?r0 = "router_new example_cfg {}"
  let ?r1 = "handle_start (example_env SentOk) ?st ?r0"
  let ?m = "example_delivery ''a'' 1 1 5"
  let ?r2 = "handle_deliver (example_env SendClosed) ?m ?r1"
  let ?r3 = "handle_start (example_env SentOk) ?st ?r2"
  have inv: "router_inv ?r1" "router_inv ?r2"
    by (simp_all add: handle_start_def router_inv_new router_inv_spawn router_inv_deliver)
  have "queue_inv (rt_queue ?r0)" by (simp add: router_new_def)
  from spawn_agent_backlog [OF this, of "''a''" "example_env SentOk" 0 example_agent_config "[]" None]
  have r1: "hm_get (rt_agents ?r1) ''a'' = Some 0" "rt_next ?r1 = 1" "rt_sent ?r1 1 = []"
    "map st_mailbox (rt_spawned ?r1) = [0]" "map st_agent_id (rt_spawned ?r1) = [''a'']"
    "pending (rt_queue ?r1) ''a'' = []"
    by (simp_all add: handle_start_def router_new_def)
  have r2: "hm_get (rt_agents ?r2) ''a'' = None" "rt_next ?r2 = 1" "rt_sent ?r2 1 = []"
    "rt_spawned ?r2 = rt_spawned ?r1"
    using r1 by (simp_all add: handle_deliver_def Let_def
        flush_delivery_queue_for_agent_def case_prod_unfold buffer_delivery_def)
  from inv have "queue_inv (rt_queue ?r2)" by (simp add: router_inv_def depth_ok_def)
  from spawn_agent_backlog [OF this, of "''a''" "example_env SentOk" 0 example_agent_config "[]" None] r1 r2
  have r3: "hm_get (rt_agents ?r3) ''a'' = Some 1" "map st_mailbox (rt_spawned ?r3) = [0, 1]"
    "map st_agent_id (rt_spawned ?r3) = [''a'', ''a'']"
    by (simp_all add: handle_start_def [of _ _ ?r2])
  then have "st_agent_id (rt_spawned ?r3 ! 0) = ''a''" by (cases "rt_spawned ?r3") auto
  with r3 show ?thesis by (simp add: Let_def spawned_task_exit_def send_outbound_def set_depth_def)
qed

text \<open>
  Workspace reads see only the workspace: whatever the rest of the file system holds, the answer
  to a read request is the same for any two file systems whose files under the canonical
  workspace root agree.
\<close>

theorem file_content_noninterference:
  assumes "\<And>p q. fs_canonicalize ops fs p = Inr q \<Longrightarrow> fs_canonicalize ops fs q = Inr q"
    and "\<And>root_real p. fs_canonicalize ops fs work_dir = Inr root_real \<Longrightarrow> prefix root_real p \<Longrightarrow>
           rd fs p = fs_read ops fs p"
  shows "file_content (ops\<lparr>fs_read := rd\<rparr>) fs work_dir p = file_content ops fs work_dir p"
proof (cases "resolve_within (fs_canonicalize ops fs) (fs_debug ops) work_dir p")
  case (Inl e)
  then show ?thesis by (simp add: file_content_def)
next
  case (Inr target)
  obtain root_real where
    "fs_canonicalize ops fs work_dir = Inr root_real" "prefix root_real target"
    using resolve_within_inside [of "fs_canonicalize ops fs", OF _ Inr] assms(1) by blast
  then have "rd fs target = fs_read ops fs target" by (rule assms(2))
  with Inr show ?thesis by (simp add: file_content_def split: sum.split)
qed

theorem file_content_noninterference_witness:
  "file_content (example_ops\<lparr>fs_read := \<lambda>_ p. if prefix [RootDir, Normal ''w''] p then Inr ''x'' else Inr ''secret''\<rparr>)
     () [RootDir, Normal ''w''] ''out''
   = file_content example_ops () [RootDir, Normal ''w''] ''out''"
  by (rule file_content_noninterference)
    (auto simp: example_ops_def example_fs_def split: if_splits)

end
