(* ===== verification/Actor.thy ===== *)
theory Actor
  imports AgentTypes "HOL-Library.Sublist"
begin

text \<open>
  The agent actor (\<open>crates/cocli-agent/src/actor.rs\<close>, \<open>state.rs\<close>): it starts a runtime process,
  delivers messages to it, turns its events into messages to the server, and stops it.

  The runtime driver is a trait object, so it is a record of functions (\<open>driver\<close>). Everything
  the operating system and the driver answer (spawning, writing, signalling, the events of the
  process) is an input; everything the actor does to them is logged as an effect, in order.
\<close>

section \<open>Effects and results\<close>

datatype proc_effect =
    CreateDir path
  | PrepareWorkspace
  | SpawnProcess "string option" string
  | WritePidfile nat
  | BindStdin
  | WriteStdin string
  | KillChild
  | SignalInt nat
  | SignalTerm nat
  | WaitChild

text \<open>A fallible operation: its result, and the effects it had up to there.\<close>

type_synonym 'a fallible = "(string + 'a) \<times> proc_effect list"

definition ret :: "'a \<Rightarrow> 'a fallible" where
  "ret x = (Inr x, [])"

definition effect :: "proc_effect \<Rightarrow> unit fallible" where
  "effect e = (Inr (), [e])"

text \<open>The \<open>?\<close> operator.\<close>

definition and_then :: "'a fallible \<Rightarrow> ('a \<Rightarrow> 'b fallible) \<Rightarrow> 'b fallible" where
  "and_then m f =
     (case m of
        (Inl e, es) \<Rightarrow> (Inl e, es)
      | (Inr x, es) \<Rightarrow> (case f x of (r, es') \<Rightarrow> (r, es @ es')))"

text \<open>An answer of the environment, with the prefix the code puts before its error text.\<close>

definition answer :: "string \<Rightarrow> string + 'a \<Rightarrow> 'a fallible" where
  "answer msg r = (case r of Inl e \<Rightarrow> (Inl (msg @ e), []) | Inr x \<Rightarrow> (Inr x, []))"

definition required :: "string \<Rightarrow> 'a option \<Rightarrow> 'a fallible" where
  "required msg x = (case x of None \<Rightarrow> (Inl msg, []) | Some y \<Rightarrow> (Inr y, []))"

lemma and_then_simps [simp]:
  "and_then (Inl e, es) f = (Inl e, es)"
  "and_then (Inr x, es) f = (fst (f x), es @ snd (f x))"
  by (simp_all add: and_then_def case_prod_unfold)

lemma and_then_result:
  "fst (and_then m f) = (case fst m of Inl e \<Rightarrow> Inl e | Inr x \<Rightarrow> fst (f x))"
  by (cases m; cases "fst m") auto

lemma fallible_simps [simp]:
  "ret x = (Inr x, [])" "effect eff = (Inr (), [eff])"
  "answer msg (Inl e) = (Inl (msg @ e), [])" "answer msg (Inr x) = (Inr x, [])"
  "required msg None = (Inl msg, [])" "required msg (Some y) = (Inr y, [])"
  by (simp_all add: ret_def effect_def answer_def required_def)

section \<open>Drivers and processes\<close>

text \<open>
  What the actor asks of a driver: \<open>dr_binder\<close> and \<open>dr_initializer\<close> are the optional subtraits
  (the initializer with the outcome of its byte sequence).
\<close>

record driver =
  dr_name :: string
  dr_encode :: "string \<Rightarrow> string option \<Rightarrow> string option"
  dr_is_turn_exit :: bool
  dr_requires_initial_prompt :: bool
  dr_defers_session_id :: bool
  dr_binder :: bool
  dr_initializer :: "(string + string) option"
  dr_interruptor :: "(string + unit) option"
  dr_supports_turn_cancel :: bool
  dr_supports_turn_steer :: bool
  dr_supports_thread_fork :: bool

datatype stdin_storage = Local | ViaBinder | StdinClosed

text \<open>A spawned child: its pid, and whether stdin and stdout are piped.\<close>

record child_process =
  cp_pid :: "nat option"
  cp_stdin :: bool
  cp_stdout :: bool

text \<open>Answers to a write: the first failing step, if any.\<close>

datatype write_answer = WriteOk | WriteErr string | FlushErr string

record respawn_ctx =
  rc_work_dir :: path
  rc_model :: string
  rc_server_url :: string
  rc_auth_token :: string
  rc_system_prompt :: string
  rc_env_vars :: "(string \<times> string) list"

record running =
  ru_id :: agent_id
  ru_stdin :: stdin_storage
  ru_driver :: driver
  ru_child :: child_process
  ru_session_id :: string
  ru_channel_id :: uuid
  ru_channel_name :: string
  ru_last_stdout_at :: nat
  ru_turn_count :: u64
  ru_launch_id :: string
  ru_respawn_ctx :: "respawn_ctx option"

section \<open>Small helpers\<close>

definition route_for_tier :: "string \<Rightarrow> string" where
  "route_for_tier tier =
     (if tier = ''digest'' \<or> tier = ''tierDigest'' then ''tierDigest''
      else if tier = ''delayed'' \<or> tier = ''tierDelayed'' then ''tierDelayed''
      else ''inbox'')"

definition derive_http_base_url :: "string \<Rightarrow> string" where
  "derive_http_base_url server_url =
     (case strip_prefix ''ws://'' server_url of
        Some rest \<Rightarrow> ''http://'' @ rest
      | None \<Rightarrow>
          (case strip_prefix ''wss://'' server_url of
             Some rest \<Rightarrow> ''https://'' @ rest
           | None \<Rightarrow> server_url))"

definition resolve_stdin_storage :: "bool \<Rightarrow> driver \<Rightarrow> stdin_storage fallible" where
  "resolve_stdin_storage has_stdin d =
     (if dr_binder d
      then if has_stdin then (Inr ViaBinder, [BindStdin])
           else (Inl (dr_name d @ '' uses StdinBinder but spawn returned no stdin''), [])
      else (Inr (if has_stdin then Local else StdinClosed), []))"

definition terminated :: "string \<Rightarrow> string" where
  "terminated payload = (if payload \<noteq> [] \<and> last payload = CHR 0x0A then payload else payload @ [CHR 0x0A])"

text \<open>\<open>w\<close> is the answer to the write; a failed write may have reached the process or not, it is not logged.\<close>

definition write_raw_message :: "write_answer \<Rightarrow> stdin_storage \<Rightarrow> driver \<Rightarrow> string \<Rightarrow> unit fallible" where
  "write_raw_message w stdin d payload =
     (let bytes = terminated payload in
      case stdin of
        Local \<Rightarrow>
          (case w of
             WriteOk \<Rightarrow> (Inr (), [WriteStdin bytes])
           | WriteErr e \<Rightarrow> (Inl (''stdin write: '' @ e), [])
           | FlushErr e \<Rightarrow> (Inl (''stdin flush: '' @ e), [WriteStdin bytes]))
      | ViaBinder \<Rightarrow>
          if \<not> dr_binder d then (Inl (dr_name d @ '' lost its StdinBinder after binding''), [])
          else (case w of
                  WriteOk \<Rightarrow> (Inr (), [WriteStdin bytes])
                | WriteErr e \<Rightarrow> (Inl (''binder write: '' @ e), [])
                | FlushErr e \<Rightarrow> (Inl (''binder write: '' @ e), []))
      | StdinClosed \<Rightarrow> (Inl (dr_name d @ '' has no writable stdin''), []))"

definition try_write_encoded_message ::
  "write_answer \<Rightarrow> stdin_storage \<Rightarrow> driver \<Rightarrow> string \<Rightarrow> string option \<Rightarrow> bool fallible" where
  "try_write_encoded_message w stdin d text session_id =
     (case dr_encode d text session_id of
        None \<Rightarrow> ret False
      | Some encoded \<Rightarrow> and_then (write_raw_message w stdin d encoded) (\<lambda>_. ret True))"

definition write_encoded_message ::
  "write_answer \<Rightarrow> stdin_storage \<Rightarrow> driver \<Rightarrow> string \<Rightarrow> string option \<Rightarrow> unit fallible" where
  "write_encoded_message w stdin d text session_id =
     and_then (try_write_encoded_message w stdin d text session_id)
       (\<lambda>ok. if ok then ret () else (Inl (dr_name d @ '' encode_stdin_message returned no payload''), []))"

section \<open>Waiting for a session\<close>

text \<open>
  The events that arrive before the deadline with the answer to the write each may ask for, and
  how the wait ends when none of them starts a session: the process exits or the time is up.
\<close>

datatype wait_end = ProcessExited | DeadlinePassed

fun collect_loop :: "stdin_storage \<Rightarrow> driver \<Rightarrow> (driver_event \<times> write_answer) list \<Rightarrow> string option \<times> proc_effect list" where
  "collect_loop stdin d [] = (None, [])"
| "collect_loop stdin d ((SessionStarted sid, w) # evs) = (Some sid, [])"
| "collect_loop stdin d ((WriteReq data, w) # evs) =
     (case collect_loop stdin d evs of (r, es) \<Rightarrow> (r, snd (write_raw_message w stdin d data) @ es))"
| "collect_loop stdin d (ev # evs) = collect_loop stdin d evs"

definition collect_session_id ::
  "stdin_storage \<Rightarrow> driver \<Rightarrow> (driver_event \<times> write_answer) list \<Rightarrow> wait_end \<Rightarrow> string fallible" where
  "collect_session_id stdin d evs ending =
     (if dr_defers_session_id d then ret []
      else case collect_loop stdin d evs of
        (Some sid, es) \<Rightarrow> (Inr sid, es)
      | (None, es) \<Rightarrow>
          (Inl (case ending of
                  ProcessExited \<Rightarrow> ''runtime exited before emitting session_id''
                | DeadlinePassed \<Rightarrow> ''session_id timeout after 30s''), es))"

section \<open>Starting\<close>

text \<open>What the environment answers while a process is brought up.\<close>

record spawn_env =
  se_mkdir :: "string + unit"
  se_registry :: "driver option"
  se_factory :: "driver option"
  se_prepare :: "string + unit"
  se_spawn :: "string + child_process"
  se_pidfile :: "string + unit"
  se_init_write :: "string + unit"
  se_init_flush :: "string + unit"
  se_prompt_write :: write_answer
  se_events :: "(driver_event \<times> write_answer) list"
  se_ending :: wait_end
  se_late_prompt_write :: write_answer
  se_now :: nat

text \<open>The key order of \<open>sort_by\<close>: byte-wise, stable.\<close>

fun str_le :: "string \<Rightarrow> string \<Rightarrow> bool" where
  "str_le [] ys = True"
| "str_le (x # xs) [] = False"
| "str_le (x # xs) (y # ys) =
     ((of_char x :: nat) < of_char y \<or> (x = y \<and> str_le xs ys))"

fun insert_env :: "string \<times> string \<Rightarrow> (string \<times> string) list \<Rightarrow> (string \<times> string) list" where
  "insert_env p [] = [p]"
| "insert_env p (q # qs) = (if str_le (fst p) (fst q) then p # q # qs else q # insert_env p qs)"

definition sort_env :: "(string \<times> string) list \<Rightarrow> (string \<times> string) list" where
  "sort_env xs = foldr insert_env xs []"

definition spawn_environment :: "start_cfg \<Rightarrow> (string \<times> string) list" where
  "spawn_environment cfg =
     (let vs = sort_env (sc_env_vars cfg) in
      if sc_model cfg \<noteq> [] \<and> \<not> list_ex (\<lambda>(k, _). k = ''CHATRS_MODEL'') vs
      then vs @ [(''CHATRS_MODEL'', sc_model cfg)] else vs)"

text \<open>The initializer writes its byte sequence to the child's stdin.\<close>

definition run_initializer :: "string \<Rightarrow> string \<Rightarrow> string \<Rightarrow> string \<Rightarrow> spawn_env \<Rightarrow> driver \<Rightarrow> child_process \<Rightarrow> unit fallible" where
  "run_initializer no_stdin seq_msg write_msg flush_msg env d child =
     (case dr_initializer d of
        None \<Rightarrow> ret ()
      | Some init \<Rightarrow>
          and_then (if cp_stdin child then ret () else (Inl no_stdin, []))
          (\<lambda>_. and_then (answer seq_msg init)
          (\<lambda>bytes. and_then (answer write_msg (se_init_write env))
          (\<lambda>_. and_then (effect (WriteStdin bytes))
          (\<lambda>_. answer flush_msg (se_init_flush env))))))"

definition actor_start :: "spawn_env \<Rightarrow> agent_id \<Rightarrow> start_cfg \<Rightarrow> (running \<times> agent_observation list) fallible" where
  "actor_start env aid cfg =
     (let work_dir = path_join (sc_workspace_root cfg) (components aid) in
      and_then (effect (CreateDir work_dir))
      (\<lambda>_. and_then (answer ''mkdir workspace: '' (se_mkdir env))
      (\<lambda>_. and_then (required (''runtime not available: '' @ sc_runtime_name cfg) (se_registry env))
      (\<lambda>registry_driver.
        let bridge_http_url = derive_http_base_url (sc_server_url cfg);
            spawn_vars = spawn_environment cfg;
            d = (case se_factory env of Some p \<Rightarrow> p | None \<Rightarrow> registry_driver)
        in and_then (effect PrepareWorkspace)
      (\<lambda>_. and_then (answer ''prepare_workspace: '' (se_prepare env))
      (\<lambda>_. and_then (answer (''spawn '' @ dr_name d @ '': '') (se_spawn env))
      (\<lambda>child. and_then (effect (SpawnProcess (sc_resume_session cfg) (sc_initial_prompt cfg)))
      (\<lambda>_. and_then (required ''child pid missing after spawn'' (cp_pid child))
      (\<lambda>pid. and_then (answer ''write pidfile: '' (se_pidfile env))
      (\<lambda>_. and_then (effect (WritePidfile pid))
      (\<lambda>_. and_then (if cp_stdout child then ret () else (Inl ''child stdout missing after spawn'', []))
      (\<lambda>_. and_then (run_initializer (dr_name d @ '' needs stdin for initialization but spawn closed it'')
              ''write init sequence: '' ''write init sequence to stdin: '' ''flush init sequence: '' env d child)
      (\<lambda>_. and_then (resolve_stdin_storage (cp_stdin child) d)
      (\<lambda>stdin.
        let should_send = sc_initial_prompt cfg \<noteq> [] \<and> \<not> dr_is_turn_exit d \<and> dr_requires_initial_prompt d
        in and_then (if should_send
              then (case try_write_encoded_message (se_prompt_write env) stdin d (sc_initial_prompt cfg) None of
                      (Inl e, es) \<Rightarrow> (Inl (''write pre-session initial prompt: '' @ e), es)
                    | (Inr b, es) \<Rightarrow> (Inr b, es))
              else ret False)
      (\<lambda>sent. and_then (collect_session_id stdin d (se_events env) (se_ending env))
      (\<lambda>session_id. and_then (if should_send \<and> \<not> sent
              then (case write_encoded_message (se_late_prompt_write env) stdin d (sc_initial_prompt cfg) (Some session_id) of
                      (Inl e, es) \<Rightarrow> (Inl (''write initial prompt: '' @ e), es)
                    | (Inr u, es) \<Rightarrow> (Inr (), es))
              else ret ())
      (\<lambda>_. ret
        (\<lparr>ru_id = aid, ru_stdin = stdin, ru_driver = d, ru_child = child, ru_session_id = session_id,
          ru_channel_id = sc_channel_id cfg, ru_channel_name = sc_channel_name cfg,
          ru_last_stdout_at = se_now env, ru_turn_count = 0, ru_launch_id = sc_launch_id cfg,
          ru_respawn_ctx =
            (if dr_is_turn_exit d
             then Some \<lparr>rc_work_dir = work_dir, rc_model = sc_model cfg, rc_server_url = bridge_http_url,
                    rc_auth_token = sc_auth_token cfg, rc_system_prompt = sc_system_prompt cfg,
                    rc_env_vars = spawn_vars\<rparr>
             else None)\<rparr>,
         [ObsStarted aid session_id (sc_channel_id cfg) (sc_channel_name cfg)]))))))))))))))))))"

section \<open>Delivering\<close>

text \<open>What the environment answers to a delivery: the write, or the kill and the respawn of a turn-exit process.\<close>

record deliver_env =
  de_write :: write_answer
  de_kill :: "string + unit"
  de_spawn :: spawn_env
  de_factory_driver :: driver

text \<open>
  The child is killed first, whatever comes of it: a kill that succeeds has reaped the child, which then
  has no process identifier any more. The rest of the state is replaced only when everything succeeded.
  \<open>de_factory_driver\<close> is the driver the context's factory yields (the context's own driver when it has
  none).
\<close>

definition killed :: "deliver_env \<Rightarrow> running \<Rightarrow> running" where
  "killed denv a = (case de_kill denv of Inl _ \<Rightarrow> a | Inr _ \<Rightarrow> a\<lparr>ru_child := (ru_child a)\<lparr>cp_pid := None\<rparr>\<rparr>)"

definition respawn_and_deliver :: "deliver_env \<Rightarrow> string \<Rightarrow> respawn_ctx \<Rightarrow> running \<Rightarrow> running fallible" where
  "respawn_and_deliver denv message ctx a =
     (let env = de_spawn denv; d = de_factory_driver denv;
          initial_prompt = compose_session_bootstrap_prompt (rc_system_prompt ctx) message;
          resume = (if ru_session_id a = [] then None else Some (ru_session_id a))
      in and_then (effect KillChild)
      (\<lambda>_. and_then (effect PrepareWorkspace)
      (\<lambda>_. and_then (answer ''prepare_workspace: '' (se_prepare env))
      (\<lambda>_. and_then (answer ''spawn: '' (se_spawn env))
      (\<lambda>child. and_then (effect (SpawnProcess resume initial_prompt))
      (\<lambda>_. and_then (case cp_pid child of
              None \<Rightarrow> ret ()
            | Some pid \<Rightarrow> and_then (answer ''write pidfile: '' (se_pidfile env)) (\<lambda>_. effect (WritePidfile pid)))
      (\<lambda>_. and_then (if cp_stdout child then ret () else (Inl ''respawn: child stdout missing'', []))
      (\<lambda>_. and_then (run_initializer ''respawn: initializer requires stdin''
              ''respawn init sequence: '' ''respawn init write: '' ''respawn init flush: '' env d child)
      (\<lambda>_. and_then (resolve_stdin_storage (cp_stdin child) d)
      (\<lambda>stdin. and_then (collect_session_id stdin d (se_events env) (se_ending env))
      (\<lambda>new_session_id. ret
        (a\<lparr>ru_child := child, ru_stdin := stdin, ru_driver := d,
           ru_session_id := (if new_session_id \<noteq> [] then new_session_id else ru_session_id a)\<rparr>))))))))))))"

text \<open>The error, if any, and the actor's new state; the effects.\<close>

definition write_result :: "deliver_env \<Rightarrow> string \<Rightarrow> running \<Rightarrow> (string option \<times> running) \<times> proc_effect list" where
  "write_result denv body a =
     (case ru_respawn_ctx a of
        Some ctx \<Rightarrow>
          (case respawn_and_deliver denv body ctx (killed denv a) of
             (Inl e, es) \<Rightarrow> ((Some (''respawn_and_deliver: '' @ e), killed denv a), es)
           | (Inr a', es) \<Rightarrow> ((None, a'), es))
      | None \<Rightarrow>
          (case write_encoded_message (de_write denv) (ru_stdin a) (ru_driver a) body (Some (ru_session_id a)) of
             (Inl e, es) \<Rightarrow> ((Some e, a), es)
           | (Inr _, es) \<Rightarrow> ((None, a), es)))"

text \<open>The error, if any, and the actor's new state; the messages sent; the effects.\<close>

definition deliver ::
  "deliver_env \<Rightarrow> agent_deliver_msg \<Rightarrow> running \<Rightarrow>
   (string option \<times> running) \<times> daemon_msg list \<times> proc_effect list" where
  "deliver denv msg a =
     (let route = route_for_tier (ad_delivery_tier msg);
          ack = \<lparr>da_agent_id = ru_id a, da_seq = ad_seq msg, da_attempt = ad_attempt msg,
                 da_channel_id = dm_channel_id (ad_message msg), da_route_action = route\<rparr>;
          accepted = (if ad_seq msg > 0 \<and> ad_attempt msg > 0 then [AgentDeliverAccepted ack] else []);
          body = format_delivery_bundle (ad_message msg) (ad_context msg)
      in case write_result denv body a of
           ((err, a'), es) \<Rightarrow>
             ((err, a'), accepted @ (if ad_attempt msg > 0 \<and> err = None then [AgentDeliverAck ack] else []), es))"

section \<open>Controlling a turn\<close>

definition turn_cancel :: "string + unit \<Rightarrow> running \<Rightarrow> unit fallible" where
  "turn_cancel kill_answer a =
     (case dr_interruptor (ru_driver a) of
        Some r \<Rightarrow> answer ''interrupt_turn: '' r
      | None \<Rightarrow>
          if \<not> dr_supports_turn_cancel (ru_driver a)
          then (Inl (dr_name (ru_driver a) @ '' does not support turn cancellation''), [])
          else (case cp_pid (ru_child a) of
                  None \<Rightarrow> ret ()
                | Some pid \<Rightarrow>
                    and_then (effect (SignalInt pid)) (\<lambda>_. answer ''send SIGINT: '' kill_answer)))"

definition turn_steer :: "string + unit \<Rightarrow> running \<Rightarrow> unit fallible" where
  "turn_steer steer_answer a =
     (if \<not> dr_supports_turn_steer (ru_driver a)
      then (Inl (dr_name (ru_driver a) @ '' does not support turn steering''), [])
      else answer ''turn_steer: '' steer_answer)"

definition session_msg :: "agent_id \<Rightarrow> string \<Rightarrow> uuid \<Rightarrow> string \<Rightarrow> daemon_msg" where
  "session_msg aid session_id channel_id launch_id =
     AgentSession
       \<lparr>se_agent_id = aid, se_session_id = session_id, se_channel_id = channel_id, se_is_new = True,
        se_resumed_from = [], se_active_sessions = 1, se_queue_depth = 0, se_prompt_layer = ''basic'',
        se_prompt_tokens = 0, se_launch_id = launch_id, se_launch_generation = 0, se_session_type = [],
        se_scope = [], se_parent_chat_session_id = [], se_execution_intent_id = [],
        se_execution_run_id = []\<rparr>"

definition thread_fork :: "string + string \<Rightarrow> running \<Rightarrow> (string + string) \<times> running \<times> daemon_msg list" where
  "thread_fork fork_answer a =
     (if \<not> dr_supports_thread_fork (ru_driver a)
      then (Inl (dr_name (ru_driver a) @ '' does not support thread fork''), a, [])
      else case fork_answer of
        Inl e \<Rightarrow> (Inl (''thread_fork: '' @ e), a, [])
      | Inr sid \<Rightarrow>
          (Inr sid, a\<lparr>ru_session_id := sid\<rparr>,
           [session_msg (ru_id a) sid (ru_channel_id a) (ru_launch_id a)]))"

section \<open>Stopping\<close>

text \<open>The answers to the first signal, the wait (\<open>None\<close> when five seconds pass), the kill and the second wait.\<close>

record stop_env =
  so_signal :: "string + unit"
  so_wait :: "(string + unit) option"
  so_kill :: "string + unit"
  so_reap :: "string + unit"

definition stop :: "stop_env \<Rightarrow> bool \<Rightarrow> running \<Rightarrow> unit fallible" where
  "stop env force a =
     and_then
       (if force then and_then (effect KillChild) (\<lambda>_. answer ''kill child process: '' (so_signal env))
        else case cp_pid (ru_child a) of
          None \<Rightarrow> ret ()
        | Some pid \<Rightarrow> and_then (effect (SignalTerm pid)) (\<lambda>_. answer ''signal child process: '' (so_signal env)))
     (\<lambda>_. and_then (effect WaitChild)
     (\<lambda>_. case so_wait env of
            None \<Rightarrow>
              and_then (effect KillChild)
              (\<lambda>_. and_then (answer ''kill unresponsive child process: '' (so_kill env))
              (\<lambda>_. and_then (effect WaitChild)
              (\<lambda>_. answer ''reap killed child process: '' (so_reap env))))
          | Some r \<Rightarrow> answer ''reap child process: '' r))"

section \<open>Events\<close>

definition entry_default :: trajectory_entry where
  "entry_default = \<lparr>te_kind = [], te_id = [], te_text = [], te_input = None, te_result = [],
     te_error = [], te_ts = 0\<rparr>"

definition activity_default :: agent_activity_msg where
  "activity_default =
     \<lparr>aa_agent_id = [], aa_activity = [], aa_attention_state = [], aa_detail = [], aa_payload = None,
      aa_trajectory = [], aa_entries = [], aa_launch_id = [], aa_launch_generation = 0,
      aa_focus_task_id = [], aa_focus_scope = [], aa_focus_since = 0, aa_priority_class = [],
      aa_preempted = False, aa_last_input_tokens = 0, aa_total_output_tokens = 0, aa_context_window = 0,
      aa_total_cost_usd = 0, aa_turn_count = 0, aa_session_type = [], aa_scope = [], aa_channel_id = 0,
      aa_channel_name = [], aa_rate_limit_type = [], aa_rate_limit_status = [], aa_rate_limit_resets = 0,
      aa_overage_status = [], aa_overage_resets = 0, aa_is_using_overage = False, aa_runtime_event = [],
      aa_runtime_stream = [], aa_runtime_gap_from = 0, aa_runtime_gap_oldest = 0, aa_runtime_gap_last = 0,
      aa_runtime_recover_strategy = [], aa_scheduler_event = [], aa_scheduler_decision = [],
      aa_scheduler_reason = [], aa_scheduler_queue_depth = 0, aa_scheduler_violation = False\<rparr>"

definition working_activity :: "running \<Rightarrow> string \<Rightarrow> trajectory_entry \<Rightarrow> daemon_msg" where
  "working_activity a launch_id entry =
     AgentActivity (activity_default\<lparr>aa_agent_id := ru_id a, aa_activity := ''working'',
       aa_attention_state := ''working'', aa_entries := [entry], aa_channel_id := ru_channel_id a,
       aa_channel_name := ru_channel_name a, aa_launch_id := launch_id\<rparr>)"

text \<open>The loop's own variables beside the actor: the entries of the turn and the two flags.\<close>

record loop_state =
  ls_actor :: running
  ls_entries :: "trajectory_entry list"
  ls_session_emitted :: bool
  ls_event_rx_live :: bool
  ls_outbound :: "daemon_msg list"
  ls_obs :: "agent_observation list"
  ls_effects :: "proc_effect list"

text \<open>\<open>now\<close> is the instant of the event, \<open>ts\<close> its wall-clock milliseconds.\<close>

definition push_entry :: "trajectory_entry \<Rightarrow> loop_state \<Rightarrow> loop_state" where
  "push_entry e s = s\<lparr>ls_entries := ls_entries s @ [e]\<rparr>"

definition emit :: "daemon_msg \<Rightarrow> loop_state \<Rightarrow> loop_state" where
  "emit m s = s\<lparr>ls_outbound := ls_outbound s @ [m]\<rparr>"

definition turn_msg :: "running \<Rightarrow> string \<Rightarrow> trajectory_entry list \<Rightarrow> u64 \<Rightarrow> u64 \<Rightarrow> f64_bits \<Rightarrow> u64 \<Rightarrow> u64 \<Rightarrow> daemon_msg" where
  "turn_msg a launch_id entries input_tokens output_tokens cost_usd cache_creation cache_read =
     AgentTurn \<lparr>at_agent_id = ru_id a, at_session_id = ru_session_id a, at_launch_id = launch_id,
       at_launch_generation = 0, at_turn_number = as_i32 (ru_turn_count a), at_entries = entries,
       at_input_tokens = as_i32 input_tokens, at_output_tokens = as_i32 output_tokens,
       at_cost_usd = cost_usd, at_context_window = 0, at_cache_creation_tokens = as_i32 cache_creation,
       at_cache_read_tokens = as_i32 cache_read, at_session_type = [], at_channel_id = ru_channel_id a,
       at_channel_name = ru_channel_name a, at_context_usage_pct = 0, at_notif_to_check_ms = 0,
       at_check_cadence_s = 0, at_nudges_sent = 0, at_nudges_effective = 0\<rparr>"

fun event_effect :: "string \<Rightarrow> int \<Rightarrow> driver_event \<Rightarrow> loop_state \<Rightarrow> loop_state" where
  "event_effect l ts (ThinkingDelta text) s =
     push_entry (entry_default\<lparr>te_kind := ''thinking'', te_text := text, te_ts := ts\<rparr>) s"
| "event_effect l ts (TextDelta text) s =
     push_entry (entry_default\<lparr>te_kind := ''text'', te_text := text, te_ts := ts\<rparr>) s"
| "event_effect l ts (ToolCall tid name input) s =
     (let entry = entry_default\<lparr>te_kind := ''tool_call'', te_id := tid, te_text := name,
            te_input := Some input, te_ts := ts\<rparr>
      in emit (working_activity (ls_actor s) l entry) (push_entry entry s))"
| "event_effect l ts (ToolResult tid out err) s =
     (let entry = entry_default\<lparr>te_kind := ''tool_result'', te_id := tid, te_result := out,
            te_error := (case err of None \<Rightarrow> [] | Some e \<Rightarrow> e), te_ts := ts\<rparr>
      in emit (working_activity (ls_actor s) l entry) (push_entry entry s))"
| "event_effect l ts (ToolDone tid out err) s =
     (let entry = entry_default\<lparr>te_kind := ''tool_result'', te_id := tid, te_result := out,
            te_error := (case err of None \<Rightarrow> [] | Some e \<Rightarrow> e), te_ts := ts\<rparr>
      in emit (working_activity (ls_actor s) l entry) (push_entry entry s))"
| "event_effect l ts (TurnEnd st input_tokens output_tokens cost_usd cache_creation cache_read cw) s =
     (let a = (ls_actor s)\<lparr>ru_turn_count := ru_turn_count (ls_actor s) + 1\<rparr>;
          s = s\<lparr>ls_actor := a\<rparr>;
          turn_entries = ls_entries s;
          s = emit (turn_msg a l turn_entries input_tokens output_tokens cost_usd cache_creation cache_read)
                (s\<lparr>ls_entries := []\<rparr>)
      in s\<lparr>ls_obs := ls_obs s @ [ObsTurnEnded (ru_id a) (ru_turn_count a)]\<rparr>)"
| "event_effect l ts (DriverErrorEvent message code severity http_status) s =
     emit (AgentStatus \<lparr>as_agent_id = ru_id (ls_actor s), as_status = ''error'',
             as_launch_id = l, as_error_detail = message\<rparr>) s"
| "event_effect l ts ev s = s"

definition handle_event :: "string \<Rightarrow> nat \<Rightarrow> int \<Rightarrow> driver_event \<Rightarrow> loop_state \<Rightarrow> loop_state" where
  "handle_event l now ts ev s =
     event_effect l ts ev (s\<lparr>ls_actor := (ls_actor s)\<lparr>ru_last_stdout_at := now\<rparr>\<rparr>)"

section \<open>The loop\<close>

text \<open>
  One turn of the \<open>select!\<close>: a command (\<open>None\<close>: the router is gone) or an event (\<open>None\<close>: the process
  closed its output), with what the environment answers. The event arm is disabled while
  \<open>event_rx_live\<close> is false.
\<close>

datatype loop_input =
    InDeliver agent_deliver_msg deliver_env
  | InTurnCancel "string + unit"
  | InStop bool stop_env
  | InMailboxClosed
  | InEvent driver_event nat int write_answer
  | InEventsClosed

definition loop_deliver :: "string \<Rightarrow> agent_deliver_msg \<Rightarrow> deliver_env \<Rightarrow> loop_state \<Rightarrow> loop_state" where
  "loop_deliver l m denv s =
     (let a = (ls_actor s)\<lparr>ru_channel_id := dm_channel_id (ad_message m)\<rparr>;
          a = (if dm_channel_name (ad_message m) \<noteq> [] then a\<lparr>ru_channel_name := dm_channel_name (ad_message m)\<rparr> else a);
          s = s\<lparr>ls_actor := a\<rparr>;
          s = (if \<not> ls_session_emitted s
               then emit (session_msg (ru_id a) (ru_session_id a) (ru_channel_id a) l) s\<lparr>ls_session_emitted := True\<rparr>
               else s)
      in case deliver denv m a of
           ((err, a'), msgs, es) \<Rightarrow>
             s\<lparr>ls_actor := a', ls_outbound := ls_outbound s @ msgs, ls_effects := ls_effects s @ es,
               ls_event_rx_live := (if ru_respawn_ctx a \<noteq> None then True else ls_event_rx_live s)\<rparr>)"

text \<open>The new state, and whether the loop goes on.\<close>

fun loop_step :: "string \<Rightarrow> loop_input \<Rightarrow> loop_state \<Rightarrow> loop_state \<times> bool" where
  "loop_step l (InDeliver m denv) s = (loop_deliver l m denv s, True)"
| "loop_step l (InTurnCancel k) s =
     (s\<lparr>ls_effects := ls_effects s @ snd (turn_cancel k (ls_actor s))\<rparr>, True)"
| "loop_step l (InStop force env) s =
     (s\<lparr>ls_effects := ls_effects s @ snd (stop env force (ls_actor s))\<rparr>, False)"
| "loop_step l InMailboxClosed s = (s, False)"
| "loop_step l (InEvent ev now ts w) s =
     (if \<not> ls_event_rx_live s then (s, True)
      else case ev of
        SessionStarted sid \<Rightarrow> (s\<lparr>ls_actor := (ls_actor s)\<lparr>ru_session_id := sid\<rparr>\<rparr>, True)
      | WriteReq data \<Rightarrow>
          (s\<lparr>ls_effects := ls_effects s
              @ snd (write_raw_message w (ru_stdin (ls_actor s)) (ru_driver (ls_actor s)) data)\<rparr>, True)
      | _ \<Rightarrow> (handle_event l now ts ev s, True))"
| "loop_step l InEventsClosed s =
     (if \<not> ls_event_rx_live s then (s, True)
      else if ru_respawn_ctx (ls_actor s) \<noteq> None then (s\<lparr>ls_event_rx_live := False\<rparr>, True)
      else (s, False))"

fun run_loop :: "string \<Rightarrow> loop_input list \<Rightarrow> loop_state \<Rightarrow> loop_state" where
  "run_loop l [] s = s"
| "run_loop l (x # xs) s =
     (case loop_step l x s of (s', True) \<Rightarrow> run_loop l xs s' | (s', False) \<Rightarrow> s')"

definition loop_init :: "running \<Rightarrow> loop_state" where
  "loop_init a = \<lparr>ls_actor = a, ls_entries = [], ls_session_emitted = False, ls_event_rx_live = True,
     ls_outbound = [], ls_obs = [], ls_effects = []\<rparr>"

section \<open>Helpers and stopping\<close>

lemma derive_http_base_url_idem:
  "derive_http_base_url (derive_http_base_url u) = derive_http_base_url u"
  by (auto simp: derive_http_base_url_def strip_prefix_Some_iff strip_prefix_def split: option.splits)

lemma route_for_tier_range: "route_for_tier t \<in> {''inbox'', ''tierDigest'', ''tierDelayed''}"
  by (simp add: route_for_tier_def)

text \<open>A stop that succeeds has reaped the child, and an unresponsive child was killed first.\<close>

lemma stop_reaps:
  assumes "fst (stop env force a) = Inr ()"
  shows "snd (stop env force a) \<noteq> [] \<and> last (snd (stop env force a)) = WaitChild
       \<and> (so_wait env = None \<longrightarrow> KillChild \<in> set (snd (stop env force a)))"
proof -
  let ?first = "if force then and_then (effect KillChild) (\<lambda>_. answer ''kill child process: '' (so_signal env))
        else case cp_pid (ru_child a) of
          None \<Rightarrow> ret ()
        | Some pid \<Rightarrow> and_then (effect (SignalTerm pid)) (\<lambda>_. answer ''signal child process: '' (so_signal env))"
  obtain r es where f: "?first = (r, es)" by fastforce
  have "r = Inr ()"
    using assms f by (cases r) (auto simp: stop_def)
  with assms f show ?thesis
    by (cases "so_wait env"; cases "so_kill env"; cases "so_reap env") (auto simp: stop_def answer_def split: sum.splits)
qed

section \<open>What the loop emits\<close>

definition is_session :: "daemon_msg \<Rightarrow> bool" where
  "is_session m = (case m of AgentSession _ \<Rightarrow> True | _ \<Rightarrow> False)"

definition is_receipt :: "daemon_msg \<Rightarrow> bool" where
  "is_receipt m = (case m of AgentDeliverAccepted _ \<Rightarrow> True | AgentDeliverAck _ \<Rightarrow> True | _ \<Rightarrow> False)"

fun turn_of :: "daemon_msg \<Rightarrow> agent_turn_msg option" where
  "turn_of (AgentTurn t) = Some t"
| "turn_of _ = None"

definition turns :: "loop_state \<Rightarrow> agent_turn_msg list" where
  "turns s = List.map_filter turn_of (ls_outbound s)"

lemmas msg_kind_defs = is_session_def is_receipt_def session_msg_def working_activity_def turn_msg_def

lemma deliver_msgs:
  "fst (snd (deliver denv m a)) =
     (let ack = \<lparr>da_agent_id = ru_id a, da_seq = ad_seq m, da_attempt = ad_attempt m,
                 da_channel_id = dm_channel_id (ad_message m), da_route_action = route_for_tier (ad_delivery_tier m)\<rparr>
      in (if ad_seq m > 0 \<and> ad_attempt m > 0 then [AgentDeliverAccepted ack] else [])
         @ (if ad_attempt m > 0 \<and> fst (fst (deliver denv m a)) = None then [AgentDeliverAck ack] else []))"
  by (auto simp: deliver_def Let_def split: prod.splits sum.splits)

lemma deliver_msgs_kind:
  "\<forall>x \<in> set (fst (snd (deliver denv m a))). is_receipt x"
  by (auto simp: deliver_msgs Let_def is_receipt_def)

lemma receipt_not_session: "is_receipt x \<Longrightarrow> \<not> is_session x"
  by (auto simp: is_receipt_def is_session_def split: daemon_msg.splits)

lemma receipt_not_turn: "is_receipt x \<Longrightarrow> turn_of x = None"
  by (cases x) (auto simp: is_receipt_def)

text \<open>Events only append messages that are neither sessions nor receipts.\<close>

lemma event_effect_outbound:
  "\<exists>ms. ls_outbound (event_effect l ts ev s) = ls_outbound s @ ms
      \<and> (\<forall>m \<in> set ms. \<not> is_session m \<and> \<not> is_receipt m)
      \<and> ls_session_emitted (event_effect l ts ev s) = ls_session_emitted s"
  by (cases ev) (auto simp: emit_def push_entry_def Let_def msg_kind_defs)

lemma handle_event_outbound:
  "\<exists>ms. ls_outbound (handle_event l now ts ev s) = ls_outbound s @ ms
      \<and> (\<forall>m \<in> set ms. \<not> is_session m \<and> \<not> is_receipt m)
      \<and> ls_session_emitted (handle_event l now ts ev s) = ls_session_emitted s"
  using event_effect_outbound [of l ts ev "s\<lparr>ls_actor := (ls_actor s)\<lparr>ru_last_stdout_at := now\<rparr>\<rparr>"]
  by (simp add: handle_event_def)

text \<open>The actor a delivery is handed to, with its channel updated.\<close>

definition delivery_actor :: "agent_deliver_msg \<Rightarrow> running \<Rightarrow> running" where
  "delivery_actor m a =
     (let a = a\<lparr>ru_channel_id := dm_channel_id (ad_message m)\<rparr>
      in if dm_channel_name (ad_message m) \<noteq> [] then a\<lparr>ru_channel_name := dm_channel_name (ad_message m)\<rparr> else a)"

lemma loop_deliver_conv:
  "ls_outbound (loop_deliver l m denv s) =
      ls_outbound s
      @ (if ls_session_emitted s then []
         else [session_msg (ru_id (ls_actor s)) (ru_session_id (ls_actor s)) (dm_channel_id (ad_message m)) l])
      @ fst (snd (deliver denv m (delivery_actor m (ls_actor s))))"
  "ls_session_emitted (loop_deliver l m denv s)"
  "ls_entries (loop_deliver l m denv s) = ls_entries s"
  "ls_actor (loop_deliver l m denv s) = snd (fst (deliver denv m (delivery_actor m (ls_actor s))))"
  by (simp_all add: loop_deliver_def Let_def emit_def case_prod_unfold delivery_actor_def)

lemma loop_deliver_outbound:
  "\<exists>sm rs. ls_outbound (loop_deliver l m denv s) =
      ls_outbound s @ (if ls_session_emitted s then [] else [AgentSession sm]) @ rs
    \<and> (\<forall>x \<in> set rs. is_receipt x)"
  unfolding loop_deliver_conv session_msg_def using deliver_msgs_kind by blast

section \<open>Sessions come first\<close>

definition session_inv :: "loop_state \<Rightarrow> bool" where
  "session_inv s \<longleftrightarrow>
     (if ls_session_emitted s
      then \<exists>pre sm post. ls_outbound s = pre @ AgentSession sm # post
             \<and> (\<forall>m \<in> set pre. \<not> is_session m \<and> \<not> is_receipt m) \<and> (\<forall>m \<in> set post. \<not> is_session m)
      else \<forall>m \<in> set (ls_outbound s). \<not> is_session m \<and> \<not> is_receipt m)"

lemma session_inv_append:
  assumes "session_inv s" and "ls_outbound s' = ls_outbound s @ ms"
    and "\<forall>m \<in> set ms. \<not> is_session m" and "ls_session_emitted s' = ls_session_emitted s"
    and "ls_session_emitted s \<or> (\<forall>m \<in> set ms. \<not> is_receipt m)"
  shows "session_inv s'"
proof (cases "ls_session_emitted s")
  case True
  with assms(1) obtain pre sm post where "ls_outbound s = pre @ AgentSession sm # post"
    "\<forall>m \<in> set pre. \<not> is_session m \<and> \<not> is_receipt m" "\<forall>m \<in> set post. \<not> is_session m"
    by (auto simp: session_inv_def)
  with assms True show ?thesis
    unfolding session_inv_def by (intro if_P [THEN iffD2] exI [of _ pre] exI [of _ sm] exI [of _ "post @ ms"]) auto
next
  case False
  with assms show ?thesis by (auto simp: session_inv_def)
qed

lemma session_inv_deliver:
  assumes "session_inv s" shows "session_inv (loop_deliver l m denv s)"
proof -
  obtain sm rs where out: "ls_outbound (loop_deliver l m denv s) =
      ls_outbound s @ (if ls_session_emitted s then [] else [AgentSession sm]) @ rs"
    and rs: "\<forall>x \<in> set rs. is_receipt x"
    using loop_deliver_outbound [of l m denv s] by blast
  note em = loop_deliver_conv(2) [of l m denv s]
  from rs have nos: "\<forall>x \<in> set rs. \<not> is_session x" using receipt_not_session by blast
  show ?thesis
  proof (cases "ls_session_emitted s")
    case True
    with out em nos show ?thesis by (intro session_inv_append [OF assms, of _ rs]) simp_all
  next
    case False
    with assms have "\<forall>x \<in> set (ls_outbound s). \<not> is_session x \<and> \<not> is_receipt x" by (simp add: session_inv_def)
    moreover have "ls_outbound (loop_deliver l m denv s) = ls_outbound s @ AgentSession sm # rs"
      using out False by simp
    ultimately show ?thesis
      using em nos unfolding session_inv_def by (metis (no_types))
  qed
qed

lemma session_inv_event:
  "session_inv s \<Longrightarrow> session_inv (handle_event l now ts ev s)"
  using handle_event_outbound [of l now ts ev s] by (auto intro: session_inv_append)

lemma session_inv_step: "session_inv s \<Longrightarrow> session_inv (fst (loop_step l x s))"
  by (cases x)
    (auto simp: session_inv_deliver session_inv_event split: driver_event.splits,
     auto simp: session_inv_def)

interpretation ar: invariant_system "\<lambda>s. \<exists>a. s = loop_init a" "\<lambda>s t. \<exists>l x. t = fst (loop_step l x s)" session_inv
  by unfold_locales (auto simp: session_inv_step, simp add: session_inv_def loop_init_def)

lemma session_inv_run: "session_inv s \<Longrightarrow> session_inv (run_loop l xs s)"
proof (induction xs arbitrary: s)
  case Nil
  then show ?case by simp
next
  case (Cons x xs)
  then show ?case
    using session_inv_step [of s l x] by (auto split: prod.splits bool.splits)
qed

section \<open>The turn ledger\<close>

text \<open>The trajectory entry an event leaves, if any.\<close>

fun event_entries :: "int \<Rightarrow> driver_event \<Rightarrow> trajectory_entry list" where
  "event_entries ts (ThinkingDelta text) = [entry_default\<lparr>te_kind := ''thinking'', te_text := text, te_ts := ts\<rparr>]"
| "event_entries ts (TextDelta text) = [entry_default\<lparr>te_kind := ''text'', te_text := text, te_ts := ts\<rparr>]"
| "event_entries ts (ToolCall tid name input) =
     [entry_default\<lparr>te_kind := ''tool_call'', te_id := tid, te_text := name, te_input := Some input, te_ts := ts\<rparr>]"
| "event_entries ts (ToolResult tid out err) =
     [entry_default\<lparr>te_kind := ''tool_result'', te_id := tid, te_result := out,
        te_error := (case err of None \<Rightarrow> [] | Some e \<Rightarrow> e), te_ts := ts\<rparr>]"
| "event_entries ts (ToolDone tid out err) =
     [entry_default\<lparr>te_kind := ''tool_result'', te_id := tid, te_result := out,
        te_error := (case err of None \<Rightarrow> [] | Some e \<Rightarrow> e), te_ts := ts\<rparr>]"
| "event_entries ts ev = []"

text \<open>The entries of the events the loop processes before it stops.\<close>

fun recorded :: "string \<Rightarrow> loop_input list \<Rightarrow> loop_state \<Rightarrow> trajectory_entry list" where
  "recorded l [] s = []"
| "recorded l (x # xs) s =
     (case x of InEvent ev now ts w \<Rightarrow> if ls_event_rx_live s then event_entries ts ev else [] | _ \<Rightarrow> [])
     @ (case loop_step l x s of (s', True) \<Rightarrow> recorded l xs s' | (s', False) \<Rightarrow> [])"

definition ledger :: "loop_state \<Rightarrow> trajectory_entry list" where
  "ledger s = concat (map at_entries (turns s)) @ ls_entries s"

lemma map_filter_append [simp]: "List.map_filter f (xs @ ys) = List.map_filter f xs @ List.map_filter f ys"
  by (simp add: List.map_filter_def)

lemma ledger_event: "ledger (event_effect l ts ev s) = ledger s @ event_entries ts ev"
  by (cases ev) (auto simp: ledger_def turns_def emit_def push_entry_def Let_def msg_kind_defs)

lemma ledger_deliver: "ledger (loop_deliver l m denv s) = ledger s"
proof -
  obtain sm rs where out: "ls_outbound (loop_deliver l m denv s) =
      ls_outbound s @ (if ls_session_emitted s then [] else [AgentSession sm]) @ rs"
    and rs: "\<forall>x \<in> set rs. is_receipt x"
    using loop_deliver_outbound [of l m denv s] by blast
  have "List.map_filter turn_of rs = []"
    using rs by (induction rs) (auto simp: receipt_not_turn)
  then show ?thesis
    using out loop_deliver_conv(3) [of l m denv s] by (simp add: ledger_def turns_def)
qed

lemma ledger_frame [simp]:
  "ledger (s\<lparr>ls_actor := x\<rparr>) = ledger s" "ledger (s\<lparr>ls_effects := y\<rparr>) = ledger s"
  "ledger (s\<lparr>ls_event_rx_live := z\<rparr>) = ledger s"
  by (simp_all add: ledger_def turns_def)

lemma ledger_handle_event: "ledger (handle_event l now ts ev s) = ledger s @ event_entries ts ev"
  unfolding handle_event_def ledger_event by (simp add: ledger_def turns_def)

lemma ledger_step:
  "ledger (fst (loop_step l x s)) = ledger s @
     (case x of InEvent ev now ts w \<Rightarrow> if ls_event_rx_live s then event_entries ts ev else [] | _ \<Rightarrow> [])"
proof (cases x)
  case (InEvent ev now ts w)
  then show ?thesis by (cases ev) (simp_all add: ledger_handle_event)
qed (simp_all add: ledger_deliver)

lemma ledger_run: "ledger (run_loop l xs s) = ledger s @ recorded l xs s"
proof (induction xs arbitrary: s)
  case Nil
  then show ?case by simp
next
  case (Cons x xs)
  obtain s' go where st: "loop_step l x s = (s', go)" by fastforce
  have "ledger s' = ledger s @
     (case x of InEvent ev now ts w \<Rightarrow> if ls_event_rx_live s then event_entries ts ev else [] | _ \<Rightarrow> [])"
    using ledger_step [of l x s] st by simp
  with Cons.IH [of s'] st show ?case by (cases go) simp_all
qed

text \<open>Turns are numbered by the actor's turn counter.\<close>

definition turn_numbers_ok :: "loop_state \<Rightarrow> bool" where
  "turn_numbers_ok s \<longleftrightarrow>
     map at_turn_number (turns s) = map (\<lambda>k. as_i32 (of_nat k)) [1 ..< Suc (length (turns s))]
     \<and> ru_turn_count (ls_actor s) = of_nat (length (turns s))"

lemma turn_numbers_frame:
  "turn_numbers_ok s \<Longrightarrow> turns s' = turns s \<Longrightarrow> ru_turn_count (ls_actor s') = ru_turn_count (ls_actor s) \<Longrightarrow>
   turn_numbers_ok s'"
  by (simp add: turn_numbers_ok_def)

lemma and_then_InrE:
  assumes "fst (and_then m f) = Inr y"
  obtains x where "fst m = Inr x" "fst (f x) = Inr y" "snd (and_then m f) = snd m @ snd (f x)"
  using assms by (cases m; cases "fst m") auto

text \<open>A respawn changes the process, the driver and the session, nothing else.\<close>

lemma respawn_result:
  assumes "fst (respawn_and_deliver denv b ctx a) = Inr a'"
  shows "\<exists>child stdin sid. a' = a\<lparr>ru_child := child, ru_stdin := stdin, ru_driver := de_factory_driver denv, ru_session_id := sid\<rparr>"
  using assms unfolding respawn_and_deliver_def Let_def
  by (elim and_then_InrE) auto

lemma killed_simps [simp]:
  "ru_turn_count (killed denv a) = ru_turn_count a" "ru_id (killed denv a) = ru_id a" "ru_driver (killed denv a) = ru_driver a"
  "ru_respawn_ctx (killed denv a) = ru_respawn_ctx a" "ru_session_id (killed denv a) = ru_session_id a"
  by (simp_all add: killed_def split: sum.split)

lemma write_result_turn_count: "ru_turn_count (snd (fst (write_result denv b a))) = ru_turn_count a"
proof (cases "ru_respawn_ctx a")
  case None
  then show ?thesis unfolding write_result_def by (auto split: prod.splits sum.splits)
next
  case (Some ctx)
  then show ?thesis
    using respawn_result [of denv b ctx "killed denv a"] by (auto simp: write_result_def split: prod.splits sum.splits)
qed

lemma deliver_conv:
  "fst (deliver denv m a) = fst (write_result denv (format_delivery_bundle (ad_message m) (ad_context m)) a)"
  "snd (snd (deliver denv m a)) = snd (write_result denv (format_delivery_bundle (ad_message m) (ad_context m)) a)"
  by (simp_all add: deliver_def Let_def split: prod.splits)

lemma deliver_turn_count: "ru_turn_count (snd (fst (deliver denv m a))) = ru_turn_count a"
  by (simp add: deliver_conv write_result_turn_count)

lemma write_raw_message_ok:
  "fst (write_raw_message w stdin d p) = Inr () \<Longrightarrow> snd (write_raw_message w stdin d p) = [WriteStdin (terminated p)]"
  by (simp add: write_raw_message_def Let_def split: stdin_storage.splits write_answer.splits if_splits)

lemma write_encoded_message_ok:
  assumes "fst (write_encoded_message w stdin d text sid) = Inr ()"
  shows "\<exists>enc. dr_encode d text sid = Some enc
           \<and> snd (write_encoded_message w stdin d text sid) = [WriteStdin (terminated enc)]"
proof (cases "dr_encode d text sid")
  case None
  with assms show ?thesis by (simp add: write_encoded_message_def try_write_encoded_message_def)
next
  case (Some enc)
  from assms have "fst (and_then (write_raw_message w stdin d enc) (\<lambda>_. ret True)) \<noteq> Inl e" for e
    by (auto simp: write_encoded_message_def try_write_encoded_message_def Some and_then_result split: sum.splits)
  then have "fst (write_raw_message w stdin d enc) = Inr ()"
    by (cases "fst (write_raw_message w stdin d enc)") (auto simp: and_then_result)
  moreover from this have "write_raw_message w stdin d enc = (Inr (), [WriteStdin (terminated enc)])"
    by (metis prod.collapse write_raw_message_ok)
  ultimately show ?thesis
    using Some by (simp add: write_encoded_message_def try_write_encoded_message_def)
qed

lemma turns_deliver: "turns (loop_deliver l m denv s) = turns s"
proof -
  obtain sm rs where out: "ls_outbound (loop_deliver l m denv s) =
      ls_outbound s @ (if ls_session_emitted s then [] else [AgentSession sm]) @ rs"
    and rs: "\<forall>x \<in> set rs. is_receipt x"
    using loop_deliver_outbound [of l m denv s] by blast
  have "List.map_filter turn_of rs = []"
    using rs by (induction rs) (auto simp: receipt_not_turn)
  then show ?thesis using out by (simp add: turns_def)
qed

lemma turn_numbers_deliver: "turn_numbers_ok s \<Longrightarrow> turn_numbers_ok (loop_deliver l m denv s)"
  by (erule turn_numbers_frame)
    (simp_all add: turns_deliver loop_deliver_conv deliver_turn_count delivery_actor_def Let_def)

lemma turn_numbers_event:
  assumes "turn_numbers_ok s" shows "turn_numbers_ok (event_effect l ts ev s)"
proof (cases ev)
  case (TurnEnd st i ot c cc cr cw)
  with assms show ?thesis
    by (simp add: turn_numbers_ok_def turns_def emit_def Let_def turn_msg_def add.commute)
qed (use assms in \<open>auto intro!: turn_numbers_frame [of s] simp: emit_def push_entry_def turns_def
  working_activity_def Let_def\<close>)

lemma turn_numbers_step: "turn_numbers_ok s \<Longrightarrow> turn_numbers_ok (fst (loop_step l x s))"
proof (cases x)
  case (InEvent ev now ts w)
  assume "turn_numbers_ok s"
  then have "turn_numbers_ok (handle_event l now ts ev s)"
    unfolding handle_event_def by (intro turn_numbers_event) (simp add: turn_numbers_ok_def turns_def)
  with InEvent \<open>turn_numbers_ok s\<close> show ?thesis
    by (cases ev) (auto simp: turn_numbers_ok_def turns_def)
qed (auto simp: turn_numbers_deliver, auto simp: turn_numbers_ok_def turns_def)

lemma turn_numbers_run: "turn_numbers_ok s \<Longrightarrow> turn_numbers_ok (run_loop l xs s)"
proof (induction xs arbitrary: s)
  case (Cons x xs)
  then show ?case using turn_numbers_step [of s l x] by (auto split: prod.splits bool.splits)
qed simp

section \<open>Receipts of a persistent runtime\<close>




definition receipts :: "agent_id \<Rightarrow> agent_deliver_msg \<times> deliver_env \<Rightarrow> proc_effect option \<Rightarrow> daemon_msg list" where
  "receipts i = (\<lambda>(m, denv) w.
     let ack = \<lparr>da_agent_id = i, da_seq = ad_seq m, da_attempt = ad_attempt m,
                da_channel_id = dm_channel_id (ad_message m), da_route_action = route_for_tier (ad_delivery_tier m)\<rparr>
     in (if ad_seq m > 0 \<and> ad_attempt m > 0 then [AgentDeliverAccepted ack] else [])
        @ (if ad_attempt m > 0 \<and> w \<noteq> None then [AgentDeliverAck ack] else []))"

definition somes :: "'a option list \<Rightarrow> 'a list" where
  "somes = List.map_filter id"

lemma somes_simps [simp]: "somes [] = []" "somes (None # ws) = somes ws" "somes (Some e # ws) = e # somes ws"
  by (simp_all add: somes_def)



lemma delivery_actor_sel [simp]:
  "ru_id (delivery_actor m a) = ru_id a" "ru_stdin (delivery_actor m a) = ru_stdin a"
  "ru_driver (delivery_actor m a) = ru_driver a" "ru_respawn_ctx (delivery_actor m a) = ru_respawn_ctx a"
  "ru_session_id (delivery_actor m a) = ru_session_id a"
  by (simp_all add: delivery_actor_def Let_def)


lemma filter_receipt_event [simp]:
  "filter is_receipt (ls_outbound (handle_event l now ts ev s)) = filter is_receipt (ls_outbound s)"
  using handle_event_outbound [of l now ts ev s] by (auto simp: filter_empty_conv)


lemma filter_receipts [simp]: "filter is_receipt (receipts i d w) = receipts i d w"
  by (cases d) (simp add: receipts_def Let_def is_receipt_def)



section \<open>Properties\<close>

text \<open>
  Session announcement: whatever commands and events the loop handles, it announces at most one
  session, and never sends a receipt of a delivery before that announcement.
\<close>

theorem run_loop_session_first:
  fixes l xs a
  defines "out \<equiv> ls_outbound (run_loop l xs (loop_init a))"
  shows "length (filter is_session out) \<le> 1
       \<and> (\<forall>i < length out. is_receipt (out ! i) \<longrightarrow> (\<exists>j < i. is_session (out ! j)))"
proof -
  have "session_inv (loop_init a)" by (simp add: session_inv_def loop_init_def)
  then have inv: "session_inv (run_loop l xs (loop_init a))" by (rule session_inv_run)
  show ?thesis
  proof (cases "ls_session_emitted (run_loop l xs (loop_init a))")
    case False
    with inv have "\<forall>m \<in> set out. \<not> is_session m \<and> \<not> is_receipt m" by (simp add: session_inv_def out_def)
    then show ?thesis by (simp add: filter_empty_conv)
  next
    case True
    with inv obtain pre sm post where o: "out = pre @ AgentSession sm # post"
      and p: "\<forall>m \<in> set pre. \<not> is_session m \<and> \<not> is_receipt m" and q: "\<forall>m \<in> set post. \<not> is_session m"
      by (auto simp: session_inv_def out_def)
    have "length (filter is_session out) \<le> 1"
      using p q by (simp add: o filter_empty_conv)
    moreover have "\<exists>j < i. is_session (out ! j)" if "i < length out" "is_receipt (out ! i)" for i
    proof -
      have "i \<noteq> length pre" using that by (auto simp: o is_receipt_def)
      moreover have "\<not> i < length pre" using that p by (auto simp: o nth_append)
      ultimately have "length pre < i" by linarith
      moreover have "is_session (out ! length pre)" by (simp add: o is_session_def)
      ultimately show ?thesis by blast
    qed
    ultimately show ?thesis by blast
  qed
qed

definition example_driver :: driver where
  "example_driver = \<lparr>dr_name = ''claude'', dr_encode = (\<lambda>t _. Some t), dr_is_turn_exit = False,
     dr_requires_initial_prompt = True, dr_defers_session_id = False, dr_binder = False,
     dr_initializer = None, dr_interruptor = None, dr_supports_turn_cancel = True,
     dr_supports_turn_steer = False, dr_supports_thread_fork = False\<rparr>"

definition example_running :: running where
  "example_running = \<lparr>ru_id = ''a'', ru_stdin = Local, ru_driver = example_driver,
     ru_child = \<lparr>cp_pid = Some 42, cp_stdin = True, cp_stdout = True\<rparr>, ru_session_id = ''s'',
     ru_channel_id = 0, ru_channel_name = [], ru_last_stdout_at = 0, ru_turn_count = 0,
     ru_launch_id = [], ru_respawn_ctx = None\<rparr>"

theorem run_loop_session_first_witness:
  "length (filter is_session (ls_outbound (run_loop ''l'' [InTurnCancel (Inr ()), InMailboxClosed] (loop_init example_running)))) \<le> 1"
  using run_loop_session_first [of "''l''" "[InTurnCancel (Inr ()), InMailboxClosed]" example_running] by blast


text \<open>
  C37. No trajectory entry is lost or reported twice: the entries of all reported turns, followed by
  those of the turn in progress, are exactly the entries of the handled events, in order; and the
  turns are numbered 1, 2, 3 and so on (as 32-bit integers).
\<close>

theorem run_loop_turn_ledger:
  assumes "ru_turn_count a = 0"
  shows "concat (map at_entries (turns (run_loop l xs (loop_init a)))) @ ls_entries (run_loop l xs (loop_init a))
           = recorded l xs (loop_init a)
       \<and> map at_turn_number (turns (run_loop l xs (loop_init a)))
           = map (\<lambda>k. as_i32 (of_nat k)) [1 ..< Suc (length (turns (run_loop l xs (loop_init a))))]"
proof
  have "ledger (loop_init a) = []" by (simp add: ledger_def turns_def loop_init_def)
  with ledger_run [of l xs "loop_init a"]
  show "concat (map at_entries (turns (run_loop l xs (loop_init a)))) @ ls_entries (run_loop l xs (loop_init a))
           = recorded l xs (loop_init a)"
    by (simp add: ledger_def)
  have "turn_numbers_ok (loop_init a)" using assms by (simp add: turn_numbers_ok_def turns_def loop_init_def)
  then have "turn_numbers_ok (run_loop l xs (loop_init a))" by (rule turn_numbers_run)
  then show "map at_turn_number (turns (run_loop l xs (loop_init a)))
           = map (\<lambda>k. as_i32 (of_nat k)) [1 ..< Suc (length (turns (run_loop l xs (loop_init a))))]"
    by (simp add: turn_numbers_ok_def)
qed

theorem run_loop_turn_ledger_witness:
  "let xs = [InEvent (TextDelta ''x'') 1 1 WriteOk, InEvent (TurnEnd Completed 1 1 0 0 0 0) 2 2 WriteOk,
             InEvent (TextDelta ''y'') 3 3 WriteOk]
   in map at_turn_number (turns (run_loop ''l'' xs (loop_init example_running)))
        = map (\<lambda>k. as_i32 (of_nat k)) [1 ..< Suc (length (turns (run_loop ''l'' xs (loop_init example_running))))]"
  unfolding Let_def
  by (rule run_loop_turn_ledger [THEN conjunct2]) (simp add: example_running_def)

text \<open>
  What a persistent runtime receives: a delivery that reports success has written the encoded
  bundle to the process exactly once, ended by a newline, and done nothing else to it.
\<close>

theorem deliver_writes_bundle:
  assumes "ru_respawn_ctx a = None" and "fst (fst (deliver denv m a)) = None"
  shows "\<exists>enc. dr_encode (ru_driver a) (format_delivery_bundle (ad_message m) (ad_context m)) (Some (ru_session_id a)) = Some enc
           \<and> snd (snd (deliver denv m a)) = [WriteStdin (terminated enc)]
           \<and> last (terminated enc) = CHR 0x0A \<and> snd (fst (deliver denv m a)) = a"
proof -
  let ?b = "format_delivery_bundle (ad_message m) (ad_context m)"
  let ?w = "write_encoded_message (de_write denv) (ru_stdin a) (ru_driver a) ?b (Some (ru_session_id a))"
  have w: "write_result denv ?b a = (case ?w of (Inl e, es) \<Rightarrow> ((Some e, a), es) | (Inr _, es) \<Rightarrow> ((None, a), es))"
    using assms(1) by (simp add: write_result_def)
  with assms(2) have "fst ?w = Inr ()" by (auto simp: deliver_conv split: prod.splits sum.splits)
  moreover from this obtain enc where "dr_encode (ru_driver a) ?b (Some (ru_session_id a)) = Some enc"
    and "snd ?w = [WriteStdin (terminated enc)]" using write_encoded_message_ok by blast
  ultimately show ?thesis
    using w by (intro exI [of _ enc]) (auto simp: deliver_conv terminated_def split: prod.splits sum.splits)
qed

definition example_deliver_env :: "write_answer \<Rightarrow> deliver_env" where
  "example_deliver_env w = \<lparr>de_write = w, de_kill = Inr (),
     de_spawn = \<lparr>se_mkdir = Inr (), se_registry = Some example_driver, se_factory = None, se_prepare = Inr (),
       se_spawn = Inr \<lparr>cp_pid = Some 7, cp_stdin = True, cp_stdout = True\<rparr>, se_pidfile = Inr (),
       se_init_write = Inr (), se_init_flush = Inr (), se_prompt_write = WriteOk,
       se_events = [(SessionStarted ''s2'', WriteOk)], se_ending = ProcessExited,
       se_late_prompt_write = WriteOk, se_now = 0\<rparr>,
     de_factory_driver = example_driver\<rparr>"

definition example_incoming :: agent_deliver_msg where
  "example_incoming = \<lparr>ad_agent_id = ''a'', ad_seq = 1, ad_attempt = 1, ad_priority_class = [],
      ad_priority_reason = [], ad_priority_source = [], ad_responder_role = [],
      ad_delivery_tier = [], ad_routing_reason = [],
      ad_message = plain_message 5 ''general'' ''ann'' ''hi'', ad_context = []\<rparr>"

theorem deliver_writes_bundle_witness:
  "snd (snd (deliver (example_deliver_env WriteOk) example_incoming example_running))
     = [WriteStdin (''[general] ann: hi'' @ [CHR 0x0A])]"
proof -
  have "ru_respawn_ctx example_running = None"
    and "fst (fst (deliver (example_deliver_env WriteOk) example_incoming example_running)) = None"
    by (simp_all add: deliver_def Let_def write_result_def example_running_def write_encoded_message_def
        try_write_encoded_message_def write_raw_message_def example_driver_def example_deliver_env_def)
  from deliver_writes_bundle [OF this] show ?thesis
    by (auto simp: example_running_def example_driver_def example_incoming_def format_delivery_bundle_def
        delivery_line_def terminated_def)
qed


end
