(* ===== verification/Watchdog.thy ===== *)
theory Watchdog
  imports RustStr
begin

text \<open>
  The restart watchdog of \<open>crates/cocli-agent/src/watchdog.rs\<close>: per agent, a bounded number of
  automatic restarts, at most one of them pending. Counters are \<open>i32\<close>; \<open>saturating_add\<close> is
  \<open>sat_add_i32\<close>.
\<close>

section \<open>State and operations\<close>

definition auto_retry_max :: int where
  "auto_retry_max = 3"

definition watchdog_max_retries :: int where
  "watchdog_max_retries = 5"

definition watchdog_total_max_retries :: int where
  "watchdog_total_max_retries = auto_retry_max + watchdog_max_retries"

record watchdog_event =
  we_agent_id :: agent_id
  we_agent_name :: string
  we_action :: string
  we_detail :: string
  we_attempt :: int
  we_max_retries :: int

record watchdog_entry =
  wd_agent_name :: string
  wd_retry_count :: int
  wd_pending :: "watchdog_event option"

type_synonym watchdog_store = "(agent_id, watchdog_entry) hmap"

definition watchdog_new :: watchdog_store where
  "watchdog_new = []"

definition register_down :: "agent_id \<Rightarrow> string \<Rightarrow> watchdog_store \<Rightarrow> watchdog_store" where
  "register_down a name w =
     (if trim a = [] then w
      else let entry = (case hm_get w a of
                          Some e \<Rightarrow> e
                        | None \<Rightarrow> \<lparr>wd_agent_name = name, wd_retry_count = auto_retry_max, wd_pending = None\<rparr>)
           in hm_insert a (entry\<lparr>wd_agent_name := name\<rparr>) w)"

definition watchdog_clear :: "agent_id \<Rightarrow> watchdog_store \<Rightarrow> watchdog_store" where
  "watchdog_clear a w = hm_remove a w"

definition tracked_agent_ids :: "watchdog_store \<Rightarrow> agent_id list" where
  "tracked_agent_ids w = map fst w"

definition plan_restart :: "agent_id \<Rightarrow> string \<Rightarrow> watchdog_store \<Rightarrow> watchdog_event option \<times> watchdog_store" where
  "plan_restart a name w =
     (case hm_get w a of
        None \<Rightarrow> (None, w)
      | Some entry \<Rightarrow>
          (case wd_pending entry of
             Some p \<Rightarrow> (Some p, w)
           | None \<Rightarrow>
               let entry = (if name \<noteq> [] then entry\<lparr>wd_agent_name := name\<rparr> else entry) in
               if wd_retry_count entry \<ge> watchdog_total_max_retries
               then (Some \<lparr>we_agent_id = a, we_agent_name = wd_agent_name entry,
                       we_action = ''max_retries_exceeded'',
                       we_detail = ''agent exhausted all recovery attempts - manual intervention required'',
                       we_attempt = watchdog_total_max_retries, we_max_retries = watchdog_total_max_retries\<rparr>,
                     hm_insert a entry w)
               else
                 let entry = entry\<lparr>wd_retry_count := sat_add_i32 (wd_retry_count entry) 1\<rparr>;
                     event = \<lparr>we_agent_id = a, we_agent_name = wd_agent_name entry,
                       we_action = ''auto_restart'',
                       we_detail = ''watchdog is attempting to restart the agent'',
                       we_attempt = wd_retry_count entry, we_max_retries = watchdog_total_max_retries\<rparr>
                 in (Some event, hm_insert a (entry\<lparr>wd_pending := Some event\<rparr>) w)))"

definition mark_recovered :: "agent_id \<Rightarrow> watchdog_store \<Rightarrow> watchdog_event option \<times> watchdog_store" where
  "mark_recovered a w =
     (case hm_get w a of
        None \<Rightarrow> (None, w)
      | Some entry \<Rightarrow>
          (map_option (\<lambda>p. p\<lparr>we_action := ''recovered'',
             we_detail := ''agent successfully restarted by watchdog''\<rparr>) (wd_pending entry),
           hm_remove a w))"

definition mark_restart_failed :: "agent_id \<Rightarrow> string \<Rightarrow> watchdog_store \<Rightarrow> watchdog_event option \<times> watchdog_store" where
  "mark_restart_failed a detail w =
     (case hm_get w a of
        None \<Rightarrow> (None, w)
      | Some entry \<Rightarrow>
          (case wd_pending entry of
             None \<Rightarrow> (None, w)
           | Some p \<Rightarrow> (Some (p\<lparr>we_action := ''restart_failed'', we_detail := detail\<rparr>),
                        hm_insert a (entry\<lparr>wd_pending := None\<rparr>) w)))"

section \<open>Operations as a system\<close>

datatype watchdog_op =
    OpRegisterDown string
  | OpClear
  | OpPlan string
  | OpRecovered
  | OpFailed string

fun watchdog_apply :: "agent_id \<Rightarrow> watchdog_op \<Rightarrow> watchdog_store \<Rightarrow> watchdog_event option \<times> watchdog_store" where
  "watchdog_apply a (OpRegisterDown name) w = (None, register_down a name w)"
| "watchdog_apply a OpClear w = (None, watchdog_clear a w)"
| "watchdog_apply a (OpPlan name) w = plan_restart a name w"
| "watchdog_apply a OpRecovered w = mark_recovered a w"
| "watchdog_apply a (OpFailed detail) w = mark_restart_failed a detail w"

text \<open>The bound on retries, and what a pending restart records.\<close>

definition entry_ok :: "agent_id \<Rightarrow> watchdog_entry \<Rightarrow> bool" where
  "entry_ok a e \<longleftrightarrow> auto_retry_max \<le> wd_retry_count e \<and> wd_retry_count e \<le> watchdog_total_max_retries
     \<and> (case wd_pending e of None \<Rightarrow> True
        | Some p \<Rightarrow> we_agent_id p = a \<and> we_action p = ''auto_restart'' \<and> we_attempt p = wd_retry_count e
            \<and> auto_retry_max < wd_retry_count e \<and> we_max_retries p = watchdog_total_max_retries)"

definition watchdog_inv :: "watchdog_store \<Rightarrow> bool" where
  "watchdog_inv w \<longleftrightarrow> (\<forall>a e. hm_get w a = Some e \<longrightarrow> entry_ok a e)"

lemmas watchdog_consts = auto_retry_max_def watchdog_max_retries_def watchdog_total_max_retries_def

lemma watchdog_view_other:
  "b \<noteq> a \<Longrightarrow> hm_get (snd (watchdog_apply a x w)) b = hm_get w b"
  by (cases x) (auto simp: register_down_def watchdog_clear_def plan_restart_def mark_recovered_def
      mark_restart_failed_def Let_def split: option.splits)

lemma watchdog_view_local:
  "hm_get w a = hm_get w' a \<Longrightarrow>
   hm_get (snd (watchdog_apply a x w)) a = hm_get (snd (watchdog_apply a x w')) a
   \<and> fst (watchdog_apply a x w) = fst (watchdog_apply a x w')"
  by (cases x) (auto simp: register_down_def watchdog_clear_def plan_restart_def mark_recovered_def
      mark_restart_failed_def Let_def split: option.splits)

interpretation wd: keyed_store hm_get "\<lambda>a x w. snd (watchdog_apply a x w)"
  by unfold_locales (rule watchdog_view_other, assumption, rule watchdog_view_local [THEN conjunct1])

lemma entry_ok_apply:
  assumes "\<And>e. hm_get w a = Some e \<Longrightarrow> entry_ok a e"
    and "hm_get (snd (watchdog_apply a x w)) a = Some e"
  shows "entry_ok a e"
proof (cases x)
  case (OpPlan name)
  with assms show ?thesis
    by (auto simp: plan_restart_def Let_def entry_ok_def sat_add_i32_def i32_max_def watchdog_consts
        split: option.splits if_splits)
qed (use assms in \<open>auto simp: register_down_def watchdog_clear_def mark_recovered_def
  mark_restart_failed_def Let_def entry_ok_def watchdog_consts split: option.splits if_splits\<close>)

lemma watchdog_inv_apply [inv_intros]:
  assumes "watchdog_inv w" shows "watchdog_inv (snd (watchdog_apply a x w))"
  unfolding watchdog_inv_def
proof (intro allI impI)
  fix b e assume b: "hm_get (snd (watchdog_apply a x w)) b = Some e"
  show "entry_ok b e"
  proof (cases "b = a")
    case True
    with b assms show ?thesis by (auto simp: watchdog_inv_def intro: entry_ok_apply)
  next
    case False
    with b assms show ?thesis by (simp add: watchdog_view_other watchdog_inv_def)
  qed
qed

lemma watchdog_inv_new [simp, inv_intros]: "watchdog_inv watchdog_new"
  by (simp add: watchdog_inv_def watchdog_new_def)

interpretation wd: invariant_system "\<lambda>w. w = watchdog_new" "\<lambda>w w'. \<exists>a x. w' = snd (watchdog_apply a x w)" watchdog_inv
  by unfold_locales (auto intro: watchdog_inv_apply)

section \<open>The restart budget\<close>

text \<open>The events a sequence of operations returns for one agent.\<close>

fun watchdog_run :: "(agent_id \<times> watchdog_op) list \<Rightarrow> watchdog_store \<Rightarrow> (agent_id \<times> watchdog_event) list \<times> watchdog_store" where
  "watchdog_run [] w = ([], w)"
| "watchdog_run ((a, x) # ops) w =
     (case watchdog_apply a x w of (ev, w') \<Rightarrow>
        (case watchdog_run ops w' of (evs, w'') \<Rightarrow>
           ((case ev of None \<Rightarrow> evs | Some e \<Rightarrow> (a, e) # evs), w'')))"

definition failures :: "agent_id \<Rightarrow> (agent_id \<times> watchdog_event) list \<Rightarrow> nat" where
  "failures a evs = length (filter (\<lambda>(b, e). b = a \<and> we_action e = ''restart_failed'') evs)"

text \<open>Restarts used so far: failed ones are counted, a pending one is not yet decided.\<close>

definition used :: "agent_id \<Rightarrow> watchdog_store \<Rightarrow> int" where
  "used a w = (case hm_get w a of None \<Rightarrow> 0
     | Some e \<Rightarrow> wd_retry_count e - auto_retry_max - (if wd_pending e = None then 0 else 1))"

lemma used_apply:
  assumes "watchdog_inv w" and "x \<noteq> OpClear" and "x \<noteq> OpRecovered"
  shows "used a (snd (watchdog_apply a x w)) = used a w
           + (case fst (watchdog_apply a x w) of Some e \<Rightarrow> (if we_action e = ''restart_failed'' then 1 else 0) | None \<Rightarrow> 0)"
proof (cases "hm_get w a")
  case None
  with assms(2,3) show ?thesis
    by (cases x) (auto simp: used_def register_down_def plan_restart_def mark_restart_failed_def)
next
  case (Some e)
  with assms have ok: "entry_ok a e" by (simp add: watchdog_inv_def)
  show ?thesis
  proof (cases x)
    case (OpPlan name)
    with Some ok show ?thesis
      by (cases "wd_pending e") (auto simp: used_def plan_restart_def Let_def entry_ok_def
          sat_add_i32_def i32_max_def watchdog_consts)
  next
    case (OpFailed d)
    with Some show ?thesis by (auto simp: used_def mark_restart_failed_def split: option.splits)
  next
    case (OpRegisterDown n)
    with Some show ?thesis by (auto simp: used_def register_down_def)
  qed (use assms in auto)
qed

lemma used_other: "b \<noteq> a \<Longrightarrow> used a (snd (watchdog_apply b x w)) = used a w"
  by (simp add: used_def watchdog_view_other)

lemma used_bounds: "watchdog_inv w \<Longrightarrow> 0 \<le> used a w \<and> used a w \<le> watchdog_max_retries"
proof (cases "hm_get w a")
  case (Some e)
  moreover assume "watchdog_inv w"
  ultimately have "entry_ok a e" by (simp add: watchdog_inv_def)
  with Some show ?thesis
    by (auto simp: used_def entry_ok_def watchdog_consts split: option.splits)
qed (simp add: used_def watchdog_consts)

lemma failures_run:
  assumes "watchdog_inv w" and "\<forall>(b, x) \<in> set ops. b = a \<longrightarrow> x \<noteq> OpClear \<and> x \<noteq> OpRecovered"
  shows "used a (snd (watchdog_run ops w)) = used a w + int (failures a (fst (watchdog_run ops w)))
       \<and> watchdog_inv (snd (watchdog_run ops w))"
  using assms
proof (induction ops arbitrary: w)
  case Nil
  then show ?case by (simp add: failures_def)
next
  case (Cons bx ops)
  obtain b x where bx: "bx = (b, x)" by (cases bx)
  let ?w = "snd (watchdog_apply b x w)"
  have inv: "watchdog_inv ?w" using Cons.prems by (simp add: watchdog_inv_apply)
  note ih = Cons.IH [OF inv] 
  have "used a ?w = used a w + (case fst (watchdog_apply b x w) of
      Some e \<Rightarrow> (if b = a \<and> we_action e = ''restart_failed'' then 1 else 0) | None \<Rightarrow> 0)"
  proof (cases "b = a")
    case True
    with Cons.prems bx show ?thesis using used_apply [of w x a] by (auto split: option.splits)
  next
    case False
    then show ?thesis by (simp add: used_other split: option.splits)
  qed
  with ih Cons.prems bx show ?case
    by (auto simp: failures_def case_prod_unfold split: option.splits)
qed

section \<open>Properties\<close>

text \<open>
  Restart budget: in any sequence of watchdog operations that neither clears nor recovers an
  agent, that agent sees at most five failed restarts, however often it is registered, planned
  or reported in between.
\<close>

theorem watchdog_failure_budget:
  assumes "\<forall>(b, x) \<in> set ops. b = a \<longrightarrow> x \<noteq> OpClear \<and> x \<noteq> OpRecovered"
  shows "failures a (fst (watchdog_run ops watchdog_new)) \<le> 5"
proof -
  let ?w = "snd (watchdog_run ops watchdog_new)"
  have "used a ?w = used a watchdog_new + int (failures a (fst (watchdog_run ops watchdog_new)))"
    and "watchdog_inv ?w"
    using failures_run [OF watchdog_inv_new assms] by auto
  moreover have "used a watchdog_new = 0" by (simp add: used_def watchdog_new_def)
  ultimately show ?thesis using used_bounds [of ?w a] by (simp add: watchdog_consts)
qed

theorem watchdog_failure_budget_witness:
  "let round = [(''a'', OpPlan []), (''a'', OpFailed ''boom'')]
   in failures ''a'' (fst (watchdog_run ((''a'', OpRegisterDown ''ann'') # round @ round) watchdog_new)) \<le> 5"
  unfolding Let_def by (rule watchdog_failure_budget) simp

text \<open>
  Exhaustion: after the fifth failed restart the watchdog plans no further restart: it answers
  \<open>max_retries_exceeded\<close> and the entry does not change, until the agent is cleared or recovers.
\<close>

theorem plan_restart_exhausted:
  assumes "watchdog_inv w" and "hm_get w a = Some e" and "wd_pending e = None"
  shows "map_option we_action (fst (plan_restart a [] w)) =
           Some (if wd_retry_count e = 8 then ''max_retries_exceeded'' else ''auto_restart'')
       \<and> (wd_retry_count e = 8 \<longrightarrow> hm_get (snd (plan_restart a [] w)) a = Some e)
       \<and> (wd_retry_count e \<noteq> 8 \<longrightarrow>
            (\<exists>p. hm_get (snd (plan_restart a [] w)) a
                   = Some (e\<lparr>wd_retry_count := wd_retry_count e + 1, wd_pending := Some p\<rparr>)
               \<and> we_attempt p = wd_retry_count e + 1))"
proof -
  have "entry_ok a e" using assms by (simp add: watchdog_inv_def)
  then have "wd_retry_count e \<le> 8" and "sat_add_i32 (wd_retry_count e) 1 = wd_retry_count e + 1"
    by (auto simp: entry_ok_def watchdog_consts sat_add_i32_def i32_max_def)
  with assms(2,3) show ?thesis
    by (auto simp: plan_restart_def Let_def watchdog_consts)
qed

theorem plan_restart_exhausted_witness:
  "map_option we_action (fst (plan_restart ''a'' [] (register_down ''a'' ''ann'' watchdog_new))) = Some ''auto_restart''"
proof -
  have t: "trim ''a'' \<noteq> []"
    by (simp add: trim_def trim_start_def trim_end_def strip_any.simps ws_seqs_def)
  let ?w = "register_down ''a'' ''ann'' watchdog_new"
  have "watchdog_inv ?w" using watchdog_inv_apply [of watchdog_new "''a''" "OpRegisterDown ''ann''"] by simp
  moreover have "hm_get ?w ''a'' = Some \<lparr>wd_agent_name = ''ann'', wd_retry_count = 3, wd_pending = None\<rparr>"
    using t by (simp add: register_down_def watchdog_new_def watchdog_consts)
  ultimately show ?thesis using plan_restart_exhausted [of ?w "''a''"] by simp
qed

end
