(* ===== verification/Recovery.thy ===== *)
theory Recovery
  imports RustStr
begin

text \<open>
  The quota-recovery store of \<open>crates/cocli-agent/src/recovery.rs\<close>: which stopped agents are to be
  probed, when, and that no two probes of an agent run at once. An \<open>Instant\<close> is a number of
  nanoseconds; \<open>duration_since\<close> saturates at zero, which is subtraction of natural numbers.
  Attempt counters are \<open>u32\<close> with saturating increment.
\<close>

section \<open>State and operations\<close>

type_synonym instant = nat

definition secs :: "nat \<Rightarrow> nat" where
  "secs n = n * 1000000000"

definition probe_backoff_schedule :: "nat list" where
  "probe_backoff_schedule = [secs (5 * 60), secs (10 * 60), secs (30 * 60), secs (60 * 60), secs (120 * 60)]"

definition probe_backoff_for :: "nat \<Rightarrow> nat" where
  "probe_backoff_for attempt =
     (if attempt < length probe_backoff_schedule then probe_backoff_schedule ! attempt
      else probe_backoff_schedule ! (length probe_backoff_schedule - 1))"

datatype probe_result = ProbeRecovered | StillLimited | ProbeError | NoState

fun probe_as_wire :: "probe_result \<Rightarrow> string" where
  "probe_as_wire ProbeRecovered = ''recovered''"
| "probe_as_wire StillLimited = ''still_limited''"
| "probe_as_wire ProbeError = ''error''"
| "probe_as_wire NoState = ''no_state''"

record recovery_entry =
  re_provider :: string
  re_stop_reason :: string
  re_attempt_count :: nat
  re_expected_recovery_at :: "instant option"
  re_last_probe_at :: "instant option"
  re_probe_in_flight :: bool

record due_probe =
  dp_agent_id :: agent_id
  dp_provider :: string
  dp_stop_reason :: string
  dp_attempt_count :: nat

record recovery_status =
  rc_provider :: string
  rc_stop_reason :: string
  rc_attempt_count :: nat

type_synonym recovery_store = "(agent_id, recovery_entry) hmap"

definition recovery_new :: recovery_store where
  "recovery_new = []"

definition register_with_expected_recovery_at ::
  "agent_id \<Rightarrow> string \<Rightarrow> string \<Rightarrow> instant option \<Rightarrow> recovery_store \<Rightarrow> recovery_store" where
  "register_with_expected_recovery_at a provider stop_reason expected s =
     (if trim a = [] then s
      else
        let prior = hm_get s a;
            prior_attempts = (case prior of None \<Rightarrow> 0 | Some e \<Rightarrow> re_attempt_count e);
            last_probe_at = (case prior of None \<Rightarrow> None | Some e \<Rightarrow> re_last_probe_at e);
            probe_in_flight = (case prior of None \<Rightarrow> False | Some e \<Rightarrow> re_probe_in_flight e)
        in hm_insert a \<lparr>re_provider = provider, re_stop_reason = stop_reason,
             re_attempt_count = prior_attempts, re_expected_recovery_at = expected,
             re_last_probe_at = last_probe_at, re_probe_in_flight = probe_in_flight\<rparr> s)"

definition register :: "agent_id \<Rightarrow> string \<Rightarrow> string \<Rightarrow> recovery_store \<Rightarrow> recovery_store" where
  "register a provider stop_reason s = register_with_expected_recovery_at a provider stop_reason None s"

definition probe_now :: "agent_id \<Rightarrow> instant \<Rightarrow> recovery_store \<Rightarrow> (probe_result \<times> string) \<times> recovery_store" where
  "probe_now a now s =
     (case hm_get s a of
        None \<Rightarrow> ((NoState, []), s)
      | Some e \<Rightarrow>
          if re_probe_in_flight e
          then ((StillLimited, ''recovery probe already in flight for provider='' @ re_provider e
                   @ '' stopReason='' @ re_stop_reason e), s)
          else ((StillLimited, ''recovery probe pending for provider='' @ re_provider e
                   @ '' stopReason='' @ re_stop_reason e),
                hm_insert a (e\<lparr>re_attempt_count := sat_add u32_max (re_attempt_count e) 1,
                               re_last_probe_at := Some now\<rparr>) s))"

definition recovery_clear :: "agent_id \<Rightarrow> recovery_store \<Rightarrow> recovery_store" where
  "recovery_clear a s = hm_remove a s"

definition recovery_contains :: "agent_id \<Rightarrow> recovery_store \<Rightarrow> bool" where
  "recovery_contains a s \<longleftrightarrow> hm_get s a \<noteq> None"

definition recovery_len :: "recovery_store \<Rightarrow> nat" where
  "recovery_len s = length s"

definition status :: "agent_id \<Rightarrow> recovery_store \<Rightarrow> recovery_status option" where
  "status a s = map_option (\<lambda>e. \<lparr>rc_provider = re_provider e, rc_stop_reason = re_stop_reason e,
     rc_attempt_count = re_attempt_count e\<rparr>) (hm_get s a)"

text \<open>The conditions under which the loop of \<open>due_probes\<close> does not \<open>continue\<close>.\<close>

definition probe_due :: "instant \<Rightarrow> recovery_entry \<Rightarrow> bool" where
  "probe_due now e \<longleftrightarrow> \<not> re_probe_in_flight e \<and>
     (case re_expected_recovery_at e of
        Some expected \<Rightarrow> \<not> expected > now
      | None \<Rightarrow>
          (case re_last_probe_at e of
             Some last_probe_at \<Rightarrow> \<not> now - last_probe_at < probe_backoff_for (re_attempt_count e)
           | None \<Rightarrow> True))"

fun due_probes :: "instant \<Rightarrow> recovery_store \<Rightarrow> due_probe list \<times> recovery_store" where
  "due_probes now [] = ([], [])"
| "due_probes now ((a, e) # s) =
     (case due_probes now s of (out, s') \<Rightarrow>
        if probe_due now e
        then (\<lparr>dp_agent_id = a, dp_provider = re_provider e, dp_stop_reason = re_stop_reason e,
               dp_attempt_count = re_attempt_count e\<rparr> # out, (a, e\<lparr>re_probe_in_flight := True\<rparr>) # s')
        else (out, (a, e) # s'))"

definition complete_probe :: "agent_id \<Rightarrow> instant \<Rightarrow> probe_result \<Rightarrow> recovery_store \<Rightarrow> recovery_store" where
  "complete_probe a now result s =
     (if result = ProbeRecovered then hm_remove a s
      else case hm_get s a of
        None \<Rightarrow> s
      | Some e \<Rightarrow>
          let e = e\<lparr>re_probe_in_flight := False\<rparr>;
              e = (if result \<noteq> NoState
                   then e\<lparr>re_attempt_count := sat_add u32_max (re_attempt_count e) 1,
                          re_expected_recovery_at := None, re_last_probe_at := Some now\<rparr>
                   else e)
          in hm_insert a e s)"

section \<open>Views after an operation\<close>

lemma due_probes_get:
  "hm_get (snd (due_probes now s)) a =
   map_option (\<lambda>e. if probe_due now e then e\<lparr>re_probe_in_flight := True\<rparr> else e) (hm_get s a)"
  by (induction now s rule: due_probes.induct) (auto split: prod.splits)

lemma due_probes_agents:
  "hm_wf s \<Longrightarrow> a \<in> dp_agent_id ` set (fst (due_probes now s)) \<longleftrightarrow> (\<exists>e. hm_get s a = Some e \<and> probe_due now e)"
proof (induction now s rule: due_probes.induct)
  case (1 now)
  then show ?case by simp
next
  case (2 now b e s)
  then have "hm_get s b = None" by (auto simp: map_of_eq_None_iff)
  with 2 show ?case by (cases "due_probes now s") (auto split: if_splits)
qed

lemma due_probes_fst: "map fst (snd (due_probes now s)) = map fst s"
  by (induction now s rule: due_probes.induct) (auto split: prod.splits)

lemma recovery_wf [inv_intros]:
  "hm_wf recovery_new"
  "hm_wf s \<Longrightarrow> hm_wf (register_with_expected_recovery_at a p r t s)"
  "hm_wf s \<Longrightarrow> hm_wf (snd (probe_now a now s))"
  "hm_wf s \<Longrightarrow> hm_wf (recovery_clear a s)"
  "hm_wf s \<Longrightarrow> hm_wf (snd (due_probes now s))"
  "hm_wf s \<Longrightarrow> hm_wf (complete_probe a now res s)"
  by (auto simp: recovery_new_def register_with_expected_recovery_at_def probe_now_def Let_def
      recovery_clear_def due_probes_fst complete_probe_def split: option.splits)

section \<open>Operations as a system\<close>

datatype recovery_op =
    RecRegister agent_id string string "instant option"
  | RecProbeNow agent_id instant
  | RecClear agent_id
  | RecDue instant
  | RecComplete agent_id instant probe_result

fun recovery_apply :: "recovery_op \<Rightarrow> recovery_store \<Rightarrow> recovery_store" where
  "recovery_apply (RecRegister a p r t) s = register_with_expected_recovery_at a p r t s"
| "recovery_apply (RecProbeNow a now) s = snd (probe_now a now s)"
| "recovery_apply (RecClear a) s = recovery_clear a s"
| "recovery_apply (RecDue now) s = snd (due_probes now s)"
| "recovery_apply (RecComplete a now res) s = complete_probe a now res s"

text \<open>The operations that end the probe of an agent.\<close>

fun ends_probe :: "agent_id \<Rightarrow> recovery_op \<Rightarrow> bool" where
  "ends_probe a (RecComplete b now res) = (b = a)"
| "ends_probe a (RecClear b) = (b = a)"
| "ends_probe a _ = False"

lemma recovery_wf_apply: "hm_wf s \<Longrightarrow> hm_wf (recovery_apply x s)"
  by (cases x) (simp_all add: recovery_wf)

lemma recovery_wf_run: "hm_wf s \<Longrightarrow> hm_wf (fold recovery_apply ops s)"
  by (induction ops arbitrary: s) (simp_all add: recovery_wf_apply)

definition in_flight :: "agent_id \<Rightarrow> recovery_store \<Rightarrow> bool" where
  "in_flight a s \<longleftrightarrow> (\<exists>e. hm_get s a = Some e \<and> re_probe_in_flight e)"

lemma in_flight_due: "in_flight a s \<Longrightarrow> in_flight a (snd (due_probes now s))"
  by (auto simp: in_flight_def due_probes_get probe_due_def)

lemma in_flight_apply: "in_flight a s \<Longrightarrow> \<not> ends_probe a x \<Longrightarrow> in_flight a (recovery_apply x s)"
  by (cases x)
    (auto simp: in_flight_due, auto simp: in_flight_def register_with_expected_recovery_at_def
      probe_now_def Let_def recovery_clear_def complete_probe_def split: option.splits)

lemma in_flight_run: "in_flight a s \<Longrightarrow> list_all (\<lambda>x. \<not> ends_probe a x) ops \<Longrightarrow> in_flight a (fold recovery_apply ops s)"
  by (induction ops arbitrary: s) (simp_all add: in_flight_apply)

section \<open>Backoff\<close>

lemma probe_backoff_for_simps:
  "probe_backoff_for 0 = secs 300" "probe_backoff_for (Suc 0) = secs 600" "probe_backoff_for 2 = secs 1800"
  "probe_backoff_for 3 = secs 3600" "4 \<le> n \<Longrightarrow> probe_backoff_for n = secs 7200"
proof -
  show "4 \<le> n \<Longrightarrow> probe_backoff_for n = secs 7200"
    by (cases "n = 4") (auto simp: probe_backoff_for_def probe_backoff_schedule_def)
qed (simp_all add: probe_backoff_for_def probe_backoff_schedule_def)

lemma probe_backoff_for_cases:
  obtains "n = 0" | "n = Suc 0" | "n = 2" | "n = 3" | "4 \<le> (n :: nat)"
  by linarith

lemma probe_backoff_for_mono: "m \<le> n \<Longrightarrow> probe_backoff_for m \<le> probe_backoff_for n"
  by (cases m rule: probe_backoff_for_cases; cases n rule: probe_backoff_for_cases)
    (simp_all add: probe_backoff_for_simps secs_def)

lemma probe_backoff_for_bounds: "secs 300 \<le> probe_backoff_for n \<and> probe_backoff_for n \<le> secs 7200"
  by (cases n rule: probe_backoff_for_cases) (simp_all add: probe_backoff_for_simps secs_def)

section \<open>Properties\<close>

text \<open>
  One probe at a time: once a probe of an agent has been handed out, no later call hands out
  another one for it, whatever operations happen in between (registering it again
  included), until its probe is completed or the agent is cleared.
\<close>

theorem due_probes_exclusive:
  assumes "hm_wf s" and "a \<in> dp_agent_id ` set (fst (due_probes now s))"
    and "list_all (\<lambda>x. \<not> ends_probe a x) ops"
  shows "a \<notin> dp_agent_id ` set (fst (due_probes later (fold recovery_apply ops (snd (due_probes now s)))))"
proof -
  let ?s = "fold recovery_apply ops (snd (due_probes now s))"
  from assms(1,2) have "in_flight a (snd (due_probes now s))"
    by (auto simp: due_probes_agents due_probes_get in_flight_def)
  then have "in_flight a ?s" using assms(3) by (rule in_flight_run)
  moreover have "hm_wf ?s" using assms(1) by (simp add: recovery_wf recovery_wf_run)
  ultimately show ?thesis
    by (auto simp: due_probes_agents in_flight_def probe_due_def simp del: map_of_eq_Some_iff)
qed

lemma trim_a: "trim ''a'' = ''a''"
  by (simp add: trim_def trim_start_def trim_end_def strip_any.simps ws_seqs_def)

theorem due_probes_exclusive_witness:
  "let s = register ''a'' ''p'' ''quota'' recovery_new
   in ''a'' \<notin> dp_agent_id ` set (fst (due_probes 9 (fold recovery_apply [RecRegister ''a'' ''p'' ''quota'' None]
        (snd (due_probes 0 s)))))"
proof -
  let ?s = "register ''a'' ''p'' ''quota'' recovery_new"
  have "hm_wf ?s" by (simp add: register_def recovery_wf)
  moreover have "''a'' \<in> dp_agent_id ` set (fst (due_probes 0 ?s))"
    by (simp add: register_def register_with_expected_recovery_at_def trim_a recovery_new_def probe_due_def)
  ultimately show ?thesis
    unfolding Let_def by (rule due_probes_exclusive) simp
qed

text \<open>
  Backoff: after a probe that did not recover the agent, the next probe is due exactly when the
  backoff of the increased attempt count has elapsed; the waiting times never shrink from
  attempt to attempt and stay between five minutes and two hours.
\<close>

theorem complete_probe_backoff:
  assumes "hm_wf s" and "hm_get s a = Some e" and "result \<noteq> ProbeRecovered" and "result \<noteq> NoState"
  shows "(a \<in> dp_agent_id ` set (fst (due_probes later (complete_probe a now result s)))
            \<longleftrightarrow> probe_backoff_for (sat_add u32_max (re_attempt_count e) 1) \<le> later - now)
       \<and> (\<forall>n. probe_backoff_for n \<le> probe_backoff_for (n + 1)
              \<and> secs 300 \<le> probe_backoff_for n \<and> probe_backoff_for n \<le> secs 7200)"
proof
  have "hm_wf (complete_probe a now result s)" using assms(1) by (rule recovery_wf)
  with assms show "a \<in> dp_agent_id ` set (fst (due_probes later (complete_probe a now result s)))
            \<longleftrightarrow> probe_backoff_for (sat_add u32_max (re_attempt_count e) 1) \<le> later - now"
    by (auto simp: due_probes_agents complete_probe_def Let_def probe_due_def not_less)
  show "\<forall>n. probe_backoff_for n \<le> probe_backoff_for (n + 1)
              \<and> secs 300 \<le> probe_backoff_for n \<and> probe_backoff_for n \<le> secs 7200"
    by (simp add: probe_backoff_for_mono probe_backoff_for_bounds)
qed

theorem complete_probe_backoff_witness:
  "''a'' \<notin> dp_agent_id ` set (fst (due_probes (secs 599) (complete_probe ''a'' 0 StillLimited
      (register ''a'' ''p'' ''quota'' recovery_new))))"
proof -
  let ?s = "register ''a'' ''p'' ''quota'' recovery_new"
  have "hm_wf ?s" by (simp add: register_def recovery_wf)
  moreover have "hm_get ?s ''a'' = Some \<lparr>re_provider = ''p'', re_stop_reason = ''quota'',
      re_attempt_count = 0, re_expected_recovery_at = None, re_last_probe_at = None, re_probe_in_flight = False\<rparr>"
    by (simp add: register_def register_with_expected_recovery_at_def trim_a recovery_new_def)
  moreover have "probe_backoff_for (sat_add u32_max 0 1) = secs 600"
    by (simp add: sat_add_def u32_max_def probe_backoff_for_simps)
  ultimately show ?thesis
    using complete_probe_backoff [of ?s "''a''" _ StillLimited "secs 599" 0] by (simp add: secs_def)
qed

end
