(* ===== verification/StoreTypes.thy ===== *)
theory StoreTypes
  imports Prelude "HOL-Library.Product_Lexorder"
begin

text \<open>
  The data of the SQLite store (\<open>crates/cocli-store/src/lib.rs\<close>): its enums with their persisted
  spelling, its rows, and the tables a database holds. A table is the list of its rows; a
  statement that violates a constraint of the schema is the error \<open>Sqlx\<close>, and a transaction that
  ends in an error leaves the database as it was. Identifiers (\<open>Uuid::new_v4\<close>) and times
  (\<open>Utc::now\<close>) are arguments. Time stamps are compared as instants: their RFC 3339 texts order the
  same way.
\<close>

section \<open>Errors\<close>

datatype store_error =
    Sqlx string
  | InvalidValue string string
  | DeliveryNotInFlight uuid
  | TaskNotFound int
  | TaskAlreadyClaimed int
  | TaskUnmetDependencies int
  | InvalidTaskTransition string string
  | TaskDependencySelf
  | TaskDependencyCycle
  | MemoryVersionConflict string int int
  | MemoryTopicNotFound string
  | InvalidMemoryType string
  | InvalidMemoryTopic string
  | InvalidMemoryDescription string
  | MemoryTopicTooLarge nat nat
  | MemoryNamespaceFull int int
  | MemoryIndexFull nat nat
  | MemoryMoveSameNamespace
  | SkillGovernanceVersionConflict string uuid int int
  | SkillGovernanceTransitionConflict uuid string string
  | SkillGovernanceNotFound string uuid
  | SkillGovernanceLockHeld string string string timestamp
  | SkillGovernanceIdempotencyConflict string uuid
  | SkillGovernanceDeleteConflict string uuid string

section \<open>Enums and their spelling\<close>

datatype agent_lifecycle_status = LifeActive | LifePaused | LifeArchived

fun lifecycle_as_str :: "agent_lifecycle_status \<Rightarrow> string" where
  "lifecycle_as_str LifeActive = ''active''"
| "lifecycle_as_str LifePaused = ''paused''"
| "lifecycle_as_str LifeArchived = ''archived''"

definition lifecycle_parse :: "string \<Rightarrow> store_error + agent_lifecycle_status" where
  "lifecycle_parse v =
     (if v = ''active'' then Inr LifeActive
      else if v = ''paused'' then Inr LifePaused
      else if v = ''archived'' then Inr LifeArchived
      else Inl (InvalidValue ''agent lifecycle status'' v))"

datatype agent_status = AgRunning | AgStopped

fun agent_status_as_str :: "agent_status \<Rightarrow> string" where
  "agent_status_as_str AgRunning = ''running''"
| "agent_status_as_str AgStopped = ''stopped''"

definition agent_status_parse :: "string \<Rightarrow> store_error + agent_status" where
  "agent_status_parse v =
     (if v = ''running'' then Inr AgRunning
      else if v = ''stopped'' then Inr AgStopped
      else Inl (InvalidValue ''agent status'' v))"

datatype message_role = User | Assistant

fun role_as_str :: "message_role \<Rightarrow> string" where
  "role_as_str User = ''user''"
| "role_as_str Assistant = ''assistant''"

definition role_parse :: "string \<Rightarrow> store_error + message_role" where
  "role_parse v =
     (if v = ''user'' then Inr User
      else if v = ''assistant'' then Inr Assistant
      else Inl (InvalidValue ''message role'' v))"

datatype delivery_state = Pending | InFlight | Exhausted

fun delivery_state_as_str :: "delivery_state \<Rightarrow> string" where
  "delivery_state_as_str Pending = ''pending''"
| "delivery_state_as_str InFlight = ''in_flight''"
| "delivery_state_as_str Exhausted = ''exhausted''"

definition delivery_state_parse :: "string \<Rightarrow> store_error + delivery_state" where
  "delivery_state_parse v =
     (if v = ''pending'' then Inr Pending
      else if v = ''in_flight'' then Inr InFlight
      else if v = ''exhausted'' then Inr Exhausted
      else Inl (InvalidValue ''delivery state'' v))"

datatype task_status = Todo | InProgress | InReview | Done

fun task_status_as_str :: "task_status \<Rightarrow> string" where
  "task_status_as_str Todo = ''todo''"
| "task_status_as_str InProgress = ''in_progress''"
| "task_status_as_str InReview = ''in_review''"
| "task_status_as_str Done = ''done''"

definition task_status_parse :: "string \<Rightarrow> store_error + task_status" where
  "task_status_parse v =
     (if v = ''todo'' then Inr Todo
      else if v = ''in_progress'' then Inr InProgress
      else if v = ''in_review'' then Inr InReview
      else if v = ''done'' then Inr Done
      else Inl (InvalidValue ''task status'' v))"

interpretation lc: wire_codec lifecycle_as_str lifecycle_parse
proof
  show "lifecycle_parse (lifecycle_as_str x) = Inr x" for x
    by (cases x) (simp_all add: lifecycle_parse_def)
  show "s = lifecycle_as_str x" if "lifecycle_parse s = Inr x" for s x
    using that by (auto simp: lifecycle_parse_def split: if_splits)
qed

interpretation sc: wire_codec agent_status_as_str agent_status_parse
proof
  show "agent_status_parse (agent_status_as_str x) = Inr x" for x
    by (cases x) (simp_all add: agent_status_parse_def)
  show "s = agent_status_as_str x" if "agent_status_parse s = Inr x" for s x
    using that by (auto simp: agent_status_parse_def split: if_splits)
qed

interpretation rc: wire_codec role_as_str role_parse
proof
  show "role_parse (role_as_str x) = Inr x" for x
    by (cases x) (simp_all add: role_parse_def)
  show "s = role_as_str x" if "role_parse s = Inr x" for s x
    using that by (auto simp: role_parse_def split: if_splits)
qed

interpretation dc: wire_codec delivery_state_as_str delivery_state_parse
proof
  show "delivery_state_parse (delivery_state_as_str x) = Inr x" for x
    by (cases x) (simp_all add: delivery_state_parse_def)
  show "s = delivery_state_as_str x" if "delivery_state_parse s = Inr x" for s x
    using that by (auto simp: delivery_state_parse_def split: if_splits)
qed

interpretation tc: wire_codec task_status_as_str task_status_parse
proof
  show "task_status_parse (task_status_as_str x) = Inr x" for x
    by (cases x) (simp_all add: task_status_parse_def)
  show "s = task_status_as_str x" if "task_status_parse s = Inr x" for s x
    using that by (auto simp: task_status_parse_def split: if_splits)
qed

section \<open>Rows\<close>

record channel =
  ch_id :: uuid
  ch_name :: string
  ch_description :: "string option"
  ch_goal :: "string option"
  ch_kind :: string
  ch_is_system :: bool
  ch_direct_agent_id :: "uuid option"
  ch_created_by_agent_id :: "uuid option"
  ch_created_by_channel_id :: "uuid option"
  ch_created_at :: timestamp

record agent =
  ag_id :: uuid
  ag_channel_id :: uuid
  ag_name :: string
  ag_description :: "string option"
  ag_instructions :: "string option"
  ag_runtime :: string
  ag_model :: "string option"
  ag_status :: agent_status
  ag_lifecycle_status :: agent_lifecycle_status
  ag_created_by_agent_id :: "uuid option"
  ag_created_by_channel_id :: "uuid option"
  ag_created_at :: timestamp

record channel_agent =
  ca_channel_id :: uuid
  ca_agent_id :: uuid
  ca_role :: "string option"
  ca_delivery_policy :: string
  ca_joined_at :: timestamp
  ca_created_by_agent_id :: "uuid option"
  ca_created_by_channel_id :: "uuid option"

record message =
  me_id :: uuid
  me_channel_id :: uuid
  me_seq :: int
  me_agent_id :: "uuid option"
  me_role :: message_role
  me_content :: string
  me_created_at :: timestamp

record delivery =
  dl_id :: uuid
  dl_agent_id :: uuid
  dl_channel_id :: uuid
  dl_message_id :: uuid
  dl_seq :: int
  dl_state :: delivery_state
  dl_attempts :: int
  dl_next_attempt_at :: timestamp
  dl_last_error :: "string option"
  dl_created_at :: timestamp
  dl_updated_at :: timestamp

record delivery_stats =
  ds_pending :: int
  ds_in_flight :: int
  ds_exhausted :: int
  ds_ready :: int
  ds_max_attempts :: int

record working_state =
  wk_agent_id :: uuid
  wk_summary :: string
  wk_channel_name :: "string option"
  wk_task_number :: "int option"
  wk_next_step_hint :: "string option"
  wk_started_at :: timestamp
  wk_updated_at :: timestamp

text \<open>A row of \<open>tasks\<close>; the assignee's name of a \<open>Task\<close> is joined in when it is read.\<close>

record task_row =
  tk_id :: uuid
  tk_channel_id :: uuid
  tk_message_id :: "uuid option"
  tk_task_number :: int
  tk_title :: string
  tk_status :: task_status
  tk_progress :: "string option"
  tk_assignee_id :: "uuid option"
  tk_created_by_agent_id :: "uuid option"
  tk_created_at :: timestamp
  tk_updated_at :: timestamp

record task =
  ta_id :: uuid
  ta_channel_id :: uuid
  ta_message_id :: "uuid option"
  ta_task_number :: int
  ta_title :: string
  ta_status :: task_status
  ta_progress :: "string option"
  ta_assignee_id :: "uuid option"
  ta_assignee_type :: "string option"
  ta_assignee_name :: "string option"
  ta_created_by_id :: "uuid option"
  ta_created_by_type :: "string option"
  ta_created_at :: timestamp
  ta_updated_at :: timestamp

record task_dependency =
  td_channel_id :: uuid
  td_task_number :: int
  td_depends_on :: int
  td_created_at :: timestamp

record db =
  db_channels :: "channel list"
  db_agents :: "agent list"
  db_members :: "channel_agent list"
  db_messages :: "message list"
  db_deliveries :: "delivery list"
  db_inbox :: "(uuid, int \<times> timestamp) hmap"
  db_working :: "working_state list"
  db_tasks :: "task_row list"
  db_deps :: "task_dependency list"

definition db_empty :: db where
  "db_empty = \<lparr>db_channels = [], db_agents = [], db_members = [], db_messages = [], db_deliveries = [],
     db_inbox = [], db_working = [], db_tasks = [], db_deps = []\<rparr>"

type_synonym 'a tx = "store_error + ('a \<times> db)"

section \<open>SQL helpers\<close>

text \<open>\<open>COALESCE(MAX(e), 0)\<close> over the rows of a table.\<close>

fun sql_max :: "int list \<Rightarrow> int option" where
  "sql_max [] = None"
| "sql_max (x # xs) = (case sql_max xs of None \<Rightarrow> Some x | Some y \<Rightarrow> Some (max x y))"

definition max_or_zero :: "int list \<Rightarrow> int" where
  "max_or_zero xs = (case sql_max xs of None \<Rightarrow> 0 | Some y \<Rightarrow> y)"

text \<open>\<open>x.clamp(1, 200)\<close>.\<close>

definition clamp_limit :: "int \<Rightarrow> nat" where
  "clamp_limit limit = nat (max 1 (min 200 limit))"

lemma sql_max_None [simp]: "sql_max xs = None \<longleftrightarrow> xs = []"
  by (cases xs) (auto split: option.splits)

lemma sql_max_upper: "x \<in> set xs \<Longrightarrow> x \<le> max_or_zero xs"
proof (induction xs)
  case (Cons a xs)
  then show ?case by (cases "sql_max xs") (auto simp: max_or_zero_def)
qed simp

lemma sql_max_mem: "xs \<noteq> [] \<Longrightarrow> max_or_zero xs \<in> set xs"
proof (induction xs)
  case (Cons a xs)
  show ?case
  proof (cases "sql_max xs")
    case None
    then show ?thesis by (simp add: max_or_zero_def)
  next
    case (Some y)
    then have "xs \<noteq> []" by auto
    with Cons.IH Some show ?thesis by (auto simp: max_or_zero_def max_def)
  qed
qed simp

lemma max_or_zero_Nil [simp]: "max_or_zero [] = 0"
  by (simp add: max_or_zero_def)

lemma clamp_limit_bounds: "1 \<le> clamp_limit l \<and> clamp_limit l \<le> 200"
  by (auto simp: clamp_limit_def)

section \<open>Properties\<close>

text \<open>
  Persisted spellings: every enum value of the store is read back from its own spelling, and
  from no other string (any other is refused as invalid).
\<close>

theorem persisted_enums_round_trip:
  "(lifecycle_parse s = Inr l \<longleftrightarrow> s = lifecycle_as_str l)
 \<and> (agent_status_parse s = Inr a \<longleftrightarrow> s = agent_status_as_str a)
 \<and> (role_parse s = Inr r \<longleftrightarrow> s = role_as_str r)
 \<and> (delivery_state_parse s = Inr d \<longleftrightarrow> s = delivery_state_as_str d)
 \<and> (task_status_parse s = Inr t \<longleftrightarrow> s = task_status_as_str t)"
  by (simp add: lc.parse_iff sc.parse_iff rc.parse_iff dc.parse_iff tc.parse_iff)

end
