(* ===== verification/StoreDelivery.thy ===== *)
theory StoreDelivery
  imports StoreTypes
begin

text \<open>
  Messages, the durable delivery queue, the agent inbox and the working state of the store
  (\<open>crates/cocli-store/src/lib.rs\<close>). Every function is one method of \<open>Store\<close>; a method that only
  reads returns its rows, one that writes returns the new database as well. The arguments \<open>new_id\<close>
  and \<open>now\<close> stand for the \<open>Uuid::new_v4()\<close> and \<open>Utc::now()\<close> the method calls; a method that draws
  several identifiers takes the sequence of them. Sequence numbers and attempt counters are
  unbounded where SQLite computes them, and \<open>i64\<close> where Rust does. \<open>uuid_text\<close> is the text of an
  identifier.
\<close>

section \<open>SQL statements shared by the methods\<close>

definition constraint :: store_error where
  "constraint = Sqlx ''constraint failed''"

abbreviation channel_ids :: "db \<Rightarrow> uuid set" where
  "channel_ids s \<equiv> ch_id ` set (db_channels s)"

abbreviation agent_ids :: "db \<Rightarrow> uuid set" where
  "agent_ids s \<equiv> ag_id ` set (db_agents s)"

abbreviation message_ids :: "db \<Rightarrow> uuid set" where
  "message_ids s \<equiv> me_id ` set (db_messages s)"

definition opt_ref :: "uuid option \<Rightarrow> uuid set \<Rightarrow> bool" where
  "opt_ref r ids = (case r of None \<Rightarrow> True | Some x \<Rightarrow> x \<in> ids)"

definition update_rows :: "('a \<Rightarrow> bool) \<Rightarrow> ('a \<Rightarrow> 'a) \<Rightarrow> 'a list \<Rightarrow> 'a list" where
  "update_rows p f rows = map (\<lambda>r. if p r then f r else r) rows"

definition affected :: "('a \<Rightarrow> bool) \<Rightarrow> 'a list \<Rightarrow> nat" where
  "affected p rows = length (filter p rows)"

section \<open>Messages\<close>

definition next_seq :: "uuid \<Rightarrow> db \<Rightarrow> int" where
  "next_seq ch s = max_or_zero (map me_seq (filter (\<lambda>m. me_channel_id m = ch) (db_messages s))) + 1"

definition insert_message ::
  "uuid \<Rightarrow> uuid \<Rightarrow> uuid option \<Rightarrow> message_role \<Rightarrow> string \<Rightarrow> timestamp \<Rightarrow> db \<Rightarrow> message tx" where
  "insert_message new_id ch ag role content now s =
     (let m = \<lparr>me_id = new_id, me_channel_id = ch, me_seq = next_seq ch s, me_agent_id = ag,
               me_role = role, me_content = content, me_created_at = now\<rparr>
      in if new_id \<in> message_ids s \<or> (ch, next_seq ch s) \<in> (\<lambda>m. (me_channel_id m, me_seq m)) ` set (db_messages s)
            \<or> ch \<notin> channel_ids s \<or> \<not> opt_ref ag (agent_ids s)
         then Inl constraint
         else Inr (m, s\<lparr>db_messages := db_messages s @ [m]\<rparr>))"

definition append_message ::
  "uuid \<Rightarrow> timestamp \<Rightarrow> uuid \<Rightarrow> uuid option \<Rightarrow> message_role \<Rightarrow> string \<Rightarrow> db \<Rightarrow> message tx" where
  "append_message new_id now ch ag role content s = insert_message new_id ch ag role content now s"

definition subscribed_agents :: "uuid \<Rightarrow> db \<Rightarrow> uuid list" where
  "subscribed_agents ch s =
     map (\<lambda>(c, a). ag_id a)
       (sort_key (\<lambda>(c, a). (ca_joined_at c, ag_id a))
         (filter (\<lambda>(c, a). ca_agent_id c = ag_id a \<and> ca_channel_id c = ch \<and> ag_status a = AgRunning
                    \<and> ag_lifecycle_status a = LifeActive \<and> ca_delivery_policy c = ''subscribed'')
           (List.product (db_members s) (db_agents s))))"

definition new_delivery :: "uuid \<Rightarrow> uuid \<Rightarrow> message \<Rightarrow> timestamp \<Rightarrow> delivery" where
  "new_delivery new_id ag m now =
     \<lparr>dl_id = new_id, dl_agent_id = ag, dl_channel_id = me_channel_id m, dl_message_id = me_id m,
      dl_seq = me_seq m, dl_state = Pending, dl_attempts = 0, dl_next_attempt_at = now,
      dl_last_error = None, dl_created_at = now, dl_updated_at = now\<rparr>"

definition delivery_conflict :: "delivery \<Rightarrow> db \<Rightarrow> bool" where
  "delivery_conflict d s \<longleftrightarrow>
     (\<exists>d' \<in> set (db_deliveries s). dl_id d' = dl_id d \<or> dl_agent_id d' = dl_agent_id d \<and> dl_message_id d' = dl_message_id d)"

definition delivery_refs :: "delivery \<Rightarrow> db \<Rightarrow> bool" where
  "delivery_refs d s \<longleftrightarrow> dl_agent_id d \<in> agent_ids s \<and> dl_channel_id d \<in> channel_ids s \<and> dl_message_id d \<in> message_ids s"

fun insert_deliveries :: "uuid list \<Rightarrow> message \<Rightarrow> timestamp \<Rightarrow> uuid list \<Rightarrow> db \<Rightarrow> store_error + db" where
  "insert_deliveries (i # is) m now (a # as) s =
     (let d = new_delivery i a m now
      in if delivery_conflict d s \<or> \<not> delivery_refs d s then Inl constraint
         else insert_deliveries is m now as (s\<lparr>db_deliveries := db_deliveries s @ [d]\<rparr>))"
| "insert_deliveries _ _ _ _ s = Inr s"

definition append_user_message_with_deliveries ::
  "uuid \<Rightarrow> (nat \<Rightarrow> uuid) \<Rightarrow> timestamp \<Rightarrow> uuid \<Rightarrow> string \<Rightarrow> db \<Rightarrow> message tx" where
  "append_user_message_with_deliveries new_id new_ids now ch content s =
     (case insert_message new_id ch None User content now s of
        Inl e \<Rightarrow> Inl e
      | Inr (m, s1) \<Rightarrow>
          (let as = subscribed_agents ch s1
           in case insert_deliveries (map new_ids [0..<length as]) m now as s1 of
                Inl e \<Rightarrow> Inl e
              | Inr s2 \<Rightarrow> Inr (m, s2)))"

definition list_messages :: "uuid \<Rightarrow> db \<Rightarrow> message list" where
  "list_messages ch s = sort_key me_seq (filter (\<lambda>m. me_channel_id m = ch) (db_messages s))"

definition in_window :: "int option \<Rightarrow> int option \<Rightarrow> int \<Rightarrow> bool" where
  "in_window before after n \<longleftrightarrow>
     (case before of None \<Rightarrow> True | Some b \<Rightarrow> n < b) \<and> (case after of None \<Rightarrow> True | Some a \<Rightarrow> n > a)"

definition list_message_page :: "uuid \<Rightarrow> int \<Rightarrow> int option \<Rightarrow> int option \<Rightarrow> db \<Rightarrow> message list" where
  "list_message_page ch limit before after s =
     rev (take (clamp_limit limit)
       (sort_key (\<lambda>m. - me_seq m)
         (filter (\<lambda>m. me_channel_id m = ch \<and> in_window before after (me_seq m)) (db_messages s))))"

definition get_message :: "uuid \<Rightarrow> db \<Rightarrow> message option" where
  "get_message i s = find (\<lambda>m. me_id m = i) (db_messages s)"

section \<open>Inbox\<close>

definition default_channel_for_agent :: "uuid \<Rightarrow> db \<Rightarrow> uuid option" where
  "default_channel_for_agent ag s =
     (case find (\<lambda>a. ag_id a = ag) (db_agents s) of
        Some a \<Rightarrow> Some (ag_channel_id a)
      | None \<Rightarrow>
          (case sort_key (\<lambda>c. (ca_joined_at c, ca_channel_id c))
                  (filter (\<lambda>c. ca_agent_id c = ag) (db_members s)) of
             [] \<Rightarrow> None
           | c # _ \<Rightarrow> Some (ca_channel_id c)))"

definition upsert_inbox_cursor :: "uuid \<Rightarrow> int \<Rightarrow> timestamp \<Rightarrow> db \<Rightarrow> store_error + db" where
  "upsert_inbox_cursor ag n now s =
     (case hm_get (db_inbox s) ag of
        Some (old, _) \<Rightarrow> Inr (s\<lparr>db_inbox := hm_insert ag (max old n, now) (db_inbox s)\<rparr>)
      | None \<Rightarrow>
          (if ag \<notin> agent_ids s then Inl constraint
           else Inr (s\<lparr>db_inbox := hm_insert ag (n, now) (db_inbox s)\<rparr>)))"

definition inbox_cursor :: "uuid \<Rightarrow> db \<Rightarrow> int" where
  "inbox_cursor ag s = (case hm_get (db_inbox s) ag of None \<Rightarrow> 0 | Some (n, _) \<Rightarrow> n)"

definition unread :: "uuid \<Rightarrow> uuid \<Rightarrow> int \<Rightarrow> db \<Rightarrow> message list" where
  "unread ag ch cursor s =
     sort_key me_seq (filter (\<lambda>m. me_channel_id m = ch \<and> me_seq m > cursor \<and> me_agent_id m \<noteq> Some ag) (db_messages s))"

definition consume_agent_inbox :: "timestamp \<Rightarrow> uuid \<Rightarrow> int \<Rightarrow> db \<Rightarrow> message list tx" where
  "consume_agent_inbox now ag limit s =
     (case default_channel_for_agent ag s of
        None \<Rightarrow> Inr ([], s)
      | Some ch \<Rightarrow>
          (let ms = take (clamp_limit limit) (unread ag ch (inbox_cursor ag s) s)
           in if ms = [] then Inr ([], s)
              else (case upsert_inbox_cursor ag (me_seq (last ms)) now s of
                      Inl e \<Rightarrow> Inl e
                    | Inr s' \<Rightarrow> Inr (ms, s'))))"

section \<open>Working state\<close>

definition get_working_state :: "uuid \<Rightarrow> db \<Rightarrow> working_state option" where
  "get_working_state ag s = find (\<lambda>w. wk_agent_id w = ag) (db_working s)"

definition set_working_state ::
  "(uuid \<Rightarrow> string) \<Rightarrow> timestamp \<Rightarrow> uuid \<Rightarrow> string \<Rightarrow> string option \<Rightarrow> int option \<Rightarrow> string option \<Rightarrow> db \<Rightarrow> working_state tx" where
  "set_working_state uuid_text now ag summary channel_name task_number hint s =
     (if ag \<in> wk_agent_id ` set (db_working s)
      then let s' = s\<lparr>db_working := update_rows (\<lambda>w. wk_agent_id w = ag)
                 (\<lambda>w. w\<lparr>wk_summary := summary, wk_channel_name := channel_name, wk_task_number := task_number,
                        wk_next_step_hint := hint, wk_updated_at := now\<rparr>) (db_working s)\<rparr>
           in (case get_working_state ag s' of
                 None \<Rightarrow> Inl (InvalidValue ''working state'' (uuid_text ag))
               | Some w \<Rightarrow> Inr (w, s'))
      else if ag \<notin> agent_ids s then Inl constraint
      else let s' = s\<lparr>db_working := db_working s @
                 [\<lparr>wk_agent_id = ag, wk_summary = summary, wk_channel_name = channel_name,
                   wk_task_number = task_number, wk_next_step_hint = hint, wk_started_at = now,
                   wk_updated_at = now\<rparr>]\<rparr>
           in (case get_working_state ag s' of
                 None \<Rightarrow> Inl (InvalidValue ''working state'' (uuid_text ag))
               | Some w \<Rightarrow> Inr (w, s')))"

definition clear_working_state :: "uuid \<Rightarrow> db \<Rightarrow> bool \<times> db" where
  "clear_working_state ag s =
     (0 < affected (\<lambda>w. wk_agent_id w = ag) (db_working s),
      s\<lparr>db_working := filter (\<lambda>w. wk_agent_id w \<noteq> ag) (db_working s)\<rparr>)"

section \<open>The durable delivery queue\<close>

definition get_delivery :: "uuid \<Rightarrow> db \<Rightarrow> delivery option" where
  "get_delivery i s = find (\<lambda>d. dl_id d = i) (db_deliveries s)"

definition list_message_deliveries :: "uuid \<Rightarrow> db \<Rightarrow> delivery list" where
  "list_message_deliveries i s =
     sort_key (\<lambda>d. (dl_created_at d, dl_agent_id d)) (filter (\<lambda>d. dl_message_id d = i) (db_deliveries s))"

fun insert_or_ignore :: "uuid list \<Rightarrow> message \<Rightarrow> timestamp \<Rightarrow> uuid list \<Rightarrow> db \<Rightarrow> store_error + db" where
  "insert_or_ignore (i # is) m now (a # as) s =
     (let d = new_delivery i a m now
      in if delivery_conflict d s then insert_or_ignore is m now as s
         else if \<not> delivery_refs d s then Inl constraint
         else insert_or_ignore is m now as (s\<lparr>db_deliveries := db_deliveries s @ [d]\<rparr>))"
| "insert_or_ignore _ _ _ _ s = Inr s"

definition enqueue_deliveries ::
  "(nat \<Rightarrow> uuid) \<Rightarrow> timestamp \<Rightarrow> message \<Rightarrow> uuid list \<Rightarrow> db \<Rightarrow> delivery list tx" where
  "enqueue_deliveries new_ids now m as s =
     (case insert_or_ignore (map new_ids [0..<length as]) m now as s of
        Inl e \<Rightarrow> Inl e
      | Inr s' \<Rightarrow> Inr (list_message_deliveries (me_id m) s', s'))"

definition agent_running :: "uuid \<Rightarrow> db \<Rightarrow> bool" where
  "agent_running ag s \<longleftrightarrow> (\<exists>a \<in> set (db_agents s). ag_id a = ag \<and> ag_status a = AgRunning)"

definition due :: "int \<Rightarrow> timestamp \<Rightarrow> db \<Rightarrow> delivery \<Rightarrow> bool" where
  "due max_attempts now s d \<longleftrightarrow>
     dl_state d = Pending \<and> dl_next_attempt_at d \<le> now \<and> dl_attempts d < max_attempts
     \<and> agent_running (dl_agent_id d) s"

definition due_key :: "delivery \<Rightarrow> timestamp \<times> timestamp \<times> uuid" where
  "due_key d = (dl_next_attempt_at d, dl_created_at d, dl_id d)"

definition take_flight :: "timestamp \<Rightarrow> delivery \<Rightarrow> delivery" where
  "take_flight now d = d\<lparr>dl_state := InFlight, dl_attempts := dl_attempts d + 1, dl_last_error := None, dl_updated_at := now\<rparr>"

definition reserved_copy :: "timestamp \<Rightarrow> delivery \<Rightarrow> delivery" where
  "reserved_copy now d =
     d\<lparr>dl_state := InFlight, dl_attempts := min i64_max (dl_attempts d + 1), dl_last_error := None, dl_updated_at := now\<rparr>"

fun reserve_loop :: "timestamp \<Rightarrow> delivery list \<Rightarrow> db \<Rightarrow> delivery list \<times> db" where
  "reserve_loop now [] s = ([], s)"
| "reserve_loop now (d # ds) s =
     (let p = (\<lambda>r. dl_id r = dl_id d \<and> dl_state r = Pending);
          n = affected p (db_deliveries s);
          (rest, s') = reserve_loop now ds
             (s\<lparr>db_deliveries := update_rows p (take_flight now) (db_deliveries s)\<rparr>)
      in (if n = 1 then reserved_copy now d # rest else rest, s'))"

definition reserve_due_deliveries :: "int \<Rightarrow> int \<Rightarrow> timestamp \<Rightarrow> db \<Rightarrow> delivery list \<times> db" where
  "reserve_due_deliveries limit max_attempts now s =
     reserve_loop now
       (take (nat (max limit 1)) (sort_key due_key (filter (due (max max_attempts 1) now s) (db_deliveries s)))) s"

definition reserve_delivery :: "uuid \<Rightarrow> int \<Rightarrow> timestamp \<Rightarrow> db \<Rightarrow> delivery option \<times> db" where
  "reserve_delivery i max_attempts now s =
     (let p = (\<lambda>r. dl_id r = i \<and> due (max max_attempts 1) now s r);
          s' = s\<lparr>db_deliveries := update_rows p (take_flight now) (db_deliveries s)\<rparr>
      in (if affected p (db_deliveries s) \<noteq> 1 then None else get_delivery i s', s'))"

definition nudge_agent_deliveries :: "timestamp \<Rightarrow> uuid \<Rightarrow> db \<Rightarrow> nat \<times> db" where
  "nudge_agent_deliveries now ag s =
     (let p = (\<lambda>d. dl_agent_id d = ag \<and> dl_state d = Pending)
      in (affected p (db_deliveries s),
          s\<lparr>db_deliveries := update_rows p (\<lambda>d. d\<lparr>dl_next_attempt_at := now, dl_updated_at := now\<rparr>) (db_deliveries s)\<rparr>))"

definition defer_delivery :: "timestamp \<Rightarrow> uuid \<Rightarrow> string \<Rightarrow> timestamp \<Rightarrow> int \<Rightarrow> db \<Rightarrow> delivery option \<times> db" where
  "defer_delivery now i error next_attempt_at max_attempts s =
     (let p = (\<lambda>d. dl_id d = i \<and> dl_state d = InFlight);
          f = (\<lambda>d. d\<lparr>dl_state := (if dl_attempts d \<ge> max max_attempts 1 then Exhausted else Pending),
                     dl_next_attempt_at := next_attempt_at, dl_last_error := Some error, dl_updated_at := now\<rparr>);
          s' = s\<lparr>db_deliveries := update_rows p f (db_deliveries s)\<rparr>
      in (get_delivery i s', s'))"

definition release_in_flight_deliveries :: "timestamp \<Rightarrow> db \<Rightarrow> nat \<times> db" where
  "release_in_flight_deliveries now s =
     (let p = (\<lambda>d. dl_state d = InFlight)
      in (affected p (db_deliveries s),
          s\<lparr>db_deliveries := update_rows p
              (\<lambda>d. d\<lparr>dl_state := Pending, dl_next_attempt_at := now, dl_updated_at := now\<rparr>) (db_deliveries s)\<rparr>))"

definition complete_delivery ::
  "uuid \<Rightarrow> timestamp \<Rightarrow> timestamp \<Rightarrow> delivery \<Rightarrow> string \<Rightarrow> db \<Rightarrow> message tx" where
  "complete_delivery new_id now1 now2 d content s =
     (let p = (\<lambda>r. dl_id r = dl_id d \<and> dl_state r = InFlight);
          s1 = s\<lparr>db_deliveries := filter (\<lambda>r. \<not> p r) (db_deliveries s)\<rparr>
      in if affected p (db_deliveries s) \<noteq> 1 then Inl (DeliveryNotInFlight (dl_id d))
         else (case upsert_inbox_cursor (dl_agent_id d) (dl_seq d) now1 s1 of
                 Inl e \<Rightarrow> Inl e
               | Inr s2 \<Rightarrow> insert_message new_id (dl_channel_id d) (Some (dl_agent_id d)) Assistant content now2 s2))"

definition count_int :: "('a \<Rightarrow> bool) \<Rightarrow> 'a list \<Rightarrow> int" where
  "count_int p rows = int (affected p rows)"

definition delivery_stats_of :: "timestamp \<Rightarrow> db \<Rightarrow> delivery_stats" where
  "delivery_stats_of now s =
     \<lparr>ds_pending = count_int (\<lambda>d. dl_state d = Pending) (db_deliveries s),
      ds_in_flight = count_int (\<lambda>d. dl_state d = InFlight) (db_deliveries s),
      ds_exhausted = count_int (\<lambda>d. dl_state d = Exhausted) (db_deliveries s),
      ds_ready = count_int (\<lambda>d. dl_state d = Pending \<and> dl_next_attempt_at d \<le> now) (db_deliveries s),
      ds_max_attempts = max_or_zero (map dl_attempts (db_deliveries s))\<rparr>"

section \<open>What the schema and the methods keep\<close>

definition msgs_ok :: "db \<Rightarrow> bool" where
  "msgs_ok s \<longleftrightarrow> distinct (map me_id (db_messages s))
     \<and> distinct (map (\<lambda>m. (me_channel_id m, me_seq m)) (db_messages s))
     \<and> (\<forall>m \<in> set (db_messages s). 1 \<le> me_seq m \<and> me_channel_id m \<in> channel_ids s \<and> opt_ref (me_agent_id m) (agent_ids s))"

definition of_message :: "delivery \<Rightarrow> db \<Rightarrow> bool" where
  "of_message d s \<longleftrightarrow> (\<exists>m \<in> set (db_messages s). me_id m = dl_message_id d \<and> me_channel_id m = dl_channel_id d \<and> me_seq m = dl_seq d)"

definition budget_ok :: "int \<Rightarrow> delivery \<Rightarrow> bool" where
  "budget_ok k d \<longleftrightarrow> 0 \<le> dl_attempts d \<and> dl_attempts d \<le> k
     \<and> (dl_state d = InFlight \<or> dl_state d = Exhausted \<longrightarrow> 1 \<le> dl_attempts d)"

definition dels_ok :: "int \<Rightarrow> db \<Rightarrow> bool" where
  "dels_ok k s \<longleftrightarrow> distinct (map dl_id (db_deliveries s))
     \<and> distinct (map (\<lambda>d. (dl_agent_id d, dl_message_id d)) (db_deliveries s))
     \<and> (\<forall>d \<in> set (db_deliveries s). dl_agent_id d \<in> agent_ids s \<and> of_message d s \<and> budget_ok k d)"

definition inbox_ok :: "db \<Rightarrow> bool" where
  "inbox_ok s \<longleftrightarrow> hm_wf (db_inbox s) \<and> fst ` set (db_inbox s) \<subseteq> agent_ids s"

definition working_ok :: "db \<Rightarrow> bool" where
  "working_ok s \<longleftrightarrow> distinct (map wk_agent_id (db_working s)) \<and> wk_agent_id ` set (db_working s) \<subseteq> agent_ids s"

named_theorems store_ok_defs \<open>the parts of the store invariant\<close>

lemmas [store_ok_defs] = msgs_ok_def dels_ok_def inbox_ok_def working_ok_def

subsection \<open>Statements\<close>

lemma update_rows_length [simp]: "length (update_rows p f rows) = length rows"
  by (simp add: update_rows_def)

lemma map_update_rows: "(\<And>r. g (f r) = g r) \<Longrightarrow> map g (update_rows p f rows) = map g rows"
  by (simp add: update_rows_def)

lemma set_update_rows:
  "set (update_rows p f rows) = {r \<in> set rows. \<not> p r} \<union> f ` {r \<in> set rows. p r}"
  by (auto simp: update_rows_def)

lemma affected_key:
  assumes "distinct (map g rows)" "r \<in> set rows" "p r" "\<And>x. p x \<Longrightarrow> g x = g r"
  shows "affected p rows = 1"
proof -
  have "filter p rows = [r]"
    using assms
  proof (induction rows)
    case (Cons x rows)
    show ?case
    proof (cases "x = r")
      case True
      have "\<not> p y" if "y \<in> set rows" for y
      proof
        assume "p y"
        then have "g y = g r" by (rule Cons.prems(4))
        with that \<open>x = r\<close> Cons.prems(1) show False by (simp add: image_iff) metis
      qed
      with True Cons.prems(3) show ?thesis by (simp add: filter_empty_conv)
    next
      case False
      with Cons.prems have "r \<in> set rows" by simp
      with Cons.prems(1) have "g x \<noteq> g r" by auto
      with Cons.prems(4) have "\<not> p x" by blast
      moreover have "filter p rows = [r]"
        using Cons.prems(1) by (intro Cons.IH \<open>r \<in> set rows\<close> Cons.prems(3,4)) simp_all
      ultimately show ?thesis by simp
    qed
  qed simp
  then show ?thesis by (simp add: affected_def)
qed

lemma affected_zero: "affected p rows = 0 \<longleftrightarrow> (\<forall>r \<in> set rows. \<not> p r)"
  by (simp add: affected_def filter_empty_conv)

lemma find_key:
  assumes "distinct (map g rows)" "r \<in> set rows" "g r = k"
  shows "find (\<lambda>x. g x = k) rows = Some r"
  using assms by (induction rows) auto

lemma key_iff:
  "distinct (map k rows) \<Longrightarrow> c \<in> set rows \<Longrightarrow> r \<in> set rows \<Longrightarrow> k r = k c \<longleftrightarrow> r = c"
  by (auto simp: distinct_map dest: inj_onD)

lemma find_snoc_key: "k \<notin> g ` set rows \<Longrightarrow> g r = k \<Longrightarrow> find (\<lambda>x. g x = k) (rows @ [r]) = Some r"
  by (induction rows) auto

lemma find_Some_set: "find p rows = Some r \<Longrightarrow> r \<in> set rows \<and> p r"
  by (auto simp: find_Some_iff)

lemma update_rows_find:
  assumes "\<And>r. g (f r) = g r" "\<And>r. p r \<Longrightarrow> g r = k"
  shows "find (\<lambda>x. g x = k) (update_rows p f rows) =
         map_option (\<lambda>r. if p r then f r else r) (find (\<lambda>x. g x = k) rows)"
  using assms by (induction rows) (auto simp: update_rows_def)

lemma opt_ref_simps [simp]: "opt_ref None ids" "opt_ref (Some x) ids \<longleftrightarrow> x \<in> ids"
  by (simp_all add: opt_ref_def)

subsection \<open>Inserting a message\<close>

lemma next_seq_above: "m \<in> set (db_messages s) \<Longrightarrow> me_channel_id m = ch \<Longrightarrow> me_seq m < next_seq ch s"
  unfolding next_seq_def by (simp add: zless_add1_eq order_le_less [symmetric] sql_max_upper)

lemma next_seq_pos: "msgs_ok s \<Longrightarrow> 1 \<le> next_seq ch s"
proof -
  assume ok: "msgs_ok s"
  let ?ms = "filter (\<lambda>m. me_channel_id m = ch) (db_messages s)"
  show ?thesis
  proof (cases "?ms = []")
    case False
    then obtain m where "m \<in> set ?ms" by (cases ?ms) auto
    with ok next_seq_above [of m s ch] show ?thesis by (auto simp: msgs_ok_def)
  qed (simp add: next_seq_def)
qed

lemma insert_message_iff:
  "insert_message i ch ag role content now s =
     (let m = \<lparr>me_id = i, me_channel_id = ch, me_seq = next_seq ch s, me_agent_id = ag,
               me_role = role, me_content = content, me_created_at = now\<rparr>
      in if i \<notin> message_ids s \<and> ch \<in> channel_ids s \<and> opt_ref ag (agent_ids s)
         then Inr (m, s\<lparr>db_messages := db_messages s @ [m]\<rparr>) else Inl constraint)"
proof -
  have "(ch, next_seq ch s) \<notin> (\<lambda>m. (me_channel_id m, me_seq m)) ` set (db_messages s)"
    using next_seq_above [of _ s ch] by fastforce
  then show ?thesis by (simp add: insert_message_def Let_def)
qed

lemma insert_messageE:
  assumes "insert_message i ch ag role content now s = Inr (m, t)"
  obtains "i \<notin> message_ids s" "ch \<in> channel_ids s" "opt_ref ag (agent_ids s)"
    "m = \<lparr>me_id = i, me_channel_id = ch, me_seq = next_seq ch s, me_agent_id = ag,
          me_role = role, me_content = content, me_created_at = now\<rparr>"
    "t = s\<lparr>db_messages := db_messages s @ [m]\<rparr>"
  using assms by (auto simp: insert_message_iff Let_def split: if_splits)

lemma insert_message_msgs_ok:
  assumes "msgs_ok s" "insert_message i ch ag role content now s = Inr (m, t)"
  shows "msgs_ok t"
  using assms(2)
proof (rule insert_messageE)
  assume a: "i \<notin> message_ids s" "ch \<in> channel_ids s" "opt_ref ag (agent_ids s)"
    "m = \<lparr>me_id = i, me_channel_id = ch, me_seq = next_seq ch s, me_agent_id = ag,
          me_role = role, me_content = content, me_created_at = now\<rparr>"
    "t = s\<lparr>db_messages := db_messages s @ [m]\<rparr>"
  have "(ch, next_seq ch s) \<notin> (\<lambda>m. (me_channel_id m, me_seq m)) ` set (db_messages s)"
    using next_seq_above [of _ s ch] by fastforce
  with a assms(1) next_seq_pos [OF assms(1), of ch] show ?thesis
    by (auto simp: msgs_ok_def)
qed

lemma dels_ok_grow:
  "dels_ok k s \<Longrightarrow> dels_ok k (s\<lparr>db_messages := db_messages s @ ms\<rparr>)"
  by (auto simp: dels_ok_def of_message_def)

lemma insert_message_dels_ok:
  "dels_ok k s \<Longrightarrow> insert_message i ch ag role content now s = Inr (m, t) \<Longrightarrow> dels_ok k t"
  by (auto elim!: insert_messageE intro: dels_ok_grow)

lemma insort_key_snoc: "f y \<le> f x \<Longrightarrow> insort_key f y (zs @ [x]) = insort_key f y zs @ [x]"
  by (induction zs) auto

lemma sort_key_append_max:
  "(\<And>y. y \<in> set xs \<Longrightarrow> f y \<le> f x) \<Longrightarrow> sort_key f (xs @ [x]) = sort_key f xs @ [x]"
  by (induction xs) (auto simp: insort_key_snoc)

lemma list_messages_insert:
  assumes "insert_message i ch ag role content now s = Inr (m, t)"
  shows "list_messages ch' t = (if ch' = ch then list_messages ch s @ [m] else list_messages ch' s)"
  using assms
proof (rule insert_messageE)
  assume a: "m = \<lparr>me_id = i, me_channel_id = ch, me_seq = next_seq ch s, me_agent_id = ag,
          me_role = role, me_content = content, me_created_at = now\<rparr>"
    "t = s\<lparr>db_messages := db_messages s @ [m]\<rparr>"
  then show ?thesis
    using next_seq_above [of _ s ch]
    by (auto simp: list_messages_def intro!: sort_key_append_max less_imp_le)
qed

subsection \<open>Fan-out\<close>

definition fresh_ids :: "uuid list \<Rightarrow> db \<Rightarrow> bool" where
  "fresh_ids is s \<longleftrightarrow> distinct is \<and> set is \<inter> dl_id ` set (db_deliveries s) = {}"

lemma insert_deliveries_Inr:
  "length is = length as \<Longrightarrow> insert_deliveries is m now as s = Inr t \<Longrightarrow>
   t = s\<lparr>db_deliveries := db_deliveries s @ map (\<lambda>(i, a). new_delivery i a m now) (zip is as)\<rparr>"
proof (induction "is" as arbitrary: s rule: list_induct2)
  case (Cons i "is" a as)
  then have "insert_deliveries is m now as (s\<lparr>db_deliveries := db_deliveries s @ [new_delivery i a m now]\<rparr>) = Inr t"
    by (auto simp: Let_def split: if_splits)
  from Cons.IH [OF this] show ?case by simp
qed simp

lemma insert_deliveries_ok:
  assumes "length is = length as" "fresh_ids is s" "distinct as" "set as \<subseteq> agent_ids s"
    "me_channel_id m \<in> channel_ids s" "me_id m \<in> message_ids s"
    "\<forall>d \<in> set (db_deliveries s). dl_message_id d = me_id m \<longrightarrow> dl_agent_id d \<notin> set as"
  shows "\<exists>t. insert_deliveries is m now as s = Inr t"
  using assms
proof (induction "is" as arbitrary: s rule: list_induct2)
  case (Cons i "is" a as)
  let ?d = "new_delivery i a m now"
  have "\<not> delivery_conflict ?d s" "delivery_refs ?d s"
    using Cons.prems by (auto simp: delivery_conflict_def delivery_refs_def new_delivery_def fresh_ids_def)
  moreover have "\<exists>t. insert_deliveries is m now as (s\<lparr>db_deliveries := db_deliveries s @ [?d]\<rparr>) = Inr t"
    using Cons.prems by (intro Cons.IH) (auto simp: new_delivery_def fresh_ids_def)
  ultimately show ?case by simp
qed simp

lemma subscribed_agents_set:
  "a \<in> set (subscribed_agents ch s) \<longleftrightarrow>
     (\<exists>c \<in> set (db_members s). \<exists>g \<in> set (db_agents s).
        ag_id g = a \<and> ca_agent_id c = a \<and> ca_channel_id c = ch \<and> ag_status g = AgRunning
        \<and> ag_lifecycle_status g = LifeActive \<and> ca_delivery_policy c = ''subscribed'')"
  by (force simp: subscribed_agents_def)

lemma distinct_product_keys:
  assumes "distinct (map f xs)" "distinct (map g ys)"
  shows "distinct (map (\<lambda>(x, y). (f x, g y)) (List.product xs ys))"
proof -
  have "map (\<lambda>(x, y). (f x, g y)) (List.product xs ys) = List.product (map f xs) (map g ys)"
    by (simp add: product_concat_map map_concat comp_def)
  with assms show ?thesis by (simp add: distinct_product)
qed

lemma subscribed_agents_distinct:
  assumes "distinct (map ag_id (db_agents s))"
    and "distinct (map (\<lambda>c. (ca_channel_id c, ca_agent_id c)) (db_members s))"
  shows "distinct (subscribed_agents ch s)"
proof -
  let ?p = "\<lambda>(c, a). ca_agent_id c = ag_id a \<and> ca_channel_id c = ch \<and> ag_status a = AgRunning
              \<and> ag_lifecycle_status a = LifeActive \<and> ca_delivery_policy c = ''subscribed''"
  let ?rows = "filter ?p (List.product (db_members s) (db_agents s))"
  have d: "distinct (map (\<lambda>(c, a). ((ca_channel_id c, ca_agent_id c), ag_id a)) (List.product (db_members s) (db_agents s)))"
    using assms by (intro distinct_product_keys)
  then have "distinct (map (\<lambda>(c, a). ((ca_channel_id c, ca_agent_id c), ag_id a)) ?rows)"
    by (rule distinct_map_filter)
  then have "distinct (map (\<lambda>(c, a). ag_id a) ?rows)"
    by (auto simp: distinct_map inj_on_def split: prod.splits)
  then have "distinct (map (\<lambda>(c, a). ag_id a) (sort_key (\<lambda>(c, a). (ca_joined_at c, ag_id a)) ?rows))"
    by (simp add: distinct_map)
  then show ?thesis by (simp add: subscribed_agents_def)
qed

lemma subscribed_agents_msgs [simp]: "subscribed_agents ch (s\<lparr>db_messages := ms\<rparr>) = subscribed_agents ch s"
  by (simp add: subscribed_agents_def)

lemma append_user_Inr:
  assumes "append_user_message_with_deliveries i is now ch content s = Inr (m, t)"
  shows "insert_message i ch None User content now s = Inr (m, s\<lparr>db_messages := db_messages s @ [m]\<rparr>)
    \<and> t = s\<lparr>db_messages := db_messages s @ [m],
            db_deliveries := db_deliveries s @
              map (\<lambda>(i, a). new_delivery i a m now) (zip (map is [0..<length (subscribed_agents ch s)]) (subscribed_agents ch s))\<rparr>"
proof (cases "insert_message i ch None User content now s")
  case (Inr r)
  obtain m' s1 where r: "r = (m', s1)" by (cases r)
  with Inr have ins: "insert_message i ch None User content now s = Inr (m', s1)" by simp
  then have s1: "s1 = s\<lparr>db_messages := db_messages s @ [m']\<rparr>" by (rule insert_messageE)
  have "m' = m" "insert_deliveries (map is [0..<length (subscribed_agents ch s)]) m now (subscribed_agents ch s) s1 = Inr t"
    using assms ins s1 by (auto simp: append_user_message_with_deliveries_def Let_def split: sum.splits)
  with ins s1 insert_deliveries_Inr [of "map is [0..<length (subscribed_agents ch s)]" "subscribed_agents ch s" m now s1 t]
  show ?thesis by simp
qed (use assms in \<open>simp add: append_user_message_with_deliveries_def\<close>)

lemma new_delivery_sel [simp]:
  "dl_id (new_delivery i a m now) = i" "dl_agent_id (new_delivery i a m now) = a"
  "dl_message_id (new_delivery i a m now) = me_id m" "dl_channel_id (new_delivery i a m now) = me_channel_id m"
  "dl_seq (new_delivery i a m now) = me_seq m" "dl_state (new_delivery i a m now) = Pending"
  "dl_attempts (new_delivery i a m now) = 0" "dl_next_attempt_at (new_delivery i a m now) = now"
  by (simp_all add: new_delivery_def)

lemma delivery_message_ref: "dels_ok k s \<Longrightarrow> d \<in> set (db_deliveries s) \<Longrightarrow> dl_message_id d \<in> message_ids s"
  by (force simp: dels_ok_def of_message_def)

lemma append_user_succeeds:
  assumes ok: "msgs_ok s" "dels_ok k s" "distinct (map ag_id (db_agents s))"
      "distinct (map (\<lambda>c. (ca_channel_id c, ca_agent_id c)) (db_members s))"
    and new: "i \<notin> message_ids s" "inj is" "range is \<inter> dl_id ` set (db_deliveries s) = {}"
    and ch: "ch \<in> channel_ids s"
  shows "\<exists>m t. append_user_message_with_deliveries i is now ch content s = Inr (m, t)"
proof -
  obtain m where m: "insert_message i ch None User content now s = Inr (m, s\<lparr>db_messages := db_messages s @ [m]\<rparr>)"
    and mid: "me_id m = i" "me_channel_id m = ch"
    using new ch by (simp add: insert_message_iff Let_def)
  let ?as = "subscribed_agents ch s"
  have "\<exists>t. insert_deliveries (map is [0..<length ?as]) m now ?as (s\<lparr>db_messages := db_messages s @ [m]\<rparr>) = Inr t"
  proof (rule insert_deliveries_ok)
    show "fresh_ids (map is [0..<length ?as]) (s\<lparr>db_messages := db_messages s @ [m]\<rparr>)"
      using new by (auto simp: fresh_ids_def distinct_map intro: inj_on_subset)
    show "\<forall>d\<in>set (db_deliveries (s\<lparr>db_messages := db_messages s @ [m]\<rparr>)).
       dl_message_id d = me_id m \<longrightarrow> dl_agent_id d \<notin> set ?as"
      using delivery_message_ref [OF ok(2)] new(1) mid by simp metis
  qed (use ok mid ch in \<open>auto simp: subscribed_agents_set subscribed_agents_distinct\<close>)
  with m show ?thesis by (auto simp: append_user_message_with_deliveries_def Let_def split: sum.splits)
qed

lemma zip_map_upt_agents:
  "map dl_agent_id (map (\<lambda>(i, a). new_delivery i a m now) (zip (map is [0..<length as]) as)) = as"
  by (simp add: comp_def case_prod_beta)

subsection \<open>Updating deliveries\<close>

definition same_delivery_key :: "delivery \<Rightarrow> delivery \<Rightarrow> bool" where
  "same_delivery_key d e \<longleftrightarrow> dl_id d = dl_id e \<and> dl_agent_id d = dl_agent_id e \<and> dl_channel_id d = dl_channel_id e
     \<and> dl_message_id d = dl_message_id e \<and> dl_seq d = dl_seq e"

lemma take_flight_sel [simp]:
  "dl_id (take_flight now d) = dl_id d" "dl_state (take_flight now d) = InFlight"
  "dl_attempts (take_flight now d) = dl_attempts d + 1" "dl_agent_id (take_flight now d) = dl_agent_id d"
  "dl_message_id (take_flight now d) = dl_message_id d" "dl_channel_id (take_flight now d) = dl_channel_id d"
  "dl_seq (take_flight now d) = dl_seq d"
  by (simp_all add: take_flight_def)

lemma dels_ok_update:
  assumes "dels_ok k s" "\<And>d. same_delivery_key (f d) d"
    and "\<And>d. d \<in> set (db_deliveries s) \<Longrightarrow> p d \<Longrightarrow> budget_ok k d \<Longrightarrow> budget_ok k (f d)"
  shows "dels_ok k (s\<lparr>db_deliveries := update_rows p f (db_deliveries s)\<rparr>)"
proof -
  have keys: "map dl_id (update_rows p f (db_deliveries s)) = map dl_id (db_deliveries s)"
    "map (\<lambda>d. (dl_agent_id d, dl_message_id d)) (update_rows p f (db_deliveries s))
       = map (\<lambda>d. (dl_agent_id d, dl_message_id d)) (db_deliveries s)"
    using assms(2) by (simp_all add: map_update_rows same_delivery_key_def)
  have "dl_agent_id d \<in> agent_ids s \<and> of_message d s \<and> budget_ok k d"
    if "d \<in> set (update_rows p f (db_deliveries s))" for d
    using that assms by (auto simp: set_update_rows dels_ok_def same_delivery_key_def of_message_def)
  with keys assms(1) show ?thesis by (auto simp: dels_ok_def of_message_def)
qed

lemma dels_ok_subset:
  "dels_ok k s \<Longrightarrow> dels_ok k (s\<lparr>db_deliveries := filter p (db_deliveries s)\<rparr>)"
  by (auto simp: dels_ok_def of_message_def distinct_map_filter)

lemma dels_ok_distinct: "dels_ok k s \<Longrightarrow> distinct (map dl_id (db_deliveries s))"
  by (simp add: dels_ok_def)

subsection \<open>Reservation\<close>

lemma reserve_step_rows:
  assumes "distinct (map dl_id rows)" "d \<in> set rows" "dl_state d = Pending" "dl_id d \<notin> ids"
  shows "update_rows (\<lambda>r. dl_id r \<in> ids) (take_flight now)
           (update_rows (\<lambda>r. dl_id r = dl_id d \<and> dl_state r = Pending) (take_flight now) rows)
       = update_rows (\<lambda>r. dl_id r \<in> insert (dl_id d) ids) (take_flight now) rows"
proof -
  have "r = d" if "r \<in> set rows" "dl_id r = dl_id d" for r
    using assms(1,2) that by (auto simp: distinct_map dest: inj_onD)
  with assms(3,4) show ?thesis by (auto simp: update_rows_def)
qed

lemma reserve_loop_eq:
  assumes "distinct (map dl_id (db_deliveries s))" "distinct (map dl_id ds)"
    and "\<forall>d \<in> set ds. d \<in> set (db_deliveries s) \<and> dl_state d = Pending"
  shows "reserve_loop now ds s =
     (map (reserved_copy now) ds,
      s\<lparr>db_deliveries := update_rows (\<lambda>r. dl_id r \<in> dl_id ` set ds) (take_flight now) (db_deliveries s)\<rparr>)"
  using assms
proof (induction ds arbitrary: s)
  case Nil
  then show ?case by (simp add: update_rows_def)
next
  case (Cons d ds)
  let ?p = "\<lambda>r. dl_id r = dl_id d \<and> dl_state r = Pending"
  let ?s = "s\<lparr>db_deliveries := update_rows ?p (take_flight now) (db_deliveries s)\<rparr>"
  have one: "affected ?p (db_deliveries s) = 1"
    using Cons.prems by (intro affected_key [where g = dl_id and r = d]) auto
  have keep: "\<forall>e \<in> set ds. e \<in> set (db_deliveries ?s) \<and> dl_state e = Pending"
  proof
    fix e assume "e \<in> set ds"
    moreover from this Cons.prems(2) have "dl_id e \<noteq> dl_id d" by (auto simp: image_iff)
    ultimately show "e \<in> set (db_deliveries ?s) \<and> dl_state e = Pending"
      using Cons.prems(3) by (simp add: set_update_rows)
  qed
  have "reserve_loop now ds ?s =
     (map (reserved_copy now) ds,
      ?s\<lparr>db_deliveries := update_rows (\<lambda>r. dl_id r \<in> dl_id ` set ds) (take_flight now) (db_deliveries ?s)\<rparr>)"
    using Cons.prems keep by (intro Cons.IH) (simp_all add: map_update_rows)
  with one reserve_step_rows [of "db_deliveries s" d "dl_id ` set ds" now] Cons.prems show ?case
    by simp
qed

definition due_list :: "int \<Rightarrow> int \<Rightarrow> timestamp \<Rightarrow> db \<Rightarrow> delivery list" where
  "due_list limit max_attempts now s =
     take (nat (max limit 1)) (sort_key due_key (filter (due (max max_attempts 1) now s) (db_deliveries s)))"

lemma due_list_set:
  "d \<in> set (due_list limit n now s) \<Longrightarrow> d \<in> set (db_deliveries s) \<and> due (max n 1) now s d"
  unfolding due_list_def by (drule in_set_takeD) simp

lemma due_list_distinct:
  assumes "distinct (map dl_id (db_deliveries s))"
  shows "distinct (map dl_id (due_list limit n now s))"
proof -
  have "distinct (map dl_id (filter (due (max n 1) now s) (db_deliveries s)))"
    using assms by (rule distinct_map_filter)
  then have "distinct (map dl_id (sort_key due_key (filter (due (max n 1) now s) (db_deliveries s))))"
    by (simp add: distinct_map)
  then show ?thesis
    unfolding due_list_def take_map [symmetric] by (rule distinct_take)
qed

lemma reserve_due_eq:
  assumes "distinct (map dl_id (db_deliveries s))"
  shows "reserve_due_deliveries limit n now s =
     (map (reserved_copy now) (due_list limit n now s),
      s\<lparr>db_deliveries := update_rows (\<lambda>r. dl_id r \<in> dl_id ` set (due_list limit n now s)) (take_flight now) (db_deliveries s)\<rparr>)"
  unfolding reserve_due_deliveries_def due_list_def [symmetric]
  using assms due_list_distinct [OF assms] due_list_set
  by (intro reserve_loop_eq) (auto simp: due_def)

lemma due_list_unique_id:
  assumes "distinct (map dl_id (db_deliveries s))" "d \<in> set (db_deliveries s)"
    "dl_id d \<in> dl_id ` set (due_list limit n now s)"
  shows "due (max n 1) now s d"
  using assms due_list_set by (fastforce simp: distinct_map dest: inj_onD)

lemma budget_take_flight: "budget_ok k d \<Longrightarrow> dl_state d = Pending \<Longrightarrow> dl_attempts d < k \<Longrightarrow> budget_ok k (take_flight now d)"
  by (simp add: budget_ok_def)

lemma reserve_due_dels_ok:
  assumes "dels_ok k s" "1 \<le> k"
  shows "dels_ok k (snd (reserve_due_deliveries limit k now s))"
proof -
  note d = dels_ok_distinct [OF assms(1)]
  have "dels_ok k (s\<lparr>db_deliveries := update_rows (\<lambda>r. dl_id r \<in> dl_id ` set (due_list limit k now s)) (take_flight now) (db_deliveries s)\<rparr>)"
  proof (rule dels_ok_update [OF assms(1)])
    fix e assume e: "e \<in> set (db_deliveries s)" "dl_id e \<in> dl_id ` set (due_list limit k now s)" "budget_ok k e"
    with due_list_unique_id [OF d this(1,2)] assms(2) show "budget_ok k (take_flight now e)"
      by (auto simp: due_def max_def intro: budget_take_flight)
  qed (simp add: same_delivery_key_def)
  then show ?thesis by (simp add: reserve_due_eq [OF d])
qed

lemma reserve_delivery_dels_ok:
  "dels_ok k s \<Longrightarrow> 1 \<le> k \<Longrightarrow> dels_ok k (snd (reserve_delivery i k now s))"
  unfolding reserve_delivery_def Let_def snd_conv
  by (intro dels_ok_update) (auto simp: same_delivery_key_def due_def max_def intro!: budget_take_flight)

lemma nudge_dels_ok: "dels_ok k s \<Longrightarrow> dels_ok k (snd (nudge_agent_deliveries now ag s))"
  unfolding nudge_agent_deliveries_def Let_def snd_conv
  by (intro dels_ok_update) (auto simp: same_delivery_key_def budget_ok_def)

lemma defer_dels_ok: "dels_ok k s \<Longrightarrow> dels_ok k (snd (defer_delivery now i err na j s))"
  unfolding defer_delivery_def Let_def snd_conv
  by (intro dels_ok_update) (auto simp: same_delivery_key_def budget_ok_def)

lemma release_dels_ok: "dels_ok k s \<Longrightarrow> dels_ok k (snd (release_in_flight_deliveries now s))"
  unfolding release_in_flight_deliveries_def Let_def snd_conv
  by (intro dels_ok_update) (auto simp: same_delivery_key_def budget_ok_def)

subsection \<open>Inbox cursor and completion\<close>

lemma upsert_inbox_cursorE:
  assumes "upsert_inbox_cursor ag n now s = Inr t"
  obtains c where "t = s\<lparr>db_inbox := hm_insert ag (c, now) (db_inbox s)\<rparr>" "n \<le> c"
    "c = (case hm_get (db_inbox s) ag of None \<Rightarrow> n | Some (old, _) \<Rightarrow> max old n)"
    "ag \<in> fst ` set (db_inbox s) \<or> ag \<in> agent_ids s"
proof -
  have "\<exists>c. t = s\<lparr>db_inbox := hm_insert ag (c, now) (db_inbox s)\<rparr> \<and> n \<le> c
      \<and> c = (case hm_get (db_inbox s) ag of None \<Rightarrow> n | Some (old, _) \<Rightarrow> max old n)
      \<and> (ag \<in> fst ` set (db_inbox s) \<or> ag \<in> agent_ids s)"
    using assms map_of_eq_None_iff [of "db_inbox s" ag]
    by (force simp: upsert_inbox_cursor_def split: option.splits if_splits)
  then show ?thesis using that by blast
qed

lemma inbox_ok_upsert: "inbox_ok s \<Longrightarrow> upsert_inbox_cursor ag n now s = Inr t \<Longrightarrow> inbox_ok t"
  by (erule upsert_inbox_cursorE) (auto simp: inbox_ok_def dom_update)

lemma complete_deliveryE:
  assumes "complete_delivery i now1 now2 d content s = Inr (m, t)"
  obtains s2 where
    "affected (\<lambda>r. dl_id r = dl_id d \<and> dl_state r = InFlight) (db_deliveries s) = 1"
    "upsert_inbox_cursor (dl_agent_id d) (dl_seq d) now1
       (s\<lparr>db_deliveries := filter (\<lambda>r. \<not> (dl_id r = dl_id d \<and> dl_state r = InFlight)) (db_deliveries s)\<rparr>) = Inr s2"
    "insert_message i (dl_channel_id d) (Some (dl_agent_id d)) Assistant content now2 s2 = Inr (m, t)"
  using assms by (auto simp: complete_delivery_def Let_def split: if_splits sum.splits)

lemma list_messages_cong: "db_messages s = db_messages t \<Longrightarrow> list_messages ch s = list_messages ch t"
  by (simp add: list_messages_def)

lemma complete_delivery_effect:
  assumes "complete_delivery i now1 now2 d content s = Inr (m, t)"
  shows "db_deliveries t = filter (\<lambda>r. \<not> (dl_id r = dl_id d \<and> dl_state r = InFlight)) (db_deliveries s)"
    and "db_messages t = db_messages s @ [m]"
    and "inbox_cursor (dl_agent_id d) t = (case hm_get (db_inbox s) (dl_agent_id d) of None \<Rightarrow> dl_seq d | Some (old, _) \<Rightarrow> max old (dl_seq d))"
    and "db_agents t = db_agents s" "db_members t = db_members s" "db_channels t = db_channels s"
    and "me_id m = i" "me_role m = Assistant" "me_agent_id m = Some (dl_agent_id d)" "me_content m = content" "me_channel_id m = dl_channel_id d"
    and "list_messages ch t = (if ch = dl_channel_id d then list_messages ch s @ [m] else list_messages ch s)"
proof -
  obtain s2 where s2: "upsert_inbox_cursor (dl_agent_id d) (dl_seq d) now1
       (s\<lparr>db_deliveries := filter (\<lambda>r. \<not> (dl_id r = dl_id d \<and> dl_state r = InFlight)) (db_deliveries s)\<rparr>) = Inr s2"
    and t: "insert_message i (dl_channel_id d) (Some (dl_agent_id d)) Assistant content now2 s2 = Inr (m, t)"
    using assms by (rule complete_deliveryE)
  from t have t': "t = s2\<lparr>db_messages := db_messages s2 @ [m]\<rparr>"
    and m: "me_id m = i" "me_role m = Assistant" "me_agent_id m = Some (dl_agent_id d)" "me_content m = content"
      "me_channel_id m = dl_channel_id d"
    by (auto elim: insert_messageE)
  from s2 obtain c where c: "s2 = s\<lparr>db_deliveries := filter (\<lambda>r. \<not> (dl_id r = dl_id d \<and> dl_state r = InFlight)) (db_deliveries s),
      db_inbox := hm_insert (dl_agent_id d) (c, now1) (db_inbox s)\<rparr>"
    "c = (case hm_get (db_inbox s) (dl_agent_id d) of None \<Rightarrow> dl_seq d | Some (old, _) \<Rightarrow> max old (dl_seq d))"
    by (rule upsert_inbox_cursorE) simp
  show "db_deliveries t = filter (\<lambda>r. \<not> (dl_id r = dl_id d \<and> dl_state r = InFlight)) (db_deliveries s)"
    "db_messages t = db_messages s @ [m]"
    "inbox_cursor (dl_agent_id d) t = (case hm_get (db_inbox s) (dl_agent_id d) of None \<Rightarrow> dl_seq d | Some (old, _) \<Rightarrow> max old (dl_seq d))"
    "db_agents t = db_agents s" "db_members t = db_members s" "db_channels t = db_channels s"
    using t' c by (simp_all add: inbox_cursor_def)
  show "me_id m = i" "me_role m = Assistant" "me_agent_id m = Some (dl_agent_id d)" "me_content m = content" "me_channel_id m = dl_channel_id d"
    by (fact m)+
  show "list_messages ch t = (if ch = dl_channel_id d then list_messages ch s @ [m] else list_messages ch s)"
    using list_messages_insert [OF t, of ch] list_messages_cong [of s2 s] c(1) by simp
qed

lemma complete_dels_ok:
  assumes "dels_ok k s" "complete_delivery i now1 now2 d content s = Inr (m, t)"
  shows "dels_ok k t"
proof -
  note e = complete_delivery_effect [OF assms(2)]
  have "dels_ok k (s\<lparr>db_deliveries := db_deliveries t\<rparr>)"
    unfolding e(1) by (rule dels_ok_subset [OF assms(1)])
  then show ?thesis by (auto simp: dels_ok_def of_message_def e)
qed

lemma complete_msgs_ok:
  assumes "msgs_ok s" "complete_delivery i now1 now2 d content s = Inr (m, t)"
  shows "msgs_ok t"
  using assms(2)
proof (rule complete_deliveryE)
  fix s2 assume s2: "upsert_inbox_cursor (dl_agent_id d) (dl_seq d) now1
       (s\<lparr>db_deliveries := filter (\<lambda>r. \<not> (dl_id r = dl_id d \<and> dl_state r = InFlight)) (db_deliveries s)\<rparr>) = Inr s2"
    and t: "insert_message i (dl_channel_id d) (Some (dl_agent_id d)) Assistant content now2 s2 = Inr (m, t)"
  from s2 assms(1) have "msgs_ok s2" by (auto elim!: upsert_inbox_cursorE simp: msgs_ok_def)
  from insert_message_msgs_ok [OF this t] show ?thesis .
qed

lemma complete_inbox_ok:
  assumes "inbox_ok s" "complete_delivery i now1 now2 d content s = Inr (m, t)"
  shows "inbox_ok t"
  using assms(2)
proof (rule complete_deliveryE)
  fix s2 assume s2: "upsert_inbox_cursor (dl_agent_id d) (dl_seq d) now1
       (s\<lparr>db_deliveries := filter (\<lambda>r. \<not> (dl_id r = dl_id d \<and> dl_state r = InFlight)) (db_deliveries s)\<rparr>) = Inr s2"
    and t: "insert_message i (dl_channel_id d) (Some (dl_agent_id d)) Assistant content now2 s2 = Inr (m, t)"
  have "inbox_ok s2" by (rule inbox_ok_upsert [OF _ s2]) (use assms(1) in \<open>simp add: inbox_ok_def\<close>)
  moreover from t have "t = s2\<lparr>db_messages := db_messages s2 @ [m]\<rparr>" by (rule insert_messageE)
  ultimately show ?thesis by (simp add: inbox_ok_def)
qed

subsection \<open>Reading the inbox\<close>

lemma unread_sorted: "sorted (map me_seq (unread ag ch c s))"
  by (simp add: unread_def)

lemma unread_set:
  "m \<in> set (unread ag ch c s) \<longleftrightarrow> m \<in> set (db_messages s) \<and> me_channel_id m = ch \<and> me_seq m > c \<and> me_agent_id m \<noteq> Some ag"
  by (auto simp: unread_def)

lemma unread_distinct:
  assumes "msgs_ok s"
  shows "distinct (map me_seq (unread ag ch c s))"
proof -
  have "distinct (map (\<lambda>m. (me_channel_id m, me_seq m))
      (filter (\<lambda>m. me_channel_id m = ch \<and> me_seq m > c \<and> me_agent_id m \<noteq> Some ag) (db_messages s)))"
    using assms by (simp add: msgs_ok_def distinct_map_filter)
  then have "distinct (map me_seq
      (filter (\<lambda>m. me_channel_id m = ch \<and> me_seq m > c \<and> me_agent_id m \<noteq> Some ag) (db_messages s)))"
    by (auto simp: distinct_map inj_on_def)
  then show ?thesis by (simp add: unread_def distinct_map)
qed

lemma unread_later:
  assumes "c \<le> c'"
  shows "unread ag ch c' s = filter (\<lambda>m. me_seq m > c') (unread ag ch c s)"
proof -
  have "filter (\<lambda>m. me_channel_id m = ch \<and> me_seq m > c' \<and> me_agent_id m \<noteq> Some ag) (db_messages s)
      = filter (\<lambda>m. me_seq m > c') (filter (\<lambda>m. me_channel_id m = ch \<and> me_seq m > c \<and> me_agent_id m \<noteq> Some ag) (db_messages s))"
    using assms by (auto intro: filter_cong)
  then show ?thesis by (simp add: unread_def filter_sort)
qed

lemma filter_after_take:
  fixes f :: "'a \<Rightarrow> int"
  assumes "sorted (map f xs)" "distinct (map f xs)" "take n xs \<noteq> []"
  shows "filter (\<lambda>x. f x > f (last (take n xs))) xs = drop n xs"
proof -
  let ?a = "take n xs" and ?b = "drop n xs"
  have s: "sorted (map f ?a @ map f ?b)" "distinct (map f ?a @ map f ?b)"
    using assms(1,2) by (simp_all flip: map_append)
  have "f x \<le> f (last ?a)" if "x \<in> set ?a" for x
  proof -
    have "?a = butlast ?a @ [last ?a]" using assms(3) by simp
    moreover have "sorted (map f ?a)" using s(1) by (simp add: sorted_append)
    ultimately have "sorted (map f (butlast ?a @ [last ?a]))" by simp
    moreover have "x \<in> set (butlast ?a @ [last ?a])" using that assms(3) by simp
    ultimately show ?thesis by (auto simp: sorted_append simp del: append_butlast_last_id)
  qed
  then have "filter (\<lambda>x. f x > f (last ?a)) ?a = []"
    by (force simp: filter_empty_conv)
  moreover have "f (last ?a) < f x" if "x \<in> set ?b" for x
    using s that last_in_set [OF assms(3)] by (fastforce simp: sorted_append)
  then have "filter (\<lambda>x. f x > f (last ?a)) ?b = ?b" by simp
  ultimately show ?thesis
    using filter_append [of "\<lambda>x. f x > f (last ?a)" ?a ?b] by simp
qed

lemma consume_split:
  assumes ok: "msgs_ok s" and ch: "default_channel_for_agent ag s = Some ch"
    and c: "consume_agent_inbox now ag limit s = Inr (ms, t)"
  shows "unread ag ch (inbox_cursor ag s) s = ms @ unread ag ch (inbox_cursor ag t) t
    \<and> length ms = min (clamp_limit limit) (length (unread ag ch (inbox_cursor ag s) s))"
proof -
  let ?u = "unread ag ch (inbox_cursor ag s) s"
  let ?ms = "take (clamp_limit limit) ?u"
  have ms: "ms = ?ms" using c ch by (auto simp: consume_agent_inbox_def Let_def split: if_splits sum.splits)
  have "unread ag ch (inbox_cursor ag t) t = drop (clamp_limit limit) ?u"
  proof (cases "?ms = []")
    case True
    with c ch have "t = s" by (simp add: consume_agent_inbox_def)
    moreover have "?u = []" using True clamp_limit_bounds [of limit] by (cases ?u) auto
    ultimately show ?thesis by simp
  next
    case False
    with c ch have up: "upsert_inbox_cursor ag (me_seq (last ?ms)) now s = Inr t"
      by (auto simp: consume_agent_inbox_def Let_def split: sum.splits)
    have "last ?ms \<in> set ?u" using last_in_set [OF False] by (rule in_set_takeD)
    then have gt: "inbox_cursor ag s < me_seq (last ?ms)" by (simp add: unread_set)
    from up have t: "db_messages t = db_messages s" "inbox_cursor ag t = me_seq (last ?ms)"
      using gt by (auto elim!: upsert_inbox_cursorE simp: inbox_cursor_def split: option.splits)
    have "unread ag ch (inbox_cursor ag t) t = unread ag ch (me_seq (last ?ms)) s"
      using t by (simp add: unread_def)
    also have "\<dots> = filter (\<lambda>m. me_seq m > me_seq (last ?ms)) ?u"
      using gt by (intro unread_later) simp
    also have "\<dots> = drop (clamp_limit limit) ?u"
      using False by (intro filter_after_take unread_sorted unread_distinct [OF ok])
    finally show ?thesis .
  qed
  with ms show ?thesis by simp
qed

subsection \<open>Enqueueing for given agents\<close>

lemma insert_or_ignore_ok:
  "dels_ok k s \<Longrightarrow> 1 \<le> k \<Longrightarrow> m \<in> set (db_messages s) \<Longrightarrow> insert_or_ignore is m now as s = Inr t \<Longrightarrow>
   dels_ok k t \<and> (\<exists>ds. t = s\<lparr>db_deliveries := db_deliveries s @ ds\<rparr>)"
proof (induction "is" m now as s rule: insert_or_ignore.induct)
  case (1 i "is" m now a as s)
  let ?d = "new_delivery i a m now"
  let ?s = "s\<lparr>db_deliveries := db_deliveries s @ [?d]\<rparr>"
  show ?case
  proof (cases "delivery_conflict ?d s")
    case True
    with 1(1) [OF refl True] 1(3-6) show ?thesis by (simp add: Let_def)
  next
    case False
    with 1(6) have r: "delivery_refs ?d s" and rec: "insert_or_ignore is m now as ?s = Inr t"
      by (auto simp: Let_def split: if_splits)
    have "dels_ok k ?s"
      using 1(3,4,5) False r
      by (auto simp: dels_ok_def delivery_conflict_def delivery_refs_def budget_ok_def of_message_def)
    with 1(2) [OF refl False] r rec 1(4,5) have "dels_ok k t \<and> (\<exists>ds. t = ?s\<lparr>db_deliveries := db_deliveries ?s @ ds\<rparr>)"
      by simp
    then show ?thesis by auto
  qed
qed (auto intro!: exI [of _ "[]"])

lemma insert_deliveries_sub: "insert_deliveries is m now as s = Inr t \<Longrightarrow> insert_or_ignore is m now as s = Inr t"
  by (induction "is" m now as s rule: insert_deliveries.induct) (auto simp: Let_def split: if_splits)

lemma append_user_dels_ok:
  assumes "dels_ok k s" "1 \<le> k" "append_user_message_with_deliveries i is now ch content s = Inr (m, t)"
  shows "dels_ok k t"
proof -
  have m: "insert_message i ch None User content now s = Inr (m, s\<lparr>db_messages := db_messages s @ [m]\<rparr>)"
    using append_user_Inr [OF assms(3)] by blast
  with assms(3) have "insert_or_ignore (map is [0..<length (subscribed_agents ch s)]) m now (subscribed_agents ch s)
      (s\<lparr>db_messages := db_messages s @ [m]\<rparr>) = Inr t"
    by (auto simp: append_user_message_with_deliveries_def Let_def split: sum.splits intro: insert_deliveries_sub)
  from insert_or_ignore_ok [OF insert_message_dels_ok [OF assms(1) m] assms(2) _ this] show ?thesis by simp
qed

lemma append_user_msgs_ok:
  assumes "msgs_ok s" "append_user_message_with_deliveries i is now ch content s = Inr (m, t)"
  shows "msgs_ok t"
proof -
  note a = append_user_Inr [OF assms(2)]
  have "msgs_ok (s\<lparr>db_messages := db_messages s @ [m]\<rparr>)"
    using a assms(1) by (blast intro: insert_message_msgs_ok)
  with a show ?thesis by (simp add: msgs_ok_def)
qed

subsection \<open>Pages\<close>

lemma sort_key_neg_rev:
  fixes f :: "'a \<Rightarrow> int"
  assumes "distinct (map f xs)"
  shows "sort_key (\<lambda>x. - f x) xs = rev (sort_key f xs)"
proof (rule map_sorted_distinct_set_unique [where f = "\<lambda>x. - f x"])
  have inj: "inj_on f (set xs)" using assms by (simp add: distinct_map)
  then show "inj_on (\<lambda>x. - f x) (set (sort_key (\<lambda>x. - f x) xs) \<union> set (rev (sort_key f xs)))"
    by (auto simp: inj_on_def)
  show "sorted (map (\<lambda>x. - f x) (sort_key (\<lambda>x. - f x) xs))" by simp
  show "distinct (map (\<lambda>x. - f x) (sort_key (\<lambda>x. - f x) xs))"
    using assms by (auto simp: distinct_map inj_on_def)
  show "sorted (map (\<lambda>x. - f x) (rev (sort_key f xs)))"
  proof -
    have "sorted (map f (sort_key f xs))" by simp
    then have "sorted_wrt (\<lambda>x y. f x \<le> f y) (sort_key f xs)" by (simp add: sorted_wrt_map)
    then show ?thesis by (simp add: rev_map [symmetric] sorted_wrt_map sorted_wrt_rev)
  qed
  show "distinct (map (\<lambda>x. - f x) (rev (sort_key f xs)))"
    using assms by (auto simp: distinct_map inj_on_def)
  show "set (sort_key (\<lambda>x. - f x) xs) = set (rev (sort_key f xs))" by simp
qed

lemma page_distinct:
  assumes "msgs_ok s"
  shows "distinct (map me_seq (filter (\<lambda>m. me_channel_id m = ch \<and> p m) (db_messages s)))"
proof -
  have "distinct (map (\<lambda>m. (me_channel_id m, me_seq m)) (filter (\<lambda>m. me_channel_id m = ch \<and> p m) (db_messages s)))"
    using assms by (simp add: msgs_ok_def distinct_map_filter)
  then show ?thesis by (auto simp: distinct_map inj_on_def)
qed

lemma page_eq:
  assumes "msgs_ok s"
  shows "list_message_page ch limit before after s =
    (let w = filter (\<lambda>m. in_window before after (me_seq m)) (list_messages ch s)
     in drop (length w - clamp_limit limit) w)"
proof -
  let ?rows = "filter (\<lambda>m. me_channel_id m = ch \<and> in_window before after (me_seq m)) (db_messages s)"
  have "filter (\<lambda>m. in_window before after (me_seq m)) (list_messages ch s) = sort_key me_seq ?rows"
    by (simp add: list_messages_def filter_sort conj_commute)
  then show ?thesis
    using page_distinct [OF assms, of ch "\<lambda>m. in_window before after (me_seq m)"]
    by (simp add: list_message_page_def sort_key_neg_rev take_rev)
qed

subsection \<open>Retries\<close>

definition failed_attempt :: "timestamp \<Rightarrow> uuid \<Rightarrow> string \<Rightarrow> int \<Rightarrow> db \<Rightarrow> db" where
  "failed_attempt now i err k s =
     (let s1 = snd (reserve_delivery i k now s) in snd (defer_delivery now i err now k s1))"

lemma get_delivery_update:
  assumes "\<And>d. dl_id (f d) = dl_id d" "\<And>d. p d \<Longrightarrow> dl_id d = i"
  shows "get_delivery i (s\<lparr>db_deliveries := update_rows p f (db_deliveries s)\<rparr>)
       = map_option (\<lambda>d. if p d then f d else d) (get_delivery i s)"
  unfolding get_delivery_def
  using update_rows_find [where g = dl_id and f = f and p = p and k = i, OF assms] by simp

lemma due_agents_only: "db_agents s = db_agents t \<Longrightarrow> due n now s d = due n now t d"
  by (simp add: due_def agent_running_def)

lemma failed_attempt_agents [simp]: "db_agents (failed_attempt now i err k s) = db_agents s"
  by (simp add: failed_attempt_def Let_def reserve_delivery_def defer_delivery_def)

lemma failed_attempt_step:
  assumes "get_delivery i s = Some d" "due k now s d" "1 \<le> k"
  shows "get_delivery i (failed_attempt now i err k s) =
     Some (d\<lparr>dl_state := (if dl_attempts d + 1 \<ge> k then Exhausted else Pending), dl_attempts := dl_attempts d + 1,
             dl_next_attempt_at := now, dl_last_error := Some err, dl_updated_at := now\<rparr>)"
proof -
  let ?s1 = "snd (reserve_delivery i k now s)"
  have id: "dl_id d = i" using find_Some_set assms(1) unfolding get_delivery_def by fastforce
  have k: "max k 1 = k" using assms(3) by simp
  have s1: "get_delivery i ?s1 = Some (take_flight now d)"
    unfolding reserve_delivery_def Let_def snd_conv k
    by (subst get_delivery_update) (simp_all add: assms(1,2) id)
  show ?thesis
    unfolding failed_attempt_def defer_delivery_def Let_def snd_conv k
    by (subst get_delivery_update) (auto simp: s1 id take_flight_def)
qed

lemma failed_attempts:
  assumes "get_delivery i s = Some d" "due k now s d" "1 \<le> k" "int n \<le> k - dl_attempts d"
  shows "\<exists>d'. get_delivery i ((failed_attempt now i err k ^^ n) s) = Some d'
     \<and> db_agents ((failed_attempt now i err k ^^ n) s) = db_agents s
     \<and> dl_attempts d' = dl_attempts d + int n \<and> dl_agent_id d' = dl_agent_id d
     \<and> dl_next_attempt_at d' \<le> now
     \<and> dl_state d' = (if dl_attempts d' = k then Exhausted else Pending)"
  using assms(4)
proof (induction n)
  case 0
  with assms show ?case by (simp add: due_def)
next
  case (Suc n)
  then obtain d' where d': "get_delivery i ((failed_attempt now i err k ^^ n) s) = Some d'"
    "db_agents ((failed_attempt now i err k ^^ n) s) = db_agents s"
    "dl_attempts d' = dl_attempts d + int n" "dl_agent_id d' = dl_agent_id d" "dl_next_attempt_at d' \<le> now"
    "dl_state d' = (if dl_attempts d' = k then Exhausted else Pending)"
    by fastforce
  have lt: "dl_attempts d' < k" using Suc.prems d'(3) by simp
  have "due k now ((failed_attempt now i err k ^^ n) s) d'"
    using d' lt assms(2) by (simp add: due_def agent_running_def)
  then show ?case
    using assms(3) failed_attempt_step [OF d'(1), of k now err] d' lt by auto
qed

section \<open>Properties\<close>

definition example_agent :: "uuid \<Rightarrow> agent_status \<Rightarrow> agent" where
  "example_agent i st = \<lparr>ag_id = i, ag_channel_id = 1, ag_name = ''a'', ag_description = None, ag_instructions = None,
     ag_runtime = ''codex'', ag_model = None, ag_status = st, ag_lifecycle_status = LifeActive,
     ag_created_by_agent_id = None, ag_created_by_channel_id = None, ag_created_at = 0\<rparr>"

definition example_channel :: "uuid \<Rightarrow> channel" where
  "example_channel i = \<lparr>ch_id = i, ch_name = ''c'', ch_description = None, ch_goal = None, ch_kind = ''standard'',
     ch_is_system = False, ch_direct_agent_id = None, ch_created_by_agent_id = None,
     ch_created_by_channel_id = None, ch_created_at = 0\<rparr>"

definition example_member :: "uuid \<Rightarrow> uuid \<Rightarrow> channel_agent" where
  "example_member c a = \<lparr>ca_channel_id = c, ca_agent_id = a, ca_role = None, ca_delivery_policy = ''subscribed'',
     ca_joined_at = 0, ca_created_by_agent_id = None, ca_created_by_channel_id = None\<rparr>"

definition example_message :: "uuid \<Rightarrow> uuid \<Rightarrow> int \<Rightarrow> message" where
  "example_message i c n = \<lparr>me_id = i, me_channel_id = c, me_seq = n, me_agent_id = None, me_role = User,
     me_content = ''hi'', me_created_at = 0\<rparr>"

definition example_delivery :: "uuid \<Rightarrow> int \<Rightarrow> delivery_state \<Rightarrow> int \<Rightarrow> delivery" where
  "example_delivery c n st att = \<lparr>dl_id = 200, dl_agent_id = 10, dl_channel_id = c, dl_message_id = 100,
     dl_seq = n, dl_state = st, dl_attempts = att, dl_next_attempt_at = 5, dl_last_error = None,
     dl_created_at = 5, dl_updated_at = 5\<rparr>"

definition example_db :: "message list \<Rightarrow> delivery list \<Rightarrow> db" where
  "example_db ms ds = db_empty\<lparr>db_channels := [example_channel 1, example_channel 2],
     db_agents := [example_agent 10 AgRunning, example_agent 11 AgStopped],
     db_members := [example_member 1 10, example_member 1 11, example_member 2 10],
     db_messages := ms, db_deliveries := ds\<rparr>"

lemmas example_defs = example_db_def db_empty_def example_agent_def example_channel_def example_member_def
  example_message_def example_delivery_def

lemma example_dels_ok:
  "dels_ok 3 (example_db [example_message 100 1 1] [example_delivery 1 1 st att]) \<longleftrightarrow> budget_ok 3 (example_delivery 1 1 st att)"
  by (simp add: dels_ok_def of_message_def example_defs)

text \<open>
  Appending to a channel: it succeeds exactly when the identifier is new and the channel and the
  author exist; the message then comes last in its channel's history, whose earlier messages and
  every other channel's history are unchanged, and its sequence number exceeds all earlier ones.
\<close>

theorem append_message_in_sequence:
  "((\<exists>r. append_message i now ch ag role content s = Inr r)
      \<longleftrightarrow> i \<notin> message_ids s \<and> ch \<in> channel_ids s \<and> opt_ref ag (agent_ids s))
   \<and> (append_message i now ch ag role content s = Inr (m, t) \<longrightarrow>
        list_messages ch t = list_messages ch s @ [m]
      \<and> (\<forall>m' \<in> set (list_messages ch s). me_seq m' < me_seq m)
      \<and> (\<forall>ch'. ch' \<noteq> ch \<longrightarrow> list_messages ch' t = list_messages ch' s)
      \<and> db_deliveries t = db_deliveries s)"
proof (intro conjI impI allI ballI)
  show "(\<exists>r. append_message i now ch ag role content s = Inr r)
      \<longleftrightarrow> i \<notin> message_ids s \<and> ch \<in> channel_ids s \<and> opt_ref ag (agent_ids s)"
    by (simp add: append_message_def insert_message_iff Let_def)
next
  assume a: "append_message i now ch ag role content s = Inr (m, t)"
  then have ins: "insert_message i ch ag role content now s = Inr (m, t)" by (simp add: append_message_def)
  note l = list_messages_insert [OF ins]
  show "list_messages ch t = list_messages ch s @ [m]" using l [of ch] by simp
  show "list_messages ch' t = list_messages ch' s" if "ch' \<noteq> ch" for ch' using l [of ch'] that by simp
  show "me_seq m' < me_seq m" if "m' \<in> set (list_messages ch s)" for m'
    using ins that by (auto elim!: insert_messageE simp: list_messages_def intro: next_seq_above)
  show "db_deliveries t = db_deliveries s" using ins by (auto elim: insert_messageE)
qed

theorem append_message_in_sequence_witness:
  "list_messages 1 (example_db [example_message 100 1 1] [] \<lparr>db_messages := [example_message 100 1 1,
      \<lparr>me_id = 101, me_channel_id = 1, me_seq = 2, me_agent_id = Some 10, me_role = Assistant, me_content = ''yo'', me_created_at = 9\<rparr>]\<rparr>)
   = list_messages 1 (example_db [example_message 100 1 1] []) @
      [\<lparr>me_id = 101, me_channel_id = 1, me_seq = 2, me_agent_id = Some 10, me_role = Assistant, me_content = ''yo'', me_created_at = 9\<rparr>]"
  using append_message_in_sequence [of 101 9 1 "Some 10" Assistant "''yo''" "example_db [example_message 100 1 1] []"
      "\<lparr>me_id = 101, me_channel_id = 1, me_seq = 2, me_agent_id = Some 10, me_role = Assistant, me_content = ''yo'', me_created_at = 9\<rparr>"
      "example_db [example_message 100 1 1] [] \<lparr>db_messages := [example_message 100 1 1,
         \<lparr>me_id = 101, me_channel_id = 1, me_seq = 2, me_agent_id = Some 10, me_role = Assistant, me_content = ''yo'', me_created_at = 9\<rparr>]\<rparr>"]
  by (simp add: append_message_def insert_message_iff Let_def next_seq_def max_or_zero_def example_defs)

lemma due_reserved:
  assumes "distinct (map dl_id (db_deliveries s))" "reserve_due_deliveries limit n now s = (ds, t)"
    "e \<in> set (db_deliveries t)" "dl_id e \<in> dl_id ` set ds"
  shows "\<exists>d \<in> set (db_deliveries s). dl_id d = dl_id e \<and> due (max n 1) now s d \<and> e = take_flight now d"
proof -
  let ?p = "\<lambda>r. dl_id r \<in> dl_id ` set (due_list limit n now s)"
  from assms(1,2) have ds: "ds = map (reserved_copy now) (due_list limit n now s)"
    and t: "db_deliveries t = update_rows ?p (take_flight now) (db_deliveries s)"
    by (auto simp: reserve_due_eq)
  have ids: "dl_id ` set ds = dl_id ` set (due_list limit n now s)"
    by (simp add: ds image_image reserved_copy_def)
  with assms(4) have "dl_id e \<in> dl_id ` set (due_list limit n now s)" by simp
  with assms(3) t obtain d where d: "d \<in> set (db_deliveries s)" "?p d" "e = take_flight now d"
    by (auto simp: set_update_rows)
  with due_list_unique_id [OF assms(1) d(1,2)] show ?thesis by auto
qed

text \<open>
  C28. Fan-out of a user message: in a well-formed store with new identifiers the call succeeds in an
  existing channel; the message is appended to the channel, and the queue grows by exactly one
  pending, never attempted delivery of this message for each member that is running, active and
  subscribed (each once), and by nothing else: running members that are muted or paused get no
  delivery, although the method's comment speaks of every running agent in the channel.
\<close>

theorem user_message_fan_out:
  assumes "msgs_ok s" "dels_ok k s" "distinct (map ag_id (db_agents s))"
    "distinct (map (\<lambda>c. (ca_channel_id c, ca_agent_id c)) (db_members s))"
    "i \<notin> message_ids s" "inj is" "range is \<inter> dl_id ` set (db_deliveries s) = {}" "ch \<in> channel_ids s"
  shows "\<exists>m t ds. append_user_message_with_deliveries i is now ch content s = Inr (m, t)
     \<and> list_messages ch t = list_messages ch s @ [m] \<and> me_role m = User \<and> me_content m = content
     \<and> db_deliveries t = db_deliveries s @ ds
     \<and> distinct (map dl_agent_id ds)
     \<and> (\<forall>a. a \<in> dl_agent_id ` set ds \<longleftrightarrow>
          (\<exists>c \<in> set (db_members s). \<exists>g \<in> set (db_agents s). ag_id g = a \<and> ca_agent_id c = a \<and> ca_channel_id c = ch
             \<and> ag_status g = AgRunning \<and> ag_lifecycle_status g = LifeActive \<and> ca_delivery_policy c = ''subscribed''))
     \<and> (\<forall>d \<in> set ds. dl_message_id d = me_id m \<and> dl_channel_id d = ch \<and> dl_seq d = me_seq m
          \<and> dl_state d = Pending \<and> dl_attempts d = 0 \<and> dl_next_attempt_at d = now)"
proof -
  obtain m t where app: "append_user_message_with_deliveries i is now ch content s = Inr (m, t)"
    using append_user_succeeds [OF assms] by blast
  let ?as = "subscribed_agents ch s"
  let ?ds = "map (\<lambda>(i, a). new_delivery i a m now) (zip (map is [0..<length ?as]) ?as)"
  note a = append_user_Inr [OF app]
  then have ins: "insert_message i ch None User content now s = Inr (m, s\<lparr>db_messages := db_messages s @ [m]\<rparr>)"
    and t: "t = s\<lparr>db_messages := db_messages s @ [m], db_deliveries := db_deliveries s @ ?ds\<rparr>" by blast+
  have m: "me_role m = User" "me_content m = content" "me_channel_id m = ch"
    using ins by (auto elim!: insert_messageE)
  have ags: "map dl_agent_id ?ds = ?as" by (rule zip_map_upt_agents)
  have set_ags: "dl_agent_id ` set ?ds = set ?as" using ags by (metis set_map)
  have "list_messages ch t = list_messages ch s @ [m]"
    using list_messages_insert [OF ins, of ch] t by (simp add: list_messages_def)
  moreover have "\<forall>d \<in> set ?ds. dl_message_id d = me_id m \<and> dl_channel_id d = ch \<and> dl_seq d = me_seq m
          \<and> dl_state d = Pending \<and> dl_attempts d = 0 \<and> dl_next_attempt_at d = now"
    using m by auto
  ultimately show ?thesis
    using app m t subscribed_agents_distinct [OF assms(3,4), of ch] ags set_ags subscribed_agents_set [of _ ch s]
    by (intro exI [of _ m] exI [of _ t] exI [of _ ?ds]) simp
qed

theorem user_message_fan_out_witness:
  "\<exists>m t ds. append_user_message_with_deliveries 101 (\<lambda>n. 300 + n) 9 1 ''hi'' (example_db [example_message 100 1 1] []) = Inr (m, t)
     \<and> db_deliveries t = ds \<and> dl_agent_id ` set ds = {10}"
proof -
  let ?s = "example_db [example_message 100 1 1] []"
  have ok: "msgs_ok ?s" "dels_ok 3 ?s" "distinct (map ag_id (db_agents ?s))"
    "distinct (map (\<lambda>c. (ca_channel_id c, ca_agent_id c)) (db_members ?s))"
    "101 \<notin> message_ids ?s" "inj ((+) 300 :: nat \<Rightarrow> nat)" "range ((+) 300 :: nat \<Rightarrow> nat) \<inter> dl_id ` set (db_deliveries ?s) = {}"
    "1 \<in> channel_ids ?s"
    by (simp_all add: msgs_ok_def dels_ok_def example_defs)
  have who: "(\<exists>c \<in> set (db_members ?s). \<exists>g \<in> set (db_agents ?s). ag_id g = a \<and> ca_agent_id c = a \<and> ca_channel_id c = 1
             \<and> ag_status g = AgRunning \<and> ag_lifecycle_status g = LifeActive \<and> ca_delivery_policy c = ''subscribed'') \<longleftrightarrow> a = 10" for a
    by (auto simp: example_defs)
  have "db_deliveries ?s = []" by (simp add: example_defs)
  with user_message_fan_out [OF ok, of 9 "''hi''", unfolded who] show ?thesis by auto
qed

text \<open>
  C29. Reserving due deliveries: at most \<open>limit\<close> (at least one) deliveries are taken, each one pending,
  due, under budget and of a running agent; its row becomes in-flight with one attempt more, every
  other row is untouched, and no later reservation from the resulting store, whatever its
  arguments, takes any of them again.
\<close>

theorem reserve_due_exclusive:
  assumes "dels_ok k s" "reserve_due_deliveries limit n now s = (ds, t)"
  shows "length ds = min (nat (max limit 1)) (length (filter (due (max n 1) now s) (db_deliveries s)))
    \<and> (\<forall>e \<in> set (db_deliveries t). dl_id e \<in> dl_id ` set ds \<longrightarrow>
         (\<exists>d \<in> set (db_deliveries s). dl_id d = dl_id e \<and> due (max n 1) now s d \<and> e = take_flight now d))
    \<and> (\<forall>d. dl_id d \<notin> dl_id ` set ds \<longrightarrow> (d \<in> set (db_deliveries t) \<longleftrightarrow> d \<in> set (db_deliveries s)))
    \<and> dl_id ` set (fst (reserve_due_deliveries limit' n' now' t)) \<inter> dl_id ` set ds = {}
    \<and> (\<forall>i \<in> dl_id ` set ds. fst (reserve_delivery i n' now' t) = None)"
proof -
  let ?p = "\<lambda>r. dl_id r \<in> dl_id ` set (due_list limit n now s)"
  note dis = dels_ok_distinct [OF assms(1)]
  from assms(2) have ds: "ds = map (reserved_copy now) (due_list limit n now s)"
    and t: "t = s\<lparr>db_deliveries := update_rows ?p (take_flight now) (db_deliveries s)\<rparr>"
    by (auto simp: reserve_due_eq [OF dis])
  have ids: "dl_id ` set ds = dl_id ` set (due_list limit n now s)"
    by (simp add: ds image_image reserved_copy_def)
  have dist: "distinct (map dl_id (db_deliveries t))" using dis by (simp add: t map_update_rows)
  have fly: "\<exists>d \<in> set (db_deliveries s). dl_id d = dl_id e \<and> due (max n 1) now s d \<and> e = take_flight now d"
    if "e \<in> set (db_deliveries t)" "dl_id e \<in> dl_id ` set ds" for e
    using due_reserved [OF dis assms(2) that] .
  have notdue: "\<not> due x y t e" if "e \<in> set (db_deliveries t)" "dl_id e \<in> dl_id ` set ds" for e x y
    using fly [OF that] by (auto simp: due_def)
  show ?thesis
  proof (intro conjI ballI impI allI)
    show "length ds = min (nat (max limit 1)) (length (filter (due (max n 1) now s) (db_deliveries s)))"
      by (simp add: ds due_list_def min.commute)
    show "d \<in> set (db_deliveries t) \<longleftrightarrow> d \<in> set (db_deliveries s)" if "dl_id d \<notin> dl_id ` set ds" for d
      using that by (auto simp: t set_update_rows ids)
    show "dl_id ` set (fst (reserve_due_deliveries limit' n' now' t)) \<inter> dl_id ` set ds = {}"
      using notdue due_list_set [of _ limit' n' now' t]
      by (auto simp: reserve_due_eq [OF dist] image_image reserved_copy_def)
    show "fst (reserve_delivery i n' now' t) = None" if "i \<in> dl_id ` set ds" for i
    proof -
      have "affected (\<lambda>r. dl_id r = i \<and> due (max n' 1) now' t r) (db_deliveries t) = 0"
        using notdue that by (auto simp: affected_zero)
      then show ?thesis by (simp add: reserve_delivery_def)
    qed
  qed (use fly in auto)
qed

theorem reserve_due_exclusive_witness:
  "dl_id ` set (fst (reserve_due_deliveries 5 3 20 (snd (reserve_due_deliveries 5 3 10
      (example_db [example_message 100 1 1] [example_delivery 1 1 Pending 0]))))) \<inter> {200} = {}"
proof -
  let ?s = "example_db [example_message 100 1 1] [example_delivery 1 1 Pending 0]"
  let ?r = "reserve_due_deliveries 5 3 10 ?s"
  have ok: "dels_ok 3 ?s" unfolding example_dels_ok by (simp add: budget_ok_def example_delivery_def)
  have ids: "dl_id ` set (fst ?r) = {200}"
    by (simp add: reserve_due_deliveries_def due_def agent_running_def affected_def reserved_copy_def example_defs)
  have "dl_id ` set (fst (reserve_due_deliveries 5 3 20 (snd ?r))) \<inter> dl_id ` set (fst ?r) = {}"
    using reserve_due_exclusive [OF ok prod.collapse [symmetric], of 5 3 10 5 3 20] by blast
  then show ?thesis unfolding ids .
qed

lemma not_in_flight_after_complete:
  assumes "complete_delivery i now1 now2 d content s = Inr (m, t)"
  shows "complete_delivery i' now1' now2' d content' t = Inl (DeliveryNotInFlight (dl_id d))"
  using complete_delivery_effect(1) [OF assms] by (simp add: complete_delivery_def affected_def)

lemma filter_key_state:
  assumes "distinct (map g rows)" "affected (\<lambda>r. g r = k \<and> p r) rows = 1"
  shows "filter (\<lambda>r. \<not> (g r = k \<and> p r)) rows = filter (\<lambda>r. g r \<noteq> k) rows"
proof -
  have "affected (\<lambda>r. g r = k \<and> p r) rows \<noteq> 0" using assms(2) by simp
  then obtain r where r: "r \<in> set rows" "g r = k" "p r"
    unfolding affected_zero by blast
  have inj: "inj_on g (set rows)" using assms(1) by (simp add: distinct_map)
  have "p x" if "x \<in> set rows" "g x = k" for x
    using inj_onD [OF inj, of x r] that r by simp
  then show ?thesis by (auto intro: filter_cong)
qed

text \<open>
  C30. A completed delivery is answered once: the reply is appended to the delivery's channel as the
  agent's assistant message, exactly the delivery's row leaves the queue, the agent's cursor reaches
  the delivery's sequence number without moving back, and a second completion of the same delivery
  is refused, leaving the store as it is.
\<close>

theorem complete_delivery_once:
  assumes "dels_ok k s" "complete_delivery i now1 now2 d content s = Inr (m, t)"
  shows "list_messages (dl_channel_id d) t = list_messages (dl_channel_id d) s @ [m]
    \<and> me_role m = Assistant \<and> me_agent_id m = Some (dl_agent_id d) \<and> me_content m = content
    \<and> db_deliveries t = filter (\<lambda>r. dl_id r \<noteq> dl_id d) (db_deliveries s)
    \<and> Suc (length (db_deliveries t)) = length (db_deliveries s)
    \<and> dl_seq d \<le> inbox_cursor (dl_agent_id d) t
    \<and> (\<forall>c at. hm_get (db_inbox s) (dl_agent_id d) = Some (c, at) \<longrightarrow> c \<le> inbox_cursor (dl_agent_id d) t)
    \<and> complete_delivery i' now1' now2' d content' t = Inl (DeliveryNotInFlight (dl_id d))"
proof -
  note e = complete_delivery_effect [OF assms(2)]
  let ?p = "\<lambda>r. dl_id r = dl_id d \<and> dl_state r = InFlight"
  have one: "affected ?p (db_deliveries s) = 1" using assms(2) by (rule complete_deliveryE)
  have "db_deliveries t = filter (\<lambda>r. dl_id r \<noteq> dl_id d) (db_deliveries s)"
    unfolding e(1) by (rule filter_key_state [OF dels_ok_distinct [OF assms(1)] one])
  moreover have "Suc (length (db_deliveries t)) = length (db_deliveries s)"
    using one sum_length_filter_compl [of ?p "db_deliveries s"] by (simp add: e(1) affected_def)
  moreover have "dl_seq d \<le> inbox_cursor (dl_agent_id d) t"
    "\<forall>c at. hm_get (db_inbox s) (dl_agent_id d) = Some (c, at) \<longrightarrow> c \<le> inbox_cursor (dl_agent_id d) t"
    unfolding e(3) by (auto split: option.splits)
  ultimately show ?thesis
    using e(8-10) e(12) [of "dl_channel_id d"] not_in_flight_after_complete [OF assms(2)] by simp
qed

theorem complete_delivery_once_witness:
  "complete_delivery 102 21 21 (example_delivery 1 1 InFlight 1) ''again''
     (snd (projr (complete_delivery 101 20 20 (example_delivery 1 1 InFlight 1) ''ok''
        (example_db [example_message 100 1 1] [example_delivery 1 1 InFlight 1]))))
   = Inl (DeliveryNotInFlight 200)"
proof -
  let ?s = "example_db [example_message 100 1 1] [example_delivery 1 1 InFlight 1]"
  let ?d = "example_delivery 1 1 InFlight 1"
  let ?r = "complete_delivery 101 20 20 ?d ''ok'' ?s"
  have ok: "dels_ok 3 ?s" unfolding example_dels_ok by (simp add: budget_ok_def example_delivery_def)
  have "\<exists>m t. ?r = Inr (m, t)"
    by (simp add: complete_delivery_def affected_def upsert_inbox_cursor_def insert_message_iff Let_def example_defs)
  then obtain m t where r: "?r = Inr (m, t)" by blast
  from complete_delivery_once [OF ok r, of 102 21 21 "''again''"]
  have "complete_delivery 102 21 21 ?d ''again'' t = Inl (DeliveryNotInFlight (dl_id ?d))" by blast
  moreover have "dl_id ?d = 200" by (simp add: example_delivery_def)
  ultimately show ?thesis unfolding r sum.sel snd_conv by (simp only:)
qed

text \<open>
  C38. Retry budget: a due delivery that keeps failing is handed out again after each failure while
  attempts remain, its counter goes up by one per failure, and it is exhausted exactly when the
  counter reaches the budget, not before.
\<close>

theorem failing_delivery_exhausts_at_budget:
  assumes "get_delivery i s = Some d" "due k now s d" "1 \<le> k" "int n \<le> k - dl_attempts d"
  shows "\<exists>d'. get_delivery i ((failed_attempt now i err k ^^ n) s) = Some d'
     \<and> dl_attempts d' = dl_attempts d + int n
     \<and> dl_state d' = (if dl_attempts d + int n = k then Exhausted else Pending)
     \<and> (dl_attempts d + int n < k \<longrightarrow> due k now ((failed_attempt now i err k ^^ n) s) d')"
proof -
  obtain d' where d': "get_delivery i ((failed_attempt now i err k ^^ n) s) = Some d'"
    "db_agents ((failed_attempt now i err k ^^ n) s) = db_agents s"
    "dl_attempts d' = dl_attempts d + int n" "dl_agent_id d' = dl_agent_id d" "dl_next_attempt_at d' \<le> now"
    "dl_state d' = (if dl_attempts d' = k then Exhausted else Pending)"
    using failed_attempts [OF assms, of err] by blast
  then show ?thesis using assms(2) by (auto simp: due_def agent_running_def)
qed

theorem failing_delivery_exhausts_at_budget_witness:
  "\<exists>d'. get_delivery 200 ((failed_attempt 10 200 ''x'' 3 ^^ 3) (example_db [example_message 100 1 1] [example_delivery 1 1 Pending 0])) = Some d'
     \<and> dl_state d' = Exhausted"
proof -
  let ?s = "example_db [example_message 100 1 1] [example_delivery 1 1 Pending 0]"
  let ?d = "example_delivery 1 1 Pending 0"
  have h: "get_delivery 200 ?s = Some ?d" "due 3 10 ?s ?d"
    by (simp_all add: get_delivery_def due_def agent_running_def example_defs)
  have a: "dl_attempts ?d = 0" by (simp add: example_delivery_def)
  show ?thesis
    using failing_delivery_exhausts_at_budget [OF h, of 3 "''x''", unfolded a] by auto
qed

text \<open>
  A delivery whose last allowed attempt was in flight when the process stopped is stranded by the
  restart: \<open>release_in_flight_deliveries\<close> makes it pending with its budget used up, so no reservation
  with that budget ever takes it or changes it, and it is not reported as exhausted.
\<close>

theorem release_strands_last_attempt:
  assumes "d \<in> set (db_deliveries s)" "dl_state d = InFlight" "dl_attempts d = k" "1 \<le> k" "dels_ok k s"
  shows "\<exists>d' \<in> set (db_deliveries (snd (release_in_flight_deliveries now s))).
      dl_id d' = dl_id d \<and> dl_state d' = Pending
    \<and> (\<forall>limit now'. d' \<in> set (db_deliveries (snd (reserve_due_deliveries limit k now' (snd (release_in_flight_deliveries now s))))))
    \<and> (\<forall>now'. reserve_delivery (dl_id d) k now' (snd (release_in_flight_deliveries now s))
                = (None, snd (release_in_flight_deliveries now s)))"
proof -
  let ?t = "snd (release_in_flight_deliveries now s)"
  let ?d = "d\<lparr>dl_state := Pending, dl_next_attempt_at := now, dl_updated_at := now\<rparr>"
  have in_t: "?d \<in> set (db_deliveries ?t)"
    using assms(1,2) by (auto simp: release_in_flight_deliveries_def Let_def set_update_rows)
  have dis: "distinct (map dl_id (db_deliveries ?t))"
    using release_dels_ok [OF assms(5), of now] by (simp add: dels_ok_def)
  have not_due: "\<not> due (max k 1) now' ?t e" if "e \<in> set (db_deliveries ?t)" "dl_id e = dl_id d" for e now'
  proof -
    have "inj_on dl_id (set (db_deliveries ?t))" using dis by (simp add: distinct_map)
    then have "e = ?d" by (rule inj_onD) (simp_all add: that in_t)
    with assms(3,4) show ?thesis by (simp add: due_def)
  qed
  have "?d \<in> set (db_deliveries (snd (reserve_due_deliveries limit k now' ?t)))" for limit now'
    using in_t not_due due_list_unique_id [OF dis in_t, of limit k now']
    by (auto simp: reserve_due_eq [OF dis] set_update_rows)
  moreover have "reserve_delivery (dl_id d) k now' ?t = (None, ?t)" for now'
  proof -
    let ?p = "\<lambda>r. dl_id r = dl_id d \<and> due (max k 1) now' ?t r"
    have none: "\<not> ?p r" if "r \<in> set (db_deliveries ?t)" for r using not_due that by blast
    then have "update_rows ?p (take_flight now') (db_deliveries ?t) = db_deliveries ?t"
      by (auto simp: update_rows_def intro!: map_idI)
    moreover have "affected ?p (db_deliveries ?t) = 0" using none by (auto simp: affected_zero)
    ultimately show ?thesis by (simp add: reserve_delivery_def Let_def)
  qed
  ultimately show ?thesis using in_t by (intro bexI [of _ ?d]) auto
qed

theorem release_strands_last_attempt_witness:
  "\<exists>d' \<in> set (db_deliveries (snd (release_in_flight_deliveries 50 (example_db [example_message 100 1 1] [example_delivery 1 1 InFlight 3])))).
      dl_id d' = 200 \<and> dl_state d' = Pending"
proof -
  let ?s = "example_db [example_message 100 1 1] [example_delivery 1 1 InFlight 3]"
  let ?d = "example_delivery 1 1 InFlight 3"
  have h: "?d \<in> set (db_deliveries ?s)" "dl_state ?d = InFlight" "dl_attempts ?d = 3" "dl_id ?d = 200"
    by (simp_all add: example_defs)
  have ok: "dels_ok 3 ?s" unfolding example_dels_ok by (simp add: budget_ok_def example_delivery_def)
  show ?thesis using release_strands_last_attempt [OF h(1-3) _ ok, of 50] h(4) by auto
qed

text \<open>
  Reading the inbox loses and repeats nothing: what a call returns, followed by what is unread
  afterwards, is exactly what was unread before, in sequence order, and the call returns as many
  messages as the (clamped) limit allows.
\<close>

theorem consume_inbox_no_loss:
  assumes "msgs_ok s" "default_channel_for_agent ag s = Some ch" "consume_agent_inbox now ag limit s = Inr (ms, t)"
  shows "unread ag ch (inbox_cursor ag s) s = ms @ unread ag ch (inbox_cursor ag t) t
    \<and> length ms = min (clamp_limit limit) (length (unread ag ch (inbox_cursor ag s) s))"
  by (rule consume_split [OF assms])

theorem consume_inbox_no_loss_witness:
  "\<exists>ms t. consume_agent_inbox 9 10 1 (example_db [example_message 100 1 1, example_message 101 1 2] []) = Inr (ms, t)
     \<and> ms @ unread 10 1 (inbox_cursor 10 t) t = [example_message 100 1 1, example_message 101 1 2]"
proof -
  let ?s = "example_db [example_message 100 1 1, example_message 101 1 2] []"
  have h: "msgs_ok ?s" "default_channel_for_agent 10 ?s = Some 1"
    by (simp_all add: msgs_ok_def default_channel_for_agent_def example_defs)
  have u: "unread 10 1 (inbox_cursor 10 ?s) ?s = [example_message 100 1 1, example_message 101 1 2]"
    by (simp add: unread_def inbox_cursor_def example_defs)
  have "\<exists>ms t. consume_agent_inbox 9 10 1 ?s = Inr (ms, t)"
    unfolding consume_agent_inbox_def h(2) option.case u
    by (simp add: clamp_limit_def Let_def upsert_inbox_cursor_def example_defs)
  then obtain ms t where "consume_agent_inbox 9 10 1 ?s = Inr (ms, t)" by blast
  with consume_inbox_no_loss [OF h this] u show ?thesis by auto
qed

text \<open>
  A message page is the last \<open>limit\<close> messages (between 1 and 200) of the channel's history that lie
  in the requested window, in sequence order.
\<close>

theorem message_page_is_latest_window:
  assumes "msgs_ok s"
  shows "list_message_page ch limit before after s =
    (let w = filter (\<lambda>m. in_window before after (me_seq m)) (list_messages ch s)
     in drop (length w - clamp_limit limit) w)
    \<and> 1 \<le> clamp_limit limit \<and> clamp_limit limit \<le> 200"
  using page_eq [OF assms] clamp_limit_bounds by simp

theorem message_page_is_latest_window_witness:
  "list_message_page 1 1 None None (example_db [example_message 100 1 1, example_message 101 1 2] []) = [example_message 101 1 2]"
proof -
  let ?s = "example_db [example_message 100 1 1, example_message 101 1 2] []"
  have ok: "msgs_ok ?s" by (simp add: msgs_ok_def example_defs)
  have l: "list_messages 1 ?s = [example_message 100 1 1, example_message 101 1 2]"
    by (simp add: list_messages_def example_defs)
  show ?thesis
    using message_page_is_latest_window [OF ok, of 1 1 None None]
    unfolding l by (simp add: in_window_def clamp_limit_def)
qed

text \<open>
  The read cursor is one number per agent, compared with the sequence numbers of whichever channel
  is read: completing a delivery in one channel hides from \<open>consume_agent_inbox\<close> every unread message
  of the agent's default channel with a number up to the delivery's, for good.
\<close>

theorem completion_hides_other_channel:
  assumes "complete_delivery i now1 now2 d content s = Inr (m, t)"
    and "default_channel_for_agent (dl_agent_id d) s = Some ch" "ch \<noteq> dl_channel_id d"
    and "u \<in> set (unread (dl_agent_id d) ch (inbox_cursor (dl_agent_id d) s) s)" "me_seq u \<le> dl_seq d"
    and "consume_agent_inbox now (dl_agent_id d) limit t = Inr (ms, t')"
  shows "u \<in> set (db_messages t) \<and> u \<notin> set ms"
proof -
  note e = complete_delivery_effect [OF assms(1)]
  have ch: "default_channel_for_agent (dl_agent_id d) t = Some ch"
    using assms(2) unfolding default_channel_for_agent_def e(4,5) .
  have "dl_seq d \<le> inbox_cursor (dl_agent_id d) t" unfolding e(3) by (auto split: option.splits)
  with assms(5) have "u \<notin> set (unread (dl_agent_id d) ch (inbox_cursor (dl_agent_id d) t) t)"
    by (auto simp: unread_set)
  moreover have "set ms \<subseteq> set (unread (dl_agent_id d) ch (inbox_cursor (dl_agent_id d) t) t)"
    using assms(6) ch by (auto simp: consume_agent_inbox_def Let_def split: if_splits sum.splits dest: in_set_takeD)
  ultimately show ?thesis using assms(4) by (auto simp: e unread_set)
qed

theorem completion_hides_other_channel_witness:
  "\<exists>m t ms t'. complete_delivery 102 9 9 (example_delivery 2 1 InFlight 1) ''ok''
       (example_db [example_message 100 2 1, example_message 101 1 1] [example_delivery 2 1 InFlight 1]) = Inr (m, t)
     \<and> consume_agent_inbox 10 10 50 t = Inr (ms, t') \<and> example_message 101 1 1 \<notin> set ms"
proof -
  let ?s = "example_db [example_message 100 2 1, example_message 101 1 1] [example_delivery 2 1 InFlight 1]"
  let ?d = "example_delivery 2 1 InFlight 1"
  have ag: "dl_agent_id ?d = 10" "dl_channel_id ?d = 2" "dl_seq ?d = 1" by (simp_all add: example_delivery_def)
  have "\<exists>m t. complete_delivery 102 9 9 ?d ''ok'' ?s = Inr (m, t)"
    by (simp add: complete_delivery_def affected_def upsert_inbox_cursor_def insert_message_iff Let_def example_defs)
  then obtain m t where c: "complete_delivery 102 9 9 ?d ''ok'' ?s = Inr (m, t)" by blast
  have ch: "default_channel_for_agent (dl_agent_id ?d) ?s = Some 1"
    by (simp add: default_channel_for_agent_def example_defs)
  have u: "example_message 101 1 1 \<in> set (unread (dl_agent_id ?d) 1 (inbox_cursor (dl_agent_id ?d) ?s) ?s)"
    by (simp add: unread_def inbox_cursor_def example_defs)
  note e = complete_delivery_effect [OF c]
  have "\<exists>c at. hm_get (db_inbox t) 10 = Some (c, at)"
    using c by (auto simp: complete_delivery_def affected_def upsert_inbox_cursor_def insert_message_iff Let_def example_defs)
  then have "\<exists>ms t'. consume_agent_inbox 10 (dl_agent_id ?d) 50 t = Inr (ms, t')"
    by (auto simp: consume_agent_inbox_def upsert_inbox_cursor_def Let_def ag split: option.splits)
  then obtain ms t' where r: "consume_agent_inbox 10 (dl_agent_id ?d) 50 t = Inr (ms, t')" by blast
  have "example_message 101 1 1 \<notin> set ms"
    using completion_hides_other_channel [OF c ch _ u _ r] ag by (simp add: example_message_def)
  with c r ag show ?thesis by auto
qed

end
