(* ===== verification/StoreTasks.thy ===== *)
theory StoreTasks
  imports StoreDelivery RustStr
begin

text \<open>
  Channel tasks of the store (\<open>crates/cocli-store/src/lib.rs\<close>): numbering, claiming, the status
  life cycle and the dependency graph. A method that reads and then writes in separate statements
  is the composition of a check and a write (\<open>claim_check\<close>/\<open>claim_write\<close>, and so on), so that
  another call running between them can be stated.
\<close>

section \<open>Reading tasks\<close>

definition task_from_row :: "db \<Rightarrow> task_row \<Rightarrow> task" where
  "task_from_row s r =
     \<lparr>ta_id = tk_id r, ta_channel_id = tk_channel_id r, ta_message_id = tk_message_id r,
      ta_task_number = tk_task_number r, ta_title = tk_title r, ta_status = tk_status r,
      ta_progress = tk_progress r, ta_assignee_id = tk_assignee_id r,
      ta_assignee_type = map_option (\<lambda>_. ''agent'') (tk_assignee_id r),
      ta_assignee_name =
        Option.bind (tk_assignee_id r) (\<lambda>a. map_option ag_name (find (\<lambda>g. ag_id g = a) (db_agents s))),
      ta_created_by_id = tk_created_by_agent_id r,
      ta_created_by_type = map_option (\<lambda>_. ''agent'') (tk_created_by_agent_id r),
      ta_created_at = tk_created_at r, ta_updated_at = tk_updated_at r\<rparr>"

definition at_number :: "uuid \<Rightarrow> int \<Rightarrow> task_row \<Rightarrow> bool" where
  "at_number ch n r \<longleftrightarrow> tk_channel_id r = ch \<and> tk_task_number r = n"

definition get_task_by_id :: "uuid \<Rightarrow> db \<Rightarrow> task option" where
  "get_task_by_id i s = map_option (task_from_row s) (find (\<lambda>r. tk_id r = i) (db_tasks s))"

definition get_task :: "uuid \<Rightarrow> int \<Rightarrow> db \<Rightarrow> task option" where
  "get_task ch n s = map_option (task_from_row s) (find (at_number ch n) (db_tasks s))"

definition get_task_by_message :: "uuid \<Rightarrow> uuid \<Rightarrow> db \<Rightarrow> task option" where
  "get_task_by_message ch msg s =
     map_option (task_from_row s) (find (\<lambda>r. tk_channel_id r = ch \<and> tk_message_id r = Some msg) (db_tasks s))"

definition list_tasks :: "uuid \<Rightarrow> task_status option \<Rightarrow> db \<Rightarrow> task list" where
  "list_tasks ch status s =
     (case status of
        Some st \<Rightarrow> map (task_from_row s)
          (sort_key tk_task_number (filter (\<lambda>r. tk_channel_id r = ch \<and> tk_status r = st) (db_tasks s)))
      | None \<Rightarrow> map (task_from_row s)
          (sort_key tk_task_number (filter (\<lambda>r. tk_channel_id r = ch) (db_tasks s))))"

section \<open>Creating\<close>

text \<open>\<open>title.chars().take(n)\<close> on the UTF-8 bytes of the title.\<close>

fun take_chars :: "nat \<Rightarrow> string \<Rightarrow> string" where
  "take_chars 0 t = []"
| "take_chars (Suc n) t = take (utf8_len t) t @ take_chars n (drop (utf8_len t) t)"

definition next_task_number :: "uuid \<Rightarrow> db \<Rightarrow> int" where
  "next_task_number ch s = max_or_zero (map tk_task_number (filter (\<lambda>r. tk_channel_id r = ch) (db_tasks s))) + 1"

definition create_task ::
  "(uuid \<Rightarrow> string) \<Rightarrow> uuid \<Rightarrow> timestamp \<Rightarrow> uuid \<Rightarrow> string \<Rightarrow> uuid option \<Rightarrow> uuid option \<Rightarrow> db \<Rightarrow> task tx" where
  "create_task uuid_text new_id now ch title msg by_agent s =
     (let r = \<lparr>tk_id = new_id, tk_channel_id = ch, tk_message_id = msg, tk_task_number = next_task_number ch s,
               tk_title = take_chars 100 title, tk_status = Todo, tk_progress = None, tk_assignee_id = None,
               tk_created_by_agent_id = by_agent, tk_created_at = now, tk_updated_at = now\<rparr>;
          s' = s\<lparr>db_tasks := db_tasks s @ [r]\<rparr>
      in if new_id \<in> tk_id ` set (db_tasks s)
            \<or> (msg \<noteq> None \<and> msg \<in> tk_message_id ` set (db_tasks s))
            \<or> (\<exists>r' \<in> set (db_tasks s). at_number ch (next_task_number ch s) r')
            \<or> ch \<notin> channel_ids s \<or> \<not> opt_ref msg (message_ids s) \<or> \<not> opt_ref by_agent (agent_ids s)
         then Inl constraint
         else (case get_task_by_id new_id s' of
                 None \<Rightarrow> Inl (InvalidValue ''task'' (uuid_text new_id))
               | Some t \<Rightarrow> Inr (t, s')))"

section \<open>Claiming\<close>

definition dependencies_met :: "uuid \<Rightarrow> int \<Rightarrow> db \<Rightarrow> bool" where
  "dependencies_met ch n s \<longleftrightarrow>
     affected (\<lambda>(d, p). tk_channel_id p = td_channel_id d \<and> tk_task_number p = td_depends_on d
                 \<and> td_channel_id d = ch \<and> td_task_number d = n \<and> tk_status p \<noteq> Done)
       (List.product (db_deps s) (db_tasks s)) = 0"

definition claim_check :: "uuid \<Rightarrow> int \<Rightarrow> uuid \<Rightarrow> db \<Rightarrow> store_error + task option" where
  "claim_check ch n ag s =
     (case get_task ch n s of
        None \<Rightarrow> Inl (TaskNotFound n)
      | Some t \<Rightarrow>
          if ta_assignee_id t = Some ag then Inr (Some t)
          else if ta_assignee_id t \<noteq> None then Inl (TaskAlreadyClaimed n)
          else if \<not> dependencies_met ch n s then Inl (TaskUnmetDependencies n)
          else Inr None)"

definition claim_write :: "timestamp \<Rightarrow> uuid \<Rightarrow> int \<Rightarrow> uuid \<Rightarrow> db \<Rightarrow> task tx" where
  "claim_write now ch n ag s =
     (let p = (\<lambda>r. at_number ch n r \<and> tk_assignee_id r = None);
          f = (\<lambda>r. r\<lparr>tk_assignee_id := Some ag,
                     tk_status := (if tk_status r = Todo then InProgress else tk_status r), tk_updated_at := now\<rparr>);
          s' = s\<lparr>db_tasks := update_rows p f (db_tasks s)\<rparr>
      in if 0 < affected p (db_tasks s) \<and> ag \<notin> agent_ids s then Inl constraint
         else if affected p (db_tasks s) \<noteq> 1 then Inl (TaskAlreadyClaimed n)
         else (case get_task ch n s' of None \<Rightarrow> Inl (TaskNotFound n) | Some t \<Rightarrow> Inr (t, s')))"

definition claim_task :: "timestamp \<Rightarrow> uuid \<Rightarrow> int \<Rightarrow> uuid \<Rightarrow> db \<Rightarrow> task tx" where
  "claim_task now ch n ag s =
     (case claim_check ch n ag s of
        Inl e \<Rightarrow> Inl e
      | Inr (Some t) \<Rightarrow> Inr (t, s)
      | Inr None \<Rightarrow> claim_write now ch n ag s)"

definition unclaim_task :: "timestamp \<Rightarrow> uuid \<Rightarrow> int \<Rightarrow> db \<Rightarrow> task tx" where
  "unclaim_task now ch n s =
     (let f = (\<lambda>r. r\<lparr>tk_assignee_id := None,
                     tk_status := (if tk_status r = InProgress then Todo else tk_status r), tk_updated_at := now\<rparr>);
          s' = s\<lparr>db_tasks := update_rows (at_number ch n) f (db_tasks s)\<rparr>
      in if affected (at_number ch n) (db_tasks s) \<noteq> 1 then Inl (TaskNotFound n)
         else (case get_task ch n s' of None \<Rightarrow> Inl (TaskNotFound n) | Some t \<Rightarrow> Inr (t, s')))"

section \<open>Status life cycle\<close>

definition can_transition_to :: "task_status \<Rightarrow> task_status \<Rightarrow> bool" where
  "can_transition_to a b \<longleftrightarrow> a = b
     \<or> (a, b) \<in> {(Todo, InProgress), (InProgress, InReview), (InProgress, Done), (InReview, InProgress), (InReview, Done)}"

definition status_check :: "uuid \<Rightarrow> int \<Rightarrow> task_status \<Rightarrow> string option \<Rightarrow> db \<Rightarrow> store_error + task option" where
  "status_check ch n status progress s =
     (case get_task ch n s of
        None \<Rightarrow> Inl (TaskNotFound n)
      | Some t \<Rightarrow>
          if \<not> can_transition_to (ta_status t) status
          then Inl (InvalidTaskTransition (task_status_as_str (ta_status t)) (task_status_as_str status))
          else if ta_status t = status \<and> progress = None then Inr (Some t)
          else Inr None)"

definition status_write :: "timestamp \<Rightarrow> uuid \<Rightarrow> int \<Rightarrow> task_status \<Rightarrow> string option \<Rightarrow> db \<Rightarrow> task tx" where
  "status_write now ch n status progress s =
     (let f = (case progress of
                 Some p \<Rightarrow> (\<lambda>r. r\<lparr>tk_status := status, tk_progress := Some p, tk_updated_at := now\<rparr>)
               | None \<Rightarrow> (\<lambda>r. r\<lparr>tk_status := status, tk_updated_at := now\<rparr>));
          s' = s\<lparr>db_tasks := update_rows (at_number ch n) f (db_tasks s)\<rparr>
      in case get_task ch n s' of None \<Rightarrow> Inl (TaskNotFound n) | Some t \<Rightarrow> Inr (t, s'))"

definition update_task_status ::
  "timestamp \<Rightarrow> uuid \<Rightarrow> int \<Rightarrow> task_status \<Rightarrow> string option \<Rightarrow> db \<Rightarrow> task tx" where
  "update_task_status now ch n status progress s =
     (case status_check ch n status progress s of
        Inl e \<Rightarrow> Inl e
      | Inr (Some t) \<Rightarrow> Inr (t, s)
      | Inr None \<Rightarrow> status_write now ch n status progress s)"

section \<open>Dependencies\<close>

definition edges :: "uuid \<Rightarrow> db \<Rightarrow> (int \<times> int) list" where
  "edges ch s = map (\<lambda>d. (td_task_number d, td_depends_on d)) (filter (\<lambda>d. td_channel_id d = ch) (db_deps s))"

text \<open>
  The recursive common table expression: its first rows, then the rows one more join adds, without
  duplicates. As many rounds as there are edges reach every row (\<open>recursive_rows_complete\<close>).
\<close>

fun recursive_rows :: "nat \<Rightarrow> (int \<times> int) list \<Rightarrow> int list \<Rightarrow> int list" where
  "recursive_rows 0 es rows = rows"
| "recursive_rows (Suc n) es rows =
     recursive_rows n es (rows @ map snd (filter (\<lambda>(a, b). a \<in> set rows \<and> b \<notin> set rows) es))"

definition reachable_from :: "uuid \<Rightarrow> int \<Rightarrow> db \<Rightarrow> int list" where
  "reachable_from ch n s =
     recursive_rows (length (edges ch s)) (edges ch s) (map snd (filter (\<lambda>(a, b). a = n) (edges ch s)))"

definition dependency_check :: "uuid \<Rightarrow> int \<Rightarrow> int \<Rightarrow> db \<Rightarrow> store_error option" where
  "dependency_check ch n dep s =
     (if n = dep then Some TaskDependencySelf
      else if get_task ch n s = None then Some (TaskNotFound n)
      else if get_task ch dep s = None then Some (TaskNotFound dep)
      else if n \<in> set (reachable_from ch dep s) then Some TaskDependencyCycle
      else None)"

definition dependency_write :: "timestamp \<Rightarrow> uuid \<Rightarrow> int \<Rightarrow> int \<Rightarrow> db \<Rightarrow> unit tx" where
  "dependency_write now ch n dep s =
     (if (n, dep) \<in> set (edges ch s) \<or> n = dep then Inr ((), s)
      else if \<not> (\<exists>r \<in> set (db_tasks s). at_number ch n r) \<or> \<not> (\<exists>r \<in> set (db_tasks s). at_number ch dep r)
      then Inl constraint
      else Inr ((), s\<lparr>db_deps := db_deps s @
             [\<lparr>td_channel_id = ch, td_task_number = n, td_depends_on = dep, td_created_at = now\<rparr>]\<rparr>))"

definition add_task_dependency :: "timestamp \<Rightarrow> uuid \<Rightarrow> int \<Rightarrow> int \<Rightarrow> db \<Rightarrow> unit tx" where
  "add_task_dependency now ch n dep s =
     (case dependency_check ch n dep s of
        Some e \<Rightarrow> Inl e
      | None \<Rightarrow> dependency_write now ch n dep s)"

definition remove_task_dependency :: "uuid \<Rightarrow> int \<Rightarrow> int \<Rightarrow> db \<Rightarrow> bool \<times> db" where
  "remove_task_dependency ch n dep s =
     (let p = (\<lambda>d. td_channel_id d = ch \<and> td_task_number d = n \<and> td_depends_on d = dep)
      in (0 < affected p (db_deps s), s\<lparr>db_deps := filter (\<lambda>d. \<not> p d) (db_deps s)\<rparr>))"

definition get_task_dependencies :: "uuid \<Rightarrow> int \<Rightarrow> db \<Rightarrow> int list" where
  "get_task_dependencies ch n s = sort (map snd (filter (\<lambda>(a, b). a = n) (edges ch s)))"

section \<open>What the schema and the methods keep\<close>

definition tasks_ok :: "db \<Rightarrow> bool" where
  "tasks_ok s \<longleftrightarrow> distinct (map tk_id (db_tasks s))
     \<and> distinct (map (\<lambda>r. (tk_channel_id r, tk_task_number r)) (db_tasks s))
     \<and> (\<forall>r \<in> set (db_tasks s). 1 \<le> tk_task_number r \<and> tk_channel_id r \<in> channel_ids s
          \<and> opt_ref (tk_message_id r) (message_ids s) \<and> opt_ref (tk_assignee_id r) (agent_ids s)
          \<and> opt_ref (tk_created_by_agent_id r) (agent_ids s))"

definition deps_ok :: "db \<Rightarrow> bool" where
  "deps_ok s \<longleftrightarrow> distinct (map (\<lambda>d. (td_channel_id d, td_task_number d, td_depends_on d)) (db_deps s))
     \<and> (\<forall>d \<in> set (db_deps s). (\<exists>r \<in> set (db_tasks s). at_number (td_channel_id d) (td_task_number d) r)
                             \<and> (\<exists>r \<in> set (db_tasks s). at_number (td_channel_id d) (td_depends_on d) r))
     \<and> (\<forall>ch. acyclic (set (edges ch s)))"

lemmas [store_ok_defs] = tasks_ok_def deps_ok_def

subsection \<open>The recursive query\<close>

lemma recursive_rows_set:
  "set (recursive_rows n es rows) = (\<Union>k \<le> n. set es ^^ k) `` set rows"
proof (induction n arbitrary: rows)
  case 0
  then show ?case by simp
next
  case (Suc n)
  let ?E = "set es"
  let ?next = "rows @ map snd (filter (\<lambda>(a, b). a \<in> set rows \<and> b \<notin> set rows) es)"
  have "set ?next = set rows \<union> ?E `` set rows" by force
  then have "set (recursive_rows (Suc n) es rows) = (\<Union>k \<le> n. ?E ^^ k) `` (set rows \<union> ?E `` set rows)"
    by (simp add: Suc.IH)
  also have "\<dots> = (\<Union>k \<le> Suc n. ?E ^^ k) `` set rows"
  proof -
    have "(\<Union>k \<le> n. ?E ^^ k) `` (?E `` set rows) = (\<Union>k \<le> n. ?E ^^ Suc k) `` set rows"
      by (simp add: relcomp_Image [symmetric] relcomp_UNION_distrib relpow_commute)
    moreover have "{..Suc n} = {..n} \<union> Suc ` {..n}" by (auto simp: le_Suc_eq)
    then have "(\<Union>k \<le> Suc n. ?E ^^ k) = (\<Union>k \<le> n. ?E ^^ k) \<union> (\<Union>k \<le> n. ?E ^^ Suc k)"
      by (simp only: UN_Un UN_simps)
    ultimately show ?thesis by (simp add: Image_Un Un_Image)
  qed
  finally show ?case .
qed

lemma recursive_rows_complete:
  "set (recursive_rows (length es) es rows) = (set es)\<^sup>* `` set rows"
proof -
  have "(\<Union>k \<le> length es. set es ^^ k) = (set es)\<^sup>*"
  proof
    show "(\<Union>k \<le> length es. set es ^^ k) \<subseteq> (set es)\<^sup>*" by (auto simp: relpow_imp_rtrancl)
    have "(set es)\<^sup>* = (\<Union>k \<in> {k. k \<le> card (set es)}. set es ^^ k)"
      by (rule rtrancl_finite_eq_relpow) simp
    then show "(set es)\<^sup>* \<subseteq> (\<Union>k \<le> length es. set es ^^ k)"
      using card_length [of es] by (auto intro: order_trans)
  qed
  then show ?thesis by (simp add: recursive_rows_set)
qed

lemma reachable_from_set: "m \<in> set (reachable_from ch n s) \<longleftrightarrow> (n, m) \<in> (set (edges ch s))\<^sup>+"
proof -
  have "set (map snd (filter (\<lambda>(a, b). a = n) (edges ch s))) = set (edges ch s) `` {n}" by force
  then have "set (reachable_from ch n s) = (set (edges ch s))\<^sup>* `` (set (edges ch s) `` {n})"
    by (simp add: reachable_from_def recursive_rows_complete)
  then show ?thesis by (auto simp: trancl_unfold_left)
qed

subsection \<open>Keeping the task tables well-formed\<close>

lemma at_number_key: "at_number ch n = (\<lambda>r. (tk_channel_id r, tk_task_number r) = (ch, n))"
  by (auto simp: fun_eq_iff at_number_def)

lemma find_task:
  assumes "tasks_ok s"
  shows "find (at_number ch n) (db_tasks s) = Some r \<longleftrightarrow> r \<in> set (db_tasks s) \<and> at_number ch n r"
proof
  assume "r \<in> set (db_tasks s) \<and> at_number ch n r"
  with assms show "find (at_number ch n) (db_tasks s) = Some r"
    unfolding at_number_key tasks_ok_def by (intro find_key) auto
qed (rule find_Some_set)

lemma at_number_unique:
  "tasks_ok s \<Longrightarrow> r \<in> set (db_tasks s) \<Longrightarrow> r' \<in> set (db_tasks s) \<Longrightarrow> at_number ch n r \<Longrightarrow> at_number ch n r' \<Longrightarrow> r = r'"
  by (auto simp: tasks_ok_def at_number_def distinct_map inj_on_def)

lemma affected_at_number:
  assumes "tasks_ok s" "r \<in> set (db_tasks s)" "at_number ch n r" "q r"
  shows "affected (\<lambda>r. at_number ch n r \<and> q r) (db_tasks s) = 1"
  using assms
  by (intro affected_key [where g = "\<lambda>r. (tk_channel_id r, tk_task_number r)" and r = r])
     (auto simp: tasks_ok_def at_number_def)

lemma next_task_number_above: "r \<in> set (db_tasks s) \<Longrightarrow> tk_channel_id r = ch \<Longrightarrow> tk_task_number r < next_task_number ch s"
  unfolding next_task_number_def by (simp add: zless_add1_eq order_le_less [symmetric] sql_max_upper)

lemma next_task_number_pos: "tasks_ok s \<Longrightarrow> 1 \<le> next_task_number ch s"
proof -
  assume ok: "tasks_ok s"
  let ?rs = "filter (\<lambda>r. tk_channel_id r = ch) (db_tasks s)"
  show ?thesis
  proof (cases "?rs = []")
    case False
    then obtain r where "r \<in> set ?rs" by (cases ?rs) auto
    with ok next_task_number_above [of r s ch] show ?thesis by (auto simp: tasks_ok_def)
  qed (simp add: next_task_number_def)
qed

lemma tasks_ok_update:
  assumes "tasks_ok s"
    and "\<And>r. tk_id (f r) = tk_id r \<and> tk_channel_id (f r) = tk_channel_id r \<and> tk_task_number (f r) = tk_task_number r
            \<and> tk_message_id (f r) = tk_message_id r \<and> tk_created_by_agent_id (f r) = tk_created_by_agent_id r"
    and "\<And>r. r \<in> set (db_tasks s) \<Longrightarrow> p r \<Longrightarrow> opt_ref (tk_assignee_id r) (agent_ids s) \<Longrightarrow> opt_ref (tk_assignee_id (f r)) (agent_ids s)"
  shows "tasks_ok (s\<lparr>db_tasks := update_rows p f (db_tasks s)\<rparr>)"
proof -
  have "map tk_id (update_rows p f (db_tasks s)) = map tk_id (db_tasks s)"
    "map (\<lambda>r. (tk_channel_id r, tk_task_number r)) (update_rows p f (db_tasks s))
       = map (\<lambda>r. (tk_channel_id r, tk_task_number r)) (db_tasks s)"
    using assms(2) by (simp_all add: map_update_rows)
  moreover have "1 \<le> tk_task_number r \<and> tk_channel_id r \<in> channel_ids s
          \<and> opt_ref (tk_message_id r) (message_ids s) \<and> opt_ref (tk_assignee_id r) (agent_ids s)
          \<and> opt_ref (tk_created_by_agent_id r) (agent_ids s)"
    if r: "r \<in> set (update_rows p f (db_tasks s))" for r
  proof (cases "r \<in> set (db_tasks s)")
    case True
    with assms(1) show ?thesis by (auto simp: tasks_ok_def)
  next
    case False
    with r obtain r' where "r' \<in> set (db_tasks s)" "p r'" "r = f r'" by (auto simp: set_update_rows)
    with assms show ?thesis by (simp add: tasks_ok_def)
  qed
  ultimately show ?thesis using assms(1) by (auto simp: tasks_ok_def)
qed

lemma deps_ok_update:
  assumes "deps_ok s"
    and "\<And>r. tk_channel_id (f r) = tk_channel_id r \<and> tk_task_number (f r) = tk_task_number r"
  shows "deps_ok (s\<lparr>db_tasks := update_rows p f (db_tasks s)\<rparr>)"
proof -
  have "(\<exists>r \<in> set (update_rows p f (db_tasks s)). at_number ch n r) \<longleftrightarrow> (\<exists>r \<in> set (db_tasks s). at_number ch n r)" for ch n
    using assms(2) by (auto simp: update_rows_def at_number_def)
  with assms(1) show ?thesis by (simp add: deps_ok_def edges_def)
qed

subsection \<open>The operations as steps\<close>

text \<open>Here every call runs alone, its check and its write together; the interleaved additions are below.\<close>

inductive task_step :: "db \<Rightarrow> db \<Rightarrow> bool" where
  step_create: "create_task ut i now ch title msg by_agent s = Inr (t, s') \<Longrightarrow> task_step s s'"
| step_claim: "claim_task now ch n ag s = Inr (t, s') \<Longrightarrow> task_step s s'"
| step_unclaim: "unclaim_task now ch n s = Inr (t, s') \<Longrightarrow> task_step s s'"
| step_status: "update_task_status now ch n status progress s = Inr (t, s') \<Longrightarrow> task_step s s'"
| step_add: "add_task_dependency now ch n dep s = Inr (u, s') \<Longrightarrow> task_step s s'"
| step_remove: "remove_task_dependency ch n dep s = (b, s') \<Longrightarrow> task_step s s'"

inductive_cases task_stepE: "task_step s s'"

lemma create_taskE:
  assumes "create_task ut i now ch title msg by_agent s = Inr (t, s')"
  obtains r where "s' = s\<lparr>db_tasks := db_tasks s @ [r]\<rparr>" "t = task_from_row s' r"
    "tk_id r = i" "tk_channel_id r = ch" "tk_message_id r = msg" "tk_task_number r = next_task_number ch s"
    "tk_title r = take_chars 100 title" "tk_status r = Todo" "tk_assignee_id r = None" "tk_created_by_agent_id r = by_agent"
    "i \<notin> tk_id ` set (db_tasks s)" "ch \<in> channel_ids s" "opt_ref msg (message_ids s)" "opt_ref by_agent (agent_ids s)"
proof -
  let ?r = "\<lparr>tk_id = i, tk_channel_id = ch, tk_message_id = msg, tk_task_number = next_task_number ch s,
               tk_title = take_chars 100 title, tk_status = Todo, tk_progress = None, tk_assignee_id = None,
               tk_created_by_agent_id = by_agent, tk_created_at = now, tk_updated_at = now\<rparr>"
  have "find (\<lambda>r. tk_id r = i) (db_tasks s @ [?r]) = Some ?r" if "i \<notin> tk_id ` set (db_tasks s)"
    using that by (intro find_snoc_key) simp_all
  with assms show ?thesis
    by (intro that [of ?r]) (auto simp: create_task_def get_task_by_id_def Let_def split: if_splits)
qed

lemma claim_writeE:
  assumes "claim_write now ch n ag s = Inr (t, s')"
  obtains "affected (\<lambda>r. at_number ch n r \<and> tk_assignee_id r = None) (db_tasks s) = 1" "ag \<in> agent_ids s"
    "s' = s\<lparr>db_tasks := update_rows (\<lambda>r. at_number ch n r \<and> tk_assignee_id r = None)
       (\<lambda>r. r\<lparr>tk_assignee_id := Some ag, tk_status := (if tk_status r = Todo then InProgress else tk_status r), tk_updated_at := now\<rparr>)
       (db_tasks s)\<rparr>" "get_task ch n s' = Some t"
  using assms by (auto simp: claim_write_def Let_def split: if_splits option.splits)

lemma claim_taskE:
  assumes "claim_task now ch n ag s = Inr (t, s')"
  obtains (already) "s' = s" "get_task ch n s = Some t" "ta_assignee_id t = Some ag"
  | (written) t0 where "get_task ch n s = Some t0" "ta_assignee_id t0 = None" "dependencies_met ch n s" "claim_write now ch n ag s = Inr (t, s')"
  using assms by (auto simp: claim_task_def claim_check_def split: sum.splits option.splits if_splits)

lemma update_task_statusE:
  assumes "update_task_status now ch n status progress s = Inr (t, s')"
  obtains (same) "s' = s" "get_task ch n s = Some t" "ta_status t = status"
  | (written) t0 where "get_task ch n s = Some t0" "can_transition_to (ta_status t0) status"
      "status_write now ch n status progress s = Inr (t, s')"
  using assms by (auto simp: update_task_status_def status_check_def split: sum.splits option.splits if_splits)

definition set_status :: "timestamp \<Rightarrow> task_status \<Rightarrow> string option \<Rightarrow> task_row \<Rightarrow> task_row" where
  "set_status now status progress r =
     r\<lparr>tk_status := status, tk_progress := (case progress of None \<Rightarrow> tk_progress r | Some p \<Rightarrow> Some p), tk_updated_at := now\<rparr>"

lemma set_status_sel [simp]:
  "tk_id (set_status now st p r) = tk_id r" "tk_channel_id (set_status now st p r) = tk_channel_id r"
  "tk_task_number (set_status now st p r) = tk_task_number r" "tk_status (set_status now st p r) = st"
  "tk_assignee_id (set_status now st p r) = tk_assignee_id r" "tk_message_id (set_status now st p r) = tk_message_id r"
  "tk_created_by_agent_id (set_status now st p r) = tk_created_by_agent_id r"
  by (simp_all add: set_status_def)

lemma status_writeE:
  assumes "status_write now ch n status progress s = Inr (t, s')"
  obtains "s' = s\<lparr>db_tasks := update_rows (at_number ch n) (set_status now status progress) (db_tasks s)\<rparr>"
    "get_task ch n s' = Some t"
proof -
  have "(case progress of
           Some p \<Rightarrow> (\<lambda>r. r\<lparr>tk_status := status, tk_progress := Some p, tk_updated_at := now\<rparr>)
         | None \<Rightarrow> (\<lambda>r. r\<lparr>tk_status := status, tk_updated_at := now\<rparr>)) = set_status now status progress"
    by (auto simp: fun_eq_iff set_status_def split: option.splits)
  with assms that show ?thesis by (auto simp: status_write_def Let_def split: option.splits)
qed

lemma unclaim_taskE:
  assumes "unclaim_task now ch n s = Inr (t, s')"
  obtains "affected (at_number ch n) (db_tasks s) = 1" "get_task ch n s' = Some t"
    "s' = s\<lparr>db_tasks := update_rows (at_number ch n)
       (\<lambda>r. r\<lparr>tk_assignee_id := None, tk_status := (if tk_status r = InProgress then Todo else tk_status r), tk_updated_at := now\<rparr>)
       (db_tasks s)\<rparr>"
  using assms by (auto simp: unclaim_task_def Let_def split: if_splits option.splits)

lemma add_task_dependencyE:
  assumes "add_task_dependency now ch n dep s = Inr (u, s')"
  obtains (known) "s' = s" "(n, dep) \<in> set (edges ch s)"
  | (added) "n \<noteq> dep" "(n, dep) \<notin> set (edges ch s)" "(dep, n) \<notin> (set (edges ch s))\<^sup>+"
      "\<exists>r \<in> set (db_tasks s). at_number ch n r" "\<exists>r \<in> set (db_tasks s). at_number ch dep r"
      "s' = s\<lparr>db_deps := db_deps s @ [\<lparr>td_channel_id = ch, td_task_number = n, td_depends_on = dep, td_created_at = now\<rparr>]\<rparr>"
proof -
  have c: "dependency_check ch n dep s = None" and w: "dependency_write now ch n dep s = Inr (u, s')"
    using assms by (simp_all add: add_task_dependency_def split: option.splits)
  from c have c': "n \<noteq> dep" "(dep, n) \<notin> (set (edges ch s))\<^sup>+"
    by (simp_all add: dependency_check_def reachable_from_set split: if_splits)
  show ?thesis
  proof (cases "(n, dep) \<in> set (edges ch s)")
    case True
    with w known show ?thesis by (simp add: dependency_write_def)
  next
    case False
    with w c' have "\<exists>r \<in> set (db_tasks s). at_number ch n r" "\<exists>r \<in> set (db_tasks s). at_number ch dep r"
      "s' = s\<lparr>db_deps := db_deps s @ [\<lparr>td_channel_id = ch, td_task_number = n, td_depends_on = dep, td_created_at = now\<rparr>]\<rparr>"
      unfolding dependency_write_def by (simp_all only: if_False simp_thms split: if_splits) auto
    with added c' False show ?thesis by blast
  qed
qed

subsection \<open>Every step keeps the invariant\<close>

lemma create_task_ok:
  assumes "tasks_ok s" "deps_ok s" "create_task ut i now ch title msg by_agent s = Inr (t, s')"
  shows "tasks_ok s' \<and> deps_ok s'"
  using assms(3)
proof (rule create_taskE)
  fix r
  assume r: "s' = s\<lparr>db_tasks := db_tasks s @ [r]\<rparr>"
    "tk_id r = i" "tk_channel_id r = ch" "tk_message_id r = msg" "tk_task_number r = next_task_number ch s"
    "tk_assignee_id r = None" "tk_created_by_agent_id r = by_agent"
    "i \<notin> tk_id ` set (db_tasks s)" "ch \<in> channel_ids s" "opt_ref msg (message_ids s)" "opt_ref by_agent (agent_ids s)"
  have "(ch, next_task_number ch s) \<notin> (\<lambda>r. (tk_channel_id r, tk_task_number r)) ` set (db_tasks s)"
    using next_task_number_above [of _ s ch] by fastforce
  with r assms(1) next_task_number_pos [OF assms(1), of ch] have "tasks_ok s'"
    by (auto simp: tasks_ok_def)
  moreover have "deps_ok s'" using assms(2) r(1) by (auto simp: deps_ok_def edges_def)
  ultimately show ?thesis by blast
qed

lemma claim_write_ok:
  assumes "tasks_ok s" "deps_ok s" "claim_write now ch n ag s = Inr (t, s')"
  shows "tasks_ok s' \<and> deps_ok s'"
  using assms(3) by (rule claim_writeE) (auto intro!: tasks_ok_update deps_ok_update assms(1,2))

lemma status_write_ok:
  assumes "tasks_ok s" "deps_ok s" "status_write now ch n status progress s = Inr (t, s')"
  shows "tasks_ok s' \<and> deps_ok s'"
  using assms(3) by (rule status_writeE) (auto intro!: tasks_ok_update deps_ok_update assms(1,2))

lemma unclaim_task_ok:
  assumes "tasks_ok s" "deps_ok s" "unclaim_task now ch n s = Inr (t, s')"
  shows "tasks_ok s' \<and> deps_ok s'"
  using assms(3) by (rule unclaim_taskE) (auto intro!: tasks_ok_update deps_ok_update assms(1,2))

lemma edges_snoc:
  "edges c (s\<lparr>db_deps := db_deps s @ [\<lparr>td_channel_id = ch, td_task_number = n, td_depends_on = dep, td_created_at = now\<rparr>]\<rparr>)
   = edges c s @ (if c = ch then [(n, dep)] else [])"
  by (simp add: edges_def)

lemma add_dependency_ok:
  assumes "tasks_ok s" "deps_ok s" "add_task_dependency now ch n dep s = Inr (u, s')"
  shows "tasks_ok s' \<and> deps_ok s'"
  using assms(3)
proof (cases rule: add_task_dependencyE)
  case known
  with assms show ?thesis by simp
next
  case added
  have "(dep, n) \<notin> (set (edges ch s))\<^sup>*"
    using added(1,3) by (metis rtranclD)
  then have "acyclic (set (edges c s'))" for c
    using assms(2) added(6) by (cases "c = ch") (simp_all add: edges_snoc deps_ok_def)
  moreover have "(ch, n, dep) \<notin> (\<lambda>d. (td_channel_id d, td_task_number d, td_depends_on d)) ` set (db_deps s)"
    using added(2) by (force simp: edges_def)
  ultimately show ?thesis
    using assms(1,2) added(4,5,6) by (auto simp: tasks_ok_def deps_ok_def)
qed

lemma remove_dependency_ok:
  assumes "tasks_ok s" "deps_ok s" "remove_task_dependency ch n dep s = (b, s')"
  shows "tasks_ok s' \<and> deps_ok s'"
proof -
  have s': "s' = s\<lparr>db_deps := filter (\<lambda>d. \<not> (td_channel_id d = ch \<and> td_task_number d = n \<and> td_depends_on d = dep)) (db_deps s)\<rparr>"
    using assms(3) by (simp add: remove_task_dependency_def Let_def)
  have "set (edges c s') \<subseteq> set (edges c s)" for c by (auto simp: edges_def s')
  with assms(2) have "acyclic (set (edges c s'))" for c by (meson acyclic_subset deps_ok_def)
  with assms show ?thesis by (auto simp: tasks_ok_def deps_ok_def s' distinct_map_filter)
qed

lemma task_step_ok: "task_step s s' \<Longrightarrow> tasks_ok s \<and> deps_ok s \<Longrightarrow> tasks_ok s' \<and> deps_ok s'"
proof (induction rule: task_step.induct)
  case (step_create ut i now ch title msg by_agent s t s')
  then show ?case using create_task_ok by blast
next
  case (step_claim now ch n ag s t s')
  from step_claim(1) show ?case
    by (cases rule: claim_taskE) (use step_claim(2) claim_write_ok in blast)+
next
  case (step_unclaim now ch n s t s')
  then show ?case using unclaim_task_ok by blast
next
  case (step_status now ch n status progress s t s')
  from step_status(1) show ?case
    by (cases rule: update_task_statusE) (use step_status(2) status_write_ok in blast)+
next
  case (step_add now ch n dep s u s')
  then show ?case using add_dependency_ok by blast
next
  case (step_remove ch n dep s b s')
  then show ?case using remove_dependency_ok by blast
qed

interpretation ts: invariant_system "\<lambda>s. db_tasks s = [] \<and> db_deps s = []" task_step "\<lambda>s. tasks_ok s \<and> deps_ok s"
proof
  show "tasks_ok s \<and> deps_ok s" if "db_tasks s = [] \<and> db_deps s = []" for s
    using that by (simp add: tasks_ok_def deps_ok_def edges_def acyclic_def)
qed (rule task_step_ok)

subsection \<open>Finding a task after an update\<close>

lemma find_at_number_update:
  assumes "\<And>r. tk_channel_id (f r) = tk_channel_id r \<and> tk_task_number (f r) = tk_task_number r"
    "\<And>r. p r \<Longrightarrow> at_number ch n r"
  shows "find (at_number ch n) (update_rows p f rows) = map_option (\<lambda>r. if p r then f r else r) (find (at_number ch n) rows)"
  unfolding at_number_key
  using assms by (intro update_rows_find) (auto simp: at_number_def)

lemma get_task_row:
  assumes "tasks_ok s"
  shows "get_task ch n s = Some t \<longleftrightarrow> (\<exists>r \<in> set (db_tasks s). at_number ch n r \<and> t = task_from_row s r)"
  using find_task [OF assms, of ch n] by (auto simp: get_task_def)

lemma get_task_None: "get_task ch n s = None \<longleftrightarrow> (\<forall>r \<in> set (db_tasks s). \<not> at_number ch n r)"
  by (auto simp: get_task_def find_None_iff)

lemma task_from_row_sel [simp]:
  "ta_status (task_from_row s r) = tk_status r" "ta_assignee_id (task_from_row s r) = tk_assignee_id r"
  "ta_task_number (task_from_row s r) = tk_task_number r" "ta_channel_id (task_from_row s r) = tk_channel_id r"
  "ta_title (task_from_row s r) = tk_title r"
  by (simp_all add: task_from_row_def)

lemma dependencies_met_iff:
  "dependencies_met ch n s \<longleftrightarrow>
     (\<forall>d. (n, d) \<in> set (edges ch s) \<longrightarrow> (\<forall>p \<in> set (db_tasks s). at_number ch d p \<longrightarrow> tk_status p = Done))"
  by (fastforce simp: dependencies_met_def affected_zero edges_def at_number_def)

lemma claim_write_unassigned:
  assumes ok: "tasks_ok s" and r: "r \<in> set (db_tasks s)" "at_number ch n r" "tk_assignee_id r = None"
    and ag: "ag \<in> agent_ids s"
  shows "\<exists>t s1 r1. claim_write now ch n ag s = Inr (t, s1) \<and> t = task_from_row s1 r1 \<and> tasks_ok s1
     \<and> r1 \<in> set (db_tasks s1) \<and> at_number ch n r1 \<and> tk_assignee_id r1 = Some ag
     \<and> tk_status r1 = (if tk_status r = Todo then InProgress else tk_status r)"
proof -
  let ?p = "\<lambda>r. at_number ch n r \<and> tk_assignee_id r = None"
  let ?f = "\<lambda>r. r\<lparr>tk_assignee_id := Some ag, tk_status := (if tk_status r = Todo then InProgress else tk_status r), tk_updated_at := now\<rparr>"
  let ?s = "s\<lparr>db_tasks := update_rows ?p ?f (db_tasks s)\<rparr>"
  have one: "affected ?p (db_tasks s) = 1" using r by (intro affected_at_number [OF ok])
  have "find (at_number ch n) (db_tasks s) = Some r" using find_task [OF ok] r by blast
  moreover have "find (at_number ch n) (update_rows ?p ?f (db_tasks s))
      = map_option (\<lambda>r. if ?p r then ?f r else r) (find (at_number ch n) (db_tasks s))"
    by (rule find_at_number_update) simp_all
  ultimately have "find (at_number ch n) (db_tasks ?s) = Some (?f r)" using r by simp
  then have "get_task ch n ?s = Some (task_from_row ?s (?f r))" unfolding get_task_def by (simp only: option.map)
  then have "claim_write now ch n ag s = Inr (task_from_row ?s (?f r), ?s)"
    using one ag by (simp add: claim_write_def Let_def split del: if_split)
  moreover have "tasks_ok ?s" using ag by (intro tasks_ok_update [OF ok]) auto
  moreover have "?f r \<in> set (db_tasks ?s)" using r by (auto simp: set_update_rows)
  ultimately show ?thesis using r by (intro exI [of _ "task_from_row ?s (?f r)"] exI [of _ ?s] exI [of _ "?f r"]) (simp add: at_number_def)
qed

lemma claim_write_assigned:
  assumes "tasks_ok s" "r \<in> set (db_tasks s)" "at_number ch n r" "tk_assignee_id r \<noteq> None"
  shows "claim_write now ch n ag s = Inl (TaskAlreadyClaimed n)"
proof -
  have "affected (\<lambda>r. at_number ch n r \<and> tk_assignee_id r = None) (db_tasks s) = 0"
    using assms at_number_unique by (fastforce simp: affected_zero)
  then show ?thesis by (simp add: claim_write_def)
qed

definition done_task :: "uuid \<Rightarrow> int \<Rightarrow> db \<Rightarrow> bool" where
  "done_task ch n s \<longleftrightarrow> (\<exists>r \<in> set (db_tasks s). at_number ch n r \<and> tk_status r = Done)"

lemma done_task_update:
  assumes "done_task ch n s"
    and "\<And>r. tk_channel_id (f r) = tk_channel_id r \<and> tk_task_number (f r) = tk_task_number r"
    and "\<And>r. r \<in> set (db_tasks s) \<Longrightarrow> at_number ch n r \<Longrightarrow> p r \<Longrightarrow> tk_status r = Done \<Longrightarrow> tk_status (f r) = Done"
  shows "done_task ch n (s\<lparr>db_tasks := update_rows p f (db_tasks s)\<rparr>)"
proof -
  obtain r where r: "r \<in> set (db_tasks s)" "at_number ch n r" "tk_status r = Done"
    using assms(1) by (auto simp: done_task_def)
  let ?r = "if p r then f r else r"
  have "?r \<in> set (update_rows p f (db_tasks s))" using r(1) by (auto simp: update_rows_def)
  moreover have "at_number ch n ?r" "tk_status ?r = Done" using r assms(2,3) by (auto simp: at_number_def)
  ultimately show ?thesis unfolding done_task_def by auto
qed

lemma done_task_status_write:
  assumes "tasks_ok s" "done_task c m s" "get_task ch n s = Some t0" "can_transition_to (ta_status t0) status"
    "status_write now ch n status progress s = Inr (t, s')"
  shows "done_task c m s'"
  using assms(5)
proof (rule status_writeE)
  assume s': "s' = s\<lparr>db_tasks := update_rows (at_number ch n) (set_status now status progress) (db_tasks s)\<rparr>"
  have "status = Done" if "r \<in> set (db_tasks s)" "at_number ch n r" "tk_status r = Done" for r
  proof -
    have "t0 = task_from_row s r" using assms(3) that at_number_unique [OF assms(1)] by (auto simp: get_task_row [OF assms(1)])
    with that(3) assms(4) show ?thesis by (simp add: can_transition_to_def)
  qed
  then show ?thesis unfolding s' by (intro done_task_update [OF assms(2)]) auto
qed

lemma done_task_step: "task_step s s' \<Longrightarrow> tasks_ok s \<Longrightarrow> done_task c m s \<Longrightarrow> done_task c m s'"
proof (induction rule: task_step.induct)
  case (step_create ut i now ch title msg by_agent s t s')
  from step_create(1) obtain r where "s' = s\<lparr>db_tasks := db_tasks s @ [r]\<rparr>" by (rule create_taskE)
  with step_create(3) show ?case by (auto simp: done_task_def)
next
  case (step_claim now ch n ag s t s')
  from step_claim(1) show ?case
  proof (cases rule: claim_taskE)
    case (written t0)
    from written(4) show ?thesis
      by (rule claim_writeE) (auto intro!: done_task_update step_claim(3))
  qed (use step_claim in simp)
next
  case (step_unclaim now ch n s t s')
  from step_unclaim(1) show ?case
    by (rule unclaim_taskE) (auto intro!: done_task_update step_unclaim(3))
next
  case (step_status now ch n status progress s t s')
  from step_status(1) show ?case
    by (cases rule: update_task_statusE) (use step_status(2,3) done_task_status_write in blast)+
next
  case (step_add now ch n dep s u s')
  from step_add(1) show ?case
    by (cases rule: add_task_dependencyE) (use step_add(3) in \<open>auto simp: done_task_def\<close>)
next
  case (step_remove ch n dep s b s')
  then have "db_tasks s' = db_tasks s" by (auto simp: remove_task_dependency_def Let_def)
  with step_remove(3) show ?case by (simp add: done_task_def)
qed

lemma done_task_steps: "task_step\<^sup>*\<^sup>* s s' \<Longrightarrow> tasks_ok s \<and> deps_ok s \<Longrightarrow> done_task c m s \<Longrightarrow> done_task c m s'"
proof (induction rule: rtranclp_induct)
  case (step t u)
  from ts.inv_steps [OF step(1)] step(4) have "tasks_ok t" by blast
  with step show ?case using done_task_step by blast
qed simp

section \<open>Properties\<close>

definition example_task :: "int \<Rightarrow> task_status \<Rightarrow> task_row" where
  "example_task n st = \<lparr>tk_id = nat (500 + n), tk_channel_id = 1, tk_message_id = None, tk_task_number = n, tk_title = ''t'',
     tk_status = st, tk_progress = None, tk_assignee_id = None, tk_created_by_agent_id = None,
     tk_created_at = 0, tk_updated_at = 0\<rparr>"

definition example_tasks :: "task_row list \<Rightarrow> db" where
  "example_tasks rs = (example_db [] [])\<lparr>db_tasks := rs\<rparr>"

lemma example_tasks_ok:
  "tasks_ok (example_tasks [example_task 1 a, example_task 2 b])" "deps_ok (example_tasks [example_task 1 a, example_task 2 b])"
  by (simp_all add: tasks_ok_def deps_ok_def edges_def acyclic_def example_tasks_def example_task_def example_defs)

subsection \<open>Additions of dependencies interleaved with other calls\<close>

text \<open>
  \<open>add_task_dependency\<close> runs its cycle query and its insert as separate statements outside a
  transaction. Here each is a step of its own: the state also has, per channel, the addition whose
  checks have passed and whose insert has not run yet. Between the two, any other statement may
  run: a task is created, a claim or a status change reads and writes in separate statements (so its
  write may rest on a stale read), a task is given back, a dependency is removed, and additions go on in other
  channels. What the relation excludes is a second addition in the same channel while one is under
  way: that order of statements can store a cycle (\<open>overlapping_dependencies_cycle\<close>).
\<close>

type_synonym dep_state = "db \<times> (uuid \<rightharpoonup> int \<times> int)"

inductive dep_step :: "dep_state \<Rightarrow> dep_state \<Rightarrow> bool" where
  dep_create: "create_task ut i now ch title msg by_agent s = Inr (t, s') \<Longrightarrow> dep_step (s, F) (s', F)"
| dep_claim: "claim_write now ch n ag s = Inr (t, s') \<Longrightarrow> dep_step (s, F) (s', F)"
| dep_unclaim: "unclaim_task now ch n s = Inr (t, s') \<Longrightarrow> dep_step (s, F) (s', F)"
| dep_status: "status_write now ch n status progress s = Inr (t, s') \<Longrightarrow> dep_step (s, F) (s', F)"
| dep_remove: "remove_task_dependency ch n dep s = (b, s') \<Longrightarrow> dep_step (s, F) (s', F)"
| dep_query: "F ch = None \<Longrightarrow> dependency_check ch n dep s = None \<Longrightarrow> dep_step (s, F) (s, F(ch \<mapsto> (n, dep)))"
| dep_insert: "F ch = Some (n, dep) \<Longrightarrow> dependency_write now ch n dep s = Inr (u, s') \<Longrightarrow> dep_step (s, F) (s', F(ch := None))"
| dep_give_up: "dep_step (s, F) (s, F(ch := None))"

definition dep_start :: "dep_state \<Rightarrow> bool" where
  "dep_start p \<longleftrightarrow> db_tasks (fst p) = [] \<and> db_deps (fst p) = [] \<and> snd p = Map.empty"

text \<open>The graphs are acyclic, and stay so when an addition that passed its checks is stored.\<close>

definition dep_inv :: "dep_state \<Rightarrow> bool" where
  "dep_inv p \<longleftrightarrow> (\<forall>ch. acyclic (set (edges ch (fst p))))
     \<and> (\<forall>ch n dep. snd p ch = Some (n, dep) \<longrightarrow> (dep, n) \<notin> (set (edges ch (fst p)))\<^sup>*)"

lemma dep_inv_edges:
  assumes "dep_inv (s, F)" "\<And>ch. set (edges ch s') \<subseteq> set (edges ch s)"
  shows "dep_inv (s', F)"
  using assms unfolding dep_inv_def fst_conv snd_conv by (meson acyclic_subset rtrancl_mono subsetD)

lemma dependency_check_None:
  "dependency_check ch n dep s = None \<longleftrightarrow>
     get_task ch n s \<noteq> None \<and> get_task ch dep s \<noteq> None \<and> (dep, n) \<notin> (set (edges ch s))\<^sup>*"
  by (auto simp: dependency_check_def reachable_from_set rtrancl_eq_or_trancl)

lemma dependency_write_edges:
  assumes "dependency_write now ch n dep s = Inr (u, s')"
  shows "set (edges c s') \<subseteq> (if c = ch then insert (n, dep) (set (edges c s)) else set (edges c s))"
  using assms by (auto simp: dependency_write_def edges_snoc split: if_splits)

lemma dep_inv_insert:
  assumes "dep_inv (s, F)" "F ch = Some (n, dep)" "dependency_write now ch n dep s = Inr (u, s')"
  shows "dep_inv (s', F(ch := None))"
proof -
  note sub = dependency_write_edges [OF assms(3)]
  have "acyclic (insert (n, dep) (set (edges ch s)))" using assms(1,2) by (simp add: dep_inv_def)
  then have "acyclic (if c = ch then insert (n, dep) (set (edges c s)) else set (edges c s))" for c
    using assms(1) by (simp add: dep_inv_def del: acyclic_insert)
  then have "acyclic (set (edges c s'))" for c using sub by (rule acyclic_subset)
  moreover have "(d, m) \<notin> (set (edges c s'))\<^sup>*" if "c \<noteq> ch" "F c = Some (m, d)" for c m d
  proof -
    have "(set (edges c s'))\<^sup>* \<subseteq> (set (edges c s))\<^sup>*" using sub [of c] that(1) by (intro rtrancl_mono) simp
    with assms(1) that(2) show ?thesis by (auto simp: dep_inv_def)
  qed
  ultimately show ?thesis by (simp add: dep_inv_def)
qed

lemma dep_step_inv: "dep_step p q \<Longrightarrow> dep_inv p \<Longrightarrow> dep_inv q"
proof (induction rule: dep_step.induct)
  case dep_create
  then show ?case by (auto elim!: create_taskE dep_inv_edges simp: edges_def)
next
  case dep_claim
  then show ?case by (auto elim!: claim_writeE dep_inv_edges simp: edges_def)
next
  case dep_unclaim
  then show ?case by (auto elim!: unclaim_taskE dep_inv_edges simp: edges_def)
next
  case dep_status
  then show ?case by (auto elim!: status_writeE dep_inv_edges simp: edges_def)
next
  case dep_remove
  then show ?case by (auto elim!: dep_inv_edges simp: edges_def remove_task_dependency_def Let_def)
next
  case (dep_query F ch n dep s)
  then show ?case by (simp add: dep_inv_def dependency_check_None)
next
  case dep_insert
  then show ?case using dep_inv_insert by blast
next
  case dep_give_up
  then show ?case by (simp add: dep_inv_def)
qed

interpretation ds: invariant_system dep_start dep_step dep_inv
  by unfold_locales (simp add: dep_inv_def dep_start_def edges_def acyclic_def, erule (1) dep_step_inv)

text \<open>
  C34. The dependency graph of every channel stays acyclic when the statements of the task methods run in
  any order, the cycle query and the insert of \<open>add_task_dependency\<close> being two of them, as long as
  no two additions in the same channel overlap; and the checks of an addition between two existing
  tasks pass exactly when the new edge closes no cycle (the recursive query finds every path).
  Without that condition the code does store cycles (\<open>overlapping_dependencies_cycle\<close>).
\<close>

theorem dependency_graph_acyclic:
  assumes "reachable dep_start dep_step (s, F)"
  shows "acyclic (set (edges ch s))
    \<and> (\<forall>n dep. get_task ch n s \<noteq> None \<longrightarrow> get_task ch dep s \<noteq> None \<longrightarrow>
         (dependency_check ch n dep s = None \<longleftrightarrow> acyclic (insert (n, dep) (set (edges ch s)))))"
proof -
  have "acyclic (set (edges ch s))" using ds.inv_reachable [OF assms] by (simp add: dep_inv_def)
  then show ?thesis by (simp add: dependency_check_None)
qed

text \<open>
  C34 on a run in which task 2 is started between the query and the insert of its dependency on task 1: afterwards
  the opposite dependency is refused.
\<close>

theorem dependency_graph_acyclic_witness:
  "\<exists>s. edges 1 s = [(2, 1)] \<and> acyclic (set (edges 1 s)) \<and> dependency_check 1 1 2 s \<noteq> None"
proof -
  let ?r = "reachable dep_start dep_step" and ?one = "example_tasks [example_task 1 Todo]"
  let ?two = "example_tasks [example_task 1 Todo, example_task 2 Todo]"
  let ?started = "example_tasks [example_task 1 Todo, (example_task 2 InProgress)\<lparr>tk_updated_at := 5\<rparr>]"
  let ?s = "?started\<lparr>db_deps := [\<lparr>td_channel_id = 1, td_task_number = 2, td_depends_on = 1, td_created_at = 6\<rparr>]\<rparr>"
  have r: "?r (example_tasks [], Map.empty)"
    by (rule reachable_start) (simp add: dep_start_def example_tasks_def example_defs)
  note defs = example_tasks_def example_task_def example_defs
  have title: "take_chars 100 ''t'' = ''t''" by code_simp
  note go = reachable_step [of dep_start dep_step]
  obtain t where "create_task (\<lambda>_. []) 501 0 1 ''t'' None None (example_tasks []) = Inr (t, ?one)"
    by (simp add: create_task_def get_task_by_id_def next_task_number_def max_or_zero_def
        at_number_def Let_def title defs)
  from go [OF r dep_create [OF this]] have r: "?r (?one, Map.empty)" .
  obtain t where "create_task (\<lambda>_. []) 502 0 1 ''t'' None None ?one = Inr (t, ?two)"
    by (simp add: create_task_def get_task_by_id_def next_task_number_def max_or_zero_def
        at_number_def Let_def title defs)
  from go [OF r dep_create [OF this]] have r: "?r (?two, Map.empty)" .
  have "dependency_check 1 2 1 ?two = None"
    by (simp add: dependency_check_def get_task_def at_number_def reachable_from_def edges_def defs)
  from go [OF r dep_query [OF _ this]] have r: "?r (?two, Map.empty(1 \<mapsto> (2, 1)))" by simp
  obtain t where "status_write 5 1 2 InProgress None ?two = Inr (t, ?started)"
    by (simp add: status_write_def get_task_def at_number_def update_rows_def Let_def defs)
  from go [OF r dep_status [OF this]] have r: "?r (?started, Map.empty(1 \<mapsto> (2, 1)))" .
  have "dependency_write 6 1 2 1 ?started = Inr ((), ?s)"
    by (simp add: dependency_write_def edges_def at_number_def defs)
  from go [OF r dep_insert [OF _ this]] have "?r (?s, (Map.empty(1 \<mapsto> (2, 1)))(1 := None))" by simp
  from dependency_graph_acyclic [OF this, of 1] have "acyclic (set (edges 1 ?s))"
    and "get_task 1 1 ?s \<noteq> None \<Longrightarrow> get_task 1 2 ?s \<noteq> None \<Longrightarrow>
           dependency_check 1 1 2 ?s = None \<longleftrightarrow> acyclic (insert (1, 2) (set (edges 1 ?s)))" by blast+
  moreover have e: "edges 1 ?s = [(2, 1)]" and "get_task 1 1 ?s \<noteq> None" "get_task 1 2 ?s \<noteq> None"
    by (simp_all add: edges_def get_task_def at_number_def defs)
  moreover have "\<not> acyclic {(1, 2), (2, 1 :: int)}" by (simp add: acyclic_insert) (metis insertI1 r_into_rtrancl)
  ultimately show ?thesis by (intro exI [of _ ?s]) simp
qed

text \<open>
  C35. Claiming is exclusive under interleaving: when two agents have both read the same task as free
  and unblocked, the first write takes it (starting it if it was to do, with every prerequisite
  done) and the second is refused as already claimed.
\<close>

theorem claim_exclusive:
  assumes "tasks_ok s" "deps_ok s" "a \<in> agent_ids s"
    and "claim_check ch n a s = Inr None" "claim_check ch n b s = Inr None"
  shows "\<exists>t s1. claim_write now ch n a s = Inr (t, s1) \<and> get_task ch n s1 = Some t
     \<and> ta_assignee_id t = Some a \<and> ta_status t \<noteq> Todo
     \<and> claim_write now' ch n b s1 = Inl (TaskAlreadyClaimed n)
     \<and> (\<forall>d. (n, d) \<in> set (edges ch s) \<longrightarrow> (\<exists>p. get_task ch d s = Some p \<and> ta_status p = Done))"
proof -
  obtain t0 where t0: "get_task ch n s = Some t0" "ta_assignee_id t0 = None" "dependencies_met ch n s"
    using assms(4) by (auto simp: claim_check_def split: option.splits if_splits)
  then obtain r where r: "r \<in> set (db_tasks s)" "at_number ch n r" "tk_assignee_id r = None"
    using get_task_row [OF assms(1)] by auto
  obtain t s1 r1 where w: "claim_write now ch n a s = Inr (t, s1)" "t = task_from_row s1 r1" "tasks_ok s1"
    "r1 \<in> set (db_tasks s1)" "at_number ch n r1" "tk_assignee_id r1 = Some a"
    "tk_status r1 = (if tk_status r = Todo then InProgress else tk_status r)"
    using claim_write_unassigned [OF assms(1) r assms(3)] by blast
  have "claim_write now' ch n b s1 = Inl (TaskAlreadyClaimed n)"
    using claim_write_assigned [OF w(3,4,5)] w(6) by simp
  moreover have "\<exists>p. get_task ch d s = Some p \<and> ta_status p = Done" if nd: "(n, d) \<in> set (edges ch s)" for d
  proof -
    obtain e where e: "e \<in> set (db_deps s)" "td_channel_id e = ch" "td_depends_on e = d"
      using nd by (auto simp: edges_def)
    then have "\<exists>x \<in> set (db_tasks s). at_number (td_channel_id e) (td_depends_on e) x"
      using assms(2) unfolding deps_ok_def by blast
    then obtain p where p: "p \<in> set (db_tasks s)" "at_number ch d p"
      using e by auto
    moreover have "tk_status p = Done" using t0(3) nd p by (auto simp: dependencies_met_iff)
    ultimately show ?thesis using get_task_row [OF assms(1)] by auto
  qed
  moreover have "get_task ch n s1 = Some t" using get_task_row [OF w(3)] w by blast
  ultimately show ?thesis using w by auto
qed

theorem claim_exclusive_witness:
  "\<exists>t s1. claim_write 5 1 1 10 (example_tasks [example_task 1 Todo, example_task 2 Todo]) = Inr (t, s1)
     \<and> claim_write 6 1 1 11 s1 = Inl (TaskAlreadyClaimed 1)"
proof -
  let ?s = "example_tasks [example_task 1 Todo, example_task 2 Todo]"
  have c: "claim_check 1 1 10 ?s = Inr None" "claim_check 1 1 11 ?s = Inr None" "10 \<in> agent_ids ?s"
    by (simp_all add: claim_check_def get_task_def at_number_def dependencies_met_def affected_def task_from_row_def
        example_tasks_def example_task_def example_defs)
  show ?thesis using claim_exclusive [OF example_tasks_ok c(3,1,2), of 5 6] by blast
qed

text \<open>
  A finished task stays finished: no sequence of task operations, run one at a time, brings a task
  out of \<open>done\<close>.
\<close>

theorem done_is_final:
  assumes "task_step\<^sup>*\<^sup>* s s'" "tasks_ok s" "deps_ok s" "get_task ch n s = Some t" "ta_status t = Done"
  shows "\<exists>t'. get_task ch n s' = Some t' \<and> ta_status t' = Done"
proof -
  have "done_task ch n s" using assms(4,5) get_task_row [OF assms(2)] by (auto simp: done_task_def)
  then have "done_task ch n s'" using done_task_steps [OF assms(1)] assms(2,3) by blast
  moreover have "tasks_ok s'" using ts.inv_steps [OF assms(1)] assms(2,3) by blast
  ultimately show ?thesis using get_task_row by (auto simp: done_task_def)
qed

theorem done_is_final_witness:
  "\<exists>s' t'. task_step (example_tasks [example_task 1 Done, example_task 2 Todo]) s'
     \<and> get_task 1 1 s' = Some t' \<and> ta_status t' = Done"
proof -
  let ?s = "example_tasks [example_task 1 Done, example_task 2 Todo]"
  have "\<exists>t s1. unclaim_task 7 1 1 ?s = Inr (t, s1)"
    by (simp add: unclaim_task_def affected_def at_number_def get_task_def update_rows_def Let_def
        example_tasks_def example_task_def example_defs)
  then obtain s1 where st: "task_step ?s s1" using step_unclaim by blast
  then have "task_step\<^sup>*\<^sup>* ?s s1" by blast
  have g: "get_task 1 1 ?s = Some (task_from_row ?s (example_task 1 Done))" "tk_status (example_task 1 Done) = Done"
    by (simp_all add: get_task_def at_number_def example_tasks_def example_task_def)
  from \<open>task_step\<^sup>*\<^sup>* ?s s1\<close> show ?thesis
    using done_is_final [OF _ example_tasks_ok g(1)] g(2) st by fastforce
qed

lemma status_write_found:
  assumes "tasks_ok s" "get_task ch n s \<noteq> None"
  shows "\<exists>t s'. status_write now ch n status progress s = Inr (t, s') \<and> ta_status t = status \<and> tasks_ok s'
     \<and> get_task ch n s' = Some t"
proof -
  obtain r where r: "r \<in> set (db_tasks s)" "at_number ch n r" using assms(2) by (auto simp: get_task_None)
  let ?s = "s\<lparr>db_tasks := update_rows (at_number ch n) (set_status now status progress) (db_tasks s)\<rparr>"
  have ok: "tasks_ok ?s" by (intro tasks_ok_update [OF assms(1)]) auto
  have "set_status now status progress r \<in> set (db_tasks ?s)" using r by (auto simp: set_update_rows)
  moreover have "at_number ch n (set_status now status progress r)" using r by (simp add: at_number_def)
  ultimately have g: "get_task ch n ?s = Some (task_from_row ?s (set_status now status progress r))"
    using get_task_row [OF ok] by blast
  have "(case progress of
           Some p \<Rightarrow> (\<lambda>r. r\<lparr>tk_status := status, tk_progress := Some p, tk_updated_at := now\<rparr>)
         | None \<Rightarrow> (\<lambda>r. r\<lparr>tk_status := status, tk_updated_at := now\<rparr>)) = set_status now status progress"
    by (auto simp: fun_eq_iff set_status_def split: option.splits)
  then have "status_write now ch n status progress s = Inr (task_from_row ?s (set_status now status progress r), ?s)"
    using g by (simp add: status_write_def Let_def)
  with ok g show ?thesis by auto
qed

text \<open>
  The status check and the write are separate statements, so the life cycle holds only for calls
  that do not overlap: with a task in review, a call that has passed its check for \<open>in_progress\<close>
  still writes after another call has finished the task, and a done task is reopened.
\<close>

theorem stale_status_write_reopens:
  assumes "tasks_ok s" "get_task ch n s = Some t" "ta_status t = InReview"
  shows "status_check ch n InProgress None s = Inr None
    \<and> (\<exists>t1 s1 t2 s2. update_task_status now ch n Done None s = Inr (t1, s1) \<and> ta_status t1 = Done
         \<and> status_write now' ch n InProgress None s1 = Inr (t2, s2) \<and> ta_status t2 = InProgress
         \<and> get_task ch n s2 = Some t2 \<and> \<not> can_transition_to Done InProgress)"
proof -
  have c: "status_check ch n InProgress None s = Inr None" "status_check ch n Done None s = Inr None"
    using assms(2,3) by (simp_all add: status_check_def can_transition_to_def)
  obtain t1 s1 where w1: "status_write now ch n Done None s = Inr (t1, s1)" "ta_status t1 = Done" "tasks_ok s1" "get_task ch n s1 = Some t1"
    using status_write_found [OF assms(1), of ch n now Done None] assms(2) by auto
  then have "update_task_status now ch n Done None s = Inr (t1, s1)" by (simp add: update_task_status_def c)
  moreover obtain t2 s2 where "status_write now' ch n InProgress None s1 = Inr (t2, s2)" "ta_status t2 = InProgress" "get_task ch n s2 = Some t2"
    using status_write_found [OF w1(3), of ch n now' InProgress None] w1(4) by auto
  ultimately show ?thesis using c(1) w1(2) by (auto simp: can_transition_to_def)
qed

theorem stale_status_write_reopens_witness:
  "\<exists>t1 s1 t2 s2. update_task_status 5 1 1 Done None (example_tasks [example_task 1 InReview, example_task 2 Todo]) = Inr (t1, s1)
     \<and> ta_status t1 = Done \<and> status_write 6 1 1 InProgress None s1 = Inr (t2, s2) \<and> ta_status t2 = InProgress"
proof -
  let ?s = "example_tasks [example_task 1 InReview, example_task 2 Todo]"
  have g: "get_task 1 1 ?s = Some (task_from_row ?s (example_task 1 InReview))" "ta_status (task_from_row ?s (example_task 1 InReview)) = InReview"
    by (simp_all add: get_task_def at_number_def example_tasks_def example_task_def)
  show ?thesis using stale_status_write_reopens [OF example_tasks_ok(1) g, of 5 6] by blast
qed

text \<open>
  The cycle check and the insert are separate statements too: when opposite dependencies between
  two unrelated tasks are added by overlapping calls, both pass the check and both are stored, and
  the two tasks then depend on each other.
\<close>

theorem overlapping_dependencies_cycle:
  assumes "dependency_check ch n m s = None" "dependency_check ch m n s = None"
    "(n, m) \<notin> set (edges ch s)" "(m, n) \<notin> set (edges ch s)"
  shows "\<exists>s1 s2. dependency_write now ch n m s = Inr ((), s1) \<and> dependency_write now' ch m n s1 = Inr ((), s2)
     \<and> \<not> acyclic (set (edges ch s2))"
proof -
  have ex: "\<exists>r \<in> set (db_tasks s). at_number ch n r" "\<exists>r \<in> set (db_tasks s). at_number ch m r" and ne: "n \<noteq> m"
    using assms(1) by (auto simp: dependency_check_def get_task_None split: if_splits)
  let ?s1 = "s\<lparr>db_deps := db_deps s @ [\<lparr>td_channel_id = ch, td_task_number = n, td_depends_on = m, td_created_at = now\<rparr>]\<rparr>"
  let ?s2 = "?s1\<lparr>db_deps := db_deps ?s1 @ [\<lparr>td_channel_id = ch, td_task_number = m, td_depends_on = n, td_created_at = now'\<rparr>]\<rparr>"
  have "dependency_write now ch n m s = Inr ((), ?s1)" using assms(3) ex ne by (simp add: dependency_write_def)
  moreover have "dependency_write now' ch m n ?s1 = Inr ((), ?s2)"
    unfolding dependency_write_def edges_snoc using assms(4) ex ne by simp
  moreover have "(n, m) \<in> set (edges ch ?s2)" "(m, n) \<in> set (edges ch ?s2)"
    unfolding edges_snoc by simp_all
  then have "(n, n) \<in> (set (edges ch ?s2))\<^sup>+" by (meson trancl.r_into_trancl trancl.trancl_into_trancl)
  then have "\<not> acyclic (set (edges ch ?s2))" unfolding acyclic_def by blast
  ultimately show ?thesis by blast
qed

theorem overlapping_dependencies_cycle_witness:
  "\<exists>s1 s2. dependency_write 5 1 1 2 (example_tasks [example_task 1 Todo, example_task 2 Todo]) = Inr ((), s1)
     \<and> dependency_write 6 1 2 1 s1 = Inr ((), s2) \<and> \<not> acyclic (set (edges 1 s2))"
proof -
  let ?s = "example_tasks [example_task 1 Todo, example_task 2 Todo]"
  have "dependency_check 1 1 2 ?s = None" "dependency_check 1 2 1 ?s = None" "(1, 2) \<notin> set (edges 1 ?s)" "(2, 1) \<notin> set (edges 1 ?s)"
    by (simp_all add: dependency_check_def get_task_def at_number_def reachable_from_def edges_def
        example_tasks_def example_task_def example_defs)
  from overlapping_dependencies_cycle [OF this, of 5 6] show ?thesis .
qed

end
