(* ===== verification/StoreChannels.thy ===== *)
theory StoreChannels
  imports StoreTasks
begin

text \<open>
  Channels, agents and memberships of the store (\<open>crates/cocli-store/src/lib.rs\<close>), with the
  referential actions of the schema (\<open>ON DELETE CASCADE\<close>, \<open>ON DELETE SET NULL\<close>) that deleting a
  channel or an agent triggers on the tables of \<open>StoreTypes\<close>. The statements of these methods on
  the workspace tables are outside those tables. \<open>delete_channel\<close> commits the direct channels it
  creates before its own transaction, so it returns the database also when it fails.
\<close>

section \<open>Channels\<close>

definition get_channel :: "uuid \<Rightarrow> db \<Rightarrow> channel option" where
  "get_channel ch s = find (\<lambda>c. ch_id c = ch) (db_channels s)"

definition create_channel :: "uuid \<Rightarrow> timestamp \<Rightarrow> string \<Rightarrow> db \<Rightarrow> channel tx" where
  "create_channel new_id now name s =
     (let c = \<lparr>ch_id = new_id, ch_name = name, ch_description = None, ch_goal = None, ch_kind = ''standard'',
               ch_is_system = False, ch_direct_agent_id = None, ch_created_by_agent_id = None,
               ch_created_by_channel_id = None, ch_created_at = now\<rparr>
      in if new_id \<in> channel_ids s then Inl constraint
         else Inr (c, s\<lparr>db_channels := db_channels s @ [c]\<rparr>))"

definition update_channel_profile :: "uuid \<Rightarrow> string option \<Rightarrow> string option \<Rightarrow> db \<Rightarrow> channel option \<times> db" where
  "update_channel_profile ch description goal s =
     (let s' = s\<lparr>db_channels := update_rows (\<lambda>c. ch_id c = ch)
                  (\<lambda>c. c\<lparr>ch_description := description, ch_goal := goal\<rparr>) (db_channels s)\<rparr>
      in (get_channel ch s', s'))"

definition list_channels :: "db \<Rightarrow> channel list" where
  "list_channels s = sort_key (\<lambda>c. (ch_created_at c, ch_id c)) (db_channels s)"

definition first_row :: "'a list \<Rightarrow> 'a option" where
  "first_row rows = (case rows of [] \<Rightarrow> None | r # _ \<Rightarrow> Some r)"

definition get_channel_by_name :: "string \<Rightarrow> db \<Rightarrow> channel option" where
  "get_channel_by_name name s =
     first_row (sort_key (\<lambda>c. (ch_created_at c, ch_id c)) (filter (\<lambda>c. ch_name c = name) (db_channels s)))"

definition get_direct_channel_for_agent :: "uuid \<Rightarrow> db \<Rightarrow> channel option" where
  "get_direct_channel_for_agent ag s =
     first_row (sort_key (\<lambda>c. (ch_created_at c, ch_id c))
       (filter (\<lambda>c. ch_kind c = ''direct'' \<and> ch_direct_agent_id c = Some ag) (db_channels s)))"

section \<open>Memberships\<close>

definition delivery_policy_for_status :: "agent_status \<Rightarrow> string" where
  "delivery_policy_for_status st = (case st of AgRunning \<Rightarrow> ''subscribed'' | AgStopped \<Rightarrow> ''muted'')"

definition is_member :: "uuid \<Rightarrow> uuid \<Rightarrow> channel_agent \<Rightarrow> bool" where
  "is_member ch ag c \<longleftrightarrow> ca_channel_id c = ch \<and> ca_agent_id c = ag"

definition insert_channel_agent_membership :: "channel_agent \<Rightarrow> db \<Rightarrow> store_error + db" where
  "insert_channel_agent_membership mem s =
     (let p = is_member (ca_channel_id mem) (ca_agent_id mem)
      in if ca_delivery_policy mem \<notin> {''subscribed'', ''muted''} then Inl constraint
         else if \<exists>c \<in> set (db_members s). p c
         then Inr (s\<lparr>db_members := update_rows p
                (\<lambda>c. c\<lparr>ca_role := (case ca_role mem of None \<Rightarrow> ca_role c | Some r \<Rightarrow> Some r),
                       ca_delivery_policy := ca_delivery_policy mem\<rparr>) (db_members s)\<rparr>)
         else if ca_channel_id mem \<notin> channel_ids s \<or> ca_agent_id mem \<notin> agent_ids s
            \<or> \<not> opt_ref (ca_created_by_agent_id mem) (agent_ids s) \<or> \<not> opt_ref (ca_created_by_channel_id mem) (channel_ids s)
         then Inl constraint
         else Inr (s\<lparr>db_members := db_members s @ [mem]\<rparr>))"

definition get_channel_agent :: "uuid \<Rightarrow> uuid \<Rightarrow> db \<Rightarrow> channel_agent option" where
  "get_channel_agent ch ag s = find (is_member ch ag) (db_members s)"

definition list_channel_agents :: "uuid \<Rightarrow> db \<Rightarrow> agent list" where
  "list_channel_agents ch s =
     map snd (sort_key (\<lambda>(c, a). (ca_joined_at c, ag_id a))
       (filter (\<lambda>(c, a). ca_agent_id c = ag_id a \<and> ca_channel_id c = ch) (List.product (db_members s) (db_agents s))))"

definition list_agent_channels :: "uuid \<Rightarrow> db \<Rightarrow> channel list" where
  "list_agent_channels ag s =
     map snd (sort_key (\<lambda>(m, c). (ca_joined_at m, ch_id c))
       (filter (\<lambda>(m, c). ca_channel_id m = ch_id c \<and> ca_agent_id m = ag) (List.product (db_members s) (db_channels s))))"

text \<open>\<open>agents.channel_id\<close> is \<open>NOT NULL\<close>, so \<open>COALESCE(channel_id, ?)\<close> leaves it as it is.\<close>

definition add_agent_to_channel ::
  "(uuid \<Rightarrow> string) \<Rightarrow> timestamp \<Rightarrow> uuid \<Rightarrow> uuid \<Rightarrow> string option \<Rightarrow> string option \<Rightarrow> uuid option \<Rightarrow> uuid option
   \<Rightarrow> db \<Rightarrow> channel_agent tx" where
  "add_agent_to_channel uuid_text now ch ag role policy by_agent by_channel s =
     (case insert_channel_agent_membership
             \<lparr>ca_channel_id = ch, ca_agent_id = ag, ca_role = role,
              ca_delivery_policy = (case policy of None \<Rightarrow> ''subscribed'' | Some p \<Rightarrow> p), ca_joined_at = now,
              ca_created_by_agent_id = by_agent, ca_created_by_channel_id = by_channel\<rparr> s of
        Inl e \<Rightarrow> Inl e
      | Inr s' \<Rightarrow>
          (case get_channel_agent ch ag s' of
             None \<Rightarrow> Inl (InvalidValue ''channel agent membership'' (uuid_text ch @ ''/'' @ uuid_text ag))
           | Some c \<Rightarrow> Inr (c, s')))"

definition first_membership :: "(channel_agent \<Rightarrow> bool) \<Rightarrow> db \<Rightarrow> uuid option" where
  "first_membership p s =
     map_option ca_channel_id
       (first_row (sort_key (\<lambda>c. (ca_joined_at c, ca_channel_id c)) (filter p (db_members s))))"

definition move_home :: "uuid \<Rightarrow> uuid \<Rightarrow> uuid \<Rightarrow> db \<Rightarrow> db" where
  "move_home ag from to s =
     s\<lparr>db_agents := update_rows (\<lambda>a. ag_id a = ag \<and> ag_channel_id a = from) (\<lambda>a. a\<lparr>ag_channel_id := to\<rparr>) (db_agents s)\<rparr>"

definition remove_agent_from_channel :: "uuid \<Rightarrow> uuid \<Rightarrow> db \<Rightarrow> unit tx" where
  "remove_agent_from_channel ch ag s =
     (let s1 = s\<lparr>db_members := filter (\<lambda>c. \<not> is_member ch ag c) (db_members s)\<rparr>
      in case first_membership (\<lambda>c. ca_agent_id c = ag) s1 of
           Some to \<Rightarrow> Inr ((), move_home ag ch to s1)
         | None \<Rightarrow>
             (if \<exists>a \<in> set (db_agents s1). ag_id a = ag \<and> ag_channel_id a = ch then Inl constraint
              else Inr ((), s1)))"

section \<open>Agents\<close>

definition get_agent :: "uuid \<Rightarrow> db \<Rightarrow> agent option" where
  "get_agent ag s = find (\<lambda>a. ag_id a = ag) (db_agents s)"

definition list_agents :: "db \<Rightarrow> agent list" where
  "list_agents s = sort_key (\<lambda>a. (ag_created_at a, ag_id a)) (db_agents s)"

definition new_agent ::
  "uuid \<Rightarrow> timestamp \<Rightarrow> uuid \<Rightarrow> string \<Rightarrow> string \<Rightarrow> string option \<Rightarrow> agent_status \<Rightarrow> uuid option \<Rightarrow> uuid option \<Rightarrow> agent" where
  "new_agent i now ch name runtime model status by_agent by_channel =
     \<lparr>ag_id = i, ag_channel_id = ch, ag_name = name, ag_description = None, ag_instructions = None,
      ag_runtime = runtime, ag_model = model, ag_status = status, ag_lifecycle_status = LifeActive,
      ag_created_by_agent_id = by_agent, ag_created_by_channel_id = by_channel, ag_created_at = now\<rparr>"

definition insert_agent :: "agent \<Rightarrow> db \<Rightarrow> store_error + db" where
  "insert_agent a s =
     (if ag_id a \<in> agent_ids s \<or> ag_channel_id a \<notin> channel_ids s
         \<or> \<not> opt_ref (ag_created_by_agent_id a) (agent_ids s) \<or> \<not> opt_ref (ag_created_by_channel_id a) (channel_ids s)
      then Inl constraint else Inr (s\<lparr>db_agents := db_agents s @ [a]\<rparr>))"

definition create_agent ::
  "uuid \<Rightarrow> timestamp \<Rightarrow> uuid \<Rightarrow> string \<Rightarrow> string \<Rightarrow> string option \<Rightarrow> agent_status \<Rightarrow> db \<Rightarrow> agent tx" where
  "create_agent new_id now ch name runtime model status s =
     (let a = new_agent new_id now ch name runtime model status None (Some ch)
      in case insert_agent a s of
           Inl e \<Rightarrow> Inl e
         | Inr s1 \<Rightarrow>
             (case insert_channel_agent_membership
                     \<lparr>ca_channel_id = ch, ca_agent_id = new_id, ca_role = None,
                      ca_delivery_policy = delivery_policy_for_status status, ca_joined_at = now,
                      ca_created_by_agent_id = None, ca_created_by_channel_id = Some ch\<rparr> s1 of
                Inl e \<Rightarrow> Inl e
              | Inr s2 \<Rightarrow> Inr (a, s2)))"

definition create_standalone_agent ::
  "(uuid \<Rightarrow> string) \<Rightarrow> uuid \<Rightarrow> uuid \<Rightarrow> timestamp \<Rightarrow> string \<Rightarrow> string \<Rightarrow> string option \<Rightarrow> agent_status
   \<Rightarrow> uuid option \<Rightarrow> uuid option \<Rightarrow> db \<Rightarrow> agent tx" where
  "create_standalone_agent uuid_text new_ch new_id now name runtime model status by_agent by_channel s =
     (let a = new_agent new_id now new_ch name runtime model status by_agent by_channel;
          c = \<lparr>ch_id = new_ch, ch_name = ''direct:'' @ uuid_text new_id, ch_description = None, ch_goal = None,
               ch_kind = ''direct'', ch_is_system = True, ch_direct_agent_id = None,
               ch_created_by_agent_id = by_agent, ch_created_by_channel_id = by_channel, ch_created_at = now\<rparr>
      in if new_ch \<in> channel_ids s \<or> \<not> opt_ref by_agent (agent_ids s)
            \<or> \<not> opt_ref by_channel (insert new_ch (channel_ids s))
         then Inl constraint
         else (case insert_agent a (s\<lparr>db_channels := db_channels s @ [c]\<rparr>) of
                 Inl e \<Rightarrow> Inl e
               | Inr s1 \<Rightarrow>
                   (case insert_channel_agent_membership
                           \<lparr>ca_channel_id = new_ch, ca_agent_id = new_id, ca_role = Some ''direct'',
                            ca_delivery_policy = delivery_policy_for_status status, ca_joined_at = now,
                            ca_created_by_agent_id = by_agent, ca_created_by_channel_id = by_channel\<rparr> s1 of
                      Inl e \<Rightarrow> Inl e
                    | Inr s2 \<Rightarrow>
                        Inr (a, s2\<lparr>db_channels := update_rows (\<lambda>c. ch_id c = new_ch)
                                     (\<lambda>c. c\<lparr>ch_direct_agent_id := Some new_id\<rparr>) (db_channels s2)\<rparr>))))"

definition update_agent :: "uuid \<Rightarrow> (agent \<Rightarrow> agent) \<Rightarrow> db \<Rightarrow> agent option \<times> db" where
  "update_agent ag f s =
     (let s' = s\<lparr>db_agents := update_rows (\<lambda>a. ag_id a = ag) f (db_agents s)\<rparr> in (get_agent ag s', s'))"

definition update_agent_profile :: "uuid \<Rightarrow> string option \<Rightarrow> string option \<Rightarrow> db \<Rightarrow> agent option \<times> db" where
  "update_agent_profile ag description instructions s =
     update_agent ag (\<lambda>a. a\<lparr>ag_description := description, ag_instructions := instructions\<rparr>) s"

definition set_agent_status :: "uuid \<Rightarrow> agent_status \<Rightarrow> db \<Rightarrow> agent option \<times> db" where
  "set_agent_status ag status s = update_agent ag (\<lambda>a. a\<lparr>ag_status := status\<rparr>) s"

definition set_agent_lifecycle_status :: "uuid \<Rightarrow> agent_lifecycle_status \<Rightarrow> db \<Rightarrow> agent option \<times> db" where
  "set_agent_lifecycle_status ag status s = update_agent ag (\<lambda>a. a\<lparr>ag_lifecycle_status := status\<rparr>) s"

definition ensure_direct_channel_for_agent ::
  "(uuid \<Rightarrow> string) \<Rightarrow> uuid \<Rightarrow> timestamp \<Rightarrow> uuid \<Rightarrow> db \<Rightarrow> channel tx" where
  "ensure_direct_channel_for_agent uuid_text new_id now ag s =
     (case get_direct_channel_for_agent ag s of
        Some c \<Rightarrow> Inr (c, s)
      | None \<Rightarrow>
          (let c = \<lparr>ch_id = new_id, ch_name = ''direct:'' @ uuid_text ag, ch_description = None, ch_goal = None,
                    ch_kind = ''direct'', ch_is_system = True, ch_direct_agent_id = Some ag,
                    ch_created_by_agent_id = None, ch_created_by_channel_id = None, ch_created_at = now\<rparr>
           in if new_id \<notin> channel_ids s \<and> ag \<notin> agent_ids s then Inl constraint
              else (case insert_channel_agent_membership
                           \<lparr>ca_channel_id = new_id, ca_agent_id = ag, ca_role = Some ''direct'',
                            ca_delivery_policy = ''subscribed'', ca_joined_at = now,
                            ca_created_by_agent_id = None, ca_created_by_channel_id = Some new_id\<rparr>
                           (if new_id \<in> channel_ids s then s else s\<lparr>db_channels := db_channels s @ [c]\<rparr>) of
                      Inl e \<Rightarrow> Inl e
                    | Inr s' \<Rightarrow> Inr (c, s'))))"

section \<open>Deleting\<close>

definition drop_ref :: "(uuid \<Rightarrow> bool) \<Rightarrow> uuid option \<Rightarrow> uuid option" where
  "drop_ref p r = (case r of None \<Rightarrow> None | Some x \<Rightarrow> if p x then None else Some x)"

text \<open>The referential actions of deleting the agents in \<open>p\<close>.\<close>

definition cascade_agents :: "(uuid \<Rightarrow> bool) \<Rightarrow> db \<Rightarrow> db" where
  "cascade_agents p s = s
     \<lparr>db_agents := map (\<lambda>a. a\<lparr>ag_created_by_agent_id := drop_ref p (ag_created_by_agent_id a)\<rparr>)
        (filter (\<lambda>a. \<not> p (ag_id a)) (db_agents s)),
      db_channels := map (\<lambda>c. c\<lparr>ch_direct_agent_id := drop_ref p (ch_direct_agent_id c),
                                ch_created_by_agent_id := drop_ref p (ch_created_by_agent_id c)\<rparr>) (db_channels s),
      db_members := map (\<lambda>c. c\<lparr>ca_created_by_agent_id := drop_ref p (ca_created_by_agent_id c)\<rparr>)
        (filter (\<lambda>c. \<not> p (ca_agent_id c)) (db_members s)),
      db_messages := map (\<lambda>m. m\<lparr>me_agent_id := drop_ref p (me_agent_id m)\<rparr>) (db_messages s),
      db_deliveries := filter (\<lambda>d. \<not> p (dl_agent_id d)) (db_deliveries s),
      db_inbox := filter (\<lambda>(a, _). \<not> p a) (db_inbox s),
      db_working := filter (\<lambda>w. \<not> p (wk_agent_id w)) (db_working s),
      db_tasks := map (\<lambda>t. t\<lparr>tk_assignee_id := drop_ref p (tk_assignee_id t),
                             tk_created_by_agent_id := drop_ref p (tk_created_by_agent_id t)\<rparr>) (db_tasks s)\<rparr>"

text \<open>The referential actions of deleting one channel; the agents whose default channel it is go with it.\<close>

definition cascade_channel :: "uuid \<Rightarrow> db \<Rightarrow> db" where
  "cascade_channel ch s =
     (let p = (\<lambda>x. x = ch);
          gone = (\<lambda>i. \<exists>m \<in> set (db_messages s). me_id m = i \<and> me_channel_id m = ch);
          s1 = cascade_agents (\<lambda>i. \<exists>a \<in> set (db_agents s). ag_id a = i \<and> ag_channel_id a = ch) s
      in s1
     \<lparr>db_channels := map (\<lambda>c. c\<lparr>ch_created_by_channel_id := drop_ref p (ch_created_by_channel_id c)\<rparr>)
        (filter (\<lambda>c. ch_id c \<noteq> ch) (db_channels s1)),
      db_agents := map (\<lambda>a. a\<lparr>ag_created_by_channel_id := drop_ref p (ag_created_by_channel_id a)\<rparr>) (db_agents s1),
      db_members := map (\<lambda>c. c\<lparr>ca_created_by_channel_id := drop_ref p (ca_created_by_channel_id c)\<rparr>)
        (filter (\<lambda>c. ca_channel_id c \<noteq> ch) (db_members s1)),
      db_messages := filter (\<lambda>m. me_channel_id m \<noteq> ch) (db_messages s1),
      db_deliveries := filter (\<lambda>d. dl_channel_id d \<noteq> ch \<and> \<not> gone (dl_message_id d)) (db_deliveries s1),
      db_tasks := map (\<lambda>t. t\<lparr>tk_message_id := drop_ref gone (tk_message_id t)\<rparr>)
        (filter (\<lambda>t. tk_channel_id t \<noteq> ch) (db_tasks s1)),
      db_deps := filter (\<lambda>d. td_channel_id d \<noteq> ch) (db_deps s1)\<rparr>)"

definition delete_agent :: "uuid \<Rightarrow> db \<Rightarrow> db" where
  "delete_agent ag s = cascade_agents (\<lambda>x. x = ag) s"

definition fallback_channel :: "uuid \<Rightarrow> uuid \<Rightarrow> db \<Rightarrow> uuid option" where
  "fallback_channel ag ch s = first_membership (\<lambda>c. ca_agent_id c = ag \<and> ca_channel_id c \<noteq> ch) s"

fun ensure_fallbacks ::
  "(uuid \<Rightarrow> string) \<Rightarrow> (uuid \<times> timestamp) list \<Rightarrow> uuid \<Rightarrow> uuid list \<Rightarrow> db \<Rightarrow> store_error option \<times> db" where
  "ensure_fallbacks uuid_text ((i, now) # draws) ch (a # as) s =
     (if fallback_channel a ch s = None
      then (case ensure_direct_channel_for_agent uuid_text i now a s of
              Inl e \<Rightarrow> (Some e, s)
            | Inr (_, s') \<Rightarrow> ensure_fallbacks uuid_text draws ch as s')
      else ensure_fallbacks uuid_text draws ch as s)"
| "ensure_fallbacks _ _ _ _ s = (None, s)"

fun move_homes :: "uuid \<Rightarrow> uuid list \<Rightarrow> db \<Rightarrow> db" where
  "move_homes ch [] s = s"
| "move_homes ch (a # as) s =
     (case fallback_channel a ch s of
        Some to \<Rightarrow> move_homes ch as (move_home a ch to s)
      | None \<Rightarrow> move_homes ch as s)"

definition delete_channel ::
  "(uuid \<Rightarrow> string) \<Rightarrow> (nat \<Rightarrow> uuid \<times> timestamp) \<Rightarrow> uuid \<Rightarrow> db \<Rightarrow> store_error option \<times> db" where
  "delete_channel uuid_text draw ch s =
     (let as = map ca_agent_id (filter (\<lambda>c. ca_channel_id c = ch) (db_members s))
      in case ensure_fallbacks uuid_text (map draw [0..<length as]) ch as s of
           (Some e, s1) \<Rightarrow> (Some e, s1)
         | (None, s1) \<Rightarrow> (None, cascade_channel ch (move_homes ch as s1)))"

section \<open>What the schema and the methods keep\<close>

definition chans_ok :: "db \<Rightarrow> bool" where
  "chans_ok s \<longleftrightarrow> distinct (map ch_id (db_channels s)) \<and> distinct (map ag_id (db_agents s))
     \<and> distinct (map (\<lambda>c. (ca_channel_id c, ca_agent_id c)) (db_members s))
     \<and> (\<forall>c \<in> set (db_channels s). opt_ref (ch_direct_agent_id c) (agent_ids s)
          \<and> opt_ref (ch_created_by_agent_id c) (agent_ids s) \<and> opt_ref (ch_created_by_channel_id c) (channel_ids s))
     \<and> (\<forall>a \<in> set (db_agents s). ag_channel_id a \<in> channel_ids s
          \<and> opt_ref (ag_created_by_agent_id a) (agent_ids s) \<and> opt_ref (ag_created_by_channel_id a) (channel_ids s))
     \<and> (\<forall>m \<in> set (db_members s). ca_channel_id m \<in> channel_ids s \<and> ca_agent_id m \<in> agent_ids s
          \<and> opt_ref (ca_created_by_agent_id m) (agent_ids s) \<and> opt_ref (ca_created_by_channel_id m) (channel_ids s))"

text \<open>Beyond the schema: the default channel of every agent is one of its memberships.\<close>

definition homes_ok :: "db \<Rightarrow> bool" where
  "homes_ok s \<longleftrightarrow> (\<forall>a \<in> set (db_agents s). \<exists>m \<in> set (db_members s). is_member (ag_channel_id a) (ag_id a) m)"

definition rest_ok :: "int \<Rightarrow> db \<Rightarrow> bool" where
  "rest_ok k s \<longleftrightarrow> msgs_ok s \<and> dels_ok k s \<and> inbox_ok s \<and> working_ok s \<and> tasks_ok s \<and> deps_ok s"

definition store_ok :: "int \<Rightarrow> db \<Rightarrow> bool" where
  "store_ok k s \<longleftrightarrow> chans_ok s \<and> homes_ok s \<and> rest_ok k s"

lemma opt_ref_mono: "opt_ref r A \<Longrightarrow> A \<subseteq> B \<Longrightarrow> opt_ref r B"
  by (cases r) auto

lemma rest_ok_mono:
  assumes "rest_ok k s" "channel_ids s \<subseteq> channel_ids t" "agent_ids s \<subseteq> agent_ids t"
    and "db_messages t = db_messages s" "db_deliveries t = db_deliveries s" "db_inbox t = db_inbox s"
      "db_working t = db_working s" "db_tasks t = db_tasks s" "db_deps t = db_deps s"
  shows "rest_ok k t"
proof -
  have "msgs_ok t" "tasks_ok t"
    using assms by (auto simp: rest_ok_def msgs_ok_def tasks_ok_def intro: opt_ref_mono)
  moreover have "dels_ok k t" "deps_ok t"
    using assms by (auto simp: rest_ok_def dels_ok_def of_message_def deps_ok_def edges_def)
  moreover have "inbox_ok t" "working_ok t"
    using assms(1,3) unfolding rest_ok_def inbox_ok_def working_ok_def assms(6,7) by (blast intro: order_trans)+
  ultimately show ?thesis by (simp add: rest_ok_def)
qed

lemma drop_ref_ok: "opt_ref r A \<Longrightarrow> {x \<in> A. \<not> p x} \<subseteq> B \<Longrightarrow> opt_ref (drop_ref p r) B"
  by (cases r) (auto simp: drop_ref_def)

subsection \<open>Memberships\<close>

lemma is_member_key: "is_member ch ag = (\<lambda>c. (ca_channel_id c, ca_agent_id c) = (ch, ag))"
  by (auto simp: fun_eq_iff is_member_def)

lemma membershipE:
  assumes "insert_channel_agent_membership mem s = Inr t"
  obtains (updated) f where "\<exists>c \<in> set (db_members s). is_member (ca_channel_id mem) (ca_agent_id mem) c"
      "t = s\<lparr>db_members := update_rows (is_member (ca_channel_id mem) (ca_agent_id mem)) f (db_members s)\<rparr>"
      "\<And>c. ca_channel_id (f c) = ca_channel_id c \<and> ca_agent_id (f c) = ca_agent_id c
         \<and> ca_created_by_agent_id (f c) = ca_created_by_agent_id c \<and> ca_created_by_channel_id (f c) = ca_created_by_channel_id c"
  | (inserted) "\<forall>c \<in> set (db_members s). \<not> is_member (ca_channel_id mem) (ca_agent_id mem) c"
      "ca_channel_id mem \<in> channel_ids s" "ca_agent_id mem \<in> agent_ids s"
      "opt_ref (ca_created_by_agent_id mem) (agent_ids s)" "opt_ref (ca_created_by_channel_id mem) (channel_ids s)"
      "t = s\<lparr>db_members := db_members s @ [mem]\<rparr>"
proof (cases "\<exists>c \<in> set (db_members s). is_member (ca_channel_id mem) (ca_agent_id mem) c")
  case True
  let ?f = "\<lambda>c. c\<lparr>ca_role := (case ca_role mem of None \<Rightarrow> ca_role c | Some r \<Rightarrow> Some r),
      ca_delivery_policy := ca_delivery_policy mem\<rparr>"
  have "t = s\<lparr>db_members := update_rows (is_member (ca_channel_id mem) (ca_agent_id mem)) ?f (db_members s)\<rparr>"
    using assms True by (simp add: insert_channel_agent_membership_def Let_def split: if_splits)
  from updated [OF True this] show ?thesis by simp
next
  case False
  with assms show ?thesis
    by (intro inserted) (simp_all add: insert_channel_agent_membership_def Let_def split: if_splits)
qed

lemma membership_frame:
  assumes "insert_channel_agent_membership mem s = Inr t"
  shows "db_channels t = db_channels s" "db_agents t = db_agents s" "db_messages t = db_messages s"
    "db_deliveries t = db_deliveries s" "db_inbox t = db_inbox s" "db_working t = db_working s"
    "db_tasks t = db_tasks s" "db_deps t = db_deps s"
  using assms by (cases rule: membershipE; simp)+

lemma membership_keys:
  assumes "insert_channel_agent_membership mem s = Inr t"
  shows "(\<lambda>c. (ca_channel_id c, ca_agent_id c)) ` set (db_members t)
       = insert (ca_channel_id mem, ca_agent_id mem) ((\<lambda>c. (ca_channel_id c, ca_agent_id c)) ` set (db_members s))"
  using assms
proof (cases rule: membershipE)
  case (updated f)
  have "map (\<lambda>c. (ca_channel_id c, ca_agent_id c)) (db_members t) = map (\<lambda>c. (ca_channel_id c, ca_agent_id c)) (db_members s)"
    unfolding updated(2) using updated(3) by (simp add: map_update_rows)
  then have "(\<lambda>c. (ca_channel_id c, ca_agent_id c)) ` set (db_members t) = (\<lambda>c. (ca_channel_id c, ca_agent_id c)) ` set (db_members s)"
    by (metis set_map)
  moreover obtain c where "c \<in> set (db_members s)" "(ca_channel_id c, ca_agent_id c) = (ca_channel_id mem, ca_agent_id mem)"
    using updated(1) by (auto simp: is_member_def)
  then have "(ca_channel_id mem, ca_agent_id mem) \<in> (\<lambda>c. (ca_channel_id c, ca_agent_id c)) ` set (db_members s)"
    by (intro image_eqI [of _ _ c]) simp_all
  ultimately show ?thesis by (simp add: insert_absorb)
qed auto

lemma homes_keys:
  "homes_ok s \<longleftrightarrow> (\<lambda>a. (ag_channel_id a, ag_id a)) ` set (db_agents s) \<subseteq> (\<lambda>c. (ca_channel_id c, ca_agent_id c)) ` set (db_members s)"
  by (simp add: homes_ok_def is_member_def image_subset_iff image_iff eq_commute)

lemma membership_chans_ok:
  assumes "chans_ok s" "insert_channel_agent_membership mem s = Inr t"
  shows "chans_ok t"
  using assms(2)
proof (cases rule: membershipE)
  case (updated f)
  have "map (\<lambda>c. (ca_channel_id c, ca_agent_id c)) (db_members t) = map (\<lambda>c. (ca_channel_id c, ca_agent_id c)) (db_members s)"
    unfolding updated(2) using updated(3) by (simp add: map_update_rows)
  with assms(1) updated(2,3) show ?thesis by (auto simp: chans_ok_def set_update_rows)
next
  case inserted
  with assms(1) show ?thesis by (auto simp: chans_ok_def is_member_def)
qed

lemma membership_store_ok:
  assumes "chans_ok s" "rest_ok k s" "insert_channel_agent_membership mem s = Inr t"
  shows "chans_ok t \<and> rest_ok k t"
  using membership_chans_ok [OF assms(1,3)] membership_frame [OF assms(3)]
  by (auto intro: rest_ok_mono [OF assms(2)])

lemma membership_homes_ok: "homes_ok s \<Longrightarrow> insert_channel_agent_membership mem s = Inr t \<Longrightarrow> homes_ok t"
  by (auto simp: homes_keys membership_keys membership_frame)

lemma first_row_Some: "first_row (sort_key f xs) = Some x \<Longrightarrow> x \<in> set xs"
  by (auto simp: first_row_def split: list.splits) (metis list.set_intros(1) set_sort)

lemma first_row_None [simp]: "first_row (sort_key f xs) = None \<longleftrightarrow> xs = []"
  by (auto simp: first_row_def split: list.splits) (metis length_0_conv length_sort)+

lemma first_membership_Some:
  "first_membership p s = Some ch \<Longrightarrow> \<exists>m \<in> set (db_members s). p m \<and> ca_channel_id m = ch"
  by (fastforce simp: first_membership_def dest: first_row_Some)

lemma first_membership_None: "first_membership p s = None \<longleftrightarrow> (\<forall>m \<in> set (db_members s). \<not> p m)"
  by (simp add: first_membership_def filter_empty_conv)

subsection \<open>Moving the default channel\<close>

lemma move_home_ids: "map ag_id (db_agents (move_home ag ch to s)) = map ag_id (db_agents s)"
  by (simp add: move_home_def map_update_rows)

lemma move_home_frame [simp]:
  "db_channels (move_home ag ch to s) = db_channels s" "db_members (move_home ag ch to s) = db_members s"
  "db_messages (move_home ag ch to s) = db_messages s" "db_deliveries (move_home ag ch to s) = db_deliveries s"
  "db_inbox (move_home ag ch to s) = db_inbox s" "db_working (move_home ag ch to s) = db_working s"
  "db_tasks (move_home ag ch to s) = db_tasks s" "db_deps (move_home ag ch to s) = db_deps s"
  by (simp_all add: move_home_def)

lemma move_home_agent_ids: "agent_ids (move_home ag ch to s) = agent_ids s"
  using move_home_ids [of ag ch to s] by (metis set_map)

lemma move_home_ok:
  assumes "chans_ok s" "rest_ok k s" "to \<in> channel_ids s"
  shows "chans_ok (move_home ag ch to s) \<and> rest_ok k (move_home ag ch to s)"
proof
  have "ag_channel_id a \<in> channel_ids s \<and> opt_ref (ag_created_by_agent_id a) (agent_ids s)
      \<and> opt_ref (ag_created_by_channel_id a) (channel_ids s)"
    if "a \<in> set (db_agents (move_home ag ch to s))" for a
    using that assms(1,3) by (auto simp: move_home_def set_update_rows chans_ok_def)
  then show "chans_ok (move_home ag ch to s)"
    using assms(1) unfolding chans_ok_def move_home_agent_ids move_home_ids move_home_frame by blast
  show "rest_ok k (move_home ag ch to s)"
    by (rule rest_ok_mono [OF assms(2)]) (simp_all add: move_home_agent_ids)
qed

lemma move_home_homes:
  assumes "\<And>a. a \<in> set (db_agents s) \<Longrightarrow> \<not> (ag_id a = ag \<and> ag_channel_id a = ch) \<Longrightarrow> \<exists>m \<in> set (db_members s). is_member (ag_channel_id a) (ag_id a) m"
    and "\<exists>m \<in> set (db_members s). is_member to ag m"
  shows "homes_ok (move_home ag ch to s)"
  using assms by (auto simp: homes_ok_def move_home_def set_update_rows)

subsection \<open>Creating channels and agents\<close>

lemma map_eq_image: "map f xs = map f ys \<Longrightarrow> f ` set xs = f ` set ys"
  unfolding set_map [symmetric] by simp

lemma add_channel_ok:
  assumes "chans_ok s" "rest_ok k s" "ch_id c \<notin> channel_ids s"
    "opt_ref (ch_direct_agent_id c) (agent_ids s)" "opt_ref (ch_created_by_agent_id c) (agent_ids s)"
    "opt_ref (ch_created_by_channel_id c) (insert (ch_id c) (channel_ids s))"
  shows "chans_ok (s\<lparr>db_channels := db_channels s @ [c]\<rparr>) \<and> rest_ok k (s\<lparr>db_channels := db_channels s @ [c]\<rparr>)"
proof
  let ?t = "s\<lparr>db_channels := db_channels s @ [c]\<rparr>"
  have ids: "channel_ids ?t = insert (ch_id c) (channel_ids s)" by auto
  have sub: "channel_ids s \<subseteq> insert (ch_id c) (channel_ids s)" by blast
  show "chans_ok ?t"
    using assms unfolding chans_ok_def ids by (auto intro: opt_ref_mono [OF _ sub])
  show "rest_ok k ?t" by (rule rest_ok_mono [OF assms(2)]) auto
qed

lemma create_channel_ok:
  assumes "store_ok k s" "create_channel i now name s = Inr (c, t)"
  shows "store_ok k t"
proof -
  have t: "t = s\<lparr>db_channels := db_channels s @ [c]\<rparr>" "ch_id c \<notin> channel_ids s" "ch_direct_agent_id c = None"
    "ch_created_by_agent_id c = None" "ch_created_by_channel_id c = None"
    using assms(2) by (auto simp: create_channel_def Let_def split: if_splits)
  then show ?thesis
    using assms(1) add_channel_ok [of s k c] by (simp add: store_ok_def homes_ok_def)
qed

lemma insert_agentE:
  assumes "insert_agent a s = Inr t"
  obtains "t = s\<lparr>db_agents := db_agents s @ [a]\<rparr>" "ag_id a \<notin> agent_ids s" "ag_channel_id a \<in> channel_ids s"
    "opt_ref (ag_created_by_agent_id a) (agent_ids s)" "opt_ref (ag_created_by_channel_id a) (channel_ids s)"
  using assms by (auto simp: insert_agent_def split: if_splits)

lemma insert_agent_ok:
  assumes "chans_ok s" "rest_ok k s" "insert_agent a s = Inr t"
  shows "chans_ok t \<and> rest_ok k t"
  using assms(3)
proof (rule insert_agentE)
  assume a: "t = s\<lparr>db_agents := db_agents s @ [a]\<rparr>" "ag_id a \<notin> agent_ids s" "ag_channel_id a \<in> channel_ids s"
    "opt_ref (ag_created_by_agent_id a) (agent_ids s)" "opt_ref (ag_created_by_channel_id a) (channel_ids s)"
  have ids: "agent_ids t = insert (ag_id a) (agent_ids s)" by (auto simp: a(1))
  have sub: "agent_ids s \<subseteq> insert (ag_id a) (agent_ids s)" by blast
  have "chans_ok t"
    using assms(1) a unfolding chans_ok_def ids by (auto intro: opt_ref_mono [OF _ sub])
  moreover have "rest_ok k t" by (rule rest_ok_mono [OF assms(2)]) (auto simp: a(1))
  ultimately show ?thesis by blast
qed

lemma agent_with_membership_ok:
  assumes "chans_ok s" "rest_ok k s" "homes_ok s" "insert_agent a s = Inr s1"
    "insert_channel_agent_membership mem s1 = Inr t" "ca_channel_id mem = ag_channel_id a" "ca_agent_id mem = ag_id a"
  shows "store_ok k t"
proof -
  have 1: "chans_ok s1 \<and> rest_ok k s1" using insert_agent_ok [OF assms(1,2,4)] .
  have "chans_ok t \<and> rest_ok k t" using 1 membership_store_ok [OF _ _ assms(5)] by blast
  moreover have s1: "s1 = s\<lparr>db_agents := db_agents s @ [a]\<rparr>" using assms(4) by (rule insert_agentE)
  have "homes_ok t"
    using assms(3,6,7) membership_frame(2) [OF assms(5)] by (auto simp: homes_keys membership_keys [OF assms(5)] s1)
  ultimately show ?thesis by (simp add: store_ok_def)
qed

lemma create_agent_ok:
  assumes "store_ok k s" "create_agent i now ch name runtime model status s = Inr (a, t)"
  shows "store_ok k t"
proof -
  obtain s1 mem where "insert_agent a s = Inr s1" "insert_channel_agent_membership mem s1 = Inr t"
    "ca_channel_id mem = ag_channel_id a" "ca_agent_id mem = ag_id a"
    using assms(2) by (auto simp: create_agent_def Let_def new_agent_def split: sum.splits)
  with assms(1) agent_with_membership_ok show ?thesis by (metis store_ok_def)
qed

lemma direct_agent_ok:
  assumes "store_ok k s" "ag \<in> agent_ids s"
  shows "store_ok k (s\<lparr>db_channels := update_rows (\<lambda>c. ch_id c = ch) (\<lambda>c. c\<lparr>ch_direct_agent_id := Some ag\<rparr>) (db_channels s)\<rparr>)"
    (is "store_ok k ?t")
proof -
  have m: "map ch_id (db_channels ?t) = map ch_id (db_channels s)" by (simp add: map_update_rows)
  then have ids: "channel_ids ?t = channel_ids s" by (rule map_eq_image)
  have "opt_ref (ch_direct_agent_id c) (agent_ids s) \<and> opt_ref (ch_created_by_agent_id c) (agent_ids s)
      \<and> opt_ref (ch_created_by_channel_id c) (channel_ids s)" if "c \<in> set (db_channels ?t)" for c
    using that assms by (auto simp: set_update_rows store_ok_def chans_ok_def)
  then have "chans_ok ?t"
    using assms(1) m unfolding store_ok_def chans_ok_def ids by simp
  moreover have "rest_ok k ?t" by (rule rest_ok_mono [of k s]) (use assms(1) ids in \<open>simp_all add: store_ok_def\<close>)
  moreover have "homes_ok ?t" using assms(1) by (simp add: store_ok_def homes_ok_def)
  ultimately show ?thesis by (simp add: store_ok_def)
qed

lemma create_standalone_ok:
  assumes "store_ok k s" "create_standalone_agent ut c i now name runtime model status ba bc s = Inr (a, t)"
  shows "store_ok k t"
proof -
  let ?c = "\<lparr>ch_id = c, ch_name = ''direct:'' @ ut i, ch_description = None, ch_goal = None,
               ch_kind = ''direct'', ch_is_system = True, ch_direct_agent_id = None,
               ch_created_by_agent_id = ba, ch_created_by_channel_id = bc, ch_created_at = now\<rparr>"
  let ?s = "s\<lparr>db_channels := db_channels s @ [?c]\<rparr>"
  obtain s1 s2 mem where g: "c \<notin> channel_ids s" "opt_ref ba (agent_ids s)" "opt_ref bc (insert c (channel_ids s))"
    and 1: "insert_agent a ?s = Inr s1" and 2: "insert_channel_agent_membership mem s1 = Inr s2"
    and mem: "ca_channel_id mem = ag_channel_id a" "ca_agent_id mem = ag_id a" "ag_id a = i"
    and t: "t = s2\<lparr>db_channels := update_rows (\<lambda>x. ch_id x = c) (\<lambda>x. x\<lparr>ch_direct_agent_id := Some i\<rparr>) (db_channels s2)\<rparr>"
    using assms(2) by (auto simp: create_standalone_agent_def Let_def new_agent_def split: sum.splits if_splits)
  have "chans_ok ?s \<and> rest_ok k ?s" using assms(1) g by (intro add_channel_ok) (auto simp: store_ok_def)
  moreover have "homes_ok ?s" using assms(1) by (simp add: store_ok_def homes_ok_def)
  ultimately have "store_ok k s2" using agent_with_membership_ok [OF _ _ _ 1 2 mem(1,2)] by blast
  moreover have "s1 = ?s\<lparr>db_agents := db_agents ?s @ [a]\<rparr>" using 1 by (rule insert_agentE)
  then have "i \<in> agent_ids s2" using membership_frame(2) [OF 2] mem(3) by auto
  ultimately show ?thesis unfolding t by (rule direct_agent_ok)
qed

lemma update_agent_ok:
  assumes "store_ok k s"
    and "\<And>a. ag_id (f a) = ag_id a \<and> ag_channel_id (f a) = ag_channel_id a
         \<and> ag_created_by_agent_id (f a) = ag_created_by_agent_id a \<and> ag_created_by_channel_id (f a) = ag_created_by_channel_id a"
  shows "store_ok k (snd (update_agent ag f s))"
proof -
  let ?t = "s\<lparr>db_agents := update_rows (\<lambda>a. ag_id a = ag) f (db_agents s)\<rparr>"
  have m: "map ag_id (db_agents ?t) = map ag_id (db_agents s)" using assms(2) by (simp add: map_update_rows)
  then have ids: "agent_ids ?t = agent_ids s" by (rule map_eq_image)
  have "map (\<lambda>a. (ag_channel_id a, ag_id a)) (db_agents ?t) = map (\<lambda>a. (ag_channel_id a, ag_id a)) (db_agents s)"
    using assms(2) by (simp add: map_update_rows)
  then have "(\<lambda>a. (ag_channel_id a, ag_id a)) ` set (db_agents ?t) = (\<lambda>a. (ag_channel_id a, ag_id a)) ` set (db_agents s)"
    by (rule map_eq_image)
  then have "homes_ok ?t" using assms(1) by (simp add: store_ok_def homes_keys)
  moreover have old: "ag_channel_id a \<in> channel_ids s \<and> opt_ref (ag_created_by_agent_id a) (agent_ids s)
      \<and> opt_ref (ag_created_by_channel_id a) (channel_ids s)" if "a \<in> set (db_agents s)" for a
    using that assms(1) by (simp add: store_ok_def chans_ok_def)
  have "ag_channel_id a \<in> channel_ids s \<and> opt_ref (ag_created_by_agent_id a) (agent_ids s)
      \<and> opt_ref (ag_created_by_channel_id a) (channel_ids s)" if a: "a \<in> set (db_agents ?t)" for a
  proof (cases "a \<in> set (db_agents s)")
    case False
    with a obtain b where "b \<in> set (db_agents s)" "a = f b" by (auto simp: set_update_rows)
    with old [of b] assms(2) [of b] show ?thesis by simp
  qed (rule old)
  then have "chans_ok ?t" using assms(1) m unfolding store_ok_def chans_ok_def ids by simp
  moreover have "rest_ok k ?t"
    by (rule rest_ok_mono [of k s]) (use assms(1) ids in \<open>simp_all add: store_ok_def\<close>)
  ultimately show ?thesis by (simp add: store_ok_def update_agent_def Let_def)
qed

lemma update_channel_profile_ok:
  assumes "store_ok k s"
  shows "store_ok k (snd (update_channel_profile ch description goal s))"
proof -
  let ?t = "s\<lparr>db_channels := update_rows (\<lambda>c. ch_id c = ch) (\<lambda>c. c\<lparr>ch_description := description, ch_goal := goal\<rparr>) (db_channels s)\<rparr>"
  have m: "map ch_id (db_channels ?t) = map ch_id (db_channels s)" by (simp add: map_update_rows)
  then have ids: "channel_ids ?t = channel_ids s" by (rule map_eq_image)
  have "opt_ref (ch_direct_agent_id c) (agent_ids s) \<and> opt_ref (ch_created_by_agent_id c) (agent_ids s)
      \<and> opt_ref (ch_created_by_channel_id c) (channel_ids s)" if "c \<in> set (db_channels ?t)" for c
    using that assms by (auto simp: set_update_rows store_ok_def chans_ok_def)
  then have "chans_ok ?t" using assms m unfolding store_ok_def chans_ok_def ids by simp
  moreover have "rest_ok k ?t" by (rule rest_ok_mono [of k s]) (use assms(1) ids in \<open>simp_all add: store_ok_def\<close>)
  moreover have "homes_ok ?t" using assms by (simp add: store_ok_def homes_ok_def)
  ultimately show ?thesis by (simp add: store_ok_def update_channel_profile_def Let_def)
qed

lemma add_agent_to_channel_ok:
  assumes "store_ok k s" "add_agent_to_channel ut now ch ag role policy ba bc s = Inr (c, t)"
  shows "store_ok k t"
proof -
  obtain mem where "insert_channel_agent_membership mem s = Inr t"
    using assms(2) by (auto simp: add_agent_to_channel_def split: sum.splits option.splits)
  with assms(1) membership_store_ok membership_homes_ok show ?thesis by (metis store_ok_def)
qed

subsection \<open>Leaving a channel\<close>

lemma drop_members_ok:
  assumes "chans_ok s" "rest_ok k s"
  shows "chans_ok (s\<lparr>db_members := filter p (db_members s)\<rparr>) \<and> rest_ok k (s\<lparr>db_members := filter p (db_members s)\<rparr>)"
proof
  show "chans_ok (s\<lparr>db_members := filter p (db_members s)\<rparr>)"
    using assms(1) by (simp add: chans_ok_def distinct_map_filter)
  show "rest_ok k (s\<lparr>db_members := filter p (db_members s)\<rparr>)" by (rule rest_ok_mono [OF assms(2)]) simp_all
qed

lemma remove_agent_from_channel_ok:
  assumes "store_ok k s" "remove_agent_from_channel ch ag s = Inr (u, t)"
  shows "store_ok k t"
proof -
  let ?s = "s\<lparr>db_members := filter (\<lambda>c. \<not> is_member ch ag c) (db_members s)\<rparr>"
  have ok: "chans_ok ?s" "rest_ok k ?s"
    using drop_members_ok assms(1) by (auto simp: store_ok_def)
  have keep: "\<exists>m \<in> set (db_members ?s). is_member (ag_channel_id a) (ag_id a) m"
    if "a \<in> set (db_agents s)" "\<not> (ag_id a = ag \<and> ag_channel_id a = ch)" for a
  proof -
    have "\<exists>m \<in> set (db_members s). is_member (ag_channel_id a) (ag_id a) m"
      using assms(1) that(1) by (auto simp: store_ok_def homes_ok_def)
    then obtain m where m: "m \<in> set (db_members s)" "is_member (ag_channel_id a) (ag_id a) m" by blast
    with that(2) have "\<not> is_member ch ag m" by (auto simp: is_member_def)
    with m show ?thesis by auto
  qed
  show ?thesis
  proof (cases "first_membership (\<lambda>c. ca_agent_id c = ag) ?s")
    case None
    with assms(2) have "t = ?s" "\<forall>a \<in> set (db_agents s). \<not> (ag_id a = ag \<and> ag_channel_id a = ch)"
      by (auto simp: remove_agent_from_channel_def split: if_splits)
    with ok keep show ?thesis by (auto simp: store_ok_def homes_ok_def)
  next
    case (Some to)
    with assms(2) have t: "t = move_home ag ch to ?s" by (simp add: remove_agent_from_channel_def)
    obtain m where m: "m \<in> set (db_members ?s)" "ca_agent_id m = ag" "ca_channel_id m = to"
      using first_membership_Some [OF Some] by blast
    then have "to \<in> channel_ids ?s" using ok(1) by (auto simp: chans_ok_def)
    from move_home_ok [OF ok this] have "chans_ok t \<and> rest_ok k t" unfolding t .
    moreover have "homes_ok t"
      unfolding t
    proof (rule move_home_homes)
      show "\<exists>m \<in> set (db_members ?s). is_member to ag m" using m by (auto simp: is_member_def)
    qed (use keep in auto)
    ultimately show ?thesis by (simp add: store_ok_def)
  qed
qed

subsection \<open>Referential actions\<close>

lemma cascade_agents_ids:
  "agent_ids (cascade_agents p s) = {i \<in> agent_ids s. \<not> p i}" "channel_ids (cascade_agents p s) = channel_ids s"
  "message_ids (cascade_agents p s) = message_ids s"
  by (auto simp: cascade_agents_def image_image)

lemma edges_cascade_agents [simp]: "edges ch (cascade_agents p s) = edges ch s"
  by (simp add: edges_def cascade_agents_def)

lemma cascade_agents_chans_ok:
  assumes "chans_ok s"
  shows "chans_ok (cascade_agents p s)"
  unfolding chans_ok_def cascade_agents_ids
  using assms by (auto simp: chans_ok_def cascade_agents_def comp_def distinct_map_filter intro!: drop_ref_ok)

lemma cascade_agents_homes_ok:
  assumes "homes_ok s"
  shows "homes_ok (cascade_agents p s)"
  using assms by (fastforce simp: homes_ok_def cascade_agents_def is_member_def)

lemma cascade_agents_msgs_ok: "msgs_ok s \<Longrightarrow> msgs_ok (cascade_agents p s)"
  unfolding msgs_ok_def cascade_agents_ids
  by (auto simp: cascade_agents_def comp_def intro!: drop_ref_ok)

lemma cascade_agents_of_message: "of_message d (cascade_agents p s) = of_message d s"
  by (auto simp: of_message_def cascade_agents_def)

lemma cascade_agents_dels_ok: "dels_ok k s \<Longrightarrow> dels_ok k (cascade_agents p s)"
  unfolding dels_ok_def cascade_agents_ids cascade_agents_of_message
  by (auto simp: cascade_agents_def distinct_map_filter)

lemma cascade_agents_inbox_ok: "inbox_ok s \<Longrightarrow> inbox_ok (cascade_agents p s)"
  unfolding inbox_ok_def cascade_agents_ids
  by (force simp: cascade_agents_def distinct_map_filter)

lemma cascade_agents_working_ok: "working_ok s \<Longrightarrow> working_ok (cascade_agents p s)"
  unfolding working_ok_def cascade_agents_ids
  by (auto simp: cascade_agents_def distinct_map_filter)

lemma cascade_agents_tasks_ok: "tasks_ok s \<Longrightarrow> tasks_ok (cascade_agents p s)"
  unfolding tasks_ok_def cascade_agents_ids
  by (auto simp: cascade_agents_def comp_def intro!: drop_ref_ok)

lemma cascade_agents_deps_ok: "deps_ok s \<Longrightarrow> deps_ok (cascade_agents p s)"
  unfolding deps_ok_def edges_cascade_agents
  by (auto simp: cascade_agents_def at_number_def)

lemmas cascade_agents_parts = cascade_agents_msgs_ok cascade_agents_dels_ok cascade_agents_inbox_ok
  cascade_agents_working_ok cascade_agents_tasks_ok cascade_agents_deps_ok

lemma cascade_agents_ok: "store_ok k s \<Longrightarrow> store_ok k (cascade_agents p s)"
  by (simp add: store_ok_def rest_ok_def cascade_agents_chans_ok cascade_agents_homes_ok cascade_agents_parts)

text \<open>What deleting a channel leaves once the agents that go with it are gone.\<close>

definition drop_channel :: "uuid \<Rightarrow> db \<Rightarrow> db" where
  "drop_channel ch s =
     (let p = (\<lambda>x. x = ch);
          gone = (\<lambda>i. \<exists>m \<in> set (db_messages s). me_id m = i \<and> me_channel_id m = ch)
      in s
     \<lparr>db_channels := map (\<lambda>c. c\<lparr>ch_created_by_channel_id := drop_ref p (ch_created_by_channel_id c)\<rparr>)
        (filter (\<lambda>c. ch_id c \<noteq> ch) (db_channels s)),
      db_agents := map (\<lambda>a. a\<lparr>ag_created_by_channel_id := drop_ref p (ag_created_by_channel_id a)\<rparr>) (db_agents s),
      db_members := map (\<lambda>c. c\<lparr>ca_created_by_channel_id := drop_ref p (ca_created_by_channel_id c)\<rparr>)
        (filter (\<lambda>c. ca_channel_id c \<noteq> ch) (db_members s)),
      db_messages := filter (\<lambda>m. me_channel_id m \<noteq> ch) (db_messages s),
      db_deliveries := filter (\<lambda>d. dl_channel_id d \<noteq> ch \<and> \<not> gone (dl_message_id d)) (db_deliveries s),
      db_tasks := map (\<lambda>t. t\<lparr>tk_message_id := drop_ref gone (tk_message_id t)\<rparr>)
        (filter (\<lambda>t. tk_channel_id t \<noteq> ch) (db_tasks s)),
      db_deps := filter (\<lambda>d. td_channel_id d \<noteq> ch) (db_deps s)\<rparr>)"

lemma cascade_channel_eq:
  "cascade_channel ch s = drop_channel ch (cascade_agents (\<lambda>i. \<exists>a \<in> set (db_agents s). ag_id a = i \<and> ag_channel_id a = ch) s)"
  by (simp add: cascade_channel_def drop_channel_def cascade_agents_def)

lemma drop_channel_ids:
  "agent_ids (drop_channel ch s) = agent_ids s" "channel_ids (drop_channel ch s) = channel_ids s - {ch}"
  by (auto simp: drop_channel_def Let_def image_image)

lemma drop_channel_message_ids:
  "{i \<in> message_ids s. \<not> (\<exists>m \<in> set (db_messages s). me_id m = i \<and> me_channel_id m = ch)} \<subseteq> message_ids (drop_channel ch s)"
  by (auto simp: drop_channel_def Let_def)

lemma drop_channel_chans_ok:
  assumes "chans_ok s" "\<forall>a \<in> set (db_agents s). ag_channel_id a \<noteq> ch"
  shows "chans_ok (drop_channel ch s)"
  unfolding chans_ok_def drop_channel_ids
  using assms by (auto simp: chans_ok_def drop_channel_def Let_def comp_def distinct_map_filter intro!: drop_ref_ok)

lemma drop_channel_homes_ok:
  assumes "homes_ok s" "\<forall>a \<in> set (db_agents s). ag_channel_id a \<noteq> ch"
  shows "homes_ok (drop_channel ch s)"
  using assms by (fastforce simp: homes_ok_def drop_channel_def Let_def is_member_def)

lemma drop_channel_msgs_ok: "msgs_ok s \<Longrightarrow> msgs_ok (drop_channel ch s)"
  unfolding msgs_ok_def drop_channel_ids
  by (auto simp: drop_channel_def Let_def distinct_map_filter)

lemma drop_channel_dels_ok: "dels_ok k s \<Longrightarrow> dels_ok k (drop_channel ch s)"
  unfolding dels_ok_def drop_channel_ids of_message_def
  by (force simp: drop_channel_def Let_def distinct_map_filter)

lemma drop_channel_inbox_ok: "inbox_ok s \<Longrightarrow> inbox_ok (drop_channel ch s)"
  unfolding inbox_ok_def drop_channel_ids by (simp add: drop_channel_def Let_def)

lemma drop_channel_working_ok: "working_ok s \<Longrightarrow> working_ok (drop_channel ch s)"
  unfolding working_ok_def drop_channel_ids by (simp add: drop_channel_def Let_def)

lemma drop_channel_tasks_ok: "tasks_ok s \<Longrightarrow> tasks_ok (drop_channel ch s)"
proof -
  assume ok: "tasks_ok s"
  let ?gone = "\<lambda>i. \<exists>m \<in> set (db_messages s). me_id m = i \<and> me_channel_id m = ch"
  have "opt_ref (drop_ref ?gone (tk_message_id r)) (message_ids (drop_channel ch s))" if "r \<in> set (db_tasks s)" for r
    using ok that drop_channel_message_ids [of s ch] by (intro drop_ref_ok) (auto simp: tasks_ok_def)
  with ok show ?thesis
    unfolding tasks_ok_def drop_channel_ids
    by (auto simp: drop_channel_def Let_def comp_def distinct_map_filter)
qed

lemma edges_drop_channel: "edges c (drop_channel ch s) = (if c = ch then [] else edges c s)"
  by (auto simp: edges_def drop_channel_def Let_def intro!: arg_cong [where f = "map _"] filter_cong)

lemma drop_channel_deps_ok:
  assumes "deps_ok s"
  shows "deps_ok (drop_channel ch s)"
proof -
  have "\<exists>r \<in> set (db_tasks (drop_channel ch s)). at_number c n r"
    if "\<exists>r \<in> set (db_tasks s). at_number c n r" "c \<noteq> ch" for c n
    using that by (force simp: drop_channel_def Let_def at_number_def)
  moreover have "set (db_deps (drop_channel ch s)) = {d \<in> set (db_deps s). td_channel_id d \<noteq> ch}"
    by (auto simp: drop_channel_def Let_def)
  moreover have "distinct (map (\<lambda>d. (td_channel_id d, td_task_number d, td_depends_on d)) (db_deps (drop_channel ch s)))"
    using assms by (auto simp: drop_channel_def Let_def deps_ok_def distinct_map_filter)
  moreover have "acyclic (set (edges c (drop_channel ch s)))" for c
    using assms by (auto simp: edges_drop_channel deps_ok_def acyclic_def)
  ultimately show ?thesis using assms unfolding deps_ok_def by auto
qed

lemmas drop_channel_parts = drop_channel_msgs_ok drop_channel_dels_ok drop_channel_inbox_ok
  drop_channel_working_ok drop_channel_tasks_ok drop_channel_deps_ok

lemma cascade_channel_ok:
  assumes "store_ok k s"
  shows "store_ok k (cascade_channel ch s)"
proof -
  let ?s = "cascade_agents (\<lambda>i. \<exists>a \<in> set (db_agents s). ag_id a = i \<and> ag_channel_id a = ch) s"
  have ok: "store_ok k ?s" using assms by (rule cascade_agents_ok)
  have "\<forall>a \<in> set (db_agents ?s). ag_channel_id a \<noteq> ch" by (auto simp: cascade_agents_def)
  with ok show ?thesis
    unfolding cascade_channel_eq
    by (simp add: store_ok_def rest_ok_def drop_channel_chans_ok drop_channel_homes_ok drop_channel_parts)
qed

subsection \<open>Deleting a channel\<close>

lemma get_direct_None:
  "get_direct_channel_for_agent ag s = None \<longleftrightarrow>
     (\<forall>c \<in> set (db_channels s). \<not> (ch_kind c = ''direct'' \<and> ch_direct_agent_id c = Some ag))"
  by (simp add: get_direct_channel_for_agent_def filter_empty_conv)

lemma fallback_None: "fallback_channel a ch s = None \<longleftrightarrow> (\<forall>m \<in> set (db_members s). ca_agent_id m = a \<longrightarrow> ca_channel_id m = ch)"
  by (auto simp: fallback_channel_def first_membership_None)

lemma fallback_cong: "db_members s = db_members t \<Longrightarrow> fallback_channel a ch s = fallback_channel a ch t"
  by (simp add: fallback_channel_def first_membership_def)

lemma membership_keeps: "store_ok k s \<Longrightarrow> insert_channel_agent_membership mem s = Inr t \<Longrightarrow> store_ok k t"
  using membership_store_ok membership_homes_ok unfolding store_ok_def by blast

lemma ensure_direct_ok:
  assumes "store_ok k s" "ensure_direct_channel_for_agent ut i now ag s = Inr (c, t)" "ag \<in> agent_ids s"
  shows "store_ok k t"
proof (cases "get_direct_channel_for_agent ag s")
  case None
  let ?c = "\<lparr>ch_id = i, ch_name = ''direct:'' @ ut ag, ch_description = None, ch_goal = None,
                    ch_kind = ''direct'', ch_is_system = True, ch_direct_agent_id = Some ag,
                    ch_created_by_agent_id = None, ch_created_by_channel_id = None, ch_created_at = now\<rparr>"
  let ?s = "if i \<in> channel_ids s then s else s\<lparr>db_channels := db_channels s @ [?c]\<rparr>"
  obtain mem where m: "insert_channel_agent_membership mem ?s = Inr t"
    using assms(2) None by (auto simp: ensure_direct_channel_for_agent_def Let_def split: if_splits sum.splits)
  have "store_ok k ?s"
    using assms(1,3) add_channel_ok [of s k ?c] by (auto simp: store_ok_def homes_ok_def)
  from membership_keeps [OF this m] show ?thesis .
qed (use assms in \<open>simp add: ensure_direct_channel_for_agent_def\<close>)

lemma ensure_direct_new:
  assumes "chans_ok s" "get_direct_channel_for_agent ag s = None" "i \<notin> channel_ids s" "ag \<in> agent_ids s"
  shows "\<exists>c mem. ensure_direct_channel_for_agent ut i now ag s
        = Inr (c, s\<lparr>db_channels := db_channels s @ [c], db_members := db_members s @ [mem]\<rparr>)
     \<and> ch_id c = i \<and> ch_kind c = ''direct'' \<and> ch_direct_agent_id c = Some ag \<and> ca_channel_id mem = i \<and> ca_agent_id mem = ag"
proof -
  have "\<forall>m \<in> set (db_members s). \<not> is_member i ag m" using assms(1,3) by (auto simp: chans_ok_def is_member_def)
  with assms show ?thesis
    by (auto simp: ensure_direct_channel_for_agent_def insert_channel_agent_membership_def Let_def)
qed

lemma ensure_fallbacks_effect:
  assumes "length draws = length as" "store_ok k s" "distinct as" "set as \<subseteq> agent_ids s"
    "distinct (map fst draws)" "fst ` set draws \<inter> channel_ids s = {}" "ch \<in> channel_ids s"
  shows "\<exists>t. ensure_fallbacks ut draws ch as s = (None, t) \<and> db_agents t = db_agents s \<and> store_ok k t
     \<and> (\<forall>a. fallback_channel a ch t = None \<longleftrightarrow>
          fallback_channel a ch s = None \<and> (a \<in> set as \<longrightarrow> get_direct_channel_for_agent a s \<noteq> None))"
  using assms
proof (induction draws as arbitrary: s rule: list_induct2)
  case (Cons d draws a as)
  obtain i now where d: "d = (i, now)" by (cases d)
  let ?new = "fallback_channel a ch s = None \<and> get_direct_channel_for_agent a s = None"
  show ?case
  proof (cases ?new)
    case True
    have "i \<notin> channel_ids s" using Cons.prems(5) d by auto
    then obtain c mem where e: "ensure_direct_channel_for_agent ut i now a s
        = Inr (c, s\<lparr>db_channels := db_channels s @ [c], db_members := db_members s @ [mem]\<rparr>)" (is "_ = Inr (c, ?s)")
      and c: "ch_id c = i" "ch_kind c = ''direct''" "ch_direct_agent_id c = Some a" "ca_channel_id mem = i" "ca_agent_id mem = a"
      using ensure_direct_new [of s a i ut now] True Cons.prems(1,3) by (auto simp: store_ok_def)
    have ok: "store_ok k ?s" using ensure_direct_ok [OF Cons.prems(1) e] Cons.prems(3) by simp
    have "i \<noteq> ch" using Cons.prems(5,6) d by auto
    then have fb: "fallback_channel x ch ?s = None \<longleftrightarrow> fallback_channel x ch s = None \<and> x \<noteq> a" for x
      using c by (auto simp: fallback_None)
    have gd: "get_direct_channel_for_agent x ?s = None \<longleftrightarrow> get_direct_channel_for_agent x s = None \<and> x \<noteq> a" for x
      using c by (auto simp: get_direct_None)
    have "\<exists>t. ensure_fallbacks ut draws ch as ?s = (None, t) \<and> db_agents t = db_agents ?s \<and> store_ok k t
       \<and> (\<forall>x. fallback_channel x ch t = None \<longleftrightarrow>
            fallback_channel x ch ?s = None \<and> (x \<in> set as \<longrightarrow> get_direct_channel_for_agent x ?s \<noteq> None))"
      using Cons.prems ok d c(1) by (intro Cons.IH) auto
    then show ?thesis
      using True e d Cons.prems(2) by (auto simp: fb gd)
  next
    case False
    have "\<exists>t. ensure_fallbacks ut draws ch as s = (None, t) \<and> db_agents t = db_agents s \<and> store_ok k t
       \<and> (\<forall>x. fallback_channel x ch t = None \<longleftrightarrow>
            fallback_channel x ch s = None \<and> (x \<in> set as \<longrightarrow> get_direct_channel_for_agent x s \<noteq> None))"
      using Cons.prems by (intro Cons.IH) auto
    moreover have "ensure_fallbacks ut (d # draws) ch (a # as) s = ensure_fallbacks ut draws ch as s"
      using False d by (auto simp: ensure_direct_channel_for_agent_def split: option.splits)
    ultimately show ?thesis using False by auto
  qed
qed auto

lemma move_home_at:
  "to \<noteq> ch \<Longrightarrow> (\<exists>x \<in> set (db_agents (move_home a ch to s)). ag_id x = i \<and> ag_channel_id x = ch)
     \<longleftrightarrow> (\<exists>x \<in> set (db_agents s). ag_id x = i \<and> ag_channel_id x = ch) \<and> i \<noteq> a"
  by (auto simp: move_home_def set_update_rows)

lemma move_homes_effect:
  assumes "store_ok k s"
  shows "store_ok k (move_homes ch as s) \<and> db_members (move_homes ch as s) = db_members s
     \<and> agent_ids (move_homes ch as s) = agent_ids s
     \<and> (\<forall>i. (\<exists>x \<in> set (db_agents (move_homes ch as s)). ag_id x = i \<and> ag_channel_id x = ch)
          \<longleftrightarrow> (\<exists>x \<in> set (db_agents s). ag_id x = i \<and> ag_channel_id x = ch) \<and> \<not> (i \<in> set as \<and> fallback_channel i ch s \<noteq> None))"
  using assms
proof (induction as arbitrary: s)
  case (Cons a as)
  show ?case
  proof (cases "fallback_channel a ch s")
    case None
    with Cons.IH [OF Cons.prems] show ?thesis by auto
  next
    case (Some to)
    obtain m where m: "m \<in> set (db_members s)" "ca_agent_id m = a" "ca_channel_id m = to" "to \<noteq> ch"
      using first_membership_Some [OF Some [unfolded fallback_channel_def]] by blast
    let ?s = "move_home a ch to s"
    have "to \<in> channel_ids s" using m Cons.prems by (auto simp: store_ok_def chans_ok_def)
    then have "chans_ok ?s \<and> rest_ok k ?s" using Cons.prems by (intro move_home_ok) (simp_all add: store_ok_def)
    moreover have "homes_ok ?s"
      using Cons.prems m by (intro move_home_homes) (auto simp: store_ok_def homes_ok_def is_member_def)
    ultimately have ok: "store_ok k ?s" by (simp add: store_ok_def)
    have fb: "fallback_channel i ch ?s = fallback_channel i ch s" for i by (rule fallback_cong) simp
    have step: "move_homes ch (a # as) s = move_homes ch as ?s" using Some by simp
    have at: "(\<exists>x \<in> set (db_agents (move_homes ch as ?s)). ag_id x = i \<and> ag_channel_id x = ch)
        \<longleftrightarrow> (\<exists>x \<in> set (db_agents s). ag_id x = i \<and> ag_channel_id x = ch)
            \<and> \<not> (i \<in> set (a # as) \<and> fallback_channel i ch s \<noteq> None)" for i
      using Cons.IH [OF ok] move_home_at [OF m(4), of a s i] Some unfolding fb by auto
    show ?thesis
      unfolding step using Cons.IH [OF ok] at move_home_agent_ids [of a ch to s] by simp
  qed
qed simp

lemma cascade_channel_agents:
  "agent_ids (cascade_channel ch s) = {i \<in> agent_ids s. \<not> (\<exists>a \<in> set (db_agents s). ag_id a = i \<and> ag_channel_id a = ch)}"
  unfolding cascade_channel_eq drop_channel_ids cascade_agents_ids ..

lemma cascade_channel_channels: "channel_ids (cascade_channel ch s) = channel_ids s - {ch}"
  unfolding cascade_channel_eq drop_channel_ids cascade_agents_ids ..

lemma delete_channel_effect:
  assumes ok: "store_ok k s" and ch: "ch \<in> channel_ids s"
    and new: "inj (fst \<circ> draw)" "range (fst \<circ> draw) \<inter> channel_ids s = {}"
  shows "\<exists>t. delete_channel ut draw ch s = (None, t) \<and> store_ok k t \<and> ch \<notin> channel_ids t
    \<and> (\<forall>a \<in> set (db_agents s). ag_id a \<in> agent_ids t \<longleftrightarrow>
          ag_channel_id a \<noteq> ch \<or> fallback_channel (ag_id a) ch s \<noteq> None \<or> get_direct_channel_for_agent (ag_id a) s = None)"
proof -
  let ?as = "map ca_agent_id (filter (\<lambda>c. ca_channel_id c = ch) (db_members s))"
  let ?draws = "map draw [0..<length ?as]"
  have "distinct (map (\<lambda>c. (ca_channel_id c, ca_agent_id c)) (filter (\<lambda>c. ca_channel_id c = ch) (db_members s)))"
    using ok by (intro distinct_map_filter) (simp add: store_ok_def chans_ok_def)
  then have d: "distinct ?as" by (auto simp: distinct_map inj_on_def)
  have members: "set ?as \<subseteq> agent_ids s" using ok by (auto simp: store_ok_def chans_ok_def)
  have draws: "distinct (map fst ?draws)"
    using new(1) by (simp add: distinct_map inj_on_def inj_def)
  have "fst ` set ?draws \<subseteq> range (fst \<circ> draw)" by auto
  with new(2) have draws': "fst ` set ?draws \<inter> channel_ids s = {}" by blast
  obtain s1 where s1: "ensure_fallbacks ut ?draws ch ?as s = (None, s1)" "db_agents s1 = db_agents s" "store_ok k s1"
    and fb: "\<And>a. fallback_channel a ch s1 = None \<longleftrightarrow>
          fallback_channel a ch s = None \<and> (a \<in> set ?as \<longrightarrow> get_direct_channel_for_agent a s \<noteq> None)"
    using ensure_fallbacks_effect [OF _ ok d members draws draws' ch, of ut] by auto
  let ?s2 = "move_homes ch ?as s1"
  let ?t = "cascade_channel ch ?s2"
  note mv = move_homes_effect [OF s1(3), of ch ?as]
  have at: "(\<exists>x \<in> set (db_agents ?s2). ag_id x = i \<and> ag_channel_id x = ch) \<longleftrightarrow>
      (\<exists>x \<in> set (db_agents s). ag_id x = i \<and> ag_channel_id x = ch) \<and> \<not> (i \<in> set ?as \<and> fallback_channel i ch s1 \<noteq> None)" for i
    using mv s1(2) by simp
  have "ag_id a \<in> agent_ids ?t \<longleftrightarrow> ag_channel_id a \<noteq> ch \<or> fallback_channel (ag_id a) ch s \<noteq> None \<or> get_direct_channel_for_agent (ag_id a) s = None"
    if a: "a \<in> set (db_agents s)" for a
  proof -
    have "inj_on ag_id (set (db_agents s))" using ok by (simp add: store_ok_def chans_ok_def distinct_map)
    then have same: "(\<exists>x \<in> set (db_agents s). ag_id x = ag_id a \<and> ag_channel_id x = ch) \<longleftrightarrow> ag_channel_id a = ch"
      using a by (auto dest: inj_onD)
    have home: "ag_id a \<in> set ?as" if here: "ag_channel_id a = ch"
    proof -
      have "\<exists>m \<in> set (db_members s). is_member (ag_channel_id a) (ag_id a) m"
        using ok a by (simp add: store_ok_def homes_ok_def)
      then obtain m where "m \<in> set (db_members s)" "ca_channel_id m = ch" "ca_agent_id m = ag_id a"
        using here by (auto simp: is_member_def)
      then show ?thesis by (force simp: image_iff)
    qed
    have "ag_id a \<in> agent_ids ?t \<longleftrightarrow> \<not> (\<exists>x \<in> set (db_agents ?s2). ag_id x = ag_id a \<and> ag_channel_id x = ch)"
      unfolding cascade_channel_agents using mv s1(2) a by simp
    also have "\<dots> \<longleftrightarrow> \<not> (ag_channel_id a = ch \<and> fallback_channel (ag_id a) ch s1 = None)"
      unfolding at same by (cases "ag_channel_id a = ch") (use home in \<open>simp_all del: set_map set_filter\<close>)
    finally show ?thesis using fb [of "ag_id a"] home by auto
  qed
  moreover have "delete_channel ut draw ch s = (None, ?t)"
    unfolding delete_channel_def Let_def using s1(1) by simp
  moreover have "store_ok k ?t" using mv by (intro cascade_channel_ok) simp
  ultimately show ?thesis using cascade_channel_channels [of ch ?s2] by (intro exI [of _ ?t]) auto
qed

lemma delete_channel_ok:
  assumes "store_ok k s" "ch \<in> channel_ids s" "inj (fst \<circ> draw)" "range (fst \<circ> draw) \<inter> channel_ids s = {}"
    "delete_channel ut draw ch s = (e, t)"
  shows "store_ok k t"
  using delete_channel_effect [OF assms(1-4), of ut] assms(5) by auto

lemma remove_refused:
  assumes "store_ok k s" "a \<in> set (db_agents s)" "ag_channel_id a = ch"
  shows "(\<exists>e. remove_agent_from_channel ch (ag_id a) s = Inl e) \<longleftrightarrow> fallback_channel (ag_id a) ch s = None"
proof -
  let ?s = "s\<lparr>db_members := filter (\<lambda>c. \<not> is_member ch (ag_id a) c) (db_members s)\<rparr>"
  have "first_membership (\<lambda>c. ca_agent_id c = ag_id a) ?s = None \<longleftrightarrow> fallback_channel (ag_id a) ch s = None"
    by (auto simp: first_membership_None fallback_None is_member_def)
  moreover have "\<exists>x \<in> set (db_agents ?s). ag_id x = ag_id a \<and> ag_channel_id x = ch" using assms(2,3) by auto
  ultimately show ?thesis by (auto simp: remove_agent_from_channel_def Let_def split: option.splits)
qed

section \<open>Properties\<close>

text \<open>
  Deleting a channel of a well-formed store succeeds and keeps the store well-formed. An agent
  survives exactly when its default channel is another one, or it is a member of another channel, or
  it has no direct channel yet (one is then made for it). An agent whose default channel is deleted
  and whose direct channel exists without being one of its other memberships (it is the deleted
  channel, or the agent left it) is deleted with the channel.
\<close>

theorem delete_channel_survivors:
  assumes "store_ok k s" "ch \<in> channel_ids s" "inj (fst \<circ> draw)" "range (fst \<circ> draw) \<inter> channel_ids s = {}"
  shows "\<exists>t. delete_channel ut draw ch s = (None, t) \<and> store_ok k t \<and> ch \<notin> channel_ids t
    \<and> (\<forall>a \<in> set (db_agents s). ag_id a \<in> agent_ids t \<longleftrightarrow>
          ag_channel_id a \<noteq> ch
        \<or> (\<exists>m \<in> set (db_members s). ca_agent_id m = ag_id a \<and> ca_channel_id m \<noteq> ch)
        \<or> (\<forall>c \<in> set (db_channels s). \<not> (ch_kind c = ''direct'' \<and> ch_direct_agent_id c = Some (ag_id a))))"
  using delete_channel_effect [OF assms, of ut] by (auto simp: fallback_None get_direct_None)

definition example_home :: db where
  "example_home = db_empty\<lparr>
     db_channels := [(example_channel 1)\<lparr>ch_kind := ''direct'', ch_is_system := True, ch_direct_agent_id := Some 10\<rparr>],
     db_agents := [example_agent 10 AgRunning], db_members := [example_member 1 10]\<rparr>"

lemma example_home_ok: "store_ok 3 example_home"
  by (simp add: store_ok_def chans_ok_def homes_ok_def rest_ok_def msgs_ok_def dels_ok_def inbox_ok_def working_ok_def
      tasks_ok_def deps_ok_def edges_def is_member_def acyclic_def example_home_def example_defs)

theorem delete_channel_survivors_witness:
  "\<exists>t. delete_channel (\<lambda>_. []) (\<lambda>n. (100 + n, 0)) 1 example_home = (None, t) \<and> 10 \<notin> agent_ids t"
proof -
  have h: "(1 :: nat) \<in> channel_ids example_home" "inj (fst \<circ> (\<lambda>n :: nat. (100 + n :: nat, 0 :: int)))"
    "range (fst \<circ> (\<lambda>n :: nat. (100 + n :: nat, 0 :: int))) \<inter> channel_ids example_home = {}"
    by (auto simp: inj_def example_home_def example_defs)
  have a: "example_agent 10 AgRunning \<in> set (db_agents example_home)" "ag_id (example_agent 10 AgRunning) = 10"
    "ag_channel_id (example_agent 10 AgRunning) = 1"
    by (simp_all add: example_home_def example_defs)
  have m: "\<not> (\<exists>m \<in> set (db_members example_home). ca_agent_id m = 10 \<and> ca_channel_id m \<noteq> 1)"
    "\<not> (\<forall>c \<in> set (db_channels example_home). \<not> (ch_kind c = ''direct'' \<and> ch_direct_agent_id c = Some 10))"
    by (simp_all add: example_home_def example_defs)
  show ?thesis
    using delete_channel_survivors [OF example_home_ok h, of "\<lambda>_. []"] a m by fastforce
qed

text \<open>
  Taking an agent out of its default channel is refused exactly when it has no other membership:
  the store cannot leave an agent without a default channel. Otherwise the agent stays and gets
  another of its channels as default, and the store stays well-formed.
\<close>

theorem remove_member_refused_iff_last:
  assumes "store_ok k s" "a \<in> set (db_agents s)" "ag_channel_id a = ch"
  shows "((\<exists>e. remove_agent_from_channel ch (ag_id a) s = Inl e)
      \<longleftrightarrow> (\<forall>m \<in> set (db_members s). ca_agent_id m = ag_id a \<longrightarrow> ca_channel_id m = ch))
    \<and> (\<forall>u t. remove_agent_from_channel ch (ag_id a) s = Inr (u, t) \<longrightarrow> store_ok k t \<and> agent_ids t = agent_ids s)"
proof (intro conjI allI impI)
  show "(\<exists>e. remove_agent_from_channel ch (ag_id a) s = Inl e)
      \<longleftrightarrow> (\<forall>m \<in> set (db_members s). ca_agent_id m = ag_id a \<longrightarrow> ca_channel_id m = ch)"
    unfolding remove_refused [OF assms] fallback_None ..
next
  fix u t assume r: "remove_agent_from_channel ch (ag_id a) s = Inr (u, t)"
  show "store_ok k t" by (rule remove_agent_from_channel_ok [OF assms(1) r])
  show "agent_ids t = agent_ids s"
  proof (cases "first_membership (\<lambda>c. ca_agent_id c = ag_id a) (s\<lparr>db_members := filter (\<lambda>c. \<not> is_member ch (ag_id a) c) (db_members s)\<rparr>)")
    case None
    with r show ?thesis by (auto simp: remove_agent_from_channel_def split: if_splits)
  next
    case (Some to)
    with r have "t = move_home (ag_id a) ch to (s\<lparr>db_members := filter (\<lambda>c. \<not> is_member ch (ag_id a) c) (db_members s)\<rparr>)"
      by (simp add: remove_agent_from_channel_def)
    then show ?thesis using move_home_agent_ids by simp
  qed
qed

theorem remove_member_refused_iff_last_witness: "\<exists>e. remove_agent_from_channel 1 10 example_home = Inl e"
proof -
  have a: "example_agent 10 AgRunning \<in> set (db_agents example_home)" "ag_channel_id (example_agent 10 AgRunning) = 1"
    "ag_id (example_agent 10 AgRunning) = 10"
    and m: "\<forall>m \<in> set (db_members example_home). ca_agent_id m = 10 \<longrightarrow> ca_channel_id m = 1"
    by (simp_all add: example_home_def example_defs)
  show ?thesis using remove_member_refused_iff_last [OF example_home_ok a(1,2)] m unfolding a(3) by blast
qed

end
