(* ===== verification/StoreSystem.thy ===== *)
theory StoreSystem
  imports StoreChannels
begin

text \<open>
  The store as a whole: every method that writes (of \<open>StoreDelivery\<close>, \<open>StoreTasks\<close> and
  \<open>StoreChannels\<close>) as a step on the database, for a coordinator that reserves with one retry budget \<open>k\<close>
  (it defers with any budget: an attempt whose fate is unknown is exhausted at once). A step
  is a call that succeeds; a call that fails leaves the database as it is (\<open>delete_channel\<close> apart,
  whose step covers both). New identifiers of \<open>delete_channel\<close> are assumed fresh, as \<open>Uuid::new_v4\<close>
  makes them; everywhere else a clash is one of the errors of the model.
\<close>

inductive store_step :: "int \<Rightarrow> db \<Rightarrow> db \<Rightarrow> bool" for k :: int where
  st_append: "append_message i now ch ag role content s = Inr (m, t) \<Longrightarrow> store_step k s t"
| st_user: "append_user_message_with_deliveries i is now ch content s = Inr (m, t) \<Longrightarrow> store_step k s t"
| st_enqueue: "m \<in> set (db_messages s) \<Longrightarrow> enqueue_deliveries is now m as s = Inr (ds, t) \<Longrightarrow> store_step k s t"
| st_reserve_due: "reserve_due_deliveries limit k now s = (ds, t) \<Longrightarrow> store_step k s t"
| st_reserve: "reserve_delivery i k now s = (d, t) \<Longrightarrow> store_step k s t"
| st_nudge: "nudge_agent_deliveries now ag s = (n, t) \<Longrightarrow> store_step k s t"
| st_defer: "defer_delivery now i err na j s = (d, t) \<Longrightarrow> store_step k s t"
| st_release: "release_in_flight_deliveries now s = (n, t) \<Longrightarrow> store_step k s t"
| st_complete: "complete_delivery i now1 now2 d content s = Inr (m, t) \<Longrightarrow> store_step k s t"
| st_inbox: "consume_agent_inbox now ag limit s = Inr (ms, t) \<Longrightarrow> store_step k s t"
| st_working: "set_working_state ut now ag summary cn tn hint s = Inr (w, t) \<Longrightarrow> store_step k s t"
| st_clear: "clear_working_state ag s = (b, t) \<Longrightarrow> store_step k s t"
| st_task: "task_step s t \<Longrightarrow> store_step k s t"
| st_channel: "create_channel i now name s = Inr (c, t) \<Longrightarrow> store_step k s t"
| st_profile: "update_channel_profile ch desc goal s = (c, t) \<Longrightarrow> store_step k s t"
| st_agent: "create_agent i now ch name runtime model status s = Inr (a, t) \<Longrightarrow> store_step k s t"
| st_standalone: "create_standalone_agent ut c i now name runtime model status ba bc s = Inr (a, t) \<Longrightarrow> store_step k s t"
| st_join: "add_agent_to_channel ut now ch ag role policy ba bc s = Inr (c, t) \<Longrightarrow> store_step k s t"
| st_leave: "remove_agent_from_channel ch ag s = Inr (u, t) \<Longrightarrow> store_step k s t"
| st_direct: "ag \<in> agent_ids s \<Longrightarrow> ensure_direct_channel_for_agent ut i now ag s = Inr (c, t) \<Longrightarrow> store_step k s t"
| st_agent_profile: "update_agent_profile ag desc ins s = (a, t) \<Longrightarrow> store_step k s t"
| st_status: "set_agent_status ag status s = (a, t) \<Longrightarrow> store_step k s t"
| st_lifecycle: "set_agent_lifecycle_status ag life s = (a, t) \<Longrightarrow> store_step k s t"
| st_delete_agent: "delete_agent ag s = t \<Longrightarrow> store_step k s t"
| st_delete_channel: "ch \<in> channel_ids s \<Longrightarrow> inj (fst \<circ> draw) \<Longrightarrow> range (fst \<circ> draw) \<inter> channel_ids s = {}
     \<Longrightarrow> delete_channel ut draw ch s = (e, t) \<Longrightarrow> store_step k s t"

section \<open>Parts of the invariant that a method does not touch\<close>

lemma chans_homes_cong:
  assumes "db_channels t = db_channels s" "db_agents t = db_agents s" "db_members t = db_members s"
  shows "chans_ok t = chans_ok s" "homes_ok t = homes_ok s"
  using assms by (simp_all add: chans_ok_def homes_ok_def)

lemma tasks_ok_messages:
  assumes "tasks_ok s" "deps_ok s" "db_tasks t = db_tasks s" "db_deps t = db_deps s"
    "db_channels t = db_channels s" "db_agents t = db_agents s" "message_ids s \<subseteq> message_ids t"
  shows "tasks_ok t \<and> deps_ok t"
proof
  show "tasks_ok t" using assms by (auto simp: tasks_ok_def intro: opt_ref_mono)
  show "deps_ok t" using assms by (simp add: deps_ok_def edges_def)
qed

lemma store_okI:
  assumes "store_ok k s" "db_channels t = db_channels s" "db_agents t = db_agents s" "db_members t = db_members s"
    "db_working t = db_working s" "db_tasks t = db_tasks s" "db_deps t = db_deps s" "message_ids s \<subseteq> message_ids t"
    "msgs_ok t" "dels_ok k t" "inbox_ok t"
  shows "store_ok k t"
proof -
  have "tasks_ok t \<and> deps_ok t"
    using assms(1) by (intro tasks_ok_messages [of s]) (simp_all add: assms(2-8) store_ok_def rest_ok_def)
  moreover have "working_ok t" using assms(1) by (simp add: store_ok_def rest_ok_def working_ok_def assms(3,5))
  ultimately show ?thesis
    using assms(1,9-) chans_homes_cong [OF assms(2-4)] by (simp add: store_ok_def rest_ok_def)
qed

lemma store_ok_deliveries:
  assumes "store_ok k s" "t = s\<lparr>db_deliveries := ds\<rparr>" "dels_ok k t"
  shows "store_ok k t"
  using assms by (intro store_okI [OF assms(1)]) (simp_all add: store_ok_def rest_ok_def msgs_ok_def inbox_ok_def)

lemmas store_parts = store_ok_def rest_ok_def

section \<open>Every method keeps the store well-formed\<close>

lemma insert_message_store_ok:
  assumes "store_ok k s" "insert_message i ch ag role content now s = Inr (m, t)"
  shows "store_ok k t"
proof -
  have t: "t = s\<lparr>db_messages := db_messages s @ [m]\<rparr>" using assms(2) by (rule insert_messageE)
  show ?thesis
    using assms insert_message_msgs_ok [OF _ assms(2)] insert_message_dels_ok [OF _ assms(2)]
    by (intro store_okI [OF assms(1)]) (auto simp: store_parts inbox_ok_def t)
qed

lemma append_user_store_ok:
  assumes "store_ok k s" "1 \<le> k" "append_user_message_with_deliveries i is now ch content s = Inr (m, t)"
  shows "store_ok k t"
  using assms append_user_Inr [OF assms(3)] append_user_msgs_ok [OF _ assms(3)] append_user_dels_ok [OF _ assms(2,3)]
  by (intro store_okI [OF assms(1)]) (auto simp: store_parts inbox_ok_def)

lemma enqueue_store_ok:
  assumes "store_ok k s" "1 \<le> k" "m \<in> set (db_messages s)" "enqueue_deliveries is now m as s = Inr (ds, t)"
  shows "store_ok k t"
proof -
  have "insert_or_ignore (map is [0..<length as]) m now as s = Inr t"
    using assms(4) by (auto simp: enqueue_deliveries_def split: sum.splits)
  with insert_or_ignore_ok [OF _ assms(2,3) this] assms(1) show ?thesis
    using store_ok_deliveries by (auto simp: store_parts)
qed

lemma reserve_due_store_ok:
  assumes "store_ok k s" "1 \<le> k" "reserve_due_deliveries limit k now s = (ds, t)"
  shows "store_ok k t"
proof -
  have d: "dels_ok k s" using assms(1) by (simp add: store_parts)
  have "t = s\<lparr>db_deliveries := update_rows (\<lambda>r. dl_id r \<in> dl_id ` set (due_list limit k now s)) (take_flight now) (db_deliveries s)\<rparr>"
    using assms(3) by (simp add: reserve_due_eq [OF dels_ok_distinct [OF d]])
  moreover have "dels_ok k t" using reserve_due_dels_ok [OF d assms(2), of limit now] assms(3) by simp
  ultimately show ?thesis by (rule store_ok_deliveries [OF assms(1)])
qed

lemma delivery_update_store_ok:
  assumes "store_ok k s" "1 \<le> k"
  shows "store_ok k (snd (reserve_delivery i k now s))" "store_ok k (snd (nudge_agent_deliveries now ag s))"
    "store_ok k (snd (defer_delivery now i err na j s))" "store_ok k (snd (release_in_flight_deliveries now s))"
proof -
  have d: "dels_ok k s" using assms(1) by (simp add: store_parts)
  show "store_ok k (snd (reserve_delivery i k now s))"
    by (rule store_ok_deliveries [OF assms(1) _ reserve_delivery_dels_ok [OF d assms(2)]])
       (simp add: reserve_delivery_def Let_def)
  show "store_ok k (snd (nudge_agent_deliveries now ag s))"
    by (rule store_ok_deliveries [OF assms(1) _ nudge_dels_ok [OF d]]) (simp add: nudge_agent_deliveries_def Let_def)
  show "store_ok k (snd (defer_delivery now i err na j s))"
    by (rule store_ok_deliveries [OF assms(1) _ defer_dels_ok [OF d]]) (simp add: defer_delivery_def Let_def)
  show "store_ok k (snd (release_in_flight_deliveries now s))"
    by (rule store_ok_deliveries [OF assms(1) _ release_dels_ok [OF d]]) (simp add: release_in_flight_deliveries_def Let_def)
qed

lemma upsert_frame:
  assumes "upsert_inbox_cursor ag n now s = Inr t"
  shows "\<exists>i. t = s\<lparr>db_inbox := i\<rparr>"
  using assms by (rule upsert_inbox_cursorE) blast

lemma complete_store_ok:
  assumes "store_ok k s" "complete_delivery i now1 now2 d content s = Inr (m, t)"
  shows "store_ok k t"
proof -
  obtain s2 where s2: "upsert_inbox_cursor (dl_agent_id d) (dl_seq d) now1
       (s\<lparr>db_deliveries := filter (\<lambda>r. \<not> (dl_id r = dl_id d \<and> dl_state r = InFlight)) (db_deliveries s)\<rparr>) = Inr s2"
    and t: "insert_message i (dl_channel_id d) (Some (dl_agent_id d)) Assistant content now2 s2 = Inr (m, t)"
    using assms(2) by (rule complete_deliveryE)
  let ?s1 = "s\<lparr>db_deliveries := filter (\<lambda>r. \<not> (dl_id r = dl_id d \<and> dl_state r = InFlight)) (db_deliveries s)\<rparr>"
  have d: "dels_ok k ?s1" using assms(1) by (intro dels_ok_subset) (simp add: store_parts)
  have 1: "store_ok k ?s1" by (rule store_ok_deliveries [OF assms(1) refl d])
  obtain inb where i: "s2 = ?s1\<lparr>db_inbox := inb\<rparr>" using upsert_frame [OF s2] by blast
  have "inbox_ok s2" by (rule inbox_ok_upsert [OF _ s2]) (use 1 in \<open>simp add: store_parts\<close>)
  then have "store_ok k s2"
    using 1 i by (intro store_okI [OF 1]) (simp_all add: store_parts msgs_ok_def dels_ok_def of_message_def)
  from insert_message_store_ok [OF this t] show ?thesis .
qed

lemma consume_store_ok:
  assumes "store_ok k s" "consume_agent_inbox now ag limit s = Inr (ms, t)"
  shows "store_ok k t"
proof -
  consider "t = s" | n where "upsert_inbox_cursor ag n now s = Inr t"
    using assms(2) by (auto simp: consume_agent_inbox_def Let_def split: option.splits if_splits sum.splits)
  then show ?thesis
  proof cases
    case (2 n)
    then obtain inb where i: "t = s\<lparr>db_inbox := inb\<rparr>" using upsert_frame by blast
    moreover have "inbox_ok t" by (rule inbox_ok_upsert [OF _ 2]) (use assms(1) in \<open>simp add: store_parts\<close>)
    ultimately show ?thesis
      using assms(1) by (intro store_okI [OF assms(1)]) (simp_all add: store_parts msgs_ok_def dels_ok_def of_message_def)
  qed (use assms(1) in simp)
qed

lemma working_store_ok:
  assumes "store_ok k s" "t = s\<lparr>db_working := ws\<rparr>" "working_ok t"
  shows "store_ok k t"
proof -
  have "tasks_ok t \<and> deps_ok t" using assms(1,2) by (intro tasks_ok_messages [of s]) (simp_all add: store_parts)
  then show ?thesis
    using assms chans_homes_cong [of t s]
    by (simp add: store_parts msgs_ok_def dels_ok_def of_message_def inbox_ok_def)
qed

lemma set_working_store_ok:
  assumes "store_ok k s" "set_working_state ut now ag summary cn tn hint s = Inr (w, t)"
  shows "store_ok k t"
proof (cases "ag \<in> wk_agent_id ` set (db_working s)")
  case True
  let ?f = "\<lambda>w. w\<lparr>wk_summary := summary, wk_channel_name := cn, wk_task_number := tn, wk_next_step_hint := hint, wk_updated_at := now\<rparr>"
  have t: "t = s\<lparr>db_working := update_rows (\<lambda>w. wk_agent_id w = ag) ?f (db_working s)\<rparr>"
    using assms(2) True by (auto simp: set_working_state_def Let_def split: option.splits)
  have m: "map wk_agent_id (db_working t) = map wk_agent_id (db_working s)" by (simp add: t map_update_rows)
  show ?thesis
    by (rule working_store_ok [OF assms(1) t])
       (use assms(1) m map_eq_image [OF m] t in \<open>simp add: store_parts working_ok_def\<close>)
next
  case False
  then obtain w' where "t = s\<lparr>db_working := db_working s @ [w']\<rparr>" "wk_agent_id w' = ag" "ag \<in> agent_ids s"
    using assms(2) by (auto simp: set_working_state_def Let_def split: option.splits if_splits)
  with False assms(1) show ?thesis
    by (intro working_store_ok [OF assms(1)]) (auto simp: store_parts working_ok_def)
qed

lemma clear_working_store_ok:
  assumes "store_ok k s" "clear_working_state ag s = (b, t)"
  shows "store_ok k t"
proof -
  have t: "t = s\<lparr>db_working := filter (\<lambda>w. wk_agent_id w \<noteq> ag) (db_working s)\<rparr>"
    using assms(2) by (simp add: clear_working_state_def)
  have "working_ok s" using assms(1) by (simp add: store_parts)
  then have "working_ok t" by (auto simp: t working_ok_def distinct_map_filter image_subset_iff)
  then show ?thesis by (rule working_store_ok [OF assms(1) t])
qed

lemma task_step_frame: "task_step s t \<Longrightarrow> \<exists>ts ds. t = s\<lparr>db_tasks := ts, db_deps := ds\<rparr>"
proof (induction rule: task_step.induct)
  case (step_create ut i now ch title msg by_agent s t s')
  then show ?case by (rule create_taskE) (auto intro!: exI [of _ "db_deps s"])
next
  case (step_claim now ch n ag s t s')
  from step_claim show ?case
  proof (cases rule: claim_taskE)
    case already
    then show ?thesis by (intro exI [of _ "db_tasks s"] exI [of _ "db_deps s"]) simp
  next
    case (written t0)
    from written(4) show ?thesis by (rule claim_writeE) (auto intro!: exI [of _ "db_deps s"])
  qed
next
  case (step_unclaim now ch n s t s')
  then show ?case by (rule unclaim_taskE) (auto intro!: exI [of _ "db_deps s"])
next
  case (step_status now ch n status progress s t s')
  from step_status show ?case
  proof (cases rule: update_task_statusE)
    case same
    then show ?thesis by (intro exI [of _ "db_tasks s"] exI [of _ "db_deps s"]) simp
  next
    case (written t0)
    from written(3) show ?thesis by (rule status_writeE) (auto intro!: exI [of _ "db_deps s"])
  qed
next
  case (step_add now ch n dep s u s')
  then show ?case
  proof (cases rule: add_task_dependencyE)
    case known
    then show ?thesis by (intro exI [of _ "db_tasks s"] exI [of _ "db_deps s"]) simp
  qed (auto intro!: exI [of _ "db_tasks s"])
next
  case (step_remove ch n dep s b s')
  then show ?case
    by (auto simp: remove_task_dependency_def Let_def intro!: exI [of _ "db_tasks s"])
qed

lemma task_store_ok:
  assumes "store_ok k s" "task_step s t"
  shows "store_ok k t"
proof -
  obtain ts ds where t: "t = s\<lparr>db_tasks := ts, db_deps := ds\<rparr>" using task_step_frame [OF assms(2)] by blast
  have "tasks_ok t \<and> deps_ok t" using task_step_ok [OF assms(2)] assms(1) by (simp add: store_parts)
  then show ?thesis
    using assms(1) chans_homes_cong [of t s]
    by (simp add: t store_parts msgs_ok_def dels_ok_def of_message_def inbox_ok_def working_ok_def)
qed

lemma store_step_ok: "store_step k s t \<Longrightarrow> 1 \<le> k \<Longrightarrow> store_ok k s \<Longrightarrow> store_ok k t"
proof (induction rule: store_step.induct)
  case st_append then show ?case by (simp add: append_message_def insert_message_store_ok)
next
  case st_user then show ?case by (blast intro: append_user_store_ok)
next
  case st_enqueue then show ?case by (blast intro: enqueue_store_ok)
next
  case st_reserve_due then show ?case by (blast intro: reserve_due_store_ok)
next
  case (st_reserve i now s d t) then show ?case using delivery_update_store_ok(1) [of k s i now] by simp
next
  case (st_nudge now ag s n t) then show ?case using delivery_update_store_ok(2) [of k s now ag] by simp
next
  case (st_defer now i err na j s d t) then show ?case using delivery_update_store_ok(3) [of k s now i err na j] by simp
next
  case (st_release now s n t) then show ?case using delivery_update_store_ok(4) [of k s now] by simp
next
  case st_complete then show ?case by (blast intro: complete_store_ok)
next
  case st_inbox then show ?case by (blast intro: consume_store_ok)
next
  case st_working then show ?case by (blast intro: set_working_store_ok)
next
  case st_clear then show ?case by (blast intro: clear_working_store_ok)
next
  case st_task then show ?case by (blast intro: task_store_ok)
next
  case st_channel then show ?case by (blast intro: create_channel_ok)
next
  case (st_profile ch desc goal s c t) then show ?case using update_channel_profile_ok [of k s ch desc goal] by simp
next
  case st_agent then show ?case by (blast intro: create_agent_ok)
next
  case st_standalone then show ?case by (blast intro: create_standalone_ok)
next
  case st_join then show ?case by (blast intro: add_agent_to_channel_ok)
next
  case st_leave then show ?case by (blast intro: remove_agent_from_channel_ok)
next
  case st_direct then show ?case by (blast intro: ensure_direct_ok)
next
  case (st_agent_profile ag desc ins s a t)
  then show ?case using update_agent_ok [of k s "\<lambda>a. a\<lparr>ag_description := desc, ag_instructions := ins\<rparr>" ag] by (simp add: update_agent_profile_def)
next
  case (st_status ag status s a t)
  then show ?case using update_agent_ok [of k s "\<lambda>a. a\<lparr>ag_status := status\<rparr>" ag] by (simp add: set_agent_status_def)
next
  case (st_lifecycle ag life s a t)
  then show ?case using update_agent_ok [of k s "\<lambda>a. a\<lparr>ag_lifecycle_status := life\<rparr>" ag] by (simp add: set_agent_lifecycle_status_def)
next
  case st_delete_agent then show ?case by (auto simp: delete_agent_def intro: cascade_agents_ok)
next
  case st_delete_channel then show ?case by (blast intro: delete_channel_ok)
qed

definition store_start :: "db \<Rightarrow> bool" where
  "store_start s \<longleftrightarrow> s = db_empty"

lemma db_empty_ok: "store_ok k db_empty"
  by (simp add: store_parts chans_ok_def homes_ok_def msgs_ok_def dels_ok_def inbox_ok_def working_ok_def
      tasks_ok_def deps_ok_def edges_def acyclic_def db_empty_def)

text \<open>Budgets below one behave as one (\<open>max_attempts.max(1)\<close>), so the system is stated for \<open>max 1 k\<close>.\<close>

interpretation ss: invariant_system store_start "store_step (max 1 k)" "store_ok (max 1 k)" for k
proof
  show "store_ok (max 1 k) s" if "store_start s" for s
    using that db_empty_ok by (simp add: store_start_def)
  show "store_ok (max 1 k) t" if "store_step (max 1 k) s t" "store_ok (max 1 k) s" for s t
    using store_step_ok [OF that(1) _ that(2)] by simp
qed

section \<open>Properties\<close>

lemma delivery_source:
  assumes "store_ok k s" "d \<in> set (db_deliveries s)"
  shows "\<exists>m. get_message (dl_message_id d) s = Some m \<and> me_channel_id m = dl_channel_id d \<and> me_seq m = dl_seq d"
proof -
  have "of_message d s" using assms by (simp add: store_parts dels_ok_def)
  then obtain m where m: "m \<in> set (db_messages s)" "me_id m = dl_message_id d" "me_channel_id m = dl_channel_id d" "me_seq m = dl_seq d"
    by (auto simp: of_message_def)
  have "get_message (dl_message_id d) s = Some m"
    unfolding get_message_def using assms(1) m(1,2) by (intro find_key) (simp_all add: store_parts msgs_ok_def)
  with m show ?thesis by blast
qed

text \<open>
  C2. From the empty database, whatever methods run in whatever order with a retry budget of \<open>k\<close>
  (at least one): channel histories have distinct positive sequence numbers; a message is queued at
  most once per agent, every queued delivery belongs to a stored message of the same channel and
  sequence number and to an existing agent, and has made between zero and \<open>k\<close> attempts, at
  least one when it is in flight or exhausted; and every agent's default channel exists and is one of its memberships.
  Each method call of this relation runs alone; additions of dependencies that overlap other calls are
  the subject of \<open>dep_step\<close>.
\<close>

theorem store_reachable_consistent:
  assumes "reachable store_start (store_step (max 1 k)) s"
  shows "distinct (map (\<lambda>m. (me_channel_id m, me_seq m)) (db_messages s))
    \<and> (\<forall>m \<in> set (db_messages s). 1 \<le> me_seq m)
    \<and> distinct (map (\<lambda>d. (dl_agent_id d, dl_message_id d)) (db_deliveries s))
    \<and> (\<forall>d \<in> set (db_deliveries s). dl_agent_id d \<in> agent_ids s
         \<and> (\<exists>m. get_message (dl_message_id d) s = Some m \<and> me_channel_id m = dl_channel_id d \<and> me_seq m = dl_seq d)
         \<and> 0 \<le> dl_attempts d \<and> dl_attempts d \<le> max 1 k
         \<and> (dl_state d = InFlight \<or> dl_state d = Exhausted \<longrightarrow> 1 \<le> dl_attempts d))
    \<and> (\<forall>a \<in> set (db_agents s). ag_channel_id a \<in> channel_ids s
         \<and> (\<exists>m \<in> set (db_members s). is_member (ag_channel_id a) (ag_id a) m))"
proof -
  have ok: "store_ok (max 1 k) s" using ss.inv_reachable [OF assms] .
  then have "distinct (map (\<lambda>m. (me_channel_id m, me_seq m)) (db_messages s))" "\<forall>m \<in> set (db_messages s). 1 \<le> me_seq m"
    "distinct (map (\<lambda>d. (dl_agent_id d, dl_message_id d)) (db_deliveries s))"
    by (simp_all add: store_parts msgs_ok_def dels_ok_def)
  moreover have "\<forall>a \<in> set (db_agents s). ag_channel_id a \<in> channel_ids s
         \<and> (\<exists>m \<in> set (db_members s). is_member (ag_channel_id a) (ag_id a) m)"
    using ok by (simp add: store_parts chans_ok_def homes_ok_def)
  moreover have "\<forall>d \<in> set (db_deliveries s). dl_agent_id d \<in> agent_ids s \<and> 0 \<le> dl_attempts d \<and> dl_attempts d \<le> max 1 k
         \<and> (dl_state d = InFlight \<or> dl_state d = Exhausted \<longrightarrow> 1 \<le> dl_attempts d)"
    using ok by (simp add: store_parts dels_ok_def budget_ok_def)
  ultimately show ?thesis using delivery_source [OF ok] by blast
qed

theorem store_reachable_consistent_witness:
  "\<exists>c s. create_channel 1 0 ''general'' db_empty = Inr (c, s) \<and> (\<forall>a \<in> set (db_agents s). ag_channel_id a \<in> channel_ids s)"
proof -
  have "\<exists>c s. create_channel 1 0 ''general'' db_empty = Inr (c, s)"
    by (simp add: create_channel_def db_empty_def Let_def)
  then obtain c s where c: "create_channel 1 0 ''general'' db_empty = Inr (c, s)" by blast
  have "reachable store_start (store_step (max 1 3)) db_empty" by (rule reachable_start) (simp add: store_start_def)
  then have "reachable store_start (store_step (max 1 3)) s" using st_channel [OF c] by (rule reachable_step)
  from store_reachable_consistent [OF this] c show ?thesis by blast
qed

end
