(* ===== verification/Coordinator.thy ===== *)
theory Coordinator
  imports StoreSystem "HOL-Library.Multiset"
begin

text \<open>
  The delivery coordinator of the local HTTP service (\<open>crates/cocli-api/src/lib.rs\<close>), which reserves
  durable deliveries in the store, asks the runtime for a reply to each of them and stores the
  outcome.

  Parameters of the model: \<open>ask\<close> is what the runtime does with an attempt (a reply or an error, a
  timeout followed by an attempt to stop the runtime, or a task that dies); \<open>join\<close> is the order in
  which the concurrent attempts finish; \<open>other n\<close> is what the rest of the program writes to the
  database before the coordinator's \<open>n\<close>-th store call; \<open>draw n\<close> is the fresh identifier and the two
  clock readings of that call. The reads that start a batch see one state. Durations are
  nanoseconds.
\<close>

section \<open>Configuration and errors\<close>

record delivery_config =
  dc_batch_size :: int
  dc_max_attempts :: int
  dc_poll_interval :: nat
  dc_attempt_timeout :: nat
  dc_base_backoff :: nat
  dc_max_backoff :: nat

definition nanos :: nat where
  "nanos = 1000000000"

definition default_delivery_config :: delivery_config where
  "default_delivery_config =
     \<lparr>dc_batch_size = 32, dc_max_attempts = 10, dc_poll_interval = 3 * nanos, dc_attempt_timeout = 3 * 60 * nanos,
      dc_base_backoff = 2 * nanos, dc_max_backoff = 5 * 60 * nanos\<rparr>"

datatype runtime_error = RtDelivery string | RtUnsupported string | RtBusy string | RtNotFound string

fun runtime_error_text :: "runtime_error \<Rightarrow> string" where
  "runtime_error_text (RtDelivery e) = e"
| "runtime_error_text (RtUnsupported e) = e"
| "runtime_error_text (RtBusy e) = e"
| "runtime_error_text (RtNotFound e) = e"

datatype attempt_error = Retryable runtime_error | Indeterminate string

datatype answer =
    Replied "runtime_error + string"
  | TimedOut "runtime_error option"
  | TaskFailed string

fun attempt_result :: "answer \<Rightarrow> attempt_error + string" where
  "attempt_result (Replied (Inr content)) = Inr content"
| "attempt_result (Replied (Inl e)) = Inl (Retryable e)"
| "attempt_result (TimedOut None) =
     Inl (Retryable (RtDelivery ''durable delivery attempt timed out; runtime was stopped before retry''))"
| "attempt_result (TimedOut (Some e)) =
     Inl (Indeterminate (''durable delivery attempt timed out and runtime stop failed; refusing automatic retry: ''
       @ runtime_error_text e))"
| "attempt_result (TaskFailed e) =
     Inl (Retryable (RtDelivery (''durable delivery runtime task failed: '' @ e)))"

section \<open>Backoff\<close>

text \<open>
  \<open>saturating_sub\<close> on \<open>i64\<close>, the cast to \<open>u32\<close>, the shift (which a release build takes modulo 32) and
  \<open>Duration::saturating_mul\<close>; \<open>chrono\<close> refuses durations beyond \<open>i64::MAX\<close> milliseconds.
\<close>

definition duration_max :: nat where
  "duration_max = 18446744073709551615 * nanos + 999999999"

definition backoff_exponent :: "int \<Rightarrow> nat" where
  "backoff_exponent attempts = nat (min 8 (max (- i64_max - 1) (attempts - 1)) mod 4294967296)"

definition backoff :: "delivery_config \<Rightarrow> int \<Rightarrow> nat" where
  "backoff cfg attempts =
     min (min duration_max (dc_base_backoff cfg * 2 ^ (backoff_exponent attempts mod 32))) (dc_max_backoff cfg)"

definition retry_delay :: "delivery_config \<Rightarrow> int \<Rightarrow> nat" where
  "retry_delay cfg attempts =
     (if backoff cfg attempts \<le> nat i64_max * 1000000 then backoff cfg attempts else 5 * 60 * nanos)"

section \<open>A batch\<close>

type_synonym task = "nat \<times> delivery \<times> (attempt_error + string)"
type_synonym draws = "nat \<Rightarrow> uuid \<times> timestamp \<times> timestamp"
type_synonym others = "nat \<Rightarrow> db \<Rightarrow> db"

text \<open>A live event without its time stamp; the payload of a completion is the delivery's identifier.\<close>

record live_event =
  le_kind :: string
  le_channel_id :: "uuid option"
  le_agent_id :: "uuid option"
  le_message_id :: "uuid option"
  le_delivery_id :: uuid

definition completed_event :: "delivery \<Rightarrow> message \<Rightarrow> live_event" where
  "completed_event d reply =
     \<lparr>le_kind = ''delivery_completed'', le_channel_id = Some (me_channel_id reply), le_agent_id = me_agent_id reply,
      le_message_id = Some (me_id reply), le_delivery_id = dl_id d\<rparr>"

fun start_tasks :: "(agent \<Rightarrow> message \<Rightarrow> answer) \<Rightarrow> nat \<Rightarrow> delivery list \<Rightarrow> db \<Rightarrow> task list" where
  "start_tasks ask n [] s = []"
| "start_tasks ask n (d # ds) s =
     (case get_agent (dl_agent_id d) s of
        None \<Rightarrow> start_tasks ask (Suc n) ds s
      | Some a \<Rightarrow>
          (case get_message (dl_message_id d) s of
             None \<Rightarrow> start_tasks ask (Suc n) ds s
           | Some m \<Rightarrow> (n, d, attempt_result (ask a m)) # start_tasks ask (Suc n) ds s))"

fun settle ::
  "delivery_config \<Rightarrow> draws \<Rightarrow> others \<Rightarrow> nat \<Rightarrow> task list \<Rightarrow> db \<Rightarrow> live_event list \<times> (store_error + message list) \<times> db" where
  "settle cfg draw other n [] s = ([], Inr [], s)"
| "settle cfg draw other n ((_, d, r) # ts) s =
     (let s0 = other n s; (i, t1, t2) = draw n
      in case r of
           Inr content \<Rightarrow>
             (case complete_delivery i t1 t2 d content s0 of
                Inl e \<Rightarrow> ([], Inl e, s0)
              | Inr (reply, s1) \<Rightarrow>
                  (let (evs, res, s2) = settle cfg draw other (Suc n) ts s1
                   in (completed_event d reply # evs, map_sum id (Cons reply) res, s2)))
         | Inl (Retryable e) \<Rightarrow>
             settle cfg draw other (Suc n) ts
               (snd (defer_delivery t2 (dl_id d) (runtime_error_text e) (t1 + int (retry_delay cfg (dl_attempts d)))
                  (dc_max_attempts cfg) s0))
         | Inl (Indeterminate e) \<Rightarrow>
             settle cfg draw other (Suc n) ts (snd (defer_delivery t2 (dl_id d) e t1 (dl_attempts d) s0)))"

definition process_batch ::
  "delivery_config \<Rightarrow> (agent \<Rightarrow> message \<Rightarrow> answer) \<Rightarrow> (task list \<Rightarrow> task list) \<Rightarrow> draws \<Rightarrow> others \<Rightarrow> nat
     \<Rightarrow> delivery list \<Rightarrow> db \<Rightarrow> live_event list \<times> (store_error + message list) \<times> db" where
  "process_batch cfg ask join draw other n ds s =
     settle cfg draw other n (sort_key fst (join (start_tasks ask 0 ds s))) s"

section \<open>Dispatching\<close>

definition dispatch_due ::
  "delivery_config \<Rightarrow> (agent \<Rightarrow> message \<Rightarrow> answer) \<Rightarrow> (task list \<Rightarrow> task list) \<Rightarrow> draws \<Rightarrow> others \<Rightarrow> timestamp
     \<Rightarrow> db \<Rightarrow> live_event list \<times> (store_error + message list) \<times> db" where
  "dispatch_due cfg ask join draw other now s =
     (let (reserved, s1) = reserve_due_deliveries (dc_batch_size cfg) (dc_max_attempts cfg) now (other 0 s)
      in process_batch cfg ask join draw other 1 reserved s1)"

fun reserve_each :: "delivery_config \<Rightarrow> timestamp \<Rightarrow> others \<Rightarrow> nat \<Rightarrow> delivery list \<Rightarrow> db \<Rightarrow> delivery list \<times> db" where
  "reserve_each cfg now other n [] s = ([], s)"
| "reserve_each cfg now other n (d # ds) s =
     (let (r, s1) = reserve_delivery (dl_id d) (dc_max_attempts cfg) now (other n s);
          (rs, s2) = reserve_each cfg now other (Suc n) ds s1
      in (case r of None \<Rightarrow> rs | Some d' \<Rightarrow> d' # rs, s2))"

definition dispatch_message ::
  "delivery_config \<Rightarrow> (agent \<Rightarrow> message \<Rightarrow> answer) \<Rightarrow> (task list \<Rightarrow> task list) \<Rightarrow> draws \<Rightarrow> others \<Rightarrow> timestamp
     \<Rightarrow> uuid \<Rightarrow> db \<Rightarrow> live_event list \<times> (store_error + message list) \<times> db" where
  "dispatch_message cfg ask join draw other now message_id s =
     (let queued = list_message_deliveries message_id s;
          (reserved, s1) = reserve_each cfg now other 0 queued s
      in process_batch cfg ask join draw other (length queued) reserved s1)"

section \<open>The coordinator as a process\<close>

text \<open>
  \<open>spawn\<close> first releases what an earlier process left in flight and then sets \<open>ready\<close>; the poll loop
  \<open>run\<close> starts after that, and \<open>dispatch_message\<close> waits for it. The process may stop at any time and
  start again on the database it left. Everything else the program does to
  the store may happen at any time.
\<close>

record coordinator =
  co_ready :: bool
  co_db :: db

definition startup :: "timestamp \<Rightarrow> coordinator \<Rightarrow> coordinator" where
  "startup now c = \<lparr>co_ready = True, co_db = snd (release_in_flight_deliveries now (co_db c))\<rparr>"

definition interferes :: "int \<Rightarrow> others \<Rightarrow> bool" where
  "interferes k other \<longleftrightarrow> (\<forall>n s. (store_step k)\<^sup>*\<^sup>* s (other n s))"

inductive coord_step :: "delivery_config \<Rightarrow> coordinator \<Rightarrow> coordinator \<Rightarrow> bool" for cfg :: delivery_config where
  co_store: "store_step (max 1 (dc_max_attempts cfg)) (co_db c) t \<Longrightarrow> coord_step cfg c (c\<lparr>co_db := t\<rparr>)"
| co_startup: "\<not> co_ready c \<Longrightarrow> coord_step cfg c (startup now c)"
| co_restart: "coord_step cfg c (c\<lparr>co_ready := False\<rparr>)"
| co_due: "co_ready c \<Longrightarrow> interferes (max 1 (dc_max_attempts cfg)) other
     \<Longrightarrow> dispatch_due cfg ask join draw other now (co_db c) = (evs, res, t) \<Longrightarrow> coord_step cfg c (c\<lparr>co_db := t\<rparr>)"
| co_message: "co_ready c \<Longrightarrow> interferes (max 1 (dc_max_attempts cfg)) other
     \<Longrightarrow> dispatch_message cfg ask join draw other now i (co_db c) = (evs, res, t) \<Longrightarrow> coord_step cfg c (c\<lparr>co_db := t\<rparr>)"

section \<open>A run of the coordinator is a run of the store\<close>

lemma reserve_budget_max:
  "reserve_due_deliveries limit (max 1 k) now s = reserve_due_deliveries limit k now s"
  "reserve_delivery i (max 1 k) now s = reserve_delivery i k now s"
  by (simp_all add: reserve_due_deliveries_def reserve_delivery_def max.commute)

lemma settle_run:
  "settle cfg draw other n ts s = (evs, res, t) \<Longrightarrow> interferes k other \<Longrightarrow> (store_step k)\<^sup>*\<^sup>* s t"
proof (induction ts arbitrary: n s evs res)
  case (Cons x ts)
  obtain j d r where x: "x = (j, d, r)" by (cases x)
  obtain i t1 t2 where dr: "draw n = (i, t1, t2)" by (cases "draw n")
  have o: "(store_step k)\<^sup>*\<^sup>* s (other n s)" using Cons.prems(2) by (simp add: interferes_def)
  have go: ?case if step: "store_step k (other n s) s1" "settle cfg draw other (Suc n) ts s1 = (evs', res', t)" for s1 evs' res'
    using o step(1) Cons.IH [OF step(2) Cons.prems(2)] by (meson rtranclp.rtrancl_into_rtrancl rtranclp_trans)
  have st: "store_step k (other n s) (snd (defer_delivery now' i' err na b (other n s)))" for now' i' err na b
    by (rule st_defer) (rule prod.collapse [symmetric])
  show ?case
  proof (cases r)
    case (Inl e)
    with Cons.prems(1) x dr show ?thesis by (cases e) (auto simp: Let_def intro: go [OF st])
  next
    case r: (Inr content)
    show ?thesis
    proof (cases "complete_delivery i t1 t2 d content (other n s)")
      case (Inl e)
      with r Cons.prems x dr o show ?thesis by (simp add: Let_def)
    next
      case (Inr a)
      obtain reply s1 where a: "a = (reply, s1)" by (cases a)
      with Inr have "store_step k (other n s) s1" by (blast intro: st_complete)
      then show ?thesis using Cons.prems(1) x r dr Inr a by (auto simp: Let_def split: prod.splits intro: go)
    qed
  qed
qed simp

lemma reserve_each_run:
  "reserve_each cfg now other n ds s = (rs, t) \<Longrightarrow> interferes (max 1 (dc_max_attempts cfg)) other
     \<Longrightarrow> (store_step (max 1 (dc_max_attempts cfg)))\<^sup>*\<^sup>* s t"
proof (induction ds arbitrary: n s rs)
  case (Cons d ds)
  let ?k = "max 1 (dc_max_attempts cfg)"
  obtain r s1 where r: "reserve_delivery (dl_id d) (dc_max_attempts cfg) now (other n s) = (r, s1)"
    by (cases "reserve_delivery (dl_id d) (dc_max_attempts cfg) now (other n s)")
  obtain rs' where rest: "reserve_each cfg now other (Suc n) ds s1 = (rs', t)"
    using Cons.prems(1) r by (auto split: prod.splits)
  have "(store_step ?k)\<^sup>*\<^sup>* s (other n s)" using Cons.prems(2) by (simp add: interferes_def)
  also have "store_step ?k (other n s) s1" using r st_reserve [of "dl_id d" ?k now "other n s"] by (simp add: reserve_budget_max)
  also have "(store_step ?k)\<^sup>*\<^sup>* s1 t" by (rule Cons.IH [OF rest Cons.prems(2)])
  finally show ?case .
qed simp

lemma dispatch_due_run:
  assumes "dispatch_due cfg ask join draw other now s = (evs, res, t)" "interferes (max 1 (dc_max_attempts cfg)) other"
  shows "(store_step (max 1 (dc_max_attempts cfg)))\<^sup>*\<^sup>* s t"
proof -
  let ?k = "max 1 (dc_max_attempts cfg)"
  obtain ds s1 where r: "reserve_due_deliveries (dc_batch_size cfg) (dc_max_attempts cfg) now (other 0 s) = (ds, s1)"
    by (cases "reserve_due_deliveries (dc_batch_size cfg) (dc_max_attempts cfg) now (other 0 s)")
  have "(store_step ?k)\<^sup>*\<^sup>* s (other 0 s)" using assms(2) by (simp add: interferes_def)
  also have "store_step ?k (other 0 s) s1"
    using r st_reserve_due [of "dc_batch_size cfg" ?k now "other 0 s"] by (simp add: reserve_budget_max)
  also have "(store_step ?k)\<^sup>*\<^sup>* s1 t"
    using assms settle_run r by (simp add: dispatch_due_def process_batch_def)
  finally show ?thesis .
qed

lemma dispatch_message_run:
  assumes "dispatch_message cfg ask join draw other now i s = (evs, res, t)" "interferes (max 1 (dc_max_attempts cfg)) other"
  shows "(store_step (max 1 (dc_max_attempts cfg)))\<^sup>*\<^sup>* s t"
proof -
  obtain ds s1 where r: "reserve_each cfg now other 0 (list_message_deliveries i s) s = (ds, s1)"
    by (cases "reserve_each cfg now other 0 (list_message_deliveries i s) s")
  from reserve_each_run [OF r assms(2)] settle_run [OF _ assms(2)] show ?thesis
    using assms(1) r by (auto simp: dispatch_message_def process_batch_def Let_def intro: rtranclp_trans)
qed

lemma coord_step_run:
  assumes "coord_step cfg c c'"
  shows "(store_step (max 1 (dc_max_attempts cfg)))\<^sup>*\<^sup>* (co_db c) (co_db c')"
  using assms
proof cases
  case (co_startup now)
  have "store_step (max 1 (dc_max_attempts cfg)) (co_db c) (snd (release_in_flight_deliveries now (co_db c)))"
    by (rule st_release) (rule prod.collapse [symmetric])
  with co_startup show ?thesis by (auto simp: startup_def)
qed (use dispatch_due_run dispatch_message_run in \<open>auto simp: r_into_rtranclp\<close>)

section \<open>The invariant of the store under a coordinator\<close>

definition coord_start :: "coordinator \<Rightarrow> bool" where
  "coord_start c \<longleftrightarrow> \<not> co_ready c \<and> co_db c = db_empty"

lemma store_run_ok: "(store_step k)\<^sup>*\<^sup>* s t \<Longrightarrow> 1 \<le> k \<Longrightarrow> store_ok k s \<Longrightarrow> store_ok k t"
  by (induction rule: rtranclp_induct) (auto intro: store_step_ok)

interpretation co: invariant_system coord_start "coord_step cfg" "\<lambda>c. store_ok (max 1 (dc_max_attempts cfg)) (co_db c)" for cfg
proof
  show "store_ok (max 1 (dc_max_attempts cfg)) (co_db c)" if "coord_start c" for c
    using that db_empty_ok by (simp add: coord_start_def)
  show "store_ok (max 1 (dc_max_attempts cfg)) (co_db c')"
    if "coord_step cfg c c'" "store_ok (max 1 (dc_max_attempts cfg)) (co_db c)" for c c'
    using store_run_ok [OF coord_step_run [OF that(1)] _ that(2)] by simp
qed

section \<open>The abstract specification of a round\<close>

text \<open>
  What a round promises, row by row and without clocks, identifiers or the order of the rows: a
  delivery of the batch that is answered leaves the queue, one that fails has used one more attempt
  and is exhausted when that was the last one, one whose fate is unknown is exhausted; no other row
  changes.
\<close>

datatype outcome = Answered | Failed | Unknown

type_synonym row = "uuid \<times> delivery_state \<times> int"

definition abs_row :: "delivery \<Rightarrow> row" where
  "abs_row d = (dl_id d, dl_state d, dl_attempts d)"

fun outcome_of :: "attempt_error + string \<Rightarrow> outcome" where
  "outcome_of (Inr content) = Answered"
| "outcome_of (Inl (Retryable e)) = Failed"
| "outcome_of (Inl (Indeterminate e)) = Unknown"

fun abs_settle :: "int \<Rightarrow> (uuid \<rightharpoonup> outcome) \<Rightarrow> row \<Rightarrow> row option" where
  "abs_settle k out (i, st, a) =
     (if st \<noteq> InFlight then Some (i, st, a)
      else case out i of
             None \<Rightarrow> Some (i, st, a)
           | Some Answered \<Rightarrow> None
           | Some Failed \<Rightarrow> Some (i, if a \<ge> k then Exhausted else Pending, a)
           | Some Unknown \<Rightarrow> Some (i, Exhausted, a))"

fun abs_round :: "int \<Rightarrow> (uuid \<rightharpoonup> outcome) \<Rightarrow> row \<Rightarrow> row option" where
  "abs_round k out (i, st, a) =
     (case out i of
        None \<Rightarrow> Some (i, st, a)
      | Some Answered \<Rightarrow> None
      | Some Failed \<Rightarrow> Some (i, if a + 1 \<ge> k then Exhausted else Pending, a + 1)
      | Some Unknown \<Rightarrow> Some (i, Exhausted, a + 1))"

definition task_outcomes :: "task list \<Rightarrow> uuid \<rightharpoonup> outcome" where
  "task_outcomes ts = map_of (map (\<lambda>(_, d, r). (dl_id d, outcome_of r)) ts)"

lemma task_outcomes_simps [simp]:
  "task_outcomes [] = Map.empty"
  "task_outcomes ((n, d, r) # ts) = (task_outcomes ts)(dl_id d \<mapsto> outcome_of r)"
  by (simp_all add: task_outcomes_def)

lemma task_outcomes_None: "i \<notin> dl_id ` (fst \<circ> snd) ` set ts \<Longrightarrow> task_outcomes ts i = None"
  by (force simp: task_outcomes_def map_of_eq_None_iff)

lemma map_filter_comp: "List.map_filter f (List.map_filter g xs) = List.map_filter (\<lambda>x. Option.bind (g x) f) xs"
  by (induction xs) (auto split: option.splits)

lemma map_filter_cong: "(\<And>x. x \<in> set xs \<Longrightarrow> f x = g x) \<Longrightarrow> List.map_filter f xs = List.map_filter g xs"
  by (induction xs) (auto split: option.splits)

lemma map_filter_pointwise:
  "(\<And>x. x \<in> set xs \<Longrightarrow> f (g x) = Some (g (h x))) \<Longrightarrow> map g (map h xs) = List.map_filter f (map g xs)"
  by (induction xs) auto

lemma abs_settle_Cons:
  assumes "dl_id d \<notin> dl_id ` (fst \<circ> snd) ` set ts"
  shows "Option.bind (abs_settle k [dl_id d \<mapsto> o1] r) (abs_settle k (task_outcomes ts))
       = abs_settle k ((task_outcomes ts)(dl_id d \<mapsto> o1)) r"
proof -
  obtain i st a where r: "r = (i, st, a)" by (cases r)
  show ?thesis using task_outcomes_None [OF assms] unfolding r by (cases o1) (auto split: option.splits)
qed

lemma complete_abs:
  assumes "complete_delivery i t1 t2 d content s = Inr (m, t)"
  shows "map abs_row (db_deliveries t) = List.map_filter (abs_settle k [dl_id d \<mapsto> Answered]) (map abs_row (db_deliveries s))"
proof -
  have "map abs_row (filter (\<lambda>r. \<not> (dl_id r = dl_id d \<and> dl_state r = InFlight)) rows)
      = List.map_filter (abs_settle k [dl_id d \<mapsto> Answered]) (map abs_row rows)" for rows
    by (induction rows) (auto simp: abs_row_def)
  then show ?thesis using complete_delivery_effect(1) [OF assms] by simp
qed

lemma defer_abs:
  assumes "oc = (if out then Failed else Unknown)" "out \<Longrightarrow> k = max j 1"
    and "\<not> out \<Longrightarrow> \<forall>e \<in> set (db_deliveries s). dl_id e = i \<and> dl_state e = InFlight \<longrightarrow> max j 1 \<le> dl_attempts e"
  shows "map abs_row (db_deliveries (snd (defer_delivery now i err na j s)))
     = List.map_filter (abs_settle k [i \<mapsto> oc]) (map abs_row (db_deliveries s))"
proof -
  let ?h = "\<lambda>e. if dl_id e = i \<and> dl_state e = InFlight
        then e\<lparr>dl_state := (if dl_attempts e \<ge> max j 1 then Exhausted else Pending),
               dl_next_attempt_at := na, dl_last_error := Some err, dl_updated_at := now\<rparr> else e"
  have "abs_settle k [i \<mapsto> oc] (abs_row e) = Some (abs_row (?h e))" if "e \<in> set (db_deliveries s)" for e
    using assms that by (cases out) (auto simp: abs_row_def)
  then have "map abs_row (map ?h (db_deliveries s)) = List.map_filter (abs_settle k [i \<mapsto> oc]) (map abs_row (db_deliveries s))"
    by (rule map_filter_pointwise)
  then show ?thesis by (simp add: defer_delivery_def Let_def update_rows_def del: max.bounded_iff)
qed

lemma delivery_unique:
  "dels_ok k s \<Longrightarrow> d \<in> set (db_deliveries s) \<Longrightarrow> e \<in> set (db_deliveries s) \<Longrightarrow> dl_id d = dl_id e \<Longrightarrow> d = e"
  by (simp add: dels_ok_def distinct_map inj_on_def)

lemma complete_delivery_succeeds:
  assumes "store_ok k s" "e \<in> set (db_deliveries s)" "dl_state e = InFlight" "dl_id e = dl_id d"
    "dl_agent_id e = dl_agent_id d" "dl_channel_id e = dl_channel_id d" "i \<notin> message_ids s"
  shows "\<exists>m t. complete_delivery i t1 t2 d content s = Inr (m, t)"
proof -
  have ok: "dels_ok k s" "msgs_ok s" using assms(1) by (simp_all add: store_parts)
  have one: "affected (\<lambda>r. dl_id r = dl_id d \<and> dl_state r = InFlight) (db_deliveries s) = 1"
    using assms(2-4) dels_ok_distinct [OF ok(1)] by (intro affected_key [where g = dl_id and r = e]) auto
  have ag: "dl_agent_id d \<in> agent_ids s" using ok(1) assms(2) unfolding dels_ok_def assms(5) [symmetric] by blast
  have "of_message e s" using ok(1) assms(2) by (simp add: dels_ok_def)
  then obtain m where m: "m \<in> set (db_messages s)" "me_channel_id m = dl_channel_id d" using assms(6) by (auto simp: of_message_def)
  have ch: "dl_channel_id d \<in> channel_ids s" using ok(2) m(1) unfolding msgs_ok_def m(2) [symmetric] by blast
  show ?thesis
    using one ag ch assms(7)
    by (auto simp: complete_delivery_def Let_def upsert_inbox_cursor_def insert_message_iff split: option.splits)
qed

definition in_flight_task :: "db \<Rightarrow> task \<Rightarrow> bool" where
  "in_flight_task s x \<longleftrightarrow> (let d = fst (snd x) in \<exists>e \<in> set (db_deliveries s). dl_state e = InFlight \<and> dl_id e = dl_id d
     \<and> dl_agent_id e = dl_agent_id d \<and> dl_channel_id e = dl_channel_id d \<and> dl_attempts d \<le> dl_attempts e)"

definition quiet :: others where
  "quiet n s = s"

lemma quiet_simp [simp]: "quiet n s = s"
  by (simp add: quiet_def)

lemma in_flight_kept:
  assumes "in_flight_task s y" "dl_id (fst (snd y)) \<noteq> dl_id d"
  shows "complete_delivery i t1 t2 d content s = Inr (m, t) \<Longrightarrow> in_flight_task t y"
    and "in_flight_task (snd (defer_delivery now (dl_id d) err na j s)) y"
proof -
  show "in_flight_task t y" if "complete_delivery i t1 t2 d content s = Inr (m, t)"
    using assms complete_delivery_effect(1) [OF that] by (auto simp: in_flight_task_def Let_def)
  show "in_flight_task (snd (defer_delivery now (dl_id d) err na j s)) y"
    using assms by (auto simp: in_flight_task_def Let_def defer_delivery_def set_update_rows)
qed

definition fresh_draws :: "draws \<Rightarrow> db \<Rightarrow> bool" where
  "fresh_draws draw s \<longleftrightarrow> inj (fst \<circ> draw) \<and> range (fst \<circ> draw) \<inter> message_ids s = {}"

definition answers_of :: "task list \<Rightarrow> string list" where
  "answers_of ts = List.map_filter (\<lambda>(_, _, r). case r of Inr c \<Rightarrow> Some c | Inl _ \<Rightarrow> None) ts"

lemma answers_of_simps [simp]:
  "answers_of [] = []" "answers_of ((n, d, Inr c) # ts) = c # answers_of ts" "answers_of ((n, d, Inl e) # ts) = answers_of ts"
  by (simp_all add: answers_of_def)

lemma append_Cons_eq: "(@) [x] = Cons x"
  by (simp add: fun_eq_iff)

lemma no_head: "(case x of (evs, res, t) \<Rightarrow> ([] @ evs, map_sum id ((@) []) res, t)) = x"
  by (cases x; cases "fst (snd x)") auto

text \<open>
  Storing the outcomes of a batch that is in flight succeeds, whatever the outcomes, and acts on
  every row as the specification says.
\<close>

lemma settle_refines:
  assumes "store_ok k s" "k = max (dc_max_attempts cfg) 1"
    and "distinct (map (dl_id \<circ> fst \<circ> snd) ts)" "\<forall>x \<in> set ts. in_flight_task s x"
    and "\<forall>j \<ge> n. fst (draw j) \<notin> message_ids s" "inj (fst \<circ> draw)"
  shows "\<exists>evs replies t. settle cfg draw quiet n ts s = (evs, Inr replies, t) \<and> db_messages t = db_messages s @ replies
     \<and> map me_content replies = answers_of ts
     \<and> map abs_row (db_deliveries t) = List.map_filter (abs_settle k (task_outcomes ts)) (map abs_row (db_deliveries s))"
  using assms(1,3-5)
proof (induction ts arbitrary: n s)
  case Nil
  have "List.map_filter (abs_settle k Map.empty) (map abs_row rows) = map abs_row rows" for rows
    by (induction rows) (auto simp: abs_row_def)
  then show ?case by simp
next
  case (Cons x ts)
  obtain j d r where x: "x = (j, d, r)" by (cases x)
  obtain i t1 t2 where dr: "draw n = (i, t1, t2)" by (cases "draw n")
  have new: "dl_id d \<notin> dl_id ` (fst \<circ> snd) ` set ts" using Cons.prems(2) by (auto simp: x)
  have tail: "distinct (map (dl_id \<circ> fst \<circ> snd) ts)" "\<forall>y \<in> set ts. in_flight_task s y \<and> dl_id (fst (snd y)) \<noteq> dl_id d"
    using Cons.prems(2,3) by (auto simp: x image_iff comp_def)
  obtain e where e: "e \<in> set (db_deliveries s)" "dl_state e = InFlight" "dl_id e = dl_id d" "dl_agent_id e = dl_agent_id d"
    "dl_channel_id e = dl_channel_id d" "dl_attempts d \<le> dl_attempts e"
    using Cons.prems(3) by (auto simp: x in_flight_task_def Let_def)
  have pass: ?case
    if s1: "settle cfg draw quiet n (x # ts) s = (case settle cfg draw quiet (Suc n) ts s1 of (evs, res, t) \<Rightarrow> (h @ evs, map_sum id ((@) new_msgs) res, t))"
      and ok1: "store_ok k s1" "\<forall>y \<in> set ts. in_flight_task s1 y" "\<forall>j \<ge> Suc n. fst (draw j) \<notin> message_ids s1"
      and m1: "db_messages s1 = db_messages s @ new_msgs" "answers_of (x # ts) = map me_content new_msgs @ answers_of ts"
      and a1: "map abs_row (db_deliveries s1) = List.map_filter (abs_settle k [dl_id d \<mapsto> outcome_of r]) (map abs_row (db_deliveries s))"
    for s1 h new_msgs
  proof -
    obtain evs replies t where t: "settle cfg draw quiet (Suc n) ts s1 = (evs, Inr replies, t)" "db_messages t = db_messages s1 @ replies"
      "map me_content replies = answers_of ts"
      "map abs_row (db_deliveries t) = List.map_filter (abs_settle k (task_outcomes ts)) (map abs_row (db_deliveries s1))"
      using Cons.IH [OF ok1(1) tail(1) ok1(2,3)] by blast
    have "map abs_row (db_deliveries t) = List.map_filter (abs_settle k (task_outcomes (x # ts))) (map abs_row (db_deliveries s))"
      unfolding t(4) a1 map_filter_comp x task_outcomes_simps abs_settle_Cons [OF new] ..
    with s1 t(1-3) m1 show ?thesis
      by (intro exI [of _ "h @ evs"] exI [of _ "new_msgs @ replies"] exI [of _ t]) (simp del: quiet_simp)
  qed
  show ?case
  proof (cases r)
    case (Inl er)
    have step: "store_ok k (snd (defer_delivery t2 (dl_id d) err na b s))" for err na b
      using delivery_update_store_ok(3) [OF Cons.prems(1)] assms(2) by simp
    have ids: "db_messages (snd (defer_delivery t2 (dl_id d) err na b s)) = db_messages s" for err na b
      by (simp add: defer_delivery_def Let_def)
    have kept: "\<forall>y \<in> set ts. in_flight_task (snd (defer_delivery t2 (dl_id d) err na b s)) y" for err na b
      using tail(2) in_flight_kept(2) by blast
    have go: ?thesis
      if "settle cfg draw quiet n (x # ts) s = settle cfg draw quiet (Suc n) ts (snd (defer_delivery t2 (dl_id d) err na b s))"
        "map abs_row (db_deliveries (snd (defer_delivery t2 (dl_id d) err na b s)))
           = List.map_filter (abs_settle k [dl_id d \<mapsto> outcome_of r]) (map abs_row (db_deliveries s))" for err na b
      by (rule pass [where h = "[]" and new_msgs = "[]", OF trans [OF that(1) no_head [symmetric]] step kept _ _ _ that(2)])
         (use Inl x ids Cons.prems(4) in simp_all)
    show ?thesis
    proof (cases er)
      case (Retryable re)
      show ?thesis
        by (rule go, use Retryable Inl x dr in \<open>simp add: Let_def\<close>)
           (use Retryable Inl assms(2) in \<open>auto intro!: defer_abs [where out = True]\<close>)
    next
      case (Indeterminate msg)
      have "e' = e" if "e' \<in> set (db_deliveries s)" "dl_id e' = dl_id d" for e'
        using delivery_unique [of k s e' e] that e(1,3) Cons.prems(1) by (simp add: store_parts)
      moreover have "1 \<le> dl_attempts e" using e(1,2) Cons.prems(1) by (auto simp: store_parts dels_ok_def budget_ok_def)
      ultimately have "\<forall>e' \<in> set (db_deliveries s). dl_id e' = dl_id d \<and> dl_state e' = InFlight \<longrightarrow> max (dl_attempts d) 1 \<le> dl_attempts e'"
        using e(6) by auto
      then show ?thesis
        by (intro go, use Indeterminate Inl x dr in \<open>simp add: Let_def\<close>)
           (use Indeterminate Inl in \<open>auto intro!: defer_abs [where out = False]\<close>)
    qed
  next
    case (Inr c)
    obtain m s1 where c: "complete_delivery i t1 t2 d c s = Inr (m, s1)"
      using complete_delivery_succeeds [OF Cons.prems(1) e(1-5), of i t1 t2 c] Cons.prems(4) dr by (metis fst_conv order_refl)
    note eff = complete_delivery_effect [OF c]
    have later: "\<forall>j \<ge> Suc n. fst (draw j) \<noteq> i"
      using assms(6) dr by (metis Suc_n_not_le_n comp_apply fst_conv injD)
    have eq: "settle cfg draw quiet n (x # ts) s
       = (case settle cfg draw quiet (Suc n) ts s1 of (evs, res, t) \<Rightarrow> ([completed_event d m] @ evs, map_sum id ((@) [m]) res, t))"
      using Inr x dr c by (simp add: Let_def append_Cons_eq)
    show ?thesis
      using later Inr x eff(2,7,10) tail(2) in_flight_kept(1) [OF _ _ c] Cons.prems(4)
      by (intro pass [OF eq complete_store_ok [OF Cons.prems(1) c] _ _ eff(2)]) (auto simp: complete_abs [OF c])
  qed
qed

section \<open>A round refines its specification\<close>

definition attempted :: "(agent \<Rightarrow> message \<Rightarrow> answer) \<Rightarrow> db \<Rightarrow> delivery \<Rightarrow> attempt_error + string" where
  "attempted ask s d = attempt_result (ask (the (get_agent (dl_agent_id d) s)) (the (get_message (dl_message_id d) s)))"

lemma start_tasks_index: "x \<in> set (start_tasks ask n ds s) \<Longrightarrow> n \<le> fst x"
  by (induction ds arbitrary: n) (fastforce split: option.splits)+

lemma start_tasks_sorted: "sorted_wrt (<) (map fst (start_tasks ask n ds s))"
  by (induction ds arbitrary: n) (auto split: option.splits dest: start_tasks_index)

lemma sort_joined:
  assumes "mset (join (start_tasks ask n ds s)) = mset (start_tasks ask n ds s)"
  shows "sort_key fst (join (start_tasks ask n ds s)) = start_tasks ask n ds s"
proof (rule sort_key_inj_key_eq [OF assms])
  have "distinct (map fst (start_tasks ask n ds s))" using start_tasks_sorted strict_sorted_iff by blast
  then show "inj_on fst (set (join (start_tasks ask n ds s)))"
    using mset_eq_setD [OF assms] by (simp add: distinct_map)
  show "sorted (map fst (start_tasks ask n ds s))" using start_tasks_sorted strict_sorted_iff by blast
qed

lemma start_tasks_total:
  assumes "\<forall>d \<in> set ds. get_agent (dl_agent_id d) s \<noteq> None \<and> get_message (dl_message_id d) s \<noteq> None"
  shows "map snd (start_tasks ask n ds s) = map (\<lambda>d. (d, attempted ask s d)) ds"
  using assms by (induction ds arbitrary: n) (auto simp: attempted_def)

lemma task_outcomes_snd: "map snd ts = map (\<lambda>d. (g d, h d)) ds \<Longrightarrow> task_outcomes ts = map_of (map (\<lambda>d. (dl_id (g d), outcome_of (h d))) ds)"
proof -
  have "map (\<lambda>(_, d, r). (dl_id d, outcome_of r)) ts = map (\<lambda>(d, r). (dl_id d, outcome_of r)) (map snd ts)"
    by (simp add: case_prod_beta comp_def)
  then show "map snd ts = map (\<lambda>d. (g d, h d)) ds \<Longrightarrow> ?thesis"
    by (simp add: task_outcomes_def comp_def)
qed

lemma answers_of_snd: "map snd ts = map (\<lambda>d. (g d, h d)) ds
     \<Longrightarrow> answers_of ts = List.map_filter (\<lambda>d. case h d of Inr c \<Rightarrow> Some c | Inl _ \<Rightarrow> None) ds"
proof (induction ds arbitrary: ts)
  case (Cons d ds)
  then obtain n ts' where "ts = (n, g d, h d) # ts'" "map snd ts' = map (\<lambda>d. (g d, h d)) ds" by auto
  with Cons.IH show ?case by (cases "h d") simp_all
qed simp

lemma reserved_copy_sel [simp]:
  "dl_id (reserved_copy now d) = dl_id d" "dl_agent_id (reserved_copy now d) = dl_agent_id d"
  "dl_message_id (reserved_copy now d) = dl_message_id d" "dl_channel_id (reserved_copy now d) = dl_channel_id d"
  "dl_attempts (reserved_copy now d) = min i64_max (dl_attempts d + 1)"
  by (simp_all add: reserved_copy_def)

lemma delivery_known:
  assumes "store_ok k s" "d \<in> set (db_deliveries s)"
  shows "get_agent (dl_agent_id d) s \<noteq> None \<and> get_message (dl_message_id d) s \<noteq> None"
proof
  have "dl_agent_id d \<in> agent_ids s" using assms by (simp add: store_parts dels_ok_def)
  then show "get_agent (dl_agent_id d) s \<noteq> None" by (auto simp: get_agent_def find_None_iff)
  show "get_message (dl_message_id d) s \<noteq> None" using delivery_source [OF assms] by auto
qed

lemma round_rows:
  assumes "\<And>i. i \<in> ids \<longleftrightarrow> out i \<noteq> None"
  shows "List.map_filter (abs_settle k out) (map abs_row (update_rows (\<lambda>r. dl_id r \<in> ids) (take_flight now) rows))
       = List.map_filter (abs_round k out) (map abs_row rows)"
proof (induction rows)
  case (Cons r rows)
  have "abs_settle k out (abs_row (if dl_id r \<in> ids then take_flight now r else r)) = abs_round k out (abs_row r)"
    using assms [of "dl_id r"] by (auto simp: abs_row_def take_flight_def split: option.splits outcome.splits)
  with Cons show ?case by (simp add: update_rows_def split: option.split)
qed (simp add: update_rows_def)

definition batch_outcomes :: "(agent \<Rightarrow> message \<Rightarrow> answer) \<Rightarrow> db \<Rightarrow> delivery list \<Rightarrow> uuid \<rightharpoonup> outcome" where
  "batch_outcomes ask s ds = map_of (map (\<lambda>d. (dl_id d, outcome_of (attempted ask s d))) ds)"

definition batch_answers :: "(agent \<Rightarrow> message \<Rightarrow> answer) \<Rightarrow> db \<Rightarrow> delivery list \<Rightarrow> string list" where
  "batch_answers ask s ds = List.map_filter (\<lambda>d. case attempted ask s d of Inr c \<Rightarrow> Some c | Inl _ \<Rightarrow> None) ds"

lemma batch_outcomes_dom: "i \<in> dl_id ` set ds \<longleftrightarrow> batch_outcomes ask s ds i \<noteq> None"
proof -
  have "dom (batch_outcomes ask s ds) = dl_id ` set ds" by (simp add: batch_outcomes_def dom_map_of_conv_image_fst image_image)
  then show ?thesis by auto
qed

text \<open>
  C26. A poll of the coordinator, with no other writer, implements the abstract round: whatever the
  runtime answers, and in whatever order the attempts finish, the poll succeeds, stores the answers
  as new messages in the order of the batch, and every row of the queue goes through the abstract
  transition (answered: gone; failed: one more attempt, exhausted at the budget; unknown: exhausted;
  not in the batch: unchanged).
\<close>

theorem dispatch_due_refines_round:
  assumes "store_ok k s" "k = max (dc_max_attempts cfg) 1" "fresh_draws draw s" "\<And>xs. mset (join xs) = mset xs"
    and batch_def: "batch = due_list (dc_batch_size cfg) (dc_max_attempts cfg) now s"
  shows "\<exists>evs replies t. dispatch_due cfg ask join draw quiet now s = (evs, Inr replies, t)
     \<and> db_messages t = db_messages s @ replies \<and> map me_content replies = batch_answers ask s batch
     \<and> map abs_row (db_deliveries t) = List.map_filter (abs_round k (batch_outcomes ask s batch)) (map abs_row (db_deliveries s))"
proof -
  let ?s1 = "s\<lparr>db_deliveries := update_rows (\<lambda>r. dl_id r \<in> dl_id ` set batch) (take_flight now) (db_deliveries s)\<rparr>"
  let ?ds = "map (reserved_copy now) batch"
  let ?ts = "start_tasks ask 0 ?ds ?s1"
  have dd: "distinct (map dl_id (db_deliveries s))" using assms(1) by (simp add: store_parts dels_ok_def)
  have r: "reserve_due_deliveries (dc_batch_size cfg) (dc_max_attempts cfg) now s = (?ds, ?s1)"
    unfolding batch_def by (rule reserve_due_eq [OF dd])
  have ok1: "store_ok k ?s1"
    using r reserve_due_store_ok [OF assms(1), of "dc_batch_size cfg" now ?ds ?s1] assms(2) by (simp add: reserve_budget_max max.commute)
  have mem: "d \<in> set (db_deliveries s)" if "d \<in> set batch" for d using that due_list_set unfolding batch_def by blast
  have same: "get_agent a ?s1 = get_agent a s" "get_message i ?s1 = get_message i s" for a i
    by (simp_all add: get_agent_def get_message_def)
  have ts: "map snd ?ts = map (\<lambda>d. (reserved_copy now d, attempted ask s d)) batch"
    using mem delivery_known [OF assms(1)] by (subst start_tasks_total) (simp_all add: same attempted_def)
  have "map (dl_id \<circ> fst \<circ> snd) ?ts = map dl_id batch"
    using arg_cong [OF ts, of "map (dl_id \<circ> fst)"] by (simp add: comp_def)
  then have dist: "distinct (map (dl_id \<circ> fst \<circ> snd) ?ts)" using due_list_distinct [OF dd] by (simp add: batch_def)
  have fl: "\<forall>x \<in> set ?ts. in_flight_task ?s1 x"
  proof
    fix x assume "x \<in> set ?ts"
    then have "snd x \<in> set (map snd ?ts)" by simp
    then obtain d where d: "d \<in> set batch" "fst (snd x) = reserved_copy now d" unfolding ts by auto
    then have "take_flight now d \<in> set (db_deliveries ?s1)" using mem by (auto simp: set_update_rows)
    then show "in_flight_task ?s1 x" unfolding in_flight_task_def Let_def d(2) by (rule bexI [rotated]) simp
  qed
  have fr: "\<forall>j \<ge> 1. fst (draw j) \<notin> message_ids ?s1" "inj (fst \<circ> draw)"
    using assms(3) by (auto simp: fresh_draws_def image_iff)
  have "task_outcomes ?ts = batch_outcomes ask s batch" "answers_of ?ts = batch_answers ask s batch"
    using task_outcomes_snd [OF ts] answers_of_snd [OF ts] by (simp_all add: batch_outcomes_def batch_answers_def)
  with settle_refines [OF ok1 assms(2) dist fl fr] round_rows [OF batch_outcomes_dom]
  show ?thesis unfolding dispatch_due_def process_batch_def by (simp add: r sort_joined assms(4))
qed

lemma example_store_ok:
  "store_ok 3 (example_db [example_message 100 1 1] [example_delivery 1 1 st att]) \<longleftrightarrow> budget_ok 3 (example_delivery 1 1 st att)"
proof -
  let ?s = "example_db [example_message 100 1 1] [example_delivery 1 1 st att]"
  have "chans_ok ?s" "homes_ok ?s" "msgs_ok ?s" "inbox_ok ?s" "working_ok ?s" "tasks_ok ?s" "deps_ok ?s"
    by (simp_all add: chans_ok_def homes_ok_def is_member_def msgs_ok_def inbox_ok_def working_ok_def tasks_ok_def deps_ok_def
        edges_def acyclic_def example_defs)
  then show ?thesis using example_dels_ok [of st att] by (simp add: store_parts)
qed

definition example_draws :: draws where
  "example_draws n = (500 + n, 20, 21)"

lemma example_fresh: "fresh_draws example_draws (example_db [example_message 100 1 1] ds)"
  by (auto simp: fresh_draws_def example_draws_def inj_def example_defs)

lemma example_batch: "due_list 32 10 9 (example_db [example_message 100 1 1] [example_delivery 1 1 Pending 0]) = [example_delivery 1 1 Pending 0]"
  by (simp add: due_list_def due_def agent_running_def example_defs)

theorem dispatch_due_refines_round_witness:
  "\<exists>evs replies t. dispatch_due (default_delivery_config\<lparr>dc_max_attempts := 3\<rparr>) (\<lambda>a m. TimedOut (Some (RtBusy ''busy''))) rev
       example_draws quiet 9 (example_db [example_message 100 1 1] [example_delivery 1 1 Pending 0]) = (evs, Inr replies, t)
     \<and> replies = [] \<and> map abs_row (db_deliveries t) = [(200, Exhausted, 1)]"
proof -
  let ?s = "example_db [example_message 100 1 1] [example_delivery 1 1 Pending 0]"
  let ?ask = "\<lambda>(a :: agent) (m :: message). TimedOut (Some (RtBusy ''busy''))"
  let ?b = "[example_delivery 1 1 Pending 0]"
  have ok: "store_ok 3 ?s" unfolding example_store_ok by (simp add: budget_ok_def example_delivery_def)
  have b: "?b = due_list (dc_batch_size (default_delivery_config\<lparr>dc_max_attempts := 3\<rparr>))
      (dc_max_attempts (default_delivery_config\<lparr>dc_max_attempts := 3\<rparr>)) 9 ?s"
    by (simp add: default_delivery_config_def due_list_def due_def agent_running_def example_defs)
  have "batch_answers ?ask ?s ?b = []" "List.map_filter (abs_round 3 (batch_outcomes ?ask ?s ?b)) (map abs_row (db_deliveries ?s)) = [(200, Exhausted, 1)]"
    by (simp_all add: batch_answers_def batch_outcomes_def attempted_def abs_row_def example_defs)
  with dispatch_due_refines_round [OF ok _ example_fresh _ b, of rev ?ask] show ?thesis by fastforce
qed

section \<open>The retry budget bounds the work\<close>

definition budget_left :: "int \<Rightarrow> db \<Rightarrow> nat" where
  "budget_left k s = sum_list (map (\<lambda>d. nat (k - dl_attempts d)) (db_deliveries s))"

lemma sum_list_filter_le: "sum_list (map f (filter p xs)) \<le> (sum_list (map f xs) :: nat)"
  by (induction xs) auto

lemma settle_budget:
  assumes "\<And>n s. other n s = s"
  shows "settle cfg draw other n ts s = (evs, res, t) \<Longrightarrow> budget_left k t \<le> budget_left k s"
proof (induction ts arbitrary: n s evs res)
  case (Cons x ts)
  obtain j d r where x: "x = (j, d, r)" by (cases x)
  obtain i t1 t2 where dr: "draw n = (i, t1, t2)" by (cases "draw n")
  have go: ?case if "budget_left k s1 \<le> budget_left k s" "settle cfg draw other (Suc n) ts s1 = (evs', res', t)" for s1 evs' res'
    using Cons.IH [OF that(2)] that(1) by simp
  have df: "budget_left k (snd (defer_delivery now' i' err na b s)) \<le> budget_left k s" for now' i' err na b
  proof -
    have "map dl_attempts (db_deliveries (snd (defer_delivery now' i' err na b s))) = map dl_attempts (db_deliveries s)"
      by (simp add: defer_delivery_def Let_def map_update_rows)
    from arg_cong [OF this, of "map (\<lambda>a. nat (k - a))"] show ?thesis by (simp add: budget_left_def comp_def)
  qed
  show ?case
  proof (cases r)
    case (Inl e)
    with Cons.prems x dr show ?thesis by (cases e) (auto simp: Let_def assms [of n s] intro: go [OF df])
  next
    case r: (Inr c)
    show ?thesis
    proof (cases "complete_delivery i t1 t2 d c s")
      case (Inl e)
      with r Cons.prems x dr show ?thesis by (simp add: Let_def assms [of n s])
    next
      case (Inr a)
      obtain reply s1 where a: "a = (reply, s1)" by (cases a)
      have "budget_left k s1 \<le> budget_left k s"
        using complete_delivery_effect(1) Inr a by (simp add: budget_left_def sum_list_filter_le)
      then show ?thesis using Cons.prems x r dr Inr a by (auto simp: Let_def assms [of n s] split: prod.splits intro: go)
    qed
  qed
qed simp

lemma sum_list_dec:
  "(\<And>x. x \<in> set xs \<Longrightarrow> p x \<Longrightarrow> f x = Suc (g x)) \<Longrightarrow> (\<And>x. x \<in> set xs \<Longrightarrow> \<not> p x \<Longrightarrow> g x = f x)
     \<Longrightarrow> sum_list (map g xs) + length (filter p xs) = sum_list (map f xs)"
  by (induction xs) auto

lemma reserve_budget:
  assumes "dels_ok k s" "k = max n 1" "reserve_due_deliveries limit n now s = (ds, t)"
  shows "budget_left k t + length ds = budget_left k s"
proof -
  note dd = dels_ok_distinct [OF assms(1)]
  let ?b = "due_list limit n now s" and ?p = "\<lambda>r. dl_id r \<in> dl_id ` set (due_list limit n now s)"
  have e: "ds = map (reserved_copy now) ?b" "t = s\<lparr>db_deliveries := update_rows ?p (take_flight now) (db_deliveries s)\<rparr>"
    using assms(3) reserve_due_eq [OF dd, of limit n now] by auto
  have db: "distinct ?b" using due_list_distinct [OF dd] by (simp add: distinct_map)
  have "set (filter ?p (db_deliveries s)) = set ?b"
  proof (intro set_eqI iffI)
    fix r assume "r \<in> set (filter ?p (db_deliveries s))"
    then obtain b where "b \<in> set ?b" "dl_id r = dl_id b" "r \<in> set (db_deliveries s)" by auto
    with delivery_unique [OF assms(1)] due_list_set show "r \<in> set ?b" by metis
  next
    fix r assume "r \<in> set ?b"
    with due_list_set show "r \<in> set (filter ?p (db_deliveries s))" by auto
  qed
  then have len: "length (filter ?p (db_deliveries s)) = length ?b"
    using distinct_card [OF db] distinct_card [of "filter ?p (db_deliveries s)"] dd by (simp add: distinct_map)
  have "sum_list (map (\<lambda>d. nat (k - dl_attempts (if ?p d then take_flight now d else d))) (db_deliveries s)) + length (filter ?p (db_deliveries s))
      = budget_left k s" unfolding budget_left_def
  proof (rule sum_list_dec)
    fix d assume "d \<in> set (db_deliveries s)" "?p d"
    then have "dl_attempts d < k" using due_list_unique_id [OF dd] assms(2) by (simp add: due_def)
    with \<open>?p d\<close> show "nat (k - dl_attempts d) = Suc (nat (k - dl_attempts (if ?p d then take_flight now d else d)))"
      by simp
  qed simp
  then show ?thesis by (simp add: e len budget_left_def update_rows_def comp_def)
qed

type_synonym poll = "(agent \<Rightarrow> message \<Rightarrow> answer) \<times> (task list \<Rightarrow> task list) \<times> draws \<times> timestamp"

text \<open>The successive polls of \<open>run\<close>, counting the deliveries they reserve.\<close>

fun polls :: "delivery_config \<Rightarrow> poll list \<Rightarrow> db \<Rightarrow> nat \<times> db" where
  "polls cfg [] s = (0, s)"
| "polls cfg ((ask, join, draw, now) # ps) s =
     (let batch = fst (reserve_due_deliveries (dc_batch_size cfg) (dc_max_attempts cfg) now s);
          (_, _, t) = dispatch_due cfg ask join draw quiet now s;
          (n, u) = polls cfg ps t
      in (length batch + n, u))"

lemma dispatch_budget:
  assumes "store_ok k s" "k = max (dc_max_attempts cfg) 1" "dispatch_due cfg ask join draw quiet now s = (evs, res, t)"
  shows "budget_left k t + length (fst (reserve_due_deliveries (dc_batch_size cfg) (dc_max_attempts cfg) now s)) \<le> budget_left k s"
    and "store_ok k t"
proof -
  obtain ds s1 where r: "reserve_due_deliveries (dc_batch_size cfg) (dc_max_attempts cfg) now s = (ds, s1)"
    by (cases "reserve_due_deliveries (dc_batch_size cfg) (dc_max_attempts cfg) now s")
  have "budget_left k s1 + length ds = budget_left k s"
    using reserve_budget [OF _ assms(2) r] assms(1) by (simp add: store_parts)
  moreover have "budget_left k t \<le> budget_left k s1"
    using assms(3) r settle_budget [of quiet] by (simp add: dispatch_due_def process_batch_def)
  ultimately show "budget_left k t + length (fst (reserve_due_deliveries (dc_batch_size cfg) (dc_max_attempts cfg) now s)) \<le> budget_left k s"
    using r by simp
  have "interferes (max 1 (dc_max_attempts cfg)) quiet" by (simp add: interferes_def)
  from store_run_ok [OF dispatch_due_run [OF assms(3) this]] assms(1,2) show "store_ok k t" by (simp add: max.commute)
qed

text \<open>
  C31. The retry budget bounds the work the coordinator can cause: however many polls run, whatever
  the runtime answers and even when storing an outcome fails, the deliveries they hand to the
  runtime are at most the attempts that the queued deliveries have left.
\<close>

theorem polls_bounded_by_budget:
  assumes "store_ok k s" "k = max (dc_max_attempts cfg) 1"
  shows "fst (polls cfg ps s) + budget_left k (snd (polls cfg ps s)) \<le> budget_left k s"
  using assms(1)
proof (induction ps arbitrary: s)
  case (Cons p ps)
  obtain ask join draw now where p: "p = (ask, join, draw, now)" by (cases p)
  obtain evs res t where t: "dispatch_due cfg ask join draw quiet now s = (evs, res, t)"
    by (cases "dispatch_due cfg ask join draw quiet now s")
  note b = dispatch_budget [OF Cons.prems assms(2) t]
  from Cons.IH [OF b(2)] b(1) show ?case by (cases "polls cfg ps t") (simp add: p t Let_def)
qed simp

theorem polls_bounded_by_budget_witness:
  "\<forall>ps. fst (polls (default_delivery_config\<lparr>dc_max_attempts := 3\<rparr>) ps (example_db [example_message 100 1 1] [example_delivery 1 1 Pending 1])) \<le> 2"
proof
  fix ps
  let ?s = "example_db [example_message 100 1 1] [example_delivery 1 1 Pending 1]"
  have ok: "store_ok 3 ?s" unfolding example_store_ok by (simp add: budget_ok_def example_delivery_def)
  have "budget_left 3 ?s = 2" by (simp add: budget_left_def example_defs)
  with polls_bounded_by_budget [OF ok, of "default_delivery_config\<lparr>dc_max_attempts := 3\<rparr>" ps]
  show "fst (polls (default_delivery_config\<lparr>dc_max_attempts := 3\<rparr>) ps ?s) \<le> 2"
    by (simp add: default_delivery_config_def)
qed

section \<open>Backoff\<close>

lemma backoff_exponent_pos: "1 \<le> a \<Longrightarrow> backoff_exponent a = nat (min 8 (a - 1))"
  by (simp add: backoff_exponent_def i64_max_def min_def)

lemma backoff_pos: "1 \<le> a \<Longrightarrow> backoff cfg a = min (min duration_max (dc_base_backoff cfg * 2 ^ nat (min 8 (a - 1)))) (dc_max_backoff cfg)"
proof -
  assume a: "1 \<le> a"
  have "nat (min 8 (a - 1)) mod 32 = nat (min 8 (a - 1))" by simp
  then show ?thesis by (simp only: backoff_def backoff_exponent_pos [OF a])
qed

text \<open>
  The pause before the next attempt never shrinks as a delivery keeps failing and never exceeds
  the configured maximum; with the default configuration it doubles from two seconds up to 256 and
  stays at five minutes from the ninth attempt on.
\<close>

theorem backoff_monotone_capped:
  assumes "1 \<le> a" "a \<le> b"
  shows "backoff cfg a \<le> backoff cfg b \<and> backoff cfg b \<le> dc_max_backoff cfg
    \<and> retry_delay default_delivery_config a = (if a \<le> 8 then 2 ^ nat a else 300) * nanos"
proof (intro conjI)
  have "nat (min 8 (a - 1)) \<le> nat (min 8 (b - 1))" using assms by simp
  then have "(2::nat) ^ nat (min 8 (a - 1)) \<le> 2 ^ nat (min 8 (b - 1))" by (rule power_increasing) simp
  then have "dc_base_backoff cfg * 2 ^ nat (min 8 (a - 1)) \<le> dc_base_backoff cfg * 2 ^ nat (min 8 (b - 1))" by simp
  then show "backoff cfg a \<le> backoff cfg b"
    using assms unfolding backoff_pos [OF assms(1)] backoff_pos [OF order_trans [OF assms]] by (intro min.mono) simp_all
  show "backoff cfg b \<le> dc_max_backoff cfg" by (simp add: backoff_def)
  have "backoff default_delivery_config a = (if a \<le> 8 then 2 ^ nat a else 300) * nanos"
  proof (cases "a \<le> 8")
    case True
    then have n: "nat a = Suc (nat (a - 1))" "nat (a - 1) \<le> 7" using assms(1) by auto
    then have "(2::nat) ^ nat (a - 1) \<le> 2 ^ 7" by (intro power_increasing) simp_all
    with True n show ?thesis
      using backoff_pos [OF assms(1), of default_delivery_config] by (simp add: default_delivery_config_def nanos_def duration_max_def min_def)
  next
    case False
    then have "nat (min 8 (a - 1)) = 8" by simp
    with False show ?thesis
      using backoff_pos [OF assms(1), of default_delivery_config] by (simp add: default_delivery_config_def nanos_def duration_max_def)
  qed
  moreover have "(if a \<le> 8 then 2 ^ nat a else 300) * nanos \<le> nat i64_max * 1000000"
  proof -
    have "(2::nat) ^ nat a \<le> 2 ^ 8" if "a \<le> 8" using that by (intro power_increasing) simp_all
    then show ?thesis by (cases "a \<le> 8") (auto simp: nanos_def i64_max_def)
  qed
  ultimately show "retry_delay default_delivery_config a = (if a \<le> 8 then 2 ^ nat a else 300) * nanos"
    by (simp add: retry_delay_def)
qed

theorem backoff_monotone_capped_witness:
  "backoff default_delivery_config 3 \<le> backoff default_delivery_config 9 \<and> retry_delay default_delivery_config 3 = 8 * nanos"
  using backoff_monotone_capped [of 3 9 default_delivery_config] by simp

section \<open>Other writers\<close>

text \<open>
  Over its whole life, with every other writer at work before, between and during its batches, the coordinator
  takes the database only through states that store methods reach.
\<close>

lemma reachable_run: "reachable start step s \<Longrightarrow> step\<^sup>*\<^sup>* s t \<Longrightarrow> reachable start step t"
  by (rotate_tac, induction rule: rtranclp_induct) (auto intro: reachable_step)

lemma coordinator_reaches: "reachable coord_start (coord_step cfg) c \<Longrightarrow> reachable store_start (store_step (max 1 (dc_max_attempts cfg))) (co_db c)"
proof (induction rule: reachable.induct)
  case (reachable_start c)
  then show ?case by (intro reachable.reachable_start) (simp add: coord_start_def store_start_def)
next
  case (reachable_step c c')
  from reachable_run [OF reachable_step(3) coord_step_run [OF reachable_step(2)]] show ?case .
qed

section \<open>An outcome that cannot be stored\<close>

text \<open>
  When a delivery whose attempt succeeded is no longer in flight (its agent or its channel was
  deleted while the runtime worked), storing its reply fails and the whole batch stops there: no
  later outcome of the batch is stored, those deliveries stay in flight and no later poll can
  reserve them, whatever their own attempts returned.
\<close>

theorem lost_delivery_strands_batch:
  assumes "dels_ok k (other n s)"
    and "\<forall>r \<in> set (db_deliveries (other n s)). dl_id r = dl_id d \<longrightarrow> dl_state r \<noteq> InFlight"
    and "e \<in> set (db_deliveries (other n s))" "dl_state e = InFlight"
  shows "settle cfg draw other n ((j, d, Inr content) # ts) s = ([], Inl (DeliveryNotInFlight (dl_id d)), other n s)
    \<and> dl_id e \<notin> dl_id ` set (fst (reserve_due_deliveries limit budget later (other n s)))
    \<and> get_delivery (dl_id e) (snd (reserve_due_deliveries limit budget later (other n s))) = Some e"
proof -
  let ?s = "other n s"
  note dd = dels_ok_distinct [OF assms(1)]
  have "affected (\<lambda>r. dl_id r = dl_id d \<and> dl_state r = InFlight) (db_deliveries ?s) = 0"
    using assms(2) by (auto simp: affected_zero)
  then have 1: "settle cfg draw other n ((j, d, Inr content) # ts) s = ([], Inl (DeliveryNotInFlight (dl_id d)), ?s)"
    by (cases "draw n") (simp add: complete_delivery_def Let_def)
  have 2: "dl_id e \<notin> dl_id ` set (due_list limit budget later ?s)"
    using due_list_unique_id [OF dd assms(3)] assms(4) by (auto simp: due_def)
  have "find (\<lambda>r. dl_id r = dl_id e) (update_rows (\<lambda>r. dl_id r \<in> dl_id ` set (due_list limit budget later ?s)) (take_flight later) (db_deliveries ?s)) = Some e"
    using assms(3) 2 dd by (intro find_key) (simp_all add: set_update_rows map_update_rows)
  with 1 2 show ?thesis by (simp add: reserve_due_eq [OF dd] get_delivery_def image_image)
qed

definition two_deliveries :: db where
  "two_deliveries = (example_db [example_message 100 1 1] [])\<lparr>db_deliveries :=
     [example_delivery 1 1 InFlight 1, (example_delivery 1 1 InFlight 1)\<lparr>dl_id := 201, dl_agent_id := 11\<rparr>]\<rparr>"

theorem lost_delivery_strands_batch_witness:
  "settle default_delivery_config example_draws (\<lambda>n s. if n = 1 then delete_agent 10 s else s) 1
     [(0, example_delivery 1 1 InFlight 1, Inr ''a''), (1, (example_delivery 1 1 InFlight 1)\<lparr>dl_id := 201, dl_agent_id := 11\<rparr>, Inr ''b'')]
     two_deliveries = ([], Inl (DeliveryNotInFlight 200), delete_agent 10 two_deliveries)
   \<and> get_delivery 201 (snd (reserve_due_deliveries 32 10 1000 (delete_agent 10 two_deliveries))) \<noteq> None"
proof -
  let ?other = "\<lambda>n s. if n = 1 then delete_agent 10 s else (s :: db)"
  let ?e = "(example_delivery 1 1 InFlight 1)\<lparr>dl_id := 201, dl_agent_id := 11\<rparr>"
  have dels: "db_deliveries (?other 1 two_deliveries) = [?e]"
    by (simp add: two_deliveries_def delete_agent_def cascade_agents_def example_defs)
  have "dels_ok 3 (?other 1 two_deliveries)"
    using dels by (simp add: dels_ok_def of_message_def budget_ok_def two_deliveries_def delete_agent_def cascade_agents_def example_defs)
  from lost_delivery_strands_batch [of 3 ?other 1 two_deliveries "example_delivery 1 1 InFlight 1" ?e, OF this,
      of default_delivery_config example_draws 0 "''a''" "[(1, ?e, Inr ''b'')]" 32 10 1000] dels
  show ?thesis by (simp add: example_delivery_def)
qed

end
