(* ===== verification/StoreMemory.thy ===== *)
theory StoreMemory
  imports StoreDelivery RustStr
begin

text \<open>
  Typed memory documents (\<open>crates/cocli-store/src/memory.rs\<close>): the namespaces of agents and channels,
  validation of types, topics and descriptions, the front matter of a topic, the generated index of
  a namespace, optimistic versions and moves between namespaces. A method is a transaction on the
  table \<open>memory_documents\<close>: when it fails the table is unchanged. \<open>uuid_text\<close> prints an identifier,
  \<open>today\<close> is the formatted date of the call and \<open>draw\<close> its fresh identifiers and clock readings.
\<close>

section \<open>Namespaces\<close>

datatype memory_scope = ScopeAgent | ScopeChannel

datatype memory_namespace = NsAgent uuid | NsChannel uuid

fun ns_scope :: "memory_namespace \<Rightarrow> memory_scope" where
  "ns_scope (NsAgent i) = ScopeAgent"
| "ns_scope (NsChannel i) = ScopeChannel"

fun ns_id :: "memory_namespace \<Rightarrow> uuid" where
  "ns_id (NsAgent i) = i"
| "ns_id (NsChannel i) = i"

fun ns_prefix :: "(uuid \<Rightarrow> string) \<Rightarrow> memory_namespace \<Rightarrow> string" where
  "ns_prefix uuid_text (NsAgent i) = ''agents/'' @ uuid_text i @ ''/memory/''"
| "ns_prefix uuid_text (NsChannel i) = ''channels/'' @ uuid_text i @ ''/notes/''"

definition memory_index_filename :: string where
  "memory_index_filename = ''MEMORY.md''"

definition index_path :: "(uuid \<Rightarrow> string) \<Rightarrow> memory_namespace \<Rightarrow> string" where
  "index_path uuid_text ns = ns_prefix uuid_text ns @ memory_index_filename"

definition topic_path :: "(uuid \<Rightarrow> string) \<Rightarrow> memory_namespace \<Rightarrow> string \<Rightarrow> string \<Rightarrow> string" where
  "topic_path uuid_text ns memory_type topic = ns_prefix uuid_text ns @ memory_type @ ''_'' @ topic @ ''.md''"

section \<open>Limits and validation\<close>

definition max_topic_slug_len :: nat where "max_topic_slug_len = 60"
definition max_description_len :: nat where "max_description_len = 150"
definition max_topic_body_bytes :: nat where "max_topic_body_bytes = 64 * 1024"
definition max_namespace_bytes :: int where "max_namespace_bytes = 1024 * 1024"
definition max_index_lines :: nat where "max_index_lines = 200"

definition memory_types :: "string list" where
  "memory_types = [''user'', ''feedback'', ''project'', ''reference'']"

definition validate_memory_type :: "string \<Rightarrow> store_error + unit" where
  "validate_memory_type t = (if t \<in> set memory_types then Inr () else Inl (InvalidMemoryType t))"

definition slug_byte :: "char \<Rightarrow> bool" where
  "slug_byte c \<longleftrightarrow> byte_in 0x61 0x7A c \<or> byte_in 0x30 0x39 c \<or> c = CHR ''_''"

definition validate_topic_slug :: "string \<Rightarrow> store_error + unit" where
  "validate_topic_slug t =
     (if t = [] \<or> length t > max_topic_slug_len \<or> \<not> list_all slug_byte t then Inl (InvalidMemoryTopic t) else Inr ())"

text \<open>\<open>chars().count()\<close>: every character has one byte that is not a continuation byte.\<close>

definition char_count :: "string \<Rightarrow> nat" where
  "char_count s = length (filter (\<lambda>c. \<not> cont_byte c) s)"

definition validate_description :: "string \<Rightarrow> store_error + unit" where
  "validate_description d =
     (if char_count d > max_description_len then Inl (InvalidMemoryDescription ''description exceeds 150 characters'')
      else if CHR 0x0D \<in> set d \<or> CHR 0x0A \<in> set d then Inl (InvalidMemoryDescription ''description must be one line'')
      else Inr ())"

section \<open>Lines and front matter\<close>

definition render_topic_content :: "string \<Rightarrow> string \<Rightarrow> string \<Rightarrow> string \<Rightarrow> string" where
  "render_topic_content description memory_type updated body =
     ''---'' @ [CHR 0x0A] @ ''description: '' @ description @ [CHR 0x0A] @ ''type: '' @ memory_type @ [CHR 0x0A]
     @ ''updated: '' @ updated @ [CHR 0x0A] @ ''---'' @ [CHR 0x0A, CHR 0x0A] @ body"

record parsed_memory =
  pm_description :: string
  pm_updated :: string
  pm_body :: string

definition parse_field :: "string \<Rightarrow> parsed_memory \<Rightarrow> parsed_memory" where
  "parse_field line p =
     (case strip_prefix ''description:'' line of
        Some v \<Rightarrow> p\<lparr>pm_description := trim v\<rparr>
      | None \<Rightarrow> (case strip_prefix ''updated:'' line of Some v \<Rightarrow> p\<lparr>pm_updated := trim v\<rparr> | None \<Rightarrow> p))"

definition closing_fence :: string where
  "closing_fence = [CHR 0x0A] @ ''---'' @ [CHR 0x0A]"

definition parse_memory_frontmatter :: "string \<Rightarrow> parsed_memory" where
  "parse_memory_frontmatter content =
     (let p = \<lparr>pm_description = ''(no description)'', pm_updated = [], pm_body = content\<rparr>
      in case strip_prefix (''---'' @ [CHR 0x0A]) content of
           None \<Rightarrow> p
         | Some rest \<Rightarrow>
             (case split_once closing_fence rest of
                None \<Rightarrow> p
              | Some (front, body) \<Rightarrow>
                  (fold parse_field (rust_lines front) p)\<lparr>pm_body := dropWhile (\<lambda>c. c = CHR 0x0A) body\<rparr>))"

section \<open>The table\<close>

record memory_row =
  mr_id :: uuid
  mr_path :: string
  mr_content :: string
  mr_version :: int
  mr_created_at :: timestamp
  mr_updated_at :: timestamp
  mr_updated_by :: "string option"

record memory_record =
  rc_path :: string
  rc_content :: string
  rc_version :: int

definition record_from_row :: "memory_row \<Rightarrow> memory_record" where
  "record_from_row r = \<lparr>rc_path = mr_path r, rc_content = mr_content r, rc_version = mr_version r\<rparr>"

type_synonym mem = "memory_row list"

text \<open>
  \<open>path LIKE '<prefix>%'\<close>: SQLite compares ASCII letters without case; the prefixes hold none of the
  wild cards (an identifier prints as hexadecimal digits and hyphens).
\<close>

definition like_prefix :: "string \<Rightarrow> string \<Rightarrow> bool" where
  "like_prefix p path \<longleftrightarrow> prefix (to_ascii_lowercase p) (to_ascii_lowercase path)"

definition get_memory_document :: "string \<Rightarrow> mem \<Rightarrow> memory_record option" where
  "get_memory_document path rows = map_option record_from_row (find (\<lambda>r. mr_path r = path) rows)"

definition list_memory_documents_by_prefix :: "string \<Rightarrow> mem \<Rightarrow> memory_record list" where
  "list_memory_documents_by_prefix p rows =
     map record_from_row (sort_by (\<lambda>a b. bytes_le (mr_path a) (mr_path b)) (filter (\<lambda>r. like_prefix p (mr_path r)) rows))"

definition version_check :: "string \<Rightarrow> int option \<Rightarrow> int \<Rightarrow> store_error + unit" where
  "version_check path if_version current =
     (case if_version of
        Some v \<Rightarrow> if 0 < v \<and> v \<noteq> current then Inl (MemoryVersionConflict path current v) else Inr ()
      | None \<Rightarrow> Inr ())"

definition upsert_memory_document ::
  "uuid \<times> timestamp \<Rightarrow> string \<Rightarrow> string \<Rightarrow> string option \<Rightarrow> int option \<Rightarrow> mem \<Rightarrow> store_error + (memory_record \<times> mem)" where
  "upsert_memory_document draw path content updated_by if_version rows =
     (case find (\<lambda>r. mr_path r = path) rows of
        Some old \<Rightarrow>
          tx_bind (version_check path if_version (mr_version old)) (\<lambda>_.
            Inr (\<lparr>rc_path = path, rc_content = content, rc_version = mr_version old + 1\<rparr>,
                 update_rows (\<lambda>r. mr_id r = mr_id old)
                   (\<lambda>r. r\<lparr>mr_content := content, mr_version := mr_version old + 1, mr_updated_at := snd draw,
                          mr_updated_by := updated_by\<rparr>) rows))
      | None \<Rightarrow>
          (if fst draw \<in> mr_id ` set rows then Inl constraint
           else Inr (\<lparr>rc_path = path, rc_content = content, rc_version = 1\<rparr>,
                     rows @ [\<lparr>mr_id = fst draw, mr_path = path, mr_content = content, mr_version = 1,
                              mr_created_at = snd draw, mr_updated_at = snd draw, mr_updated_by = updated_by\<rparr>])))"

section \<open>The index of a namespace\<close>

record index_entry =
  ie_filename :: string
  ie_description :: string
  ie_updated :: string

definition entry_of :: "string \<Rightarrow> memory_row \<Rightarrow> index_entry" where
  "entry_of p r =
     (let front = parse_memory_frontmatter (mr_content r)
      in \<lparr>ie_filename = (case strip_prefix p (mr_path r) of Some f \<Rightarrow> f | None \<Rightarrow> mr_path r),
          ie_description = pm_description front, ie_updated = pm_updated front\<rparr>)"

definition entry_le :: "index_entry \<Rightarrow> index_entry \<Rightarrow> bool" where
  "entry_le a b \<longleftrightarrow>
     (if ie_updated a = ie_updated b then bytes_le (ie_filename a) (ie_filename b)
      else bytes_le (ie_updated b) (ie_updated a))"

definition em_dash :: string where
  "em_dash = [CHR 0xE2, CHR 0x80, CHR 0x94]"

definition memory_index_header :: string where
  "memory_index_header = ''<!-- auto-generated by memory_write '' @ em_dash @ '' do not edit manually -->'' @ [CHR 0x0A]"

definition trim_md :: "string \<Rightarrow> string" where
  "trim_md f = rev (strip_any [rev ''.md''] (rev f))"

definition entry_line :: "index_entry \<Rightarrow> string" where
  "entry_line e = ''- ['' @ trim_md (ie_filename e) @ '']('' @ ie_filename e @ '') '' @ em_dash @ '' '' @ ie_description e @ [CHR 0x0A]"

definition index_rows :: "string \<Rightarrow> string \<Rightarrow> mem \<Rightarrow> memory_row list" where
  "index_rows p index rows =
     sort_by (\<lambda>a b. bytes_le (mr_path a) (mr_path b)) (filter (\<lambda>r. like_prefix p (mr_path r) \<and> mr_path r \<noteq> index) rows)"

definition index_body :: "string \<Rightarrow> string \<Rightarrow> mem \<Rightarrow> string" where
  "index_body p index rows =
     memory_index_header @ concat (map entry_line (sort_by entry_le (map (entry_of p) (index_rows p index rows))))"

definition regenerate_memory_index ::
  "(uuid \<Rightarrow> string) \<Rightarrow> uuid \<times> timestamp \<Rightarrow> memory_namespace \<Rightarrow> string option \<Rightarrow> mem \<Rightarrow> store_error + (memory_record \<times> mem)" where
  "regenerate_memory_index uuid_text draw ns updated_by rows =
     (let body = index_body (ns_prefix uuid_text ns) (index_path uuid_text ns) rows;
          lines = length (rust_lines body)
      in if lines > max_index_lines then Inl (MemoryIndexFull lines max_index_lines)
         else upsert_memory_document draw (index_path uuid_text ns) body updated_by None rows)"

definition namespace_bytes :: "string \<Rightarrow> mem \<Rightarrow> int" where
  "namespace_bytes p rows = int (sum_list (map (length \<circ> mr_content) (filter (\<lambda>r. like_prefix p (mr_path r)) rows)))"

definition enforce_namespace_size :: "string \<Rightarrow> mem \<Rightarrow> store_error + unit" where
  "enforce_namespace_size p rows =
     (if namespace_bytes p rows > max_namespace_bytes
      then Inl (MemoryNamespaceFull (namespace_bytes p rows) max_namespace_bytes) else Inr ())"

section \<open>Methods\<close>

record memory_document =
  md_body :: string
  md_version :: int

record memory_topic =
  mt_type :: string
  mt_topic :: string
  mt_description :: string
  mt_updated :: string
  mt_body :: string
  mt_path :: string
  mt_version :: int

record memory_document_entry =
  mde_path :: string
  mde_body :: string
  mde_version :: int

definition get_memory_index :: "(uuid \<Rightarrow> string) \<Rightarrow> memory_namespace \<Rightarrow> mem \<Rightarrow> memory_document" where
  "get_memory_index uuid_text ns rows =
     (case get_memory_document (index_path uuid_text ns) rows of
        Some page \<Rightarrow> \<lparr>md_body = rc_content page, md_version = rc_version page\<rparr>
      | None \<Rightarrow> \<lparr>md_body = [], md_version = 0\<rparr>)"

definition topic_from_page :: "string \<Rightarrow> string \<Rightarrow> memory_record \<Rightarrow> memory_topic" where
  "topic_from_page memory_type topic page =
     (let front = parse_memory_frontmatter (rc_content page)
      in \<lparr>mt_type = memory_type, mt_topic = topic, mt_description = pm_description front, mt_updated = pm_updated front,
          mt_body = rc_content page, mt_path = rc_path page, mt_version = rc_version page\<rparr>)"

definition get_memory_topic ::
  "(uuid \<Rightarrow> string) \<Rightarrow> memory_namespace \<Rightarrow> string \<Rightarrow> string \<Rightarrow> mem \<Rightarrow> store_error + memory_topic option" where
  "get_memory_topic uuid_text ns memory_type topic rows =
     tx_bind (validate_memory_type memory_type) (\<lambda>_.
     tx_bind (validate_topic_slug topic) (\<lambda>_.
       Inr (map_option (topic_from_page memory_type topic)
              (get_memory_document (topic_path uuid_text ns memory_type topic) rows))))"

definition list_memory_namespace :: "(uuid \<Rightarrow> string) \<Rightarrow> memory_namespace \<Rightarrow> mem \<Rightarrow> memory_document_entry list" where
  "list_memory_namespace uuid_text ns rows =
     map (\<lambda>page. \<lparr>mde_path = rc_path page, mde_body = rc_content page, mde_version = rc_version page\<rparr>)
       (list_memory_documents_by_prefix (ns_prefix uuid_text ns) rows)"

definition write_memory_topic ::
  "(uuid \<Rightarrow> string) \<Rightarrow> (nat \<Rightarrow> uuid \<times> timestamp) \<Rightarrow> string \<Rightarrow> memory_namespace \<Rightarrow> string \<Rightarrow> string \<Rightarrow> string \<Rightarrow> string
     \<Rightarrow> string option \<Rightarrow> int option \<Rightarrow> mem \<Rightarrow> store_error + (memory_topic \<times> mem)" where
  "write_memory_topic uuid_text draw today ns memory_type topic description body updated_by if_version rows =
     tx_bind (validate_memory_type memory_type) (\<lambda>_.
     tx_bind (validate_topic_slug topic) (\<lambda>_.
     tx_bind (validate_description description) (\<lambda>_.
       if length body > max_topic_body_bytes then Inl (MemoryTopicTooLarge (length body) max_topic_body_bytes)
       else (let content = render_topic_content description memory_type today body;
                 path = topic_path uuid_text ns memory_type topic
             in tx_bind (upsert_memory_document (draw 0) path content updated_by if_version rows) (\<lambda>(page, rows1).
                tx_bind (enforce_namespace_size (ns_prefix uuid_text ns) rows1) (\<lambda>_.
                tx_bind (regenerate_memory_index uuid_text (draw 1) ns updated_by rows1) (\<lambda>(_, rows2).
                tx_bind (enforce_namespace_size (ns_prefix uuid_text ns) rows2) (\<lambda>_.
                  Inr (\<lparr>mt_type = memory_type, mt_topic = topic, mt_description = description, mt_updated = today,
                        mt_body = content, mt_path = path, mt_version = rc_version page\<rparr>, rows2)))))))))"

definition move_memory_topic ::
  "(uuid \<Rightarrow> string) \<Rightarrow> (nat \<Rightarrow> uuid \<times> timestamp) \<Rightarrow> string \<Rightarrow> memory_namespace \<Rightarrow> memory_namespace \<Rightarrow> string \<Rightarrow> string
     \<Rightarrow> string option \<Rightarrow> mem \<Rightarrow> store_error + ((string \<times> string) \<times> mem)" where
  "move_memory_topic uuid_text draw today from to memory_type topic updated_by rows =
     tx_bind (validate_memory_type memory_type) (\<lambda>_.
     tx_bind (validate_topic_slug topic) (\<lambda>_.
       if from = to then Inl MemoryMoveSameNamespace
       else (let from_path = topic_path uuid_text from memory_type topic;
                 to_path = topic_path uuid_text to memory_type topic
             in case get_memory_document from_path rows of
                  None \<Rightarrow> Inl (MemoryTopicNotFound from_path)
                | Some source \<Rightarrow>
                    (let front = parse_memory_frontmatter (rc_content source);
                         content = render_topic_content (pm_description front) memory_type today (pm_body front)
                     in tx_bind (upsert_memory_document (draw 0) to_path content updated_by None rows) (\<lambda>(_, rows1).
                        tx_bind (regenerate_memory_index uuid_text (draw 1) from updated_by
                                    (filter (\<lambda>r. mr_path r \<noteq> from_path) rows1)) (\<lambda>(_, rows2).
                        tx_bind (regenerate_memory_index uuid_text (draw 2) to updated_by rows2) (\<lambda>(_, rows3).
                        tx_bind (enforce_namespace_size (ns_prefix uuid_text from) rows3) (\<lambda>_.
                        tx_bind (enforce_namespace_size (ns_prefix uuid_text to) rows3) (\<lambda>_.
                          Inr ((from_path, to_path), rows3))))))))))"

section \<open>The front matter round trip\<close>

text \<open>The first occurrence of a pattern that starts with a line feed, past a line without one.\<close>

lemma split_once_skip:
  "c \<notin> set a \<Longrightarrow> split_once (c # p) (a @ b) = map_option (\<lambda>(x, y). (a @ x, y)) (split_once (c # p) b)"
proof (induction a)
  case (Cons d a)
  then have "\<not> prefix (c # p) (d # a @ b)" by auto
  with Cons show ?case by (auto simp: option.map_comp comp_def case_prod_beta intro!: option.map_cong0)
qed (simp add: option.map_id)

lemma split_once_here: "split_once p (p @ b) = Some ([], b)"
proof (cases "p @ b")
  case (Cons a l)
  then have "prefix p (a # l)" "drop (length p) (a # l) = b" by (metis prefixI, metis append_eq_conv_conj)
  then show ?thesis unfolding Cons by simp
qed simp

definition one_line :: "string \<Rightarrow> bool" where
  "one_line s \<longleftrightarrow> CHR 0x0A \<notin> set s \<and> CHR 0x0D \<notin> set s"

lemma front_split:
  assumes "one_line d" "one_line t" "one_line u"
  shows "split_once closing_fence (''description: '' @ d @ [CHR 0x0A] @ ''type: '' @ t @ [CHR 0x0A] @ ''updated: '' @ u @ [CHR 0x0A] @ ''---'' @ [CHR 0x0A, CHR 0x0A] @ body)
       = Some (''description: '' @ d @ [CHR 0x0A] @ ''type: '' @ t @ [CHR 0x0A] @ ''updated: '' @ u, CHR 0x0A # body)"
proof -
  let ?n = "CHR 0x0A" and ?p = "''---'' @ [CHR 0x0A]"
  have f: "closing_fence = ?n # ?p" by (simp add: closing_fence_def)
  have 3: "split_once closing_fence (?n # ''---'' @ [?n, ?n] @ body) = Some ([], ?n # body)"
    using split_once_here [of closing_fence "?n # body"] by (simp add: closing_fence_def)
  have u: "split_once closing_fence (''updated: '' @ u @ ?n # ''---'' @ [?n, ?n] @ body) = Some (''updated: '' @ u, ?n # body)"
    using split_once_skip [of ?n "''updated: '' @ u" ?p "?n # ''---'' @ [?n, ?n] @ body"] assms(3) 3 by (simp add: f one_line_def)
  then have 2: "split_once closing_fence (?n # ''updated: '' @ u @ ?n # ''---'' @ [?n, ?n] @ body) = Some (?n # ''updated: '' @ u, ?n # body)"
    by (simp add: f)
  have t: "split_once closing_fence (''type: '' @ t @ ?n # ''updated: '' @ u @ ?n # ''---'' @ [?n, ?n] @ body)
      = Some (''type: '' @ t @ ?n # ''updated: '' @ u, ?n # body)"
    using split_once_skip [of ?n "''type: '' @ t" ?p "?n # ''updated: '' @ u @ ?n # ''---'' @ [?n, ?n] @ body"] assms(2) 2 by (simp add: f one_line_def)
  then have 1: "split_once closing_fence (?n # ''type: '' @ t @ ?n # ''updated: '' @ u @ ?n # ''---'' @ [?n, ?n] @ body)
      = Some (?n # ''type: '' @ t @ ?n # ''updated: '' @ u, ?n # body)"
    by (simp add: f)
  show ?thesis
    using split_once_skip [of ?n "''description: '' @ d" ?p "?n # ''type: '' @ t @ ?n # ''updated: '' @ u @ ?n # ''---'' @ [?n, ?n] @ body"] assms(1) 1
    by (simp add: f one_line_def)
qed

lemma front_lines:
  assumes "one_line d" "one_line t" "one_line u"
  shows "rust_lines (''description: '' @ d @ [CHR 0x0A] @ ''type: '' @ t @ [CHR 0x0A] @ ''updated: '' @ u) = [''description: '' @ d, ''type: '' @ t, ''updated: '' @ u]"
proof -
  have l: "rust_lines (x @ CHR 0x0A # b) = x # rust_lines b" if "one_line x" for x b
    using that rust_lines_line [of x b] strip_cr_id [of x] by (simp add: one_line_def)
  have "one_line (''description: '' @ d)" "one_line (''type: '' @ t)" "one_line (''updated: '' @ u)"
    using assms by (simp_all add: one_line_def)
  then show ?thesis
    using l [of "''description: '' @ d"] l [of "''type: '' @ t"] rust_lines_last [of "''updated: '' @ u"] by (simp add: one_line_def)
qed

lemma trim_space: "trim (CHR '' '' # s) = trim s"
proof -
  have "strip_any ws_seqs (CHR '' '' # s) = strip_any ws_seqs s"
    by (subst strip_any.simps) (simp add: ws_seqs_def)
  then show ?thesis by (simp add: trim_def trim_start_def)
qed

lemma parse_render:
  assumes "one_line d" "one_line t" "one_line u"
  shows "parse_memory_frontmatter (render_topic_content d t u body)
       = \<lparr>pm_description = trim d, pm_updated = trim u, pm_body = dropWhile (\<lambda>c. c = CHR 0x0A) body\<rparr>"
proof -
  have s: "strip_prefix (''---'' @ [CHR 0x0A]) (render_topic_content d t u body)
      = Some (''description: '' @ d @ [CHR 0x0A] @ ''type: '' @ t @ [CHR 0x0A] @ ''updated: '' @ u @ [CHR 0x0A] @ ''---'' @ [CHR 0x0A, CHR 0x0A] @ body)"
    by (simp add: strip_prefix_Some_iff render_topic_content_def)
  have "strip_prefix ''description:'' (''description: '' @ d) = Some (CHR '' '' # d)"
    "strip_prefix ''description:'' (''type: '' @ t) = None" "strip_prefix ''updated:'' (''type: '' @ t) = None"
    "strip_prefix ''description:'' (''updated: '' @ u) = None" "strip_prefix ''updated:'' (''updated: '' @ u) = Some (CHR '' '' # u)"
    by (simp_all add: strip_prefix_def)
  then show ?thesis
    unfolding parse_memory_frontmatter_def s using front_split [OF assms, of body] front_lines [OF assms]
    by (simp add: parse_field_def trim_space)
qed

section \<open>Namespaces do not overlap\<close>

text \<open>
  What is used of the printed identifiers: distinct identifiers print differently, in lower case and
  without a slash.
\<close>

definition uuid_printing :: "(uuid \<Rightarrow> string) \<Rightarrow> bool" where
  "uuid_printing ut \<longleftrightarrow> inj ut \<and> (\<forall>i. CHR ''/'' \<notin> set (ut i) \<and> to_ascii_lowercase (ut i) = ut i)"

lemma segment_inj:
  assumes "c \<notin> set u" "c \<notin> set v" "prefix (u @ c # x) (v @ c # y)"
  shows "u = v"
  using assms
proof (induction u arbitrary: v)
  case Nil then show ?case by (cases v) auto
next
  case (Cons a u) then show ?case by (cases v) auto
qed

lemma ns_prefix_lower: "uuid_printing ut \<Longrightarrow> to_ascii_lowercase (ns_prefix ut ns) = ns_prefix ut ns"
  by (cases ns) (simp_all add: uuid_printing_def to_ascii_lowercase_def to_ascii_lowercase_char_def)

lemma like_own: "like_prefix p (p @ f)"
  by (simp add: like_prefix_def)

lemma like_namespace_iff:
  assumes "uuid_printing ut"
  shows "like_prefix (ns_prefix ut ns) (ns_prefix ut ns' @ f) \<longleftrightarrow> ns = ns'"
proof
  assume "like_prefix (ns_prefix ut ns) (ns_prefix ut ns' @ f)"
  then have p: "prefix (ns_prefix ut ns) (ns_prefix ut ns' @ to_ascii_lowercase f)"
    using ns_prefix_lower [OF assms] by (simp add: like_prefix_def)
  have sl: "CHR ''/'' \<notin> set (ut i)" for i using assms by (simp add: uuid_printing_def)
  have eq: "i = j" if "prefix (ut i @ CHR ''/'' # x) (ut j @ CHR ''/'' # y)" for i j x y
    using segment_inj [OF sl sl that] assms by (auto simp: uuid_printing_def dest: injD)
  show "ns = ns'"
  proof (cases ns; cases ns')
    fix i j assume "ns = NsAgent i" "ns' = NsAgent j"
    with p eq [of i "''memory/''" j "''memory/'' @ to_ascii_lowercase f"] show ?thesis by simp
  next
    fix i j assume "ns = NsChannel i" "ns' = NsChannel j"
    with p eq [of i "''notes/''" j "''notes/'' @ to_ascii_lowercase f"] show ?thesis by simp
  qed (use p in auto)
qed (simp add: like_own)

lemmas path_defs = topic_path_def index_path_def

lemma topic_not_index: "t \<in> set memory_types \<Longrightarrow> topic_path ut ns t x \<noteq> index_path ut ns"
  by (auto simp: path_defs memory_types_def memory_index_filename_def)

lemma path_namespace:
  assumes "uuid_printing ut"
  shows "like_prefix (ns_prefix ut ns) (topic_path ut ns' t x) \<longleftrightarrow> ns = ns'" "like_prefix (ns_prefix ut ns) (index_path ut ns') \<longleftrightarrow> ns = ns'"
  unfolding path_defs by (rule like_namespace_iff [OF assms])+

section \<open>Writing one document\<close>

definition mem_wf :: "mem \<Rightarrow> bool" where
  "mem_wf rows \<longleftrightarrow> distinct (map mr_id rows) \<and> distinct (map mr_path rows) \<and> (\<forall>r \<in> set rows. 1 \<le> mr_version r)"

definition others_than :: "string \<Rightarrow> mem \<Rightarrow> mem" where
  "others_than path rows = filter (\<lambda>r. mr_path r \<noteq> path) rows"

lemma get_other:
  assumes "q \<noteq> path" "others_than path a = others_than path b"
  shows "get_memory_document q a = get_memory_document q b"
proof -
  have "find (\<lambda>r. mr_path r = q) (others_than path rows) = find (\<lambda>r. mr_path r = q) rows" for rows
    using assms(1) by (induction rows) (auto simp: others_than_def)
  then have "find (\<lambda>r. mr_path r = q) a = find (\<lambda>r. mr_path r = q) b"
    using arg_cong [OF assms(2), of "find (\<lambda>r. mr_path r = q)"] by (simp only:)
  then show ?thesis by (simp add: get_memory_document_def)
qed

lemma upsert_cases:
  assumes "mem_wf rows" "upsert_memory_document draw path content by iv rows = Inr (page, rows')"
  obtains (old) old where "old \<in> set rows" "mr_path old = path" "version_check path iv (mr_version old) = Inr ()"
      "rows' = map (\<lambda>r. if r = old then r\<lparr>mr_content := content, mr_version := mr_version old + 1, mr_updated_at := snd draw, mr_updated_by := by\<rparr> else r) rows"
      "page = \<lparr>rc_path = path, rc_content = content, rc_version = mr_version old + 1\<rparr>"
      "get_memory_document path rows = Some (record_from_row old)"
  | (new) r where "path \<notin> mr_path ` set rows" "mr_id r \<notin> mr_id ` set rows" "mr_path r = path" "mr_content r = content" "mr_version r = 1"
      "rows' = rows @ [r]" "page = \<lparr>rc_path = path, rc_content = content, rc_version = 1\<rparr>" "get_memory_document path rows = None"
proof (cases "find (\<lambda>r. mr_path r = path) rows")
  case None
  then have "path \<notin> mr_path ` set rows" by (auto simp: find_None_iff)
  with None assms(2) show ?thesis
    by (intro new) (auto simp: upsert_memory_document_def get_memory_document_def split: if_splits)
next
  case (Some old)
  then have o: "old \<in> set rows" "mr_path old = path" by (auto dest: find_Some_set)
  have "mr_id r = mr_id old \<longleftrightarrow> r = old" if "r \<in> set rows" for r
    using assms(1) that o(1) by (auto simp: mem_wf_def distinct_map dest: inj_onD)
  then have "update_rows (\<lambda>r. mr_id r = mr_id old) f rows = map (\<lambda>r. if r = old then f r else r) rows" for f
    by (simp add: update_rows_def)
  with o Some assms(2) show ?thesis
    by (intro old [of old]) (auto simp: upsert_memory_document_def get_memory_document_def tx_bind_Inr_iff)
qed

lemma upsert_ok:
  assumes "mem_wf rows" "upsert_memory_document draw path content by iv rows = Inr (page, rows')"
  shows "mem_wf rows'" "get_memory_document path rows' = Some page" "others_than path rows' = others_than path rows"
    "rc_content page = content" "rc_path page = path"
    "rc_version page = (case get_memory_document path rows of Some old \<Rightarrow> rc_version old + 1 | None \<Rightarrow> 1)"
proof -
  have "mem_wf rows' \<and> get_memory_document path rows' = Some page \<and> others_than path rows' = others_than path rows
    \<and> rc_content page = content \<and> rc_path page = path
    \<and> rc_version page = (case get_memory_document path rows of Some old \<Rightarrow> rc_version old + 1 | None \<Rightarrow> 1)"
    using assms
  proof (cases rule: upsert_cases)
    case (old old)
    let ?f = "\<lambda>r. if r = old then r\<lparr>mr_content := content, mr_version := mr_version old + 1, mr_updated_at := snd draw, mr_updated_by := by\<rparr> else r"
    have keys: "map mr_id rows' = map mr_id rows" "map mr_path rows' = map mr_path rows" by (simp_all add: old(4))
    have "1 \<le> mr_version old" using assms(1) old(1) by (simp add: mem_wf_def)
    then have wf: "mem_wf rows'" using assms(1) keys unfolding mem_wf_def keys by (auto simp: old(4))
    have "?f old \<in> set rows'" using old(1) by (auto simp: old(4))
    then have "find (\<lambda>r. mr_path r = path) rows' = Some (?f old)"
      using wf old(2) by (intro find_key) (simp_all add: mem_wf_def)
    then have "get_memory_document path rows' = Some page" by (simp add: get_memory_document_def record_from_row_def old(2,5))
    moreover have "others_than path rows' = others_than path rows"
    proof -
      have "filter (\<lambda>r. mr_path r \<noteq> path) (map ?f xs) = filter (\<lambda>r. mr_path r \<noteq> path) xs" for xs
        using old(2) by (induction xs) auto
      then show ?thesis by (simp add: others_than_def old(4))
    qed
    ultimately show ?thesis using wf old(5,6) by (simp add: record_from_row_def)
  next
    case (new r)
    have "find (\<lambda>r. mr_path r = path) (rows @ [r]) = Some r"
      using new(1,3) assms(1) by (intro find_key) (simp_all add: mem_wf_def)
    then show ?thesis
      using assms(1) new by (auto simp: mem_wf_def get_memory_document_def record_from_row_def others_than_def)
  qed
  then show "mem_wf rows'" "get_memory_document path rows' = Some page" "others_than path rows' = others_than path rows"
    "rc_content page = content" "rc_path page = path"
    "rc_version page = (case get_memory_document path rows of Some old \<Rightarrow> rc_version old + 1 | None \<Rightarrow> 1)"
    by blast+
qed

section \<open>The index is fresh\<close>

definition index_fresh :: "(uuid \<Rightarrow> string) \<Rightarrow> memory_namespace \<Rightarrow> mem \<Rightarrow> bool" where
  "index_fresh ut ns rows \<longleftrightarrow> (\<exists>page. get_memory_document (index_path ut ns) rows = Some page
     \<and> rc_content page = index_body (ns_prefix ut ns) (index_path ut ns) rows
     \<and> length (rust_lines (rc_content page)) \<le> max_index_lines)"

lemma index_body_cong:
  assumes "filter (\<lambda>r. like_prefix p (mr_path r) \<and> mr_path r \<noteq> i) a = filter (\<lambda>r. like_prefix p (mr_path r) \<and> mr_path r \<noteq> i) b"
  shows "index_body p i a = index_body p i b"
  using assms by (simp add: index_body_def index_rows_def)

lemma filter_others:
  assumes "others_than path a = others_than path b" "\<And>r. q r \<Longrightarrow> mr_path r \<noteq> path"
  shows "filter q a = filter q b"
proof -
  have "filter q rows = filter q (others_than path rows)" for rows
    using assms(2) by (auto simp: others_than_def intro!: filter_cong)
  then show ?thesis using assms(1) by metis
qed

lemma index_fresh_frame:
  assumes "index_fresh ut ns a" "others_than path a = others_than path b" "\<not> like_prefix (ns_prefix ut ns) path" "uuid_printing ut"
  shows "index_fresh ut ns b"
proof -
  have "path \<noteq> index_path ut ns" using assms(3) path_namespace [OF assms(4)] by auto
  then have "get_memory_document (index_path ut ns) b = get_memory_document (index_path ut ns) a"
    using get_other [OF _ assms(2)] by metis
  moreover have "index_body (ns_prefix ut ns) (index_path ut ns) b = index_body (ns_prefix ut ns) (index_path ut ns) a"
    using assms(3) by (intro index_body_cong filter_others [OF assms(2) [symmetric]]) auto
  ultimately show ?thesis using assms(1) by (simp add: index_fresh_def)
qed

lemma regenerate_ok:
  assumes "mem_wf rows" "regenerate_memory_index ut draw ns by rows = Inr (page, rows')"
  shows "mem_wf rows'" "others_than (index_path ut ns) rows' = others_than (index_path ut ns) rows" "index_fresh ut ns rows'"
proof -
  let ?body = "index_body (ns_prefix ut ns) (index_path ut ns) rows"
  have up: "upsert_memory_document draw (index_path ut ns) ?body by None rows = Inr (page, rows')"
    and len: "length (rust_lines ?body) \<le> max_index_lines"
    using assms(2) by (auto simp: regenerate_memory_index_def Let_def split: if_splits)
  note u = upsert_ok [OF assms(1) up]
  show "mem_wf rows'" "others_than (index_path ut ns) rows' = others_than (index_path ut ns) rows" by (fact u(1,3))+
  have "index_body (ns_prefix ut ns) (index_path ut ns) rows' = ?body"
    by (intro index_body_cong filter_others [OF u(3)]) auto
  with u(2,4) len show "index_fresh ut ns rows'" by (simp add: index_fresh_def)
qed

lemma bytes_frame:
  assumes "others_than path a = others_than path b" "\<not> like_prefix p path"
  shows "namespace_bytes p a = namespace_bytes p b"
  using filter_others [OF assms(1), of "\<lambda>r. like_prefix p (mr_path r)"] assms(2) unfolding namespace_bytes_def by metis

section \<open>What the methods do\<close>

lemma validate_ok:
  "validate_memory_type t = Inr u \<longleftrightarrow> t \<in> set memory_types"
  "validate_topic_slug x = Inr u \<longleftrightarrow> x \<noteq> [] \<and> length x \<le> max_topic_slug_len \<and> list_all slug_byte x"
  "validate_description d = Inr u \<longleftrightarrow> char_count d \<le> max_description_len \<and> one_line d"
  "enforce_namespace_size p rows = Inr u \<longleftrightarrow> namespace_bytes p rows \<le> max_namespace_bytes"
  by (auto simp: validate_memory_type_def validate_topic_slug_def validate_description_def enforce_namespace_size_def one_line_def)

lemma write_memory_topicE:
  assumes "write_memory_topic ut draw today ns ty x d body by iv rows = Inr (t, rows')"
  obtains page page2 rows1 where
    "ty \<in> set memory_types" "validate_topic_slug x = Inr ()" "one_line d" "length body \<le> max_topic_body_bytes"
    "upsert_memory_document (draw 0) (topic_path ut ns ty x) (render_topic_content d ty today body) by iv rows = Inr (page, rows1)"
    "regenerate_memory_index ut (draw 1) ns by rows1 = Inr (page2, rows')"
    "namespace_bytes (ns_prefix ut ns) rows' \<le> max_namespace_bytes"
    "t = \<lparr>mt_type = ty, mt_topic = x, mt_description = d, mt_updated = today, mt_body = render_topic_content d ty today body,
          mt_path = topic_path ut ns ty x, mt_version = rc_version page\<rparr>"
proof -
  obtain page page2 rows1 where r:
    "validate_memory_type ty = Inr ()" "validate_topic_slug x = Inr ()" "validate_description d = Inr ()"
    "length body \<le> max_topic_body_bytes"
    "upsert_memory_document (draw 0) (topic_path ut ns ty x) (render_topic_content d ty today body) by iv rows = Inr (page, rows1)"
    "regenerate_memory_index ut (draw 1) ns by rows1 = Inr (page2, rows')"
    "enforce_namespace_size (ns_prefix ut ns) rows' = Inr ()"
    "t = \<lparr>mt_type = ty, mt_topic = x, mt_description = d, mt_updated = today, mt_body = render_topic_content d ty today body,
          mt_path = topic_path ut ns ty x, mt_version = rc_version page\<rparr>"
    using assms by (auto simp: write_memory_topic_def Let_def tx_bind_Inr_iff split: if_splits)
  then show ?thesis using that by (simp add: validate_ok)
qed

lemma move_memory_topicE:
  assumes "move_memory_topic ut draw today from to ty x by rows = Inr (res, rows')"
  obtains source page page2 page3 rows1 rows2 where
    "ty \<in> set memory_types" "from \<noteq> to" "get_memory_document (topic_path ut from ty x) rows = Some source"
    "upsert_memory_document (draw 0) (topic_path ut to ty x)
       (render_topic_content (pm_description (parse_memory_frontmatter (rc_content source))) ty today
          (pm_body (parse_memory_frontmatter (rc_content source)))) by None rows = Inr (page, rows1)"
    "regenerate_memory_index ut (draw 1) from by (others_than (topic_path ut from ty x) rows1) = Inr (page2, rows2)"
    "regenerate_memory_index ut (draw 2) to by rows2 = Inr (page3, rows')"
    "namespace_bytes (ns_prefix ut from) rows' \<le> max_namespace_bytes" "namespace_bytes (ns_prefix ut to) rows' \<le> max_namespace_bytes"
    "res = (topic_path ut from ty x, topic_path ut to ty x)"
proof -
  obtain source where g: "get_memory_document (topic_path ut from ty x) rows = Some source" and t: "ty \<in> set memory_types" "from \<noteq> to"
    using assms by (auto simp: move_memory_topic_def Let_def tx_bind_Inr_iff validate_ok split: if_splits option.splits)
  let ?f = "parse_memory_frontmatter (rc_content source)"
  obtain page page2 page3 rows1 rows2 where
    "upsert_memory_document (draw 0) (topic_path ut to ty x) (render_topic_content (pm_description ?f) ty today (pm_body ?f)) by None rows = Inr (page, rows1)"
    "regenerate_memory_index ut (draw 1) from by (others_than (topic_path ut from ty x) rows1) = Inr (page2, rows2)"
    "regenerate_memory_index ut (draw 2) to by rows2 = Inr (page3, rows')"
    "namespace_bytes (ns_prefix ut from) rows' \<le> max_namespace_bytes" "namespace_bytes (ns_prefix ut to) rows' \<le> max_namespace_bytes"
    "res = (topic_path ut from ty x, topic_path ut to ty x)"
    using assms g t(2) by (auto simp: move_memory_topic_def others_than_def Let_def tx_bind_Inr_iff validate_ok)
  with that [OF t g] show ?thesis by blast
qed

lemma mem_wf_others: "mem_wf rows \<Longrightarrow> mem_wf (others_than path rows)"
  by (simp add: mem_wf_def others_than_def distinct_map_filter)

lemma others_than_idem: "others_than path (others_than path rows) = others_than path rows"
  by (simp add: others_than_def)

definition ns_ok :: "(uuid \<Rightarrow> string) \<Rightarrow> memory_namespace \<Rightarrow> mem \<Rightarrow> bool" where
  "ns_ok ut ns rows \<longleftrightarrow>
     ((\<exists>r \<in> set rows. like_prefix (ns_prefix ut ns) (mr_path r))
        \<longrightarrow> index_fresh ut ns rows \<and> namespace_bytes (ns_prefix ut ns) rows \<le> max_namespace_bytes)"

definition memory_ok :: "(uuid \<Rightarrow> string) \<Rightarrow> mem \<Rightarrow> bool" where
  "memory_ok ut rows \<longleftrightarrow> mem_wf rows \<and> (\<forall>ns. ns_ok ut ns rows)"

lemma ns_ok_frame:
  assumes "ns_ok ut ns a" "others_than path a = others_than path b" "\<not> like_prefix (ns_prefix ut ns) path" "uuid_printing ut"
  shows "ns_ok ut ns b"
proof -
  have "filter (\<lambda>r. like_prefix (ns_prefix ut ns) (mr_path r)) a = filter (\<lambda>r. like_prefix (ns_prefix ut ns) (mr_path r)) b"
    using assms(3) by (intro filter_others [OF assms(2)]) auto
  from arg_cong [OF this, of set] have "(\<exists>r \<in> set a. like_prefix (ns_prefix ut ns) (mr_path r)) \<longleftrightarrow> (\<exists>r \<in> set b. like_prefix (ns_prefix ut ns) (mr_path r))"
    by auto
  with assms index_fresh_frame [OF _ assms(2-4)] bytes_frame [OF assms(2,3)] show ?thesis by (simp add: ns_ok_def)
qed

lemma write_memory_ok:
  assumes "memory_ok ut rows" "uuid_printing ut" "write_memory_topic ut draw today ns ty x d body by iv rows = Inr (t, rows')"
  shows "memory_ok ut rows'"
proof -
  obtain page page2 rows1 where
    u: "upsert_memory_document (draw 0) (topic_path ut ns ty x) (render_topic_content d ty today body) by iv rows = Inr (page, rows1)"
    and r: "regenerate_memory_index ut (draw 1) ns by rows1 = Inr (page2, rows')"
    and b: "namespace_bytes (ns_prefix ut ns) rows' \<le> max_namespace_bytes"
    using assms(3) by (rule write_memory_topicE)
  have wf: "mem_wf rows" using assms(1) by (simp add: memory_ok_def)
  note u' = upsert_ok [OF wf u]
  note r' = regenerate_ok [OF u'(1) r]
  have "ns_ok ut ns' rows'" for ns'
  proof (cases "ns' = ns")
    case True
    then show ?thesis using r'(3) b by (simp add: ns_ok_def)
  next
    case False
    have "ns_ok ut ns' rows" using assms(1) by (simp add: memory_ok_def)
    then have "ns_ok ut ns' rows1"
      using False path_namespace [OF assms(2)] by (intro ns_ok_frame [OF _ u'(3) [symmetric] _ assms(2)]) auto
    then show ?thesis
      using False path_namespace [OF assms(2)] by (intro ns_ok_frame [OF _ r'(2) [symmetric] _ assms(2)]) auto
  qed
  with r'(1) show ?thesis by (simp add: memory_ok_def)
qed

lemma move_memory_ok:
  assumes "memory_ok ut rows" "uuid_printing ut" "move_memory_topic ut draw today from to ty x by rows = Inr (res, rows')"
  shows "memory_ok ut rows'"
proof -
  obtain source :: memory_record and page page2 page3 rows1 rows2 where ft: "from \<noteq> to"
    and u: "upsert_memory_document (draw 0) (topic_path ut to ty x)
       (render_topic_content (pm_description (parse_memory_frontmatter (rc_content source))) ty today
          (pm_body (parse_memory_frontmatter (rc_content source)))) by None rows = Inr (page, rows1)"
    and r: "regenerate_memory_index ut (draw 1) from by (others_than (topic_path ut from ty x) rows1) = Inr (page2, rows2)"
    and s: "regenerate_memory_index ut (draw 2) to by rows2 = Inr (page3, rows')"
    and b: "namespace_bytes (ns_prefix ut from) rows' \<le> max_namespace_bytes" "namespace_bytes (ns_prefix ut to) rows' \<le> max_namespace_bytes"
    using assms(3) by (rule move_memory_topicE)
  have wf: "mem_wf rows" using assms(1) by (simp add: memory_ok_def)
  note u' = upsert_ok [OF wf u]
  note r' = regenerate_ok [OF mem_wf_others [OF u'(1)] r]
  note s' = regenerate_ok [OF r'(1) s]
  note pn = path_namespace [OF assms(2)]
  have "ns_ok ut ns rows'" for ns
  proof -
    consider "ns = to" | "ns = from" | "ns \<noteq> to" "ns \<noteq> from" by blast
    then show ?thesis
    proof cases
      case 1
      then show ?thesis using s'(3) b(2) by (simp add: ns_ok_def)
    next
      case 2
      have "index_fresh ut from rows'"
        using ft pn by (intro index_fresh_frame [OF r'(3) s'(2) [symmetric] _ assms(2)]) auto
      then show ?thesis using 2 b(1) by (simp add: ns_ok_def)
    next
      case 3
      have "ns_ok ut ns rows" using assms(1) by (simp add: memory_ok_def)
      then have "ns_ok ut ns rows1" using 3 pn by (intro ns_ok_frame [OF _ u'(3) [symmetric] _ assms(2)]) auto
      then have "ns_ok ut ns (others_than (topic_path ut from ty x) rows1)"
        using 3 pn by (intro ns_ok_frame [OF _ others_than_idem [symmetric] _ assms(2)]) auto
      then have "ns_ok ut ns rows2" using 3 pn by (intro ns_ok_frame [OF _ r'(2) [symmetric] _ assms(2)]) auto
      then show ?thesis using 3 pn by (intro ns_ok_frame [OF _ s'(2) [symmetric] _ assms(2)]) auto
    qed
  qed
  with s'(1) show ?thesis by (simp add: memory_ok_def)
qed

section \<open>The memory table as a system\<close>

inductive mem_step :: "(uuid \<Rightarrow> string) \<Rightarrow> mem \<Rightarrow> mem \<Rightarrow> bool" for ut :: "uuid \<Rightarrow> string" where
  mem_write: "write_memory_topic ut draw today ns ty x d body by iv rows = Inr (t, rows') \<Longrightarrow> mem_step ut rows rows'"
| mem_move: "move_memory_topic ut draw today from to ty x by rows = Inr (res, rows') \<Longrightarrow> mem_step ut rows rows'"

definition mem_start :: "mem \<Rightarrow> bool" where
  "mem_start rows \<longleftrightarrow> rows = []"

interpretation ms: invariant_system mem_start "mem_step ut" "\<lambda>rows. uuid_printing ut \<longrightarrow> memory_ok ut rows" for ut
proof
  show "uuid_printing ut \<longrightarrow> memory_ok ut rows" if "mem_start rows" for rows
    using that by (simp add: mem_start_def memory_ok_def mem_wf_def ns_ok_def)
  show "uuid_printing ut \<longrightarrow> memory_ok ut rows'" if "mem_step ut rows rows'" "uuid_printing ut \<longrightarrow> memory_ok ut rows" for rows rows'
    using that by (auto elim!: mem_step.cases intro: write_memory_ok move_memory_ok)
qed

lemma concat_sublist: "x \<in> set xs \<Longrightarrow> sublist (f x) (concat (map f xs))"
proof (induction xs)
  case (Cons y ys)
  then show ?case by (auto simp: sublist_append)
qed simp

lemma sublist_appendI2: "sublist x b \<Longrightarrow> sublist x (a @ b)"
  by (simp add: sublist_append)

text \<open>
  C33. In every memory table reachable from the empty one by writes and moves: document paths are
  unique; a namespace that holds any document has an index, which has at most 200 lines, lists every
  topic of the namespace with its description and is exactly what regenerating it would give; and
  the namespace holds at most one mebibyte.
\<close>

theorem memory_indexes_fresh:
  assumes "reachable mem_start (mem_step ut) rows" "uuid_printing ut" "r \<in> set rows" "like_prefix (ns_prefix ut ns) (mr_path r)"
    and "body = md_body (get_memory_index ut ns rows)"
  shows "distinct (map mr_path rows) \<and> body = index_body (ns_prefix ut ns) (index_path ut ns) rows \<and> length (rust_lines body) \<le> 200
    \<and> namespace_bytes (ns_prefix ut ns) rows \<le> 1048576
    \<and> (mr_path r = index_path ut ns \<or> sublist (entry_line (entry_of (ns_prefix ut ns) r)) body)"
proof -
  have ok: "mem_wf rows" "ns_ok ut ns rows" using ms.inv_reachable [OF assms(1)] assms(2) by (auto simp: memory_ok_def)
  then obtain page where page: "get_memory_document (index_path ut ns) rows = Some page"
    "rc_content page = index_body (ns_prefix ut ns) (index_path ut ns) rows" "length (rust_lines (rc_content page)) \<le> max_index_lines"
    and bytes: "namespace_bytes (ns_prefix ut ns) rows \<le> max_namespace_bytes"
    using assms(3,4) by (auto simp: ns_ok_def index_fresh_def)
  have body: "body = rc_content page" using assms(5) page(1) by (simp add: get_memory_index_def)
  have "sublist (entry_line (entry_of (ns_prefix ut ns) r)) (index_body (ns_prefix ut ns) (index_path ut ns) rows)"
    if "mr_path r \<noteq> index_path ut ns"
    unfolding index_body_def index_rows_def by (intro sublist_appendI2 concat_sublist) (use that assms(3,4) in auto)
  with page bytes body ok(1) show ?thesis by (auto simp: mem_wf_def max_index_lines_def max_namespace_bytes_def)
qed

text \<open>Witness data: identifiers printed in unary, one written topic.\<close>

definition unary :: "uuid \<Rightarrow> string" where
  "unary n = replicate n (CHR ''a'')"

lemma unary_printing: "uuid_printing unary"
proof -
  have "inj unary" by (rule injI) (metis length_replicate unary_def)
  then show ?thesis by (auto simp: uuid_printing_def unary_def to_ascii_lowercase_def to_ascii_lowercase_char_def)
qed

definition example_mem :: "mem" where
  "example_mem = [\<lparr>mr_id = 1, mr_path = topic_path unary (NsAgent 0) ''user'' ''x'',
     mr_content = render_topic_content ''d'' ''user'' ''1'' ''b'', mr_version = 3,
     mr_created_at = 0, mr_updated_at = 0, mr_updated_by = None\<rparr>]"

lemma example_mem_wf: "mem_wf example_mem"
  by (simp add: mem_wf_def example_mem_def)

lemma example_trims: "trim ''d'' = ''d''" "trim ''1'' = ''1''" "trim_md ''user_x.md'' = ''user_x''"
  by code_simp+

lemma render_length: "length (render_topic_content d t u b) = length d + length t + length u + length b + 40"
  by (simp add: render_topic_content_def)

lemmas memory_eval = write_memory_topic_def move_memory_topic_def validate_memory_type_def memory_types_def validate_topic_slug_def
  max_topic_slug_len_def slug_byte_def byte_in_def validate_description_def char_count_def max_description_len_def max_topic_body_bytes_def
  upsert_memory_document_def regenerate_memory_index_def enforce_namespace_size_def namespace_bytes_def max_namespace_bytes_def
  max_index_lines_def index_body_def index_rows_def sort_by_def entry_of_def parse_render one_line_def topic_path_def index_path_def
  memory_index_filename_def unary_def like_prefix_def to_ascii_lowercase_def to_ascii_lowercase_char_def memory_index_header_def
  em_dash_def entry_line_def rust_lines_def strip_cr_def strip_prefix_def version_check_def Let_def render_length example_trims
  get_memory_document_def record_from_row_def update_rows_def

definition example_write :: "int option \<Rightarrow> mem \<Rightarrow> store_error + (memory_topic \<times> mem)" where
  "example_write iv rows = write_memory_topic unary (\<lambda>n. (n + 10, 5)) ''1'' (NsAgent 0) ''user'' ''x'' ''d'' ''b'' None iv rows"

lemma example_write_ok: "\<not> isl (example_write None [])" "\<not> isl (example_write (Some 3) example_mem)"
  by (simp_all add: example_write_def example_mem_def memory_eval)

text \<open>
  A topic that is written can be read back: after a successful write the topic of that type and
  name holds the new content under the next version (1 for a new topic), with the description and
  date of the call, trimmed; every document other than the topic and the namespace's index is
  untouched.
\<close>

theorem write_then_read:
  assumes "mem_wf rows" "one_line today"
    and "write_memory_topic ut draw today ns ty x d body by iv rows = Inr (t, rows')"
  shows "get_memory_topic ut ns ty x rows' = Inr (Some (t\<lparr>mt_description := trim d, mt_updated := trim today\<rparr>))
    \<and> mt_body t = render_topic_content d ty today body
    \<and> mt_version t = (case get_memory_document (topic_path ut ns ty x) rows of Some old \<Rightarrow> rc_version old + 1 | None \<Rightarrow> 1)
    \<and> (\<forall>q. q \<noteq> topic_path ut ns ty x \<and> q \<noteq> index_path ut ns \<longrightarrow> get_memory_document q rows' = get_memory_document q rows)"
proof -
  obtain page page2 rows1 where ty: "ty \<in> set memory_types" "validate_topic_slug x = Inr ()" "one_line d"
    and u: "upsert_memory_document (draw 0) (topic_path ut ns ty x) (render_topic_content d ty today body) by iv rows = Inr (page, rows1)"
    and r: "regenerate_memory_index ut (draw 1) ns by rows1 = Inr (page2, rows')"
    and t: "t = \<lparr>mt_type = ty, mt_topic = x, mt_description = d, mt_updated = today, mt_body = render_topic_content d ty today body,
          mt_path = topic_path ut ns ty x, mt_version = rc_version page\<rparr>"
    using assms(3) by (rule write_memory_topicE)
  note u' = upsert_ok [OF assms(1) u]
  note r' = regenerate_ok [OF u'(1) r]
  have ol: "one_line ty" using ty(1) by (auto simp: memory_types_def one_line_def)
  have "get_memory_document (topic_path ut ns ty x) rows' = Some page"
    using get_other [OF topic_not_index [OF ty(1)] r'(2)] u'(2) by simp
  then have "get_memory_topic ut ns ty x rows' = Inr (Some (t\<lparr>mt_description := trim d, mt_updated := trim today\<rparr>))"
    using ty u'(4,5) parse_render [OF ty(3) ol assms(2)]
    by (simp add: get_memory_topic_def validate_memory_type_def topic_from_page_def t)
  moreover have "get_memory_document q rows' = get_memory_document q rows" if "q \<noteq> topic_path ut ns ty x" "q \<noteq> index_path ut ns" for q
    using get_other [OF that(2) r'(2)] get_other [OF that(1) u'(3)] by simp
  ultimately show ?thesis using t u'(6) by simp
qed

lemma write_conflict_iff:
  assumes "ty \<in> set memory_types" "validate_topic_slug x = Inr ()" "validate_description d = Inr ()" "length body \<le> max_topic_body_bytes"
    and "get_memory_document (topic_path ut ns ty x) rows = Some old" "0 < v" "v \<noteq> rc_version old"
  shows "write_memory_topic ut draw today ns ty x d body by (Some v) rows
       = Inl (MemoryVersionConflict (topic_path ut ns ty x) (rc_version old) v)"
proof -
  obtain r where r: "find (\<lambda>r. mr_path r = topic_path ut ns ty x) rows = Some r" "rc_version old = mr_version r"
    using assms(5) by (auto simp: get_memory_document_def record_from_row_def)
  then have "upsert_memory_document (draw 0) (topic_path ut ns ty x) (render_topic_content d ty today body) by (Some v) rows
      = Inl (MemoryVersionConflict (topic_path ut ns ty x) (rc_version old) v)"
    using assms(6,7) by (simp add: upsert_memory_document_def version_check_def)
  with assms(1-4) show ?thesis by (simp add: write_memory_topic_def validate_memory_type_def Let_def)
qed

text \<open>
  Optimistic concurrency: when a write that states the version it read succeeds on an existing
  topic, every later write that states the same version is refused with a conflict that names the
  current one, whatever it would write; so of two writers that read the same version one loses.
\<close>

theorem stale_version_refused:
  assumes "mem_wf rows" "get_memory_document (topic_path ut ns ty x) rows = Some old" "0 < v"
    and "write_memory_topic ut draw today ns ty x d body by (Some v) rows = Inr (t, rows')"
    and "validate_description d2 = Inr ()" "length body2 \<le> max_topic_body_bytes"
  shows "rc_version old = v \<and> write_memory_topic ut draw2 today2 ns ty x d2 body2 by2 (Some v) rows'
       = Inl (MemoryVersionConflict (topic_path ut ns ty x) (v + 1) v)"
proof -
  obtain page page2 rows1 where ty: "ty \<in> set memory_types" "validate_topic_slug x = Inr ()" "one_line d"
    and u: "upsert_memory_document (draw 0) (topic_path ut ns ty x) (render_topic_content d ty today body) by (Some v) rows = Inr (page, rows1)"
    and r: "regenerate_memory_index ut (draw 1) ns by rows1 = Inr (page2, rows')"
    using assms(4) by (rule write_memory_topicE)
  note u' = upsert_ok [OF assms(1) u]
  note r' = regenerate_ok [OF u'(1) r]
  have v: "rc_version old = v"
    using u assms(2,3) by (auto simp: upsert_memory_document_def get_memory_document_def version_check_def record_from_row_def tx_bind_Inr_iff split: if_splits)
  have "get_memory_document (topic_path ut ns ty x) rows' = Some page"
    using get_other [OF topic_not_index [OF ty(1)] r'(2)] u'(2) by simp
  from write_conflict_iff [OF ty(1,2) assms(5,6) this assms(3)] show ?thesis
    using v u'(6) assms(2) by simp
qed

lemma set_trim: "set (trim s) \<subseteq> set s"
  using set_mono_prefix [OF trim_end_prefix] set_mono_suffix [OF strip_any_suffix] by (fastforce simp: trim_def trim_start_def)

lemma write_stored:
  assumes "mem_wf rows" "write_memory_topic ut draw today ns ty x d body by iv rows = Inr (t, rows')"
  shows "get_memory_document (topic_path ut ns ty x) rows' \<noteq> None"
proof -
  obtain page page2 rows1 where ty: "ty \<in> set memory_types"
    and u: "upsert_memory_document (draw 0) (topic_path ut ns ty x) (render_topic_content d ty today body) by iv rows = Inr (page, rows1)"
    and r: "regenerate_memory_index ut (draw 1) ns by rows1 = Inr (page2, rows')"
    using assms(2) by (rule write_memory_topicE)
  note u' = upsert_ok [OF assms(1) u]
  show ?thesis
    using get_other [OF topic_not_index [OF ty] regenerate_ok(2) [OF u'(1) r]] u'(2) by simp
qed

text \<open>
  The front matter round trip: parsing a rendered topic gives back its description and date,
  trimmed, and its body without leading blank lines; so rendering the parsed parts again and parsing
  once more changes nothing.
\<close>

theorem frontmatter_round_trip:
  assumes "one_line d" "one_line t" "one_line u" "p = parse_memory_frontmatter (render_topic_content d t u body)"
  shows "p = \<lparr>pm_description = trim d, pm_updated = trim u, pm_body = dropWhile (\<lambda>c. c = CHR 0x0A) body\<rparr>
    \<and> parse_memory_frontmatter (render_topic_content (pm_description p) t (pm_updated p) (pm_body p)) = p"
proof -
  have p: "p = \<lparr>pm_description = trim d, pm_updated = trim u, pm_body = dropWhile (\<lambda>c. c = CHR 0x0A) body\<rparr>"
    using parse_render [OF assms(1-3)] assms(4) by simp
  have "one_line (trim s)" if "one_line s" for s
    using that set_trim [of s] by (auto simp: one_line_def)
  then show ?thesis using parse_render [of "trim d" t "trim u"] assms(1-3) by (simp add: p)
qed

theorem frontmatter_round_trip_witness:
  "parse_memory_frontmatter (render_topic_content ''d'' ''user'' ''1'' ''b'') = \<lparr>pm_description = ''d'', pm_updated = ''1'', pm_body = ''b''\<rparr>"
  using frontmatter_round_trip [of "''d''" "''user''" "''1''" _ "''b''"] by (simp add: one_line_def example_trims)

theorem memory_indexes_fresh_witness:
  "\<exists>rows r. r \<in> set rows \<and> length (rust_lines (md_body (get_memory_index unary (NsAgent 0) rows))) \<le> 200
     \<and> sublist (entry_line (entry_of (ns_prefix unary (NsAgent 0)) r)) (md_body (get_memory_index unary (NsAgent 0) rows))"
proof -
  obtain t rows where w: "example_write None [] = Inr (t, rows)"
    using example_write_ok(1) by (cases "example_write None []") auto
  have "reachable mem_start (mem_step unary) []" by (rule reachable_start) (simp add: mem_start_def)
  then have re: "reachable mem_start (mem_step unary) rows"
    by (rule reachable_step) (rule mem_write, rule w [unfolded example_write_def])
  have "get_memory_document (topic_path unary (NsAgent 0) ''user'' ''x'') rows \<noteq> None"
    using w by (intro write_stored [of "[]"]) (auto simp: mem_wf_def example_write_def)
  then obtain r where r: "r \<in> set rows" "mr_path r = topic_path unary (NsAgent 0) ''user'' ''x''"
    by (auto simp: get_memory_document_def dest: find_Some_set)
  have "like_prefix (ns_prefix unary (NsAgent 0)) (mr_path r)" unfolding r(2) topic_path_def by (rule like_own)
  from memory_indexes_fresh [OF re unary_printing r(1) this refl] r show ?thesis
    using topic_not_index [of "''user''" unary "NsAgent 0" "''x''"] by (auto simp: memory_types_def)
qed

theorem write_then_read_witness:
  "\<exists>t rows. example_write (Some 3) example_mem = Inr (t, rows) \<and> get_memory_topic unary (NsAgent 0) ''user'' ''x'' rows = Inr (Some t) \<and> mt_version t = 4"
proof -
  obtain t rows where w: "example_write (Some 3) example_mem = Inr (t, rows)"
    using example_write_ok(2) by (cases "example_write (Some 3) example_mem") auto
  have t: "mt_description t = ''d''" "mt_updated t = ''1''"
    using w unfolding example_write_def by (auto elim!: write_memory_topicE)
  have "get_memory_document (topic_path unary (NsAgent 0) ''user'' ''x'') example_mem
      = Some \<lparr>rc_path = topic_path unary (NsAgent 0) ''user'' ''x'', rc_content = render_topic_content ''d'' ''user'' ''1'' ''b'', rc_version = 3\<rparr>"
    by (simp add: example_mem_def get_memory_document_def record_from_row_def)
  then show ?thesis
    using write_then_read [OF example_mem_wf _ w [unfolded example_write_def]] w t by (simp add: one_line_def example_trims)
qed

theorem stale_version_refused_witness:
  "\<exists>t rows. example_write (Some 3) example_mem = Inr (t, rows)
     \<and> example_write (Some 3) rows = Inl (MemoryVersionConflict (topic_path unary (NsAgent 0) ''user'' ''x'') 4 3)"
proof -
  obtain t rows where w: "example_write (Some 3) example_mem = Inr (t, rows)"
    using example_write_ok(2) by (cases "example_write (Some 3) example_mem") auto
  have "get_memory_document (topic_path unary (NsAgent 0) ''user'' ''x'') example_mem \<noteq> None"
    by (simp add: example_mem_def get_memory_document_def)
  then obtain old where old: "get_memory_document (topic_path unary (NsAgent 0) ''user'' ''x'') example_mem = Some old" by blast
  have v: "validate_description ''d'' = Inr ()" "length ''b'' \<le> max_topic_body_bytes"
    by (simp_all add: validate_description_def char_count_def byte_in_def max_description_len_def max_topic_body_bytes_def)
  from stale_version_refused [OF example_mem_wf old _ w [unfolded example_write_def] v] show ?thesis
    using w by (simp add: example_write_def)
qed

text \<open>
  Moving a topic: after a successful move the topic is gone from the source namespace and stands
  in the destination with the description and the body (less leading blank lines) it had; a topic of
  that name already there is replaced with the next version; both indexes are regenerated, and every
  other document is untouched.
\<close>

theorem move_memory_topic_effect:
  assumes "mem_wf rows" "uuid_printing ut" "one_line today"
    and "move_memory_topic ut draw today from to ty x by rows = Inr (res, rows')"
    and "get_memory_document (topic_path ut from ty x) rows = Some source" "p = parse_memory_frontmatter (rc_content source)" "one_line (pm_description p)"
  shows "get_memory_document (topic_path ut from ty x) rows' = None
    \<and> (\<exists>page. get_memory_document (topic_path ut to ty x) rows' = Some page
         \<and> parse_memory_frontmatter (rc_content page) =
             \<lparr>pm_description = trim (pm_description p), pm_updated = trim today, pm_body = dropWhile (\<lambda>c. c = CHR 0x0A) (pm_body p)\<rparr>
         \<and> rc_version page = (case get_memory_document (topic_path ut to ty x) rows of Some old \<Rightarrow> rc_version old + 1 | None \<Rightarrow> 1))
    \<and> index_fresh ut from rows' \<and> index_fresh ut to rows'
    \<and> (\<forall>q. q \<notin> {topic_path ut from ty x, topic_path ut to ty x, index_path ut from, index_path ut to}
          \<longrightarrow> get_memory_document q rows' = get_memory_document q rows)"
proof -
  obtain page page2 page3 rows1 rows2 where ty: "ty \<in> set memory_types" "from \<noteq> to"
    and u: "upsert_memory_document (draw 0) (topic_path ut to ty x) (render_topic_content (pm_description p) ty today (pm_body p)) by None rows = Inr (page, rows1)"
    and r: "regenerate_memory_index ut (draw 1) from by (others_than (topic_path ut from ty x) rows1) = Inr (page2, rows2)"
    and s: "regenerate_memory_index ut (draw 2) to by rows2 = Inr (page3, rows')"
    using assms(4) by (rule move_memory_topicE) (simp add: assms(5,6))
  note u' = upsert_ok [OF assms(1) u]
  note r' = regenerate_ok [OF mem_wf_others [OF u'(1)] r]
  note s' = regenerate_ok [OF r'(1) s]
  note pn = path_namespace [OF assms(2)]
  let ?f = "topic_path ut from ty x" and ?t = "topic_path ut to ty x"
  have g: "get_memory_document q rows' = get_memory_document q (others_than ?f rows1)" if "q \<noteq> index_path ut from" "q \<noteq> index_path ut to" for q
    using get_other [OF that(2) s'(2)] get_other [OF that(1) r'(2)] by simp
  have h: "get_memory_document q (others_than ?f rows1) = get_memory_document q rows1" if "q \<noteq> ?f" for q
    using get_other [OF that others_than_idem] .
  have ne: "?f \<noteq> index_path ut from" "?t \<noteq> index_path ut to" "?f \<noteq> index_path ut to" "?t \<noteq> index_path ut from" "?t \<noteq> ?f"
    using topic_not_index [OF ty(1)] ty(2) pn [of "from"] pn [of to] by metis+
  have "get_memory_document ?f (others_than ?f rows1) = None"
    by (auto simp: get_memory_document_def others_than_def find_None_iff)
  then have gone: "get_memory_document ?f rows' = None" using g [OF ne(1,3)] by simp
  have there: "get_memory_document ?t rows' = Some page" using g [OF ne(4,2)] h [OF ne(5)] u'(2) by simp
  have ol: "one_line ty" using ty(1) by (auto simp: memory_types_def one_line_def)
  have parsed: "parse_memory_frontmatter (rc_content page) =
      \<lparr>pm_description = trim (pm_description p), pm_updated = trim today, pm_body = dropWhile (\<lambda>c. c = CHR 0x0A) (pm_body p)\<rparr>"
    using parse_render [OF assms(7) ol assms(3)] u'(4) by simp
  have "index_fresh ut from rows'" using ty(2) pn by (intro index_fresh_frame [OF r'(3) s'(2) [symmetric] _ assms(2)]) auto
  moreover have "get_memory_document q rows' = get_memory_document q rows" if "q \<notin> {?f, ?t, index_path ut from, index_path ut to}" for q
    using that g [of q] h [of q] get_other [OF _ u'(3), of q] by simp
  ultimately show ?thesis using gone there parsed u'(6) s'(3) by blast
qed

definition example_move :: "mem \<Rightarrow> store_error + ((string \<times> string) \<times> mem)" where
  "example_move rows = move_memory_topic unary (\<lambda>n. (n + 10, 5)) ''1'' (NsAgent 0) (NsChannel 0) ''user'' ''x'' None rows"

lemma example_move_ok: "\<not> isl (example_move example_mem)"
  by (simp add: example_move_def example_mem_def memory_eval)

theorem move_memory_topic_effect_witness:
  "\<exists>res rows. example_move example_mem = Inr (res, rows) \<and> get_memory_document (topic_path unary (NsAgent 0) ''user'' ''x'') rows = None
     \<and> (\<exists>page. get_memory_document (topic_path unary (NsChannel 0) ''user'' ''x'') rows = Some page \<and> pm_body (parse_memory_frontmatter (rc_content page)) = ''b'')"
proof -
  obtain res rows where w: "example_move example_mem = Inr (res, rows)"
    using example_move_ok by (cases "example_move example_mem") auto
  let ?c = "render_topic_content ''d'' ''user'' ''1'' ''b''"
  have src: "get_memory_document (topic_path unary (NsAgent 0) ''user'' ''x'') example_mem
      = Some \<lparr>rc_path = topic_path unary (NsAgent 0) ''user'' ''x'', rc_content = ?c, rc_version = 3\<rparr>"
    by (simp add: example_mem_def get_memory_document_def record_from_row_def)
  have p: "parse_memory_frontmatter ?c = \<lparr>pm_description = ''d'', pm_updated = ''1'', pm_body = ''b''\<rparr>"
    using parse_render [of "''d''" "''user''" "''1''" "''b''"] by (simp add: one_line_def example_trims)
  from move_memory_topic_effect [OF example_mem_wf unary_printing _ w [unfolded example_move_def] src refl] p w show ?thesis
    by (auto simp: one_line_def)
qed

text \<open>
  Versions do not survive a move: once a topic has been moved away, a write to its old place
  that states any version at all is treated as one that states none, so a writer that still holds
  the version it read before the move is not refused.
\<close>

theorem move_forgets_version:
  assumes "mem_wf rows" "uuid_printing ut" "move_memory_topic ut draw today from to ty x by rows = Inr (res, rows')"
  shows "write_memory_topic ut draw2 today2 from ty x d body by2 (Some v) rows' = write_memory_topic ut draw2 today2 from ty x d body by2 None rows'"
proof -
  obtain source :: memory_record and page page2 page3 rows1 rows2 where ty: "ty \<in> set memory_types" "from \<noteq> to"
    and u: "upsert_memory_document (draw 0) (topic_path ut to ty x)
       (render_topic_content (pm_description (parse_memory_frontmatter (rc_content source))) ty today
          (pm_body (parse_memory_frontmatter (rc_content source)))) by None rows = Inr (page, rows1)"
    and r: "regenerate_memory_index ut (draw 1) from by (others_than (topic_path ut from ty x) rows1) = Inr (page2, rows2)"
    and s: "regenerate_memory_index ut (draw 2) to by rows2 = Inr (page3, rows')"
    using assms(3) by (rule move_memory_topicE)
  let ?f = "topic_path ut from ty x"
  note u' = upsert_ok [OF assms(1) u]
  note r' = regenerate_ok [OF mem_wf_others [OF u'(1)] r]
  note s' = regenerate_ok [OF r'(1) s]
  have ne: "?f \<noteq> index_path ut from" "?f \<noteq> index_path ut to"
    using topic_not_index [OF ty(1)] ty(2) path_namespace [OF assms(2), of "from"] by metis+
  have "get_memory_document ?f (others_than ?f rows1) = None"
    by (auto simp: get_memory_document_def others_than_def find_None_iff)
  then have "find (\<lambda>r. mr_path r = ?f) rows' = None"
    using get_other [OF ne(2) s'(2)] get_other [OF ne(1) r'(2)] by (simp add: get_memory_document_def)
  then show ?thesis by (simp add: write_memory_topic_def upsert_memory_document_def)
qed

theorem move_forgets_version_witness:
  "\<exists>res rows. example_move example_mem = Inr (res, rows) \<and> example_write (Some 3) rows = example_write None rows"
proof -
  obtain res rows where w: "example_move example_mem = Inr (res, rows)"
    using example_move_ok by (cases "example_move example_mem") auto
  from move_forgets_version [OF example_mem_wf unary_printing w [unfolded example_move_def]] w show ?thesis
    by (simp add: example_write_def)
qed

end
