(* ===== verification/GovTypes.thy ===== *)
theory GovTypes
  imports StoreTypes
begin

text \<open>
  The data of the skill governance store (\<open>crates/cocli-store/src/skill_governance.rs\<close>): its enums
  with their persisted spelling and its rows. A JSON document (\<open>serde_json::Value\<close>) is opaque to the
  store and kept as its text.
\<close>

type_synonym json = string

section \<open>Enums and their spelling\<close>

datatype governance_scope = GvMachine | GvWorkspace | GvAgent

fun gov_scope_as_str :: "governance_scope \<Rightarrow> string" where
  "gov_scope_as_str GvMachine = ''machine''"
| "gov_scope_as_str GvWorkspace = ''workspace''"
| "gov_scope_as_str GvAgent = ''agent''"

definition gov_scope_parse :: "string \<Rightarrow> store_error + governance_scope" where
  "gov_scope_parse v =
     (if v = ''machine'' then Inr GvMachine
      else if v = ''workspace'' then Inr GvWorkspace
      else if v = ''agent'' then Inr GvAgent
      else Inl (InvalidValue ''skill governance scope'' v))"

datatype plan_status = PlanDraft | PlanApproved | PlanRejected | PlanStale

fun plan_status_as_str :: "plan_status \<Rightarrow> string" where
  "plan_status_as_str PlanDraft = ''draft''"
| "plan_status_as_str PlanApproved = ''approved''"
| "plan_status_as_str PlanRejected = ''rejected''"
| "plan_status_as_str PlanStale = ''stale''"

definition plan_status_parse :: "string \<Rightarrow> store_error + plan_status" where
  "plan_status_parse v =
     (if v = ''draft'' then Inr PlanDraft
      else if v = ''approved'' then Inr PlanApproved
      else if v = ''rejected'' then Inr PlanRejected
      else if v = ''stale'' then Inr PlanStale
      else Inl (InvalidValue ''skill governance plan status'' v))"

datatype run_status = RunPending | RunRunning | RunSucceeded | RunFailed | RunRollingBack | RunRolledBack | RunRecoveryRequired

fun run_status_as_str :: "run_status \<Rightarrow> string" where
  "run_status_as_str RunPending = ''pending''"
| "run_status_as_str RunRunning = ''running''"
| "run_status_as_str RunSucceeded = ''succeeded''"
| "run_status_as_str RunFailed = ''failed''"
| "run_status_as_str RunRollingBack = ''rolling_back''"
| "run_status_as_str RunRolledBack = ''rolled_back''"
| "run_status_as_str RunRecoveryRequired = ''recovery_required''"

definition run_status_parse :: "string \<Rightarrow> store_error + run_status" where
  "run_status_parse v =
     (if v = ''pending'' then Inr RunPending
      else if v = ''running'' then Inr RunRunning
      else if v = ''succeeded'' then Inr RunSucceeded
      else if v = ''failed'' then Inr RunFailed
      else if v = ''rolling_back'' then Inr RunRollingBack
      else if v = ''rolled_back'' then Inr RunRolledBack
      else if v = ''recovery_required'' then Inr RunRecoveryRequired
      else Inl (InvalidValue ''skill governance apply run status'' v))"

datatype recovery_status = RecNotRequired | RecPending | RecInProgress | RecRecovered | RecFailed | RecQuarantined

fun recovery_status_as_str :: "recovery_status \<Rightarrow> string" where
  "recovery_status_as_str RecNotRequired = ''not_required''"
| "recovery_status_as_str RecPending = ''pending''"
| "recovery_status_as_str RecInProgress = ''in_progress''"
| "recovery_status_as_str RecRecovered = ''recovered''"
| "recovery_status_as_str RecFailed = ''failed''"
| "recovery_status_as_str RecQuarantined = ''quarantined''"

definition recovery_status_parse :: "string \<Rightarrow> store_error + recovery_status" where
  "recovery_status_parse v =
     (if v = ''not_required'' then Inr RecNotRequired
      else if v = ''pending'' then Inr RecPending
      else if v = ''in_progress'' then Inr RecInProgress
      else if v = ''recovered'' then Inr RecRecovered
      else if v = ''failed'' then Inr RecFailed
      else if v = ''quarantined'' then Inr RecQuarantined
      else Inl (InvalidValue ''skill governance recovery status'' v))"

datatype action_status = ActPending | ActPreflight | ActLocked | ActBackedUp | ActStaged | ActWritten | ActLockfileWritten | ActRefreshing | ActVerified | ActFailed | ActRollingBack | ActRolledBack | ActRecoveryRequired | ActSkipped

fun action_status_as_str :: "action_status \<Rightarrow> string" where
  "action_status_as_str ActPending = ''pending''"
| "action_status_as_str ActPreflight = ''preflight''"
| "action_status_as_str ActLocked = ''locked''"
| "action_status_as_str ActBackedUp = ''backed_up''"
| "action_status_as_str ActStaged = ''staged''"
| "action_status_as_str ActWritten = ''written''"
| "action_status_as_str ActLockfileWritten = ''lockfile_written''"
| "action_status_as_str ActRefreshing = ''refreshing''"
| "action_status_as_str ActVerified = ''verified''"
| "action_status_as_str ActFailed = ''failed''"
| "action_status_as_str ActRollingBack = ''rolling_back''"
| "action_status_as_str ActRolledBack = ''rolled_back''"
| "action_status_as_str ActRecoveryRequired = ''recovery_required''"
| "action_status_as_str ActSkipped = ''skipped''"

definition action_status_parse :: "string \<Rightarrow> store_error + action_status" where
  "action_status_parse v =
     (if v = ''pending'' then Inr ActPending
      else if v = ''preflight'' then Inr ActPreflight
      else if v = ''locked'' then Inr ActLocked
      else if v = ''backed_up'' then Inr ActBackedUp
      else if v = ''staged'' then Inr ActStaged
      else if v = ''written'' then Inr ActWritten
      else if v = ''lockfile_written'' then Inr ActLockfileWritten
      else if v = ''refreshing'' then Inr ActRefreshing
      else if v = ''verified'' then Inr ActVerified
      else if v = ''failed'' then Inr ActFailed
      else if v = ''rolling_back'' then Inr ActRollingBack
      else if v = ''rolled_back'' then Inr ActRolledBack
      else if v = ''recovery_required'' then Inr ActRecoveryRequired
      else if v = ''skipped'' then Inr ActSkipped
      else Inl (InvalidValue ''skill governance apply action status'' v))"

interpretation gsc: wire_codec gov_scope_as_str gov_scope_parse
proof
  show "gov_scope_parse (gov_scope_as_str x) = Inr x" for x
    by (cases x) (simp_all add: gov_scope_parse_def)
  show "s = gov_scope_as_str x" if "gov_scope_parse s = Inr x" for s x
    using that by (auto simp: gov_scope_parse_def split: if_splits)
qed

interpretation gpc: wire_codec plan_status_as_str plan_status_parse
proof
  show "plan_status_parse (plan_status_as_str x) = Inr x" for x
    by (cases x) (simp_all add: plan_status_parse_def)
  show "s = plan_status_as_str x" if "plan_status_parse s = Inr x" for s x
    using that by (auto simp: plan_status_parse_def split: if_splits)
qed

interpretation grc: wire_codec run_status_as_str run_status_parse
proof
  show "run_status_parse (run_status_as_str x) = Inr x" for x
    by (cases x) (simp_all add: run_status_parse_def)
  show "s = run_status_as_str x" if "run_status_parse s = Inr x" for s x
    using that by (auto simp: run_status_parse_def split: if_splits)
qed

interpretation gvc: wire_codec recovery_status_as_str recovery_status_parse
proof
  show "recovery_status_parse (recovery_status_as_str x) = Inr x" for x
    by (cases x) (simp_all add: recovery_status_parse_def)
  show "s = recovery_status_as_str x" if "recovery_status_parse s = Inr x" for s x
    using that by (auto simp: recovery_status_parse_def split: if_splits)
qed

interpretation gac: wire_codec action_status_as_str action_status_parse
proof
  show "action_status_parse (action_status_as_str x) = Inr x" for x
    by (cases x) (simp_all add: action_status_parse_def)
  show "s = action_status_as_str x" if "action_status_parse s = Inr x" for s x
    using that by (auto simp: action_status_parse_def split: if_splits)
qed

section \<open>Rows\<close>

record skill_profile =
  sp_id :: uuid
  sp_document :: json
  sp_version :: int
  sp_created_at :: timestamp
  sp_updated_at :: timestamp

record skill_profile_binding =
  sb_id :: uuid
  sb_scope :: governance_scope
  sb_scope_id :: string
  sb_profile_id :: uuid
  sb_version :: int
  sb_created_at :: timestamp
  sb_updated_at :: timestamp

record skill_lock_snapshot =
  sn_id :: uuid
  sn_scope :: governance_scope
  sn_scope_id :: string
  sn_profile_id :: "uuid option"
  sn_snapshot :: json
  sn_observation_hash :: string
  sn_desired_hash :: string
  sn_lock_hash :: string
  sn_created_at :: timestamp

record new_skill_lock_snapshot =
  nsn_scope :: governance_scope
  nsn_scope_id :: string
  nsn_profile_id :: "uuid option"
  nsn_snapshot :: json
  nsn_observation_hash :: string
  nsn_desired_hash :: string
  nsn_lock_hash :: string

record governance_plan =
  gp_id :: uuid
  gp_scope :: governance_scope
  gp_scope_id :: string
  gp_plan :: json
  gp_observation_hash :: string
  gp_desired_hash :: string
  gp_status :: plan_status
  gp_version :: int
  gp_created_at :: timestamp
  gp_updated_at :: timestamp

record plan_audit =
  pa_id :: uuid
  pa_plan_id :: uuid
  pa_action :: string
  pa_from_status :: plan_status
  pa_to_status :: plan_status
  pa_from_version :: int
  pa_to_version :: int
  pa_created_at :: timestamp

record scoped_lock =
  lk_id :: uuid
  lk_scope :: governance_scope
  lk_scope_id :: string
  lk_owner :: string
  lk_process_id :: "int option"
  lk_run_id :: "uuid option"
  lk_lease_nonce :: string
  lk_lease_expires_at :: timestamp
  lk_acquired_at :: timestamp
  lk_renewed_at :: timestamp
  lk_released_at :: "timestamp option"
  lk_takeover_count :: int
  lk_previous_owner :: "string option"
  lk_previous_run_id :: "uuid option"
  lk_taken_over_at :: "timestamp option"
  lk_version :: int
  lk_created_at :: timestamp
  lk_updated_at :: timestamp

record new_apply_run =
  nr_scope :: governance_scope
  nr_scope_id :: string
  nr_plan_id :: "uuid option"
  nr_lock_id :: "uuid option"
  nr_idempotency_key :: string
  nr_nonce :: string
  nr_observation_hash :: string
  nr_desired_hash :: string
  nr_lock_hash :: string
  nr_backup_path :: "string option"
  nr_quarantine_path :: "string option"
  nr_evidence :: json

record apply_run =
  ar_id :: uuid
  ar_scope :: governance_scope
  ar_scope_id :: string
  ar_plan_id :: "uuid option"
  ar_lock_id :: "uuid option"
  ar_idempotency_key :: string
  ar_nonce :: string
  ar_status :: run_status
  ar_recovery_status :: recovery_status
  ar_attempts :: int
  ar_observation_hash :: string
  ar_desired_hash :: string
  ar_lock_hash :: string
  ar_backup_path :: "string option"
  ar_quarantine_path :: "string option"
  ar_evidence :: json
  ar_last_error :: "string option"
  ar_version :: int
  ar_started_at :: "timestamp option"
  ar_completed_at :: "timestamp option"
  ar_created_at :: timestamp
  ar_updated_at :: timestamp

record new_apply_action =
  na_run_id :: uuid
  na_sequence :: int
  na_action_key :: string
  na_request_hash :: string
  na_backup_path :: "string option"
  na_quarantine_path :: "string option"
  na_evidence :: json

record apply_action =
  aa_id :: uuid
  aa_run_id :: uuid
  aa_sequence :: int
  aa_action_key :: string
  aa_status :: action_status
  aa_attempts :: int
  aa_request_hash :: string
  aa_result_hash :: "string option"
  aa_backup_path :: "string option"
  aa_quarantine_path :: "string option"
  aa_evidence :: json
  aa_last_error :: "string option"
  aa_version :: int
  aa_started_at :: "timestamp option"
  aa_completed_at :: "timestamp option"
  aa_created_at :: timestamp
  aa_updated_at :: timestamp

record apply_audit =
  au_id :: uuid
  au_entity_type :: string
  au_entity_id :: uuid
  au_action :: string
  au_from_status :: "string option"
  au_to_status :: "string option"
  au_from_version :: "int option"
  au_to_version :: "int option"
  au_evidence :: json
  au_created_at :: timestamp

record gov =
  gv_profiles :: "skill_profile list"
  gv_bindings :: "skill_profile_binding list"
  gv_snapshots :: "skill_lock_snapshot list"
  gv_plans :: "governance_plan list"
  gv_plan_audit :: "plan_audit list"
  gv_locks :: "scoped_lock list"
  gv_runs :: "apply_run list"
  gv_actions :: "apply_action list"
  gv_audit :: "apply_audit list"

definition gov_empty :: gov where
  "gov_empty = \<lparr>gv_profiles = [], gv_bindings = [], gv_snapshots = [], gv_plans = [], gv_plan_audit = [],
     gv_locks = [], gv_runs = [], gv_actions = [], gv_audit = []\<rparr>"

end
