(* ===== verification/SkillGovernance.thy ===== *)
theory SkillGovernance
  imports GovTypes StoreDelivery RustStr
begin

text \<open>
  The skill governance store (\<open>crates/cocli-store/src/skill_governance.rs\<close>): profiles and their
  bindings, lock snapshots, plans with their decision life cycle, scoped leases, and the durable
  journal of apply runs and actions. Methods that write an audit row do so in the same transaction;
  a transaction that fails changes nothing. A method that reads a row and later writes it is two
  definitions, a check and a write, so that what happens in between can be stated; its definition
  composes the two. \<open>ids\<close> are the fresh identifiers a method draws (the row's and the audit row's),
  \<open>now\<close> and \<open>anow\<close> its clock readings for the two. Counters are unbounded integers.
\<close>

type_synonym 'a gtx = "store_error + ('a \<times> gov)"

section \<open>Profiles\<close>

definition get_skill_profile :: "uuid \<Rightarrow> gov \<Rightarrow> skill_profile option" where
  "get_skill_profile i g = find (\<lambda>r. sp_id r = i) (gv_profiles g)"

definition or_not_found :: "string \<Rightarrow> uuid \<Rightarrow> 'a option \<Rightarrow> gov \<Rightarrow> 'a gtx" where
  "or_not_found entity i r g = (case r of Some x \<Rightarrow> Inr (x, g) | None \<Rightarrow> Inl (SkillGovernanceNotFound entity i))"

definition create_skill_profile :: "uuid \<Rightarrow> timestamp \<Rightarrow> json \<Rightarrow> gov \<Rightarrow> skill_profile gtx" where
  "create_skill_profile i now document g =
     (if i \<in> sp_id ` set (gv_profiles g) then Inl constraint
      else let g' = g\<lparr>gv_profiles := gv_profiles g @
             [\<lparr>sp_id = i, sp_document = document, sp_version = 1, sp_created_at = now, sp_updated_at = now\<rparr>]\<rparr>
           in or_not_found ''skill profile'' i (get_skill_profile i g') g')"

definition list_skill_profiles :: "gov \<Rightarrow> skill_profile list" where
  "list_skill_profiles g = sort_key (\<lambda>r. (- sp_updated_at r, sp_id r)) (gv_profiles g)"

definition profile_error :: "uuid \<Rightarrow> int \<Rightarrow> gov \<Rightarrow> store_error" where
  "profile_error i expected g =
     (case get_skill_profile i g of
        Some c \<Rightarrow> SkillGovernanceVersionConflict ''skill profile'' i (sp_version c) expected
      | None \<Rightarrow> SkillGovernanceNotFound ''skill profile'' i)"

definition update_skill_profile :: "timestamp \<Rightarrow> uuid \<Rightarrow> json \<Rightarrow> int \<Rightarrow> gov \<Rightarrow> skill_profile gtx" where
  "update_skill_profile now i document expected g =
     (let p = (\<lambda>r. sp_id r = i \<and> sp_version r = expected);
          g' = g\<lparr>gv_profiles := update_rows p
                 (\<lambda>r. r\<lparr>sp_document := document, sp_version := sp_version r + 1, sp_updated_at := now\<rparr>) (gv_profiles g)\<rparr>
      in if affected p (gv_profiles g) = 0 then Inl (profile_error i expected g)
         else or_not_found ''skill profile'' i (get_skill_profile i g') g')"

definition cascade_profile :: "uuid \<Rightarrow> gov \<Rightarrow> gov" where
  "cascade_profile i g =
     g\<lparr>gv_bindings := filter (\<lambda>b. sb_profile_id b \<noteq> i) (gv_bindings g),
       gv_snapshots := update_rows (\<lambda>n. sn_profile_id n = Some i) (\<lambda>n. n\<lparr>sn_profile_id := None\<rparr>) (gv_snapshots g)\<rparr>"

definition delete_profile_check :: "uuid \<Rightarrow> int \<Rightarrow> gov \<Rightarrow> store_error + unit" where
  "delete_profile_check i expected g =
     (case get_skill_profile i g of
        None \<Rightarrow> Inl (SkillGovernanceNotFound ''skill profile'' i)
      | Some c \<Rightarrow>
          if sp_version c \<noteq> expected
          then Inl (SkillGovernanceVersionConflict ''skill profile'' i (sp_version c) expected) else Inr ())"

definition delete_profile_write :: "uuid \<Rightarrow> int \<Rightarrow> gov \<Rightarrow> bool gtx" where
  "delete_profile_write i expected g =
     (let p = (\<lambda>r. sp_id r = i \<and> sp_version r = expected)
      in if affected p (gv_profiles g) = 0 then Inl (profile_error i expected g)
         else Inr (True, cascade_profile i (g\<lparr>gv_profiles := filter (\<lambda>r. \<not> p r) (gv_profiles g)\<rparr>)))"

definition delete_skill_profile :: "uuid \<Rightarrow> int \<Rightarrow> gov \<Rightarrow> bool gtx" where
  "delete_skill_profile i expected g = tx_bind (delete_profile_check i expected g) (\<lambda>_. delete_profile_write i expected g)"

section \<open>Bindings\<close>

definition get_skill_profile_binding :: "uuid \<Rightarrow> gov \<Rightarrow> skill_profile_binding option" where
  "get_skill_profile_binding i g = find (\<lambda>r. sb_id r = i) (gv_bindings g)"

definition select_binding_for_profile :: "governance_scope \<Rightarrow> string \<Rightarrow> uuid \<Rightarrow> gov \<Rightarrow> skill_profile_binding option" where
  "select_binding_for_profile scope scope_id profile g =
     find (\<lambda>b. sb_scope b = scope \<and> sb_scope_id b = scope_id \<and> sb_profile_id b = profile) (gv_bindings g)"

definition bind_skill_profile ::
  "uuid \<Rightarrow> timestamp \<Rightarrow> governance_scope \<Rightarrow> string \<Rightarrow> uuid \<Rightarrow> gov \<Rightarrow> skill_profile_binding gtx" where
  "bind_skill_profile i now scope scope_id profile g =
     (if get_skill_profile profile g = None then Inl (SkillGovernanceNotFound ''skill profile'' profile)
      else (case select_binding_for_profile scope scope_id profile g of
              Some b \<Rightarrow> Inr (b, g)
            | None \<Rightarrow>
                if i \<in> sb_id ` set (gv_bindings g) then Inl constraint
                else let g' = g\<lparr>gv_bindings := gv_bindings g @
                       [\<lparr>sb_id = i, sb_scope = scope, sb_scope_id = scope_id, sb_profile_id = profile, sb_version = 1,
                         sb_created_at = now, sb_updated_at = now\<rparr>]\<rparr>
                     in or_not_found ''skill profile binding'' i (get_skill_profile_binding i g') g'))"

definition binding_le :: "skill_profile_binding \<Rightarrow> skill_profile_binding \<Rightarrow> bool" where
  "binding_le a b \<longleftrightarrow>
     (if sb_scope_id a \<noteq> sb_scope_id b then bytes_le (sb_scope_id a) (sb_scope_id b)
      else (sb_created_at a, sb_id a) \<le> (sb_created_at b, sb_id b))"

definition list_skill_profile_bindings :: "governance_scope option \<Rightarrow> gov \<Rightarrow> skill_profile_binding list" where
  "list_skill_profile_bindings scope g =
     (case scope of
        Some sc \<Rightarrow> sort_by binding_le (filter (\<lambda>b. sb_scope b = sc) (gv_bindings g))
      | None \<Rightarrow>
          sort_by (\<lambda>a b. if sb_scope a \<noteq> sb_scope b then bytes_le (gov_scope_as_str (sb_scope a)) (gov_scope_as_str (sb_scope b))
                          else binding_le a b) (gv_bindings g))"

definition list_skill_profile_bindings_for_scope :: "governance_scope \<Rightarrow> string \<Rightarrow> gov \<Rightarrow> skill_profile_binding list" where
  "list_skill_profile_bindings_for_scope scope scope_id g =
     sort_key (\<lambda>b. (sb_created_at b, sb_id b)) (filter (\<lambda>b. sb_scope b = scope \<and> sb_scope_id b = scope_id) (gv_bindings g))"

definition unbind_check :: "uuid \<Rightarrow> int \<Rightarrow> gov \<Rightarrow> store_error + unit" where
  "unbind_check i expected g =
     (case get_skill_profile_binding i g of
        None \<Rightarrow> Inl (SkillGovernanceNotFound ''skill profile binding'' i)
      | Some c \<Rightarrow>
          if sb_version c \<noteq> expected
          then Inl (SkillGovernanceVersionConflict ''skill profile binding'' i (sb_version c) expected) else Inr ())"

definition unbind_write :: "uuid \<Rightarrow> int \<Rightarrow> gov \<Rightarrow> bool gtx" where
  "unbind_write i expected g =
     (let p = (\<lambda>b. sb_id b = i \<and> sb_version b = expected)
      in if affected p (gv_bindings g) = 0
         then Inl (case get_skill_profile_binding i g of
                     Some c \<Rightarrow> SkillGovernanceVersionConflict ''skill profile binding'' i (sb_version c) expected
                   | None \<Rightarrow> SkillGovernanceNotFound ''skill profile binding'' i)
         else Inr (True, g\<lparr>gv_bindings := filter (\<lambda>b. \<not> p b) (gv_bindings g)\<rparr>))"

definition unbind_skill_profile :: "uuid \<Rightarrow> int \<Rightarrow> gov \<Rightarrow> bool gtx" where
  "unbind_skill_profile i expected g = tx_bind (unbind_check i expected g) (\<lambda>_. unbind_write i expected g)"

section \<open>Lock snapshots\<close>

definition get_skill_lock_snapshot :: "uuid \<Rightarrow> gov \<Rightarrow> skill_lock_snapshot option" where
  "get_skill_lock_snapshot i g = find (\<lambda>r. sn_id r = i) (gv_snapshots g)"

definition create_skill_lock_snapshot :: "uuid \<Rightarrow> timestamp \<Rightarrow> new_skill_lock_snapshot \<Rightarrow> gov \<Rightarrow> skill_lock_snapshot gtx" where
  "create_skill_lock_snapshot i now input g =
     (if i \<in> sn_id ` set (gv_snapshots g) \<or> \<not> opt_ref (nsn_profile_id input) (sp_id ` set (gv_profiles g)) then Inl constraint
      else let g' = g\<lparr>gv_snapshots := gv_snapshots g @
             [\<lparr>sn_id = i, sn_scope = nsn_scope input, sn_scope_id = nsn_scope_id input, sn_profile_id = nsn_profile_id input,
               sn_snapshot = nsn_snapshot input, sn_observation_hash = nsn_observation_hash input,
               sn_desired_hash = nsn_desired_hash input, sn_lock_hash = nsn_lock_hash input, sn_created_at = now\<rparr>]\<rparr>
           in or_not_found ''skill lock snapshot'' i (get_skill_lock_snapshot i g') g')"

definition list_skill_lock_snapshots :: "governance_scope \<Rightarrow> string \<Rightarrow> gov \<Rightarrow> skill_lock_snapshot list" where
  "list_skill_lock_snapshots scope scope_id g =
     sort_key (\<lambda>n. (- sn_created_at n, sn_id n)) (filter (\<lambda>n. sn_scope n = scope \<and> sn_scope_id n = scope_id) (gv_snapshots g))"

section \<open>Plans\<close>

definition get_skill_governance_plan :: "uuid \<Rightarrow> gov \<Rightarrow> governance_plan option" where
  "get_skill_governance_plan i g = find (\<lambda>r. gp_id r = i) (gv_plans g)"

definition create_skill_governance_plan ::
  "uuid \<Rightarrow> timestamp \<Rightarrow> governance_scope \<Rightarrow> string \<Rightarrow> json \<Rightarrow> string \<Rightarrow> string \<Rightarrow> gov \<Rightarrow> governance_plan gtx" where
  "create_skill_governance_plan i now scope scope_id plan observation desired g =
     (if i \<in> gp_id ` set (gv_plans g) then Inl constraint
      else let g' = g\<lparr>gv_plans := gv_plans g @
             [\<lparr>gp_id = i, gp_scope = scope, gp_scope_id = scope_id, gp_plan = plan, gp_observation_hash = observation,
               gp_desired_hash = desired, gp_status = PlanDraft, gp_version = 1, gp_created_at = now, gp_updated_at = now\<rparr>]\<rparr>
           in or_not_found ''skill governance plan'' i (get_skill_governance_plan i g') g')"

definition list_skill_governance_plans :: "governance_scope \<Rightarrow> string \<Rightarrow> gov \<Rightarrow> governance_plan list" where
  "list_skill_governance_plans scope scope_id g =
     sort_key (\<lambda>r. (- gp_updated_at r, gp_id r)) (filter (\<lambda>r. gp_scope r = scope \<and> gp_scope_id r = scope_id) (gv_plans g))"

definition list_skill_governance_plan_audit :: "uuid \<Rightarrow> gov \<Rightarrow> plan_audit list" where
  "list_skill_governance_plan_audit i g =
     sort_key (\<lambda>a. (pa_created_at a, pa_id a)) (filter (\<lambda>a. pa_plan_id a = i) (gv_plan_audit g))"

fun valid_plan_transition :: "plan_status \<Rightarrow> plan_status \<Rightarrow> bool" where
  "valid_plan_transition from PlanApproved = (from = PlanDraft)"
| "valid_plan_transition from PlanRejected = (from = PlanDraft)"
| "valid_plan_transition from PlanStale = (from = PlanDraft \<or> from = PlanApproved)"
| "valid_plan_transition from PlanDraft = False"

definition transition_skill_governance_plan ::
  "uuid \<Rightarrow> timestamp \<Rightarrow> uuid \<Rightarrow> int \<Rightarrow> string \<Rightarrow> plan_status \<Rightarrow> gov \<Rightarrow> governance_plan gtx" where
  "transition_skill_governance_plan audit_id now i expected action to_status g =
     (case get_skill_governance_plan i g of
        None \<Rightarrow> Inl (SkillGovernanceNotFound ''skill governance plan'' i)
      | Some c \<Rightarrow>
          if gp_version c \<noteq> expected
          then Inl (SkillGovernanceVersionConflict ''skill governance plan'' i (gp_version c) expected)
          else if \<not> valid_plan_transition (gp_status c) to_status
          then Inl (SkillGovernanceTransitionConflict i (plan_status_as_str (gp_status c)) (plan_status_as_str to_status))
          else (let p = (\<lambda>r. gp_id r = i \<and> gp_version r = gp_version c \<and> gp_status r = gp_status c)
                in if affected p (gv_plans g) = 0
                   then Inl (SkillGovernanceVersionConflict ''skill governance plan'' i (gp_version c) expected)
                   else if audit_id \<in> pa_id ` set (gv_plan_audit g) then Inl constraint
                   else let g' = g\<lparr>gv_plans := update_rows p
                              (\<lambda>r. r\<lparr>gp_status := to_status, gp_version := gp_version c + 1, gp_updated_at := now\<rparr>) (gv_plans g),
                              gv_plan_audit := gv_plan_audit g @
                                [\<lparr>pa_id = audit_id, pa_plan_id = i, pa_action = action, pa_from_status = gp_status c,
                                  pa_to_status = to_status, pa_from_version = gp_version c, pa_to_version = gp_version c + 1,
                                  pa_created_at = now\<rparr>]\<rparr>
                        in or_not_found ''skill governance plan'' i (get_skill_governance_plan i g') g'))"

definition approve_skill_governance_plan :: "uuid \<Rightarrow> timestamp \<Rightarrow> uuid \<Rightarrow> int \<Rightarrow> gov \<Rightarrow> governance_plan gtx" where
  "approve_skill_governance_plan audit_id now i expected = transition_skill_governance_plan audit_id now i expected ''approve'' PlanApproved"

definition reject_skill_governance_plan :: "uuid \<Rightarrow> timestamp \<Rightarrow> uuid \<Rightarrow> int \<Rightarrow> gov \<Rightarrow> governance_plan gtx" where
  "reject_skill_governance_plan audit_id now i expected = transition_skill_governance_plan audit_id now i expected ''reject'' PlanRejected"

definition mark_skill_governance_plan_stale :: "uuid \<Rightarrow> timestamp \<Rightarrow> uuid \<Rightarrow> int \<Rightarrow> gov \<Rightarrow> governance_plan gtx" where
  "mark_skill_governance_plan_stale audit_id now i expected = transition_skill_governance_plan audit_id now i expected ''stale'' PlanStale"

section \<open>The audit journal\<close>

definition insert_apply_audit ::
  "uuid \<Rightarrow> timestamp \<Rightarrow> string \<Rightarrow> uuid \<Rightarrow> string \<Rightarrow> string option \<Rightarrow> string option \<Rightarrow> int option \<Rightarrow> int option \<Rightarrow> json \<Rightarrow> gov
     \<Rightarrow> store_error + gov" where
  "insert_apply_audit audit_id anow entity_type entity action from_status to_status from_version to_version evidence g =
     (if audit_id \<in> au_id ` set (gv_audit g) then Inl constraint
      else Inr (g\<lparr>gv_audit := gv_audit g @
             [\<lparr>au_id = audit_id, au_entity_type = entity_type, au_entity_id = entity, au_action = action,
               au_from_status = from_status, au_to_status = to_status, au_from_version = from_version,
               au_to_version = to_version, au_evidence = evidence, au_created_at = anow\<rparr>]\<rparr>))"

definition list_skill_governance_apply_audit :: "string \<Rightarrow> uuid \<Rightarrow> gov \<Rightarrow> apply_audit list" where
  "list_skill_governance_apply_audit entity_type entity g =
     sort_key (\<lambda>a. (au_created_at a, au_id a))
       (filter (\<lambda>a. au_entity_type a = entity_type \<and> au_entity_id a = entity) (gv_audit g))"

section \<open>Scoped leases\<close>

definition get_skill_governance_lock :: "uuid \<Rightarrow> gov \<Rightarrow> scoped_lock option" where
  "get_skill_governance_lock i g = find (\<lambda>r. lk_id r = i) (gv_locks g)"

definition active_lock :: "governance_scope \<Rightarrow> string \<Rightarrow> scoped_lock \<Rightarrow> bool" where
  "active_lock scope scope_id r \<longleftrightarrow> lk_scope r = scope \<and> lk_scope_id r = scope_id \<and> lk_released_at r = None"

definition return_lock :: "uuid \<Rightarrow> gov \<Rightarrow> scoped_lock gtx" where
  "return_lock i g = or_not_found ''skill governance scoped lock'' i (get_skill_governance_lock i g) g"

definition acquire_skill_governance_lock ::
  "uuid \<times> uuid \<Rightarrow> timestamp \<Rightarrow> timestamp \<Rightarrow> governance_scope \<Rightarrow> string \<Rightarrow> string \<Rightarrow> int option \<Rightarrow> uuid option \<Rightarrow> string
     \<Rightarrow> timestamp \<Rightarrow> gov \<Rightarrow> (scoped_lock \<times> bool) gtx" where
  "acquire_skill_governance_lock ids now anow scope scope_id owner process_id run_id nonce expires g =
     (case find (active_lock scope scope_id) (gv_locks g) of
        Some c \<Rightarrow>
          if lk_lease_expires_at c > now
          then Inl (SkillGovernanceLockHeld (gov_scope_as_str scope) scope_id (lk_owner c) (lk_lease_expires_at c))
          else (let p = (\<lambda>r. lk_id r = lk_id c \<and> lk_version r = lk_version c \<and> lk_released_at r = None \<and> lk_lease_expires_at r \<le> now);
                    g1 = g\<lparr>gv_locks := update_rows p
                       (\<lambda>r. r\<lparr>lk_owner := owner, lk_process_id := process_id, lk_run_id := run_id, lk_lease_nonce := nonce,
                              lk_lease_expires_at := expires, lk_acquired_at := now, lk_renewed_at := now,
                              lk_takeover_count := lk_takeover_count r + 1, lk_previous_owner := Some (lk_owner c),
                              lk_previous_run_id := lk_run_id c, lk_taken_over_at := Some now,
                              lk_version := lk_version r + 1, lk_updated_at := now\<rparr>) (gv_locks g)\<rparr>
                in tx_bind (insert_apply_audit (snd ids) anow ''lock'' (lk_id c) ''takeover_stale'' (Some ''expired'') (Some ''active'')
                              (Some (lk_version c)) (Some (lk_version c + 1)) ''{}'' g1) (\<lambda>g2.
                   tx_bind (return_lock (lk_id c) g2) (\<lambda>(r, g3). Inr ((r, True), g3))))
      | None \<Rightarrow>
          if fst ids \<in> lk_id ` set (gv_locks g) then Inl constraint
          else (let g1 = g\<lparr>gv_locks := gv_locks g @
                     [\<lparr>lk_id = fst ids, lk_scope = scope, lk_scope_id = scope_id, lk_owner = owner, lk_process_id = process_id,
                       lk_run_id = run_id, lk_lease_nonce = nonce, lk_lease_expires_at = expires, lk_acquired_at = now,
                       lk_renewed_at = now, lk_released_at = None, lk_takeover_count = 0, lk_previous_owner = None,
                       lk_previous_run_id = None, lk_taken_over_at = None, lk_version = 1, lk_created_at = now,
                       lk_updated_at = now\<rparr>]\<rparr>
                in tx_bind (insert_apply_audit (snd ids) anow ''lock'' (fst ids) ''acquire'' None (Some ''active'')
                              None (Some 1) ''{}'' g1) (\<lambda>g2.
                   tx_bind (return_lock (fst ids) g2) (\<lambda>(r, g3). Inr ((r, False), g3)))))"

definition holds :: "uuid \<Rightarrow> int \<Rightarrow> string \<Rightarrow> scoped_lock \<Rightarrow> bool" where
  "holds i expected nonce r \<longleftrightarrow> lk_id r = i \<and> lk_version r = expected \<and> lk_lease_nonce r = nonce \<and> lk_released_at r = None"

definition lock_version_error :: "uuid \<Rightarrow> int \<Rightarrow> gov \<Rightarrow> store_error" where
  "lock_version_error i expected g =
     (case get_skill_governance_lock i g of
        Some c \<Rightarrow> SkillGovernanceVersionConflict ''skill governance scoped lock'' i (lk_version c) expected
      | None \<Rightarrow> SkillGovernanceNotFound ''skill governance scoped lock'' i)"

definition update_lock ::
  "uuid \<Rightarrow> timestamp \<Rightarrow> uuid \<Rightarrow> int \<Rightarrow> string \<Rightarrow> (scoped_lock \<Rightarrow> scoped_lock) \<Rightarrow> string \<Rightarrow> string \<Rightarrow> json \<Rightarrow> gov \<Rightarrow> scoped_lock gtx" where
  "update_lock audit_id anow i expected nonce f action to_status evidence g =
     (if affected (holds i expected nonce) (gv_locks g) = 0 then Inl (lock_version_error i expected g)
      else tx_bind (insert_apply_audit audit_id anow ''lock'' i action (Some ''active'') (Some to_status) (Some expected)
                      (Some (expected + 1)) evidence (g\<lparr>gv_locks := update_rows (holds i expected nonce) f (gv_locks g)\<rparr>))
             (return_lock i))"

definition renew_skill_governance_lock ::
  "uuid \<Rightarrow> timestamp \<Rightarrow> timestamp \<Rightarrow> uuid \<Rightarrow> int \<Rightarrow> string \<Rightarrow> timestamp \<Rightarrow> gov \<Rightarrow> scoped_lock gtx" where
  "renew_skill_governance_lock audit_id now anow i expected nonce expires =
     update_lock audit_id anow i expected nonce
       (\<lambda>r. r\<lparr>lk_lease_expires_at := expires, lk_renewed_at := now, lk_version := lk_version r + 1, lk_updated_at := now\<rparr>)
       ''renew'' ''active'' ''{}''"

definition attach_skill_governance_lock_run ::
  "(uuid \<Rightarrow> string) \<Rightarrow> uuid \<Rightarrow> timestamp \<Rightarrow> timestamp \<Rightarrow> uuid \<Rightarrow> int \<Rightarrow> string \<Rightarrow> uuid \<Rightarrow> timestamp \<Rightarrow> gov \<Rightarrow> scoped_lock gtx" where
  "attach_skill_governance_lock_run uuid_text audit_id now anow i expected nonce run_id expires =
     update_lock audit_id anow i expected nonce
       (\<lambda>r. r\<lparr>lk_run_id := Some run_id, lk_lease_expires_at := expires, lk_renewed_at := now,
              lk_version := lk_version r + 1, lk_updated_at := now\<rparr>)
       ''attach_run'' ''active'' (''{\"runId\":\"'' @ uuid_text run_id @ ''\"}'')"

definition release_skill_governance_lock ::
  "uuid \<Rightarrow> timestamp \<Rightarrow> timestamp \<Rightarrow> uuid \<Rightarrow> int \<Rightarrow> string \<Rightarrow> gov \<Rightarrow> scoped_lock gtx" where
  "release_skill_governance_lock audit_id now anow i expected nonce =
     update_lock audit_id anow i expected nonce
       (\<lambda>r. r\<lparr>lk_released_at := Some now, lk_version := lk_version r + 1, lk_updated_at := now\<rparr>) ''release'' ''released'' ''{}''"

section \<open>Apply runs\<close>

definition get_skill_governance_apply_run :: "uuid \<Rightarrow> gov \<Rightarrow> apply_run option" where
  "get_skill_governance_apply_run i g = find (\<lambda>r. ar_id r = i) (gv_runs g)"

definition get_skill_governance_apply_run_by_idempotency :: "governance_scope \<Rightarrow> string \<Rightarrow> string \<Rightarrow> gov \<Rightarrow> apply_run option" where
  "get_skill_governance_apply_run_by_idempotency scope scope_id key g =
     find (\<lambda>r. ar_scope r = scope \<and> ar_scope_id r = scope_id \<and> ar_idempotency_key r = key) (gv_runs g)"

definition list_skill_governance_apply_runs :: "governance_scope \<Rightarrow> string \<Rightarrow> gov \<Rightarrow> apply_run list" where
  "list_skill_governance_apply_runs scope scope_id g =
     sort_key (\<lambda>r. (- ar_updated_at r, ar_id r)) (filter (\<lambda>r. ar_scope r = scope \<and> ar_scope_id r = scope_id) (gv_runs g))"

definition return_run :: "uuid \<Rightarrow> gov \<Rightarrow> apply_run gtx" where
  "return_run i g = or_not_found ''skill governance apply run'' i (get_skill_governance_apply_run i g) g"

definition existing_run :: "new_apply_run \<Rightarrow> gov \<Rightarrow> store_error + apply_run option" where
  "existing_run input g =
     (case get_skill_governance_apply_run_by_idempotency (nr_scope input) (nr_scope_id input) (nr_idempotency_key input) g of
        None \<Rightarrow> Inr None
      | Some e \<Rightarrow>
          if ar_nonce e \<noteq> nr_nonce input \<or> ar_observation_hash e \<noteq> nr_observation_hash input
             \<or> ar_desired_hash e \<noteq> nr_desired_hash input \<or> ar_lock_hash e \<noteq> nr_lock_hash input
          then Inl (SkillGovernanceIdempotencyConflict ''skill governance apply run'' (ar_id e))
          else Inr (Some e))"

definition new_run :: "uuid \<Rightarrow> timestamp \<Rightarrow> new_apply_run \<Rightarrow> apply_run" where
  "new_run i now input =
     \<lparr>ar_id = i, ar_scope = nr_scope input, ar_scope_id = nr_scope_id input, ar_plan_id = nr_plan_id input,
      ar_lock_id = nr_lock_id input, ar_idempotency_key = nr_idempotency_key input, ar_nonce = nr_nonce input,
      ar_status = RunPending, ar_recovery_status = RecNotRequired, ar_attempts = 0,
      ar_observation_hash = nr_observation_hash input, ar_desired_hash = nr_desired_hash input,
      ar_lock_hash = nr_lock_hash input, ar_backup_path = nr_backup_path input,
      ar_quarantine_path = nr_quarantine_path input, ar_evidence = nr_evidence input, ar_last_error = None,
      ar_version = 1, ar_started_at = None, ar_completed_at = None, ar_created_at = now, ar_updated_at = now\<rparr>"

definition insert_run :: "uuid \<times> uuid \<Rightarrow> timestamp \<Rightarrow> timestamp \<Rightarrow> new_apply_run \<Rightarrow> gov \<Rightarrow> apply_run gtx" where
  "insert_run ids now anow input g =
     (if fst ids \<in> ar_id ` set (gv_runs g)
         \<or> get_skill_governance_apply_run_by_idempotency (nr_scope input) (nr_scope_id input) (nr_idempotency_key input) g \<noteq> None
         \<or> \<not> opt_ref (nr_plan_id input) (gp_id ` set (gv_plans g)) \<or> \<not> opt_ref (nr_lock_id input) (lk_id ` set (gv_locks g))
      then Inl constraint
      else tx_bind (insert_apply_audit (snd ids) anow ''run'' (fst ids) ''create'' None (Some ''pending'') None (Some 1)
                      (nr_evidence input) (g\<lparr>gv_runs := gv_runs g @ [new_run (fst ids) now input]\<rparr>))
             (return_run (fst ids)))"

definition create_skill_governance_apply_run ::
  "uuid \<times> uuid \<Rightarrow> timestamp \<Rightarrow> timestamp \<Rightarrow> new_apply_run \<Rightarrow> gov \<Rightarrow> apply_run gtx" where
  "create_skill_governance_apply_run ids now anow input g =
     tx_bind (existing_run input g) (\<lambda>e. case e of Some r \<Rightarrow> Inr (r, g) | None \<Rightarrow> insert_run ids now anow input g)"

definition run_completed :: "run_status \<Rightarrow> bool" where
  "run_completed st \<longleftrightarrow> st \<in> {RunSucceeded, RunFailed, RunRolledBack, RunRecoveryRequired}"

definition coalesce :: "'a option \<Rightarrow> 'a option \<Rightarrow> 'a option" where
  "coalesce a b = (case a of Some x \<Rightarrow> Some x | None \<Rightarrow> b)"

definition run_check :: "uuid \<Rightarrow> int \<Rightarrow> gov \<Rightarrow> store_error + apply_run" where
  "run_check i expected g =
     (case get_skill_governance_apply_run i g of
        None \<Rightarrow> Inl (SkillGovernanceNotFound ''skill governance apply run'' i)
      | Some c \<Rightarrow>
          if ar_version c \<noteq> expected
          then Inl (SkillGovernanceVersionConflict ''skill governance apply run'' i (ar_version c) expected) else Inr c)"

definition run_write ::
  "uuid \<Rightarrow> timestamp \<Rightarrow> timestamp \<Rightarrow> apply_run \<Rightarrow> run_status \<Rightarrow> recovery_status \<Rightarrow> string option \<Rightarrow> string option \<Rightarrow> json
     \<Rightarrow> string option \<Rightarrow> gov \<Rightarrow> apply_run gtx" where
  "run_write audit_id now anow c to_status recovery backup quarantine evidence last_error g =
     (let i = ar_id c;
          p = (\<lambda>r. ar_id r = i \<and> ar_version r = ar_version c);
          f = (\<lambda>r. r\<lparr>ar_status := to_status, ar_recovery_status := recovery,
                     ar_attempts := ar_attempts r + (if to_status = RunRunning then 1 else 0), ar_evidence := evidence,
                     ar_backup_path := coalesce backup (ar_backup_path r),
                     ar_quarantine_path := coalesce quarantine (ar_quarantine_path r), ar_last_error := last_error,
                     ar_started_at := (if to_status = RunRunning then Some now else ar_started_at c),
                     ar_completed_at := (if run_completed to_status then Some now else ar_completed_at c),
                     ar_version := ar_version r + 1, ar_updated_at := now\<rparr>)
      in if affected p (gv_runs g) = 0
         then Inl (SkillGovernanceVersionConflict ''skill governance apply run'' i (ar_version c) (ar_version c))
         else tx_bind (insert_apply_audit audit_id anow ''run'' i ''transition'' (Some (run_status_as_str (ar_status c)))
                         (Some (run_status_as_str to_status)) (Some (ar_version c)) (Some (ar_version c + 1)) evidence
                         (g\<lparr>gv_runs := update_rows p f (gv_runs g)\<rparr>))
                (return_run i))"

definition transition_skill_governance_apply_run ::
  "uuid \<Rightarrow> timestamp \<Rightarrow> timestamp \<Rightarrow> uuid \<Rightarrow> int \<Rightarrow> run_status \<Rightarrow> recovery_status \<Rightarrow> string option \<Rightarrow> string option \<Rightarrow> json
     \<Rightarrow> string option \<Rightarrow> gov \<Rightarrow> apply_run gtx" where
  "transition_skill_governance_apply_run audit_id now anow i expected to_status recovery backup quarantine evidence last_error g =
     tx_bind (run_check i expected g) (\<lambda>c. run_write audit_id now anow c to_status recovery backup quarantine evidence last_error g)"

section \<open>Apply actions\<close>

definition get_skill_governance_apply_action :: "uuid \<Rightarrow> gov \<Rightarrow> apply_action option" where
  "get_skill_governance_apply_action i g = find (\<lambda>r. aa_id r = i) (gv_actions g)"

definition get_skill_governance_apply_action_by_key :: "uuid \<Rightarrow> string \<Rightarrow> gov \<Rightarrow> apply_action option" where
  "get_skill_governance_apply_action_by_key run key g = find (\<lambda>r. aa_run_id r = run \<and> aa_action_key r = key) (gv_actions g)"

definition list_skill_governance_apply_actions :: "uuid \<Rightarrow> gov \<Rightarrow> apply_action list" where
  "list_skill_governance_apply_actions run g =
     sort_key (\<lambda>r. (aa_sequence r, aa_id r)) (filter (\<lambda>r. aa_run_id r = run) (gv_actions g))"

definition return_action :: "uuid \<Rightarrow> gov \<Rightarrow> apply_action gtx" where
  "return_action i g = or_not_found ''skill governance apply action'' i (get_skill_governance_apply_action i g) g"

definition existing_action :: "new_apply_action \<Rightarrow> gov \<Rightarrow> store_error + apply_action option" where
  "existing_action input g =
     (case get_skill_governance_apply_action_by_key (na_run_id input) (na_action_key input) g of
        None \<Rightarrow> Inr None
      | Some e \<Rightarrow>
          if aa_sequence e \<noteq> na_sequence input \<or> aa_request_hash e \<noteq> na_request_hash input
          then Inl (SkillGovernanceIdempotencyConflict ''skill governance apply action'' (aa_id e)) else Inr (Some e))"

definition new_action :: "uuid \<Rightarrow> timestamp \<Rightarrow> new_apply_action \<Rightarrow> apply_action" where
  "new_action i now input =
     \<lparr>aa_id = i, aa_run_id = na_run_id input, aa_sequence = na_sequence input, aa_action_key = na_action_key input,
      aa_status = ActPending, aa_attempts = 0, aa_request_hash = na_request_hash input, aa_result_hash = None,
      aa_backup_path = na_backup_path input, aa_quarantine_path = na_quarantine_path input, aa_evidence = na_evidence input,
      aa_last_error = None, aa_version = 1, aa_started_at = None, aa_completed_at = None, aa_created_at = now,
      aa_updated_at = now\<rparr>"

definition insert_action :: "uuid \<times> uuid \<Rightarrow> timestamp \<Rightarrow> timestamp \<Rightarrow> new_apply_action \<Rightarrow> gov \<Rightarrow> apply_action gtx" where
  "insert_action ids now anow input g =
     (if fst ids \<in> aa_id ` set (gv_actions g) \<or> na_sequence input < 0 \<or> na_run_id input \<notin> ar_id ` set (gv_runs g)
         \<or> (\<exists>r \<in> set (gv_actions g). aa_run_id r = na_run_id input
              \<and> (aa_sequence r = na_sequence input \<or> aa_action_key r = na_action_key input))
      then Inl constraint
      else tx_bind (insert_apply_audit (snd ids) anow ''action'' (fst ids) ''create'' None (Some ''pending'') None (Some 1)
                      (na_evidence input) (g\<lparr>gv_actions := gv_actions g @ [new_action (fst ids) now input]\<rparr>))
             (return_action (fst ids)))"

definition create_skill_governance_apply_action ::
  "uuid \<times> uuid \<Rightarrow> timestamp \<Rightarrow> timestamp \<Rightarrow> new_apply_action \<Rightarrow> gov \<Rightarrow> apply_action gtx" where
  "create_skill_governance_apply_action ids now anow input g =
     tx_bind (existing_action input g) (\<lambda>e. case e of Some r \<Rightarrow> Inr (r, g) | None \<Rightarrow> insert_action ids now anow input g)"

definition action_completed :: "action_status \<Rightarrow> bool" where
  "action_completed st \<longleftrightarrow> st \<in> {ActVerified, ActFailed, ActSkipped, ActRolledBack, ActRecoveryRequired}"

definition action_check :: "uuid \<Rightarrow> int \<Rightarrow> gov \<Rightarrow> store_error + apply_action" where
  "action_check i expected g =
     (case get_skill_governance_apply_action i g of
        None \<Rightarrow> Inl (SkillGovernanceNotFound ''skill governance apply action'' i)
      | Some c \<Rightarrow>
          if aa_version c \<noteq> expected
          then Inl (SkillGovernanceVersionConflict ''skill governance apply action'' i (aa_version c) expected) else Inr c)"

definition action_write ::
  "uuid \<Rightarrow> timestamp \<Rightarrow> timestamp \<Rightarrow> apply_action \<Rightarrow> action_status \<Rightarrow> string option \<Rightarrow> string option \<Rightarrow> string option \<Rightarrow> json
     \<Rightarrow> string option \<Rightarrow> gov \<Rightarrow> apply_action gtx" where
  "action_write audit_id now anow c to_status result backup quarantine evidence last_error g =
     (let i = aa_id c;
          p = (\<lambda>r. aa_id r = i \<and> aa_version r = aa_version c);
          f = (\<lambda>r. r\<lparr>aa_status := to_status, aa_attempts := aa_attempts r + (if to_status = ActPreflight then 1 else 0),
                     aa_result_hash := result, aa_evidence := evidence,
                     aa_backup_path := coalesce backup (aa_backup_path r),
                     aa_quarantine_path := coalesce quarantine (aa_quarantine_path r), aa_last_error := last_error,
                     aa_started_at := (if to_status = ActPreflight then Some now else aa_started_at c),
                     aa_completed_at := (if action_completed to_status then Some now else aa_completed_at c),
                     aa_version := aa_version r + 1, aa_updated_at := now\<rparr>)
      in if affected p (gv_actions g) = 0
         then Inl (SkillGovernanceVersionConflict ''skill governance apply action'' i (aa_version c) (aa_version c))
         else tx_bind (insert_apply_audit audit_id anow ''action'' i ''transition'' (Some (action_status_as_str (aa_status c)))
                         (Some (action_status_as_str to_status)) (Some (aa_version c)) (Some (aa_version c + 1)) evidence
                         (g\<lparr>gv_actions := update_rows p f (gv_actions g)\<rparr>))
                (return_action i))"

definition transition_skill_governance_apply_action ::
  "uuid \<Rightarrow> timestamp \<Rightarrow> timestamp \<Rightarrow> uuid \<Rightarrow> int \<Rightarrow> action_status \<Rightarrow> string option \<Rightarrow> string option \<Rightarrow> string option \<Rightarrow> json
     \<Rightarrow> string option \<Rightarrow> gov \<Rightarrow> apply_action gtx" where
  "transition_skill_governance_apply_action audit_id now anow i expected to_status result backup quarantine evidence last_error g =
     tx_bind (action_check i expected g) (\<lambda>c. action_write audit_id now anow c to_status result backup quarantine evidence last_error g)"

end
