(* ===== verification/GovSystem.thy ===== *)
theory GovSystem
  imports SkillGovernance
begin

text \<open>
  The skill governance store as a system: every method that writes as a step, the invariant of its
  tables (unique active leases, unique idempotency keys, complete audit trails, plan decisions that
  replay from their audit) and what follows for leases, plans and overlapping transitions.
\<close>

section \<open>Steps\<close>

inductive gov_step :: "(uuid \<Rightarrow> string) \<Rightarrow> gov \<Rightarrow> gov \<Rightarrow> bool" for ut :: "uuid \<Rightarrow> string" where
  gs_profile: "create_skill_profile i now doc g = Inr (r, g') \<Longrightarrow> gov_step ut g g'"
| gs_update_profile: "update_skill_profile now i doc v g = Inr (r, g') \<Longrightarrow> gov_step ut g g'"
| gs_delete_profile: "delete_skill_profile i v g = Inr (b, g') \<Longrightarrow> gov_step ut g g'"
| gs_bind: "bind_skill_profile i now sc sid p g = Inr (bd, g') \<Longrightarrow> gov_step ut g g'"
| gs_unbind: "unbind_skill_profile i v g = Inr (b, g') \<Longrightarrow> gov_step ut g g'"
| gs_snapshot: "create_skill_lock_snapshot i now snap g = Inr (n, g') \<Longrightarrow> gov_step ut g g'"
| gs_plan: "create_skill_governance_plan i now sc sid pl oh dh g = Inr (p, g') \<Longrightarrow> gov_step ut g g'"
| gs_decide: "transition_skill_governance_plan aid now i v act st g = Inr (p, g') \<Longrightarrow> gov_step ut g g'"
| gs_acquire: "acquire_skill_governance_lock ids now anow sc sid owner pid rid nonce ex g = Inr (l, g') \<Longrightarrow> gov_step ut g g'"
| gs_renew: "renew_skill_governance_lock aid now anow i v nonce ex g = Inr (l1, g') \<Longrightarrow> gov_step ut g g'"
| gs_attach: "attach_skill_governance_lock_run ut aid now anow i v nonce rid ex g = Inr (l1, g') \<Longrightarrow> gov_step ut g g'"
| gs_release: "release_skill_governance_lock aid now anow i v nonce g = Inr (l1, g') \<Longrightarrow> gov_step ut g g'"
| gs_run: "create_skill_governance_apply_run ids now anow nr g = Inr (run, g') \<Longrightarrow> gov_step ut g g'"
| gs_run_to: "transition_skill_governance_apply_run aid now anow i v rst rec bp qp ev le g = Inr (run, g') \<Longrightarrow> gov_step ut g g'"
| gs_action: "create_skill_governance_apply_action ids now anow na g = Inr (a, g') \<Longrightarrow> gov_step ut g g'"
| gs_action_to: "transition_skill_governance_apply_action aid now anow i v ast res bp qp ev le g = Inr (a, g') \<Longrightarrow> gov_step ut g g'"

section \<open>Audit trails\<close>

definition trail :: "string \<Rightarrow> uuid \<Rightarrow> apply_audit list \<Rightarrow> int option list" where
  "trail kind i au = map au_to_version (filter (\<lambda>a. au_entity_type a = kind \<and> au_entity_id a = i) au)"

definition trail_ok :: "string \<Rightarrow> ('r \<Rightarrow> uuid) \<Rightarrow> ('r \<Rightarrow> int) \<Rightarrow> 'r list \<Rightarrow> apply_audit list \<Rightarrow> bool" where
  "trail_ok kind tid ver rows au \<longleftrightarrow> distinct (map tid rows)
     \<and> (\<forall>r \<in> set rows. 1 \<le> ver r \<and> trail kind (tid r) au = map Some [1..ver r])
     \<and> (\<forall>a \<in> set au. au_entity_type a = kind \<longrightarrow> au_entity_id a \<in> tid ` set rows)"

lemma trail_append [simp]: "trail kind i (au @ bu) = trail kind i au @ trail kind i bu"
  by (simp add: trail_def)

lemma trail_other:
  "trail_ok kind tid ver rows au \<Longrightarrow> au_entity_type a \<noteq> kind \<Longrightarrow> trail_ok kind tid ver rows (au @ [a])"
  by (auto simp: trail_ok_def trail_def)

lemma trail_insert:
  assumes "trail_ok kind tid ver rows au" "tid r \<notin> tid ` set rows" "ver r = 1"
    "au_entity_type a = kind" "au_entity_id a = tid r" "au_to_version a = Some 1"
  shows "trail_ok kind tid ver (rows @ [r]) (au @ [a])"
proof -
  have "\<forall>a \<in> set au. au_entity_type a = kind \<longrightarrow> au_entity_id a \<noteq> tid r"
    using assms(1,2) unfolding trail_ok_def by metis
  then have "trail kind (tid r) au = []" by (simp add: trail_def filter_empty_conv)
  moreover have "tid r' \<noteq> tid r" if "r' \<in> set rows" for r'
    using that assms(2) by (auto simp: image_iff)
  ultimately show ?thesis
    using assms by (auto simp: trail_ok_def trail_def)
qed

lemma upto_snoc: "1 \<le> v \<Longrightarrow> [1..v + 1] = [1..v] @ [v + (1::int)]"
  using upto_rec2 [of 1 "v + 1"] by simp

lemma trail_update:
  assumes "trail_ok kind tid ver rows au" "c \<in> set rows" "\<And>r. r \<in> set rows \<Longrightarrow> p r \<longleftrightarrow> r = c"
    "\<And>r. tid (f r) = tid r" "ver (f c) = ver c + 1"
    "au_entity_type a = kind" "au_entity_id a = tid c" "au_to_version a = Some (ver c + 1)"
  shows "trail_ok kind tid ver (update_rows p f rows) (au @ [a])"
proof -
  have ids: "map tid (update_rows p f rows) = map tid rows" by (simp add: map_update_rows assms(4))
  have im: "tid ` set (update_rows p f rows) = tid ` set rows" using arg_cong [OF ids, of set] by simp
  have c: "1 \<le> ver c" "trail kind (tid c) au = map Some [1..ver c]" using assms(1,2) by (auto simp: trail_ok_def)
  have "1 \<le> ver r \<and> trail kind (tid r) (au @ [a]) = map Some [1..ver r]" if "r \<in> set (update_rows p f rows)" for r
  proof (cases "r = f c")
    case True
    then show ?thesis using c assms(4-8) by (simp add: trail_def upto_snoc)
  next
    case False
    then have r: "r \<in> set rows" "r \<noteq> c" using that assms(2,3) by (auto simp: set_update_rows)
    then have "tid r \<noteq> tid c" using assms(1,2) by (auto simp: trail_ok_def distinct_map dest: inj_onD)
    with r assms(1,7) show ?thesis by (auto simp: trail_ok_def trail_def)
  qed
  then show ?thesis using assms(1,2,6,7) ids im by (auto simp: trail_ok_def)
qed

section \<open>Plans replay from their audit\<close>

fun replay :: "plan_status \<times> int \<Rightarrow> plan_audit list \<Rightarrow> (plan_status \<times> int) option" where
  "replay s [] = Some s"
| "replay (st, v) (a # as) =
     (if pa_from_status a = st \<and> pa_from_version a = v \<and> pa_to_version a = v + 1 \<and> valid_plan_transition st (pa_to_status a)
      then replay (pa_to_status a, v + 1) as else None)"

lemma replay_snoc: "replay s (as @ [a]) = Option.bind (replay s as) (\<lambda>t. replay t [a])"
  by (induction s as rule: replay.induct) auto

definition plan_log :: "uuid \<Rightarrow> gov \<Rightarrow> plan_audit list" where
  "plan_log i g = filter (\<lambda>a. pa_plan_id a = i) (gv_plan_audit g)"

definition plans_ok :: "gov \<Rightarrow> bool" where
  "plans_ok g \<longleftrightarrow> distinct (map gp_id (gv_plans g))
     \<and> (\<forall>p \<in> set (gv_plans g). replay (PlanDraft, 1) (plan_log (gp_id p) g) = Some (gp_status p, gp_version p))
     \<and> (\<forall>a \<in> set (gv_plan_audit g). pa_plan_id a \<in> gp_id ` set (gv_plans g))"

lemma plan_createE:
  assumes "create_skill_governance_plan i now sc sid pl oh dh g = Inr (p, g')"
  obtains "i \<notin> gp_id ` set (gv_plans g)" "g' = g\<lparr>gv_plans := gv_plans g @ [p]\<rparr>" "gp_id p = i" "gp_status p = PlanDraft" "gp_version p = 1"
proof -
  let ?p = "\<lparr>gp_id = i, gp_scope = sc, gp_scope_id = sid, gp_plan = pl, gp_observation_hash = oh,
               gp_desired_hash = dh, gp_status = PlanDraft, gp_version = 1, gp_created_at = now, gp_updated_at = now\<rparr>"
  have n: "i \<notin> gp_id ` set (gv_plans g)" using assms by (auto simp: create_skill_governance_plan_def split: if_splits)
  then have "find (\<lambda>r. gp_id r = i) (gv_plans g @ [?p]) = Some ?p"
    by (intro find_snoc_key) simp_all
  with n assms show ?thesis
    by (intro that) (auto simp: create_skill_governance_plan_def get_skill_governance_plan_def or_not_found_def Let_def)
qed

lemma plan_decideE:
  assumes "transition_skill_governance_plan aid now i v act st g = Inr (p, g')" "distinct (map gp_id (gv_plans g))"
  obtains c a where "c \<in> set (gv_plans g)" "gp_id c = i" "gp_version c = v" "valid_plan_transition (gp_status c) st"
    "g' = g\<lparr>gv_plans := map (\<lambda>r. if r = c then r\<lparr>gp_status := st, gp_version := v + 1, gp_updated_at := now\<rparr> else r) (gv_plans g),
            gv_plan_audit := gv_plan_audit g @ [a]\<rparr>"
    "pa_plan_id a = i" "pa_from_status a = gp_status c" "pa_to_status a = st" "pa_from_version a = v" "pa_to_version a = v + 1"
proof -
  obtain c where c: "get_skill_governance_plan i g = Some c" "gp_version c = v" "valid_plan_transition (gp_status c) st"
    using assms(1) by (auto simp: transition_skill_governance_plan_def split: option.splits if_splits)
  then have c': "c \<in> set (gv_plans g)" "gp_id c = i" by (auto simp: get_skill_governance_plan_def dest: find_Some_set)
  let ?p = "\<lambda>r. gp_id r = i \<and> gp_version r = v \<and> gp_status r = gp_status c"
  let ?a = "\<lparr>pa_id = aid, pa_plan_id = i, pa_action = act, pa_from_status = gp_status c, pa_to_status = st,
             pa_from_version = v, pa_to_version = v + 1, pa_created_at = now\<rparr>"
  define f :: "governance_plan \<Rightarrow> governance_plan" where "f = (\<lambda>r. r\<lparr>gp_status := st, gp_version := v + 1, gp_updated_at := now\<rparr>)"
  have u: "update_rows ?p f (gv_plans g) = map (\<lambda>r. if r = c then f r else r) (gv_plans g)"
    using key_iff [OF assms(2) c'(1)] c'(2) c(2) by (auto simp: update_rows_def)
  have "affected ?p (gv_plans g) \<noteq> 0" using c' c(2) by (auto simp: affected_zero)
  then have "g' = g\<lparr>gv_plans := update_rows ?p f (gv_plans g), gv_plan_audit := gv_plan_audit g @ [?a]\<rparr>"
    using assms(1) unfolding transition_skill_governance_plan_def c(1) Let_def
    by (simp add: c(2,3) or_not_found_def f_def split: if_splits option.splits)
  then have g': "g' = g\<lparr>gv_plans := map (\<lambda>r. if r = c then f r else r) (gv_plans g), gv_plan_audit := gv_plan_audit g @ [?a]\<rparr>"
    by (simp only: u)
  show ?thesis by (rule that [OF c' c(2,3) g' [unfolded f_def]]) simp_all
qed

lemma plans_ok_create:
  assumes "plans_ok g" "create_skill_governance_plan i now sc sid pl oh dh g = Inr (p, g')"
  shows "plans_ok g'"
  using assms(2)
proof (rule plan_createE)
  assume n: "i \<notin> gp_id ` set (gv_plans g)" "g' = g\<lparr>gv_plans := gv_plans g @ [p]\<rparr>" "gp_id p = i" "gp_status p = PlanDraft" "gp_version p = 1"
  have "\<forall>a \<in> set (gv_plan_audit g). pa_plan_id a \<noteq> i" using assms(1) n(1) unfolding plans_ok_def by metis
  then have "plan_log i g' = []" by (simp add: plan_log_def n(2) filter_empty_conv)
  with assms(1) n show ?thesis by (auto simp: plans_ok_def plan_log_def)
qed

lemma plans_ok_decide:
  assumes "plans_ok g" "transition_skill_governance_plan aid now i v act st g = Inr (p, g')"
  shows "plans_ok g'"
proof -
  have d: "distinct (map gp_id (gv_plans g))" using assms(1) by (simp add: plans_ok_def)
  obtain c a where c: "c \<in> set (gv_plans g)" "gp_id c = i" "gp_version c = v" "valid_plan_transition (gp_status c) st"
    and g': "g' = g\<lparr>gv_plans := map (\<lambda>r. if r = c then r\<lparr>gp_status := st, gp_version := v + 1, gp_updated_at := now\<rparr> else r) (gv_plans g),
            gv_plan_audit := gv_plan_audit g @ [a]\<rparr>"
    and a: "pa_plan_id a = i" "pa_from_status a = gp_status c" "pa_to_status a = st" "pa_from_version a = v" "pa_to_version a = v + 1"
    using assms(2) d by (rule plan_decideE)
  have ids: "map gp_id (gv_plans g') = map gp_id (gv_plans g)" by (simp add: g')
  have log: "plan_log j g' = plan_log j g @ (if j = i then [a] else [])" for j by (simp add: plan_log_def g' a(1))
  have rc: "replay (PlanDraft, 1) (plan_log i g) = Some (gp_status c, v)" using assms(1) c by (auto simp: plans_ok_def)
  have "replay (PlanDraft, 1) (plan_log (gp_id q) g') = Some (gp_status q, gp_version q)" if "q \<in> set (gv_plans g')" for q
  proof (cases "gp_id q = i")
    case True
    then have "gp_status q = st" "gp_version q = v + 1"
      using that c(2) key_iff [OF d c(1)] by (auto simp: g' split: if_splits)
    then show ?thesis using True rc a c(4) by (simp add: log replay_snoc)
  next
    case False
    then have "q \<in> set (gv_plans g)" using that c(2) by (auto simp: g' split: if_splits)
    with False assms(1) show ?thesis by (simp add: log plans_ok_def)
  qed
  moreover have "pa_plan_id b \<in> gp_id ` set (gv_plans g')" if "b \<in> set (gv_plan_audit g')" for b
  proof -
    have "gp_id ` set (gv_plans g') = gp_id ` set (gv_plans g)" by (metis ids list.set_map)
    moreover have "pa_plan_id b \<in> gp_id ` set (gv_plans g)" using that assms(1) a(1) imageI [OF c(1), of gp_id] by (auto simp: g' plans_ok_def c(2))
    ultimately show ?thesis by simp
  qed
  ultimately show ?thesis using d ids by (simp add: plans_ok_def)
qed

section \<open>Leases\<close>

definition lock_key :: "scoped_lock \<Rightarrow> governance_scope \<times> string" where
  "lock_key r = (lk_scope r, lk_scope_id r)"

definition unreleased :: "scoped_lock \<Rightarrow> bool" where
  "unreleased r \<longleftrightarrow> lk_released_at r = None"

definition locks_ok :: "gov \<Rightarrow> bool" where
  "locks_ok g \<longleftrightarrow> trail_ok ''lock'' lk_id lk_version (gv_locks g) (gv_audit g)
     \<and> distinct (map lock_key (filter unreleased (gv_locks g)))"

lemma distinct_keys_update:
  assumes "distinct (map k (filter q rows))" "\<And>r. k (f r) = k r" "\<And>r. q (f r) \<Longrightarrow> q r"
  shows "distinct (map k (filter q (update_rows p f rows)))"
  using assms(1)
proof (induction rows)
  case (Cons r rows)
  have sub: "k ` {x \<in> set (update_rows p f rows). q x} \<subseteq> k ` {x \<in> set rows. q x}"
  proof
    fix y assume "y \<in> k ` {x \<in> set (update_rows p f rows). q x}"
    then obtain x where x: "y = k x" "x \<in> set (update_rows p f rows)" "q x" by auto
    then consider "x \<in> set rows" | z where "z \<in> set rows" "x = f z" by (auto simp: set_update_rows)
    then show "y \<in> k ` {x \<in> set rows. q x}"
      using x assms(2,3) by cases (auto simp: image_iff)
  qed
  have ih: "distinct (map k (filter q (update_rows p f rows)))" using Cons by (auto split: if_splits)
  have new: "k r \<notin> k ` {x \<in> set (update_rows p f rows). q x}" if "q r" using that Cons.prems sub by auto
  let ?r = "if p r then f r else r"
  have "update_rows p f (r # rows) = ?r # update_rows p f rows" by (simp add: update_rows_def)
  moreover have "k ?r = k r" "q ?r \<Longrightarrow> q r" using assms(2,3) [of r] by (auto split: if_splits)
  ultimately show ?case using ih new by simp
qed (simp add: update_rows_def)

lemma audit_insertE:
  assumes "insert_apply_audit aid anow kind i act fs ts fv tv ev g = Inr g'"
  obtains a where "g' = g\<lparr>gv_audit := gv_audit g @ [a]\<rparr>" "au_entity_type a = kind" "au_entity_id a = i" "au_to_version a = tv"
  using assms by (auto simp: insert_apply_audit_def split: if_splits intro: that)

lemma update_lockE:
  assumes "update_lock aid anow i v nonce f act ts ev g = Inr (l, g')" "distinct (map lk_id (gv_locks g))" "\<And>r. lk_id (f r) = lk_id r"
  obtains c a where "c \<in> set (gv_locks g)" "holds i v nonce c" "l = f c"
    "g' = g\<lparr>gv_locks := update_rows (holds i v nonce) f (gv_locks g), gv_audit := gv_audit g @ [a]\<rparr>"
    "\<forall>r \<in> set (gv_locks g). holds i v nonce r \<longleftrightarrow> r = c"
    "au_entity_type a = ''lock''" "au_entity_id a = i" "au_to_version a = Some (v + 1)"
proof -
  let ?g = "g\<lparr>gv_locks := update_rows (holds i v nonce) f (gv_locks g)\<rparr>"
  have n: "affected (holds i v nonce) (gv_locks g) \<noteq> 0" using assms(1) by (auto simp: update_lock_def split: if_splits)
  obtain g2 where g2: "insert_apply_audit aid anow ''lock'' i act (Some ''active'') (Some ts) (Some v) (Some (v + 1)) ev ?g = Inr g2"
    "return_lock i g2 = Inr (l, g')"
    using assms(1) n unfolding update_lock_def by (simp add: tx_bind_Inr_iff) blast
  obtain a where a: "g2 = ?g\<lparr>gv_audit := gv_audit ?g @ [a]\<rparr>" "au_entity_type a = ''lock''" "au_entity_id a = i" "au_to_version a = Some (v + 1)"
    using g2(1) by (rule audit_insertE)
  obtain c where c: "c \<in> set (gv_locks g)" "holds i v nonce c" using n by (auto simp: affected_zero)
  have u: "holds i v nonce r \<longleftrightarrow> r = c" if "r \<in> set (gv_locks g)" for r
    using key_iff [OF assms(2) c(1) that] c(2) by (auto simp: holds_def)
  have "f c \<in> set (update_rows (holds i v nonce) f (gv_locks g))" using c by (auto simp: set_update_rows)
  then have "find (\<lambda>r. lk_id r = i) (update_rows (holds i v nonce) f (gv_locks g)) = Some (f c)"
    using assms(2,3) c(2) by (intro find_key) (simp_all add: map_update_rows holds_def)
  then have "l = f c" "g' = g2"
    using g2(2) by (auto simp: return_lock_def or_not_found_def get_skill_governance_lock_def a(1))
  from this(2) a(1) have "g' = g\<lparr>gv_locks := update_rows (holds i v nonce) f (gv_locks g), gv_audit := gv_audit g @ [a]\<rparr>" by simp
  from that [OF c \<open>l = f c\<close> this _ a(2-4)] u show ?thesis by blast
qed

lemma locks_ok_update:
  assumes "locks_ok g" "update_lock aid anow i v nonce f act ts ev g = Inr (l, g')"
    and f: "\<And>r. lk_id (f r) = lk_id r" "\<And>r. lk_version (f r) = lk_version r + 1" "\<And>r. lock_key (f r) = lock_key r" "\<And>r. unreleased (f r) \<Longrightarrow> unreleased r"
  shows "locks_ok g'"
proof -
  have t: "trail_ok ''lock'' lk_id lk_version (gv_locks g) (gv_audit g)" using assms(1) by (simp add: locks_ok_def)
  have d: "distinct (map lk_id (gv_locks g))" using t by (simp add: trail_ok_def)
  obtain c a where c: "c \<in> set (gv_locks g)" "holds i v nonce c" "l = f c"
    and g': "g' = g\<lparr>gv_locks := update_rows (holds i v nonce) f (gv_locks g), gv_audit := gv_audit g @ [a]\<rparr>"
    and u: "\<forall>r \<in> set (gv_locks g). holds i v nonce r \<longleftrightarrow> r = c"
    and a: "au_entity_type a = ''lock''" "au_entity_id a = i" "au_to_version a = Some (v + 1)"
    using assms(2) d f(1) by (rule update_lockE)
  have "lk_id c = i" "lk_version c = v" using c(2) by (simp_all add: holds_def)
  then have "trail_ok ''lock'' lk_id lk_version (update_rows (holds i v nonce) f (gv_locks g)) (gv_audit g @ [a])"
    using a by (intro trail_update [where f = f and p = "holds i v nonce", OF t c(1) u [rule_format] f(1)]) (simp_all add: f(2))
  moreover have "distinct (map lock_key (filter unreleased (update_rows (holds i v nonce) f (gv_locks g))))"
    using assms(1) f(3,4) by (intro distinct_keys_update) (simp_all add: locks_ok_def)
  ultimately show ?thesis by (simp add: locks_ok_def g')
qed

lemma acquireE:
  assumes "acquire_skill_governance_lock ids now anow sc sid owner pid rid nonce ex g = Inr (l, g')" "distinct (map lk_id (gv_locks g))"
  obtains (fresh) r a where "\<not> (\<exists>c \<in> set (gv_locks g). active_lock sc sid c)" "fst ids \<notin> lk_id ` set (gv_locks g)"
      "g' = g\<lparr>gv_locks := gv_locks g @ [r], gv_audit := gv_audit g @ [a]\<rparr>" "l = (r, False)"
      "lk_id r = fst ids" "lk_version r = 1" "lock_key r = (sc, sid)" "unreleased r" "lk_lease_nonce r = nonce" "lk_lease_expires_at r = ex"
      "au_entity_type a = ''lock''" "au_entity_id a = fst ids" "au_to_version a = Some 1"
  | (takeover) c f a where "c \<in> set (gv_locks g)" "active_lock sc sid c" "lk_lease_expires_at c \<le> now"
      "g' = g\<lparr>gv_locks := update_rows (\<lambda>r. r = c) f (gv_locks g), gv_audit := gv_audit g @ [a]\<rparr>" "l = (f c, True)"
      "\<And>r. lk_id (f r) = lk_id r" "\<And>r. lk_version (f r) = lk_version r + 1" "\<And>r. lock_key (f r) = lock_key r" "\<And>r. unreleased (f r) = unreleased r"
      "lk_lease_nonce (f c) = nonce" "lk_lease_expires_at (f c) = ex"
      "au_entity_type a = ''lock''" "au_entity_id a = lk_id c" "au_to_version a = Some (lk_version c + 1)"
proof (cases "find (active_lock sc sid) (gv_locks g)")
  case None
  let ?r = "\<lparr>lk_id = fst ids, lk_scope = sc, lk_scope_id = sid, lk_owner = owner, lk_process_id = pid,
                       lk_run_id = rid, lk_lease_nonce = nonce, lk_lease_expires_at = ex, lk_acquired_at = now,
                       lk_renewed_at = now, lk_released_at = None, lk_takeover_count = 0, lk_previous_owner = None,
                       lk_previous_run_id = None, lk_taken_over_at = None, lk_version = 1, lk_created_at = now,
                       lk_updated_at = now\<rparr>"
  let ?g = "g\<lparr>gv_locks := gv_locks g @ [?r]\<rparr>"
  have n: "fst ids \<notin> lk_id ` set (gv_locks g)"
    using assms(1) None by (auto simp: acquire_skill_governance_lock_def split: if_splits)
  obtain g2 g3 l1 where g2: "insert_apply_audit (snd ids) anow ''lock'' (fst ids) ''acquire'' None (Some ''active'') None (Some 1) ''{}'' ?g = Inr g2"
    "return_lock (fst ids) g2 = Inr (l1, g3)" "l = (l1, False)" "g' = g3"
    using assms(1) None n unfolding acquire_skill_governance_lock_def Let_def by (auto simp: tx_bind_Inr_iff)
  obtain a where a: "g2 = ?g\<lparr>gv_audit := gv_audit ?g @ [a]\<rparr>" "au_entity_type a = ''lock''" "au_entity_id a = fst ids" "au_to_version a = Some 1"
    using g2(1) by (rule audit_insertE)
  have "find (\<lambda>r. lk_id r = fst ids) (gv_locks g @ [?r]) = Some ?r" using n by (intro find_snoc_key) simp_all
  then have "l1 = ?r" "g3 = g2" using g2(2) by (auto simp: return_lock_def or_not_found_def get_skill_governance_lock_def a(1))
  with g2(3,4) a(1) have "l = (?r, False)" "g' = g\<lparr>gv_locks := gv_locks g @ [?r], gv_audit := gv_audit g @ [a]\<rparr>" by simp_all
  then show ?thesis using None n a(2-4) by (intro fresh [where r = ?r and a = a]) (auto simp: find_None_iff lock_key_def unreleased_def)
next
  case (Some c)
  then have c: "c \<in> set (gv_locks g)" "active_lock sc sid c" by (auto dest: find_Some_set)
  have e: "lk_lease_expires_at c \<le> now" using assms(1) Some by (auto simp: acquire_skill_governance_lock_def split: if_splits)
  define f :: "scoped_lock \<Rightarrow> scoped_lock" where "f = (\<lambda>r. r\<lparr>lk_owner := owner, lk_process_id := pid, lk_run_id := rid, lk_lease_nonce := nonce,
                              lk_lease_expires_at := ex, lk_acquired_at := now, lk_renewed_at := now,
                              lk_takeover_count := lk_takeover_count r + 1, lk_previous_owner := Some (lk_owner c),
                              lk_previous_run_id := lk_run_id c, lk_taken_over_at := Some now,
                              lk_version := lk_version r + 1, lk_updated_at := now\<rparr>)"
  let ?p = "\<lambda>r. lk_id r = lk_id c \<and> lk_version r = lk_version c \<and> lk_released_at r = None \<and> lk_lease_expires_at r \<le> now"
  have u: "update_rows ?p f (gv_locks g) = update_rows (\<lambda>r. r = c) f (gv_locks g)"
    using key_iff [OF assms(2) c(1)] c(2) e by (auto simp: update_rows_def active_lock_def)
  let ?g = "g\<lparr>gv_locks := update_rows (\<lambda>r. r = c) f (gv_locks g)\<rparr>"
  obtain g2 g3 l1 where g2: "insert_apply_audit (snd ids) anow ''lock'' (lk_id c) ''takeover_stale'' (Some ''expired'') (Some ''active'')
      (Some (lk_version c)) (Some (lk_version c + 1)) ''{}'' ?g = Inr g2"
    "return_lock (lk_id c) g2 = Inr (l1, g3)" "l = (l1, True)" "g' = g3"
    using assms(1) Some e unfolding acquire_skill_governance_lock_def Let_def by (auto simp: tx_bind_Inr_iff u [unfolded f_def] f_def)
  obtain a where a: "g2 = ?g\<lparr>gv_audit := gv_audit ?g @ [a]\<rparr>" "au_entity_type a = ''lock''" "au_entity_id a = lk_id c" "au_to_version a = Some (lk_version c + 1)"
    using g2(1) by (rule audit_insertE)
  have "f c \<in> set (update_rows (\<lambda>r. r = c) f (gv_locks g))" using c by (auto simp: set_update_rows)
  then have "find (\<lambda>r. lk_id r = lk_id c) (update_rows (\<lambda>r. r = c) f (gv_locks g)) = Some (f c)"
    using assms(2) by (intro find_key) (simp_all add: map_update_rows f_def)
  then have "l1 = f c" "g3 = g2" using g2(2) by (auto simp: return_lock_def or_not_found_def get_skill_governance_lock_def a(1))
  with g2(3,4) a(1) have lg: "l = (f c, True)" "g' = g\<lparr>gv_locks := update_rows (\<lambda>r. r = c) f (gv_locks g), gv_audit := gv_audit g @ [a]\<rparr>" by simp_all
  show ?thesis by (rule takeover [OF c e lg(2,1) _ _ _ _ _ _ a(2-4)]) (simp_all add: f_def lock_key_def unreleased_def)
qed

lemma locks_ok_acquire:
  assumes "locks_ok g" "acquire_skill_governance_lock ids now anow sc sid owner pid rid nonce ex g = Inr (l, g')"
  shows "locks_ok g'"
proof -
  have t: "trail_ok ''lock'' lk_id lk_version (gv_locks g) (gv_audit g)" and k: "distinct (map lock_key (filter unreleased (gv_locks g)))"
    using assms(1) by (simp_all add: locks_ok_def)
  have "distinct (map lk_id (gv_locks g))" using t by (simp add: trail_ok_def)
  with assms(2) show ?thesis
  proof (cases rule: acquireE)
    case (fresh r a)
    have "(sc, sid) \<notin> lock_key ` {c \<in> set (gv_locks g). unreleased c}"
      using fresh(1) by (auto simp: active_lock_def lock_key_def unreleased_def)
    then show ?thesis
      using k fresh trail_insert [OF t, of r a] by (simp add: locks_ok_def)
  next
    case (takeover c f a)
    have "trail_ok ''lock'' lk_id lk_version (update_rows (\<lambda>r. r = c) f (gv_locks g)) (gv_audit g @ [a])"
      using takeover by (intro trail_update [OF t takeover(1)]) simp_all
    moreover have "distinct (map lock_key (filter unreleased (update_rows (\<lambda>r. r = c) f (gv_locks g))))"
      using k takeover(8,9) by (intro distinct_keys_update) simp_all
    ultimately show ?thesis by (simp add: locks_ok_def takeover(4))
  qed
qed

section \<open>Runs and actions\<close>

definition run_key :: "apply_run \<Rightarrow> governance_scope \<times> string \<times> string" where
  "run_key r = (ar_scope r, ar_scope_id r, ar_idempotency_key r)"

definition run_ident :: "apply_run \<Rightarrow> (governance_scope \<times> string \<times> string) \<times> string \<times> string \<times> string \<times> string" where
  "run_ident r = (run_key r, ar_nonce r, ar_observation_hash r, ar_desired_hash r, ar_lock_hash r)"

definition runs_ok :: "gov \<Rightarrow> bool" where
  "runs_ok g \<longleftrightarrow> trail_ok ''run'' ar_id ar_version (gv_runs g) (gv_audit g) \<and> distinct (map run_key (gv_runs g))"

definition actions_ok :: "gov \<Rightarrow> bool" where
  "actions_ok g \<longleftrightarrow> trail_ok ''action'' aa_id aa_version (gv_actions g) (gv_audit g)
     \<and> distinct (map (\<lambda>r. (aa_run_id r, aa_action_key r)) (gv_actions g))
     \<and> distinct (map (\<lambda>r. (aa_run_id r, aa_sequence r)) (gv_actions g))
     \<and> aa_run_id ` set (gv_actions g) \<subseteq> ar_id ` set (gv_runs g)"

lemma insert_runE:
  assumes "insert_run ids now anow nr g = Inr (run, g')"
  obtains a where "run = new_run (fst ids) now nr" "fst ids \<notin> ar_id ` set (gv_runs g)"
    "(nr_scope nr, nr_scope_id nr, nr_idempotency_key nr) \<notin> run_key ` set (gv_runs g)"
    "g' = g\<lparr>gv_runs := gv_runs g @ [new_run (fst ids) now nr], gv_audit := gv_audit g @ [a]\<rparr>"
    "au_entity_type a = ''run''" "au_entity_id a = fst ids" "au_to_version a = Some 1"
proof -
  let ?r = "new_run (fst ids) now nr"
  let ?g = "g\<lparr>gv_runs := gv_runs g @ [?r]\<rparr>"
  have n: "fst ids \<notin> ar_id ` set (gv_runs g)"
    "get_skill_governance_apply_run_by_idempotency (nr_scope nr) (nr_scope_id nr) (nr_idempotency_key nr) g = None"
    using assms by (auto simp: insert_run_def split: if_splits)
  obtain g2 where g2: "insert_apply_audit (snd ids) anow ''run'' (fst ids) ''create'' None (Some ''pending'') None (Some 1) (nr_evidence nr) ?g = Inr g2"
    "return_run (fst ids) g2 = Inr (run, g')"
    using assms by (auto simp: insert_run_def tx_bind_Inr_iff split: if_splits)
  obtain a where a: "g2 = ?g\<lparr>gv_audit := gv_audit ?g @ [a]\<rparr>" "au_entity_type a = ''run''" "au_entity_id a = fst ids" "au_to_version a = Some 1"
    using g2(1) by (rule audit_insertE)
  have "find (\<lambda>r. ar_id r = fst ids) (gv_runs g @ [?r]) = Some ?r" using n(1) by (intro find_snoc_key) (simp_all add: new_run_def)
  then have "run = ?r" "g' = g2" using g2(2) by (auto simp: return_run_def or_not_found_def get_skill_governance_apply_run_def a(1))
  moreover have "(nr_scope nr, nr_scope_id nr, nr_idempotency_key nr) \<notin> run_key ` set (gv_runs g)"
    using n(2) by (auto simp: get_skill_governance_apply_run_by_idempotency_def find_None_iff run_key_def)
  ultimately show ?thesis using n(1) a by (intro that [of a]) simp_all
qed

lemma insert_actionE:
  assumes "insert_action ids now anow na g = Inr (act, g')"
  obtains a where "act = new_action (fst ids) now na" "fst ids \<notin> aa_id ` set (gv_actions g)" "na_run_id na \<in> ar_id ` set (gv_runs g)"
    "\<forall>r \<in> set (gv_actions g). aa_run_id r = na_run_id na \<longrightarrow> aa_sequence r \<noteq> na_sequence na \<and> aa_action_key r \<noteq> na_action_key na"
    "g' = g\<lparr>gv_actions := gv_actions g @ [new_action (fst ids) now na], gv_audit := gv_audit g @ [a]\<rparr>"
    "au_entity_type a = ''action''" "au_entity_id a = fst ids" "au_to_version a = Some 1"
proof -
  let ?r = "new_action (fst ids) now na"
  let ?g = "g\<lparr>gv_actions := gv_actions g @ [?r]\<rparr>"
  have n: "fst ids \<notin> aa_id ` set (gv_actions g)" "na_run_id na \<in> ar_id ` set (gv_runs g)"
    "\<forall>r \<in> set (gv_actions g). aa_run_id r = na_run_id na \<longrightarrow> aa_sequence r \<noteq> na_sequence na \<and> aa_action_key r \<noteq> na_action_key na"
    using assms unfolding insert_action_def by (metis sum.distinct(1))+
  obtain g2 where g2: "insert_apply_audit (snd ids) anow ''action'' (fst ids) ''create'' None (Some ''pending'') None (Some 1) (na_evidence na) ?g = Inr g2"
    "return_action (fst ids) g2 = Inr (act, g')"
    using assms unfolding insert_action_def by (auto simp: tx_bind_Inr_iff split: if_splits)
  obtain a where a: "g2 = ?g\<lparr>gv_audit := gv_audit ?g @ [a]\<rparr>" "au_entity_type a = ''action''" "au_entity_id a = fst ids" "au_to_version a = Some 1"
    using g2(1) by (rule audit_insertE)
  have "find (\<lambda>r. aa_id r = fst ids) (gv_actions g @ [?r]) = Some ?r" using n(1) by (intro find_snoc_key) (simp_all add: new_action_def)
  then have "act = ?r" "g' = g2" using g2(2) by (auto simp: return_action_def or_not_found_def get_skill_governance_apply_action_def a(1))
  with n a show ?thesis by (intro that [of a]) simp_all
qed

lemma run_writeE:
  assumes "run_write aid now anow c st rec bp qp ev le g = Inr (run, g')" "distinct (map ar_id (gv_runs g))"
  obtains d f a where "d \<in> set (gv_runs g)" "ar_id d = ar_id c" "ar_version d = ar_version c" "run = f d"
    "g' = g\<lparr>gv_runs := update_rows (\<lambda>r. r = d) f (gv_runs g), gv_audit := gv_audit g @ [a]\<rparr>"
    "\<forall>r. ar_id (f r) = ar_id r \<and> ar_version (f r) = ar_version r + 1 \<and> run_ident (f r) = run_ident r"
    "au_entity_type a = ''run''" "au_entity_id a = ar_id d" "au_to_version a = Some (ar_version d + 1)"
proof -
  let ?p = "\<lambda>r. ar_id r = ar_id c \<and> ar_version r = ar_version c"
  define f :: "apply_run \<Rightarrow> apply_run" where "f = (\<lambda>r. r\<lparr>ar_status := st, ar_recovery_status := rec,
                     ar_attempts := ar_attempts r + (if st = RunRunning then 1 else 0), ar_evidence := ev,
                     ar_backup_path := coalesce bp (ar_backup_path r),
                     ar_quarantine_path := coalesce qp (ar_quarantine_path r), ar_last_error := le,
                     ar_started_at := (if st = RunRunning then Some now else ar_started_at c),
                     ar_completed_at := (if run_completed st then Some now else ar_completed_at c),
                     ar_version := ar_version r + 1, ar_updated_at := now\<rparr>)"
  have n: "affected ?p (gv_runs g) \<noteq> 0" using assms(1) by (auto simp: run_write_def Let_def split: if_splits)
  then obtain d where d: "d \<in> set (gv_runs g)" "ar_id d = ar_id c" "ar_version d = ar_version c" by (auto simp: affected_zero)
  have u: "update_rows ?p f (gv_runs g) = update_rows (\<lambda>r. r = d) f (gv_runs g)"
    using key_iff [OF assms(2) d(1)] d(2,3) by (auto simp: update_rows_def)
  let ?g = "g\<lparr>gv_runs := update_rows ?p f (gv_runs g)\<rparr>"
  obtain g2 where g2: "insert_apply_audit aid anow ''run'' (ar_id c) ''transition'' (Some (run_status_as_str (ar_status c)))
      (Some (run_status_as_str st)) (Some (ar_version c)) (Some (ar_version c + 1)) ev ?g = Inr g2" "return_run (ar_id c) g2 = Inr (run, g')"
    using assms(1) n unfolding run_write_def Let_def f_def by (simp add: tx_bind_Inr_iff) blast
  obtain a where a: "g2 = ?g\<lparr>gv_audit := gv_audit ?g @ [a]\<rparr>" "au_entity_type a = ''run''" "au_entity_id a = ar_id c" "au_to_version a = Some (ar_version c + 1)"
    using g2(1) by (rule audit_insertE)
  have "f d \<in> set (update_rows ?p f (gv_runs g))" using d by (auto simp: set_update_rows)
  then have "find (\<lambda>r. ar_id r = ar_id c) (update_rows ?p f (gv_runs g)) = Some (f d)"
    using assms(2) d(2) by (intro find_key) (simp_all add: map_update_rows f_def)
  then have r: "run = f d" "g' = g2" using g2(2) by (auto simp: return_run_def or_not_found_def get_skill_governance_apply_run_def a(1))
  have g': "g' = g\<lparr>gv_runs := update_rows (\<lambda>r. r = d) f (gv_runs g), gv_audit := gv_audit g @ [a]\<rparr>" using r(2) a(1) u by simp
  show ?thesis by (rule that [OF d r(1) g']) (use a d in \<open>simp_all add: f_def run_ident_def run_key_def\<close>)
qed

lemma action_writeE:
  assumes "action_write aid now anow c st res bp qp ev le g = Inr (act, g')" "distinct (map aa_id (gv_actions g))"
  obtains d f a where "d \<in> set (gv_actions g)" "aa_id d = aa_id c" "aa_version d = aa_version c" "act = f d"
    "g' = g\<lparr>gv_actions := update_rows (\<lambda>r. r = d) f (gv_actions g), gv_audit := gv_audit g @ [a]\<rparr>"
    "\<forall>r. aa_id (f r) = aa_id r \<and> aa_version (f r) = aa_version r + 1 \<and> aa_run_id (f r) = aa_run_id r
        \<and> aa_action_key (f r) = aa_action_key r \<and> aa_sequence (f r) = aa_sequence r"
    "au_entity_type a = ''action''" "au_entity_id a = aa_id d" "au_to_version a = Some (aa_version d + 1)"
proof -
  let ?p = "\<lambda>r. aa_id r = aa_id c \<and> aa_version r = aa_version c"
  define f :: "apply_action \<Rightarrow> apply_action" where "f = (\<lambda>r. r\<lparr>aa_status := st, aa_attempts := aa_attempts r + (if st = ActPreflight then 1 else 0),
                     aa_result_hash := res, aa_evidence := ev,
                     aa_backup_path := coalesce bp (aa_backup_path r),
                     aa_quarantine_path := coalesce qp (aa_quarantine_path r), aa_last_error := le,
                     aa_started_at := (if st = ActPreflight then Some now else aa_started_at c),
                     aa_completed_at := (if action_completed st then Some now else aa_completed_at c),
                     aa_version := aa_version r + 1, aa_updated_at := now\<rparr>)"
  have n: "affected ?p (gv_actions g) \<noteq> 0" using assms(1) by (auto simp: action_write_def Let_def split: if_splits)
  then obtain d where d: "d \<in> set (gv_actions g)" "aa_id d = aa_id c" "aa_version d = aa_version c" by (auto simp: affected_zero)
  have u: "update_rows ?p f (gv_actions g) = update_rows (\<lambda>r. r = d) f (gv_actions g)"
    using key_iff [OF assms(2) d(1)] d(2,3) by (auto simp: update_rows_def)
  let ?g = "g\<lparr>gv_actions := update_rows ?p f (gv_actions g)\<rparr>"
  obtain g2 where g2: "insert_apply_audit aid anow ''action'' (aa_id c) ''transition'' (Some (action_status_as_str (aa_status c)))
      (Some (action_status_as_str st)) (Some (aa_version c)) (Some (aa_version c + 1)) ev ?g = Inr g2" "return_action (aa_id c) g2 = Inr (act, g')"
    using assms(1) n unfolding action_write_def Let_def f_def by (simp add: tx_bind_Inr_iff) blast
  obtain a where a: "g2 = ?g\<lparr>gv_audit := gv_audit ?g @ [a]\<rparr>" "au_entity_type a = ''action''" "au_entity_id a = aa_id c" "au_to_version a = Some (aa_version c + 1)"
    using g2(1) by (rule audit_insertE)
  have "f d \<in> set (update_rows ?p f (gv_actions g))" using d by (auto simp: set_update_rows)
  then have "find (\<lambda>r. aa_id r = aa_id c) (update_rows ?p f (gv_actions g)) = Some (f d)"
    using assms(2) d(2) by (intro find_key) (simp_all add: map_update_rows f_def)
  then have r: "act = f d" "g' = g2" using g2(2) by (auto simp: return_action_def or_not_found_def get_skill_governance_apply_action_def a(1))
  have g': "g' = g\<lparr>gv_actions := update_rows (\<lambda>r. r = d) f (gv_actions g), gv_audit := gv_audit g @ [a]\<rparr>" using r(2) a(1) u by simp
  show ?thesis by (rule that [OF d r(1) g']) (use a d in \<open>simp_all add: f_def\<close>)
qed

section \<open>The invariant\<close>

definition gov_ok :: "gov \<Rightarrow> bool" where
  "gov_ok g \<longleftrightarrow> plans_ok g \<and> locks_ok g \<and> runs_ok g \<and> actions_ok g"

lemma simple_frame:
  "create_skill_profile i now doc g = Inr (r, g') \<Longrightarrow> \<exists>ps bs ns. g' = g\<lparr>gv_profiles := ps, gv_bindings := bs, gv_snapshots := ns\<rparr>"
  "update_skill_profile now i doc v g = Inr (r, g') \<Longrightarrow> \<exists>ps bs ns. g' = g\<lparr>gv_profiles := ps, gv_bindings := bs, gv_snapshots := ns\<rparr>"
  "delete_skill_profile i v g = Inr (b, g') \<Longrightarrow> \<exists>ps bs ns. g' = g\<lparr>gv_profiles := ps, gv_bindings := bs, gv_snapshots := ns\<rparr>"
  "bind_skill_profile i now sc sid p g = Inr (bd, g') \<Longrightarrow> \<exists>ps bs ns. g' = g\<lparr>gv_profiles := ps, gv_bindings := bs, gv_snapshots := ns\<rparr>"
  "unbind_skill_profile i v g = Inr (b, g') \<Longrightarrow> \<exists>ps bs ns. g' = g\<lparr>gv_profiles := ps, gv_bindings := bs, gv_snapshots := ns\<rparr>"
  "create_skill_lock_snapshot i now snap g = Inr (n, g') \<Longrightarrow> \<exists>ps bs ns. g' = g\<lparr>gv_profiles := ps, gv_bindings := bs, gv_snapshots := ns\<rparr>"
proof -
  have eq: "\<exists>ps bs ns. h = g\<lparr>gv_profiles := ps, gv_bindings := bs, gv_snapshots := ns\<rparr>"
    if "h = g\<lparr>gv_profiles := gv_profiles h, gv_bindings := gv_bindings h, gv_snapshots := gv_snapshots h\<rparr>" for h
    using that by blast
  show "create_skill_profile i now doc g = Inr (r, g') \<Longrightarrow> \<exists>ps bs ns. g' = g\<lparr>gv_profiles := ps, gv_bindings := bs, gv_snapshots := ns\<rparr>"
    by (rule eq) (auto simp: create_skill_profile_def or_not_found_def Let_def split: if_splits option.splits)
  show "update_skill_profile now i doc v g = Inr (r, g') \<Longrightarrow> \<exists>ps bs ns. g' = g\<lparr>gv_profiles := ps, gv_bindings := bs, gv_snapshots := ns\<rparr>"
    by (rule eq) (auto simp: update_skill_profile_def or_not_found_def Let_def split: if_splits option.splits)
  show "delete_skill_profile i v g = Inr (b, g') \<Longrightarrow> \<exists>ps bs ns. g' = g\<lparr>gv_profiles := ps, gv_bindings := bs, gv_snapshots := ns\<rparr>"
    by (rule eq) (auto simp: delete_skill_profile_def delete_profile_write_def cascade_profile_def tx_bind_Inr_iff Let_def split: if_splits)
  show "bind_skill_profile i now sc sid p g = Inr (bd, g') \<Longrightarrow> \<exists>ps bs ns. g' = g\<lparr>gv_profiles := ps, gv_bindings := bs, gv_snapshots := ns\<rparr>"
    by (rule eq) (auto simp: bind_skill_profile_def or_not_found_def Let_def split: if_splits option.splits)
  show "unbind_skill_profile i v g = Inr (b, g') \<Longrightarrow> \<exists>ps bs ns. g' = g\<lparr>gv_profiles := ps, gv_bindings := bs, gv_snapshots := ns\<rparr>"
    by (rule eq) (auto simp: unbind_skill_profile_def unbind_write_def tx_bind_Inr_iff Let_def split: if_splits)
  show "create_skill_lock_snapshot i now snap g = Inr (n, g') \<Longrightarrow> \<exists>ps bs ns. g' = g\<lparr>gv_profiles := ps, gv_bindings := bs, gv_snapshots := ns\<rparr>"
    by (rule eq) (auto simp: create_skill_lock_snapshot_def or_not_found_def Let_def split: if_splits option.splits)
qed

lemma gov_ok_frame: "gov_ok g \<Longrightarrow> \<exists>ps bs ns. g' = g\<lparr>gv_profiles := ps, gv_bindings := bs, gv_snapshots := ns\<rparr> \<Longrightarrow> gov_ok g'"
  by (elim exE) (simp add: gov_ok_def plans_ok_def plan_log_def locks_ok_def runs_ok_def actions_ok_def)

text \<open>A lock operation changes the lock table and appends one audit row of kind \<open>lock\<close>.\<close>

lemma gov_ok_lock:
  assumes "gov_ok g" "g' = g\<lparr>gv_locks := ls, gv_audit := gv_audit g @ [a]\<rparr>" "au_entity_type a = ''lock''" "locks_ok g'"
  shows "gov_ok g'"
  using assms by (auto simp: gov_ok_def plans_ok_def plan_log_def runs_ok_def actions_ok_def intro: trail_other)

lemma distinct_lock_ids: "gov_ok g \<Longrightarrow> distinct (map lk_id (gv_locks g))"
  by (simp add: gov_ok_def locks_ok_def trail_ok_def)

lemma gov_ok_acquire:
  assumes "gov_ok g" "acquire_skill_governance_lock ids now anow sc sid owner pid rid nonce ex g = Inr (l, g')"
  shows "gov_ok g'"
proof -
  have "locks_ok g'" using assms(1) locks_ok_acquire [OF _ assms(2)] by (simp add: gov_ok_def)
  with assms(2) distinct_lock_ids [OF assms(1)] show ?thesis
    by (cases rule: acquireE) (auto intro: gov_ok_lock [OF assms(1)])
qed

lemma gov_ok_update_lock:
  assumes "gov_ok g" "update_lock aid anow i v nonce f act ts ev g = Inr (l, g')"
    and f: "\<And>r. lk_id (f r) = lk_id r" "\<And>r. lk_version (f r) = lk_version r + 1" "\<And>r. lock_key (f r) = lock_key r" "\<And>r. unreleased (f r) \<Longrightarrow> unreleased r"
  shows "gov_ok g'"
proof -
  have l: "locks_ok g'" using assms(1) locks_ok_update [OF _ assms(2) f] by (simp add: gov_ok_def)
  obtain a where "g' = g\<lparr>gv_locks := update_rows (holds i v nonce) f (gv_locks g), gv_audit := gv_audit g @ [a]\<rparr>" "au_entity_type a = ''lock''"
    using assms(2) distinct_lock_ids [OF assms(1)] f(1) by (rule update_lockE) blast
  then show ?thesis using l by (rule gov_ok_lock [OF assms(1)])
qed

lemma distinct_run_ids: "gov_ok g \<Longrightarrow> distinct (map ar_id (gv_runs g))"
  by (simp add: gov_ok_def runs_ok_def trail_ok_def)

lemma distinct_action_ids: "gov_ok g \<Longrightarrow> distinct (map aa_id (gv_actions g))"
  by (simp add: gov_ok_def actions_ok_def trail_ok_def)

lemma gov_ok_runs:
  assumes "gov_ok g" "g' = g\<lparr>gv_runs := rs, gv_audit := gv_audit g @ [a]\<rparr>" "au_entity_type a = ''run''"
    "ar_id ` set (gv_runs g) \<subseteq> ar_id ` set rs" "runs_ok g'"
  shows "gov_ok g'"
proof -
  have "aa_run_id ` set (gv_actions g) \<subseteq> ar_id ` set rs"
    using assms(1,4) unfolding gov_ok_def actions_ok_def by (meson order_trans)
  moreover have "trail_ok ''action'' aa_id aa_version (gv_actions g) (gv_audit g @ [a])" "trail_ok ''lock'' lk_id lk_version (gv_locks g) (gv_audit g @ [a])"
    using assms(1,3) by (auto simp: gov_ok_def actions_ok_def locks_ok_def intro!: trail_other)
  ultimately show ?thesis
    using assms(1,2,5) by (simp add: gov_ok_def plans_ok_def plan_log_def locks_ok_def actions_ok_def)
qed

lemma gov_ok_insert_run:
  assumes "gov_ok g" "insert_run ids now anow nr g = Inr (run, g')"
  shows "gov_ok g'"
  using assms(2)
proof (rule insert_runE)
  fix a
  let ?r = "new_run (fst ids) now nr"
  assume i: "fst ids \<notin> ar_id ` set (gv_runs g)" "(nr_scope nr, nr_scope_id nr, nr_idempotency_key nr) \<notin> run_key ` set (gv_runs g)"
    and g': "g' = g\<lparr>gv_runs := gv_runs g @ [?r], gv_audit := gv_audit g @ [a]\<rparr>"
    and a: "au_entity_type a = ''run''" "au_entity_id a = fst ids" "au_to_version a = Some 1"
  have "trail_ok ''run'' ar_id ar_version (gv_runs g @ [?r]) (gv_audit g @ [a])"
    using assms(1) i(1) a by (intro trail_insert) (simp_all add: gov_ok_def runs_ok_def new_run_def)
  moreover have "run_key ?r = (nr_scope nr, nr_scope_id nr, nr_idempotency_key nr)" by (simp add: run_key_def new_run_def)
  ultimately have "runs_ok g'" using assms(1) i(2) by (simp add: gov_ok_def runs_ok_def g')
  then show ?thesis using a(1) by (intro gov_ok_runs [OF assms(1) g']) auto
qed

lemma gov_ok_run_write:
  assumes "gov_ok g" "run_write aid now anow c st rec bp qp ev le g = Inr (run, g')"
  shows "gov_ok g'"
  using assms(2) distinct_run_ids [OF assms(1)]
proof (rule run_writeE)
  fix d f a
  let ?rs = "update_rows (\<lambda>r. r = d) f (gv_runs g)"
  assume d: "d \<in> set (gv_runs g)" and g': "g' = g\<lparr>gv_runs := ?rs, gv_audit := gv_audit g @ [a]\<rparr>"
    and f: "\<forall>r. ar_id (f r) = ar_id r \<and> ar_version (f r) = ar_version r + 1 \<and> run_ident (f r) = run_ident r"
    and a: "au_entity_type a = ''run''" "au_entity_id a = ar_id d" "au_to_version a = Some (ar_version d + 1)"
  have "trail_ok ''run'' ar_id ar_version ?rs (gv_audit g @ [a])"
    using assms(1) d f a by (intro trail_update [where c = d]) (simp_all add: gov_ok_def runs_ok_def)
  moreover have ids: "map run_key ?rs = map run_key (gv_runs g)" "map ar_id ?rs = map ar_id (gv_runs g)"
    using f by (simp_all add: map_update_rows run_ident_def)
  ultimately have ok: "runs_ok g'" using assms(1) by (simp add: gov_ok_def runs_ok_def g')
  have "ar_id ` set (gv_runs g) \<subseteq> ar_id ` set ?rs" using arg_cong [OF ids(2), of set] by simp
  then show ?thesis using a(1) ok by (intro gov_ok_runs [OF assms(1) g'])
qed

lemma gov_ok_actions:
  assumes "gov_ok g" "g' = g\<lparr>gv_actions := as, gv_audit := gv_audit g @ [a]\<rparr>" "au_entity_type a = ''action''" "actions_ok g'"
  shows "gov_ok g'"
  using assms by (auto simp: gov_ok_def plans_ok_def plan_log_def locks_ok_def runs_ok_def intro: trail_other)

lemma gov_ok_insert_action:
  assumes "gov_ok g" "insert_action ids now anow na g = Inr (act, g')"
  shows "gov_ok g'"
  using assms(2)
proof (rule insert_actionE)
  fix a
  let ?r = "new_action (fst ids) now na"
  assume i: "fst ids \<notin> aa_id ` set (gv_actions g)" "na_run_id na \<in> ar_id ` set (gv_runs g)"
      "\<forall>r \<in> set (gv_actions g). aa_run_id r = na_run_id na \<longrightarrow> aa_sequence r \<noteq> na_sequence na \<and> aa_action_key r \<noteq> na_action_key na"
    and g': "g' = g\<lparr>gv_actions := gv_actions g @ [?r], gv_audit := gv_audit g @ [a]\<rparr>"
    and a: "au_entity_type a = ''action''" "au_entity_id a = fst ids" "au_to_version a = Some 1"
  have "trail_ok ''action'' aa_id aa_version (gv_actions g @ [?r]) (gv_audit g @ [a])"
    using assms(1) i(1) a by (intro trail_insert) (simp_all add: gov_ok_def actions_ok_def new_action_def)
  then have "actions_ok g'" using assms(1) i(2,3) by (auto simp: gov_ok_def actions_ok_def g' new_action_def)
  then show ?thesis using a(1) by (intro gov_ok_actions [OF assms(1) g'])
qed

lemma gov_ok_action_write:
  assumes "gov_ok g" "action_write aid now anow c st res bp qp ev le g = Inr (act, g')"
  shows "gov_ok g'"
  using assms(2) distinct_action_ids [OF assms(1)]
proof (rule action_writeE)
  fix d f a
  let ?rs = "update_rows (\<lambda>r. r = d) f (gv_actions g)"
  assume d: "d \<in> set (gv_actions g)" and g': "g' = g\<lparr>gv_actions := ?rs, gv_audit := gv_audit g @ [a]\<rparr>"
    and f: "\<forall>r. aa_id (f r) = aa_id r \<and> aa_version (f r) = aa_version r + 1 \<and> aa_run_id (f r) = aa_run_id r
        \<and> aa_action_key (f r) = aa_action_key r \<and> aa_sequence (f r) = aa_sequence r"
    and a: "au_entity_type a = ''action''" "au_entity_id a = aa_id d" "au_to_version a = Some (aa_version d + 1)"
  have "trail_ok ''action'' aa_id aa_version ?rs (gv_audit g @ [a])"
    using assms(1) d f a by (intro trail_update [where c = d]) (simp_all add: gov_ok_def actions_ok_def)
  moreover have "map (\<lambda>r. (aa_run_id r, aa_action_key r)) ?rs = map (\<lambda>r. (aa_run_id r, aa_action_key r)) (gv_actions g)"
    "map (\<lambda>r. (aa_run_id r, aa_sequence r)) ?rs = map (\<lambda>r. (aa_run_id r, aa_sequence r)) (gv_actions g)"
    "map aa_run_id ?rs = map aa_run_id (gv_actions g)"
    using f by (simp_all add: map_update_rows)
  moreover have "aa_run_id ` set ?rs = aa_run_id ` set (gv_actions g)"
    using arg_cong [OF \<open>map aa_run_id ?rs = _\<close>, of set] by simp
  ultimately have "actions_ok g'" using assms(1) by (simp add: gov_ok_def actions_ok_def g')
  then show ?thesis using a(1) by (intro gov_ok_actions [OF assms(1) g'])
qed

lemma gov_ok_plans:
  assumes "gov_ok g" "plans_ok g'" "g' = g\<lparr>gv_plans := ps, gv_plan_audit := as\<rparr>"
  shows "gov_ok g'"
  using assms by (simp add: gov_ok_def locks_ok_def runs_ok_def actions_ok_def)

lemma gov_ok_renew:
  assumes "gov_ok g" "renew_skill_governance_lock aid now anow i v nonce ex g = Inr (l, g')"
  shows "gov_ok g'"
  by (rule gov_ok_update_lock [OF assms(1) assms(2) [unfolded renew_skill_governance_lock_def]]) (simp_all add: lock_key_def unreleased_def)

lemma gov_ok_attach:
  assumes "gov_ok g" "attach_skill_governance_lock_run ut aid now anow i v nonce rid ex g = Inr (l, g')"
  shows "gov_ok g'"
  by (rule gov_ok_update_lock [OF assms(1) assms(2) [unfolded attach_skill_governance_lock_run_def]]) (simp_all add: lock_key_def unreleased_def)

lemma gov_ok_release:
  assumes "gov_ok g" "release_skill_governance_lock aid now anow i v nonce g = Inr (l, g')"
  shows "gov_ok g'"
  by (rule gov_ok_update_lock [OF assms(1) assms(2) [unfolded release_skill_governance_lock_def]]) (simp_all add: lock_key_def unreleased_def)

lemma create_run_cases:
  assumes "create_skill_governance_apply_run ids now anow nr g = Inr (run, g')"
  shows "g' = g \<or> insert_run ids now anow nr g = Inr (run, g')"
  using assms by (auto simp: create_skill_governance_apply_run_def tx_bind_Inr_iff split: option.splits)

lemma create_action_cases:
  assumes "create_skill_governance_apply_action ids now anow na g = Inr (act, g')"
  shows "g' = g \<or> insert_action ids now anow na g = Inr (act, g')"
  using assms by (auto simp: create_skill_governance_apply_action_def tx_bind_Inr_iff split: option.splits)

lemma run_toE:
  assumes "transition_skill_governance_apply_run aid now anow i v st rec bp qp ev le g = Inr (run, g')"
  obtains c where "run_check i v g = Inr c" "run_write aid now anow c st rec bp qp ev le g = Inr (run, g')"
  using assms by (auto simp: transition_skill_governance_apply_run_def tx_bind_Inr_iff)

lemma action_toE:
  assumes "transition_skill_governance_apply_action aid now anow i v st res bp qp ev le g = Inr (act, g')"
  obtains c where "action_check i v g = Inr c" "action_write aid now anow c st res bp qp ev le g = Inr (act, g')"
  using assms by (auto simp: transition_skill_governance_apply_action_def tx_bind_Inr_iff)

lemma gov_step_ok: "gov_step ut g g' \<Longrightarrow> gov_ok g \<Longrightarrow> gov_ok g'"
proof (induction rule: gov_step.induct)
  case gs_profile show ?case by (rule gov_ok_frame [OF gs_profile(2) simple_frame(1) [OF gs_profile(1)]])
next
  case gs_update_profile show ?case by (rule gov_ok_frame [OF gs_update_profile(2) simple_frame(2) [OF gs_update_profile(1)]])
next
  case gs_delete_profile show ?case by (rule gov_ok_frame [OF gs_delete_profile(2) simple_frame(3) [OF gs_delete_profile(1)]])
next
  case gs_bind show ?case by (rule gov_ok_frame [OF gs_bind(2) simple_frame(4) [OF gs_bind(1)]])
next
  case gs_unbind show ?case by (rule gov_ok_frame [OF gs_unbind(2) simple_frame(5) [OF gs_unbind(1)]])
next
  case gs_snapshot show ?case by (rule gov_ok_frame [OF gs_snapshot(2) simple_frame(6) [OF gs_snapshot(1)]])
next
  case (gs_plan i now sc sid pl oh dh g p g')
  have "plans_ok g'" using plans_ok_create [OF _ gs_plan(1)] gs_plan(2) by (simp add: gov_ok_def)
  moreover have "g' = g\<lparr>gv_plans := gv_plans g @ [p], gv_plan_audit := gv_plan_audit g\<rparr>" using gs_plan(1) by (rule plan_createE) simp
  ultimately show ?case by (rule gov_ok_plans [OF gs_plan(2)])
next
  case (gs_decide aid now i v act st g p g')
  have ok: "plans_ok g'" using plans_ok_decide [OF _ gs_decide(1)] gs_decide(2) by (simp add: gov_ok_def)
  have "distinct (map gp_id (gv_plans g))" using gs_decide(2) by (simp add: gov_ok_def plans_ok_def)
  with gs_decide(1) show ?case by (rule plan_decideE) (rule gov_ok_plans [OF gs_decide(2) ok])
next
  case gs_acquire show ?case by (rule gov_ok_acquire [OF gs_acquire(2,1)])
next
  case gs_renew show ?case by (rule gov_ok_renew [OF gs_renew(2,1)])
next
  case gs_attach show ?case by (rule gov_ok_attach [OF gs_attach(2,1)])
next
  case gs_release show ?case by (rule gov_ok_release [OF gs_release(2,1)])
next
  case gs_run show ?case using create_run_cases [OF gs_run(1)] by (rule disjE) (use gs_run(2) in simp, erule gov_ok_insert_run [OF gs_run(2)])
next
  case gs_run_to show ?case using run_toE [OF gs_run_to(1)] gov_ok_run_write [OF gs_run_to(2)] by metis
next
  case gs_action show ?case using create_action_cases [OF gs_action(1)] by (rule disjE) (use gs_action(2) in simp, erule gov_ok_insert_action [OF gs_action(2)])
next
  case gs_action_to show ?case using action_toE [OF gs_action_to(1)] gov_ok_action_write [OF gs_action_to(2)] by metis
qed

definition gov_start :: "gov \<Rightarrow> bool" where
  "gov_start g \<longleftrightarrow> g = gov_empty"

interpretation gv: invariant_system gov_start "gov_step ut" gov_ok for ut
proof
  show "gov_ok g" if "gov_start g" for g
    using that by (simp add: gov_start_def gov_empty_def gov_ok_def plans_ok_def locks_ok_def runs_ok_def actions_ok_def trail_ok_def)
  show "gov_ok g'" if "gov_step ut g g'" "gov_ok g" for g g'
    using gov_step_ok that by blast
qed

section \<open>Versioned tables under concurrent writers\<close>

text \<open>
  The contract of a table whose rows are written by compare-and-swap on their version: under every
  step a row keeps its identifier and its identity fields, and either is unchanged or has a larger
  version. Whatever other writers do in between, a row read earlier and found again with the same
  version is the same row, and a version once passed never comes back.
\<close>

locale cas_table =
  fixes step :: "'s \<Rightarrow> 's \<Rightarrow> bool" and inv :: "'s \<Rightarrow> bool" and rows :: "'s \<Rightarrow> 'r list"
    and tid :: "'r \<Rightarrow> uuid" and ver :: "'r \<Rightarrow> int" and ident :: "'r \<Rightarrow> 'i"
  assumes inv_kept: "step s t \<Longrightarrow> inv s \<Longrightarrow> inv t"
    and ids: "inv s \<Longrightarrow> distinct (map tid (rows s))"
    and row_step: "step s t \<Longrightarrow> inv s \<Longrightarrow> r \<in> set (rows s) \<Longrightarrow>
          \<exists>r' \<in> set (rows t). tid r' = tid r \<and> ident r' = ident r \<and> (r' = r \<or> ver r < ver r')"
begin

lemma inv_run: "step\<^sup>*\<^sup>* s t \<Longrightarrow> inv s \<Longrightarrow> inv t"
  by (induction rule: rtranclp_induct) (auto intro: inv_kept)

lemma row_run:
  "step\<^sup>*\<^sup>* s t \<Longrightarrow> inv s \<Longrightarrow> r \<in> set (rows s) \<Longrightarrow>
     \<exists>r' \<in> set (rows t). tid r' = tid r \<and> ident r' = ident r \<and> (r' = r \<or> ver r < ver r')"
proof (induction rule: rtranclp_induct)
  case (step t u)
  then obtain r' where r': "r' \<in> set (rows t)" "tid r' = tid r" "ident r' = ident r" "r' = r \<or> ver r < ver r'" by blast
  moreover obtain r'' where "r'' \<in> set (rows u)" "tid r'' = tid r'" "ident r'' = ident r'" "r'' = r' \<or> ver r' < ver r''"
    using row_step [OF step(2) inv_run [OF step(1,4)] r'(1)] by blast
  ultimately show ?case by force
qed auto

lemma later_row:
  assumes "step\<^sup>*\<^sup>* s t" "inv s" "r \<in> set (rows s)" "r' \<in> set (rows t)" "tid r' = tid r"
  shows "ident r' = ident r" "r' = r \<or> ver r < ver r'"
proof -
  obtain q where q: "q \<in> set (rows t)" "tid q = tid r" "ident q = ident r" "q = r \<or> ver r < ver q"
    using row_run [OF assms(1-3)] by blast
  have "q = r'" using key_iff [OF ids [OF inv_run [OF assms(1,2)]] assms(4) q(1)] q(2) assms(5) by simp
  with q show "ident r' = ident r" "r' = r \<or> ver r < ver r'" by auto
qed

end

lemma row_updated:
  assumes "r \<in> set rows" "tid (f r) = tid r" "ident (f r) = ident r" "ver (f r) = (ver r + 1 :: int)"
  shows "\<exists>r' \<in> set (update_rows p f rows). tid r' = tid r \<and> ident r' = ident r \<and> (r' = r \<or> ver r < ver r')"
  using assms by (cases "p r") (auto simp: set_update_rows intro: bexI [of _ "f r"] bexI [of _ r])

section \<open>What one step changes\<close>

text \<open>A step adds or updates rows of at most one of the four versioned tables.\<close>

definition row_change :: "('r \<Rightarrow> uuid) \<Rightarrow> ('r \<Rightarrow> 'i) \<Rightarrow> ('r \<Rightarrow> int) \<Rightarrow> 'r list \<Rightarrow> 'r list \<Rightarrow> bool" where
  "row_change tid ident ver rows rows' \<longleftrightarrow>
     (\<forall>r \<in> set rows. \<exists>r' \<in> set rows'. tid r' = tid r \<and> ident r' = ident r \<and> (r' = r \<or> ver r < ver r'))"

lemma row_change_same [simp]: "row_change tid ident ver rows rows"
  by (auto simp: row_change_def)

lemma row_change_add [simp]: "row_change tid ident ver rows (rows @ [x])"
  by (auto simp: row_change_def)

lemma row_change_update:
  "\<forall>r. tid (f r) = tid r \<and> ident (f r) = ident r \<and> ver (f r) = ver r + 1 \<Longrightarrow> row_change tid ident ver rows (update_rows p f rows)"
  unfolding row_change_def by (blast intro: row_updated)

definition plan_ident :: "governance_plan \<Rightarrow> (governance_scope \<times> string) \<times> json \<times> string \<times> string" where
  "plan_ident p = ((gp_scope p, gp_scope_id p), gp_plan p, gp_observation_hash p, gp_desired_hash p)"

definition action_ident :: "apply_action \<Rightarrow> uuid \<times> string \<times> int" where
  "action_ident a = (aa_run_id a, aa_action_key a, aa_sequence a)"

definition gov_change :: "gov \<Rightarrow> gov \<Rightarrow> bool" where
  "gov_change g g' \<longleftrightarrow> row_change gp_id plan_ident gp_version (gv_plans g) (gv_plans g')
     \<and> row_change lk_id lock_key lk_version (gv_locks g) (gv_locks g')
     \<and> row_change ar_id run_ident ar_version (gv_runs g) (gv_runs g')
     \<and> row_change aa_id action_ident aa_version (gv_actions g) (gv_actions g')"

lemma gov_change_frame: "\<exists>ps bs ns. g' = g\<lparr>gv_profiles := ps, gv_bindings := bs, gv_snapshots := ns\<rparr> \<Longrightarrow> gov_change g g'"
  by (elim exE) (simp add: gov_change_def)

lemma gov_change_lock:
  assumes "gov_ok g" "update_lock aid anow i v nonce f act ts ev g = Inr (l, g')"
    and f: "\<And>r. lk_id (f r) = lk_id r" "\<And>r. lk_version (f r) = lk_version r + 1" "\<And>r. lock_key (f r) = lock_key r"
  shows "gov_change g g'"
proof -
  obtain a where "g' = g\<lparr>gv_locks := update_rows (holds i v nonce) f (gv_locks g), gv_audit := gv_audit g @ [a]\<rparr>"
    using assms(2) distinct_lock_ids [OF assms(1)] f(1) by (rule update_lockE) blast
  moreover have "row_change lk_id lock_key lk_version (gv_locks g) (update_rows (holds i v nonce) f (gv_locks g))"
    by (rule row_change_update) (simp add: f)
  ultimately show ?thesis by (simp add: gov_change_def)
qed

lemma gov_change_acquire:
  assumes "gov_ok g" "acquire_skill_governance_lock ids now anow sc sid owner pid rid nonce ex g = Inr (l, g')"
  shows "gov_change g g'"
  using assms(2) distinct_lock_ids [OF assms(1)]
proof (cases rule: acquireE)
  case fresh
  then show ?thesis by (simp add: gov_change_def)
next
  case (takeover c f a)
  have "row_change lk_id lock_key lk_version (gv_locks g) (update_rows (\<lambda>r. r = c) f (gv_locks g))"
    by (rule row_change_update) (simp add: takeover)
  then show ?thesis by (simp add: gov_change_def takeover(4))
qed

lemma gov_change_insert_run: "insert_run ids now anow nr g = Inr (run, g') \<Longrightarrow> gov_change g g'"
  by (erule insert_runE) (simp add: gov_change_def)

lemma gov_change_insert_action: "insert_action ids now anow na g = Inr (act, g') \<Longrightarrow> gov_change g g'"
  by (erule insert_actionE) (simp add: gov_change_def)

lemma gov_change_run_write:
  assumes "gov_ok g" "run_write aid now anow c st rec bp qp ev le g = Inr (run, g')"
  shows "gov_change g g'"
  using assms(2) distinct_run_ids [OF assms(1)]
proof (rule run_writeE)
  fix d f a
  assume g': "g' = g\<lparr>gv_runs := update_rows (\<lambda>r. r = d) f (gv_runs g), gv_audit := gv_audit g @ [a]\<rparr>"
    and f: "\<forall>r. ar_id (f r) = ar_id r \<and> ar_version (f r) = ar_version r + 1 \<and> run_ident (f r) = run_ident r"
  have "row_change ar_id run_ident ar_version (gv_runs g) (update_rows (\<lambda>r. r = d) f (gv_runs g))"
    by (rule row_change_update) (simp add: f)
  then show ?thesis by (simp add: gov_change_def g')
qed

lemma gov_change_action_write:
  assumes "gov_ok g" "action_write aid now anow c st res bp qp ev le g = Inr (act, g')"
  shows "gov_change g g'"
  using assms(2) distinct_action_ids [OF assms(1)]
proof (rule action_writeE)
  fix d f a
  assume g': "g' = g\<lparr>gv_actions := update_rows (\<lambda>r. r = d) f (gv_actions g), gv_audit := gv_audit g @ [a]\<rparr>"
    and f: "\<forall>r. aa_id (f r) = aa_id r \<and> aa_version (f r) = aa_version r + 1 \<and> aa_run_id (f r) = aa_run_id r
        \<and> aa_action_key (f r) = aa_action_key r \<and> aa_sequence (f r) = aa_sequence r"
  have "row_change aa_id action_ident aa_version (gv_actions g) (update_rows (\<lambda>r. r = d) f (gv_actions g))"
    by (rule row_change_update) (simp add: f action_ident_def)
  then show ?thesis by (simp add: gov_change_def g')
qed

lemma gov_change_decide:
  assumes "gov_ok g" "transition_skill_governance_plan aid now i v act st g = Inr (p, g')"
  shows "gov_change g g'"
proof -
  have "distinct (map gp_id (gv_plans g))" using assms(1) by (simp add: gov_ok_def plans_ok_def)
  with assms(2) show ?thesis
  proof (rule plan_decideE)
    fix c a
    let ?ps = "map (\<lambda>r. if r = c then r\<lparr>gp_status := st, gp_version := v + 1, gp_updated_at := now\<rparr> else r) (gv_plans g)"
    assume c: "c \<in> set (gv_plans g)" "gp_version c = v" and g': "g' = g\<lparr>gv_plans := ?ps, gv_plan_audit := gv_plan_audit g @ [a]\<rparr>"
    have "\<exists>r' \<in> set ?ps. gp_id r' = gp_id r \<and> plan_ident r' = plan_ident r \<and> (r' = r \<or> gp_version r < gp_version r')"
      if r: "r \<in> set (gv_plans g)" for r
      using imageI [OF r, of "\<lambda>r. if r = c then r\<lparr>gp_status := st, gp_version := v + 1, gp_updated_at := now\<rparr> else r"] c(2)
      by (intro bexI [of _ "if r = c then r\<lparr>gp_status := st, gp_version := v + 1, gp_updated_at := now\<rparr> else r"]) (auto simp: plan_ident_def)
    then have "row_change gp_id plan_ident gp_version (gv_plans g) ?ps" by (simp add: row_change_def)
    then show ?thesis by (simp add: gov_change_def g')
  qed
qed

lemma gov_step_change: "gov_step ut g g' \<Longrightarrow> gov_ok g \<Longrightarrow> gov_change g g'"
proof (induction rule: gov_step.induct)
  case gs_profile show ?case by (rule gov_change_frame [OF simple_frame(1) [OF gs_profile(1)]])
next
  case gs_update_profile show ?case by (rule gov_change_frame [OF simple_frame(2) [OF gs_update_profile(1)]])
next
  case gs_delete_profile show ?case by (rule gov_change_frame [OF simple_frame(3) [OF gs_delete_profile(1)]])
next
  case gs_bind show ?case by (rule gov_change_frame [OF simple_frame(4) [OF gs_bind(1)]])
next
  case gs_unbind show ?case by (rule gov_change_frame [OF simple_frame(5) [OF gs_unbind(1)]])
next
  case gs_snapshot show ?case by (rule gov_change_frame [OF simple_frame(6) [OF gs_snapshot(1)]])
next
  case gs_plan show ?case using gs_plan(1) by (rule plan_createE) (simp add: gov_change_def)
next
  case gs_decide show ?case by (rule gov_change_decide [OF gs_decide(2,1)])
next
  case gs_acquire show ?case by (rule gov_change_acquire [OF gs_acquire(2,1)])
next
  case gs_renew show ?case
    by (rule gov_change_lock [OF gs_renew(2) gs_renew(1) [unfolded renew_skill_governance_lock_def]]) (simp_all add: lock_key_def)
next
  case gs_attach show ?case
    by (rule gov_change_lock [OF gs_attach(2) gs_attach(1) [unfolded attach_skill_governance_lock_run_def]]) (simp_all add: lock_key_def)
next
  case gs_release show ?case
    by (rule gov_change_lock [OF gs_release(2) gs_release(1) [unfolded release_skill_governance_lock_def]]) (simp_all add: lock_key_def)
next
  case gs_run show ?case
    using create_run_cases [OF gs_run(1)] by (rule disjE) (simp add: gov_change_def, erule gov_change_insert_run)
next
  case gs_run_to show ?case using gs_run_to(1) by (rule run_toE) (erule gov_change_run_write [OF gs_run_to(2)])
next
  case gs_action show ?case
    using create_action_cases [OF gs_action(1)] by (rule disjE) (simp add: gov_change_def, erule gov_change_insert_action)
next
  case gs_action_to show ?case using gs_action_to(1) by (rule action_toE) (erule gov_change_action_write [OF gs_action_to(2)])
qed

lemma gov_row_step:
  assumes "gov_step ut g g'" "gov_ok g"
  shows "p \<in> set (gv_plans g) \<Longrightarrow> \<exists>p' \<in> set (gv_plans g'). gp_id p' = gp_id p \<and> plan_ident p' = plan_ident p \<and> (p' = p \<or> gp_version p < gp_version p')"
    and "l \<in> set (gv_locks g) \<Longrightarrow> \<exists>l' \<in> set (gv_locks g'). lk_id l' = lk_id l \<and> lock_key l' = lock_key l \<and> (l' = l \<or> lk_version l < lk_version l')"
    and "r \<in> set (gv_runs g) \<Longrightarrow> \<exists>r' \<in> set (gv_runs g'). ar_id r' = ar_id r \<and> run_ident r' = run_ident r \<and> (r' = r \<or> ar_version r < ar_version r')"
    and "a \<in> set (gv_actions g) \<Longrightarrow> \<exists>a' \<in> set (gv_actions g'). aa_id a' = aa_id a \<and> action_ident a' = action_ident a \<and> (a' = a \<or> aa_version a < aa_version a')"
  using gov_step_change [OF assms] unfolding gov_change_def row_change_def by blast+

interpretation plt: cas_table "gov_step ut" gov_ok gv_plans gp_id gp_version plan_ident for ut
  by unfold_locales (erule gov_step_ok, assumption, simp add: gov_ok_def plans_ok_def, erule gov_row_step(1), assumption+)

interpretation lkt: cas_table "gov_step ut" gov_ok gv_locks lk_id lk_version lock_key for ut
  by unfold_locales (erule gov_step_ok, assumption, erule distinct_lock_ids, erule gov_row_step(2), assumption+)

interpretation rnt: cas_table "gov_step ut" gov_ok gv_runs ar_id ar_version run_ident for ut
  by unfold_locales (erule gov_step_ok, assumption, erule distinct_run_ids, erule gov_row_step(3), assumption+)

interpretation art: cas_table "gov_step ut" gov_ok gv_actions aa_id aa_version action_ident for ut
  by unfold_locales (erule gov_step_ok, assumption, erule distinct_action_ids, erule gov_row_step(4), assumption+)

section \<open>What the journal guarantees\<close>

lemma update_lock_stale:
  assumes "gov_ok g" "l \<in> set (gv_locks g)" "v < lk_version l"
  shows "update_lock aid anow (lk_id l) v nonce f act ts ev g
           = Inl (SkillGovernanceVersionConflict ''skill governance scoped lock'' (lk_id l) (lk_version l) v)"
proof -
  have "find (\<lambda>r. lk_id r = lk_id l) (gv_locks g) = Some l" using distinct_lock_ids [OF assms(1)] assms(2) by (rule find_key) simp
  moreover have "affected (holds (lk_id l) v nonce) (gv_locks g) = 0"
    using key_iff [OF distinct_lock_ids [OF assms(1)] assms(2)] assms(3) by (auto simp: affected_zero holds_def)
  ultimately show ?thesis by (simp add: update_lock_def lock_version_error_def get_skill_governance_lock_def)
qed

lemma find_active:
  assumes "gov_ok g" "l \<in> set (gv_locks g)" "unreleased l"
  shows "find (active_lock (lk_scope l) (lk_scope_id l)) (gv_locks g) = Some l"
proof -
  let ?ls = "filter unreleased (gv_locks g)"
  have d: "distinct (map lock_key ?ls)" using assms(1) by (simp add: gov_ok_def locks_ok_def)
  obtain r where r: "find (active_lock (lk_scope l) (lk_scope_id l)) (gv_locks g) = Some r"
    using assms(2,3) by (cases "find (active_lock (lk_scope l) (lk_scope_id l)) (gv_locks g)") (auto simp: find_None_iff active_lock_def unreleased_def)
  then have "r \<in> set (gv_locks g)" "active_lock (lk_scope l) (lk_scope_id l) r" by (auto dest: find_Some_set)
  then have "r \<in> set ?ls" "lock_key r = lock_key l" by (auto simp: active_lock_def unreleased_def lock_key_def)
  then have "r = l" using key_iff [OF d, of l r] assms(2,3) by simp
  with r show ?thesis by simp
qed

lemma run_check_iff: "gov_ok g \<Longrightarrow> run_check i v g = Inr c \<longleftrightarrow> c \<in> set (gv_runs g) \<and> ar_id c = i \<and> ar_version c = v"
proof -
  assume ok: "gov_ok g"
  have "get_skill_governance_apply_run i g = Some c \<longleftrightarrow> c \<in> set (gv_runs g) \<and> ar_id c = i"
    using find_key [OF distinct_run_ids [OF ok], of c i] find_Some_set [of "\<lambda>r. ar_id r = i" "gv_runs g" c]
    unfolding get_skill_governance_apply_run_def by blast
  then show ?thesis by (cases "get_skill_governance_apply_run i g") (auto simp: run_check_def)
qed

lemma existing_run_iff:
  assumes "gov_ok g"
  shows "existing_run nr g = Inr (Some r) \<longleftrightarrow> r \<in> set (gv_runs g)
           \<and> run_ident r = ((nr_scope nr, nr_scope_id nr, nr_idempotency_key nr), nr_nonce nr, nr_observation_hash nr, nr_desired_hash nr, nr_lock_hash nr)"
    (is "_ \<longleftrightarrow> _ \<and> run_ident r = (?k, _)")
proof -
  have d: "distinct (map run_key (gv_runs g))" using assms by (simp add: gov_ok_def runs_ok_def)
  have f: "get_skill_governance_apply_run_by_idempotency (nr_scope nr) (nr_scope_id nr) (nr_idempotency_key nr) g = find (\<lambda>r. run_key r = ?k) (gv_runs g)"
    by (simp add: get_skill_governance_apply_run_by_idempotency_def run_key_def)
  have "find (\<lambda>r. run_key r = ?k) (gv_runs g) = Some r \<longleftrightarrow> r \<in> set (gv_runs g) \<and> run_key r = ?k"
    using find_key [OF d, of r ?k] by (auto dest: find_Some_set)
  then show ?thesis unfolding existing_run_def f by (auto simp: run_ident_def split: option.splits)
qed

lemma created_run:
  assumes "create_skill_governance_apply_run ids now anow nr g = Inr (run, g')" "gov_ok g"
  shows "existing_run nr g' = Inr (Some run)"
proof -
  have g': "gov_ok g'" using create_run_cases [OF assms(1)] assms(2) by (auto elim: gov_ok_insert_run [rotated])
  obtain e where e: "existing_run nr g = Inr e" "(case e of Some r \<Rightarrow> Inr (r, g) | None \<Rightarrow> insert_run ids now anow nr g) = Inr (run, g')"
    using assms(1) by (auto simp: create_skill_governance_apply_run_def tx_bind_Inr_iff)
  show ?thesis
  proof (cases e)
    case None
    then have "insert_run ids now anow nr g = Inr (run, g')" using e(2) by simp
    then have "run \<in> set (gv_runs g')" "run = new_run (fst ids) now nr" by (elim insert_runE, simp)+
    then show ?thesis by (simp add: existing_run_iff [OF g'] new_run_def run_ident_def run_key_def)
  qed (use e in simp)
qed

definition wit_ut :: "uuid \<Rightarrow> string" where
  "wit_ut = (\<lambda>_. ''u'')"

definition wit_lease1 :: "(scoped_lock \<times> bool) \<times> gov" where
  "wit_lease1 = projr (acquire_skill_governance_lock (1, 2) 10 10 GvAgent ''a'' ''o1'' None None ''n1'' 20 gov_empty)"

definition wit_lease2 :: "(scoped_lock \<times> bool) \<times> gov" where
  "wit_lease2 = projr (acquire_skill_governance_lock (3, 4) 30 30 GvAgent ''a'' ''o2'' None None ''n2'' 50 (snd wit_lease1))"

definition wit_new_run :: new_apply_run where
  "wit_new_run = \<lparr>nr_scope = GvAgent, nr_scope_id = ''a'', nr_plan_id = None, nr_lock_id = None, nr_idempotency_key = ''k'', nr_nonce = ''n'',
     nr_observation_hash = ''o'', nr_desired_hash = ''d'', nr_lock_hash = ''l'', nr_backup_path = None, nr_quarantine_path = None, nr_evidence = ''{}''\<rparr>"

definition wit_run :: "apply_run \<times> gov" where
  "wit_run = projr (create_skill_governance_apply_run (5, 6) 40 40 wit_new_run (snd wit_lease2))"

lemma wit_lease1: "acquire_skill_governance_lock (1, 2) 10 10 GvAgent ''a'' ''o1'' None None ''n1'' 20 gov_empty = Inr (fst wit_lease1, snd wit_lease1)"
  by code_simp

lemma wit_lease2: "acquire_skill_governance_lock (3, 4) 30 30 GvAgent ''a'' ''o2'' None None ''n2'' 50 (snd wit_lease1) = Inr ((fst (fst wit_lease2), True), snd wit_lease2)"
  by code_simp

lemma wit_run: "create_skill_governance_apply_run (5, 6) 40 40 wit_new_run (snd wit_lease2) = Inr (fst wit_run, snd wit_run)"
  by code_simp

lemma wit_gov_reachable:
  "reachable gov_start (gov_step wit_ut) (snd wit_lease1)" "reachable gov_start (gov_step wit_ut) (snd wit_lease2)"
  "reachable gov_start (gov_step wit_ut) (snd wit_run)"
proof -
  have "reachable gov_start (gov_step wit_ut) gov_empty" by (rule reachable_start) (simp add: gov_start_def)
  then show 1: "reachable gov_start (gov_step wit_ut) (snd wit_lease1)" by (rule reachable_step) (rule gs_acquire [OF wit_lease1])
  then show 2: "reachable gov_start (gov_step wit_ut) (snd wit_lease2)" by (rule reachable_step) (rule gs_acquire [OF wit_lease2])
  then show "reachable gov_start (gov_step wit_ut) (snd wit_run)" by (rule reachable_step) (rule gs_run [OF wit_run])
qed

text \<open>
  C3. After any sequence of governance operations: no scope has two unreleased leases; an idempotency
  key belongs to one run of its scope; the audit rows of every lease, run and action count its
  versions one by one from 1 to the current one; and replaying a plan's audit from a draft, every
  entry a legal transition, gives the plan's status and version.
\<close>

theorem governance_reachable_consistent:
  assumes "reachable gov_start (gov_step ut) g"
  shows "distinct (map lock_key (filter unreleased (gv_locks g))) \<and> distinct (map run_key (gv_runs g))
    \<and> (\<forall>l \<in> set (gv_locks g). trail ''lock'' (lk_id l) (gv_audit g) = map Some [1..lk_version l])
    \<and> (\<forall>r \<in> set (gv_runs g). trail ''run'' (ar_id r) (gv_audit g) = map Some [1..ar_version r])
    \<and> (\<forall>a \<in> set (gv_actions g). trail ''action'' (aa_id a) (gv_audit g) = map Some [1..aa_version a])
    \<and> (\<forall>p \<in> set (gv_plans g). replay (PlanDraft, 1) (plan_log (gp_id p) g) = Some (gp_status p, gp_version p))"
  using gv.inv_reachable [OF assms] by (simp add: gov_ok_def locks_ok_def runs_ok_def actions_ok_def plans_ok_def trail_ok_def)

theorem governance_reachable_consistent_witness:
  "distinct (map run_key (gv_runs (snd wit_run))) \<and> trail ''lock'' 1 (gv_audit (snd wit_run)) = map Some [1..2]
    \<and> trail ''run'' 5 (gv_audit (snd wit_run)) = map Some [1..1]"
proof -
  let ?l = "fst (fst wit_lease2)" and ?r = "fst wit_run"
  have m: "?l \<in> set (gv_locks (snd wit_run))" "?r \<in> set (gv_runs (snd wit_run))" by code_simp+
  have "lk_id ?l = 1" "lk_version ?l = 2" "ar_id ?r = 5" "ar_version ?r = 1" by code_simp+
  then show ?thesis using governance_reachable_consistent [OF wit_gov_reachable(3)] m by fastforce
qed

text \<open>
  While a lease of a scope is neither released nor expired, every attempt to acquire the scope
  fails, naming the holder and the expiry.
\<close>

theorem live_lease_excludes:
  assumes "reachable gov_start (gov_step ut) g" "l \<in> set (gv_locks g)" "unreleased l" "now < lk_lease_expires_at l"
  shows "acquire_skill_governance_lock ids now anow (lk_scope l) (lk_scope_id l) owner pid rid nonce ex g
    = Inl (SkillGovernanceLockHeld (gov_scope_as_str (lk_scope l)) (lk_scope_id l) (lk_owner l) (lk_lease_expires_at l))"
  using find_active [OF gv.inv_reachable [OF assms(1)] assms(2,3)] assms(4) by (simp add: acquire_skill_governance_lock_def)

theorem live_lease_excludes_witness:
  "acquire_skill_governance_lock (3, 4) 15 15 GvAgent ''a'' ''o2'' None None ''n2'' 50 (snd wit_lease1)
     = Inl (SkillGovernanceLockHeld ''agent'' ''a'' ''o1'' 20)"
proof -
  have l: "fst (fst wit_lease1) \<in> set (gv_locks (snd wit_lease1))" "unreleased (fst (fst wit_lease1))"
    "15 < lk_lease_expires_at (fst (fst wit_lease1))" by code_simp+
  have "lk_scope (fst (fst wit_lease1)) = GvAgent" "lk_scope_id (fst (fst wit_lease1)) = ''a''" "lk_owner (fst (fst wit_lease1)) = ''o1''"
    "lk_lease_expires_at (fst (fst wit_lease1)) = 20" by code_simp+
  then show ?thesis using live_lease_excludes [OF wit_gov_reachable(1) l] by simp
qed

lemma takeover_version:
  assumes "gov_ok g0" "l0 \<in> set (gv_locks g0)" "acquire_skill_governance_lock ids now anow sc sid owner pid rid nonce ex g0 = Inr ((l, True), g1)"
    "lk_id l = lk_id l0"
  shows "l \<in> set (gv_locks g1) \<and> lk_version l = lk_version l0 + 1"
  using assms(3) distinct_lock_ids [OF assms(1)]
proof (cases rule: acquireE)
  case (takeover c f a)
  have "c = l0" using key_iff [OF distinct_lock_ids [OF assms(1)] assms(2) takeover(1)] assms(4) takeover(5,6) by simp
  then show ?thesis using takeover assms(2) by (auto simp: set_update_rows)
qed simp

text \<open>
  C15. Once an expired lease has been taken over, every renewal, attachment or release that still
  carries a version the old holder can have seen fails with a version conflict, in every later state
  and whatever nonce it presents: the old holder is fenced off.
\<close>

theorem takeover_fences_holder:
  assumes "reachable gov_start (gov_step ut) g0" "l0 \<in> set (gv_locks g0)"
    "acquire_skill_governance_lock ids now anow sc sid owner pid rid nonce ex g0 = Inr ((l, True), g1)" "lk_id l = lk_id l0"
    "(gov_step ut)\<^sup>*\<^sup>* g1 g" "v \<le> lk_version l0"
  shows "\<exists>w > v. renew_skill_governance_lock aid now' anow' (lk_id l0) v nonce' ex' g
        = Inl (SkillGovernanceVersionConflict ''skill governance scoped lock'' (lk_id l0) w v)
    \<and> attach_skill_governance_lock_run ut aid now' anow' (lk_id l0) v nonce' run_id ex' g
        = Inl (SkillGovernanceVersionConflict ''skill governance scoped lock'' (lk_id l0) w v)
    \<and> release_skill_governance_lock aid now' anow' (lk_id l0) v nonce' g
        = Inl (SkillGovernanceVersionConflict ''skill governance scoped lock'' (lk_id l0) w v)"
proof -
  note ok = gv.inv_reachable [OF assms(1)]
  have ok1: "gov_ok g1" by (rule gov_ok_acquire [OF ok assms(3)])
  have l: "l \<in> set (gv_locks g1)" "lk_version l = lk_version l0 + 1" using takeover_version [OF ok assms(2-4)] by simp_all
  obtain m where m: "m \<in> set (gv_locks g)" "lk_id m = lk_id l0" "v < lk_version m"
    using lkt.row_run [OF assms(5) ok1 l(1)] assms(4,6) l(2) by force
  show ?thesis
    using m(3) update_lock_stale [OF lkt.inv_run [OF assms(5) ok1] m(1,3), unfolded m(2)]
    by (intro exI [of _ "lk_version m"])
      (simp add: renew_skill_governance_lock_def attach_skill_governance_lock_run_def release_skill_governance_lock_def)
qed

theorem takeover_fences_holder_witness:
  "\<exists>w > 1. release_skill_governance_lock 9 60 60 1 1 ''n1'' (snd wit_lease2)
     = Inl (SkillGovernanceVersionConflict ''skill governance scoped lock'' 1 w 1)"
proof -
  have l: "fst (fst wit_lease1) \<in> set (gv_locks (snd wit_lease1))" "lk_id (fst (fst wit_lease2)) = lk_id (fst (fst wit_lease1))"
    "1 \<le> lk_version (fst (fst wit_lease1))" "lk_id (fst (fst wit_lease1)) = 1" by code_simp+
  show ?thesis
    using takeover_fences_holder [OF wit_gov_reachable(1) l(1) wit_lease2 l(2) rtranclp.rtrancl_refl l(3)] unfolding l(4) by blast
qed

text \<open>
  C14. A run transition reads the run and writes it later with a guard on the version it read. For any
  operations of other callers between the read and the write, the write succeeds exactly when the
  whole transition, done at once at the moment of the write, succeeds, and with the same result and
  state: overlapping transitions are linearizable at their write.
\<close>

theorem run_transition_linearizes:
  assumes "reachable gov_start (gov_step ut) g0" "run_check i v g0 = Inr c" "(gov_step ut)\<^sup>*\<^sup>* g0 g"
  shows "run_write aid now anow c st rec bp qp ev le g = Inr (run, g')
    \<longleftrightarrow> transition_skill_governance_apply_run aid now anow i v st rec bp qp ev le g = Inr (run, g')"
proof -
  have ok: "gov_ok g0" and ok': "gov_ok g"
    using gv.inv_reachable [OF assms(1)] rnt.inv_run [OF assms(3)] by auto
  have c: "c \<in> set (gv_runs g0)" "ar_id c = i" "ar_version c = v" using assms(2) by (simp_all add: run_check_iff [OF ok])
  have same: "d = c" if "d \<in> set (gv_runs g)" "ar_id d = i" "ar_version d = v" for d
    using rnt.later_row(2) [OF assms(3) ok c(1) that(1)] that c by auto
  show ?thesis
  proof
    assume w: "run_write aid now anow c st rec bp qp ev le g = Inr (run, g')"
    obtain d where "d \<in> set (gv_runs g)" "ar_id d = ar_id c" "ar_version d = ar_version c"
      using w distinct_run_ids [OF ok'] by (rule run_writeE)
    then have "run_check i v g = Inr c" using same c by (auto simp: run_check_iff [OF ok'])
    with w show "transition_skill_governance_apply_run aid now anow i v st rec bp qp ev le g = Inr (run, g')"
      by (simp add: transition_skill_governance_apply_run_def tx_bind_Inr_iff)
  next
    assume "transition_skill_governance_apply_run aid now anow i v st rec bp qp ev le g = Inr (run, g')"
    then obtain d where d: "run_check i v g = Inr d" "run_write aid now anow d st rec bp qp ev le g = Inr (run, g')" by (rule run_toE)
    then have "d = c" using same by (simp add: run_check_iff [OF ok'])
    with d(2) show "run_write aid now anow c st rec bp qp ev le g = Inr (run, g')" by simp
  qed
qed

theorem run_transition_linearizes_witness:
  "\<forall>r g. run_write 9 50 50 (fst wit_run) RunRunning RecNotRequired None None ''{}'' None (snd wit_run) = Inr (r, g)
    \<longleftrightarrow> transition_skill_governance_apply_run 9 50 50 5 1 RunRunning RecNotRequired None None ''{}'' None (snd wit_run) = Inr (r, g)"
proof -
  have "run_check 5 1 (snd wit_run) = Inr (fst wit_run)" by code_simp
  then show ?thesis using run_transition_linearizes [OF wit_gov_reachable(3) _ rtranclp.rtrancl_refl] by simp
qed

text \<open>
  Creating an apply run is idempotent for ever: repeating a successful request at any later time,
  however often the run and everything else have moved on, returns the run with the same identifier
  and changes nothing.
\<close>

theorem create_run_idempotent:
  assumes "reachable gov_start (gov_step ut) g0" "create_skill_governance_apply_run ids now anow nr g0 = Inr (run, g1)" "(gov_step ut)\<^sup>*\<^sup>* g1 g"
  shows "\<exists>r. create_skill_governance_apply_run ids' now' anow' nr g = Inr (r, g) \<and> ar_id r = ar_id run"
proof -
  have ok1: "gov_ok g1"
    using gv.inv_reachable [OF reachable_step [OF assms(1) gs_run [OF assms(2)]]] .
  then have "existing_run nr g1 = Inr (Some run)" using created_run [OF assms(2) gv.inv_reachable [OF assms(1)]] by simp
  then have run: "run \<in> set (gv_runs g1)" "run_ident run = ((nr_scope nr, nr_scope_id nr, nr_idempotency_key nr), nr_nonce nr, nr_observation_hash nr, nr_desired_hash nr, nr_lock_hash nr)"
    by (simp_all only: existing_run_iff [OF ok1])
  obtain r where "r \<in> set (gv_runs g)" "ar_id r = ar_id run" "run_ident r = run_ident run"
    using rnt.row_run [OF assms(3) ok1 run(1)] by blast
  then have "existing_run nr g = Inr (Some r)"
    using run(2) by (simp add: existing_run_iff [OF rnt.inv_run [OF assms(3) ok1]])
  with \<open>ar_id r = ar_id run\<close> show ?thesis by (auto simp: create_skill_governance_apply_run_def tx_bind_Inr_iff)
qed

theorem create_run_idempotent_witness:
  "\<exists>r. create_skill_governance_apply_run (7, 8) 70 70 wit_new_run (snd wit_run) = Inr (r, snd wit_run) \<and> ar_id r = 5"
proof -
  have "ar_id (fst wit_run) = 5" by code_simp
  then show ?thesis using create_run_idempotent [OF wit_gov_reachable(2) wit_run rtranclp.rtrancl_refl, of "(7, 8)" 70 70] by simp
qed

text \<open>
  Two overlapping requests that both found no run for their key: the second insert hits the unique
  index and fails, although the request is the one the first caller made.
\<close>

theorem overlapping_create_run_fails:
  assumes "gov_ok g" "existing_run nr g = Inr None" "create_skill_governance_apply_run ids now anow nr g = Inr (run, g')"
  shows "insert_run ids' now' anow' nr g' = Inl constraint"
proof -
  have "existing_run nr g' = Inr (Some run)" by (rule created_run [OF assms(3,1)])
  then have "get_skill_governance_apply_run_by_idempotency (nr_scope nr) (nr_scope_id nr) (nr_idempotency_key nr) g' \<noteq> None"
    by (auto simp: existing_run_def split: option.splits)
  then show ?thesis by (simp add: insert_run_def)
qed

end
