(* ===== verification/SortedMap.thy ===== *)
theory SortedMap
  imports Prelude "HOL-Library.List_Lexorder" "HOL-Library.Char_ord" "HOL-Library.Product_Lexorder"
begin

text \<open>
  \<open>BTreeMap\<close> as an association list in strictly increasing order of its keys, which is also its
  iteration order. Strings compare byte by byte and tuples component by component, the orders of the
  library's lexicographic instances. Also \<open>Vec::dedup_by\<close> and the stable \<open>sort_by\<close> on a key
  (\<open>sort_key\<close>).
\<close>

type_synonym ('k, 'v) btree = "('k \<times> 'v) list"

definition bt_ok :: "('k :: linorder, 'v) btree \<Rightarrow> bool" where
  "bt_ok m \<longleftrightarrow> sorted_wrt (<) (map fst m)"

definition bt_get :: "('k, 'v) btree \<Rightarrow> 'k \<Rightarrow> 'v option" where
  "bt_get m k = map_of m k"

fun bt_insert :: "'k :: linorder \<Rightarrow> 'v \<Rightarrow> ('k, 'v) btree \<Rightarrow> ('k, 'v) btree" where
  "bt_insert k v [] = [(k, v)]"
| "bt_insert k v ((k', v') # m) =
     (if k < k' then (k, v) # (k', v') # m
      else if k = k' then (k, v) # m
      else (k', v') # bt_insert k v m)"

definition bt_remove :: "'k \<Rightarrow> ('k, 'v) btree \<Rightarrow> ('k, 'v) btree" where
  "bt_remove k m = filter (\<lambda>p. fst p \<noteq> k) m"

text \<open>\<open>entry(k).or_default().push(x)\<close>\<close>

definition bt_push :: "'k :: linorder \<Rightarrow> 'x \<Rightarrow> ('k, 'x list) btree \<Rightarrow> ('k, 'x list) btree" where
  "bt_push k x m = bt_insert k ((case bt_get m k of None \<Rightarrow> [] | Some xs \<Rightarrow> xs) @ [x]) m"

lemma bt_get_insert [simp]: "bt_get (bt_insert k v m) j = (if j = k then Some v else bt_get m j)"
  by (induction k v m rule: bt_insert.induct) (auto simp: bt_get_def)

lemma bt_get_remove [simp]: "bt_get (bt_remove k m) j = (if j = k then None else bt_get m j)"
  by (induction m) (auto simp: bt_get_def bt_remove_def)

lemma bt_get_Nil [simp]: "bt_get [] k = None"
  by (simp add: bt_get_def)

lemma keys_insert: "fst ` set (bt_insert k v m) = insert k (fst ` set m)"
  by (induction k v m rule: bt_insert.induct) auto

lemma bt_ok_Nil [simp]: "bt_ok []"
  by (simp add: bt_ok_def)

lemma bt_ok_Cons: "bt_ok (p # m) \<longleftrightarrow> (\<forall>k \<in> fst ` set m. fst p < k) \<and> bt_ok m"
  by (simp add: bt_ok_def)

lemma bt_ok_insert [simp]: "bt_ok m \<Longrightarrow> bt_ok (bt_insert k v m)"
proof (induction k v m rule: bt_insert.induct)
  case (2 k v k' v' m)
  then show ?case by (auto simp: bt_ok_Cons keys_insert)
qed (simp add: bt_ok_def)

lemma bt_ok_remove [simp]: "bt_ok m \<Longrightarrow> bt_ok (bt_remove k m)"
  unfolding bt_ok_def bt_remove_def by (induction m) (auto simp: image_iff)

lemma bt_distinct: "bt_ok m \<Longrightarrow> distinct (map fst m)"
  unfolding bt_ok_def by (simp add: strict_sorted_iff)

lemma bt_get_iff: "bt_ok m \<Longrightarrow> bt_get m k = Some v \<longleftrightarrow> (k, v) \<in> set m"
  by (simp add: bt_get_def bt_distinct)

text \<open>Two maps with the same lookups are the same map: the order carries no information.\<close>

lemma bt_ext:
  assumes "bt_ok m" "bt_ok n" "\<And>k. bt_get m k = bt_get n k"
  shows "m = n"
proof -
  have s: "set m = set n" using assms by (auto simp flip: bt_get_iff)
  then have "map fst m = map fst n"
    using assms(1,2) unfolding bt_ok_def by (intro strict_sorted_equal) auto
  then have l: "length m = length n" by (metis length_map)
  show ?thesis
  proof (rule nth_equalityI [OF l])
    fix i assume i: "i < length m"
    have "map fst m ! i = map fst n ! i" using \<open>map fst m = map fst n\<close> by simp
    then have k: "fst (m ! i) = fst (n ! i)" using i l by simp
    have "m ! i \<in> set n" "n ! i \<in> set n" using nth_mem [OF i] nth_mem [of i n] i l s by simp_all
    moreover have "inj_on fst (set n)" using bt_distinct [OF assms(2)] by (simp add: distinct_map)
    ultimately show "m ! i = n ! i" using k by (blast dest: inj_onD)
  qed
qed

lemma bt_get_push: "bt_get (bt_push k x m) j = (if j = k then Some ((case bt_get m k of None \<Rightarrow> [] | Some xs \<Rightarrow> xs) @ [x]) else bt_get m j)"
  by (simp add: bt_push_def)

lemma bt_ok_push [simp]: "bt_ok m \<Longrightarrow> bt_ok (bt_push k x m)"
  by (simp add: bt_push_def)

section \<open>Grouping\<close>

text \<open>The maps the sources build by pushing every element under a key.\<close>

definition group_by :: "('a \<Rightarrow> 'k :: linorder) \<Rightarrow> 'a list \<Rightarrow> ('k, 'a list) btree" where
  "group_by f xs = foldl (\<lambda>m x. bt_push (f x) x m) [] xs"

lemma group_by_snoc: "group_by f (xs @ [x]) = bt_push (f x) x (group_by f xs)"
  by (simp add: group_by_def)

lemma group_by_ok [simp]: "bt_ok (group_by f xs)"
  by (induction xs rule: rev_induct) (simp_all add: group_by_snoc, simp add: group_by_def)

lemma group_by_get: "bt_get (group_by f xs) k = (let ys = filter (\<lambda>x. f x = k) xs in if ys = [] then None else Some ys)"
proof (induction xs rule: rev_induct)
  case (snoc x xs)
  then show ?case by (auto simp: group_by_snoc bt_get_push Let_def split: option.splits if_splits)
qed (simp add: group_by_def)

section \<open>Removing repeated neighbours\<close>

fun dedup_by :: "('a \<Rightarrow> 'a \<Rightarrow> bool) \<Rightarrow> 'a list \<Rightarrow> 'a list" where
  "dedup_by eq (x # y # xs) = (if eq y x then dedup_by eq (x # xs) else x # dedup_by eq (y # xs))"
| "dedup_by eq xs = xs"

lemma dedup_by_subset: "set (dedup_by eq xs) \<subseteq> set xs"
  by (induction eq xs rule: dedup_by.induct) auto

lemma dedup_by_Nil [simp]: "dedup_by eq xs = [] \<longleftrightarrow> xs = []"
  by (induction eq xs rule: dedup_by.induct) auto

lemma dedup_by_map: "(\<And>x y. eq' (f x) (f y) = eq x y) \<Longrightarrow> dedup_by eq' (map f xs) = map f (dedup_by eq xs)"
  by (induction eq xs rule: dedup_by.induct) auto

text \<open>Every element that is dropped equals, for the key, an element that is kept.\<close>

lemma dedup_by_covers:
  assumes "\<And>x y. eq x y \<longleftrightarrow> k x = k y"
  shows "k ` set (dedup_by eq xs) = k ` set xs"
  using assms by (induction eq xs rule: dedup_by.induct) auto

lemma distinct_map_sort: "distinct (map g (sort_key f xs)) = distinct (map g xs)"
  by (simp add: distinct_map)

lemma insort_key_map: "insort_key k (f x) (map f xs) = map f (insort_key (k \<circ> f) x xs)"
  by (induction xs) auto

lemma sort_key_map: "sort_key k (map f xs) = map f (sort_key (k \<circ> f) xs)"
  by (induction xs) (simp_all add: insort_key_map [unfolded comp_def] comp_def)

lemma map_sort_key: "map f (sort_key f xs) = sort (map f xs)"
  by (simp add: sort_key_map comp_def)

lemma bt_insert_map: "bt_insert k (f v) (map (map_prod id f) m) = map (map_prod id f) (bt_insert k v m)"
  by (induction k v m rule: bt_insert.induct) auto

lemma sort_key_Nil_iff: "sort_key f xs = [] \<longleftrightarrow> xs = []"
  by (metis length_0_conv length_sort)

end
