(* ===== verification/GovMaterial.thy ===== *)
theory GovMaterial
  imports SkillGovernance SortedMap
begin

text \<open>
  Managed skill artifacts and their materializations (\<open>crates/cocli-store/src/skill_governance.rs\<close>):
  immutable artifacts, the records of where each is installed and who owns the installed copy, the
  audit of adoptions, workspace lockfiles, and the references that protect rows from garbage
  collection. As in \<open>SkillGovernance\<close>, a method that reads and later writes is a check and a write;
  the method composes the two, and the system below interleaves them: a writer holds any row that
  was read at any earlier time.
\<close>

section \<open>Enums and their spelling\<close>

datatype ownership = Managed | Adopted | Foreign | Unmanaged

fun ownership_as_str :: "ownership \<Rightarrow> string" where
  "ownership_as_str Managed = ''managed''"
| "ownership_as_str Adopted = ''adopted''"
| "ownership_as_str Foreign = ''foreign''"
| "ownership_as_str Unmanaged = ''unmanaged''"

definition ownership_parse :: "string \<Rightarrow> store_error + ownership" where
  "ownership_parse v =
     (if v = ''managed'' then Inr Managed
      else if v = ''adopted'' then Inr Adopted
      else if v = ''foreign'' then Inr Foreign
      else if v = ''unmanaged'' then Inr Unmanaged
      else Inl (InvalidValue ''skill governance materialization ownership'' v))"

interpretation owc: wire_codec ownership_as_str ownership_parse
proof
  show "ownership_parse (ownership_as_str x) = Inr x" for x
    by (cases x) (simp_all add: ownership_parse_def)
  show "s = ownership_as_str x" if "ownership_parse s = Inr x" for s x
    using that by (auto simp: ownership_parse_def split: if_splits)
qed

datatype root_kind = RootMachine | RootWorkspace | RootAgent

fun root_kind_as_str :: "root_kind \<Rightarrow> string" where
  "root_kind_as_str RootMachine = ''machine''"
| "root_kind_as_str RootWorkspace = ''workspace''"
| "root_kind_as_str RootAgent = ''agent''"

definition root_kind_parse :: "string \<Rightarrow> store_error + root_kind" where
  "root_kind_parse v =
     (if v = ''machine'' then Inr RootMachine
      else if v = ''workspace'' then Inr RootWorkspace
      else if v = ''agent'' then Inr RootAgent
      else Inl (InvalidValue ''skill governance materialization root kind'' v))"

interpretation rkc: wire_codec root_kind_as_str root_kind_parse
proof
  show "root_kind_parse (root_kind_as_str x) = Inr x" for x
    by (cases x) (simp_all add: root_kind_parse_def)
  show "s = root_kind_as_str x" if "root_kind_parse s = Inr x" for s x
    using that by (auto simp: root_kind_parse_def split: if_splits)
qed

datatype install_mode = InstallCopy | InstallSymlink | InstallInPlace

fun install_mode_as_str :: "install_mode \<Rightarrow> string" where
  "install_mode_as_str InstallCopy = ''copy''"
| "install_mode_as_str InstallSymlink = ''symlink''"
| "install_mode_as_str InstallInPlace = ''in_place''"

definition install_mode_parse :: "string \<Rightarrow> store_error + install_mode" where
  "install_mode_parse v =
     (if v = ''copy'' then Inr InstallCopy
      else if v = ''symlink'' then Inr InstallSymlink
      else if v = ''in_place'' then Inr InstallInPlace
      else Inl (InvalidValue ''skill governance installation mode'' v))"

interpretation imc: wire_codec install_mode_as_str install_mode_parse
proof
  show "install_mode_parse (install_mode_as_str x) = Inr x" for x
    by (cases x) (simp_all add: install_mode_parse_def)
  show "s = install_mode_as_str x" if "install_mode_parse s = Inr x" for s x
    using that by (auto simp: install_mode_parse_def split: if_splits)
qed

datatype verify_status = VerUnknown | Verified | Drifted | Missing

fun verify_status_as_str :: "verify_status \<Rightarrow> string" where
  "verify_status_as_str VerUnknown = ''unknown''"
| "verify_status_as_str Verified = ''verified''"
| "verify_status_as_str Drifted = ''drifted''"
| "verify_status_as_str Missing = ''missing''"

definition verify_status_parse :: "string \<Rightarrow> store_error + verify_status" where
  "verify_status_parse v =
     (if v = ''unknown'' then Inr VerUnknown
      else if v = ''verified'' then Inr Verified
      else if v = ''drifted'' then Inr Drifted
      else if v = ''missing'' then Inr Missing
      else Inl (InvalidValue ''skill governance verify status'' v))"

interpretation vsc: wire_codec verify_status_as_str verify_status_parse
proof
  show "verify_status_parse (verify_status_as_str x) = Inr x" for x
    by (cases x) (simp_all add: verify_status_parse_def)
  show "s = verify_status_as_str x" if "verify_status_parse s = Inr x" for s x
    using that by (auto simp: verify_status_parse_def split: if_splits)
qed

section \<open>Rows\<close>

record new_managed_artifact =
  nma_artifact_key :: string
  nma_artifact_kind :: string
  nma_source_provenance :: json
  nma_content_digest :: string
  nma_manifest_digest :: string
  nma_schema_version :: int
  nma_revision :: string
  nma_store_relative_path :: string
  nma_artifact :: json
  nma_metadata :: json

record managed_artifact =
  ma_id :: uuid
  ma_artifact_key :: string
  ma_artifact_kind :: string
  ma_source_provenance :: json
  ma_content_digest :: string
  ma_manifest_digest :: string
  ma_schema_version :: int
  ma_revision :: string
  ma_store_relative_path :: string
  ma_artifact :: json
  ma_metadata :: json
  ma_version :: int
  ma_created_at :: timestamp

record new_materialization =
  nmz_artifact_id :: uuid
  nmz_scope :: governance_scope
  nmz_scope_id :: string
  nmz_target_path :: string
  nmz_target_runtime :: string
  nmz_root_kind :: root_kind
  nmz_installation_mode :: install_mode
  nmz_ownership :: ownership
  nmz_content_digest :: string
  nmz_expected_destination :: string
  nmz_expected_fingerprint :: string
  nmz_verify_status :: verify_status
  nmz_receipt :: json

record materialization =
  mz_id :: uuid
  mz_artifact_id :: uuid
  mz_scope :: governance_scope
  mz_scope_id :: string
  mz_target_path :: string
  mz_target_runtime :: string
  mz_root_kind :: root_kind
  mz_installation_mode :: install_mode
  mz_ownership :: ownership
  mz_content_digest :: string
  mz_expected_destination :: string
  mz_expected_fingerprint :: string
  mz_verify_status :: verify_status
  mz_receipt :: json
  mz_version :: int
  mz_adopted_at :: "timestamp option"
  mz_created_at :: timestamp
  mz_updated_at :: timestamp

record adoption_audit =
  ad_id :: uuid
  ad_materialization_id :: uuid
  ad_action :: string
  ad_from_ownership :: ownership
  ad_to_ownership :: ownership
  ad_from_version :: int
  ad_to_version :: int
  ad_receipt :: json
  ad_created_at :: timestamp

text \<open>The arguments of \<open>upsert_skill_governance_workspace_lockfile\<close> beside the key and the version.\<close>

record lockfile_content =
  lc_lock_hash :: string
  lc_expected_disk_fingerprint :: string
  lc_expected_disk_hash :: string
  lc_document :: json
  lc_last_backup_path :: "string option"
  lc_last_backup_hash :: "string option"
  lc_last_receipt :: json
  lc_restore_metadata :: json

record workspace_lockfile =
  wl_id :: uuid
  wl_workspace_id :: string
  wl_lockfile_path :: string
  wl_content :: lockfile_content
  wl_version :: int
  wl_created_at :: timestamp
  wl_updated_at :: timestamp

record new_gc_reference =
  ngr_source_type :: string
  ngr_source_id :: uuid
  ngr_target_type :: string
  ngr_target_id :: uuid
  ngr_reference_kind :: string
  ngr_metadata :: json

record gc_reference =
  gr_id :: uuid
  gr_source_type :: string
  gr_source_id :: uuid
  gr_target_type :: string
  gr_target_id :: uuid
  gr_reference_kind :: string
  gr_metadata :: json
  gr_created_at :: timestamp

record gc_candidate =
  gc_entity_type :: string
  gc_entity_id :: uuid
  gc_reason :: string

record materials =
  mt_artifacts :: "managed_artifact list"
  mt_materials :: "materialization list"
  mt_adoptions :: "adoption_audit list"
  mt_lockfiles :: "workspace_lockfile list"
  mt_refs :: "gc_reference list"

type_synonym 'a mtx = "store_error + ('a \<times> materials)"

definition found :: "string \<Rightarrow> uuid \<Rightarrow> 'a option \<Rightarrow> store_error + 'a" where
  "found entity i r = (case r of Some x \<Rightarrow> Inr x | None \<Rightarrow> Inl (SkillGovernanceNotFound entity i))"

section \<open>Managed artifacts\<close>

definition get_skill_governance_managed_artifact :: "uuid \<Rightarrow> materials \<Rightarrow> managed_artifact option" where
  "get_skill_governance_managed_artifact i m = find (\<lambda>a. ma_id a = i) (mt_artifacts m)"

definition get_skill_governance_managed_artifact_by_key :: "string \<Rightarrow> materials \<Rightarrow> managed_artifact option" where
  "get_skill_governance_managed_artifact_by_key k m = find (\<lambda>a. ma_artifact_key a = k) (mt_artifacts m)"

definition list_skill_governance_managed_artifacts :: "materials \<Rightarrow> managed_artifact list" where
  "list_skill_governance_managed_artifacts m = sort_key (\<lambda>a. (ma_artifact_key a, ma_id a)) (mt_artifacts m)"

definition existing_artifact :: "new_managed_artifact \<Rightarrow> materials \<Rightarrow> store_error + managed_artifact option" where
  "existing_artifact n m =
     (case get_skill_governance_managed_artifact_by_key (nma_artifact_key n) m of
        None \<Rightarrow> Inr None
      | Some e \<Rightarrow>
          if ma_artifact_kind e \<noteq> nma_artifact_kind n
             \<or> ma_source_provenance e \<noteq> nma_source_provenance n
             \<or> ma_content_digest e \<noteq> nma_content_digest n
             \<or> ma_manifest_digest e \<noteq> nma_manifest_digest n
             \<or> ma_schema_version e \<noteq> nma_schema_version n
             \<or> ma_revision e \<noteq> nma_revision n
             \<or> ma_store_relative_path e \<noteq> nma_store_relative_path n
             \<or> ma_artifact e \<noteq> nma_artifact n
             \<or> ma_metadata e \<noteq> nma_metadata n
          then Inl (SkillGovernanceIdempotencyConflict ''skill governance managed artifact'' (ma_id e))
          else Inr (Some e))"

definition insert_artifact :: "uuid \<Rightarrow> timestamp \<Rightarrow> new_managed_artifact \<Rightarrow> materials \<Rightarrow> managed_artifact mtx" where
  "insert_artifact i now n m =
     (if i \<in> ma_id ` set (mt_artifacts m) \<or> nma_artifact_key n \<in> ma_artifact_key ` set (mt_artifacts m)
         \<or> nma_schema_version n \<le> 0
      then Inl constraint
      else let m' = m\<lparr>mt_artifacts := mt_artifacts m @
             [\<lparr>ma_id = i, ma_artifact_key = nma_artifact_key n,
               ma_artifact_kind = nma_artifact_kind n,
               ma_source_provenance = nma_source_provenance n,
               ma_content_digest = nma_content_digest n,
               ma_manifest_digest = nma_manifest_digest n,
               ma_schema_version = nma_schema_version n,
               ma_revision = nma_revision n,
               ma_store_relative_path = nma_store_relative_path n,
               ma_artifact = nma_artifact n,
               ma_metadata = nma_metadata n,
               ma_version = 1, ma_created_at = now\<rparr>]\<rparr>
           in tx_bind (found ''skill governance managed artifact'' i (get_skill_governance_managed_artifact i m'))
                (\<lambda>a. Inr (a, m')))"

definition create_skill_governance_managed_artifact :: "uuid \<Rightarrow> timestamp \<Rightarrow> new_managed_artifact \<Rightarrow> materials \<Rightarrow> managed_artifact mtx" where
  "create_skill_governance_managed_artifact i now n m =
     tx_bind (existing_artifact n m)
       (\<lambda>e. case e of Some a \<Rightarrow> Inr (a, m) | None \<Rightarrow> insert_artifact i now n m)"

definition has_skill_governance_gc_reference :: "string \<Rightarrow> uuid \<Rightarrow> materials \<Rightarrow> bool" where
  "has_skill_governance_gc_reference ty i m \<longleftrightarrow> (\<exists>r \<in> set (mt_refs m). gr_target_type r = ty \<and> gr_target_id r = i)"

definition delete_artifact_check :: "uuid \<Rightarrow> int \<Rightarrow> materials \<Rightarrow> store_error + unit" where
  "delete_artifact_check i expected m =
     tx_bind (found ''skill governance managed artifact'' i (get_skill_governance_managed_artifact i m))
       (\<lambda>c. if ma_version c \<noteq> expected
             then Inl (SkillGovernanceVersionConflict ''skill governance managed artifact'' i (ma_version c) expected)
             else if \<exists>z \<in> set (mt_materials m). mz_artifact_id z = i
             then Inl (SkillGovernanceDeleteConflict ''skill governance managed artifact'' i ''materialized'')
             else if has_skill_governance_gc_reference ''managed_artifact'' i m
             then Inl (SkillGovernanceDeleteConflict ''skill governance managed artifact'' i ''referenced'')
             else Inr ())"

text \<open>Deleting rows takes their dependent rows along (\<open>ON DELETE CASCADE\<close>).\<close>

definition remove_materials :: "(materialization \<Rightarrow> bool) \<Rightarrow> materials \<Rightarrow> materials" where
  "remove_materials p m =
     (let gone = mz_id ` set (filter p (mt_materials m))
      in m\<lparr>mt_materials := filter (\<lambda>z. \<not> p z) (mt_materials m),
           mt_adoptions := filter (\<lambda>a. ad_materialization_id a \<notin> gone) (mt_adoptions m)\<rparr>)"

definition delete_artifact_write :: "uuid \<Rightarrow> int \<Rightarrow> materials \<Rightarrow> bool \<times> materials" where
  "delete_artifact_write i expected m =
     (let p = (\<lambda>a. ma_id a = i \<and> ma_version a = expected);
          gone = ma_id ` set (filter p (mt_artifacts m));
          m' = remove_materials (\<lambda>z. mz_artifact_id z \<in> gone) m
      in (affected p (mt_artifacts m) > 0, m'\<lparr>mt_artifacts := filter (\<lambda>a. \<not> p a) (mt_artifacts m)\<rparr>))"

definition delete_skill_governance_managed_artifact :: "uuid \<Rightarrow> int \<Rightarrow> materials \<Rightarrow> bool mtx" where
  "delete_skill_governance_managed_artifact i expected m =
     tx_bind (delete_artifact_check i expected m) (\<lambda>_. Inr (delete_artifact_write i expected m))"

section \<open>Materializations\<close>

definition get_skill_governance_materialization :: "uuid \<Rightarrow> materials \<Rightarrow> materialization option" where
  "get_skill_governance_materialization i m = find (\<lambda>z. mz_id z = i) (mt_materials m)"

definition mz_target :: "materialization \<Rightarrow> governance_scope \<times> string \<times> string" where
  "mz_target z = (mz_scope z, mz_scope_id z, mz_target_path z)"

definition get_skill_governance_materialization_for_target :: "governance_scope \<Rightarrow> string \<Rightarrow> string \<Rightarrow> materials \<Rightarrow> materialization option" where
  "get_skill_governance_materialization_for_target sc sid path m = find (\<lambda>z. mz_target z = (sc, sid, path)) (mt_materials m)"

definition list_skill_governance_materializations :: "governance_scope \<Rightarrow> string \<Rightarrow> materials \<Rightarrow> materialization list" where
  "list_skill_governance_materializations sc sid m =
     sort_key (\<lambda>z. (mz_target_path z, mz_id z)) (filter (\<lambda>z. mz_scope z = sc \<and> mz_scope_id z = sid) (mt_materials m))"

definition materialization_matches_input :: "materialization \<Rightarrow> new_materialization \<Rightarrow> bool" where
  "materialization_matches_input c n \<longleftrightarrow>
     mz_artifact_id c = nmz_artifact_id n
     \<and> mz_scope c = nmz_scope n
     \<and> mz_scope_id c = nmz_scope_id n
     \<and> mz_target_path c = nmz_target_path n
     \<and> mz_target_runtime c = nmz_target_runtime n
     \<and> mz_root_kind c = nmz_root_kind n
     \<and> mz_installation_mode c = nmz_installation_mode n
     \<and> mz_ownership c = nmz_ownership n
     \<and> mz_content_digest c = nmz_content_digest n
     \<and> mz_expected_destination c = nmz_expected_destination n
     \<and> mz_expected_fingerprint c = nmz_expected_fingerprint n
     \<and> mz_verify_status c = nmz_verify_status n
     \<and> mz_receipt c = nmz_receipt n"

definition artifact_known :: "uuid \<Rightarrow> materials \<Rightarrow> store_error + unit" where
  "artifact_known i m =
     tx_bind (found ''skill governance managed artifact'' i (get_skill_governance_managed_artifact i m)) (\<lambda>_. Inr ())"

definition material_row :: "uuid \<Rightarrow> timestamp \<Rightarrow> new_materialization \<Rightarrow> materialization" where
  "material_row i now n =
     \<lparr>mz_id = i, mz_artifact_id = nmz_artifact_id n,
      mz_scope = nmz_scope n,
      mz_scope_id = nmz_scope_id n,
      mz_target_path = nmz_target_path n,
      mz_target_runtime = nmz_target_runtime n,
      mz_root_kind = nmz_root_kind n,
      mz_installation_mode = nmz_installation_mode n,
      mz_ownership = nmz_ownership n,
      mz_content_digest = nmz_content_digest n,
      mz_expected_destination = nmz_expected_destination n,
      mz_expected_fingerprint = nmz_expected_fingerprint n,
      mz_verify_status = nmz_verify_status n,
      mz_receipt = nmz_receipt n,
      mz_version = 1, mz_adopted_at = (if nmz_ownership n = Adopted then Some now else None),
      mz_created_at = now, mz_updated_at = now\<rparr>"

definition insert_material :: "uuid \<Rightarrow> timestamp \<Rightarrow> new_materialization \<Rightarrow> materials \<Rightarrow> materialization mtx" where
  "insert_material i now n m =
     (if i \<in> mz_id ` set (mt_materials m) \<or> nmz_artifact_id n \<notin> ma_id ` set (mt_artifacts m)
         \<or> (nmz_scope n, nmz_scope_id n, nmz_target_path n) \<in> mz_target ` set (mt_materials m)
      then Inl constraint
      else let m' = m\<lparr>mt_materials := mt_materials m @ [material_row i now n]\<rparr>
           in tx_bind (found ''skill governance materialization'' i (get_skill_governance_materialization i m'))
                (\<lambda>z. Inr (z, m')))"

definition existing_material :: "new_materialization \<Rightarrow> materials \<Rightarrow> store_error + materialization option" where
  "existing_material n m =
     tx_bind (artifact_known (nmz_artifact_id n) m)
       (\<lambda>_. case get_skill_governance_materialization_for_target (nmz_scope n) (nmz_scope_id n) (nmz_target_path n) m of
               None \<Rightarrow> Inr None
             | Some e \<Rightarrow>
                 if mz_artifact_id e \<noteq> nmz_artifact_id n
                    \<or> mz_target_runtime e \<noteq> nmz_target_runtime n
                    \<or> mz_root_kind e \<noteq> nmz_root_kind n
                    \<or> mz_installation_mode e \<noteq> nmz_installation_mode n
                    \<or> mz_content_digest e \<noteq> nmz_content_digest n
                    \<or> mz_expected_destination e \<noteq> nmz_expected_destination n
                    \<or> mz_expected_fingerprint e \<noteq> nmz_expected_fingerprint n
                    \<or> mz_verify_status e \<noteq> nmz_verify_status n
                    \<or> mz_ownership e \<noteq> nmz_ownership n
                    \<or> mz_receipt e \<noteq> nmz_receipt n
                 then Inl (SkillGovernanceIdempotencyConflict ''skill governance materialization'' (mz_id e))
                 else Inr (Some e))"

definition create_skill_governance_materialization :: "uuid \<Rightarrow> timestamp \<Rightarrow> new_materialization \<Rightarrow> materials \<Rightarrow> materialization mtx" where
  "create_skill_governance_materialization i now n m =
     tx_bind (existing_material n m)
       (\<lambda>e. case e of Some z \<Rightarrow> Inr (z, m) | None \<Rightarrow> insert_material i now n m)"

definition ownership_change_ok :: "ownership \<Rightarrow> ownership \<Rightarrow> bool" where
  "ownership_change_ok a b \<longleftrightarrow> a = b \<or> (a, b) = (Managed, Adopted) \<or> (a, b) = (Adopted, Managed)"

text \<open>
  What \<open>upsert\<close> does with the row it found: report a conflict (\<open>Inl\<close>), return it unchanged, or replace
  it with a compare-and-swap on its version.
\<close>

datatype upsert_plan = Keep materialization | Replace materialization | Create

definition upsert_check :: "new_materialization \<Rightarrow> int option \<Rightarrow> materials \<Rightarrow> store_error + upsert_plan" where
  "upsert_check n expected m =
     tx_bind (artifact_known (nmz_artifact_id n) m)
       (\<lambda>_. case get_skill_governance_materialization_for_target (nmz_scope n) (nmz_scope_id n) (nmz_target_path n) m of
               None \<Rightarrow> (case expected of
                          Some v \<Rightarrow> Inl (SkillGovernanceVersionConflict ''skill governance materialization'' 0 0 v)
                        | None \<Rightarrow> Inr Create)
             | Some c \<Rightarrow> (case expected of
                            Some v \<Rightarrow>
                              if mz_version c \<noteq> v
                              then Inl (SkillGovernanceVersionConflict ''skill governance materialization'' (mz_id c) (mz_version c) v)
                              else if \<not> ownership_change_ok (mz_ownership c) (nmz_ownership n)
                              then Inl (SkillGovernanceDeleteConflict ''skill governance materialization'' (mz_id c) ''ownership'')
                              else Inr (Replace c)
                          | None \<Rightarrow>
                              if \<not> materialization_matches_input c n
                              then Inl (SkillGovernanceVersionConflict ''skill governance materialization'' (mz_id c) (mz_version c) 0)
                              else Inr (Keep c)))"

definition replaced :: "timestamp \<Rightarrow> materialization \<Rightarrow> new_materialization \<Rightarrow> materialization \<Rightarrow> materialization" where
  "replaced now c n z =
     z\<lparr>mz_artifact_id := nmz_artifact_id n,
       mz_target_runtime := nmz_target_runtime n,
       mz_root_kind := nmz_root_kind n,
       mz_installation_mode := nmz_installation_mode n,
       mz_ownership := nmz_ownership n,
       mz_content_digest := nmz_content_digest n,
       mz_expected_destination := nmz_expected_destination n,
       mz_expected_fingerprint := nmz_expected_fingerprint n,
       mz_verify_status := nmz_verify_status n,
       mz_receipt := nmz_receipt n,
       mz_adopted_at := (if nmz_ownership n = Adopted
                         then (case mz_adopted_at c of Some t \<Rightarrow> Some t | None \<Rightarrow> Some now) else None),
       mz_version := mz_version z + 1, mz_updated_at := now\<rparr>"

definition same_version :: "materialization \<Rightarrow> materialization \<Rightarrow> bool" where
  "same_version c z \<longleftrightarrow> mz_id z = mz_id c \<and> mz_version z = mz_version c"

definition upsert_write :: "timestamp \<Rightarrow> materialization \<Rightarrow> new_materialization \<Rightarrow> materials \<Rightarrow> materialization mtx" where
  "upsert_write now c n m =
     (if affected (same_version c) (mt_materials m) = 0
      then Inl (SkillGovernanceVersionConflict ''skill governance materialization'' (mz_id c) (mz_version c) (mz_version c))
      else if nmz_artifact_id n \<notin> ma_id ` set (mt_artifacts m) then Inl constraint
      else let m' = m\<lparr>mt_materials := update_rows (same_version c) (replaced now c n) (mt_materials m)\<rparr>
           in tx_bind (found ''skill governance materialization'' (mz_id c) (get_skill_governance_materialization (mz_id c) m'))
                (\<lambda>z. Inr (z, m')))"

definition upsert_skill_governance_materialization :: "uuid \<Rightarrow> timestamp \<Rightarrow> new_materialization \<Rightarrow> int option \<Rightarrow> materials \<Rightarrow> materialization mtx" where
  "upsert_skill_governance_materialization i now n expected m =
     tx_bind (upsert_check n expected m)
       (\<lambda>p. case p of
               Keep c \<Rightarrow> Inr (c, m)
             | Create \<Rightarrow> create_skill_governance_materialization i now n m
             | Replace c \<Rightarrow> upsert_write now c n m)"

definition material_at :: "uuid \<Rightarrow> int \<Rightarrow> materials \<Rightarrow> store_error + materialization" where
  "material_at i expected m =
     tx_bind (found ''skill governance materialization'' i (get_skill_governance_materialization i m))
       (\<lambda>c. if mz_version c \<noteq> expected
             then Inl (SkillGovernanceVersionConflict ''skill governance materialization'' i (mz_version c) expected)
             else Inr c)"

definition not_ours :: "ownership \<Rightarrow> bool" where
  "not_ours w \<longleftrightarrow> w = Foreign \<or> w = Unmanaged"

definition delete_material_check :: "uuid \<Rightarrow> int \<Rightarrow> string option \<Rightarrow> materials \<Rightarrow> store_error + materialization" where
  "delete_material_check i expected observed m =
     tx_bind (material_at i expected m)
       (\<lambda>c. if not_ours (mz_ownership c)
             then Inl (SkillGovernanceDeleteConflict ''skill governance materialization'' i ''ownership'')
             else if (case observed of Some fp \<Rightarrow> fp \<noteq> mz_expected_fingerprint c | None \<Rightarrow> False)
             then Inl (SkillGovernanceDeleteConflict ''skill governance materialization'' i ''fingerprint'')
             else if has_skill_governance_gc_reference ''materialization'' i m
             then Inl (SkillGovernanceDeleteConflict ''skill governance materialization'' i ''referenced'')
             else Inr c)"

definition delete_material_write :: "materialization \<Rightarrow> materials \<Rightarrow> bool \<times> materials" where
  "delete_material_write c m = (affected (same_version c) (mt_materials m) > 0, remove_materials (same_version c) m)"

definition delete_skill_governance_materialization_if_safe :: "uuid \<Rightarrow> int \<Rightarrow> string option \<Rightarrow> materials \<Rightarrow> bool mtx" where
  "delete_skill_governance_materialization_if_safe i expected observed m =
     tx_bind (delete_material_check i expected observed m) (\<lambda>c. Inr (delete_material_write c m))"

definition adopt_write :: "uuid \<Rightarrow> timestamp \<Rightarrow> json \<Rightarrow> materialization \<Rightarrow> materials \<Rightarrow> materialization mtx" where
  "adopt_write aid now receipt c m =
     (if affected (same_version c) (mt_materials m) = 0
      then Inl (SkillGovernanceVersionConflict ''skill governance materialization'' (mz_id c) (mz_version c) (mz_version c))
      else if aid \<in> ad_id ` set (mt_adoptions m) then Inl constraint
      else let m' = m\<lparr>mt_materials := update_rows (same_version c)
                        (\<lambda>z. z\<lparr>mz_ownership := Adopted, mz_receipt := receipt, mz_adopted_at := Some now,
                               mz_version := mz_version c + 1, mz_updated_at := now\<rparr>) (mt_materials m),
                      mt_adoptions := mt_adoptions m @
                        [\<lparr>ad_id = aid, ad_materialization_id = mz_id c, ad_action = ''adopt'',
                          ad_from_ownership = mz_ownership c, ad_to_ownership = Adopted,
                          ad_from_version = mz_version c, ad_to_version = mz_version c + 1,
                          ad_receipt = receipt, ad_created_at = now\<rparr>]\<rparr>
           in tx_bind (found ''skill governance materialization'' (mz_id c) (get_skill_governance_materialization (mz_id c) m'))
                (\<lambda>z. Inr (z, m')))"

definition adopt_skill_governance_materialization :: "uuid \<Rightarrow> timestamp \<Rightarrow> uuid \<Rightarrow> int \<Rightarrow> json \<Rightarrow> materials \<Rightarrow> materialization mtx" where
  "adopt_skill_governance_materialization aid now i expected receipt m =
     tx_bind (material_at i expected m) (\<lambda>c. adopt_write aid now receipt c m)"

definition list_skill_governance_adoption_audit :: "uuid \<Rightarrow> materials \<Rightarrow> adoption_audit list" where
  "list_skill_governance_adoption_audit i m =
     sort_key (\<lambda>a. (ad_created_at a, ad_id a)) (filter (\<lambda>a. ad_materialization_id a = i) (mt_adoptions m))"

section \<open>Workspace lockfiles\<close>

definition wl_key :: "workspace_lockfile \<Rightarrow> string \<times> string" where
  "wl_key l = (wl_workspace_id l, wl_lockfile_path l)"

definition get_skill_governance_workspace_lockfile :: "string \<Rightarrow> string \<Rightarrow> materials \<Rightarrow> workspace_lockfile option" where
  "get_skill_governance_workspace_lockfile w path m = find (\<lambda>l. wl_key l = (w, path)) (mt_lockfiles m)"

datatype lockfile_plan = KeepLock workspace_lockfile | UpdateLock workspace_lockfile | InsertLock

definition lockfile_check :: "string \<Rightarrow> string \<Rightarrow> int option \<Rightarrow> materials \<Rightarrow> store_error + lockfile_plan" where
  "lockfile_check w path expected m =
     (case (get_skill_governance_workspace_lockfile w path m, expected) of
        (Some c, Some v) \<Rightarrow>
          if wl_version c = v then Inr (UpdateLock c)
          else Inl (SkillGovernanceVersionConflict ''skill governance workspace lockfile'' (wl_id c) (wl_version c) v)
      | (Some c, None) \<Rightarrow> Inr (KeepLock c)
      | (None, Some v) \<Rightarrow> Inl (SkillGovernanceVersionConflict ''skill governance workspace lockfile'' 0 0 v)
      | (None, None) \<Rightarrow> Inr InsertLock)"

definition read_lockfile :: "string \<Rightarrow> string \<Rightarrow> materials \<Rightarrow> workspace_lockfile mtx" where
  "read_lockfile w path m =
     tx_bind (found ''skill governance workspace lockfile'' 0 (get_skill_governance_workspace_lockfile w path m)) (\<lambda>l. Inr (l, m))"

definition insert_lockfile :: "uuid \<Rightarrow> timestamp \<Rightarrow> string \<Rightarrow> string \<Rightarrow> lockfile_content \<Rightarrow> materials \<Rightarrow> store_error + materials" where
  "insert_lockfile i now w path content m =
     (if i \<in> wl_id ` set (mt_lockfiles m) \<or> (w, path) \<in> wl_key ` set (mt_lockfiles m) then Inl constraint
      else Inr (m\<lparr>mt_lockfiles := mt_lockfiles m @
             [\<lparr>wl_id = i, wl_workspace_id = w, wl_lockfile_path = path, wl_content = content, wl_version = 1,
               wl_created_at = now, wl_updated_at = now\<rparr>]\<rparr>))"

text \<open>The number of rows the update touched is not looked at.\<close>

definition update_lockfile :: "timestamp \<Rightarrow> workspace_lockfile \<Rightarrow> lockfile_content \<Rightarrow> materials \<Rightarrow> materials" where
  "update_lockfile now c content m =
     m\<lparr>mt_lockfiles := update_rows (\<lambda>l. wl_id l = wl_id c \<and> wl_version l = wl_version c)
        (\<lambda>l. l\<lparr>wl_content := content, wl_version := wl_version l + 1, wl_updated_at := now\<rparr>) (mt_lockfiles m)\<rparr>"

definition lockfile_write :: "uuid \<Rightarrow> timestamp \<Rightarrow> string \<Rightarrow> string \<Rightarrow> lockfile_content \<Rightarrow> lockfile_plan \<Rightarrow> materials \<Rightarrow> workspace_lockfile mtx" where
  "lockfile_write i now w path content p m =
     (case p of
        KeepLock c \<Rightarrow> Inr (c, m)
      | UpdateLock c \<Rightarrow> read_lockfile w path (update_lockfile now c content m)
      | InsertLock \<Rightarrow> tx_bind (insert_lockfile i now w path content m) (read_lockfile w path))"

definition upsert_skill_governance_workspace_lockfile ::
  "uuid \<Rightarrow> timestamp \<Rightarrow> string \<Rightarrow> string \<Rightarrow> lockfile_content \<Rightarrow> int option \<Rightarrow> materials \<Rightarrow> workspace_lockfile mtx" where
  "upsert_skill_governance_workspace_lockfile i now w path content expected m =
     tx_bind (lockfile_check w path expected m) (\<lambda>p. lockfile_write i now w path content p m)"

definition delete_lockfile_check :: "string \<Rightarrow> string \<Rightarrow> int \<Rightarrow> materials \<Rightarrow> store_error + workspace_lockfile" where
  "delete_lockfile_check w path expected m =
     tx_bind (found ''skill governance workspace lockfile'' 0 (get_skill_governance_workspace_lockfile w path m))
       (\<lambda>c. if wl_version c \<noteq> expected
             then Inl (SkillGovernanceVersionConflict ''skill governance workspace lockfile'' (wl_id c) (wl_version c) expected)
             else Inr c)"

definition delete_lockfile_write :: "workspace_lockfile \<Rightarrow> materials \<Rightarrow> bool \<times> materials" where
  "delete_lockfile_write c m =
     (let p = (\<lambda>l. wl_id l = wl_id c \<and> wl_version l = wl_version c)
      in (affected p (mt_lockfiles m) > 0, m\<lparr>mt_lockfiles := filter (\<lambda>l. \<not> p l) (mt_lockfiles m)\<rparr>))"

definition delete_skill_governance_workspace_lockfile :: "string \<Rightarrow> string \<Rightarrow> int \<Rightarrow> materials \<Rightarrow> bool mtx" where
  "delete_skill_governance_workspace_lockfile w path expected m =
     tx_bind (delete_lockfile_check w path expected m) (\<lambda>c. Inr (delete_lockfile_write c m))"

section \<open>Garbage collection\<close>

definition gr_key :: "gc_reference \<Rightarrow> string \<times> uuid \<times> string \<times> uuid \<times> string" where
  "gr_key r = (gr_source_type r, gr_source_id r, gr_target_type r, gr_target_id r, gr_reference_kind r)"

definition get_skill_governance_gc_reference ::
  "string \<Rightarrow> uuid \<Rightarrow> string \<Rightarrow> uuid \<Rightarrow> string \<Rightarrow> materials \<Rightarrow> gc_reference option" where
  "get_skill_governance_gc_reference st si tt ti kind m = find (\<lambda>r. gr_key r = (st, si, tt, ti, kind)) (mt_refs m)"

definition insert_gc_reference :: "uuid \<Rightarrow> timestamp \<Rightarrow> new_gc_reference \<Rightarrow> materials \<Rightarrow> gc_reference mtx" where
  "insert_gc_reference i now n m =
     (let r = \<lparr>gr_id = i, gr_source_type = ngr_source_type n, gr_source_id = ngr_source_id n, gr_target_type = ngr_target_type n, gr_target_id = ngr_target_id n, gr_reference_kind = ngr_reference_kind n, gr_metadata = ngr_metadata n, gr_created_at = now\<rparr>
      in if i \<in> gr_id ` set (mt_refs m) \<or> gr_key r \<in> gr_key ` set (mt_refs m)
            \<or> ngr_target_type n \<notin> {''managed_artifact'', ''materialization''}
         then Inl constraint
         else let m' = m\<lparr>mt_refs := mt_refs m @ [r]\<rparr>
              in tx_bind (found ''skill governance gc reference'' i
                   (get_skill_governance_gc_reference (ngr_source_type n) (ngr_source_id n) (ngr_target_type n) (ngr_target_id n) (ngr_reference_kind n) m'))
                   (\<lambda>r. Inr (r, m')))"

definition create_skill_governance_gc_reference :: "uuid \<Rightarrow> timestamp \<Rightarrow> new_gc_reference \<Rightarrow> materials \<Rightarrow> gc_reference mtx" where
  "create_skill_governance_gc_reference i now n m =
     (case get_skill_governance_gc_reference (ngr_source_type n) (ngr_source_id n) (ngr_target_type n) (ngr_target_id n) (ngr_reference_kind n) m of
        Some e \<Rightarrow> if gr_metadata e \<noteq> ngr_metadata n
                  then Inl (SkillGovernanceIdempotencyConflict ''skill governance gc reference'' (gr_id e))
                  else Inr (e, m)
      | None \<Rightarrow> insert_gc_reference i now n m)"

definition unreferenced_artifacts :: "materials \<Rightarrow> managed_artifact list" where
  "unreferenced_artifacts m =
     sort_key (\<lambda>a. (ma_artifact_key a, ma_id a))
       (filter (\<lambda>a. \<not> has_skill_governance_gc_reference ''managed_artifact'' (ma_id a) m
                  \<and> (\<forall>z \<in> set (mt_materials m). mz_artifact_id z \<noteq> ma_id a)) (mt_artifacts m))"

definition unreferenced_materials :: "materials \<Rightarrow> materialization list" where
  "unreferenced_materials m =
     sort_key (\<lambda>z. (gov_scope_as_str (mz_scope z), mz_scope_id z, mz_target_path z, mz_id z))
       (filter (\<lambda>z. \<not> has_skill_governance_gc_reference ''materialization'' (mz_id z) m \<and> \<not> not_ours (mz_ownership z)) (mt_materials m))"

definition preview_skill_governance_gc :: "materials \<Rightarrow> gc_candidate list" where
  "preview_skill_governance_gc m =
     map (\<lambda>a. \<lparr>gc_entity_type = ''managed_artifact'', gc_entity_id = ma_id a, gc_reason = ''unreferenced''\<rparr>) (unreferenced_artifacts m)
     @ map (\<lambda>z. \<lparr>gc_entity_type = ''materialization'', gc_entity_id = mz_id z, gc_reason = ''unreferenced''\<rparr>) (unreferenced_materials m)"

end
