(* ===== verification/MaterialSystem.thy ===== *)
theory MaterialSystem
  imports GovMaterial
begin

text \<open>
  Artifacts and materializations as a system of interleaved writers. A configuration is the tables
  and the set \<open>H\<close> of every materialization row written so far. A method that reads, checks and then
  writes is split between its check and its write: the check (the method's own, with all its guards)
  ran on tables \<open>m0\<close> whose materializations are rows of \<open>H\<close>, so each of its reads may have been at any
  earlier time, and the write runs on the tables of now. A fresh identifier is one that no earlier row
  had (\<open>Uuid::new_v4\<close>).
\<close>

section \<open>Steps\<close>

definition seen :: "materialization set \<Rightarrow> materials \<Rightarrow> bool" where
  "seen H m0 \<longleftrightarrow> set (mt_materials m0) \<subseteq> H"

inductive mt_step :: "materials \<times> materialization set \<Rightarrow> materials \<times> materialization set \<Rightarrow> bool" where
  ms_artifact: "insert_artifact i now n m = Inr (a, m') \<Longrightarrow> mt_step (m, H) (m', H)"
| ms_delete_artifact: "delete_artifact_write i v m = (b, m') \<Longrightarrow> mt_step (m, H) (m', H)"
| ms_material: "i \<notin> mz_id ` H \<Longrightarrow> insert_material i now n m = Inr (z, m') \<Longrightarrow> mt_step (m, H) (m', insert z H)"
| ms_replace: "seen H m0 \<Longrightarrow> upsert_check n expected m0 = Inr (Replace c) \<Longrightarrow> upsert_write now c n m = Inr (z, m') \<Longrightarrow> mt_step (m, H) (m', insert z H)"
| ms_delete: "seen H m0 \<Longrightarrow> delete_material_check i expected observed m0 = Inr c \<Longrightarrow> delete_material_write c m = (b, m') \<Longrightarrow> mt_step (m, H) (m', H)"
| ms_adopt: "seen H m0 \<Longrightarrow> material_at i expected m0 = Inr c \<Longrightarrow> adopt_write aid now receipt c m = Inr (z, m') \<Longrightarrow> mt_step (m, H) (m', insert z H)"
| ms_insert_lockfile: "insert_lockfile i now w path content m = Inr m' \<Longrightarrow> mt_step (m, H) (m', H)"
| ms_update_lockfile: "update_lockfile now l content m = m' \<Longrightarrow> mt_step (m, H) (m', H)"
| ms_delete_lockfile: "delete_lockfile_write l m = (b, m') \<Longrightarrow> mt_step (m, H) (m', H)"
| ms_reference: "insert_gc_reference i now r m = Inr (r', m') \<Longrightarrow> mt_step (m, H) (m', H)"

definition mt_empty :: materials where
  "mt_empty = \<lparr>mt_artifacts = [], mt_materials = [], mt_adoptions = [], mt_lockfiles = [], mt_refs = []\<rparr>"

definition mt_start :: "materials \<times> materialization set \<Rightarrow> bool" where
  "mt_start s \<longleftrightarrow> s = (mt_empty, {})"

section \<open>Invariant\<close>

definition arts_ok :: "materials \<Rightarrow> bool" where
  "arts_ok m \<longleftrightarrow> distinct (map ma_id (mt_artifacts m)) \<and> distinct (map ma_artifact_key (mt_artifacts m))
     \<and> (\<forall>a \<in> set (mt_artifacts m). ma_version a = 1 \<and> 0 < ma_schema_version a)"

definition mats_ok :: "uuid set \<Rightarrow> materialization list \<Rightarrow> bool" where
  "mats_ok arts zs \<longleftrightarrow> distinct (map mz_id zs) \<and> distinct (map mz_target zs)
     \<and> (\<forall>z \<in> set zs. mz_artifact_id z \<in> arts \<and> 1 \<le> mz_version z \<and> (mz_adopted_at z = None \<longleftrightarrow> mz_ownership z \<noteq> Adopted))"

definition hist_ok :: "materialization set \<Rightarrow> materialization list \<Rightarrow> bool" where
  "hist_ok H zs \<longleftrightarrow> set zs \<subseteq> H \<and> (\<forall>c \<in> H. \<forall>z \<in> set zs. mz_id c = mz_id z \<longrightarrow> c = z \<or> mz_version c < mz_version z)"

definition adoption_ok :: "materialization set \<Rightarrow> materialization list \<Rightarrow> adoption_audit \<Rightarrow> bool" where
  "adoption_ok H zs a \<longleftrightarrow> ad_to_ownership a = Adopted \<and> ad_to_version a = ad_from_version a + 1
     \<and> (\<exists>c \<in> H. mz_id c = ad_materialization_id a \<and> mz_version c = ad_from_version a \<and> mz_ownership c = ad_from_ownership a)
     \<and> (\<exists>d \<in> H. mz_id d = ad_materialization_id a \<and> mz_version d = ad_to_version a \<and> mz_ownership d = Adopted \<and> mz_receipt d = ad_receipt a)
     \<and> (\<exists>z \<in> set zs. mz_id z = ad_materialization_id a \<and> ad_to_version a \<le> mz_version z)"

definition adoptions_ok :: "materialization set \<Rightarrow> materialization list \<Rightarrow> adoption_audit list \<Rightarrow> bool" where
  "adoptions_ok H zs as \<longleftrightarrow> distinct (map ad_id as) \<and> distinct (map (\<lambda>a. (ad_materialization_id a, ad_to_version a)) as)
     \<and> (\<forall>a \<in> set as. adoption_ok H zs a)"

definition locks_refs_ok :: "materials \<Rightarrow> bool" where
  "locks_refs_ok m \<longleftrightarrow> distinct (map wl_id (mt_lockfiles m)) \<and> distinct (map wl_key (mt_lockfiles m))
     \<and> (\<forall>l \<in> set (mt_lockfiles m). 1 \<le> wl_version l)
     \<and> distinct (map gr_id (mt_refs m)) \<and> distinct (map gr_key (mt_refs m))
     \<and> (\<forall>r \<in> set (mt_refs m). gr_target_type r = ''managed_artifact'' \<or> gr_target_type r = ''materialization'')"

definition mat_ok :: "materials \<times> materialization set \<Rightarrow> bool" where
  "mat_ok s \<longleftrightarrow> (case s of (m, H) \<Rightarrow> arts_ok m \<and> mats_ok (ma_id ` set (mt_artifacts m)) (mt_materials m)
     \<and> hist_ok H (mt_materials m) \<and> adoptions_ok H (mt_materials m) (mt_adoptions m) \<and> locks_refs_ok m)"

lemma mat_okD:
  assumes "mat_ok (m, H)"
  shows "arts_ok m" "mats_ok (ma_id ` set (mt_artifacts m)) (mt_materials m)" "hist_ok H (mt_materials m)"
    "adoptions_ok H (mt_materials m) (mt_adoptions m)" "locks_refs_ok m"
  using assms by (simp_all add: mat_ok_def)

text \<open>What a method knows of the row after its check\<close>

lemma found_Inr: "found e i r = Inr x \<longleftrightarrow> r = Some x"
  by (simp add: found_def split: option.split)

lemma material_at_row: "material_at i expected m0 = Inr c \<Longrightarrow> c \<in> set (mt_materials m0)"
  by (auto simp: material_at_def tx_bind_Inr_iff found_Inr get_skill_governance_materialization_def dest: find_Some_set split: if_splits)

lemma upsert_check_row:
  assumes "upsert_check n expected m0 = Inr (Replace c)"
  shows "c \<in> set (mt_materials m0)" "mz_target c = (nmz_scope n, nmz_scope_id n, nmz_target_path n)"
    "ownership_change_ok (mz_ownership c) (nmz_ownership n)"
  using assms unfolding upsert_check_def get_skill_governance_materialization_for_target_def
  by (auto simp: tx_bind_Inr_iff dest: find_Some_set split: option.splits if_splits)

lemma delete_check_row:
  assumes "delete_material_check i expected observed m0 = Inr c"
  shows "c \<in> set (mt_materials m0)" "\<not> not_ours (mz_ownership c)"
  using assms material_at_row [of i expected m0] unfolding delete_material_check_def
  by (auto simp: tx_bind_Inr_iff split: if_splits)

lemmas checked = upsert_check_row delete_check_row material_at_row

lemma seenD: "seen H m0 \<Longrightarrow> c \<in> set (mt_materials m0) \<Longrightarrow> c \<in> H"
  by (auto simp: seen_def)

lemma mats_ids: "mats_ok A zs \<Longrightarrow> distinct (map mz_id zs)"
  by (simp add: mats_ok_def)

section \<open>What a write does\<close>

lemma same_version_live:
  assumes "hist_ok H zs" "c \<in> H" "z \<in> set zs"
  shows "same_version c z \<longleftrightarrow> z = c"
  using assms unfolding hist_ok_def same_version_def by force

lemma affected_live:
  assumes "hist_ok H zs" "c \<in> H"
  shows "affected (same_version c) zs = 0 \<longleftrightarrow> c \<notin> set zs"
  using same_version_live [OF assms] by (auto simp: affected_zero)

lemma replaced_live:
  assumes "hist_ok H zs" "distinct (map mz_id zs)" "c \<in> set zs" "mz_id (f c) = mz_id c"
  shows "set (update_rows (same_version c) f zs) = insert (f c) (set zs - {c})"
    "find (\<lambda>z. mz_id z = mz_id c) (update_rows (same_version c) f zs) = Some (f c)"
proof -
  have H: "c \<in> H" using assms(1,3) by (auto simp: hist_ok_def)
  have sv: "\<forall>z \<in> set zs. same_version c z \<longleftrightarrow> z = c" using same_version_live [OF assms(1) H] by blast
  then show "set (update_rows (same_version c) f zs) = insert (f c) (set zs - {c})"
    using assms(3) by (auto simp: set_update_rows)
  have "map mz_id (update_rows (same_version c) f zs) = map mz_id zs"
    using sv assms(4) by (auto simp: update_rows_def)
  with assms(2,3,4) sv show "find (\<lambda>z. mz_id z = mz_id c) (update_rows (same_version c) f zs) = Some (f c)"
    by (intro find_key) (auto simp: set_update_rows)
qed

lemma map_update_live:
  assumes "hist_ok H zs" "c \<in> set zs" "k (f c) = k c"
  shows "map k (update_rows (same_version c) f zs) = map k zs"
proof -
  have "c \<in> H" using assms(1,2) by (auto simp: hist_ok_def)
  with same_version_live [OF assms(1)] assms(3) show ?thesis by (auto simp: update_rows_def)
qed

lemma upsert_writeE:
  assumes "upsert_write now c n m = Inr (z, m')" "mat_ok (m, H)" "c \<in> H"
  obtains "c \<in> set (mt_materials m)" "nmz_artifact_id n \<in> ma_id ` set (mt_artifacts m)" "z = replaced now c n c"
    "m' = m\<lparr>mt_materials := update_rows (same_version c) (replaced now c n) (mt_materials m)\<rparr>"
proof -
  note ok = mat_okD [OF assms(2)]
  have c: "c \<in> set (mt_materials m)" and a: "nmz_artifact_id n \<in> ma_id ` set (mt_artifacts m)"
    using assms(1) affected_live [OF ok(3) assms(3)] by (auto simp: upsert_write_def split: if_splits)
  have f: "find (\<lambda>z. mz_id z = mz_id c) (update_rows (same_version c) (replaced now c n) (mt_materials m)) = Some (replaced now c n c)"
    by (rule replaced_live(2) [OF ok(3) mats_ids [OF ok(2)] c]) (simp add: replaced_def)
  show ?thesis
    using that assms(1) affected_live [OF ok(3) assms(3)] c a f
    by (simp add: upsert_write_def found_def get_skill_governance_materialization_def)
qed

definition adopted :: "timestamp \<Rightarrow> json \<Rightarrow> materialization \<Rightarrow> materialization" where
  "adopted now receipt c = c\<lparr>mz_ownership := Adopted, mz_receipt := receipt, mz_adopted_at := Some now,
     mz_version := mz_version c + 1, mz_updated_at := now\<rparr>"

definition adoption_row :: "uuid \<Rightarrow> timestamp \<Rightarrow> json \<Rightarrow> materialization \<Rightarrow> adoption_audit" where
  "adoption_row aid now receipt c = \<lparr>ad_id = aid, ad_materialization_id = mz_id c, ad_action = ''adopt'',
     ad_from_ownership = mz_ownership c, ad_to_ownership = Adopted, ad_from_version = mz_version c,
     ad_to_version = mz_version c + 1, ad_receipt = receipt, ad_created_at = now\<rparr>"

lemma adopt_writeE:
  assumes "adopt_write aid now receipt c m = Inr (z, m')" "mat_ok (m, H)" "c \<in> H"
  obtains "c \<in> set (mt_materials m)" "aid \<notin> ad_id ` set (mt_adoptions m)" "z = adopted now receipt c"
    "m' = m\<lparr>mt_materials := update_rows (same_version c) (adopted now receipt) (mt_materials m),
            mt_adoptions := mt_adoptions m @ [adoption_row aid now receipt c]\<rparr>"
proof -
  note ok = mat_okD [OF assms(2)]
  let ?f = "\<lambda>z. z\<lparr>mz_ownership := Adopted, mz_receipt := receipt, mz_adopted_at := Some now,
               mz_version := mz_version c + 1, mz_updated_at := now\<rparr>"
  have c: "c \<in> set (mt_materials m)" and a: "aid \<notin> ad_id ` set (mt_adoptions m)"
    using assms(1) affected_live [OF ok(3) assms(3)] by (auto simp: adopt_write_def split: if_splits)
  have u: "update_rows (same_version c) ?f (mt_materials m) = update_rows (same_version c) (adopted now receipt) (mt_materials m)"
    by (simp add: update_rows_def adopted_def same_version_def)
  have f: "find (\<lambda>z. mz_id z = mz_id c) (update_rows (same_version c) (adopted now receipt) (mt_materials m)) = Some (adopted now receipt c)"
    by (rule replaced_live(2) [OF ok(3) mats_ids [OF ok(2)] c]) (simp add: adopted_def)
  show ?thesis
    using that assms(1) affected_live [OF ok(3) assms(3)] c a f
    by (simp add: adopt_write_def found_def get_skill_governance_materialization_def u adoption_row_def)
qed

section \<open>Preservation\<close>

lemma adopted_simps [simp]:
  "mz_id (adopted now receipt c) = mz_id c" "mz_target (adopted now receipt c) = mz_target c"
  "mz_version (adopted now receipt c) = mz_version c + 1" "mz_artifact_id (adopted now receipt c) = mz_artifact_id c"
  "mz_ownership (adopted now receipt c) = Adopted" "mz_adopted_at (adopted now receipt c) = Some now"
  "mz_receipt (adopted now receipt c) = receipt"
  by (simp_all add: adopted_def mz_target_def)

lemma replaced_simps [simp]:
  "mz_id (replaced now c n z) = mz_id z" "mz_target (replaced now c n z) = mz_target z"
  "mz_version (replaced now c n z) = mz_version z + 1" "mz_artifact_id (replaced now c n z) = nmz_artifact_id n"
  "mz_ownership (replaced now c n z) = nmz_ownership n"
  "mz_adopted_at (replaced now c n z) = None \<longleftrightarrow> nmz_ownership n \<noteq> Adopted"
  by (simp_all add: replaced_def mz_target_def split: option.split)

lemma adoption_ok_mono:
  assumes "adoption_ok H zs a" "H \<subseteq> H'"
    "\<forall>z \<in> set zs. mz_id z = ad_materialization_id a \<longrightarrow> (\<exists>z' \<in> set zs'. mz_id z' = mz_id z \<and> mz_version z \<le> mz_version z')"
  shows "adoption_ok H' zs' a"
proof -
  obtain z where z: "z \<in> set zs" "mz_id z = ad_materialization_id a" "ad_to_version a \<le> mz_version z"
    using assms(1) unfolding adoption_ok_def by blast
  then obtain z' where "z' \<in> set zs'" "mz_id z' = mz_id z" "mz_version z \<le> mz_version z'" using assms(3) by blast
  with z have "\<exists>z \<in> set zs'. mz_id z = ad_materialization_id a \<and> ad_to_version a \<le> mz_version z" by force
  with assms(1,2) show ?thesis unfolding adoption_ok_def by blast
qed

lemma mat_ok_replace:
  assumes ok: "mat_ok (m, H)" and c: "c \<in> set (mt_materials m)"
    and d: "mz_id d = mz_id c" "mz_target d = mz_target c" "mz_version d = mz_version c + 1"
      "mz_artifact_id d \<in> ma_id ` set (mt_artifacts m)" "mz_adopted_at d = None \<longleftrightarrow> mz_ownership d \<noteq> Adopted"
    and f: "f c = d"
  defines "zs \<equiv> update_rows (same_version c) f (mt_materials m)"
  shows "mats_ok (ma_id ` set (mt_artifacts m)) zs" "hist_ok (insert d H) zs"
    "adoptions_ok (insert d H) zs (mt_adoptions m)"
proof -
  note ok' = mat_okD [OF ok]
  have set: "set zs = insert d (set (mt_materials m) - {c})"
    using replaced_live(1) [OF ok'(3) mats_ids [OF ok'(2)] c, of f] d(1) f unfolding zs_def by simp
  have maps: "map mz_id zs = map mz_id (mt_materials m)" "map mz_target zs = map mz_target (mt_materials m)"
    unfolding zs_def using d(1,2) f by (simp_all add: map_update_live [OF ok'(3) c])
  have v: "1 \<le> mz_version d" using ok'(2) c d(3) by (auto simp: mats_ok_def)
  show "mats_ok (ma_id ` set (mt_artifacts m)) zs"
    using ok'(2) d(4,5) v unfolding mats_ok_def set maps by auto
  have other: "mz_id z \<noteq> mz_id c" if "z \<in> set (mt_materials m) - {c}" for z
    using key_iff [OF mats_ids [OF ok'(2)] c] that by auto
  have below: "c' = d \<or> mz_version c' < mz_version d" if "c' \<in> insert d H" "mz_id c' = mz_id d" for c'
    using that ok'(3) c d(1,3) unfolding hist_ok_def by force
  show "hist_ok (insert d H) zs"
    unfolding hist_ok_def set
  proof (intro conjI ballI impI)
    show "insert d (set (mt_materials m) - {c}) \<subseteq> insert d H" using ok'(3) by (auto simp: hist_ok_def)
    fix c' z assume c': "c' \<in> insert d H" "mz_id c' = mz_id z" and z: "z \<in> insert d (set (mt_materials m) - {c})"
    show "c' = z \<or> mz_version c' < mz_version z"
    proof (cases "z = d")
      case False
      then have z': "z \<in> set (mt_materials m) - {c}" using z by simp
      then have "c' \<in> H" using other [OF z'] c' d(1) by auto
      then show ?thesis using ok'(3) c'(2) z' by (simp add: hist_ok_def)
    qed (use below c' in simp)
  qed
  have grow: "\<exists>z' \<in> set zs. mz_id z' = mz_id z \<and> mz_version z \<le> mz_version z'" if "z \<in> set (mt_materials m)" for z
  proof (cases "z = c")
    case True
    then show ?thesis using d(1,3) unfolding set by auto
  next
    case False
    then show ?thesis using that unfolding set by auto
  qed
  show "adoptions_ok (insert d H) zs (mt_adoptions m)"
    using ok'(4) grow adoption_ok_mono [of H "mt_materials m" _ "insert d H" zs] unfolding adoptions_ok_def by blast
qed

lemma mat_ok_upsert:
  assumes "upsert_write now c n m = Inr (z, m')" "mat_ok (m, H)" "c \<in> H"
    "mz_target c = (nmz_scope n, nmz_scope_id n, nmz_target_path n)"
  shows "mat_ok (m', insert z H)"
  using assms(1-3)
proof (rule upsert_writeE)
  assume c: "c \<in> set (mt_materials m)" and a: "nmz_artifact_id n \<in> ma_id ` set (mt_artifacts m)"
    and z: "z = replaced now c n c"
    and m': "m' = m\<lparr>mt_materials := update_rows (same_version c) (replaced now c n) (mt_materials m)\<rparr>"
  have "mats_ok (ma_id ` set (mt_artifacts m)) (mt_materials m')" "hist_ok (insert z H) (mt_materials m')"
    "adoptions_ok (insert z H) (mt_materials m') (mt_adoptions m)"
    using mat_ok_replace [OF assms(2) c, of z "replaced now c n"] a unfolding m' z
    by simp_all
  then show ?thesis using mat_okD(1,5) [OF assms(2)] by (simp add: mat_ok_def m' arts_ok_def locks_refs_ok_def)
qed

lemma mat_ok_adopt:
  assumes "adopt_write aid now receipt c m = Inr (z, m')" "mat_ok (m, H)" "c \<in> H"
  shows "mat_ok (m', insert z H)"
  using assms
proof (rule adopt_writeE)
  assume c: "c \<in> set (mt_materials m)" and aid: "aid \<notin> ad_id ` set (mt_adoptions m)" and z: "z = adopted now receipt c"
    and m': "m' = m\<lparr>mt_materials := update_rows (same_version c) (adopted now receipt) (mt_materials m),
            mt_adoptions := mt_adoptions m @ [adoption_row aid now receipt c]\<rparr>"
  note ok = mat_okD [OF assms(2)]
  have a: "mz_artifact_id c \<in> ma_id ` set (mt_artifacts m)" using ok(2) c by (simp add: mats_ok_def)
  have k: "mats_ok (ma_id ` set (mt_artifacts m)) (mt_materials m')" "hist_ok (insert z H) (mt_materials m')"
    "adoptions_ok (insert z H) (mt_materials m') (mt_adoptions m)"
    using mat_ok_replace [OF assms(2) c, of z "adopted now receipt"] a unfolding m' z
    by simp_all
  have z': "z \<in> set (mt_materials m')"
    using replaced_live(1) [OF ok(3) mats_ids [OF ok(2)] c, of "adopted now receipt"] unfolding m' z
    by simp
  have new: "adoption_ok (insert z H) (mt_materials m') (adoption_row aid now receipt c)"
    unfolding adoption_ok_def
  proof (intro conjI)
    show "\<exists>y \<in> set (mt_materials m'). mz_id y = ad_materialization_id (adoption_row aid now receipt c)
        \<and> ad_to_version (adoption_row aid now receipt c) \<le> mz_version y"
      using z' by (intro bexI [of _ z]) (simp_all add: adoption_row_def z)
  qed (use assms(3) in \<open>auto simp: adoption_row_def z\<close>)
  have old: "ad_to_version a \<le> mz_version c" if x: "a \<in> set (mt_adoptions m)" "ad_materialization_id a = mz_id c" for a
  proof -
    obtain y where "y \<in> set (mt_materials m)" "mz_id y = mz_id c" "ad_to_version a \<le> mz_version y"
      using ok(4) x unfolding adoptions_ok_def adoption_ok_def by metis
    then show ?thesis using key_iff [OF mats_ids [OF ok(2)] c] by auto
  qed
  have "adoptions_ok (insert z H) (mt_materials m') (mt_adoptions m')"
    using k(3) new old aid unfolding adoptions_ok_def by (force simp: m' adoption_row_def)
  then show ?thesis using k ok(1,5) by (simp add: mat_ok_def m' arts_ok_def locks_refs_ok_def)
qed

lemma mat_ok_remove:
  assumes ok: "mat_ok (m, H)" and p: "\<forall>z \<in> set (mt_materials m). p z \<or> mz_artifact_id z \<in> A"
  shows "mats_ok A (mt_materials (remove_materials p m))" "hist_ok H (mt_materials (remove_materials p m))"
    "adoptions_ok H (mt_materials (remove_materials p m)) (mt_adoptions (remove_materials p m))"
proof -
  note ok' = mat_okD [OF ok]
  let ?zs = "filter (\<lambda>z. \<not> p z) (mt_materials m)"
  have zs: "mt_materials (remove_materials p m) = ?zs" by (simp add: remove_materials_def Let_def)
  show "mats_ok A (mt_materials (remove_materials p m))"
    using ok'(2) p unfolding mats_ok_def zs by (auto simp: distinct_map_filter)
  show "hist_ok H (mt_materials (remove_materials p m))"
    using ok'(3) unfolding hist_ok_def zs by auto
  let ?gone = "mz_id ` set (filter p (mt_materials m))"
  have keep: "adoption_ok H ?zs a" if a: "a \<in> set (mt_adoptions m)" "ad_materialization_id a \<notin> ?gone" for a
  proof (rule adoption_ok_mono)
    show "adoption_ok H (mt_materials m) a" using ok'(4) a(1) by (simp add: adoptions_ok_def)
    have "z \<in> set ?zs" if "z \<in> set (mt_materials m)" "mz_id z = ad_materialization_id a" for z
      using that a(2) by (auto simp: image_iff)
    then show "\<forall>z \<in> set (mt_materials m). mz_id z = ad_materialization_id a
        \<longrightarrow> (\<exists>z' \<in> set ?zs. mz_id z' = mz_id z \<and> mz_version z \<le> mz_version z')" by blast
  qed simp
  show "adoptions_ok H (mt_materials (remove_materials p m)) (mt_adoptions (remove_materials p m))"
    using ok'(4) keep unfolding adoptions_ok_def zs by (simp add: remove_materials_def Let_def distinct_map_filter)
qed

lemma remove_materials_frame [simp]:
  "mt_artifacts (remove_materials p m) = mt_artifacts m" "mt_lockfiles (remove_materials p m) = mt_lockfiles m"
  "mt_refs (remove_materials p m) = mt_refs m"
  by (simp_all add: remove_materials_def Let_def)

lemma mat_ok_delete_material:
  assumes "mat_ok (m, H)"
  shows "mat_ok (snd (delete_material_write c m), H)"
proof -
  note ok = mat_okD [OF assms]
  have "\<forall>z \<in> set (mt_materials m). same_version c z \<or> mz_artifact_id z \<in> ma_id ` set (mt_artifacts m)"
    using ok(2) by (simp add: mats_ok_def)
  from mat_ok_remove [OF assms this] ok(1,5) show ?thesis
    by (simp add: mat_ok_def delete_material_write_def arts_ok_def locks_refs_ok_def)
qed

lemma mat_ok_delete_artifact:
  assumes "mat_ok (m, H)"
  shows "mat_ok (snd (delete_artifact_write i v m), H)"
proof -
  note ok = mat_okD [OF assms]
  let ?p = "\<lambda>a. ma_id a = i \<and> ma_version a = v"
  let ?q = "\<lambda>z. mz_artifact_id z \<in> ma_id ` set (filter ?p (mt_artifacts m))"
  let ?as = "filter (\<lambda>a. \<not> ?p a) (mt_artifacts m)"
  have "\<forall>z \<in> set (mt_materials m). ?q z \<or> mz_artifact_id z \<in> ma_id ` set ?as"
    using ok(2) by (auto simp: mats_ok_def)
  note k = mat_ok_remove [OF assms this]
  have "snd (delete_artifact_write i v m) = (remove_materials ?q m)\<lparr>mt_artifacts := ?as\<rparr>"
    by (simp add: delete_artifact_write_def Let_def)
  then show ?thesis using ok(1,5) k
    by (simp add: mat_ok_def arts_ok_def locks_refs_ok_def distinct_map_filter)
qed

lemma mat_ok_insert_material:
  assumes "insert_material i now n m = Inr (z, m')" "mat_ok (m, H)" "i \<notin> mz_id ` H"
  shows "mat_ok (m', insert z H)" "z = material_row i now n" "m' = m\<lparr>mt_materials := mt_materials m @ [z]\<rparr>"
proof -
  note ok = mat_okD [OF assms(2)]
  have id: "mz_id (material_row i now n) = i" by (simp add: material_row_def)
  have fresh: "i \<notin> mz_id ` set (mt_materials m)" using ok(3) assms(3) by (auto simp: hist_ok_def)
  show z: "z = material_row i now n" and m': "m' = m\<lparr>mt_materials := mt_materials m @ [z]\<rparr>"
    using assms(1) fresh find_snoc_key [OF fresh id]
    by (auto simp: insert_material_def found_def get_skill_governance_materialization_def split: if_splits)
  have "mz_target z \<notin> mz_target ` set (mt_materials m)" "mz_artifact_id z \<in> ma_id ` set (mt_artifacts m)"
    using assms(1) unfolding z by (auto simp: insert_material_def material_row_def mz_target_def split: if_splits)
  then have "mats_ok (ma_id ` set (mt_artifacts m)) (mt_materials m')"
    using ok(2) fresh id unfolding mats_ok_def m' z by (auto simp: material_row_def)
  moreover have "hist_ok (insert z H) (mt_materials m')"
    using ok(3) assms(3) id unfolding hist_ok_def m' z by (auto simp: image_iff)
  moreover have "adoption_ok (insert z H) (mt_materials m') a" if "a \<in> set (mt_adoptions m)" for a
  proof (rule adoption_ok_mono)
    show "adoption_ok H (mt_materials m) a" using that ok(4) by (simp add: adoptions_ok_def)
  qed (auto simp: m')
  ultimately show "mat_ok (m', insert z H)"
    using ok(1,4,5) by (simp add: mat_ok_def m' arts_ok_def locks_refs_ok_def adoptions_ok_def)
qed

lemma mat_ok_insert_artifact:
  assumes "insert_artifact i now n m = Inr (a, m')" "mat_ok (m, H)"
  shows "mat_ok (m', H)"
proof -
  note ok = mat_okD [OF assms(2)]
  obtain a' where m': "m' = m\<lparr>mt_artifacts := mt_artifacts m @ [a']\<rparr>" and a': "ma_id a' = i" "ma_artifact_key a' = nma_artifact_key n"
      "ma_version a' = 1" "ma_schema_version a' = nma_schema_version n"
    and n: "i \<notin> ma_id ` set (mt_artifacts m)" "nma_artifact_key n \<notin> ma_artifact_key ` set (mt_artifacts m)" "0 < nma_schema_version n"
    using assms(1) by (auto simp: insert_artifact_def Let_def tx_bind_Inr_iff split: if_splits)
  have "arts_ok m'" using ok(1) a' n unfolding arts_ok_def m' by auto
  moreover have "mats_ok (ma_id ` set (mt_artifacts m')) (mt_materials m)"
    using ok(2) unfolding mats_ok_def m' by auto
  ultimately show ?thesis using ok(3-5) by (simp add: mat_ok_def m' locks_refs_ok_def)
qed

lemma mat_ok_side:
  assumes "mat_ok (m, H)" "locks_refs_ok m'" "mt_artifacts m' = mt_artifacts m" "mt_materials m' = mt_materials m"
    "mt_adoptions m' = mt_adoptions m"
  shows "mat_ok (m', H)"
  using assms by (simp add: mat_ok_def arts_ok_def)

lemma mat_ok_lockfile:
  assumes "mat_ok (m, H)"
  shows "insert_lockfile i now w path content m = Inr m' \<Longrightarrow> mat_ok (m', H)"
    "mat_ok (update_lockfile now l content m, H)" "mat_ok (snd (delete_lockfile_write l m), H)"
proof -
  note ok = mat_okD(5) [OF assms]
  show "mat_ok (m', H)" if "insert_lockfile i now w path content m = Inr m'"
    using that ok by (intro mat_ok_side [OF assms]) (auto simp: insert_lockfile_def locks_refs_ok_def wl_key_def split: if_splits)
  show "mat_ok (update_lockfile now l content m, H)"
    using ok by (intro mat_ok_side [OF assms]) (auto simp: update_lockfile_def locks_refs_ok_def map_update_rows wl_key_def set_update_rows)
  show "mat_ok (snd (delete_lockfile_write l m), H)"
    using ok by (intro mat_ok_side [OF assms]) (auto simp: delete_lockfile_write_def Let_def locks_refs_ok_def distinct_map_filter)
qed

lemma mat_ok_reference:
  assumes "insert_gc_reference i now n m = Inr (r', m')" "mat_ok (m, H)"
  shows "mat_ok (m', H)"
proof -
  obtain r where m': "m' = m\<lparr>mt_refs := mt_refs m @ [r]\<rparr>" and r: "gr_id r \<notin> gr_id ` set (mt_refs m)"
      "gr_key r \<notin> gr_key ` set (mt_refs m)" "gr_target_type r \<in> {''managed_artifact'', ''materialization''}"
    using assms(1) by (auto simp: insert_gc_reference_def Let_def tx_bind_Inr_iff split: if_splits)
  show ?thesis
    using mat_okD(5) [OF assms(2)] r by (intro mat_ok_side [OF assms(2)]) (auto simp: m' locks_refs_ok_def)
qed

lemma mt_step_ok: "mt_step s t \<Longrightarrow> mat_ok s \<Longrightarrow> mat_ok t"
proof (induction rule: mt_step.induct)
  case (ms_delete_artifact i v m b m' H)
  then show ?case using mat_ok_delete_artifact [of m H i v] by simp
next
  case (ms_delete H m0 i expected observed c m b m')
  then show ?case using mat_ok_delete_material [of m H c] by simp
next
  case (ms_replace H m0 n expected c now m z m')
  note row = upsert_check_row [OF ms_replace(2)]
  show ?case using mat_ok_upsert [OF ms_replace(3,4) seenD [OF ms_replace(1) row(1)] row(2)] .
next
  case (ms_adopt H m0 i expected c aid now receipt m z m')
  then show ?case using mat_ok_adopt [OF ms_adopt(3,4) seenD [OF ms_adopt(1) material_at_row [OF ms_adopt(2)]]] by simp
next
  case (ms_delete_lockfile l m b m' H)
  then show ?case using mat_ok_lockfile(3) [of m H l] by simp
qed (blast intro: mat_ok_insert_artifact mat_ok_insert_material(1) mat_ok_lockfile(1) mat_ok_lockfile(2) mat_ok_reference)+

interpretation mts: invariant_system mt_start mt_step mat_ok
proof
  show "mat_ok s" if "mt_start s" for s
    using that by (simp add: mt_start_def mat_ok_def mt_empty_def arts_ok_def mats_ok_def hist_ok_def adoptions_ok_def locks_refs_ok_def)
qed (rule mt_step_ok)

section \<open>What the writers promise each other\<close>

lemma mt_step_grows: "mt_step s t \<Longrightarrow> snd s \<subseteq> snd t"
  by (induction rule: mt_step.induct) auto

lemma mt_steps_grow: "mt_step\<^sup>*\<^sup>* s t \<Longrightarrow> snd s \<subseteq> snd t"
  by (induction rule: rtranclp_induct) (auto dest: mt_step_grows)

lemma get_material_iff:
  assumes "mat_ok (m, H)"
  shows "get_skill_governance_materialization i m = Some z \<longleftrightarrow> z \<in> set (mt_materials m) \<and> mz_id z = i"
  using find_key [OF mats_ids [OF mat_okD(2) [OF assms]], of z i] unfolding get_skill_governance_materialization_def
  by (auto dest: find_Some_set)

lemma get_target_iff:
  assumes "mat_ok (m, H)"
  shows "get_skill_governance_materialization_for_target sc sid path m = Some z \<longleftrightarrow> z \<in> set (mt_materials m) \<and> mz_target z = (sc, sid, path)"
proof -
  have "distinct (map mz_target (mt_materials m))" using mat_okD(2) [OF assms] by (simp add: mats_ok_def)
  from find_key [OF this, of z "(sc, sid, path)"] show ?thesis
    unfolding get_skill_governance_materialization_for_target_def by (auto dest: find_Some_set)
qed

lemma get_artifact_iff:
  assumes "mat_ok (m, H)"
  shows "get_skill_governance_managed_artifact i m = Some a \<longleftrightarrow> a \<in> set (mt_artifacts m) \<and> ma_id a = i"
proof -
  have "distinct (map ma_id (mt_artifacts m))" using mat_okD(1) [OF assms] by (simp add: arts_ok_def)
  from find_key [OF this, of a i] show ?thesis
    unfolding get_skill_governance_managed_artifact_def by (auto dest: find_Some_set)
qed

lemma artifact_known_iff:
  assumes "mat_ok (m, H)"
  shows "artifact_known i m = Inr () \<longleftrightarrow> i \<in> ma_id ` set (mt_artifacts m)"
  using get_artifact_iff [OF assms, of i]
  by (auto simp: artifact_known_def tx_bind_Inr_iff found_Inr)

lemma upsert_check_Replace:
  assumes "mat_ok (m, H)"
  shows "upsert_check n (Some v) m = Inr (Replace c) \<longleftrightarrow> nmz_artifact_id n \<in> ma_id ` set (mt_artifacts m)
     \<and> c \<in> set (mt_materials m) \<and> mz_target c = (nmz_scope n, nmz_scope_id n, nmz_target_path n)
     \<and> mz_version c = v \<and> ownership_change_ok (mz_ownership c) (nmz_ownership n)"
proof -
  have "upsert_check n (Some v) m = Inr (Replace c) \<longleftrightarrow> artifact_known (nmz_artifact_id n) m = Inr ()
     \<and> get_skill_governance_materialization_for_target (nmz_scope n) (nmz_scope_id n) (nmz_target_path n) m = Some c
     \<and> mz_version c = v \<and> ownership_change_ok (mz_ownership c) (nmz_ownership n)"
    unfolding upsert_check_def by (auto simp: tx_bind_Inr_iff split: option.splits if_splits)
  then show ?thesis unfolding artifact_known_iff [OF assms] get_target_iff [OF assms] by blast
qed

definition adopted_from :: "materialization \<Rightarrow> materials \<Rightarrow> bool" where
  "adopted_from z m \<longleftrightarrow>
     (\<exists>a \<in> set (mt_adoptions m). ad_materialization_id a = mz_id z \<and> ad_from_ownership a = mz_ownership z
        \<and> ad_from_version a = mz_version z)
     \<and> (\<exists>z' \<in> set (mt_materials m). mz_id z' = mz_id z \<and> mz_ownership z' = Adopted \<and> mz_version z' = mz_version z + 1)"

lemma foreign_step:
  assumes "mt_step s t" "mat_ok s" "z \<in> set (mt_materials (fst s))" "not_ours (mz_ownership z)"
  shows "(\<exists>z' \<in> set (mt_materials (fst t)). mz_id z' = mz_id z \<and> mz_ownership z' = mz_ownership z)
     \<or> adopted_from z (fst t) \<or> mz_artifact_id z \<notin> ma_id ` set (mt_artifacts (fst t))"
  using assms
proof (induction rule: mt_step.induct)
  case (ms_artifact i now n m a m' H)
  then have "mt_materials m' = mt_materials m"
    by (auto simp: insert_artifact_def Let_def tx_bind_Inr_iff split: if_splits)
  with ms_artifact show ?case by auto
next
  case (ms_delete_artifact i v m b m' H)
  show ?case
  proof (cases "\<exists>a \<in> set (mt_artifacts m). ma_id a = i \<and> ma_version a = v \<and> mz_artifact_id z = i")
    case True
    then show ?thesis using mat_okD(1) [OF ms_delete_artifact(2)] ms_delete_artifact(1)
      by (auto simp: delete_artifact_write_def Let_def arts_ok_def)
  next
    case False
    then have "z \<in> set (mt_materials m')" using ms_delete_artifact(1,3)
      by (auto simp: delete_artifact_write_def Let_def remove_materials_def)
    then show ?thesis by auto
  qed
next
  case (ms_material i H now n m z' m')
  then show ?case using mat_ok_insert_material(3) [OF ms_material(2,3,1)] by auto
next
  case (ms_replace H m0 n expected c now m y m')
  note row = upsert_check_row [OF ms_replace(2)]
  from ms_replace(3,4) seenD [OF ms_replace(1) row(1)] show ?case
  proof (rule upsert_writeE)
    assume c: "c \<in> set (mt_materials m)" and m': "m' = m\<lparr>mt_materials := update_rows (same_version c) (replaced now c n) (mt_materials m)\<rparr>"
    have set: "set (mt_materials m') = insert (replaced now c n c) (set (mt_materials m) - {c})"
      using replaced_live(1) [OF mat_okD(3) [OF ms_replace(4)] mats_ids [OF mat_okD(2) [OF ms_replace(4)]] c] by (simp add: m')
    have "nmz_ownership n = mz_ownership c" if "z = c" using that row(3) ms_replace(6) by (auto simp: ownership_change_ok_def not_ours_def)
    then show ?thesis using ms_replace(5) unfolding fst_conv set by (cases "z = c") auto
  qed
next
  case (ms_delete H m0 i expected observed c m b m')
  note row = delete_check_row [OF ms_delete(2)]
  have "\<not> same_version c z"
    using same_version_live [OF mat_okD(3) [OF ms_delete(4)] seenD [OF ms_delete(1) row(1)], of z] row(2) ms_delete(5,6) by auto
  with ms_delete show ?case by (auto simp: delete_material_write_def remove_materials_def Let_def)
next
  case (ms_adopt H m0 i expected c aid now receipt m y m')
  from ms_adopt(3,4) seenD [OF ms_adopt(1) material_at_row [OF ms_adopt(2)]] show ?case
  proof (rule adopt_writeE)
    assume c: "c \<in> set (mt_materials m)" and m': "m' = m\<lparr>mt_materials := update_rows (same_version c) (adopted now receipt) (mt_materials m),
            mt_adoptions := mt_adoptions m @ [adoption_row aid now receipt c]\<rparr>"
    have set: "set (mt_materials m') = insert (adopted now receipt c) (set (mt_materials m) - {c})"
      using replaced_live(1) [OF mat_okD(3) [OF ms_adopt(4)] mats_ids [OF mat_okD(2) [OF ms_adopt(4)]] c] by (simp add: m')
    have "adopted_from c m'" unfolding adopted_from_def set by (auto simp: m' adoption_row_def)
    then show ?thesis using ms_adopt(5) unfolding fst_conv set by (cases "z = c") auto
  qed
qed (auto simp: insert_lockfile_def update_lockfile_def delete_lockfile_write_def insert_gc_reference_def Let_def tx_bind_Inr_iff split: if_splits)

lemma delete_material_outcome:
  assumes "mat_ok (m, H)"
  shows "(\<exists>m'. delete_skill_governance_materialization_if_safe i v observed m = Inr (True, m')) \<longleftrightarrow>
    (\<exists>z \<in> set (mt_materials m). mz_id z = i \<and> mz_version z = v \<and> \<not> not_ours (mz_ownership z)
       \<and> (observed = None \<or> observed = Some (mz_expected_fingerprint z)) \<and> \<not> has_skill_governance_gc_reference ''materialization'' i m)"
    (is "?l \<longleftrightarrow> ?r")
proof -
  have check: "delete_material_check i v observed m = Inr z \<longleftrightarrow> z \<in> set (mt_materials m) \<and> mz_id z = i \<and> mz_version z = v
      \<and> \<not> not_ours (mz_ownership z) \<and> (observed = None \<or> observed = Some (mz_expected_fingerprint z))
      \<and> \<not> has_skill_governance_gc_reference ''materialization'' i m" for z
    using get_material_iff [OF assms, of i z]
    by (cases observed) (auto simp: delete_material_check_def material_at_def tx_bind_Inr_iff found_Inr split: if_splits option.splits)
  have gone: "affected (same_version z) (mt_materials m) > 0" if "z \<in> set (mt_materials m)" for z
    using that by (auto simp: affected_def same_version_def filter_empty_conv)
  have "?l \<longleftrightarrow> (\<exists>z. delete_material_check i v observed m = Inr z \<and> affected (same_version z) (mt_materials m) > 0)"
    by (auto simp: delete_skill_governance_materialization_if_safe_def tx_bind_Inr_iff delete_material_write_def)
  also have "\<dots> \<longleftrightarrow> ?r" using check gone by blast
  finally show ?thesis .
qed

lemma delete_artifact_check_iff:
  assumes "mat_ok (m, H)"
  shows "delete_artifact_check i v m = Inr () \<longleftrightarrow> v = 1 \<and> (\<exists>a \<in> set (mt_artifacts m). ma_id a = i)
     \<and> (\<forall>z \<in> set (mt_materials m). mz_artifact_id z \<noteq> i) \<and> \<not> has_skill_governance_gc_reference ''managed_artifact'' i m"
proof -
  have "delete_artifact_check i v m = Inr () \<longleftrightarrow> (\<exists>a. get_skill_governance_managed_artifact i m = Some a \<and> ma_version a = v
     \<and> (\<forall>z \<in> set (mt_materials m). mz_artifact_id z \<noteq> i) \<and> \<not> has_skill_governance_gc_reference ''managed_artifact'' i m)"
    by (auto simp: delete_artifact_check_def tx_bind_Inr_iff found_Inr split: if_splits)
  then show ?thesis using mat_okD(1) [OF assms] unfolding get_artifact_iff [OF assms] arts_ok_def by auto
qed

lemma delete_artifact_write_found:
  assumes "mat_ok (m, H)" "a \<in> set (mt_artifacts m)" "ma_id a = i"
  shows "fst (delete_artifact_write i 1 m)"
    "mt_materials (snd (delete_artifact_write i 1 m)) = filter (\<lambda>z. mz_artifact_id z \<noteq> i) (mt_materials m)"
proof -
  have p: "ma_id ` set (filter (\<lambda>a. ma_id a = i \<and> ma_version a = 1) (mt_artifacts m)) = {i}"
    using assms mat_okD(1) [OF assms(1)] by (auto simp: arts_ok_def)
  have "a \<in> set (filter (\<lambda>a. ma_id a = i \<and> ma_version a = 1) (mt_artifacts m))"
    using assms mat_okD(1) [OF assms(1)] by (simp add: arts_ok_def)
  then have "filter (\<lambda>a. ma_id a = i \<and> ma_version a = 1) (mt_artifacts m) \<noteq> []" by (metis empty_iff set_empty)
  then show "fst (delete_artifact_write i 1 m)" by (simp add: delete_artifact_write_def Let_def affected_def)
  show "mt_materials (snd (delete_artifact_write i 1 m)) = filter (\<lambda>z. mz_artifact_id z \<noteq> i) (mt_materials m)"
    using p by (simp add: delete_artifact_write_def Let_def remove_materials_def)
qed

lemma delete_artifact_outcome:
  assumes "mat_ok (m, H)"
  shows "(\<exists>m'. delete_skill_governance_managed_artifact i v m = Inr (True, m')) \<longleftrightarrow> delete_artifact_check i v m = Inr ()"
proof -
  have "fst (delete_artifact_write i v m)" if "delete_artifact_check i v m = Inr ()"
    using that delete_artifact_check_iff [OF assms] delete_artifact_write_found(1) [OF assms] by auto
  then show ?thesis
    by (auto simp: delete_skill_governance_managed_artifact_def tx_bind_Inr_iff prod_eq_iff)
qed

section \<open>Properties\<close>

definition wit_artifact :: new_managed_artifact where
  "wit_artifact = \<lparr>nma_artifact_key = ''k'', nma_artifact_kind = ''skill'', nma_source_provenance = ''{}'', nma_content_digest = ''c'',
     nma_manifest_digest = ''m'', nma_schema_version = 1, nma_revision = ''r'', nma_store_relative_path = ''p'', nma_artifact = ''{}'', nma_metadata = ''{}''\<rparr>"

definition wit_material :: new_materialization where
  "wit_material = \<lparr>nmz_artifact_id = 1, nmz_scope = GvAgent, nmz_scope_id = ''a'', nmz_target_path = ''t'', nmz_target_runtime = ''codex'',
     nmz_root_kind = RootAgent, nmz_installation_mode = InstallCopy, nmz_ownership = Foreign, nmz_content_digest = ''c'',
     nmz_expected_destination = ''d'', nmz_expected_fingerprint = ''f'', nmz_verify_status = Verified, nmz_receipt = ''{}''\<rparr>"

definition wit_m1 :: materials where
  "wit_m1 = snd (projr (create_skill_governance_managed_artifact 1 10 wit_artifact mt_empty))"

definition wit_z2 :: materialization where
  "wit_z2 = material_row 2 20 wit_material"

definition wit_m2 :: materials where
  "wit_m2 = snd (projr (create_skill_governance_materialization 2 20 wit_material wit_m1))"

definition wit_m3 :: materials where
  "wit_m3 = snd (projr (adopt_skill_governance_materialization 3 30 2 1 ''{}'' wit_m2))"

lemma wit_m:
  "insert_artifact 1 10 wit_artifact mt_empty = Inr (hd (mt_artifacts wit_m1), wit_m1)"
  "insert_material 2 20 wit_material wit_m1 = Inr (wit_z2, wit_m2)"
  "adopt_write 3 30 ''{}'' wit_z2 wit_m2 = Inr (adopted 30 ''{}'' wit_z2, wit_m3)"
  by code_simp+

lemma wit_steps:
  "mt_step (mt_empty, {}) (wit_m1, {})" (is ?A) "mt_step (wit_m1, {}) (wit_m2, {wit_z2})" (is ?B)
  "mt_step (wit_m2, {wit_z2}) (wit_m3, {adopted 30 ''{}'' wit_z2, wit_z2})" (is ?C)
proof -
  have "seen {wit_z2} wit_m2" unfolding seen_def by code_simp
  moreover have "material_at 2 1 wit_m2 = Inr wit_z2" by code_simp
  ultimately show ?A ?B ?C
    using ms_artifact [OF wit_m(1), of "{}"] ms_material [OF _ wit_m(2), of "{}"] ms_adopt [OF _ _ wit_m(3), of "{wit_z2}" wit_m2 2 1] by auto
qed

lemma wit_reachable:
  "reachable mt_start mt_step (wit_m1, {})" "reachable mt_start mt_step (wit_m2, {wit_z2})"
  "reachable mt_start mt_step (wit_m3, {adopted 30 ''{}'' wit_z2, wit_z2})" (is ?C)
proof -
  have "reachable mt_start mt_step (mt_empty, {})" by (rule reachable_start) (simp add: mt_start_def)
  then show 1: "reachable mt_start mt_step (wit_m1, {})" by (rule reachable_step) (rule wit_steps(1))
  then show 2: "reachable mt_start mt_step (wit_m2, {wit_z2})" by (rule reachable_step) (rule wit_steps(2))
  then show "reachable mt_start mt_step (wit_m3, {adopted 30 ''{}'' wit_z2, wit_z2})" by (rule reachable_step) (rule wit_steps(3))
qed

text \<open>
  C21. After any interleaving of the writers of artifacts and materializations: artifact keys and
  installation targets are unique, every materialization is of a stored artifact and carries an
  adoption time exactly when it is adopted, and every adoption audit row names a version of its
  materialization that really existed, with the ownership it had, and the adopted version written next.
\<close>

theorem materials_reachable_consistent:
  assumes "reachable mt_start mt_step (m, H)"
  shows "distinct (map ma_artifact_key (mt_artifacts m)) \<and> distinct (map mz_target (mt_materials m))
    \<and> (\<forall>z \<in> set (mt_materials m). mz_artifact_id z \<in> ma_id ` set (mt_artifacts m)
          \<and> (mz_adopted_at z = None \<longleftrightarrow> mz_ownership z \<noteq> Adopted))
    \<and> (\<forall>a \<in> set (mt_adoptions m). ad_to_version a = ad_from_version a + 1
          \<and> (\<exists>c \<in> H. mz_id c = ad_materialization_id a \<and> mz_version c = ad_from_version a \<and> mz_ownership c = ad_from_ownership a)
          \<and> (\<exists>d \<in> H. mz_id d = ad_materialization_id a \<and> mz_version d = ad_to_version a \<and> mz_ownership d = Adopted))
    \<and> distinct (map wl_key (mt_lockfiles m)) \<and> distinct (map gr_key (mt_refs m))"
  using mat_okD [OF mts.inv_reachable [OF assms]]
  unfolding arts_ok_def mats_ok_def adoptions_ok_def adoption_ok_def locks_refs_ok_def by blast

theorem materials_reachable_consistent_witness:
  "distinct (map mz_target (mt_materials wit_m3)) \<and> mz_artifact_id (hd (mt_materials wit_m3)) \<in> ma_id ` set (mt_artifacts wit_m3)
    \<and> mz_adopted_at (hd (mt_materials wit_m3)) \<noteq> None"
proof -
  have "hd (mt_materials wit_m3) \<in> set (mt_materials wit_m3)" "mz_ownership (hd (mt_materials wit_m3)) = Adopted" by code_simp+
  with materials_reachable_consistent [OF wit_reachable(3)] show ?thesis by blast
qed

text \<open>
  C19. A skill that belongs to someone else is never taken over silently: whatever write is executed,
  with whatever row its caller read earlier, a foreign or unmanaged materialization keeps its
  ownership, or has been adopted with an audit row naming the ownership and version it had, or its
  artifact has been deleted.
\<close>

theorem foreign_rows_protected:
  assumes "reachable mt_start mt_step (m, H)" "mt_step (m, H) (m', H')" "z \<in> set (mt_materials m)" "not_ours (mz_ownership z)"
  shows "(\<exists>z' \<in> set (mt_materials m'). mz_id z' = mz_id z \<and> mz_ownership z' = mz_ownership z)
     \<or> adopted_from z m' \<or> mz_artifact_id z \<notin> ma_id ` set (mt_artifacts m')"
  using foreign_step [OF assms(2) mts.inv_reachable [OF assms(1)]] assms(3,4) by simp

theorem foreign_rows_protected_witness: "adopted_from wit_z2 wit_m3"
proof -
  have z: "wit_z2 \<in> set (mt_materials wit_m2)" "not_ours (mz_ownership wit_z2)" by code_simp+
  have "mz_ownership wit_z2 \<notin> mz_ownership ` set (mt_materials wit_m3)" "mz_artifact_id wit_z2 \<in> ma_id ` set (mt_artifacts wit_m3)"
    by code_simp+
  with foreign_rows_protected [OF wit_reachable(2) wit_steps(3) z] show ?thesis by (metis imageI)
qed

text \<open>
  C22. The garbage-collection preview is exact: it lists a managed artifact or a materialization,
  once, if and only if deleting it at its current version (with no file observed at the target)
  would succeed now.
\<close>

theorem gc_preview_exact:
  assumes "reachable mt_start mt_step (m, H)"
  shows "(\<lparr>gc_entity_type = ''managed_artifact'', gc_entity_id = i, gc_reason = ''unreferenced''\<rparr> \<in> set (preview_skill_governance_gc m)
           \<longleftrightarrow> (\<exists>m'. delete_skill_governance_managed_artifact i 1 m = Inr (True, m')))
    \<and> (\<lparr>gc_entity_type = ''materialization'', gc_entity_id = i, gc_reason = ''unreferenced''\<rparr> \<in> set (preview_skill_governance_gc m)
           \<longleftrightarrow> (\<exists>v m'. delete_skill_governance_materialization_if_safe i v None m = Inr (True, m')))
    \<and> distinct (preview_skill_governance_gc m)"
proof (intro conjI)
  have ok: "mat_ok (m, H)" by (rule mts.inv_reachable [OF assms])
  show "\<lparr>gc_entity_type = ''managed_artifact'', gc_entity_id = i, gc_reason = ''unreferenced''\<rparr> \<in> set (preview_skill_governance_gc m)
           \<longleftrightarrow> (\<exists>m'. delete_skill_governance_managed_artifact i 1 m = Inr (True, m'))"
    unfolding delete_artifact_outcome [OF ok] delete_artifact_check_iff [OF ok] preview_skill_governance_gc_def unreferenced_artifacts_def
    by auto
  show "\<lparr>gc_entity_type = ''materialization'', gc_entity_id = i, gc_reason = ''unreferenced''\<rparr> \<in> set (preview_skill_governance_gc m)
           \<longleftrightarrow> (\<exists>v m'. delete_skill_governance_materialization_if_safe i v None m = Inr (True, m'))"
    unfolding delete_material_outcome [OF ok] preview_skill_governance_gc_def unreferenced_materials_def
    by auto
  have "distinct (map ma_id (unreferenced_artifacts m))" "distinct (map mz_id (unreferenced_materials m))"
    using mat_okD(1,2) [OF ok] unfolding unreferenced_artifacts_def unreferenced_materials_def
    by (simp_all add: arts_ok_def mats_ok_def distinct_map_sort distinct_map_filter)
  then show "distinct (preview_skill_governance_gc m)"
    unfolding preview_skill_governance_gc_def by (auto simp: distinct_map inj_on_def)
qed

theorem gc_preview_exact_witness:
  "(\<exists>v m'. delete_skill_governance_materialization_if_safe 2 v None wit_m3 = Inr (True, m'))
     \<and> \<not> (\<exists>m'. delete_skill_governance_managed_artifact 1 1 wit_m3 = Inr (True, m'))"
proof -
  have "\<lparr>gc_entity_type = ''materialization'', gc_entity_id = 2, gc_reason = ''unreferenced''\<rparr> \<in> set (preview_skill_governance_gc wit_m3)"
    "\<lparr>gc_entity_type = ''managed_artifact'', gc_entity_id = 1, gc_reason = ''unreferenced''\<rparr> \<notin> set (preview_skill_governance_gc wit_m3)"
    by code_simp+
  with gc_preview_exact [OF wit_reachable(3), of 2] gc_preview_exact [OF wit_reachable(3), of 1] show ?thesis by blast
qed

text \<open>
  C20. A compare-and-swap replacement linearizes at its write: a caller that passed the checks of
  \<open>upsert\<close> on an earlier state, with any writes of others in between, either gets exactly what the whole
  method would do at the moment of the write, or, when the row has changed or gone since, a version
  conflict, or, when the new artifact has gone, a constraint error; in the last two cases nothing is written.
\<close>

theorem upsert_linearizes:
  assumes "reachable mt_start mt_step (m0, H0)" "upsert_check n (Some v) m0 = Inr (Replace c)"
    "mt_step\<^sup>*\<^sup>* (m0, H0) (m, H)"
  shows "upsert_write now c n m =
    (if c \<notin> set (mt_materials m)
     then Inl (SkillGovernanceVersionConflict ''skill governance materialization'' (mz_id c) v v)
     else if nmz_artifact_id n \<notin> ma_id ` set (mt_artifacts m) then Inl constraint
     else upsert_skill_governance_materialization i now n (Some v) m)"
proof -
  have ok0: "mat_ok (m0, H0)" by (rule mts.inv_reachable [OF assms(1)])
  have ok: "mat_ok (m, H)" by (rule mts.inv_steps [OF assms(3) ok0])
  note r = assms(2) [unfolded upsert_check_Replace [OF ok0]]
  have "c \<in> H" using r mat_okD(3) [OF ok0] mt_steps_grow [OF assms(3)] by (auto simp: hist_ok_def)
  then have a: "affected (same_version c) (mt_materials m) = 0 \<longleftrightarrow> c \<notin> set (mt_materials m)"
    by (rule affected_live [OF mat_okD(3) [OF ok]])
  have "upsert_check n (Some v) m = Inr (Replace c)" if "c \<in> set (mt_materials m)" "nmz_artifact_id n \<in> ma_id ` set (mt_artifacts m)"
    using r that unfolding upsert_check_Replace [OF ok] by blast
  then show ?thesis using a r by (auto simp: upsert_write_def upsert_skill_governance_materialization_def)
qed

definition wit_update :: new_materialization where
  "wit_update = wit_material\<lparr>nmz_content_digest := ''c2''\<rparr>"

theorem upsert_linearizes_witness:
  "upsert_write 40 wit_z2 wit_update wit_m3 = Inl (SkillGovernanceVersionConflict ''skill governance materialization'' 2 1 1)
     \<and> upsert_write 40 wit_z2 wit_update wit_m2 = upsert_skill_governance_materialization 9 40 wit_update (Some 1) wit_m2"
proof -
  have c: "upsert_check wit_update (Some 1) wit_m2 = Inr (Replace wit_z2)" by code_simp
  have "wit_z2 \<notin> set (mt_materials wit_m3)" "wit_z2 \<in> set (mt_materials wit_m2)"
    "nmz_artifact_id wit_update \<in> ma_id ` set (mt_artifacts wit_m2)" "mz_id wit_z2 = 2" by code_simp+
  with upsert_linearizes [OF wit_reachable(2) c r_into_rtranclp [of mt_step, OF wit_steps(3)], of 40 9]
    upsert_linearizes [OF wit_reachable(2) c rtranclp.rtrancl_refl, of 40 9]
  show ?thesis by simp
qed

text \<open>
  Deleting an artifact is not guarded at its write: every artifact row has version 1, so when a
  materialization is created between the checks of \<open>delete_skill_governance_managed_artifact\<close> and its
  \<open>DELETE\<close>, the delete reports success and the cascade takes the new materialization along.
\<close>

theorem artifact_delete_race:
  assumes "reachable mt_start mt_step (m, H)" "delete_artifact_check i 1 m = Inr ()"
    "k \<notin> mz_id ` H" "nmz_artifact_id n = i" "insert_material k now n m = Inr (z, m1)"
  shows "fst (delete_artifact_write i 1 m1) \<and> z \<in> set (mt_materials m1)
    \<and> z \<notin> set (mt_materials (snd (delete_artifact_write i 1 m1)))"
proof -
  have ok: "mat_ok (m, H)" by (rule mts.inv_reachable [OF assms(1)])
  note i = mat_ok_insert_material [OF assms(5) ok assms(3)]
  obtain a where "a \<in> set (mt_artifacts m1)" "ma_id a = i" using assms(2) unfolding delete_artifact_check_iff [OF ok] by (auto simp: i(3))
  note d = delete_artifact_write_found [OF i(1) this]
  have "mz_artifact_id z = i" using i(2) assms(4) by (simp add: material_row_def)
  with d i(3) show ?thesis by simp
qed

text \<open>
  Two callers that update the same lockfile from the same version: the second write changes nothing,
  and its caller is handed the first caller's row as the result of a successful update.
\<close>

theorem lost_lockfile_update:
  assumes "reachable mt_start mt_step (m, H)" "lockfile_check w path (Some v) m = Inr (UpdateLock c)"
  shows "\<exists>l. lockfile_write i now2 w path second (UpdateLock c) (update_lockfile now1 c first m) = Inr (l, update_lockfile now1 c first m)
     \<and> wl_content l = first"
proof -
  have ok: "mat_ok (m, H)" by (rule mts.inv_reachable [OF assms(1)])
  have "find (\<lambda>l. wl_key l = (w, path)) (mt_lockfiles m) = Some c"
    using assms(2) by (auto simp: lockfile_check_def get_skill_governance_workspace_lockfile_def split: option.splits if_splits)
  then have c: "c \<in> set (mt_lockfiles m)" "wl_key c = (w, path)" by (auto dest: find_Some_set)
  let ?p = "\<lambda>l. wl_id l = wl_id c \<and> wl_version l = wl_version c"
  let ?f = "\<lambda>l. l\<lparr>wl_content := first, wl_version := wl_version l + 1, wl_updated_at := now1\<rparr>"
  let ?m = "update_lockfile now1 c first m"
  have d: "distinct (map wl_id (mt_lockfiles m))" "distinct (map wl_key (mt_lockfiles m))"
    using mat_okD(5) [OF ok] by (auto simp: locks_refs_ok_def)
  have ls: "mt_lockfiles ?m = update_rows ?p ?f (mt_lockfiles m)" by (simp add: update_lockfile_def)
  have "\<not> ?p l" if "l \<in> set (mt_lockfiles ?m)" for l
    using that key_iff [OF d(1) c(1)] unfolding ls by (auto simp: set_update_rows)
  then have "update_rows ?p g (mt_lockfiles ?m) = mt_lockfiles ?m" for g
    by (auto simp: update_rows_def intro!: map_idI)
  then have "update_lockfile now2 c second ?m = ?m"
    by (simp add: update_lockfile_def [of now2])
  moreover have "find (\<lambda>l. wl_key l = (w, path)) (mt_lockfiles ?m) = Some (?f c)"
  proof (rule find_key)
    show "distinct (map wl_key (mt_lockfiles ?m))" unfolding ls using d(2) by (subst map_update_rows) (simp_all add: wl_key_def)
    show "?f c \<in> set (mt_lockfiles ?m)" unfolding ls using c(1) by (auto simp: set_update_rows)
  qed (use c(2) in \<open>simp add: wl_key_def\<close>)
  ultimately show ?thesis
    by (simp add: lockfile_write_def read_lockfile_def get_skill_governance_workspace_lockfile_def found_def)
qed

end
