(* ===== verification/Sha256.thy ===== *)
theory Sha256
  imports Prelude
begin

unbundle bit_operations_syntax

text \<open>
  The SHA-256 of \<open>crates/cocli-api/src/skill_governance.rs\<close> (\<open>sha256_hex\<close>), which all governance
  hashes and fingerprints use: padding, message schedule, compression rounds and the hexadecimal
  print, on 32-bit words with the wrap-around of \<open>wrapping_add\<close>. Bytes are characters. \<open>Sha256Spec\<close>
  shows that this is the function the standard defines.
\<close>

section \<open>Definitions\<close>

definition sha_initial :: "32 word list" where
  "sha_initial = [0x6a09e667, 0xbb67ae85, 0x3c6ef372, 0xa54ff53a, 0x510e527f, 0x9b05688c, 0x1f83d9ab, 0x5be0cd19]"

definition sha_k :: "32 word list" where
  "sha_k = concat [
     [0x428a2f98, 0x71374491, 0xb5c0fbcf, 0xe9b5dba5, 0x3956c25b, 0x59f111f1, 0x923f82a4],
     [0xab1c5ed5, 0xd807aa98, 0x12835b01, 0x243185be, 0x550c7dc3, 0x72be5d74, 0x80deb1fe],
     [0x9bdc06a7, 0xc19bf174, 0xe49b69c1, 0xefbe4786, 0x0fc19dc6, 0x240ca1cc, 0x2de92c6f],
     [0x4a7484aa, 0x5cb0a9dc, 0x76f988da, 0x983e5152, 0xa831c66d, 0xb00327c8, 0xbf597fc7],
     [0xc6e00bf3, 0xd5a79147, 0x06ca6351, 0x14292967, 0x27b70a85, 0x2e1b2138, 0x4d2c6dfc],
     [0x53380d13, 0x650a7354, 0x766a0abb, 0x81c2c92e, 0x92722c85, 0xa2bfe8a1, 0xa81a664b],
     [0xc24b8b70, 0xc76c51a3, 0xd192e819, 0xd6990624, 0xf40e3585, 0x106aa070, 0x19a4c116],
     [0x1e376c08, 0x2748774c, 0x34b0bcb5, 0x391c0cb3, 0x4ed8aa4a, 0x5b9cca4f, 0x682e6ff3],
     [0x748f82ee, 0x78a5636f, 0x84c87814, 0x8cc70208, 0x90befffa, 0xa4506ceb, 0xbef9a3f7],
     [0xc67178f2]]"

text \<open>The loop that pushes zero bytes until eight are missing to a multiple of 64.\<close>

definition pad_count :: "nat \<Rightarrow> nat" where
  "pad_count n = (if n mod 64 \<le> 56 then 56 - n mod 64 else 120 - n mod 64)"

lemma pad_count_Suc: "n mod 64 \<noteq> 56 \<Longrightarrow> pad_count n = Suc (pad_count (Suc n))"
  using mod_less_divisor [of 64 n] by (auto simp: pad_count_def mod_Suc)

function pad_zeros :: "string \<Rightarrow> string" where
  "pad_zeros bytes = (if length bytes mod 64 \<noteq> 56 then pad_zeros (bytes @ [CHR 0x00]) else bytes)"
  by pat_completeness auto
termination by (relation "measure (pad_count \<circ> length)") (simp_all add: pad_count_Suc)

declare pad_zeros.simps [simp del]

definition be_bytes :: "nat \<Rightarrow> int \<Rightarrow> string" where
  "be_bytes n x = map (\<lambda>i. char_of (x div 256 ^ i)) (rev [0..<n])"

definition sha_pad :: "string \<Rightarrow> string" where
  "sha_pad input =
     (let bit_len = of_nat (length input) * 8 :: 64 word
      in pad_zeros (input @ [CHR 0x80]) @ be_bytes 8 (uint bit_len))"

fun be_words :: "string \<Rightarrow> 32 word list" where
  "be_words (a # b # c # d # cs) = word_of_int (((of_char a * 256 + of_char b) * 256 + of_char c) * 256 + of_char d) # be_words cs"
| "be_words cs = []"

definition sigma_0 :: "32 word \<Rightarrow> 32 word" where
  "sigma_0 w = word_rotr 7 w XOR word_rotr 18 w XOR drop_bit 3 w"

definition sigma_1 :: "32 word \<Rightarrow> 32 word" where
  "sigma_1 w = word_rotr 17 w XOR word_rotr 19 w XOR drop_bit 10 w"

text \<open>The words 16 to 63 of a chunk, one after the other.\<close>

fun schedule :: "nat \<Rightarrow> 32 word list \<Rightarrow> 32 word list" where
  "schedule 0 ws = ws"
| "schedule (Suc n) ws =
     (let i = length ws
      in schedule n (ws @ [ws ! (i - 16) + sigma_0 (ws ! (i - 15)) + ws ! (i - 7) + sigma_1 (ws ! (i - 2))]))"

type_synonym sha_regs = "32 word \<times> 32 word \<times> 32 word \<times> 32 word \<times> 32 word \<times> 32 word \<times> 32 word \<times> 32 word"

fun sha_round :: "sha_regs \<Rightarrow> 32 word \<times> 32 word \<Rightarrow> sha_regs" where
  "sha_round (a, b, c, d, e, f, g, h) (k, w) =
     (let s1 = word_rotr 6 e XOR word_rotr 11 e XOR word_rotr 25 e;
          choice = (e AND f) XOR (NOT e AND g);
          temp1 = h + s1 + choice + k + w;
          s0 = word_rotr 2 a XOR word_rotr 13 a XOR word_rotr 22 a;
          majority = (a AND b) XOR (a AND c) XOR (b AND c);
          temp2 = s0 + majority
      in (temp1 + temp2, a, b, c, d + temp1, e, f, g))"

fun sha_add :: "32 word list \<Rightarrow> sha_regs \<Rightarrow> 32 word list" where
  "sha_add st (a, b, c, d, e, f, g, h) = map2 (+) st [a, b, c, d, e, f, g, h]"

definition sha_regs :: "32 word list \<Rightarrow> sha_regs" where
  "sha_regs st = (st ! 0, st ! 1, st ! 2, st ! 3, st ! 4, st ! 5, st ! 6, st ! 7)"

definition sha_chunk :: "32 word list \<Rightarrow> string \<Rightarrow> 32 word list" where
  "sha_chunk st chunk = sha_add st (foldl sha_round (sha_regs st) (zip sha_k (schedule 48 (be_words chunk))))"

function chunks_exact :: "nat \<Rightarrow> 'a list \<Rightarrow> 'a list list" where
  "chunks_exact n xs = (if n = 0 \<or> length xs < n then [] else take n xs # chunks_exact n (drop n xs))"
  by pat_completeness auto
termination by (relation "measure (length \<circ> snd)") auto

declare chunks_exact.simps [simp del]

definition hex_digit :: "nat \<Rightarrow> char" where
  "hex_digit n = ''0123456789abcdef'' ! n"

definition hex_word :: "32 word \<Rightarrow> string" where
  "hex_word w = map (\<lambda>i. hex_digit (nat (uint w div 16 ^ i mod 16))) (rev [0..<8])"

definition sha256_hex :: "string \<Rightarrow> string" where
  "sha256_hex input = concat (map hex_word (foldl sha_chunk sha_initial (chunks_exact 64 (sha_pad input))))"

section \<open>Padding\<close>

lemma pad_zeros_eq: "pad_zeros bytes = bytes @ replicate (pad_count (length bytes)) (CHR 0x00)"
proof (induction bytes rule: pad_zeros.induct)
  case (1 bytes)
  show ?case
  proof (cases "length bytes mod 64 = 56")
    case True
    then have "pad_zeros bytes = bytes" by (simp add: pad_zeros.simps)
    with True show ?thesis by (simp add: pad_count_def)
  next
    case False
    then have "pad_zeros bytes = pad_zeros (bytes @ [CHR 0x00])" by (subst pad_zeros.simps) simp
    with False "1.IH" show ?thesis by (simp add: pad_count_Suc)
  qed
qed

lemma pad_count_mod: "(n + pad_count n + 8) mod 64 = 0"
proof -
  have "n mod 64 + pad_count n = 56 \<or> n mod 64 + pad_count n = 120"
    using mod_less_divisor [of 64 n] by (auto simp: pad_count_def)
  then have "(n mod 64 + pad_count n + 8) mod 64 = 0" by auto
  then show ?thesis using mod_add_left_eq [of n 64 "pad_count n + 8"] by (simp only: add.assoc)
qed

lemma sha_pad_length: "length (sha_pad s) mod 64 = 0"
  using pad_count_mod [of "Suc (length s)"] by (simp add: sha_pad_def Let_def pad_zeros_eq be_bytes_def ac_simps)

section \<open>Padding is injective\<close>

lemma bytes_injective:
  "\<forall>i < n. x div 256 ^ i mod 256 = y div 256 ^ i mod 256 \<Longrightarrow> 0 \<le> x \<Longrightarrow> x < 256 ^ n \<Longrightarrow> 0 \<le> y \<Longrightarrow> y < 256 ^ n \<Longrightarrow> x = (y :: int)"
proof (induction n arbitrary: x y)
  case (Suc n)
  have m: "x mod 256 = y mod 256" using Suc.prems(1) by (metis div_by_1 power_0 zero_less_Suc)
  have "x div 256 div 256 ^ i mod 256 = y div 256 div 256 ^ i mod 256" if "i < n" for i
    using Suc.prems(1) [rule_format, of "Suc i"] that by (simp add: zdiv_zmult2_eq)
  moreover have "x div 256 < 256 ^ n" "y div 256 < 256 ^ n" using Suc.prems(3,5) by (simp_all add: int_div_less_self)
  ultimately have "x div 256 = y div 256" using Suc.prems(2,4) by (intro Suc.IH) simp_all
  with m show ?case by (metis div_mult_mod_eq)
qed simp

lemma be_bytes_injective:
  assumes "be_bytes n x = be_bytes n y" "0 \<le> x" "x < 256 ^ n" "0 \<le> y" "y < 256 ^ n"
  shows "x = y"
proof -
  have "(of_char (char_of (x div 256 ^ i) :: char) :: int) = of_char (char_of (y div 256 ^ i) :: char)" if "i < n" for i
    using assms(1) that by (auto simp: be_bytes_def)
  then show ?thesis using assms by (intro bytes_injective [of n]) simp_all
qed

lemma bit_length: "n < 2 ^ 61 \<Longrightarrow> uint (of_nat n * 8 :: 64 word) = 8 * int n"
proof -
  assume n: "n < 2 ^ 61"
  have "(of_nat n * 8 :: 64 word) = of_nat (n * 8)" by simp
  then have "uint (of_nat n * 8 :: 64 word) = int (n * 8) mod 2 ^ 64" by (simp only: uint_nat unat_of_nat zmod_int) simp
  then show ?thesis using n by simp
qed

text \<open>
  The padding of SHA-256 is injective on inputs shorter than 2 to the 61 bytes: two inputs with
  the same padded form, and so the same sequence of 64-byte blocks, are the same input.
\<close>

theorem sha_pad_injective:
  assumes "sha_pad a = sha_pad b" "length a < 2 ^ 61" "length b < 2 ^ 61"
  shows "a = b"
proof -
  let ?z = "\<lambda>s. pad_zeros (s @ [CHR 0x80])" and ?l = "\<lambda>s :: string. be_bytes 8 (8 * int (length s))"
  have p: "sha_pad s = ?z s @ ?l s" if "length s < 2 ^ 61" for s using that by (simp add: sha_pad_def bit_length)
  have "length (?l s) = 8" for s by (simp add: be_bytes_def)
  then have e: "?z a = ?z b" "?l a = ?l b" using assms(1) p [OF assms(2)] p [OF assms(3)] by auto
  have "8 * int (length a) = 8 * int (length b)" using assms(2,3) by (intro be_bytes_injective [OF e(2)]) simp_all
  then have "length a = length b" by simp
  then show ?thesis using e(1) by (simp add: pad_zeros_eq)
qed

theorem sha_pad_injective_witness: "sha_pad ''abc'' = sha_pad ''abc'' \<and> length ''abc'' < 2 ^ 61 \<and> ''abc'' = ''abc''"
  using sha_pad_injective [of "''abc''" "''abc''"] by simp

section \<open>A test vector\<close>

text \<open>The vector of the repository's test \<open>sha256_matches_the_standard_vector\<close>.\<close>

lemma sha256_matches_the_standard_vector:
  "sha256_hex ''abc'' = ''ba7816bf8f01cfea414140de5dae2223b00361a396177a9cb410ff61f20015ad''"
  by code_simp

end
