(* ===== verification/Json.thy ===== *)
theory Json
  imports SortedMap
begin

text \<open>
  JSON documents (\<open>serde_json::Value\<close>). The map of an object is a \<open>BTreeMap\<close>, so building one from a
  list of fields sorts them by key.
\<close>

datatype jvalue =
    VNull
  | VBool bool
  | VNum int
  | VStr string
  | VArr "jvalue list"
  | VObj "(string \<times> jvalue) list"

definition collect_map :: "(string \<times> jvalue) list \<Rightarrow> (string, jvalue) btree" where
  "collect_map kvs = foldl (\<lambda>m p. bt_insert (fst p) (snd p) m) [] kvs"

definition jobj :: "(string \<times> jvalue) list \<Rightarrow> jvalue" where
  "jobj kvs = VObj (collect_map kvs)"

definition opt_field :: "string \<Rightarrow> string option \<Rightarrow> (string \<times> jvalue) list" where
  "opt_field k v = (case v of None \<Rightarrow> [] | Some s \<Rightarrow> [(k, VStr s)])"

definition opt_value :: "string \<Rightarrow> ('a \<Rightarrow> jvalue) \<Rightarrow> 'a option \<Rightarrow> (string \<times> jvalue) list" where
  "opt_value k f v = (case v of None \<Rightarrow> [] | Some x \<Rightarrow> [(k, f x)])"

definition or_null :: "('a \<Rightarrow> jvalue) \<Rightarrow> 'a option \<Rightarrow> jvalue" where
  "or_null f v = (case v of None \<Rightarrow> VNull | Some x \<Rightarrow> f x)"

lemma collect_map_snoc: "collect_map (kvs @ [p]) = bt_insert (fst p) (snd p) (collect_map kvs)"
  by (simp add: collect_map_def)

lemma collect_map_ok [simp]: "bt_ok (collect_map kvs)"
  by (induction kvs rule: rev_induct) (simp_all add: collect_map_snoc, simp add: collect_map_def)

lemma collect_map_get: "bt_get (collect_map kvs) k = map_of (rev kvs) k"
proof (induction kvs rule: rev_induct)
  case (snoc p kvs)
  then show ?case by (cases p) (simp add: collect_map_snoc)
qed (simp add: collect_map_def)

lemma bt_get_foldl_insert:
  "bt_get (foldl (\<lambda>m p. bt_insert (fst p) (snd p) m) m kvs) k
     = (case map_of (rev kvs) k of Some v \<Rightarrow> Some v | None \<Rightarrow> bt_get m k)"
  by (induction kvs arbitrary: m) (auto simp: map_add_def split: option.split)

lemma bt_get_foldl_remove: "bt_get (foldl (\<lambda>m k. bt_remove k m) m ks) k = (if k \<in> set ks then None else bt_get m k)"
  by (induction ks arbitrary: m) auto

lemma map_of_rev_distinct: "distinct (map fst kvs) \<Longrightarrow> map_of (rev kvs) = map_of kvs"
  by (induction kvs) (auto simp: map_add_def fun_eq_iff image_iff dest!: map_of_SomeD split: option.split)

lemma map_of_rev_collect_map: "map_of (rev (collect_map kvs)) k = map_of (rev kvs) k"
proof -
  have "map_of (rev (collect_map kvs)) k = bt_get (collect_map kvs) k"
    by (simp add: map_of_rev_distinct bt_distinct bt_get_def)
  then show ?thesis by (simp add: collect_map_get)
qed

end
