(* ===== verification/SkillDesired.thy ===== *)
theory SkillDesired
  imports Sha256 Json Workspace
begin

text \<open>
  The desired state of skills (\<open>crates/cocli-api/src/skill_governance.rs\<close>): profile documents and
  their validation, normalization of sources, the resolution of bound profiles into one effective
  state, and the lockfile made from it. The \<open>url\<close> and \<open>serde_json\<close> crates and the file system are
  parameters, collected in \<open>gov_env\<close>; serialization of the types below cannot fail, so hashing is total.
\<close>

primrec canonical_json :: "jvalue \<Rightarrow> jvalue" where
  "canonical_json VNull = VNull"
| "canonical_json (VBool b) = VBool b"
| "canonical_json (VNum n) = VNum n"
| "canonical_json (VStr s) = VStr s"
| "canonical_json (VArr vs) = VArr (map canonical_json vs)"
| "canonical_json (VObj kvs) = VObj (collect_map (map (map_prod id canonical_json) kvs))"

section \<open>Environment\<close>

text \<open>
  What the code reads of a parsed URL; \<open>pu_text\<close> is the URL printed without its fragment.
\<close>

record parsed_url =
  pu_username :: string
  pu_password :: "string option"
  pu_query :: "string option"
  pu_text :: string

record gov_env =
  ge_to_vec :: "jvalue \<Rightarrow> string"
  ge_to_pretty :: "jvalue \<Rightarrow> string"
  ge_url :: "string \<Rightarrow> parsed_url option"
  ge_canonicalize :: "string \<Rightarrow> string option"

definition canonical_hash :: "gov_env \<Rightarrow> jvalue \<Rightarrow> string" where
  "canonical_hash env v = ''sha256:'' @ sha256_hex (ge_to_vec env (canonical_json v))"

section \<open>Types\<close>

definition skill_governance_schema_version :: int where
  "skill_governance_schema_version = 1"

datatype gov_layer = LyMachine | LyWorkspace | LyAgent

fun layer_as_str :: "gov_layer \<Rightarrow> string" where
  "layer_as_str LyMachine = ''machine''"
| "layer_as_str LyWorkspace = ''workspace''"
| "layer_as_str LyAgent = ''agent''"

fun priority :: "gov_layer \<Rightarrow> nat" where
  "priority LyMachine = 0"
| "priority LyWorkspace = 1"
| "priority LyAgent = 2"

instantiation gov_layer :: linorder
begin

definition less_eq_gov_layer :: "gov_layer \<Rightarrow> gov_layer \<Rightarrow> bool" where
  "less_eq_gov_layer a b \<longleftrightarrow> priority a \<le> priority b"

definition less_gov_layer :: "gov_layer \<Rightarrow> gov_layer \<Rightarrow> bool" where
  "less_gov_layer a b \<longleftrightarrow> priority a < priority b"

instance
proof
  fix a b :: gov_layer
  show "a = b" if "a \<le> b" "b \<le> a" using that by (cases a; cases b) (simp_all add: less_eq_gov_layer_def)
qed (auto simp: less_eq_gov_layer_def less_gov_layer_def)

end

datatype installation_mode = ImCopy | ImSymlink | ImNative | ImManual

fun mode_as_str :: "installation_mode \<Rightarrow> string" where
  "mode_as_str ImCopy = ''copy''"
| "mode_as_str ImSymlink = ''symlink''"
| "mode_as_str ImNative = ''native''"
| "mode_as_str ImManual = ''manual''"

datatype update_policy = UpPinned | UpManual | UpTrackRevision

fun update_policy_json :: "update_policy \<Rightarrow> jvalue" where
  "update_policy_json UpPinned = VStr ''pinned''"
| "update_policy_json UpManual = VStr ''manual''"
| "update_policy_json UpTrackRevision = VStr ''track_revision''"

datatype risk_policy = RpTrusted | RpAllowlisted | RpApprovalRequired | RpBlocked

fun risk_policy_json :: "risk_policy \<Rightarrow> jvalue" where
  "risk_policy_json RpTrusted = VStr ''trusted''"
| "risk_policy_json RpAllowlisted = VStr ''allowlisted''"
| "risk_policy_json RpApprovalRequired = VStr ''approval_required''"
| "risk_policy_json RpBlocked = VStr ''blocked''"

record desired_skill_source =
  ss_kind :: string
  ss_location :: string
  ss_subpath :: "string option"
  ss_credential_ref :: "string option"

record desired_skill =
  ds_logical_identity :: string
  ds_source :: desired_skill_source
  ds_version :: "string option"
  ds_resolved_revision :: "string option"
  ds_content_digest :: string
  ds_manifest_digest :: string
  ds_target_runtime :: string
  ds_install_scope :: gov_layer
  ds_installation_mode :: installation_mode
  ds_enabled :: bool
  ds_update_policy :: update_policy
  ds_allowed_sources :: "string list"
  ds_risk_policy :: risk_policy
  ds_expected_destination :: "string option"

record skill_profile_document =
  pd_schema_version :: int
  pd_name :: string
  pd_description :: string
  pd_skills :: "desired_skill list"

record bound_profile =
  bp_binding_id :: uuid
  bp_profile_id :: uuid
  bp_profile_name :: string
  bp_scope :: gov_layer
  bp_document :: skill_profile_document

record effective_desired_skill =
  ed_desired :: desired_skill
  ed_identity_fingerprint :: string
  ed_source_provenance :: string
  ed_owner_binding_id :: uuid
  ed_owner_profile_id :: uuid
  ed_owner_profile_name :: string
  ed_owner_scope :: gov_layer

record desired_conflict =
  dc_logical_identity :: string
  dc_scope :: gov_layer
  dc_binding_ids :: "uuid list"
  dc_profile_ids :: "uuid list"
  dc_reason :: string

record effective_desired_state =
  es_schema_version :: int
  es_desired_config_hash :: string
  es_skills :: "effective_desired_skill list"
  es_conflicts :: "desired_conflict list"

section \<open>Serialization\<close>

text \<open>
  The derived \<open>Serialize\<close> instances: camel-case keys, options marked \<open>skip_serializing_if\<close> left out
  when absent, \<open>flatten\<close> splicing the fields of the inner struct. A \<open>Uuid\<close> is printed by \<open>ut\<close>.
\<close>

definition source_json :: "desired_skill_source \<Rightarrow> jvalue" where
  "source_json s = VObj ([(''kind'', VStr (ss_kind s)), (''location'', VStr (ss_location s))]
     @ opt_field ''subpath'' (ss_subpath s) @ opt_field ''credentialRef'' (ss_credential_ref s))"

definition desired_fields :: "desired_skill \<Rightarrow> (string \<times> jvalue) list" where
  "desired_fields d =
     [(''logicalIdentity'', VStr (ds_logical_identity d)), (''source'', source_json (ds_source d))]
     @ opt_field ''version'' (ds_version d) @ opt_field ''resolvedRevision'' (ds_resolved_revision d)
     @ [(''contentDigest'', VStr (ds_content_digest d)), (''manifestDigest'', VStr (ds_manifest_digest d)),
        (''targetRuntime'', VStr (ds_target_runtime d)), (''installScope'', VStr (layer_as_str (ds_install_scope d))),
        (''installationMode'', VStr (mode_as_str (ds_installation_mode d))), (''enabled'', VBool (ds_enabled d)),
        (''updatePolicy'', update_policy_json (ds_update_policy d)),
        (''allowedSources'', VArr (map VStr (ds_allowed_sources d))), (''riskPolicy'', risk_policy_json (ds_risk_policy d))]
     @ opt_field ''expectedDestination'' (ds_expected_destination d)"

definition desired_json :: "desired_skill \<Rightarrow> jvalue" where
  "desired_json d = VObj (desired_fields d)"

definition effective_json :: "(uuid \<Rightarrow> string) \<Rightarrow> effective_desired_skill \<Rightarrow> jvalue" where
  "effective_json ut e = VObj (desired_fields (ed_desired e) @
     [(''identityFingerprint'', VStr (ed_identity_fingerprint e)), (''sourceProvenance'', VStr (ed_source_provenance e)),
      (''ownerBindingId'', VStr (ut (ed_owner_binding_id e))), (''ownerProfileId'', VStr (ut (ed_owner_profile_id e))),
      (''ownerProfileName'', VStr (ed_owner_profile_name e)), (''ownerScope'', VStr (layer_as_str (ed_owner_scope e)))])"

definition conflict_json :: "(uuid \<Rightarrow> string) \<Rightarrow> desired_conflict \<Rightarrow> jvalue" where
  "conflict_json ut c = VObj
     [(''logicalIdentity'', VStr (dc_logical_identity c)), (''scope'', VStr (layer_as_str (dc_scope c))),
      (''bindingIds'', VArr (map (VStr \<circ> ut) (dc_binding_ids c))), (''profileIds'', VArr (map (VStr \<circ> ut) (dc_profile_ids c))),
      (''reason'', VStr (dc_reason c))]"

section \<open>Normalization\<close>

definition normalize_logical_identity :: "string \<Rightarrow> string" where
  "normalize_logical_identity v = map (\<lambda>c. if c = CHR ''_'' then CHR ''-'' else c) (to_ascii_lowercase (trim v))"

fun join_slash :: "string list \<Rightarrow> string" where
  "join_slash [] = []"
| "join_slash [w] = w"
| "join_slash (w # ws) = w @ ''/'' @ join_slash ws"

definition normal_names :: "path \<Rightarrow> string list" where
  "normal_names p = concat (map (\<lambda>c. case c of Normal w \<Rightarrow> [w] | _ \<Rightarrow> []) p)"

text \<open>\<open>push\<close> of the components that are kept and \<open>pop\<close> for a parent component.\<close>

fun fold_path :: "path \<Rightarrow> path \<Rightarrow> path" where
  "fold_path acc [] = acc"
| "fold_path acc (CurDir # cs) = fold_path acc cs"
| "fold_path acc (ParentDir # cs) = fold_path (if can_pop acc then butlast acc else acc) cs"
| "fold_path acc (RootDir # cs) = fold_path [RootDir] cs"
| "fold_path acc (Normal w # cs) = fold_path (acc @ [Normal w]) cs"

definition path_text :: "path \<Rightarrow> string" where
  "path_text p = (if is_absolute p then ''/'' else []) @ join_slash (normal_names p)"

definition normalize_local_path :: "gov_env \<Rightarrow> string \<Rightarrow> string" where
  "normalize_local_path env s =
     (case ge_canonicalize env s of Some t \<Rightarrow> t | None \<Rightarrow> path_text (fold_path [] (components s)))"

definition normalize_relative_path :: "string \<Rightarrow> string + string" where
  "normalize_relative_path s =
     (let p = components s
      in if is_absolute p \<or> ParentDir \<in> set p \<or> RootDir \<in> set p then Inl ''SkillProfile source subpath is invalid''
         else Inr (join_slash (normal_names p)))"

definition trim_end_slashes :: "string \<Rightarrow> string" where
  "trim_end_slashes s = rev (dropWhile (\<lambda>c. c = CHR ''/'') (rev s))"

definition normalize_source :: "gov_env \<Rightarrow> desired_skill_source \<Rightarrow> string + string" where
  "normalize_source env s =
     (let kind = to_ascii_lowercase (trim (ss_kind s))
      in tx_bind
           (if kind \<in> {''git'', ''http'', ''https''}
            then (case ge_url env (trim (ss_location s)) of
                    None \<Rightarrow> Inl ''SkillProfile source URL is invalid''
                  | Some u \<Rightarrow>
                      if pu_username u \<noteq> [] \<or> pu_password u \<noteq> None \<or> pu_query u \<noteq> None
                      then Inl ''source credentials must use an opaque credentialRef''
                      else Inr (trim_end_slashes (pu_text u)))
            else if kind = ''local'' then Inr (normalize_local_path env (trim (ss_location s)))
            else Inl ''SkillProfile source kind is unsupported'')
           (\<lambda>location.
              tx_bind (case ss_subpath s of None \<Rightarrow> Inr [] | Some p \<Rightarrow> normalize_relative_path p)
                (\<lambda>subpath. Inr (kind @ '':'' @ location @ ''#'' @ subpath))))"

definition lockfile_source_provenance :: "string \<Rightarrow> string" where
  "lockfile_source_provenance p = hd (split_on CHR '':'' p) @ '':sha256:'' @ sha256_hex p"

definition has_whitespace :: "string \<Rightarrow> bool" where
  "has_whitespace s \<longleftrightarrow> (\<exists>w \<in> set ws_seqs. sublist w s)"

definition validate_credential_ref :: "string \<Rightarrow> string + unit" where
  "validate_credential_ref r =
     (if trim r = [] \<or> length r > 200 \<or> CHR ''@'' \<in> set r \<or> CHR ''?'' \<in> set r \<or> CHR ''#'' \<in> set r \<or> has_whitespace r
      then Inl ''credentialRef must be an opaque secret-store reference'' else Inr ())"

definition desired_identity_fingerprint :: "gov_env \<Rightarrow> desired_skill \<Rightarrow> string + string" where
  "desired_identity_fingerprint env d =
     tx_bind (normalize_source env (ds_source d)) (\<lambda>src.
       Inr (canonical_hash env (VArr [VStr (normalize_logical_identity (ds_logical_identity d)), VStr src,
                                      VStr (trim (ds_content_digest d)), VStr (trim (ds_manifest_digest d))])))"

section \<open>Validation\<close>

definition skill_key :: "desired_skill \<Rightarrow> string \<times> string" where
  "skill_key d = (normalize_logical_identity (ds_logical_identity d), to_ascii_lowercase (ds_target_runtime d))"

text \<open>The body of the loop over the skills; \<open>seen\<close> is the set of keys so far.\<close>

definition validate_skill :: "gov_env \<Rightarrow> (string \<times> string) list \<Rightarrow> desired_skill \<Rightarrow> string + (string \<times> string) list" where
  "validate_skill env seen d =
     (if trim (ds_logical_identity d) = [] \<or> trim (ds_target_runtime d) = []
         \<or> trim (ds_content_digest d) = [] \<or> trim (ds_manifest_digest d) = []
      then Inl ''SkillProfile contains an incomplete desired skill''
      else if skill_key d \<in> set seen
      then Inl ''SkillProfile contains a duplicate logical identity for one runtime''
      else tx_bind (normalize_source env (ds_source d)) (\<lambda>_.
           tx_bind (case ss_credential_ref (ds_source d) of None \<Rightarrow> Inr () | Some r \<Rightarrow> validate_credential_ref r) (\<lambda>_.
           if ds_allowed_sources d \<noteq> []
              \<and> \<not> list_ex (\<lambda>a. eq_ignore_ascii_case a (ss_kind (ds_source d))) (ds_allowed_sources d)
           then Inl ''SkillProfile source is outside its allowlist''
           else Inr (skill_key d # seen))))"

definition validate_profile_document :: "gov_env \<Rightarrow> skill_profile_document \<Rightarrow> string + unit" where
  "validate_profile_document env doc =
     (if pd_schema_version doc \<noteq> skill_governance_schema_version then Inl ''unsupported SkillProfile schema version''
      else if trim (pd_name doc) = [] \<or> length (pd_name doc) > 120 then Inl ''SkillProfile name is invalid''
      else tx_bind (tx_fold (validate_skill env) [] (pd_skills doc)) (\<lambda>_. Inr ()))"

section \<open>Resolution\<close>

type_synonym candidate = "bound_profile \<times> desired_skill"
type_synonym effective_map = "(string \<times> string, effective_desired_skill) btree"

definition layer_candidates :: "nat \<Rightarrow> bound_profile list \<Rightarrow> candidate list" where
  "layer_candidates n ps =
     concat (map (\<lambda>p. map (Pair p) (pd_skills (bp_document p))) (filter (\<lambda>p. priority (bp_scope p) = n) ps))"

definition conflict_of :: "string \<times> string \<Rightarrow> candidate list \<Rightarrow> desired_conflict" where
  "conflict_of key cs =
     \<lparr>dc_logical_identity = fst key, dc_scope = bp_scope (fst (hd cs)), dc_binding_ids = map (bp_binding_id \<circ> fst) cs,
      dc_profile_ids = map (bp_profile_id \<circ> fst) cs,
      dc_reason = ''same-layer desired state conflict; no value was selected''\<rparr>"

definition effective_of :: "gov_env \<Rightarrow> candidate \<Rightarrow> string + effective_desired_skill" where
  "effective_of env c =
     tx_bind (desired_identity_fingerprint env (snd c)) (\<lambda>fp.
     tx_bind (normalize_source env (ds_source (snd c))) (\<lambda>src.
       Inr \<lparr>ed_desired = snd c, ed_identity_fingerprint = fp, ed_source_provenance = src,
            ed_owner_binding_id = bp_binding_id (fst c), ed_owner_profile_id = bp_profile_id (fst c),
            ed_owner_profile_name = bp_profile_name (fst c), ed_owner_scope = bp_scope (fst c)\<rparr>))"

text \<open>\<open>variants.len() > 1\<close>: the set of canonical hashes of the candidates has two elements.\<close>

definition conflicting :: "gov_env \<Rightarrow> candidate list \<Rightarrow> bool" where
  "conflicting env cs \<longleftrightarrow> length (remdups (map (canonical_hash env \<circ> desired_json \<circ> snd) cs)) > 1"

definition resolve_key ::
  "gov_env \<Rightarrow> effective_map \<times> desired_conflict list \<Rightarrow> (string \<times> string) \<times> candidate list
     \<Rightarrow> string + (effective_map \<times> desired_conflict list)" where
  "resolve_key env st kc =
     (if conflicting env (snd kc) then Inr (bt_remove (fst kc) (fst st), snd st @ [conflict_of (fst kc) (snd kc)])
      else tx_bind (effective_of env (hd (snd kc))) (\<lambda>e. Inr (bt_insert (fst kc) e (fst st), snd st)))"

definition resolve_layer ::
  "gov_env \<Rightarrow> bound_profile list \<Rightarrow> effective_map \<times> desired_conflict list \<Rightarrow> nat
     \<Rightarrow> string + (effective_map \<times> desired_conflict list)" where
  "resolve_layer env ps st n = tx_fold (resolve_key env) st (group_by (skill_key \<circ> snd) (layer_candidates n ps))"

definition resolve_effective_desired ::
  "gov_env \<Rightarrow> (uuid \<Rightarrow> string) \<Rightarrow> bound_profile list \<Rightarrow> string + effective_desired_state" where
  "resolve_effective_desired env ut ps =
     tx_bind (tx_fold (\<lambda>_ p. validate_profile_document env (bp_document p)) () ps) (\<lambda>_.
     tx_bind (tx_fold (resolve_layer env ps) ([], []) [0, 1, 2]) (\<lambda>(effective, conflicts).
       let skills = map snd effective;
           sorted_conflicts = sort_key (\<lambda>c. (dc_scope c, dc_logical_identity c)) conflicts
       in Inr \<lparr>es_schema_version = skill_governance_schema_version,
               es_desired_config_hash = canonical_hash env
                 (VArr [VNum skill_governance_schema_version, VArr (map (effective_json ut) skills), VArr (map (conflict_json ut) sorted_conflicts)]),
               es_skills = skills, es_conflicts = sorted_conflicts\<rparr>))"

section \<open>The lockfile\<close>

record skill_lock_entry =
  le_logical_identity :: string
  le_identity_fingerprint :: string
  le_source_provenance :: string
  le_resolved_revision :: "string option"
  le_version :: "string option"
  le_content_digest :: string
  le_manifest_digest :: string
  le_target_runtime :: string
  le_scope :: gov_layer
  le_installation_mode :: installation_mode
  le_enabled :: bool
  le_update_policy :: update_policy
  le_allowed_sources :: "string list"
  le_risk_policy :: risk_policy
  le_expected_destination :: string
  le_expected_fingerprint :: string

record skill_lockfile_content =
  lc_schema_version :: int
  lc_observation_hash :: string
  lc_desired_config_hash :: string
  lc_entries :: "skill_lock_entry list"

record skill_lockfile_preview =
  lp_observed_at :: timestamp
  lp_snapshot_hash :: string
  lp_desired_config_hash :: string
  lp_lockfile_hash :: string
  lp_content :: skill_lockfile_content
  lp_serialized :: string

definition lock_entry_json :: "skill_lock_entry \<Rightarrow> jvalue" where
  "lock_entry_json e = VObj (
     [(''logicalIdentity'', VStr (le_logical_identity e)), (''identityFingerprint'', VStr (le_identity_fingerprint e)),
      (''sourceProvenance'', VStr (le_source_provenance e))]
     @ opt_field ''resolvedRevision'' (le_resolved_revision e) @ opt_field ''version'' (le_version e)
     @ [(''contentDigest'', VStr (le_content_digest e)), (''manifestDigest'', VStr (le_manifest_digest e)),
        (''targetRuntime'', VStr (le_target_runtime e)), (''scope'', VStr (layer_as_str (le_scope e))),
        (''installationMode'', VStr (mode_as_str (le_installation_mode e))), (''enabled'', VBool (le_enabled e)),
        (''updatePolicy'', update_policy_json (le_update_policy e)),
        (''allowedSources'', VArr (map VStr (le_allowed_sources e))), (''riskPolicy'', risk_policy_json (le_risk_policy e)),
        (''expectedDestination'', VStr (le_expected_destination e)), (''expectedFingerprint'', VStr (le_expected_fingerprint e))])"

definition lockfile_json :: "skill_lockfile_content \<Rightarrow> jvalue" where
  "lockfile_json c = VObj
     [(''schemaVersion'', VNum (lc_schema_version c)),
      (''generatedFrom'', VObj [(''observationHash'', VStr (lc_observation_hash c)), (''desiredConfigHash'', VStr (lc_desired_config_hash c))]),
      (''entries'', VArr (map lock_entry_json (lc_entries c)))]"

definition lock_entry_of :: "effective_desired_skill \<Rightarrow> skill_lock_entry" where
  "lock_entry_of s =
     (let d = ed_desired s; runtime = to_ascii_lowercase (ds_target_runtime d); identity = normalize_logical_identity (ds_logical_identity d)
      in \<lparr>le_logical_identity = identity, le_identity_fingerprint = ed_identity_fingerprint s,
          le_source_provenance = lockfile_source_provenance (ed_source_provenance s),
          le_resolved_revision = ds_resolved_revision d, le_version = ds_version d,
          le_content_digest = ds_content_digest d, le_manifest_digest = ds_manifest_digest d, le_target_runtime = runtime,
          le_scope = ds_install_scope d, le_installation_mode = ds_installation_mode d, le_enabled = ds_enabled d,
          le_update_policy = ds_update_policy d, le_allowed_sources = ds_allowed_sources d, le_risk_policy = ds_risk_policy d,
          le_expected_destination = runtime @ '':'' @ layer_as_str (ds_install_scope d) @ '':'' @ identity,
          le_expected_fingerprint = ed_identity_fingerprint s\<rparr>)"

definition build_lockfile_preview :: "gov_env \<Rightarrow> effective_desired_state \<Rightarrow> string \<Rightarrow> timestamp \<Rightarrow> skill_lockfile_preview" where
  "build_lockfile_preview env st observation_hash observed_at =
     (let content = \<lparr>lc_schema_version = skill_governance_schema_version, lc_observation_hash = observation_hash,
                     lc_desired_config_hash = es_desired_config_hash st,
                     lc_entries = sort_key (\<lambda>e. (le_target_runtime e, le_scope e, le_logical_identity e)) (map lock_entry_of (es_skills st))\<rparr>
      in \<lparr>lp_observed_at = observed_at, lp_snapshot_hash = observation_hash, lp_desired_config_hash = es_desired_config_hash st,
          lp_lockfile_hash = canonical_hash env (lockfile_json content), lp_content = content,
          lp_serialized = ge_to_pretty env (lockfile_json content) @ ''\<newline>''\<rparr>)"

section \<open>Canonical form\<close>

lemma collect_map_perm:
  assumes "distinct (map fst kvs)" "distinct (map fst kvs')" "set kvs = set kvs'"
  shows "collect_map kvs = collect_map kvs'"
proof (rule bt_ext)
  fix k
  have "distinct (map fst (rev kvs))" "distinct (map fst (rev kvs'))" using assms(1,2) by (simp_all add: rev_map [symmetric])
  moreover have "set (rev kvs) = set (rev kvs')" using assms(3) by simp
  ultimately show "bt_get (collect_map kvs) k = bt_get (collect_map kvs') k"
    unfolding collect_map_get by (metis map_of_inject_set)
qed simp_all

section \<open>Normal forms are normal\<close>

text \<open>Renaming of bytes that neither removes nor introduces a byte of a white-space encoding.\<close>

lemma no_front_map:
  assumes "no_front ws s" "\<And>w c. w \<in> set ws \<Longrightarrow> f c \<in> set w \<Longrightarrow> f c = c"
  shows "no_front ws (map f s)"
proof -
  have "\<not> prefix w (map f s)" if w: "w \<in> set ws" "w \<noteq> []" for w
  proof
    assume "prefix w (map f s)"
    then obtain t where t: "map f s = w @ t" by (auto simp: prefix_def)
    then have e: "w = map f (take (length w) s)" by (metis append_eq_conv_conj take_map)
    have "f c = c" if "c \<in> set (take (length w) s)" for c
      using assms(2) [OF w(1)] that imageI [of c _ f] e by (metis list.set_map)
    then have "map f (take (length w) s) = take (length w) s" by (simp add: map_idI)
    with e have "prefix w s" by (metis take_is_prefix)
    with assms(1) w show False by (auto simp: no_front_def)
  qed
  then show ?thesis by (auto simp: no_front_def)
qed

lemma trim_fixed: "no_front ws_seqs s \<Longrightarrow> no_front (map rev ws_seqs) (rev s) \<Longrightarrow> trim s = s"
  by (simp add: trim_def trim_start_def trim_end_def strip_any_id)

lemma trim_no_back: "no_front (map rev ws_seqs) (rev (trim s))"
  by (simp add: trim_def trim_end_def strip_any_no_front)

definition ident_char :: "char \<Rightarrow> char" where
  "ident_char c = (let d = to_ascii_lowercase_char c in if d = CHR ''_'' then CHR ''-'' else d)"

lemma normalize_logical_identity_eq: "normalize_logical_identity v = map ident_char (trim v)"
  by (simp add: normalize_logical_identity_def to_ascii_lowercase_def ident_char_def Let_def)

definition ident_byte :: "char \<Rightarrow> bool" where
  "ident_byte c \<longleftrightarrow> c = CHR ''-'' \<or> (97 \<le> (of_char c :: nat) \<and> (of_char c :: nat) \<le> 122)"

lemma ident_char_changed: "ident_char c \<noteq> c \<Longrightarrow> ident_byte (ident_char c)"
  by (auto simp: ident_char_def ident_byte_def to_ascii_lowercase_char_def Let_def split: if_splits)

lemma ident_char_idem [simp]: "ident_char (ident_char c) = ident_char c"
  by (auto simp: ident_char_def Let_def) (simp add: to_ascii_lowercase_char_def)

lemma ws_not_ident: "list_all (list_all (\<lambda>c. \<not> ident_byte c)) ws_seqs"
  by code_simp

lemma normalize_logical_identity_idem [simp]:
  "normalize_logical_identity (normalize_logical_identity v) = normalize_logical_identity v"
proof -
  have ws: "ident_char c = c" if "w \<in> set ws_seqs" "ident_char c \<in> set w" for w c
    using that ws_not_ident ident_char_changed [of c] by (auto simp: list_all_iff)
  have "no_front ws_seqs (map ident_char (trim v))"
    using trim_no_front ws by (rule no_front_map)
  moreover have "no_front (map rev ws_seqs) (rev (map ident_char (trim v)))"
    unfolding rev_map using trim_no_back by (rule no_front_map) (use ws in auto)
  ultimately have "trim (map ident_char (trim v)) = map ident_char (trim v)" by (rule trim_fixed)
  then show ?thesis by (simp add: normalize_logical_identity_eq)
qed

section \<open>Resolution selects the highest layer\<close>

definition candidates :: "nat \<Rightarrow> bound_profile list \<Rightarrow> string \<times> string \<Rightarrow> candidate list" where
  "candidates n ps key = filter (\<lambda>c. skill_key (snd c) = key) (layer_candidates n ps)"

text \<open>The candidates of the highest layer that mentions the key.\<close>

definition top_candidates :: "bound_profile list \<Rightarrow> string \<times> string \<Rightarrow> candidate list" where
  "top_candidates ps key =
     (if candidates 2 ps key \<noteq> [] then candidates 2 ps key
      else if candidates 1 ps key \<noteq> [] then candidates 1 ps key else candidates 0 ps key)"

text \<open>The first candidate of a layer, unless the layer disagrees with itself.\<close>

definition pick :: "gov_env \<Rightarrow> candidate list \<Rightarrow> effective_desired_skill option" where
  "pick env cs = (if conflicting env cs then None else case effective_of env (hd cs) of Inl _ \<Rightarrow> None | Inr e \<Rightarrow> Some e)"

definition selected :: "gov_env \<Rightarrow> bound_profile list \<Rightarrow> string \<times> string \<Rightarrow> effective_desired_skill option" where
  "selected env ps key = (let cs = top_candidates ps key in if cs = [] then None else pick env cs)"

lemma resolve_keys:
  assumes "distinct (map fst L)" "bt_ok m" "\<forall>kc \<in> set L. \<exists>e. effective_of env (hd (snd kc)) = Inr e"
  shows "\<exists>m'. tx_fold (resolve_key env) (m, cs) L = Inr (m', cs @ map (case_prod conflict_of) (filter (conflicting env \<circ> snd) L))
     \<and> bt_ok m' \<and> (\<forall>k. bt_get m' k = (case map_of L k of None \<Rightarrow> bt_get m k | Some c \<Rightarrow> pick env c))"
  using assms
proof (induction L arbitrary: m cs)
  case (Cons kc L)
  obtain k c where kc: "kc = (k, c)" by (cases kc)
  obtain e where e: "effective_of env (hd c) = Inr e" using Cons.prems(3) kc by auto
  define m1 where "m1 = (if conflicting env c then bt_remove k m else bt_insert k e m)"
  have s: "resolve_key env (m, cs) kc = Inr (m1, cs @ (if conflicting env c then [conflict_of k c] else []))"
    by (simp add: resolve_key_def kc e m1_def)
  have m1: "bt_ok m1" "\<And>j. bt_get m1 j = (if j = k then pick env c else bt_get m j)"
    using Cons.prems(2) e by (simp_all add: m1_def pick_def)
  obtain m' where m': "tx_fold (resolve_key env) (m1, cs @ (if conflicting env c then [conflict_of k c] else [])) L
      = Inr (m', (cs @ (if conflicting env c then [conflict_of k c] else [])) @ map (case_prod conflict_of) (filter (conflicting env \<circ> snd) L))"
    "bt_ok m'" "\<forall>j. bt_get m' j = (case map_of L j of None \<Rightarrow> bt_get m1 j | Some c \<Rightarrow> pick env c)"
  proof -
    have "distinct (map fst L)" "\<forall>kc \<in> set L. \<exists>e. effective_of env (hd (snd kc)) = Inr e" using Cons.prems(1,3) by simp_all
    from Cons.IH [OF this(1) m1(1) this(2)] show ?thesis using that by blast
  qed
  have "map_of L k = None" using Cons.prems(1) kc by (simp add: map_of_eq_None_iff)
  show ?case
  proof (intro exI [of _ m'] conjI allI)
    show "tx_fold (resolve_key env) (m, cs) (kc # L) = Inr (m', cs @ map (case_prod conflict_of) (filter (conflicting env \<circ> snd) (kc # L)))"
      using m'(1) s by (simp add: kc comp_def)
    show "bt_get m' j = (case map_of (kc # L) j of None \<Rightarrow> bt_get m j | Some c \<Rightarrow> pick env c)" for j
      using m'(3) [rule_format, of j] m1(2) [of j] \<open>map_of L k = None\<close> by (cases "j = k") (simp_all add: kc split: option.split)
  qed (rule m'(2))
qed simp

lemma group_by_set: "(k, ys) \<in> set (group_by f xs) \<Longrightarrow> ys = filter (\<lambda>x. f x = k) xs \<and> ys \<noteq> []"
proof -
  assume "(k, ys) \<in> set (group_by f xs)"
  then have "bt_get (group_by f xs) k = Some ys" by (simp add: bt_get_iff)
  then show ?thesis by (auto simp: group_by_get Let_def split: if_splits)
qed

lemma resolve_one_layer:
  assumes "bt_ok m" "\<forall>c \<in> set (layer_candidates n ps). \<exists>e. effective_of env c = Inr e"
  obtains m' where "resolve_layer env ps (m, cs) n
      = Inr (m', cs @ map (case_prod conflict_of) (filter (conflicting env \<circ> snd) (group_by (skill_key \<circ> snd) (layer_candidates n ps))))"
    "bt_ok m'" "\<forall>k. bt_get m' k = (if candidates n ps k = [] then bt_get m k else pick env (candidates n ps k))"
proof -
  let ?L = "group_by (skill_key \<circ> snd) (layer_candidates n ps)"
  have d: "distinct (map fst ?L)" by (rule bt_distinct) simp
  have "\<exists>e. effective_of env (hd (snd kc)) = Inr e" if "kc \<in> set ?L" for kc
  proof -
    have "snd kc = filter (\<lambda>x. (skill_key \<circ> snd) x = fst kc) (layer_candidates n ps) \<and> snd kc \<noteq> []"
      by (rule group_by_set) (use that in \<open>simp add: comp_def\<close>)
    then have "hd (snd kc) \<in> set (layer_candidates n ps)" by (metis filter_is_subset hd_in_set subsetD)
    with assms(2) show ?thesis by blast
  qed
  with resolve_keys [OF d assms(1)] obtain m' where m':
    "tx_fold (resolve_key env) (m, cs) ?L = Inr (m', cs @ map (case_prod conflict_of) (filter (conflicting env \<circ> snd) ?L))" "bt_ok m'"
    "\<forall>k. bt_get m' k = (case bt_get ?L k of None \<Rightarrow> bt_get m k | Some c \<Rightarrow> pick env c)"
    unfolding bt_get_def [of ?L] by blast
  have "bt_get m' k = (if candidates n ps k = [] then bt_get m k else pick env (candidates n ps k))" for k
    using m'(3) [rule_format, of k] by (simp add: group_by_get candidates_def Let_def split: if_splits)
  then have "\<forall>k. bt_get m' k = (if candidates n ps k = [] then bt_get m k else pick env (candidates n ps k))" by blast
  then show ?thesis by (rule that [OF m'(1) [folded resolve_layer_def] m'(2)])
qed

lemma validated_source:
  assumes "tx_fold (validate_skill env) seen ds = Inr seen'" "d \<in> set ds"
  shows "\<exists>s. normalize_source env (ds_source d) = Inr s"
  using assms
proof (induction ds arbitrary: seen)
  case (Cons d' ds)
  obtain seen1 where "validate_skill env seen d' = Inr seen1" "tx_fold (validate_skill env) seen1 ds = Inr seen'"
    using Cons.prems(1) by (auto simp: tx_bind_Inr_iff)
  with Cons show ?case by (auto simp: validate_skill_def tx_bind_Inr_iff split: if_splits)
qed simp

lemma valid_profile_resolves:
  assumes "\<forall>p \<in> set ps. validate_profile_document env (bp_document p) = Inr ()" "c \<in> set (layer_candidates n ps)"
  shows "\<exists>e. effective_of env c = Inr e"
proof -
  have c: "fst c \<in> set ps" "snd c \<in> set (pd_skills (bp_document (fst c)))" using assms(2) by (auto simp: layer_candidates_def)
  have "validate_profile_document env (bp_document (fst c)) = Inr ()" using assms(1) c(1) by blast
  then obtain seen where "tx_fold (validate_skill env) [] (pd_skills (bp_document (fst c))) = Inr seen"
    by (auto simp: validate_profile_document_def tx_bind_Inr_iff split: if_splits)
  from validated_source [OF this c(2)] show ?thesis by (auto simp: effective_of_def desired_identity_fingerprint_def)
qed

lemma pick_key: "cs \<noteq> [] \<Longrightarrow> pick env cs = Some e \<Longrightarrow> ed_desired e = snd (hd cs)"
  by (auto simp: pick_def effective_of_def tx_bind_Inr_iff split: if_splits sum.splits)

lemma candidates_key: "candidates n ps k \<noteq> [] \<Longrightarrow> skill_key (snd (hd (candidates n ps k))) = k"
  using hd_in_set [of "candidates n ps k"] by (simp add: candidates_def)

lemma picked_key: "candidates n ps k \<noteq> [] \<Longrightarrow> pick env (candidates n ps k) = Some e \<Longrightarrow> skill_key (ed_desired e) = k"
  by (simp add: pick_key candidates_key)

lemma selected_key: "selected env ps k = Some e \<Longrightarrow> skill_key (ed_desired e) = k"
  by (auto simp: selected_def top_candidates_def Let_def intro: picked_key split: if_splits)

lemma resolve_layers:
  assumes "\<forall>p \<in> set ps. validate_profile_document env (bp_document p) = Inr ()"
  obtains m where "tx_fold (resolve_layer env ps) ([], []) [0, 1, 2]
      = Inr (m, concat (map (\<lambda>n. map (case_prod conflict_of) (filter (conflicting env \<circ> snd) (group_by (skill_key \<circ> snd) (layer_candidates n ps)))) [0, 1, 2]))"
    "bt_ok m" "\<forall>k. bt_get m k = selected env ps k"
proof -
  let ?c = "\<lambda>n. map (case_prod conflict_of) (filter (conflicting env \<circ> snd) (group_by (skill_key \<circ> snd) (layer_candidates n ps)))"
  have ok: "\<forall>c \<in> set (layer_candidates n ps). \<exists>e. effective_of env c = Inr e" for n
    using valid_profile_resolves [OF assms] by blast
  obtain m0 where m0: "resolve_layer env ps ([], []) 0 = Inr (m0, [] @ ?c 0)" "bt_ok m0"
    "\<forall>k. bt_get m0 k = (if candidates 0 ps k = [] then bt_get [] k else pick env (candidates 0 ps k))"
    by (rule resolve_one_layer [OF bt_ok_Nil ok])
  obtain m1 where m1: "resolve_layer env ps (m0, [] @ ?c 0) 1 = Inr (m1, ([] @ ?c 0) @ ?c 1)" "bt_ok m1"
    "\<forall>k. bt_get m1 k = (if candidates 1 ps k = [] then bt_get m0 k else pick env (candidates 1 ps k))"
    by (rule resolve_one_layer [OF m0(2) ok])
  obtain m2 where m2: "resolve_layer env ps (m1, ([] @ ?c 0) @ ?c 1) 2 = Inr (m2, (([] @ ?c 0) @ ?c 1) @ ?c 2)" "bt_ok m2"
    "\<forall>k. bt_get m2 k = (if candidates 2 ps k = [] then bt_get m1 k else pick env (candidates 2 ps k))"
    by (rule resolve_one_layer [OF m1(2) ok])
  show ?thesis
  proof (rule that [OF _ m2(2)])
    show "tx_fold (resolve_layer env ps) ([], []) [0, 1, 2] = Inr (m2, concat (map ?c [0, 1, 2]))"
      using m0(1) m1(1) m2(1) by simp
    show "\<forall>k. bt_get m2 k = selected env ps k" using m0(3) m1(3) m2(3) by (simp add: selected_def top_candidates_def Let_def)
  qed
qed

lemma validate_all:
  "tx_fold (\<lambda>_ p. validate_profile_document env (bp_document p)) () ps = Inr () \<longleftrightarrow> (\<forall>p \<in> set ps. validate_profile_document env (bp_document p) = Inr ())"
  by (induction ps) (auto simp: tx_bind_Inr_iff)

lemma resolved_conflicts:
  "set (concat (map (\<lambda>n. map (case_prod conflict_of) (filter (conflicting env \<circ> snd) (group_by (skill_key \<circ> snd) (layer_candidates n ps)))) [0, 1, 2]))
     = {conflict_of k (candidates n ps k) | n k. n < 3 \<and> candidates n ps k \<noteq> [] \<and> conflicting env (candidates n ps k)}"
proof -
  let ?g = "\<lambda>n. group_by (skill_key \<circ> snd) (layer_candidates n ps)"
  have group: "(k, c) \<in> set (?g n) \<longleftrightarrow> c = candidates n ps k \<and> c \<noteq> []" for k c n
    by (auto simp: candidates_def group_by_get Let_def simp flip: bt_get_iff [OF group_by_ok])
  let ?f = "\<lambda>n. map (case_prod conflict_of) (filter (conflicting env \<circ> snd) (?g n))"
  have one: "set (?f n) = {conflict_of k (candidates n ps k) | k. candidates n ps k \<noteq> [] \<and> conflicting env (candidates n ps k)}" for n
    by (auto simp: group image_iff split: prod.splits) (metis group snd_conv)+
  have "set (concat (map ?f [0, 1, 2])) = set (?f 0) \<union> set (?f 1) \<union> set (?f 2)"
    by (simp only: list.map concat.simps set_append list.set Un_empty_right Un_assoc)
  also have "\<dots> = {conflict_of k (candidates n ps k) | n k. n < 3 \<and> candidates n ps k \<noteq> [] \<and> conflicting env (candidates n ps k)}"
    unfolding one by (auto simp: less_Suc_eq numeral_eq_Suc)
  finally show ?thesis .
qed

lemma resolve_result:
  assumes "\<forall>p \<in> set ps. validate_profile_document env (bp_document p) = Inr ()"
  obtains st m where "resolve_effective_desired env ut ps = Inr st" "es_skills st = map snd m" "bt_ok m"
    "\<forall>k. bt_get m k = selected env ps k" "map (skill_key \<circ> ed_desired) (es_skills st) = map fst m"
    "set (es_conflicts st) = {conflict_of k (candidates n ps k) | n k. n < 3 \<and> candidates n ps k \<noteq> [] \<and> conflicting env (candidates n ps k)}"
proof -
  define cs where "cs = concat (map (\<lambda>n. map (case_prod conflict_of) (filter (conflicting env \<circ> snd) (group_by (skill_key \<circ> snd) (layer_candidates n ps)))) [0, 1, 2])"
  obtain m where m: "tx_fold (resolve_layer env ps) ([], []) [0, 1, 2] = Inr (m, cs)" "bt_ok m" "\<forall>k. bt_get m k = selected env ps k"
    unfolding cs_def using assms by (rule resolve_layers)
  have "skill_key (ed_desired e) = k" if "(k, e) \<in> set m" for k e
    using that m(2,3) selected_key by (metis bt_get_iff)
  then have "map (skill_key \<circ> ed_desired) (map snd m) = map fst m" by auto
  then show ?thesis
    using m(2,3) resolved_conflicts [of env ps, folded cs_def]
      that [of _ m] unfolding resolve_effective_desired_def validate_all [THEN iffD2, OF assms] m(1) tx_bind_simps prod.case Let_def
    by simp
qed

text \<open>
  C16. If every bound profile is valid, resolution succeeds, and its result is the layered override:
  a skill is in the effective state exactly when it is the first candidate for its key (normalized
  identity and runtime) in the highest layer that mentions the key, agent over workspace over
  machine, and that layer does not contradict itself; the skills come in the order of their keys,
  without duplicates; and a conflict is reported for exactly the keys and layers whose candidates
  have different canonical hashes.
\<close>

theorem resolve_is_layered_override:
  assumes "\<forall>p \<in> set ps. validate_profile_document env (bp_document p) = Inr ()"
  shows "\<exists>st. resolve_effective_desired env ut ps = Inr st
    \<and> sorted_wrt (<) (map (skill_key \<circ> ed_desired) (es_skills st))
    \<and> (\<forall>e. e \<in> set (es_skills st) \<longleftrightarrow> selected env ps (skill_key (ed_desired e)) = Some e)
    \<and> set (es_conflicts st) = {conflict_of k (candidates n ps k) | n k. n < 3 \<and> candidates n ps k \<noteq> [] \<and> conflicting env (candidates n ps k)}"
proof -
  obtain st m where st: "resolve_effective_desired env ut ps = Inr st" "es_skills st = map snd m" "bt_ok m"
    "\<forall>k. bt_get m k = selected env ps k" "map (skill_key \<circ> ed_desired) (es_skills st) = map fst m"
    "set (es_conflicts st) = {conflict_of k (candidates n ps k) | n k. n < 3 \<and> candidates n ps k \<noteq> [] \<and> conflicting env (candidates n ps k)}"
    using assms by (rule resolve_result)
  have "e \<in> set (es_skills st) \<longleftrightarrow> selected env ps (skill_key (ed_desired e)) = Some e" for e
  proof
    assume "e \<in> set (es_skills st)"
    then obtain k where "(k, e) \<in> set m" by (auto simp: st(2))
    then have "selected env ps k = Some e" using st(3,4) by (metis bt_get_iff)
    then show "selected env ps (skill_key (ed_desired e)) = Some e" using selected_key by metis
  next
    assume "selected env ps (skill_key (ed_desired e)) = Some e"
    then have "(skill_key (ed_desired e), e) \<in> set m" using st(3,4) by (metis bt_get_iff)
    then show "e \<in> set (es_skills st)" by (force simp: st(2))
  qed
  moreover have "sorted_wrt (<) (map (skill_key \<circ> ed_desired) (es_skills st))" using st(3) by (simp only: st(5) bt_ok_def)
  ultimately show ?thesis using st(1,6) by (intro exI [of _ st] conjI allI)
qed

definition wit_env :: gov_env where
  "wit_env = \<lparr>ge_to_vec = (\<lambda>_. ''v''), ge_to_pretty = (\<lambda>_. ''p''), ge_url = (\<lambda>_. None), ge_canonicalize = (\<lambda>_. None)\<rparr>"

definition wit_desired :: desired_skill where
  "wit_desired = \<lparr>ds_logical_identity = ''Code_Review'', ds_source = \<lparr>ss_kind = ''local'', ss_location = ''/a/./b/../c'', ss_subpath = None, ss_credential_ref = None\<rparr>,
     ds_version = None, ds_resolved_revision = None, ds_content_digest = ''c1'', ds_manifest_digest = ''m1'', ds_target_runtime = ''Codex'',
     ds_install_scope = LyAgent, ds_installation_mode = ImCopy, ds_enabled = True, ds_update_policy = UpPinned, ds_allowed_sources = [],
     ds_risk_policy = RpTrusted, ds_expected_destination = None\<rparr>"

definition wit_bound :: bound_profile where
  "wit_bound = \<lparr>bp_binding_id = 1, bp_profile_id = 2, bp_profile_name = ''p'', bp_scope = LyAgent,
     bp_document = \<lparr>pd_schema_version = 1, pd_name = ''p'', pd_description = [], pd_skills = [wit_desired]\<rparr>\<rparr>"

theorem resolve_is_layered_override_witness:
  "\<exists>st. resolve_effective_desired wit_env (\<lambda>_. []) [wit_bound] = Inr st
    \<and> (\<forall>e. e \<in> set (es_skills st) \<longleftrightarrow> selected wit_env [wit_bound] (skill_key (ed_desired e)) = Some e)"
proof -
  have "validate_profile_document wit_env (bp_document wit_bound) = Inr ()" by code_simp
  then show ?thesis using resolve_is_layered_override [of "[wit_bound]" wit_env "\<lambda>_. []"] by auto
qed

section \<open>The lockfile\<close>

definition entry_key :: "skill_lock_entry \<Rightarrow> string \<times> gov_layer \<times> string" where
  "entry_key e = (to_ascii_lowercase (le_target_runtime e), le_scope e, normalize_logical_identity (le_logical_identity e))"

lemma distinct_map_refine: "distinct (map g xs) \<Longrightarrow> (\<And>x y. f x = f y \<Longrightarrow> g x = g y) \<Longrightarrow> distinct (map f xs)"
  unfolding distinct_map inj_on_def by blast

text \<open>The entries of a lockfile made from a resolved state have distinct keys.\<close>

lemma lockfile_keys_distinct:
  assumes "resolve_effective_desired env ut ps = Inr st"
  shows "distinct (map entry_key (lc_entries (lp_content (build_lockfile_preview env st oh at))))"
proof -
  have v: "\<forall>p \<in> set ps. validate_profile_document env (bp_document p) = Inr ()"
    using assms unfolding resolve_effective_desired_def tx_bind_Inr_iff validate_all [symmetric] by auto
  obtain st' and m :: effective_map where "resolve_effective_desired env ut ps = Inr st'" "bt_ok m" "map (skill_key \<circ> ed_desired) (es_skills st') = map fst m"
    using v by (rule resolve_result [where ut = ut]) blast
  then have d: "distinct (map (skill_key \<circ> ed_desired) (es_skills st))" using assms bt_distinct by simp
  have "(entry_key \<circ> lock_entry_of) s = (entry_key \<circ> lock_entry_of) t \<Longrightarrow> (skill_key \<circ> ed_desired) s = (skill_key \<circ> ed_desired) t" for s t
    by (simp add: entry_key_def lock_entry_of_def skill_key_def Let_def)
  from distinct_map_refine [OF d this] have "distinct (map (entry_key \<circ> lock_entry_of) (es_skills st))" .
  then have "distinct (map entry_key (map lock_entry_of (es_skills st)))" by (simp only: map_map)
  then show ?thesis by (simp add: build_lockfile_preview_def Let_def distinct_map_sort)
qed

end
