(* ===== verification/SkillDrift.thy ===== *)
theory SkillDrift
  imports SkillDesired
begin

text \<open>
  Observation, drift and dry-run plans of skills (\<open>crates/cocli-api/src/skill_governance.rs\<close>): the
  observed skills are put in order and hashed, compared with the lockfile, and every difference
  becomes an action of a plan with its risk, approval and blocking.
\<close>

section \<open>Observation\<close>

record observed_skill =
  ob_logical_identity :: string
  ob_runtime :: string
  ob_scope :: gov_layer
  ob_scope_id :: "string option"
  ob_source_provenance :: "string option"
  ob_version :: "string option"
  ob_content_digest :: "string option"
  ob_manifest_digest :: "string option"
  ob_installation_mode :: "installation_mode option"
  ob_destination :: "string option"
  ob_fingerprint :: string
  ob_enabled :: "bool option"
  ob_shadowed :: bool
  ob_broken_symlink :: bool
  ob_evidence_status :: string
  ob_evidence_source :: string
  ob_session_effective :: string
  ob_session_reason :: string
  ob_observed_at :: timestamp
  ob_supported :: bool

record observation_diagnostic =
  od_fingerprint :: string
  od_runtime :: string
  od_subject :: string
  od_stage :: string
  od_error_type :: string
  od_message :: string
  od_observed_at :: timestamp

record governance_observation =
  go_observed_at :: timestamp
  go_snapshot_hash :: string
  go_skills :: "observed_skill list"
  go_diagnostics :: "observation_diagnostic list"

definition null_or_str :: "string option \<Rightarrow> jvalue" where
  "null_or_str v = (case v of None \<Rightarrow> VNull | Some s \<Rightarrow> VStr s)"

text \<open>
  The JSON object of an observed skill and of a diagnostic; \<open>tt\<close> prints a time stamp. Only
  \<open>scopeId\<close> is left out when absent, the other options are \<open>null\<close>.
\<close>

definition observed_json :: "(timestamp \<Rightarrow> string) \<Rightarrow> observed_skill \<Rightarrow> (string \<times> jvalue) list" where
  "observed_json tt s =
     [(''logicalIdentity'', VStr (ob_logical_identity s)), (''runtime'', VStr (ob_runtime s)), (''scope'', VStr (layer_as_str (ob_scope s)))]
     @ opt_field ''scopeId'' (ob_scope_id s)
     @ [(''sourceProvenance'', null_or_str (ob_source_provenance s)), (''version'', null_or_str (ob_version s)),
        (''contentDigest'', null_or_str (ob_content_digest s)), (''manifestDigest'', null_or_str (ob_manifest_digest s)),
        (''installationMode'', null_or_str (map_option mode_as_str (ob_installation_mode s))), (''destination'', null_or_str (ob_destination s)),
        (''fingerprint'', VStr (ob_fingerprint s)), (''enabled'', case ob_enabled s of None \<Rightarrow> VNull | Some b \<Rightarrow> VBool b),
        (''shadowed'', VBool (ob_shadowed s)), (''brokenSymlink'', VBool (ob_broken_symlink s)),
        (''evidenceStatus'', VStr (ob_evidence_status s)), (''evidenceSource'', VStr (ob_evidence_source s)),
        (''sessionEffective'', VStr (ob_session_effective s)), (''sessionReason'', VStr (ob_session_reason s)),
        (''observedAt'', VStr (tt (ob_observed_at s))), (''supported'', VBool (ob_supported s))]"

definition diagnostic_json :: "(timestamp \<Rightarrow> string) \<Rightarrow> observation_diagnostic \<Rightarrow> (string \<times> jvalue) list" where
  "diagnostic_json tt d =
     [(''fingerprint'', VStr (od_fingerprint d)), (''runtime'', VStr (od_runtime d)), (''subject'', VStr (od_subject d)),
      (''stage'', VStr (od_stage d)), (''errorType'', VStr (od_error_type d)), (''message'', VStr (od_message d)),
      (''observedAt'', VStr (tt (od_observed_at d)))]"

definition value_without_observed_at :: "(string \<times> jvalue) list \<Rightarrow> jvalue" where
  "value_without_observed_at fs = VObj (filter (\<lambda>p. fst p \<noteq> ''observedAt'') fs)"

definition or_default :: "string option \<Rightarrow> string" where
  "or_default v = (case v of None \<Rightarrow> [] | Some s \<Rightarrow> s)"

definition observed_order :: "observed_skill \<Rightarrow> string \<times> gov_layer \<times> string \<times> string \<times> string" where
  "observed_order s = (ob_runtime s, ob_scope s, or_default (ob_scope_id s), ob_logical_identity s, ob_fingerprint s)"

definition same_observed :: "observed_skill \<Rightarrow> observed_skill \<Rightarrow> bool" where
  "same_observed a b \<longleftrightarrow> ob_runtime a = ob_runtime b \<and> ob_scope a = ob_scope b \<and> ob_scope_id a = ob_scope_id b
     \<and> ob_logical_identity a = ob_logical_identity b \<and> ob_fingerprint a = ob_fingerprint b"

definition finalize_observation ::
  "gov_env \<Rightarrow> (timestamp \<Rightarrow> string) \<Rightarrow> timestamp \<Rightarrow> observed_skill list \<Rightarrow> observation_diagnostic list \<Rightarrow> governance_observation" where
  "finalize_observation env tt observed_at skills0 diagnostics0 =
     (let skills = dedup_by same_observed (sort_key observed_order skills0);
          diagnostics = dedup_by (\<lambda>a b. od_fingerprint a = od_fingerprint b) (sort_key od_fingerprint diagnostics0)
      in \<lparr>go_observed_at = observed_at,
          go_snapshot_hash = canonical_hash env
            (VArr [VArr (map (value_without_observed_at \<circ> observed_json tt) skills),
                   VArr (map (value_without_observed_at \<circ> diagnostic_json tt) diagnostics)]),
          go_skills = skills, go_diagnostics = diagnostics\<rparr>)"

section \<open>Drift\<close>

datatype drift_kind =
    DkMissing | DkExtra | DkVersionMismatch | DkContentMismatch | DkManifestMismatch | DkSourceMismatch
  | DkModeMismatch | DkShadowed | DkBrokenSymlink | DkUnknownEvidence | DkUnsupported | DkEnabledMismatch

text \<open>\<open>{:?}\<close> of a drift kind.\<close>

fun drift_kind_debug :: "drift_kind \<Rightarrow> string" where
  "drift_kind_debug DkMissing = ''Missing''"
| "drift_kind_debug DkExtra = ''Extra''"
| "drift_kind_debug DkVersionMismatch = ''VersionMismatch''"
| "drift_kind_debug DkContentMismatch = ''ContentMismatch''"
| "drift_kind_debug DkManifestMismatch = ''ManifestMismatch''"
| "drift_kind_debug DkSourceMismatch = ''SourceMismatch''"
| "drift_kind_debug DkModeMismatch = ''ModeMismatch''"
| "drift_kind_debug DkShadowed = ''Shadowed''"
| "drift_kind_debug DkBrokenSymlink = ''BrokenSymlink''"
| "drift_kind_debug DkUnknownEvidence = ''UnknownEvidence''"
| "drift_kind_debug DkUnsupported = ''Unsupported''"
| "drift_kind_debug DkEnabledMismatch = ''EnabledMismatch''"

record skill_drift =
  sd_fingerprint :: string
  sd_skill_fingerprint :: string
  sd_kind :: drift_kind
  sd_logical_identity :: string
  sd_runtime :: string
  sd_scope :: gov_layer
  sd_installation_mode :: "installation_mode option"
  sd_risk_policy :: "risk_policy option"
  sd_reason :: string
  sd_expected :: "string option"
  sd_actual :: "string option"

definition bool_text :: "bool \<Rightarrow> string" where
  "bool_text b = (if b then ''true'' else ''false'')"

definition expected_summary :: "drift_kind \<Rightarrow> skill_lock_entry \<Rightarrow> string" where
  "expected_summary k e =
     (case k of
        DkVersionMismatch \<Rightarrow> or_default (le_version e)
      | DkContentMismatch \<Rightarrow> le_content_digest e
      | DkManifestMismatch \<Rightarrow> le_manifest_digest e
      | DkSourceMismatch \<Rightarrow> le_source_provenance e
      | DkModeMismatch \<Rightarrow> mode_as_str (le_installation_mode e)
      | DkEnabledMismatch \<Rightarrow> bool_text (le_enabled e)
      | _ \<Rightarrow> le_expected_fingerprint e)"

definition actual_summary :: "drift_kind \<Rightarrow> observed_skill \<Rightarrow> string" where
  "actual_summary k s =
     (case k of
        DkVersionMismatch \<Rightarrow> or_default (ob_version s)
      | DkContentMismatch \<Rightarrow> or_default (ob_content_digest s)
      | DkManifestMismatch \<Rightarrow> or_default (ob_manifest_digest s)
      | DkSourceMismatch \<Rightarrow> or_default (ob_source_provenance s)
      | DkModeMismatch \<Rightarrow> (case ob_installation_mode s of None \<Rightarrow> ''unknown'' | Some m \<Rightarrow> mode_as_str m)
      | DkEnabledMismatch \<Rightarrow> (case ob_enabled s of None \<Rightarrow> ''unknown'' | Some b \<Rightarrow> bool_text b)
      | _ \<Rightarrow> ob_fingerprint s)"

definition make_drift :: "drift_kind \<Rightarrow> skill_lock_entry \<Rightarrow> observed_skill option \<Rightarrow> string \<Rightarrow> skill_drift" where
  "make_drift k e actual reason =
     (let ex = expected_summary k e;
          ac = map_option (actual_summary k) actual;
          basis = drift_kind_debug k @ ''|'' @ le_target_runtime e @ ''|'' @ layer_as_str (le_scope e) @ ''|'' @ le_logical_identity e
                  @ ''|'' @ ex @ ''|'' @ or_default ac
      in \<lparr>sd_fingerprint = ''sha256:'' @ sha256_hex basis, sd_skill_fingerprint = le_expected_fingerprint e, sd_kind = k,
          sd_logical_identity = le_logical_identity e, sd_runtime = le_target_runtime e, sd_scope = le_scope e,
          sd_installation_mode = Some (le_installation_mode e), sd_risk_policy = Some (le_risk_policy e), sd_reason = reason,
          sd_expected = Some ex, sd_actual = ac\<rparr>)"

fun drift_rank :: "drift_kind \<Rightarrow> nat" where
  "drift_rank DkUnsupported = 0"
| "drift_rank DkUnknownEvidence = 1"
| "drift_rank DkBrokenSymlink = 2"
| "drift_rank DkMissing = 3"
| "drift_rank DkExtra = 4"
| "drift_rank DkSourceMismatch = 5"
| "drift_rank DkVersionMismatch = 6"
| "drift_rank DkContentMismatch = 7"
| "drift_rank DkManifestMismatch = 8"
| "drift_rank DkModeMismatch = 9"
| "drift_rank DkEnabledMismatch = 10"
| "drift_rank DkShadowed = 11"

text \<open>The checks of a lock entry against the skill selected for it, in their order.\<close>

definition entry_drifts :: "skill_lock_entry \<Rightarrow> observed_skill \<Rightarrow> skill_drift list" where
  "entry_drifts e a =
     (let push = (\<lambda>cond k reason. if cond then [make_drift k e (Some a) reason] else [])
      in push (\<not> ob_supported a) DkUnsupported ''runtime has no supported governance contract''
       @ push (ob_evidence_status a \<notin> {''runtime_discovered'', ''session_effective''}) DkUnknownEvidence
           ''current evidence cannot prove runtime or session effectiveness''
       @ push (ob_shadowed a) DkShadowed ''skill is shadowed by a higher-priority search path''
       @ push (ob_broken_symlink a) DkBrokenSymlink ''skill symlink target is unavailable''
       @ push (case ob_version a of None \<Rightarrow> False | Some v \<Rightarrow> le_version e \<noteq> Some v) DkVersionMismatch
           ''resolved version differs from the lockfile''
       @ push (ob_content_digest a = None \<or> ob_manifest_digest a = None) DkUnknownEvidence
           ''content or manifest digest is unavailable; automatic action is blocked''
       @ push (case ob_content_digest a of None \<Rightarrow> False | Some d \<Rightarrow> d \<noteq> le_content_digest e) DkContentMismatch
           ''content digest differs from the lockfile''
       @ push (case ob_manifest_digest a of None \<Rightarrow> False | Some d \<Rightarrow> d \<noteq> le_manifest_digest e) DkManifestMismatch
           ''manifest digest differs from the lockfile''
       @ push (case ob_source_provenance a of None \<Rightarrow> False | Some s \<Rightarrow> lockfile_source_provenance s \<noteq> le_source_provenance e) DkSourceMismatch
           ''source provenance differs from the lockfile''
       @ push (case ob_installation_mode a of None \<Rightarrow> False | Some m \<Rightarrow> m \<noteq> le_installation_mode e) DkModeMismatch
           ''installation mode differs from the lockfile''
       @ push (case ob_enabled a of None \<Rightarrow> False | Some b \<Rightarrow> b \<noteq> le_enabled e) DkEnabledMismatch
           ''enabled state differs from desired state'')"

definition observed_key :: "observed_skill \<Rightarrow> string \<times> gov_layer \<times> string" where
  "observed_key s = (to_ascii_lowercase (ob_runtime s), ob_scope s, normalize_logical_identity (ob_logical_identity s))"

type_synonym unmatched = "(string \<times> gov_layer \<times> string, observed_skill list) btree"

definition group_observed :: "observed_skill list \<Rightarrow> unmatched" where
  "group_observed obs = map (map_prod id (sort_key (\<lambda>s. (ob_fingerprint s, or_default (ob_source_provenance s))))) (group_by observed_key obs)"

text \<open>\<open>iter().position(p)\<close>\<close>

fun position :: "('a \<Rightarrow> bool) \<Rightarrow> 'a list \<Rightarrow> nat option" where
  "position p [] = None"
| "position p (x # xs) = (if p x then Some 0 else map_option Suc (position p xs))"

definition select_candidate :: "skill_lock_entry \<Rightarrow> observed_skill list \<Rightarrow> nat" where
  "select_candidate e cs =
     (case position (\<lambda>a. ob_fingerprint a = le_expected_fingerprint e) cs of
        Some i \<Rightarrow> i
      | None \<Rightarrow>
          (case position (\<lambda>a. ob_content_digest a = Some (le_content_digest e) \<and> ob_manifest_digest a = Some (le_manifest_digest e)) cs of
             Some i \<Rightarrow> i | None \<Rightarrow> 0))"

definition match_entry :: "unmatched \<times> skill_drift list \<Rightarrow> skill_lock_entry \<Rightarrow> unmatched \<times> skill_drift list" where
  "match_entry st e =
     (let key = entry_key e
      in case bt_get (fst st) key of
           None \<Rightarrow> (fst st, snd st @ [make_drift DkMissing e None ''desired skill is not present''])
         | Some cs \<Rightarrow>
             let i = select_candidate e cs; rest = take i cs @ drop (Suc i) cs
             in (if rest = [] then bt_remove key (fst st) else bt_insert key rest (fst st), snd st @ entry_drifts e (cs ! i)))"

definition extra_entry :: "string \<times> gov_layer \<times> string \<Rightarrow> observed_skill \<Rightarrow> skill_lock_entry" where
  "extra_entry key a =
     \<lparr>le_logical_identity = snd (snd key), le_identity_fingerprint = ob_fingerprint a,
      le_source_provenance = (case ob_source_provenance a of None \<Rightarrow> [] | Some s \<Rightarrow> lockfile_source_provenance s),
      le_resolved_revision = None, le_version = None, le_content_digest = [], le_manifest_digest = [],
      le_target_runtime = fst key, le_scope = fst (snd key),
      le_installation_mode = (case ob_installation_mode a of None \<Rightarrow> ImManual | Some m \<Rightarrow> m),
      le_enabled = (case ob_enabled a of None \<Rightarrow> False | Some b \<Rightarrow> b), le_update_policy = UpManual, le_allowed_sources = [],
      le_risk_policy = RpBlocked, le_expected_destination = or_default (ob_destination a), le_expected_fingerprint = ob_fingerprint a\<rparr>"

definition extra_drifts :: "string \<times> gov_layer \<times> string \<Rightarrow> observed_skill \<Rightarrow> skill_drift list" where
  "extra_drifts key a =
     (let e = extra_entry key a
      in [make_drift DkExtra e (Some a) ''observed skill is not present in desired state'']
       @ (if ob_shadowed a then [make_drift DkShadowed e (Some a) ''additional observed skill is shadowed by another candidate''] else []))"

definition raw_drifts :: "observed_skill list \<Rightarrow> skill_lockfile_content \<Rightarrow> skill_drift list" where
  "raw_drifts obs lock =
     (let (unmatched, drift) = foldl match_entry (group_observed obs, []) (lc_entries lock)
      in drift @ concat (map (\<lambda>(key, cs). concat (map (extra_drifts key) cs)) unmatched))"

definition compare_drift :: "observed_skill list \<Rightarrow> skill_lockfile_content \<Rightarrow> skill_drift list" where
  "compare_drift obs lock =
     dedup_by (\<lambda>a b. sd_fingerprint a = sd_fingerprint b)
       (sort_key (\<lambda>d. (sd_runtime d, sd_scope d, sd_logical_identity d, drift_rank (sd_kind d))) (raw_drifts obs lock))"

section \<open>Plans\<close>

datatype plan_action_kind = PkInstall | PkUpdate | PkEnable | PkDisable | PkRemove | PkRelinkCopy | PkLockfileUpdate | PkManual | PkUnsupported

text \<open>The derived order is the order of declaration.\<close>

fun kind_index :: "plan_action_kind \<Rightarrow> nat" where
  "kind_index PkInstall = 0"
| "kind_index PkUpdate = 1"
| "kind_index PkEnable = 2"
| "kind_index PkDisable = 3"
| "kind_index PkRemove = 4"
| "kind_index PkRelinkCopy = 5"
| "kind_index PkLockfileUpdate = 6"
| "kind_index PkManual = 7"
| "kind_index PkUnsupported = 8"

fun action_kind_as_str :: "plan_action_kind \<Rightarrow> string" where
  "action_kind_as_str PkInstall = ''install''"
| "action_kind_as_str PkUpdate = ''update''"
| "action_kind_as_str PkEnable = ''enable''"
| "action_kind_as_str PkDisable = ''disable''"
| "action_kind_as_str PkRemove = ''remove''"
| "action_kind_as_str PkRelinkCopy = ''relink_copy''"
| "action_kind_as_str PkLockfileUpdate = ''lockfile_update''"
| "action_kind_as_str PkManual = ''manual''"
| "action_kind_as_str PkUnsupported = ''unsupported''"

datatype plan_risk = RiskLow | RiskMedium | RiskHigh

fun risk_as_str :: "plan_risk \<Rightarrow> string" where
  "risk_as_str RiskLow = ''low''"
| "risk_as_str RiskMedium = ''medium''"
| "risk_as_str RiskHigh = ''high''"

record plan_action =
  pl_action :: plan_action_kind
  pl_runtime :: string
  pl_scope :: gov_layer
  pl_target :: string
  pl_skill_fingerprint :: string
  pl_before :: string
  pl_after :: string
  pl_risk :: plan_risk
  pl_reason :: string
  pl_evidence :: string
  pl_expected_observation_hash :: string
  pl_expected_config_hash :: string
  pl_expected_lock_hash :: string
  pl_approval_required :: bool
  pl_blocked :: bool

record dry_run_plan_content =
  dp_schema_version :: int
  dp_observation_hash :: string
  dp_desired_config_hash :: string
  dp_lockfile_hash :: string
  dp_actions :: "plan_action list"

record dry_run_plan_preview =
  dv_plan_hash :: string
  dv_dry_run :: bool
  dv_content :: dry_run_plan_content

definition plan_action_json :: "plan_action \<Rightarrow> jvalue" where
  "plan_action_json a = VObj
     [(''action'', VStr (action_kind_as_str (pl_action a))), (''runtime'', VStr (pl_runtime a)), (''scope'', VStr (layer_as_str (pl_scope a))),
      (''target'', VStr (pl_target a)), (''skillFingerprint'', VStr (pl_skill_fingerprint a)), (''before'', VStr (pl_before a)),
      (''after'', VStr (pl_after a)), (''risk'', VStr (risk_as_str (pl_risk a))), (''reason'', VStr (pl_reason a)),
      (''evidence'', VStr (pl_evidence a)), (''expectedObservationHash'', VStr (pl_expected_observation_hash a)),
      (''expectedConfigHash'', VStr (pl_expected_config_hash a)), (''expectedLockHash'', VStr (pl_expected_lock_hash a)),
      (''approvalRequired'', VBool (pl_approval_required a)), (''blocked'', VBool (pl_blocked a))]"

definition plan_content_json :: "dry_run_plan_content \<Rightarrow> jvalue" where
  "plan_content_json c = VObj
     [(''schemaVersion'', VNum (dp_schema_version c)), (''observationHash'', VStr (dp_observation_hash c)),
      (''desiredConfigHash'', VStr (dp_desired_config_hash c)), (''lockfileHash'', VStr (dp_lockfile_hash c)),
      (''actions'', VArr (map plan_action_json (dp_actions c)))]"

text \<open>The first match of \<open>plan_action\<close>: action, risk, approval, blocked.\<close>

definition base_action :: "skill_drift \<Rightarrow> plan_action_kind \<times> plan_risk \<times> bool \<times> bool" where
  "base_action d =
     (case sd_kind d of
        DkMissing \<Rightarrow> (PkInstall, RiskMedium, False, False)
      | DkExtra \<Rightarrow> (PkRemove, RiskHigh, True, False)
      | DkVersionMismatch \<Rightarrow> (PkUpdate, RiskHigh, True, False)
      | DkContentMismatch \<Rightarrow> (PkUpdate, RiskHigh, True, False)
      | DkManifestMismatch \<Rightarrow> (PkUpdate, RiskHigh, True, False)
      | DkSourceMismatch \<Rightarrow> (PkUpdate, RiskHigh, True, False)
      | DkModeMismatch \<Rightarrow> (PkRelinkCopy, RiskHigh, True, False)
      | DkBrokenSymlink \<Rightarrow> (PkRelinkCopy, RiskHigh, True, False)
      | DkEnabledMismatch \<Rightarrow> (if sd_expected d = Some ''false'' then PkDisable else PkEnable, RiskLow, False, False)
      | DkShadowed \<Rightarrow> (PkManual, RiskMedium, False, True)
      | DkUnknownEvidence \<Rightarrow> (PkManual, RiskMedium, False, True)
      | DkUnsupported \<Rightarrow> (PkUnsupported, RiskMedium, False, True))"

definition machine_rule :: "skill_drift \<Rightarrow> plan_action_kind \<times> plan_risk \<times> bool \<times> bool \<Rightarrow> plan_action_kind \<times> plan_risk \<times> bool \<times> bool" where
  "machine_rule d = (\<lambda>(action, risk, approval, blocked).
     if sd_scope d = LyMachine then (action, RiskHigh, True, blocked) else (action, risk, approval, blocked))"

definition mode_rule :: "skill_drift \<Rightarrow> plan_action_kind \<times> plan_risk \<times> bool \<times> bool \<Rightarrow> plan_action_kind \<times> plan_risk \<times> bool \<times> bool" where
  "mode_rule d = (\<lambda>(action, risk, approval, blocked).
     if sd_installation_mode d \<in> {Some ImManual, Some ImNative} then (PkManual, RiskMedium, False, True) else (action, risk, approval, blocked))"

definition policy_rule :: "skill_drift \<Rightarrow> plan_action_kind \<times> plan_risk \<times> bool \<times> bool \<Rightarrow> plan_action_kind \<times> plan_risk \<times> bool \<times> bool" where
  "policy_rule d = (\<lambda>(action, risk, approval, blocked).
     if sd_risk_policy d = Some RpBlocked then (PkManual, risk, False, True)
     else if sd_risk_policy d = Some RpApprovalRequired then (action, RiskHigh, True, blocked)
     else (action, risk, approval, blocked))"

definition make_plan_action :: "skill_drift \<Rightarrow> string \<Rightarrow> string \<Rightarrow> string \<Rightarrow> plan_action" where
  "make_plan_action d oh ch lh =
     (let (action, risk, approval, blocked) = policy_rule d (mode_rule d (machine_rule d (base_action d)))
      in \<lparr>pl_action = action, pl_runtime = sd_runtime d, pl_scope = sd_scope d, pl_target = sd_logical_identity d,
          pl_skill_fingerprint = sd_skill_fingerprint d,
          pl_before = (case sd_actual d of None \<Rightarrow> ''absent'' | Some s \<Rightarrow> s),
          pl_after = (case sd_expected d of None \<Rightarrow> ''absent'' | Some s \<Rightarrow> s),
          pl_risk = risk, pl_reason = sd_reason d,
          pl_evidence = (if sd_kind d \<in> {DkUnknownEvidence, DkUnsupported} then ''insufficient evidence'' else ''inventory/desired/lock comparison''),
          pl_expected_observation_hash = oh, pl_expected_config_hash = ch, pl_expected_lock_hash = lh,
          pl_approval_required = (if blocked then False else approval), pl_blocked = blocked\<rparr>)"

definition drift_target :: "skill_drift \<Rightarrow> string \<times> gov_layer \<times> string" where
  "drift_target d = (sd_runtime d, sd_scope d, sd_logical_identity d)"

definition blocked_targets :: "skill_drift list \<Rightarrow> (string \<times> gov_layer \<times> string, bool) btree" where
  "blocked_targets drift =
     foldl (\<lambda>m d. if sd_kind d = DkUnsupported then bt_insert (drift_target d) True m
                  else if sd_kind d = DkUnknownEvidence then bt_insert (drift_target d) False m else m) [] drift"

definition block_action :: "(string \<times> gov_layer \<times> string, bool) btree \<Rightarrow> plan_action \<Rightarrow> plan_action" where
  "block_action targets a =
     (case bt_get targets (pl_runtime a, pl_scope a, pl_target a) of
        None \<Rightarrow> a
      | Some unsupported \<Rightarrow>
          a\<lparr>pl_action := (if unsupported then PkUnsupported else PkManual), pl_risk := RiskMedium,
            pl_reason := pl_reason a @ ''; automatic action blocked by insufficient runtime/session evidence'',
            pl_evidence := ''insufficient evidence'', pl_approval_required := False, pl_blocked := True\<rparr>)"

definition lockfile_action :: "string \<Rightarrow> string \<Rightarrow> string \<Rightarrow> plan_action" where
  "lockfile_action oh ch lh =
     \<lparr>pl_action = PkLockfileUpdate, pl_runtime = ''governance'', pl_scope = LyWorkspace, pl_target = ''workspace lockfile preview'',
      pl_skill_fingerprint = lh, pl_before = ''previous lock snapshot'', pl_after = lh, pl_risk = RiskLow,
      pl_reason = ''desired state or resolved observation changed'', pl_evidence = ''deterministic lockfile preview'',
      pl_expected_observation_hash = oh, pl_expected_config_hash = ch, pl_expected_lock_hash = lh,
      pl_approval_required = False, pl_blocked = False\<rparr>"

definition build_dry_run_plan :: "gov_env \<Rightarrow> skill_drift list \<Rightarrow> string \<Rightarrow> string \<Rightarrow> string \<Rightarrow> bool \<Rightarrow> dry_run_plan_preview" where
  "build_dry_run_plan env drift oh ch lh lockfile_changed =
     (let targets = blocked_targets drift;
          actions = map (\<lambda>d. block_action targets (make_plan_action d oh ch lh)) drift @ (if lockfile_changed then [lockfile_action oh ch lh] else []);
          content = \<lparr>dp_schema_version = skill_governance_schema_version, dp_observation_hash = oh, dp_desired_config_hash = ch, dp_lockfile_hash = lh,
                     dp_actions = sort_key (\<lambda>a. (pl_runtime a, pl_scope a, pl_target a, kind_index (pl_action a), pl_skill_fingerprint a)) actions\<rparr>
      in \<lparr>dv_plan_hash = canonical_hash env (plan_content_json content), dv_dry_run = True, dv_content = content\<rparr>)"

definition stale_plan_reasons :: "dry_run_plan_content \<Rightarrow> string \<Rightarrow> string \<Rightarrow> string \<Rightarrow> string list" where
  "stale_plan_reasons expected oh ch lh =
     (if dp_observation_hash expected \<noteq> oh then [''observation_hash_changed''] else [])
     @ (if dp_desired_config_hash expected \<noteq> ch then [''desired_config_hash_changed''] else [])
     @ (if dp_lockfile_hash expected \<noteq> lh then [''lockfile_hash_changed''] else [])"

section \<open>The snapshot hash ignores time\<close>

text \<open>
  The snapshot hash of an observation does not depend on when anything was observed: replacing
  the time stamps of all skills and diagnostics, in any way, leaves it unchanged.
\<close>

theorem snapshot_hash_ignores_time:
  "go_snapshot_hash (finalize_observation env tt at' (map (\<lambda>s. s\<lparr>ob_observed_at := f s\<rparr>) ss) (map (\<lambda>d. d\<lparr>od_observed_at := h d\<rparr>) ds))
     = go_snapshot_hash (finalize_observation env tt at ss ds)"
proof -
  let ?f = "\<lambda>s. s\<lparr>ob_observed_at := f s\<rparr>" and ?h = "\<lambda>d. d\<lparr>od_observed_at := h d\<rparr>"
  have "observed_order \<circ> ?f = observed_order" "od_fingerprint \<circ> ?h = od_fingerprint" by (auto simp: observed_order_def)
  then have s: "sort_key observed_order (map ?f ss) = map ?f (sort_key observed_order ss)"
    "sort_key od_fingerprint (map ?h ds) = map ?h (sort_key od_fingerprint ds)" by (simp_all add: sort_key_map)
  have d: "dedup_by same_observed (map ?f xs) = map ?f (dedup_by same_observed xs)" for xs
    by (rule dedup_by_map) (simp add: same_observed_def)
  have e: "dedup_by (\<lambda>a b. od_fingerprint a = od_fingerprint b) (map ?h xs) = map ?h (dedup_by (\<lambda>a b. od_fingerprint a = od_fingerprint b) xs)" for xs
    by (rule dedup_by_map) simp
  have v: "(value_without_observed_at \<circ> observed_json tt) \<circ> ?f = value_without_observed_at \<circ> observed_json tt"
    "(value_without_observed_at \<circ> diagnostic_json tt) \<circ> ?h = value_without_observed_at \<circ> diagnostic_json tt"
    by (auto simp: value_without_observed_at_def observed_json_def diagnostic_json_def opt_field_def)
  show ?thesis by (simp only: finalize_observation_def Let_def s d e governance_observation.simps map_map v)
qed

section \<open>No drift means in sync\<close>

text \<open>What the lockfile promises of the one observed skill that matches an entry.\<close>

definition in_sync :: "skill_lock_entry \<Rightarrow> observed_skill \<Rightarrow> bool" where
  "in_sync e a \<longleftrightarrow> ob_supported a \<and> ob_evidence_status a \<in> {''runtime_discovered'', ''session_effective''}
     \<and> \<not> ob_shadowed a \<and> \<not> ob_broken_symlink a
     \<and> ob_content_digest a = Some (le_content_digest e) \<and> ob_manifest_digest a = Some (le_manifest_digest e)
     \<and> (ob_version a = None \<or> ob_version a = le_version e)
     \<and> (ob_source_provenance a = None \<or> map_option lockfile_source_provenance (ob_source_provenance a) = Some (le_source_provenance e))
     \<and> ob_installation_mode a \<in> {None, Some (le_installation_mode e)} \<and> ob_enabled a \<in> {None, Some (le_enabled e)}"

lemma entry_drifts_Nil: "entry_drifts e a = [] \<longleftrightarrow> in_sync e a"
  unfolding entry_drifts_def in_sync_def Let_def by (auto split: option.splits if_splits)

lemma position_less: "position p xs = Some i \<Longrightarrow> i < length xs"
  by (induction p xs arbitrary: i rule: position.induct) (auto split: if_splits)

lemma select_candidate_less: "cs \<noteq> [] \<Longrightarrow> select_candidate e cs < length cs"
  by (auto simp: select_candidate_def split: option.splits dest: position_less)

lemma match_entry_drift: "\<exists>ds. snd (match_entry st e) = snd st @ ds"
  by (auto simp: match_entry_def Let_def split: option.splits)

lemma match_entries_drift: "snd (foldl match_entry st es) = [] \<Longrightarrow> snd st = []"
proof (induction es arbitrary: st)
  case (Cons e es)
  have "snd (match_entry st e) = []" by (rule Cons.IH) (use Cons.prems in simp)
  then show ?case using match_entry_drift [of st e] by auto
qed simp

definition groups_ok :: "unmatched \<Rightarrow> bool" where
  "groups_ok u \<longleftrightarrow> bt_ok u \<and> (\<forall>k. bt_get u k \<noteq> Some [])"

lemma match_entry_ok: "groups_ok (fst st) \<Longrightarrow> groups_ok (fst (match_entry st e))"
  by (auto simp: groups_ok_def match_entry_def Let_def split: option.splits)

lemma match_entries_ok: "groups_ok (fst st) \<Longrightarrow> groups_ok (fst (foldl match_entry st es))"
  by (induction es arbitrary: st) (simp_all add: match_entry_ok)

lemma groups_empty: "bt_ok u \<Longrightarrow> u = [] \<longleftrightarrow> (\<forall>k. bt_get u k = None)"
  by (auto intro: bt_ext)

lemma singleton_take_drop: "i < length cs \<Longrightarrow> take i cs @ drop (Suc i) cs = [] \<longleftrightarrow> cs = [cs ! i]"
  by (cases cs) (auto simp: nth_Cons' split: if_splits)

lemma match_entries_clean:
  assumes "groups_ok u" "distinct (map entry_key es)"
  shows "foldl match_entry (u, []) es = ([], []) \<longleftrightarrow>
    (\<forall>e \<in> set es. \<exists>a. bt_get u (entry_key e) = Some [a] \<and> in_sync e a) \<and> (\<forall>k. bt_get u k \<noteq> None \<longrightarrow> k \<in> entry_key ` set es)"
  using assms
proof (induction es arbitrary: u)
  case Nil
  then show ?case by (simp add: groups_ok_def groups_empty)
next
  case (Cons e es)
  let ?k = "entry_key e"
  show ?case
  proof (cases "bt_get u ?k")
    case None
    then have "snd (match_entry (u, []) e) \<noteq> []" by (simp add: match_entry_def)
    then have "foldl match_entry (u, []) (e # es) \<noteq> ([], [])" using match_entries_drift [of "match_entry (u, []) e" es] by auto
    with None show ?thesis by auto
  next
    case (Some cs)
    have cs: "cs \<noteq> []" using Cons.prems(1) Some unfolding groups_ok_def by blast
    define i where "i = select_candidate e cs"
    have i: "i < length cs" using cs by (simp add: i_def select_candidate_less)
    define u1 where "u1 = (if take i cs @ drop (Suc i) cs = [] then bt_remove ?k u else bt_insert ?k (take i cs @ drop (Suc i) cs) u)"
    have step: "match_entry (u, []) e = (u1, entry_drifts e (cs ! i))"
      by (simp add: match_entry_def Some i_def u1_def Let_def)
    have ok: "groups_ok u1" using match_entry_ok [of "(u, [])" e] Cons.prems(1) by (simp add: step)
    show ?thesis
    proof (cases "entry_drifts e (cs ! i) = [] \<and> cs = [cs ! i]")
      case True
      then have u1: "u1 = bt_remove ?k u" using singleton_take_drop [OF i] by (simp add: u1_def)
      have ih: "foldl match_entry (u1, []) es = ([], []) \<longleftrightarrow>
          (\<forall>e \<in> set es. \<exists>a. bt_get u1 (entry_key e) = Some [a] \<and> in_sync e a) \<and> (\<forall>k. bt_get u1 k \<noteq> None \<longrightarrow> k \<in> entry_key ` set es)"
        using Cons.prems(2) by (intro Cons.IH [OF ok]) simp
      have k: "?k \<notin> entry_key ` set es" using Cons.prems(2) by simp
      have "\<exists>a. bt_get u ?k = Some [a] \<and> in_sync e a" using True Some by (auto simp: entry_drifts_Nil intro!: exI [of _ "cs ! i"])
      moreover have "bt_get u1 (entry_key e') = bt_get u (entry_key e')" if "e' \<in> set es" for e'
      proof -
        have "entry_key e' \<noteq> ?k" using that k imageI [of e' "set es" entry_key] by metis
        then show ?thesis by (simp add: u1)
      qed
      moreover have "(\<forall>k. bt_get u1 k \<noteq> None \<longrightarrow> k \<in> entry_key ` set es) \<longleftrightarrow> (\<forall>k. bt_get u k \<noteq> None \<longrightarrow> k \<in> entry_key ` set (e # es))"
      proof -
        have g: "bt_get u1 k' \<noteq> None \<longleftrightarrow> k' \<noteq> ?k \<and> bt_get u k' \<noteq> None" for k' by (simp add: u1)
        show ?thesis unfolding g list.set(2) image_insert by blast
      qed
      ultimately show ?thesis using True ih by (simp add: step)
    next
      case False
      have "foldl match_entry (u, []) (e # es) \<noteq> ([], [])"
      proof
        assume f: "foldl match_entry (u, []) (e # es) = ([], [])"
        then have d: "entry_drifts e (cs ! i) = []" using match_entries_drift [of "match_entry (u, []) e" es] by (simp add: step)
        then have "bt_get u1 ?k \<noteq> None" using False singleton_take_drop [OF i] by (simp add: u1_def)
        moreover have "foldl match_entry (u1, []) es = ([], [])" using f d by (simp add: step)
        then have "\<forall>k. bt_get u1 k \<noteq> None \<longrightarrow> k \<in> entry_key ` set es" using Cons.IH [OF ok] Cons.prems(2) by simp
        ultimately have "?k \<in> entry_key ` set es" by blast
        then show False using Cons.prems(2) by simp
      qed
      moreover have "\<not> (\<exists>a. bt_get u ?k = Some [a] \<and> in_sync e a)"
      proof
        assume "\<exists>a. bt_get u ?k = Some [a] \<and> in_sync e a"
        then have "cs = [cs ! 0]" "in_sync e (cs ! 0)" using Some by auto
        moreover have "i = 0" using i \<open>cs = [cs ! 0]\<close> by (metis length_Cons less_Suc0 list.size(3))
        ultimately show False using False by (simp add: entry_drifts_Nil)
      qed
      ultimately show ?thesis by auto
    qed
  qed
qed

lemma group_observed_get:
  "bt_get (group_observed obs) k = (let ys = filter (\<lambda>s. observed_key s = k) obs in if ys = [] then None else Some (sort_key (\<lambda>s. (ob_fingerprint s, or_default (ob_source_provenance s))) ys))"
proof -
  have "bt_get (map (map_prod id f) m) k = map_option f (bt_get m k)" for f :: "observed_skill list \<Rightarrow> observed_skill list" and m :: unmatched
    by (induction m) (auto simp: bt_get_def)
  then show ?thesis by (simp add: group_observed_def group_by_get Let_def)
qed

lemma group_observed_ok: "groups_ok (group_observed obs)"
proof -
  have "map fst (group_observed obs) = map fst (group_by observed_key obs)" by (simp add: group_observed_def)
  then have "bt_ok (group_observed obs)" using group_by_ok [of observed_key obs] by (simp only: bt_ok_def)
  moreover have "sort_key f xs = [] \<longleftrightarrow> xs = []" for f :: "observed_skill \<Rightarrow> string \<times> string" and xs
    by (metis length_0_conv length_sort)
  ultimately show ?thesis by (auto simp: groups_ok_def group_observed_get Let_def)
qed

lemma raw_drifts_Nil:
  "raw_drifts obs lock = [] \<longleftrightarrow> foldl match_entry (group_observed obs, []) (lc_entries lock) = ([], [])"
proof -
  obtain u d where f: "foldl match_entry (group_observed obs, []) (lc_entries lock) = (u, d)" by (cases "foldl match_entry (group_observed obs, []) (lc_entries lock)")
  have ok: "groups_ok u" using match_entries_ok [of "(group_observed obs, [])" "lc_entries lock"] group_observed_ok by (simp add: f)
  have ne: "cs \<noteq> []" if "(k, cs) \<in> set u" for k cs
    using ok that bt_get_iff [of u k cs] unfolding groups_ok_def by blast
  have ex: "concat (map (extra_drifts k) cs) \<noteq> []" if "cs \<noteq> []" for k cs
    using that by (cases cs) (auto simp: extra_drifts_def Let_def)
  have "concat (map (\<lambda>(key, cs). concat (map (extra_drifts key) cs)) u) = [] \<longleftrightarrow> u = []"
  proof (cases u)
    case (Cons p u')
    obtain k cs where "p = (k, cs)" by (cases p)
    with Cons ne [of k cs] ex [of cs k] show ?thesis by simp
  qed simp
  then show ?thesis by (auto simp: raw_drifts_def f)
qed

lemma sort_key_single: "sort_key f xs = [a] \<longleftrightarrow> xs = [a]"
proof
  assume "sort_key f xs = [a]"
  then have "length xs = 1" "a \<in> set xs" by (metis One_nat_def length_Cons length_sort list.size(3), metis list.set_intros(1) set_sort)
  then show "xs = [a]" by (cases xs) auto
qed simp

lemma compare_drift_Nil:
  assumes "distinct (map entry_key (lc_entries lock))"
  shows "compare_drift obs lock = [] \<longleftrightarrow>
    (\<forall>e \<in> set (lc_entries lock). \<exists>a. filter (\<lambda>s. observed_key s = entry_key e) obs = [a] \<and> in_sync e a)
    \<and> (\<forall>s \<in> set obs. observed_key s \<in> entry_key ` set (lc_entries lock))"
proof -
  have key: "bt_get (group_observed obs) k \<noteq> None \<longleftrightarrow> k \<in> observed_key ` set obs" for k
    by (auto simp: group_observed_get Let_def filter_empty_conv)
  have one: "bt_get (group_observed obs) k = Some [a] \<longleftrightarrow> filter (\<lambda>s. observed_key s = k) obs = [a]" for k a
    by (auto simp: group_observed_get Let_def sort_key_single)
  have "compare_drift obs lock = [] \<longleftrightarrow> raw_drifts obs lock = []" by (simp add: compare_drift_def sort_key_Nil_iff)
  also have "\<dots> \<longleftrightarrow> (\<forall>e \<in> set (lc_entries lock). \<exists>a. bt_get (group_observed obs) (entry_key e) = Some [a] \<and> in_sync e a)
      \<and> (\<forall>k. bt_get (group_observed obs) k \<noteq> None \<longrightarrow> k \<in> entry_key ` set (lc_entries lock))"
    unfolding raw_drifts_Nil by (rule match_entries_clean [OF group_observed_ok assms])
  finally show ?thesis unfolding one key by blast
qed

text \<open>
  C17. Comparing observed skills with the lockfile of a resolved desired state finds no drift exactly
  when the machine is in sync with it: every entry has exactly one observed skill with its key,
  supported, backed by run-time evidence, not shadowed or broken, with the digests of the entry and
  nothing observed that contradicts it; and nothing else is observed.
\<close>

theorem no_drift_iff_in_sync:
  assumes "resolve_effective_desired env ut ps = Inr st" "lock = lp_content (build_lockfile_preview env st oh at)"
  shows "compare_drift obs lock = [] \<longleftrightarrow>
    (\<forall>e \<in> set (lc_entries lock). \<exists>a. filter (\<lambda>s. observed_key s = entry_key e) obs = [a] \<and> in_sync e a)
    \<and> (\<forall>s \<in> set obs. observed_key s \<in> entry_key ` set (lc_entries lock))"
  unfolding assms(2) by (rule compare_drift_Nil [OF lockfile_keys_distinct [OF assms(1)]])

theorem no_drift_iff_in_sync_witness:
  "\<exists>st. resolve_effective_desired wit_env (\<lambda>_. []) [wit_bound] = Inr st
     \<and> (compare_drift [] (lp_content (build_lockfile_preview wit_env st [] 0)) = [] \<longleftrightarrow>
         (\<forall>e. e \<notin> set (lc_entries (lp_content (build_lockfile_preview wit_env st [] 0)))))"
proof -
  have v: "\<forall>p \<in> set [wit_bound]. validate_profile_document wit_env (bp_document p) = Inr ()" by code_simp
  obtain st where st: "resolve_effective_desired wit_env (\<lambda>_. []) [wit_bound] = Inr st"
    using v by (rule resolve_result [where ut = "\<lambda>_. []"]) blast
  show ?thesis using no_drift_iff_in_sync [OF st refl, of "[]" "[]" 0] st by auto
qed

section \<open>What a plan may do\<close>

definition gated :: "plan_action \<Rightarrow> bool" where
  "gated a \<longleftrightarrow> (pl_blocked a \<longleftrightarrow> pl_action a \<in> {PkManual, PkUnsupported}) \<and> (pl_blocked a \<longrightarrow> \<not> pl_approval_required a)
     \<and> (\<not> pl_blocked a \<longrightarrow> (pl_approval_required a \<longleftrightarrow> pl_risk a = RiskHigh))
     \<and> (\<not> pl_blocked a \<and> pl_scope a = LyMachine \<longrightarrow> pl_risk a = RiskHigh)"

lemma make_plan_action_gated: "gated (make_plan_action d oh ch lh)"
  by (cases "sd_kind d") (auto simp: gated_def make_plan_action_def base_action_def machine_rule_def mode_rule_def policy_rule_def)

lemma block_action_gated: "gated a \<Longrightarrow> gated (block_action m a)"
  by (auto simp: gated_def block_action_def split: option.splits)

lemma lockfile_action_gated: "gated (lockfile_action oh ch lh)"
  by (simp add: gated_def lockfile_action_def)

lemma blocked_targets_get:
  "d \<in> set drift \<Longrightarrow> sd_kind d \<in> {DkUnknownEvidence, DkUnsupported} \<Longrightarrow> bt_get (blocked_targets drift) (drift_target d) \<noteq> None"
proof (induction drift rule: rev_induct)
  case (snoc x drift)
  then show ?case by (cases "d = x") (auto simp: blocked_targets_def)
qed simp

lemma make_plan_action_target [simp]:
  "pl_runtime (make_plan_action d oh ch lh) = sd_runtime d" "pl_scope (make_plan_action d oh ch lh) = sd_scope d"
  "pl_target (make_plan_action d oh ch lh) = sd_logical_identity d"
  by (simp_all add: make_plan_action_def split: prod.splits)

lemma block_action_target [simp]:
  "pl_runtime (block_action m a) = pl_runtime a" "pl_scope (block_action m a) = pl_scope a" "pl_target (block_action m a) = pl_target a"
  by (simp_all add: block_action_def split: option.splits)

definition plan_actions :: "gov_env \<Rightarrow> skill_drift list \<Rightarrow> string \<Rightarrow> string \<Rightarrow> string \<Rightarrow> bool \<Rightarrow> plan_action list" where
  "plan_actions env drift oh ch lh changed = dp_actions (dv_content (build_dry_run_plan env drift oh ch lh changed))"

lemma plan_actions_set:
  "set (plan_actions env drift oh ch lh changed) = (\<lambda>d. block_action (blocked_targets drift) (make_plan_action d oh ch lh)) ` set drift
     \<union> (if changed then {lockfile_action oh ch lh} else {})"
  by (simp add: plan_actions_def build_dry_run_plan_def Let_def)

lemma make_plan_action_kind: "pl_action (make_plan_action d oh ch lh) \<noteq> PkLockfileUpdate"
  by (cases "sd_kind d") (auto simp: make_plan_action_def base_action_def machine_rule_def mode_rule_def policy_rule_def)

lemma block_action_kind: "pl_action a \<noteq> PkLockfileUpdate \<Longrightarrow> pl_action (block_action targets a) \<noteq> PkLockfileUpdate"
  by (simp add: block_action_def split: option.split)

text \<open>
  C18. Every action of a dry-run plan is gated: it is blocked exactly when it is manual or unsupported,
  a blocked action asks for no approval, an action that can run asks for approval exactly when its
  risk is high, and an action that can run on the machine scope has high risk. When the evidence for a
  target is missing or the target unsupported, every action on it is blocked; the one action outside
  this rule is the low-risk preview of the workspace lockfile, which a plan has exactly when the
  lockfile changed and which touches no skill.
\<close>

theorem plan_actions_gated:
  "(\<forall>a. a \<in> set (plan_actions env drift oh ch lh changed) \<longrightarrow> gated a)
   \<and> (\<forall>d a. d \<in> set drift \<and> sd_kind d \<in> {DkUnknownEvidence, DkUnsupported} \<and> a \<in> set (plan_actions env drift oh ch lh changed)
        \<and> pl_action a \<noteq> PkLockfileUpdate \<and> (pl_runtime a, pl_scope a, pl_target a) = drift_target d \<longrightarrow> pl_blocked a)
   \<and> (\<forall>a. a \<in> set (plan_actions env drift oh ch lh changed) \<and> pl_action a = PkLockfileUpdate \<longleftrightarrow> changed \<and> a = lockfile_action oh ch lh)"
proof (intro conjI allI impI)
  show "gated a" if "a \<in> set (plan_actions env drift oh ch lh changed)" for a
    using that by (auto simp: plan_actions_set block_action_gated make_plan_action_gated lockfile_action_gated split: if_splits)
  show "a \<in> set (plan_actions env drift oh ch lh changed) \<and> pl_action a = PkLockfileUpdate \<longleftrightarrow> changed \<and> a = lockfile_action oh ch lh" for a
    using block_action_kind [OF make_plan_action_kind] by (auto simp: plan_actions_set lockfile_action_def split: if_splits)
  fix d a
  assume h: "d \<in> set drift \<and> sd_kind d \<in> {DkUnknownEvidence, DkUnsupported} \<and> a \<in> set (plan_actions env drift oh ch lh changed)
        \<and> pl_action a \<noteq> PkLockfileUpdate \<and> (pl_runtime a, pl_scope a, pl_target a) = drift_target d"
  then obtain x where x: "a = block_action (blocked_targets drift) x"
    by (auto simp: plan_actions_set lockfile_action_def split: if_splits)
  have "bt_get (blocked_targets drift) (pl_runtime x, pl_scope x, pl_target x) \<noteq> None"
    using blocked_targets_get [of d drift] h by (simp add: x)
  then show "pl_blocked a" by (auto simp: x block_action_def)
qed

definition wit_unknown :: skill_drift where
  "wit_unknown = \<lparr>sd_fingerprint = ''f'', sd_skill_fingerprint = ''s'', sd_kind = DkUnknownEvidence, sd_logical_identity = ''reviewer'',
     sd_runtime = ''cursor'', sd_scope = LyWorkspace, sd_installation_mode = Some ImCopy, sd_risk_policy = Some RpAllowlisted,
     sd_reason = ''unknown'', sd_expected = Some ''expected'', sd_actual = None\<rparr>"

definition wit_missing :: skill_drift where
  "wit_missing = wit_unknown\<lparr>sd_kind := DkContentMismatch\<rparr>"

theorem plan_actions_gated_witness:
  "pl_blocked (block_action (blocked_targets [wit_unknown, wit_missing]) (make_plan_action wit_missing ''o'' ''c'' ''l''))"
proof -
  let ?a = "block_action (blocked_targets [wit_unknown, wit_missing]) (make_plan_action wit_missing ''o'' ''c'' ''l'')"
  have "?a \<in> set (plan_actions wit_env [wit_unknown, wit_missing] ''o'' ''c'' ''l'' False)" by (simp add: plan_actions_set)
  moreover have "pl_action ?a \<noteq> PkLockfileUpdate" by code_simp
  moreover have "(pl_runtime ?a, pl_scope ?a, pl_target ?a) = drift_target wit_unknown" by code_simp
  moreover have "wit_unknown \<in> set [wit_unknown, wit_missing] \<and> sd_kind wit_unknown \<in> {DkUnknownEvidence, DkUnsupported}" by (simp add: wit_unknown_def)
  ultimately show ?thesis using plan_actions_gated [of wit_env "[wit_unknown, wit_missing]" "''o''" "''c''" "''l''" False] by blast
qed

section \<open>Plans made from a comparison never remove\<close>

definition extra_blocked :: "skill_drift \<Rightarrow> bool" where
  "extra_blocked d \<longleftrightarrow> (sd_kind d = DkExtra \<longrightarrow> sd_risk_policy d = Some RpBlocked)"

lemma make_drift_kind [simp]: "sd_kind (make_drift k e a r) = k"
  by (simp add: make_drift_def Let_def)

lemma extra_blocked_kind [simp]: "k \<noteq> DkExtra \<Longrightarrow> extra_blocked (make_drift k e a r)"
  by (simp add: extra_blocked_def)

lemma in_set_if: "d \<in> set (if c then [x] else []) \<longleftrightarrow> c \<and> d = x"
  by (cases c) simp_all

lemma entry_drifts_kind: "d \<in> set (entry_drifts e a) \<Longrightarrow> extra_blocked d"
proof -
  have "\<exists>k r. d = make_drift k e (Some a) r \<and> k \<noteq> DkExtra" if "d \<in> set (entry_drifts e a)"
    using that unfolding entry_drifts_def Let_def set_append Un_iff in_set_if by blast
  then show "d \<in> set (entry_drifts e a) \<Longrightarrow> extra_blocked d" by auto
qed

lemma match_entry_extra: "list_all extra_blocked (snd st) \<Longrightarrow> list_all extra_blocked (snd (match_entry st e))"
  using entry_drifts_kind by (auto simp: match_entry_def list_all_iff Let_def split: option.splits)

lemma match_entries_extra: "list_all extra_blocked (snd st) \<Longrightarrow> list_all extra_blocked (snd (foldl match_entry st es))"
  by (induction es arbitrary: st) (simp_all add: match_entry_extra)

lemma extra_drifts_blocked: "d \<in> set (extra_drifts key a) \<Longrightarrow> extra_blocked d"
  by (auto simp: extra_drifts_def extra_blocked_def make_drift_def extra_entry_def Let_def split: if_splits)

lemma compare_drift_extra: "d \<in> set (compare_drift obs lock) \<Longrightarrow> extra_blocked d"
proof -
  assume "d \<in> set (compare_drift obs lock)"
  then have "d \<in> set (raw_drifts obs lock)" unfolding compare_drift_def using dedup_by_subset by fastforce
  moreover have "list_all extra_blocked (snd (foldl match_entry (group_observed obs, []) (lc_entries lock)))"
    by (rule match_entries_extra) simp
  ultimately show ?thesis
    using extra_drifts_blocked
    by (cases "foldl match_entry (group_observed obs, []) (lc_entries lock)") (auto simp: raw_drifts_def list_all_iff)
qed

lemma remove_only_extra: "pl_action (make_plan_action d oh ch lh) = PkRemove \<Longrightarrow> sd_kind d = DkExtra \<and> sd_risk_policy d \<noteq> Some RpBlocked"
  by (cases "sd_kind d") (auto simp: make_plan_action_def base_action_def machine_rule_def mode_rule_def policy_rule_def split: if_splits)

text \<open>
  A plan made from a comparison never contains an action that removes a skill: the comparison
  marks every extra skill with the blocked policy, so its action is manual and blocked.
\<close>

theorem plan_never_removes:
  "a \<in> set (plan_actions env (compare_drift obs lock) oh ch lh changed) \<Longrightarrow> pl_action a \<noteq> PkRemove"
  using compare_drift_extra remove_only_extra
  by (fastforce simp: plan_actions_set lockfile_action_def block_action_def extra_blocked_def split: if_splits option.splits)

theorem plan_never_removes_witness:
  "lockfile_action ''o'' ''c'' ''l'' \<in> set (plan_actions wit_env (compare_drift [] \<lparr>lc_schema_version = 1, lc_observation_hash = [], lc_desired_config_hash = [], lc_entries = []\<rparr>) ''o'' ''c'' ''l'' True)
    \<and> pl_action (lockfile_action ''o'' ''c'' ''l'') \<noteq> PkRemove"
proof -
  have "lockfile_action ''o'' ''c'' ''l'' \<in> set (plan_actions wit_env (compare_drift [] \<lparr>lc_schema_version = 1, lc_observation_hash = [], lc_desired_config_hash = [], lc_entries = []\<rparr>) ''o'' ''c'' ''l'' True)"
    by (simp add: plan_actions_set)
  then show ?thesis using plan_never_removes by blast
qed

end
