(* ===== verification/McpTypes.thy ===== *)
theory McpTypes
  imports Json RustStr
begin

text \<open>
  The data of the governance of MCP servers (\<open>crates/cocli-driver-core/src/mcp.rs\<close> and
  \<open>mcp_governance.rs\<close>): what was observed, what is wanted, and plans. With each type that is hashed
  comes its derived \<open>Serialize\<close> instance as a JSON object: camel-case keys, options marked
  \<open>skip_serializing_if\<close> left out when absent. Versions and counts are unbounded.
\<close>

section \<open>Observed state\<close>

datatype mcp_transport = Stdio | Sse | StreamableHttp | Http | UnknownTransport

fun transport_as_str :: "mcp_transport \<Rightarrow> string" where
  "transport_as_str Stdio = ''stdio''"
| "transport_as_str Sse = ''sse''"
| "transport_as_str StreamableHttp = ''streamableHttp''"
| "transport_as_str Http = ''http''"
| "transport_as_str UnknownTransport = ''unknown''"

record mcp_canonical_definition =
  cd_transport :: mcp_transport
  cd_command :: "string option"
  cd_args :: "string list"
  cd_endpoint :: "string option"

definition mcp_canonical_definition_fields :: "mcp_canonical_definition \<Rightarrow> (string \<times> jvalue) list" where
  "mcp_canonical_definition_fields r =
     [(''transport'', VStr (transport_as_str (cd_transport r)))]
     @ opt_field ''command'' (cd_command r)
     @ (if cd_args r = [] then [] else [(''args'', VArr (map VStr (cd_args r)))])
     @ opt_field ''endpoint'' (cd_endpoint r)"

definition mcp_canonical_definition_json :: "mcp_canonical_definition \<Rightarrow> jvalue" where
  "mcp_canonical_definition_json r = jobj (mcp_canonical_definition_fields r)"

record mcp_evidence =
  ev_source :: string
  ev_detail :: string
  ev_source_path :: "string option"
  ev_proves_runtime_loaded :: bool
  ev_proves_current_session_visibility :: bool

definition mcp_evidence_fields :: "mcp_evidence \<Rightarrow> (string \<times> jvalue) list" where
  "mcp_evidence_fields r =
     [(''source'', VStr (ev_source r)), (''detail'', VStr (ev_detail r))]
     @ opt_field ''sourcePath'' (ev_source_path r)
     @ [(''provesRuntimeLoaded'', VBool (ev_proves_runtime_loaded r)), (''provesCurrentSessionVisibility'', VBool (ev_proves_current_session_visibility r))]"

definition mcp_evidence_json :: "mcp_evidence \<Rightarrow> jvalue" where
  "mcp_evidence_json r = jobj (mcp_evidence_fields r)"

record mcp_secret_ref =
  sr_location :: string
  sr_kind :: string
  sr_reference :: string

definition mcp_secret_ref_fields :: "mcp_secret_ref \<Rightarrow> (string \<times> jvalue) list" where
  "mcp_secret_ref_fields r =
     [(''location'', VStr (sr_location r)), (''kind'', VStr (sr_kind r)), (''reference'', VStr (sr_reference r))]"

definition mcp_secret_ref_json :: "mcp_secret_ref \<Rightarrow> jvalue" where
  "mcp_secret_ref_json r = jobj (mcp_secret_ref_fields r)"

record mcp_server =
  ms_id :: string
  ms_canonical_name :: string
  ms_definition :: mcp_canonical_definition
  ms_endpoint_fingerprint :: string
  ms_aliases :: "string list"
  ms_provenance :: "mcp_evidence list"
  ms_secret_refs :: "mcp_secret_ref list"

datatype mcp_startup_state = NotAttempted | Starting | Ready | FailedStartup | UnknownStartup

fun startup_as_str :: "mcp_startup_state \<Rightarrow> string" where
  "startup_as_str NotAttempted = ''not_attempted''"
| "startup_as_str Starting = ''starting''"
| "startup_as_str Ready = ''ready''"
| "startup_as_str FailedStartup = ''failed''"
| "startup_as_str UnknownStartup = ''unknown''"

record observed_mcp_instance =
  oi_runtime :: string
  oi_server_id :: string
  oi_alias :: string
  oi_source_path :: "string option"
  oi_discoverable :: bool
  oi_configured :: bool
  oi_loaded :: "bool option"
  oi_enabled :: "bool option"
  oi_approved :: "bool option"
  oi_authenticated :: "bool option"
  oi_healthy :: "bool option"
  oi_startup :: "mcp_startup_state option"
  oi_current_session_visible :: "bool option"
  oi_invoked :: "bool option"
  oi_tool_count :: "nat option"
  oi_schema_hash :: "string option"
  oi_evidence :: "mcp_evidence list"
  oi_observed_at :: string

datatype mcp_diagnostic_severity = SevInfo | SevWarning | SevError

fun severity_as_str :: "mcp_diagnostic_severity \<Rightarrow> string" where
  "severity_as_str SevInfo = ''info''"
| "severity_as_str SevWarning = ''warning''"
| "severity_as_str SevError = ''error''"

record mcp_diagnostic =
  dg_code :: string
  dg_severity :: mcp_diagnostic_severity
  dg_runtime :: string
  dg_server_id :: "string option"
  dg_message :: string
  dg_evidence :: "mcp_evidence list"
  dg_observed_at :: string

record mcp_binding =
  mb_server_id :: string
  mb_runtime :: string
  mb_agent_id :: "string option"
  mb_workspace :: "string option"
  mb_profile :: "string option"
  mb_desired_enabled :: "bool option"
  mb_policy :: "string option"

record mcp_inventory =
  mi_servers :: "mcp_server list"
  mi_bindings :: "mcp_binding list"
  mi_observations :: "observed_mcp_instance list"
  mi_diagnostics :: "mcp_diagnostic list"
  mi_observed_at :: string

section \<open>Desired state\<close>

datatype mcp_approval_mode = ManualApproval | PerTool | PreApproved

fun approval_as_str :: "mcp_approval_mode \<Rightarrow> string" where
  "approval_as_str ManualApproval = ''manual''"
| "approval_as_str PerTool = ''per_tool''"
| "approval_as_str PreApproved = ''pre_approved''"

datatype mcp_risk_level = LowRisk | MediumRisk | HighRisk | CriticalRisk

fun risk_as_str :: "mcp_risk_level \<Rightarrow> string" where
  "risk_as_str LowRisk = ''low''"
| "risk_as_str MediumRisk = ''medium''"
| "risk_as_str HighRisk = ''high''"
| "risk_as_str CriticalRisk = ''critical''"

datatype mcp_binding_target_type = TMachine | TWorkspace | TAgent

fun precedence_label :: "mcp_binding_target_type \<Rightarrow> string" where
  "precedence_label TMachine = ''machine''"
| "precedence_label TWorkspace = ''workspace''"
| "precedence_label TAgent = ''agent''"

record mcp_binding_target =
  bt_target_type :: mcp_binding_target_type
  bt_target_id :: string

definition mcp_binding_target_fields :: "mcp_binding_target \<Rightarrow> (string \<times> jvalue) list" where
  "mcp_binding_target_fields r =
     [(''targetType'', VStr (precedence_label (bt_target_type r))), (''targetId'', VStr (bt_target_id r))]"

definition mcp_binding_target_json :: "mcp_binding_target \<Rightarrow> jvalue" where
  "mcp_binding_target_json r = jobj (mcp_binding_target_fields r)"

record mcp_desired_target =
  dt_machine_id :: string
  dt_workspace_id :: "string option"
  dt_agent_id :: "string option"

definition mcp_desired_target_fields :: "mcp_desired_target \<Rightarrow> (string \<times> jvalue) list" where
  "mcp_desired_target_fields r =
     [(''machineId'', VStr (dt_machine_id r))]
     @ opt_field ''workspaceId'' (dt_workspace_id r)
     @ opt_field ''agentId'' (dt_agent_id r)"

definition mcp_desired_target_json :: "mcp_desired_target \<Rightarrow> jvalue" where
  "mcp_desired_target_json r = jobj (mcp_desired_target_fields r)"

record mcp_desired_server =
  md_server_id :: string
  md_runtime :: string
  md_alias :: string
  md_definition :: "mcp_canonical_definition option"
  md_desired_enabled :: bool
  md_allow_tools :: "string list"
  md_deny_tools :: "string list"
  md_approval_mode :: mcp_approval_mode
  md_risk_override :: "mcp_risk_level option"
  md_secret_refs :: "mcp_secret_ref list"

definition mcp_desired_server_fields :: "mcp_desired_server \<Rightarrow> (string \<times> jvalue) list" where
  "mcp_desired_server_fields r =
     [(''serverId'', VStr (md_server_id r)), (''runtime'', VStr (md_runtime r)), (''alias'', VStr (md_alias r))]
     @ opt_value ''definition'' (\<lambda>x. mcp_canonical_definition_json (x)) (md_definition r)
     @ [(''desiredEnabled'', VBool (md_desired_enabled r)), (''allowTools'', VArr (map VStr (md_allow_tools r))), (''denyTools'', VArr (map VStr (md_deny_tools r))), (''approvalMode'', VStr (approval_as_str (md_approval_mode r)))]
     @ opt_value ''riskOverride'' (\<lambda>x. VStr (risk_as_str (x))) (md_risk_override r)
     @ [(''secretRefs'', VArr (map mcp_secret_ref_json (md_secret_refs r)))]"

definition mcp_desired_server_json :: "mcp_desired_server \<Rightarrow> jvalue" where
  "mcp_desired_server_json r = jobj (mcp_desired_server_fields r)"

record mcp_profile =
  mp_id :: string
  mp_name :: string
  mp_description :: "string option"
  mp_version :: int
  mp_servers :: "mcp_desired_server list"
  mp_created_at :: string
  mp_updated_at :: string

record mcp_profile_binding =
  pb_id :: string
  pb_profile_id :: string
  pb_target :: mcp_binding_target
  pb_version :: int
  pb_created_at :: string
  pb_updated_at :: string

record mcp_effective_server =
  me_desired :: mcp_desired_server
  me_source_profile_ids :: "string list"
  me_source_profile_names :: "string list"
  me_inherited_from :: mcp_binding_target_type
  me_high_risk_context :: bool

definition mcp_effective_server_fields :: "mcp_effective_server \<Rightarrow> (string \<times> jvalue) list" where
  "mcp_effective_server_fields r =
     mcp_desired_server_fields (me_desired r)
     @ [(''sourceProfileIds'', VArr (map VStr (me_source_profile_ids r))), (''sourceProfileNames'', VArr (map VStr (me_source_profile_names r))), (''inheritedFrom'', VStr (precedence_label (me_inherited_from r))), (''highRiskContext'', VBool (me_high_risk_context r))]"

definition mcp_effective_server_json :: "mcp_effective_server \<Rightarrow> jvalue" where
  "mcp_effective_server_json r = jobj (mcp_effective_server_fields r)"

record mcp_profile_conflict =
  mc_runtime :: string
  mc_server_id :: string
  mc_precedence :: mcp_binding_target_type
  mc_profile_ids :: "string list"
  mc_reason :: string

definition mcp_profile_conflict_fields :: "mcp_profile_conflict \<Rightarrow> (string \<times> jvalue) list" where
  "mcp_profile_conflict_fields r =
     [(''runtime'', VStr (mc_runtime r)), (''serverId'', VStr (mc_server_id r)), (''precedence'', VStr (precedence_label (mc_precedence r))), (''profileIds'', VArr (map VStr (mc_profile_ids r))), (''reason'', VStr (mc_reason r))]"

definition mcp_profile_conflict_json :: "mcp_profile_conflict \<Rightarrow> jvalue" where
  "mcp_profile_conflict_json r = jobj (mcp_profile_conflict_fields r)"

record mcp_profile_resolution =
  mr_profile_id :: string
  mr_profile_name :: string
  mr_binding_id :: string
  mr_target :: mcp_binding_target
  mr_applied :: bool
  mr_reason :: string

definition mcp_profile_resolution_fields :: "mcp_profile_resolution \<Rightarrow> (string \<times> jvalue) list" where
  "mcp_profile_resolution_fields r =
     [(''profileId'', VStr (mr_profile_id r)), (''profileName'', VStr (mr_profile_name r)), (''bindingId'', VStr (mr_binding_id r)), (''target'', mcp_binding_target_json (mr_target r)), (''applied'', VBool (mr_applied r)), (''reason'', VStr (mr_reason r))]"

definition mcp_profile_resolution_json :: "mcp_profile_resolution \<Rightarrow> jvalue" where
  "mcp_profile_resolution_json r = jobj (mcp_profile_resolution_fields r)"

record mcp_effective_desired_state =
  st_target :: mcp_desired_target
  st_servers :: "mcp_effective_server list"
  st_conflicts :: "mcp_profile_conflict list"
  st_resolution :: "mcp_profile_resolution list"

definition mcp_effective_desired_state_fields :: "mcp_effective_desired_state \<Rightarrow> (string \<times> jvalue) list" where
  "mcp_effective_desired_state_fields r =
     [(''target'', mcp_desired_target_json (st_target r)), (''servers'', VArr (map mcp_effective_server_json (st_servers r))), (''conflicts'', VArr (map mcp_profile_conflict_json (st_conflicts r))), (''resolution'', VArr (map mcp_profile_resolution_json (st_resolution r)))]"

definition mcp_effective_desired_state_json :: "mcp_effective_desired_state \<Rightarrow> jvalue" where
  "mcp_effective_desired_state_json r = jobj (mcp_effective_desired_state_fields r)"

section \<open>Plans and capabilities\<close>

datatype mcp_plan_action_kind = AddConfigure | Enable | Disable | Update | Remove | ApprovalRequired | AuthenticationRequired | ManualUnsupported

fun plan_kind_as_str :: "mcp_plan_action_kind \<Rightarrow> string" where
  "plan_kind_as_str AddConfigure = ''add_configure''"
| "plan_kind_as_str Enable = ''enable''"
| "plan_kind_as_str Disable = ''disable''"
| "plan_kind_as_str Update = ''update''"
| "plan_kind_as_str Remove = ''remove''"
| "plan_kind_as_str ApprovalRequired = ''approval_required''"
| "plan_kind_as_str AuthenticationRequired = ''authentication_required''"
| "plan_kind_as_str ManualUnsupported = ''manual_unsupported''"

record mcp_state_summary =
  ss_configured :: "bool option"
  ss_enabled :: "bool option"
  ss_endpoint_fingerprint :: "string option"
  ss_allow_tools :: "string list"
  ss_deny_tools :: "string list"
  ss_approval_mode :: "mcp_approval_mode option"
  ss_secret_ref_count :: nat

definition mcp_state_summary_fields :: "mcp_state_summary \<Rightarrow> (string \<times> jvalue) list" where
  "mcp_state_summary_fields r =
     opt_value ''configured'' (\<lambda>x. VBool (x)) (ss_configured r)
     @ opt_value ''enabled'' (\<lambda>x. VBool (x)) (ss_enabled r)
     @ opt_field ''endpointFingerprint'' (ss_endpoint_fingerprint r)
     @ (if ss_allow_tools r = [] then [] else [(''allowTools'', VArr (map VStr (ss_allow_tools r)))])
     @ (if ss_deny_tools r = [] then [] else [(''denyTools'', VArr (map VStr (ss_deny_tools r)))])
     @ opt_value ''approvalMode'' (\<lambda>x. VStr (approval_as_str (x))) (ss_approval_mode r)
     @ [(''secretRefCount'', VNum (int (ss_secret_ref_count r)))]"

definition mcp_state_summary_json :: "mcp_state_summary \<Rightarrow> jvalue" where
  "mcp_state_summary_json r = jobj (mcp_state_summary_fields r)"

record mcp_plan_action =
  pa_kind :: mcp_plan_action_kind
  pa_runtime :: string
  pa_scope :: string
  pa_target :: string
  pa_server_id :: string
  pa_server_fingerprint :: string
  pa_before :: mcp_state_summary
  pa_after :: mcp_state_summary
  pa_risk :: mcp_risk_level
  pa_reason :: string
  pa_evidence :: "mcp_evidence list"
  pa_expected_source_hash :: "string option"
  pa_expected_schema_hash :: "string option"
  pa_blocked :: bool

definition mcp_plan_action_fields :: "mcp_plan_action \<Rightarrow> (string \<times> jvalue) list" where
  "mcp_plan_action_fields r =
     [(''kind'', VStr (plan_kind_as_str (pa_kind r))), (''runtime'', VStr (pa_runtime r)), (''scope'', VStr (pa_scope r)), (''target'', VStr (pa_target r)), (''serverId'', VStr (pa_server_id r)), (''serverFingerprint'', VStr (pa_server_fingerprint r)), (''before'', mcp_state_summary_json (pa_before r)), (''after'', mcp_state_summary_json (pa_after r)), (''risk'', VStr (risk_as_str (pa_risk r))), (''reason'', VStr (pa_reason r)), (''evidence'', VArr (map mcp_evidence_json (pa_evidence r)))]
     @ opt_field ''expectedSourceHash'' (pa_expected_source_hash r)
     @ opt_field ''expectedSchemaHash'' (pa_expected_schema_hash r)
     @ [(''blocked'', VBool (pa_blocked r))]"

definition mcp_plan_action_json :: "mcp_plan_action \<Rightarrow> jvalue" where
  "mcp_plan_action_json r = jobj (mcp_plan_action_fields r)"

datatype mcp_capability_support = Supported | ReadOnly | Unsupported | UnknownSupport

fun support_as_str :: "mcp_capability_support \<Rightarrow> string" where
  "support_as_str Supported = ''supported''"
| "support_as_str ReadOnly = ''read_only''"
| "support_as_str Unsupported = ''unsupported''"
| "support_as_str UnknownSupport = ''unknown''"

datatype mcp_capability_operation = OpReadDiscover | OpAddConfigure | OpEnableDisable | OpRemove | OpSecretReference | OpReload | OpVerify | OpRollback

fun operation_as_str :: "mcp_capability_operation \<Rightarrow> string" where
  "operation_as_str OpReadDiscover = ''read_discover''"
| "operation_as_str OpAddConfigure = ''add_configure''"
| "operation_as_str OpEnableDisable = ''enable_disable''"
| "operation_as_str OpRemove = ''remove''"
| "operation_as_str OpSecretReference = ''secret_reference''"
| "operation_as_str OpReload = ''reload''"
| "operation_as_str OpVerify = ''verify''"
| "operation_as_str OpRollback = ''rollback''"

record mcp_capability_detail =
  cy_support :: mcp_capability_support
  cy_reason :: string
  cy_evidence :: "mcp_evidence list"

definition mcp_capability_detail_fields :: "mcp_capability_detail \<Rightarrow> (string \<times> jvalue) list" where
  "mcp_capability_detail_fields r =
     [(''support'', VStr (support_as_str (cy_support r))), (''reason'', VStr (cy_reason r)), (''evidence'', VArr (map mcp_evidence_json (cy_evidence r)))]"

definition mcp_capability_detail_json :: "mcp_capability_detail \<Rightarrow> jvalue" where
  "mcp_capability_detail_json r = jobj (mcp_capability_detail_fields r)"

datatype mcp_reload_strategy = NativeReload | NewSessionOnly | DeferredReload | UnsupportedReload

fun reload_as_str :: "mcp_reload_strategy \<Rightarrow> string" where
  "reload_as_str NativeReload = ''native_reload''"
| "reload_as_str NewSessionOnly = ''new_session_only''"
| "reload_as_str DeferredReload = ''deferred''"
| "reload_as_str UnsupportedReload = ''unsupported''"

definition operations_json :: "(mcp_capability_operation \<times> mcp_capability_detail) list \<Rightarrow> jvalue" where
  "operations_json ops = jobj (map (\<lambda>(k, d). (operation_as_str k, mcp_capability_detail_json d)) ops)"

record mcp_runtime_capability =
  rc_runtime :: string
  rc_adapter :: string
  rc_binary_path :: "string option"
  rc_binary_version :: "string option"
  rc_config_schema_version :: string
  rc_destination :: string
  rc_allowed_subtree :: string
  rc_reload_strategy :: mcp_reload_strategy
  rc_operations :: "(mcp_capability_operation \<times> mcp_capability_detail) list"

definition mcp_runtime_capability_fields :: "mcp_runtime_capability \<Rightarrow> (string \<times> jvalue) list" where
  "mcp_runtime_capability_fields r =
     [(''runtime'', VStr (rc_runtime r)), (''adapter'', VStr (rc_adapter r))]
     @ opt_field ''binaryPath'' (rc_binary_path r)
     @ opt_field ''binaryVersion'' (rc_binary_version r)
     @ [(''configSchemaVersion'', VStr (rc_config_schema_version r)), (''destination'', VStr (rc_destination r)), (''allowedSubtree'', VStr (rc_allowed_subtree r)), (''reloadStrategy'', VStr (reload_as_str (rc_reload_strategy r))), (''operations'', operations_json (rc_operations r))]"

definition mcp_runtime_capability_json :: "mcp_runtime_capability \<Rightarrow> jvalue" where
  "mcp_runtime_capability_json r = jobj (mcp_runtime_capability_fields r)"

record mcp_capability_snapshot =
  cs_hash :: string
  cs_observed_at :: string
  cs_runtimes :: "mcp_runtime_capability list"

record mcp_plan =
  pn_id :: string
  pn_target :: mcp_desired_target
  pn_effective_desired_state :: mcp_effective_desired_state
  pn_actions :: "mcp_plan_action list"
  pn_observation_hash :: string
  pn_config_hash :: string
  pn_capability_hash :: string
  pn_plan_hash :: string
  pn_generated_at :: string
  pn_dry_run :: bool
  pn_applied :: bool

section \<open>Orders\<close>

fun risk_rank :: "mcp_risk_level \<Rightarrow> nat" where
  "risk_rank LowRisk = 0"
| "risk_rank MediumRisk = 1"
| "risk_rank HighRisk = 2"
| "risk_rank CriticalRisk = 3"

instantiation mcp_risk_level :: linorder
begin

definition less_eq_mcp_risk_level :: "mcp_risk_level \<Rightarrow> mcp_risk_level \<Rightarrow> bool" where
  "less_eq_mcp_risk_level a b \<longleftrightarrow> risk_rank a \<le> risk_rank b"

definition less_mcp_risk_level :: "mcp_risk_level \<Rightarrow> mcp_risk_level \<Rightarrow> bool" where
  "less_mcp_risk_level a b \<longleftrightarrow> risk_rank a < risk_rank b"

instance
proof
  fix a b :: mcp_risk_level
  show "a = b" if "a \<le> b" "b \<le> a" using that by (cases a; cases b) (simp_all add: less_eq_mcp_risk_level_def)
qed (auto simp: less_eq_mcp_risk_level_def less_mcp_risk_level_def)

end

fun precedence :: "mcp_binding_target_type \<Rightarrow> nat" where
  "precedence TMachine = 0"
| "precedence TWorkspace = 1"
| "precedence TAgent = 2"

instantiation mcp_binding_target_type :: linorder
begin

definition less_eq_mcp_binding_target_type :: "mcp_binding_target_type \<Rightarrow> mcp_binding_target_type \<Rightarrow> bool" where
  "less_eq_mcp_binding_target_type a b \<longleftrightarrow> precedence a \<le> precedence b"

definition less_mcp_binding_target_type :: "mcp_binding_target_type \<Rightarrow> mcp_binding_target_type \<Rightarrow> bool" where
  "less_mcp_binding_target_type a b \<longleftrightarrow> precedence a < precedence b"

instance
proof
  fix a b :: mcp_binding_target_type
  show "a = b" if "a \<le> b" "b \<le> a" using that by (cases a; cases b) (simp_all add: less_eq_mcp_binding_target_type_def)
qed (auto simp: less_eq_mcp_binding_target_type_def less_mcp_binding_target_type_def)

end

fun kind_rank :: "mcp_plan_action_kind \<Rightarrow> nat" where
  "kind_rank AddConfigure = 0"
| "kind_rank Enable = 1"
| "kind_rank Disable = 2"
| "kind_rank Update = 3"
| "kind_rank Remove = 4"
| "kind_rank ApprovalRequired = 5"
| "kind_rank AuthenticationRequired = 6"
| "kind_rank ManualUnsupported = 7"

end
