(* ===== verification/McpDesired.thy ===== *)
theory McpDesired
  imports McpTypes Workspace
begin

text \<open>
  Profiles of MCP servers (\<open>crates/cocli-driver-core/src/mcp_governance.rs\<close>): the validation that keeps
  credentials out of them, and the resolution of the profiles bound to a target into one desired state.
\<close>

section \<open>Targets\<close>

definition target_contains :: "mcp_desired_target \<Rightarrow> mcp_binding_target \<Rightarrow> bool" where
  "target_contains t b \<longleftrightarrow>
     (case bt_target_type b of
        TMachine \<Rightarrow> bt_target_id b = dt_machine_id t
      | TWorkspace \<Rightarrow> dt_workspace_id t = Some (bt_target_id b)
      | TAgent \<Rightarrow> dt_agent_id t = Some (bt_target_id b))"

definition target_label :: "mcp_desired_target \<Rightarrow> string" where
  "target_label t = ''machine:'' @ dt_machine_id t
     @ (case dt_workspace_id t of None \<Rightarrow> [] | Some w \<Rightarrow> ''/workspace:'' @ w)
     @ (case dt_agent_id t of None \<Rightarrow> [] | Some a \<Rightarrow> ''/agent:'' @ a)"

definition normalize_server :: "mcp_desired_server \<Rightarrow> mcp_desired_server" where
  "normalize_server d =
     d\<lparr>md_allow_tools := dedup_by (=) (sort (md_allow_tools d)),
       md_deny_tools := dedup_by (=) (sort (md_deny_tools d)),
       md_secret_refs := sort_key (\<lambda>r. (sr_location r, sr_kind r, sr_reference r)) (md_secret_refs d)\<rparr>"

section \<open>Validation\<close>

definition looks_like_secret_value :: "string \<Rightarrow> bool" where
  "looks_like_secret_value v =
     (let lower = to_ascii_lowercase v
      in list_ex (\<lambda>p. prefix p lower) [''sk-'', ''sk_'', ''ghp_'', ''github_pat_'', ''xox'', ''eyj'', ''bearer ''])"

definition mcp_value_contains_plaintext_secret :: "string \<Rightarrow> bool" where
  "mcp_value_contains_plaintext_secret v =
     (let lower = to_ascii_lowercase v
      in list_ex (contains lower)
           [''token='', ''access_token='', ''password='', ''secret='', ''client_secret='', ''api_key='', ''api-key='',
            ''authorization='', ''authorization:'', ''oauth_token='', ''oauth_state='']
         \<or> contains lower ''bearer '' \<or> looks_like_secret_value lower)"

definition is_valid_mcp_opaque_secret_reference :: "string \<Rightarrow> bool" where
  "is_valid_mcp_opaque_secret_reference r =
     (case split_once ''://'' r of
        None \<Rightarrow> False
      | Some (scheme, v) \<Rightarrow>
          scheme \<in> {''env'', ''keychain'', ''secret'', ''vault''} \<and> trim v \<noteq> []
          \<and> \<not> looks_like_secret_value v \<and> \<not> mcp_value_contains_plaintext_secret v)"

definition secret_identifier :: "string \<Rightarrow> bool" where
  "secret_identifier v =
     list_ex (contains (to_ascii_lowercase v))
       [''token'', ''secret'', ''api_key'', ''api-key'', ''apikey'', ''access_key'', ''access-key'', ''client-secret'',
        ''password'', ''authorization'', ''bearer'']"

fun secret_pairs :: "string list \<Rightarrow> bool" where
  "secret_pairs (a # b # xs) = (secret_identifier a \<and> \<not> contains b ''://'' \<or> secret_pairs (b # xs))"
| "secret_pairs xs = False"

definition args_contain_plaintext_secret :: "string list \<Rightarrow> bool" where
  "args_contain_plaintext_secret args \<longleftrightarrow> list_ex mcp_value_contains_plaintext_secret args \<or> secret_pairs args"

definition endpoint_contains_secret :: "string \<Rightarrow> bool" where
  "endpoint_contains_secret v =
     (let lower = to_ascii_lowercase v;
          authority = takeWhile (\<lambda>c. c \<noteq> CHR ''/'') (case split_once ''://'' lower of None \<Rightarrow> lower | Some (_, rest) \<Rightarrow> rest)
      in CHR ''@'' \<in> set authority
         \<or> list_ex (contains lower) [''token='', ''access_token='', ''password='', ''secret='', ''client_secret='', ''api_key='', ''api-key='']
         \<or> (case split_once ''?'' lower of
              None \<Rightarrow> False
            | Some (_, query) \<Rightarrow>
                list_ex (\<lambda>part. case split_once ''='' part of None \<Rightarrow> False | Some (key, _) \<Rightarrow> secret_identifier key)
                  (split_on CHR ''&'' query)))"

definition opt_any :: "('a \<Rightarrow> bool) \<Rightarrow> 'a option \<Rightarrow> bool" where
  "opt_any p v = (case v of None \<Rightarrow> False | Some x \<Rightarrow> p x)"

definition plaintext_error :: string where
  "plaintext_error = ''profile contains suspected plaintext secret''"

definition validate_secret_ref :: "mcp_secret_ref \<Rightarrow> string + unit" where
  "validate_secret_ref r =
     (if trim (sr_location r) = [] \<or> trim (sr_kind r) = [] \<or> mcp_value_contains_plaintext_secret (sr_location r)
         \<or> mcp_value_contains_plaintext_secret (sr_kind r) \<or> \<not> is_valid_mcp_opaque_secret_reference (sr_reference r)
      then Inl ''secretRefs must use an approved opaque reference scheme'' else Inr ())"

definition validate_server :: "mcp_desired_server \<Rightarrow> string + unit" where
  "validate_server d =
     (if trim (md_server_id d) = [] \<or> trim (md_runtime d) = [] \<or> trim (md_alias d) = []
      then Inl ''profile server identity is required''
      else if list_ex mcp_value_contains_plaintext_secret
                ([md_server_id d, md_runtime d, md_alias d] @ md_allow_tools d @ md_deny_tools d)
      then Inl plaintext_error
      else if list_ex (\<lambda>t. t \<in> set (md_deny_tools d)) (md_allow_tools d)
      then Inl ''a tool cannot be both allowed and denied''
      else if opt_any (\<lambda>f. opt_any mcp_value_contains_plaintext_secret (cd_command f)
                \<or> args_contain_plaintext_secret (cd_args f) \<or> opt_any endpoint_contains_secret (cd_endpoint f)) (md_definition d)
      then Inl plaintext_error
      else tx_fold (\<lambda>_. validate_secret_ref) () (md_secret_refs d))"

definition validate_mcp_profile :: "mcp_profile \<Rightarrow> string + unit" where
  "validate_mcp_profile p =
     (if trim (mp_name p) = [] then Inl ''profile name is required''
      else if mcp_value_contains_plaintext_secret (mp_name p) \<or> opt_any mcp_value_contains_plaintext_secret (mp_description p)
      then Inl plaintext_error
      else tx_fold (\<lambda>_. validate_server) () (mp_servers p))"

section \<open>Resolution\<close>

type_synonym mcp_candidate = "mcp_profile \<times> mcp_profile_binding \<times> mcp_desired_server"
type_synonym mcp_level = "(string \<times> string \<times> mcp_binding_target_type) \<times> mcp_candidate list"

definition profile_by_id :: "mcp_profile list \<Rightarrow> (string, mcp_profile) btree" where
  "profile_by_id ps = foldl (\<lambda>m p. bt_insert (mp_id p) p m) [] ps"

definition applicable :: "mcp_profile list \<Rightarrow> mcp_profile_binding list \<Rightarrow> mcp_desired_target \<Rightarrow> (mcp_profile_binding \<times> mcp_profile) list" where
  "applicable ps bs t =
     sort_key (\<lambda>(b, p). (precedence (bt_target_type (pb_target b)), mp_id p, pb_id b))
       (List.map_filter (\<lambda>b. if target_contains t (pb_target b)
                              then map_option (Pair b) (bt_get (profile_by_id ps) (pb_profile_id b)) else None) bs)"

definition candidate_list :: "(mcp_profile_binding \<times> mcp_profile) list \<Rightarrow> mcp_candidate list" where
  "candidate_list ap = concat (map (\<lambda>(b, p). map (\<lambda>s. (p, b, normalize_server s)) (mp_servers p)) ap)"

definition candidate_key :: "mcp_candidate \<Rightarrow> string \<times> string \<times> mcp_binding_target_type" where
  "candidate_key c = (case c of (p, b, s) \<Rightarrow> (md_runtime s, md_server_id s, bt_target_type (pb_target b)))"

definition initial_resolution :: "mcp_profile_binding \<times> mcp_profile \<Rightarrow> mcp_profile_resolution" where
  "initial_resolution bp =
     \<lparr>mr_profile_id = mp_id (snd bp), mr_profile_name = mp_name (snd bp), mr_binding_id = pb_id (fst bp),
      mr_target = pb_target (fst bp), mr_applied = False,
      mr_reason = ''applicable profile; server-level precedence is resolved below''\<rparr>"

definition level_key :: "mcp_level \<Rightarrow> string \<times> string" where
  "level_key l = (fst (fst l), fst (snd (fst l)))"

definition level_precedence :: "mcp_level \<Rightarrow> mcp_binding_target_type" where
  "level_precedence l = snd (snd (fst l))"

definition by_server :: "mcp_candidate list \<Rightarrow> (string \<times> string, mcp_level list) btree" where
  "by_server cs = group_by level_key (group_by candidate_key cs)"

fun mark_applied :: "string \<Rightarrow> string \<Rightarrow> mcp_profile_resolution list \<Rightarrow> mcp_profile_resolution list" where
  "mark_applied bid reason [] = []"
| "mark_applied bid reason (x # xs) =
     (if mr_binding_id x = bid then x\<lparr>mr_applied := True, mr_reason := reason\<rparr> # xs else x # mark_applied bid reason xs)"

definition high_risk_name :: "string \<Rightarrow> bool" where
  "high_risk_name n = (let lower = to_ascii_lowercase n in contains lower ''production'' \<or> contains lower ''prod'' \<or> contains lower ''ops'')"

definition level_conflict :: "string \<times> string \<Rightarrow> mcp_binding_target_type \<Rightarrow> mcp_candidate list \<Rightarrow> mcp_profile_conflict" where
  "level_conflict k prec es =
     \<lparr>mc_runtime = fst k, mc_server_id = snd k, mc_precedence = prec,
      mc_profile_ids = dedup_by (=) (sort (map (\<lambda>(p, _, _). mp_id p) es)),
      mc_reason = ''same-precedence profiles define different desired state''\<rparr>"

definition level_server :: "mcp_binding_target_type \<Rightarrow> mcp_candidate list \<Rightarrow> mcp_effective_server" where
  "level_server prec es =
     (let names = dedup_by (=) (sort (map (\<lambda>(p, _, _). mp_name p) es))
      in \<lparr>me_desired = snd (snd (hd es)), me_source_profile_ids = dedup_by (=) (sort (map (\<lambda>(p, _, _). mp_id p) es)),
          me_source_profile_names = names, me_inherited_from = prec, me_high_risk_context = list_ex high_risk_name names\<rparr>)"

type_synonym mcp_accumulator = "mcp_effective_server list \<times> mcp_profile_conflict list \<times> mcp_profile_resolution list"

definition disagree :: "mcp_candidate list \<Rightarrow> bool" where
  "disagree es = list_ex (\<lambda>(_, _, d). d \<noteq> snd (snd (hd es))) (tl es)"

text \<open>One server: the level of the highest precedence, a conflict if its candidates differ.\<close>

definition highest_level :: "mcp_level list \<Rightarrow> mcp_level" where
  "highest_level ls = last (sort_key (\<lambda>l. precedence (level_precedence l)) ls)"

definition resolve_server :: "mcp_accumulator \<Rightarrow> (string \<times> string) \<times> mcp_level list \<Rightarrow> mcp_accumulator" where
  "resolve_server acc e =
     (case acc of (servers, conflicts, res) \<Rightarrow>
        let k = fst e;
            top = highest_level (snd e);
            prec = level_precedence top;
            es = snd top
        in if disagree es then (servers, conflicts @ [level_conflict k prec es], res)
           else (servers @ [level_server prec es], conflicts,
                 foldl (\<lambda>res (_, b, _). mark_applied (pb_id b)
                   (''won '' @ precedence_label prec @ '' precedence for '' @ fst k @ ''/'' @ snd k) res) res es))"

definition resolve_mcp_desired_state :: "mcp_profile list \<Rightarrow> mcp_profile_binding list \<Rightarrow> mcp_desired_target \<Rightarrow> mcp_effective_desired_state" where
  "resolve_mcp_desired_state ps bs t =
     (let ap = applicable ps bs t;
          (servers, conflicts, res) = foldl resolve_server ([], [], map initial_resolution ap) (by_server (candidate_list ap))
      in \<lparr>st_target = t,
          st_servers = sort_key (\<lambda>s. (md_runtime (me_desired s), md_server_id (me_desired s))) servers,
          st_conflicts = sort_key (\<lambda>c. (mc_runtime c, mc_server_id c, mc_precedence c)) conflicts,
          st_resolution = sort_key (\<lambda>r. (precedence (bt_target_type (mr_target r)), mr_profile_id r, mr_binding_id r)) res\<rparr>)"

section \<open>What resolution computes\<close>

text \<open>
  The desired states of a server that profiles bound at one level of a target ask for.
\<close>

definition wanted :: "mcp_profile list \<Rightarrow> mcp_profile_binding list \<Rightarrow> mcp_desired_target \<Rightarrow> string \<times> string \<Rightarrow> mcp_binding_target_type \<Rightarrow> mcp_desired_server set" where
  "wanted ps bs t k lv =
     {normalize_server s | s. \<exists>b \<in> set bs. \<exists>p. target_contains t (pb_target b) \<and> bt_target_type (pb_target b) = lv
        \<and> bt_get (profile_by_id ps) (pb_profile_id b) = Some p \<and> s \<in> set (mp_servers p) \<and> (md_runtime s, md_server_id s) = k}"

definition level_of :: "mcp_candidate list \<Rightarrow> string \<times> string \<Rightarrow> mcp_binding_target_type \<Rightarrow> mcp_candidate list" where
  "level_of cs k lv = filter (\<lambda>c. candidate_key c = (fst k, snd k, lv)) cs"

lemma normalize_key [simp]:
  "md_runtime (normalize_server s) = md_runtime s" "md_server_id (normalize_server s) = md_server_id s"
  by (simp_all add: normalize_server_def)

lemma set_map_filter: "set (List.map_filter f xs) = {y. \<exists>x \<in> set xs. f x = Some y}"
  by (force simp: List.map_filter_def)

lemma set_applicable:
  "(b, p) \<in> set (applicable ps bs t) \<longleftrightarrow> b \<in> set bs \<and> target_contains t (pb_target b) \<and> bt_get (profile_by_id ps) (pb_profile_id b) = Some p"
  by (auto simp: applicable_def set_map_filter split: if_splits)

lemma wanted_level: "wanted ps bs t k lv = (\<lambda>c. snd (snd c)) ` set (level_of (candidate_list (applicable ps bs t)) k lv)"
  (is "_ = ?r")
proof (intro set_eqI iffI)
  fix d assume "d \<in> wanted ps bs t k lv"
  then obtain s b p where x: "d = normalize_server s" "(b, p) \<in> set (applicable ps bs t)" "bt_target_type (pb_target b) = lv"
      "s \<in> set (mp_servers p)" "(md_runtime s, md_server_id s) = k"
    unfolding wanted_def set_applicable by blast
  then have "(p, b, d) \<in> set (level_of (candidate_list (applicable ps bs t)) k lv)"
    by (force simp: level_of_def candidate_list_def candidate_key_def)
  then show "d \<in> ?r" by force
next
  fix d assume "d \<in> ?r"
  then obtain s b p where "d = normalize_server s" "(b, p) \<in> set (applicable ps bs t)" "bt_target_type (pb_target b) = lv"
      "s \<in> set (mp_servers p)" "(md_runtime s, md_server_id s) = k"
    by (auto simp: level_of_def candidate_list_def candidate_key_def)
  then show "d \<in> wanted ps bs t k lv" unfolding wanted_def set_applicable by blast
qed

lemma last_sort_key:
  assumes "xs \<noteq> []"
  shows "last (sort_key f xs) \<in> set xs" "x \<in> set xs \<Longrightarrow> f x \<le> f (last (sort_key f xs))"
proof -
  let ?ys = "sort_key f xs"
  have n: "?ys \<noteq> []" using assms by (metis set_empty set_sort)
  then have "last ?ys \<in> set ?ys" by (rule last_in_set)
  then show "last ?ys \<in> set xs" by simp
  assume "x \<in> set xs"
  then have "x \<in> set (butlast ?ys) \<or> x = last ?ys" using n by (metis append_butlast_last_id in_set_conv_decomp set_sort set_append Un_iff set_ConsD empty_iff list.set(1))
  moreover have "sorted (map f (butlast ?ys @ [last ?ys]))" using n by simp
  ultimately show "f x \<le> f (last ?ys)" by (auto simp: sorted_append)
qed

lemma group_levels: "(key, es) \<in> set (group_by candidate_key cs) \<longleftrightarrow> es \<noteq> [] \<and> es = filter (\<lambda>c. candidate_key c = key) cs"
  unfolding bt_get_iff [OF group_by_ok, symmetric] group_by_get by (auto simp: Let_def)

lemma precedence_inj: "precedence a = precedence b \<longleftrightarrow> a = b"
  by (cases a; cases b) simp_all

definition top_level :: "mcp_candidate list \<Rightarrow> string \<times> string \<Rightarrow> mcp_binding_target_type \<Rightarrow> bool" where
  "top_level cs k lv \<longleftrightarrow> level_of cs k lv \<noteq> [] \<and> (\<forall>q. precedence lv < precedence q \<longrightarrow> level_of cs k q = [])"

lemma top_level_unique: "top_level cs k a \<Longrightarrow> top_level cs k b \<Longrightarrow> a = b"
  unfolding top_level_def by (metis precedence_inj linorder_neqE_nat)

lemma by_server_top:
  assumes "(k, levels) \<in> set (by_server cs)"
  obtains lv where "highest_level levels = ((fst k, snd k, lv), level_of cs k lv)" "top_level cs k lv"
proof -
  have l: "levels \<noteq> []" "levels = filter (\<lambda>l. level_key l = k) (group_by candidate_key cs)"
    using assms unfolding by_server_def bt_get_iff [OF group_by_ok, symmetric] group_by_get by (auto simp: Let_def split: if_splits)
  have mem: "((r, s, lv), es) \<in> set levels \<longleftrightarrow> (r, s) = k \<and> es \<noteq> [] \<and> es = level_of cs k lv" for r s lv es
    unfolding l(2) by (auto simp: group_levels level_of_def level_key_def)
  obtain r s lv es where top: "highest_level levels = ((r, s, lv), es)" by (metis surj_pair)
  then have m: "(r, s) = k" "es \<noteq> []" "es = level_of cs k lv"
    using last_sort_key(1) [OF l(1)] mem unfolding highest_level_def by metis+
  have "level_of cs k q = []" if "precedence lv < precedence q" for q
  proof (rule ccontr)
    assume "level_of cs k q \<noteq> []"
    then have "((r, s, q), level_of cs k q) \<in> set levels" using mem m(1) by blast
    from last_sort_key(2) [OF l(1) this, of "\<lambda>l. precedence (level_precedence l)"] top that show False
      by (simp add: highest_level_def level_precedence_def)
  qed
  with m top show thesis by (intro that [of lv]) (auto simp: top_level_def)
qed

lemma by_server_keys:
  assumes "top_level cs k lv"
  obtains levels where "(k, levels) \<in> set (by_server cs)"
proof -
  have "level_of cs k lv \<noteq> []" using assms by (simp add: top_level_def)
  then have "((fst k, snd k, lv), level_of cs k lv) \<in> set (group_by candidate_key cs)" by (simp add: group_levels level_of_def)
  then have "filter (\<lambda>l. level_key l = k) (group_by candidate_key cs) \<noteq> []" by (force simp: filter_empty_conv level_key_def)
  then have "bt_get (by_server cs) k = Some (filter (\<lambda>l. level_key l = k) (group_by candidate_key cs))"
    unfolding by_server_def group_by_get by (simp add: Let_def)
  then show thesis using that unfolding by_server_def bt_get_iff [OF group_by_ok] by blast
qed

lemma resolve_fold:
  "\<exists>res'. foldl resolve_server (servers, conflicts, res) xs =
     (servers @ map (\<lambda>e. level_server (level_precedence (highest_level (snd e))) (snd (highest_level (snd e))))
        (filter (\<lambda>e. \<not> disagree (snd (highest_level (snd e)))) xs),
      conflicts @ map (\<lambda>e. level_conflict (fst e) (level_precedence (highest_level (snd e))) (snd (highest_level (snd e))))
        (filter (\<lambda>e. disagree (snd (highest_level (snd e)))) xs), res')"
proof (induction xs arbitrary: servers conflicts res)
  case (Cons e xs)
  show ?case
  proof (cases "disagree (snd (highest_level (snd e)))")
    case True
    then show ?thesis
      using Cons [of servers "conflicts @ [level_conflict (fst e) (level_precedence (highest_level (snd e))) (snd (highest_level (snd e)))]" res]
      by (simp add: resolve_server_def Let_def)
  next
    case False
    obtain res2 where "resolve_server (servers, conflicts, res) e = (servers @ [level_server (level_precedence (highest_level (snd e))) (snd (highest_level (snd e)))], conflicts, res2)"
      using False by (simp add: resolve_server_def Let_def)
    then show ?thesis
      using False Cons [of "servers @ [level_server (level_precedence (highest_level (snd e))) (snd (highest_level (snd e)))]" conflicts res2] by simp
  qed
qed simp

lemma resolved_sets:
  fixes ps bs t
  defines "cs \<equiv> candidate_list (applicable ps bs t)" and "st \<equiv> resolve_mcp_desired_state ps bs t"
  shows "set (st_servers st) = {level_server lv (level_of cs k lv) | k lv. top_level cs k lv \<and> \<not> disagree (level_of cs k lv)}"
    "set (st_conflicts st) = {level_conflict k lv (level_of cs k lv) | k lv. top_level cs k lv \<and> disagree (level_of cs k lv)}"
proof -
  obtain res where fold: "foldl resolve_server ([], [], map initial_resolution (applicable ps bs t)) (by_server cs) =
     (map (\<lambda>e. level_server (level_precedence (highest_level (snd e))) (snd (highest_level (snd e))))
        (filter (\<lambda>e. \<not> disagree (snd (highest_level (snd e)))) (by_server cs)),
      map (\<lambda>e. level_conflict (fst e) (level_precedence (highest_level (snd e))) (snd (highest_level (snd e))))
        (filter (\<lambda>e. disagree (snd (highest_level (snd e)))) (by_server cs)), res)"
    using resolve_fold [of "[]" "[]" "map initial_resolution (applicable ps bs t)" "by_server cs"] by auto
  have every: "\<exists>lv. top_level cs (fst e) lv \<and> level_precedence (highest_level (snd e)) = lv \<and> snd (highest_level (snd e)) = level_of cs (fst e) lv"
    if "e \<in> set (by_server cs)" for e
    using that by_server_top [of "fst e" "snd e" cs] by (metis fst_conv level_precedence_def prod.collapse snd_conv)
  have conv: "\<exists>e \<in> set (by_server cs). fst e = k \<and> level_precedence (highest_level (snd e)) = lv \<and> snd (highest_level (snd e)) = level_of cs k lv"
    if t: "top_level cs k lv" for k lv
  proof -
    obtain levels where e: "(k, levels) \<in> set (by_server cs)" using by_server_keys [OF t] .
    then show ?thesis using every [OF e] top_level_unique [OF t] by (intro bexI [OF _ e]) auto
  qed
  have "set (st_servers st) = (\<lambda>e. level_server (level_precedence (highest_level (snd e))) (snd (highest_level (snd e))))
       ` {e \<in> set (by_server cs). \<not> disagree (snd (highest_level (snd e)))}"
    by (simp add: st_def resolve_mcp_desired_state_def Let_def fold [unfolded cs_def] cs_def)
  also have "\<dots> = {level_server lv (level_of cs k lv) | k lv. top_level cs k lv \<and> \<not> disagree (level_of cs k lv)}"
    using every conv by (fastforce simp: image_iff)
  finally show "set (st_servers st) = {level_server lv (level_of cs k lv) | k lv. top_level cs k lv \<and> \<not> disagree (level_of cs k lv)}" .
  have "set (st_conflicts st) = (\<lambda>e. level_conflict (fst e) (level_precedence (highest_level (snd e))) (snd (highest_level (snd e))))
       ` {e \<in> set (by_server cs). disagree (snd (highest_level (snd e)))}"
    by (simp add: st_def resolve_mcp_desired_state_def Let_def fold [unfolded cs_def] cs_def)
  also have "\<dots> = {level_conflict k lv (level_of cs k lv) | k lv. top_level cs k lv \<and> disagree (level_of cs k lv)}"
    using every conv by (fastforce simp: image_iff)
  finally show "set (st_conflicts st) = {level_conflict k lv (level_of cs k lv) | k lv. top_level cs k lv \<and> disagree (level_of cs k lv)}" .
qed

lemma level_member: "c \<in> set (level_of cs k lv) \<Longrightarrow> candidate_key c = (fst k, snd k, lv)"
  by (simp add: level_of_def)

lemma disagree_iff:
  assumes "es \<noteq> []"
  shows "\<not> disagree es \<longleftrightarrow> (\<lambda>c. snd (snd c)) ` set es = {snd (snd (hd es))}"
proof -
  obtain e es' where "es = e # es'" using assms by (cases es) auto
  then show ?thesis by (auto simp: disagree_def list_ex_iff)
qed

lemma server_fields:
  assumes "top_level cs k lv"
  shows "(md_runtime (me_desired (level_server lv (level_of cs k lv))), md_server_id (me_desired (level_server lv (level_of cs k lv)))) = k"
    "me_inherited_from (level_server lv (level_of cs k lv)) = lv"
    "me_desired (level_server lv (level_of cs k lv)) = snd (snd (hd (level_of cs k lv)))"
proof -
  have "hd (level_of cs k lv) \<in> set (level_of cs k lv)" using assms by (simp add: top_level_def)
  then show "(md_runtime (me_desired (level_server lv (level_of cs k lv))), md_server_id (me_desired (level_server lv (level_of cs k lv)))) = k"
    by (auto simp: level_server_def Let_def candidate_key_def dest!: level_member split: prod.splits)
qed (simp_all add: level_server_def Let_def)

lemma wanted_top:
  "top_level (candidate_list (applicable ps bs t)) k lv \<longleftrightarrow> wanted ps bs t k lv \<noteq> {} \<and> (\<forall>q. lv < q \<longrightarrow> wanted ps bs t k q = {})"
  by (simp add: top_level_def wanted_level less_mcp_binding_target_type_def)

definition server_key :: "mcp_effective_server \<Rightarrow> string \<times> string" where
  "server_key e = (md_runtime (me_desired e), md_server_id (me_desired e))"

definition conflict_key :: "mcp_profile_conflict \<Rightarrow> string \<times> string" where
  "conflict_key c = (mc_runtime c, mc_server_id c)"

lemma two_elements: "h \<in> W \<Longrightarrow> (\<exists>d \<in> W. \<exists>d' \<in> W. d \<noteq> d') \<longleftrightarrow> W \<noteq> {h}"
  by auto

lemma resolve_server_iff:
  "(\<exists>e \<in> set (st_servers (resolve_mcp_desired_state ps bs t)). server_key e = k \<and> me_inherited_from e = lv \<and> me_desired e = d)
     \<longleftrightarrow> wanted ps bs t k lv = {d} \<and> (\<forall>q. lv < q \<longrightarrow> wanted ps bs t k q = {})" (is "?l \<longleftrightarrow> ?r")
proof -
  let ?cs = "candidate_list (applicable ps bs t)"
  let ?L = "level_of ?cs k lv"
  have "?l \<longleftrightarrow> top_level ?cs k lv \<and> \<not> disagree ?L \<and> snd (snd (hd ?L)) = d"
  proof
    assume ?l
    then obtain k' lv' where "top_level ?cs k' lv'" "\<not> disagree (level_of ?cs k' lv')"
      "server_key (level_server lv' (level_of ?cs k' lv')) = k" "me_inherited_from (level_server lv' (level_of ?cs k' lv')) = lv"
      "me_desired (level_server lv' (level_of ?cs k' lv')) = d"
      unfolding resolved_sets by auto
    then show "top_level ?cs k lv \<and> \<not> disagree ?L \<and> snd (snd (hd ?L)) = d"
      using server_fields [of ?cs k' lv'] by (auto simp: server_key_def)
  next
    assume r: "top_level ?cs k lv \<and> \<not> disagree ?L \<and> snd (snd (hd ?L)) = d"
    then have "level_server lv ?L \<in> set (st_servers (resolve_mcp_desired_state ps bs t))" unfolding resolved_sets by blast
    then show ?l using r server_fields [of ?cs k lv]
      by (intro bexI [of _ "level_server lv ?L"]) (simp_all add: server_key_def)
  qed
  also have "\<dots> \<longleftrightarrow> ?r"
  proof (cases "?L = []")
    case True
    then have "wanted ps bs t k lv = {}" by (simp add: wanted_level)
    with True show ?thesis by (auto simp: top_level_def)
  next
    case False
    let ?h = "snd (snd (hd ?L))"
    have h: "?h \<in> wanted ps bs t k lv" using False by (simp add: wanted_level)
    have "\<not> disagree ?L \<longleftrightarrow> wanted ps bs t k lv = {?h}" unfolding wanted_level by (rule disagree_iff [OF False])
    moreover have "wanted ps bs t k lv = {d} \<longleftrightarrow> wanted ps bs t k lv = {?h} \<and> ?h = d" using h by auto
    moreover have "wanted ps bs t k lv \<noteq> {}" using h by auto
    ultimately show ?thesis unfolding wanted_top by argo
  qed
  finally show ?thesis .
qed

lemma resolve_conflict_iff:
  "(\<exists>c \<in> set (st_conflicts (resolve_mcp_desired_state ps bs t)). conflict_key c = k \<and> mc_precedence c = lv)
     \<longleftrightarrow> (\<exists>d \<in> wanted ps bs t k lv. \<exists>d' \<in> wanted ps bs t k lv. d \<noteq> d') \<and> (\<forall>q. lv < q \<longrightarrow> wanted ps bs t k q = {})" (is "?l \<longleftrightarrow> ?r")
proof -
  let ?cs = "candidate_list (applicable ps bs t)"
  let ?L = "level_of ?cs k lv"
  have key: "conflict_key (level_conflict k' lv' es) = k'" "mc_precedence (level_conflict k' lv' es) = lv'" for k' lv' es
    by (simp_all add: conflict_key_def level_conflict_def)
  have "?l \<longleftrightarrow> top_level ?cs k lv \<and> disagree ?L"
  proof
    assume ?l
    then obtain k' lv' where "top_level ?cs k' lv'" "disagree (level_of ?cs k' lv')"
      "conflict_key (level_conflict k' lv' (level_of ?cs k' lv')) = k" "mc_precedence (level_conflict k' lv' (level_of ?cs k' lv')) = lv"
      unfolding resolved_sets by auto
    then show "top_level ?cs k lv \<and> disagree ?L" by (simp add: key)
  next
    assume "top_level ?cs k lv \<and> disagree ?L"
    then have "level_conflict k lv ?L \<in> set (st_conflicts (resolve_mcp_desired_state ps bs t))" unfolding resolved_sets by blast
    then show ?l using key by blast
  qed
  also have "\<dots> \<longleftrightarrow> ?r"
  proof (cases "?L = []")
    case True
    then have "wanted ps bs t k lv = {}" by (simp add: wanted_level)
    with True show ?thesis by (auto simp: top_level_def)
  next
    case False
    let ?h = "snd (snd (hd ?L))"
    have h: "?h \<in> wanted ps bs t k lv" using False by (simp add: wanted_level)
    have "\<not> disagree ?L \<longleftrightarrow> wanted ps bs t k lv = {?h}" unfolding wanted_level by (rule disagree_iff [OF False])
    then have "disagree ?L \<longleftrightarrow> (\<exists>d \<in> wanted ps bs t k lv. \<exists>d' \<in> wanted ps bs t k lv. d \<noteq> d')"
      using two_elements [OF h] by argo
    moreover have "wanted ps bs t k lv \<noteq> {}" using False by (simp add: wanted_level)
    ultimately show ?thesis unfolding wanted_top by blast
  qed
  finally show ?thesis .
qed

lemma tx_fold_unit: "tx_fold (\<lambda>_. f) () xs = Inr () \<longleftrightarrow> (\<forall>x \<in> set xs. f x = Inr ())"
  by (induction xs) (auto simp: tx_bind_Inr_iff)

lemma set_dedup_eq [simp]: "set (dedup_by (=) xs) = set xs"
  using dedup_by_covers [of "(=)" "\<lambda>x. x" xs] by simp

lemma validate_normalize: "validate_server (normalize_server s) = Inr () \<longleftrightarrow> validate_server s = Inr ()"
proof -
  have "validate_server s = Inr () \<longleftrightarrow> trim (md_server_id s) \<noteq> [] \<and> trim (md_runtime s) \<noteq> [] \<and> trim (md_alias s) \<noteq> []
      \<and> (\<forall>v \<in> {md_server_id s, md_runtime s, md_alias s} \<union> set (md_allow_tools s) \<union> set (md_deny_tools s). \<not> mcp_value_contains_plaintext_secret v)
      \<and> set (md_allow_tools s) \<inter> set (md_deny_tools s) = {}
      \<and> \<not> opt_any (\<lambda>f. opt_any mcp_value_contains_plaintext_secret (cd_command f)
                \<or> args_contain_plaintext_secret (cd_args f) \<or> opt_any endpoint_contains_secret (cd_endpoint f)) (md_definition s)
      \<and> (\<forall>r \<in> set (md_secret_refs s). validate_secret_ref r = Inr ())" for s
    unfolding validate_server_def by (auto simp: tx_fold_unit list_ex_iff)
  then show ?thesis by (simp add: normalize_server_def)
qed

lemma profile_by_id_set: "bt_get (profile_by_id ps) i = Some p \<Longrightarrow> p \<in> set ps \<and> mp_id p = i"
proof (induction ps rule: rev_induct)
  case (snoc q ps)
  then show ?case by (auto simp: profile_by_id_def split: if_splits)
qed (simp add: profile_by_id_def)

lemma effective_server_valid:
  assumes "\<forall>p \<in> set ps. validate_mcp_profile p = Inr ()" "e \<in> set (st_servers (resolve_mcp_desired_state ps bs t))"
  shows "validate_server (me_desired e) = Inr ()"
proof -
  have "wanted ps bs t (server_key e) (me_inherited_from e) = {me_desired e}"
    using assms(2) resolve_server_iff [of ps bs t "server_key e" "me_inherited_from e" "me_desired e"] by blast
  then obtain s p i where "me_desired e = normalize_server s" "bt_get (profile_by_id ps) i = Some p" "s \<in> set (mp_servers p)"
    unfolding wanted_def by blast
  moreover from this have "validate_mcp_profile p = Inr ()" using assms(1) profile_by_id_set by blast
  ultimately show ?thesis
    by (auto simp: validate_normalize validate_mcp_profile_def tx_fold_unit split: if_splits)
qed

end
