(* ===== verification/McpPlan.thy ===== *)
theory McpPlan
  imports McpDesired "HOL-Library.Multiset"
begin

text \<open>
  Dry-run plans for MCP servers (\<open>crates/cocli-driver-core/src/mcp_governance.rs\<close>): the hashes a plan
  is bound to, and the actions that separate the observed inventory from the desired state. The JSON
  printer (\<open>serde_json\<close>) and the digest (\<open>sha2\<close>) are parameters, collected in \<open>mcp_env\<close>.
\<close>

record mcp_env =
  mv_to_string :: "jvalue \<Rightarrow> string"
  mv_digest :: "string \<Rightarrow> string"

section \<open>Hashes\<close>

definition hex_digit :: "nat \<Rightarrow> char" where
  "hex_digit n = (''0123456789abcdef'' ! n)"

definition hex_digest :: "string \<Rightarrow> string" where
  "hex_digest bs = concat (map (\<lambda>c. let n = of_char c in [hex_digit (n div 16), hex_digit (n mod 16)]) bs)"

definition hash_value :: "mcp_env \<Rightarrow> jvalue \<Rightarrow> string" where
  "hash_value env v = hex_digest (mv_digest env (mv_to_string env v))"

definition sort_values :: "mcp_env \<Rightarrow> jvalue list \<Rightarrow> jvalue list" where
  "sort_values env vs = sort_key (mv_to_string env) vs"

definition stable_evidence :: "mcp_env \<Rightarrow> mcp_evidence list \<Rightarrow> jvalue list" where
  "stable_evidence env es =
     sort_values env (map (\<lambda>e. jobj
       [(''source'', VStr (ev_source e)), (''detail'', VStr (ev_detail e)), (''sourcePath'', or_null VStr (ev_source_path e)),
        (''provesRuntimeLoaded'', VBool (ev_proves_runtime_loaded e)),
        (''provesCurrentSessionVisibility'', VBool (ev_proves_current_session_visibility e))]) es)"

fun opt_rank :: "string option \<Rightarrow> nat \<times> string" where
  "opt_rank None = (0, [])"
| "opt_rank (Some s) = (1, s)"

definition evidence_order :: "mcp_evidence \<Rightarrow> string \<times> string \<times> (nat \<times> string) \<times> bool \<times> bool" where
  "evidence_order e = (ev_source e, ev_detail e, opt_rank (ev_source_path e), ev_proves_runtime_loaded e, ev_proves_current_session_visibility e)"

definition stable_evidence_items :: "mcp_evidence list \<Rightarrow> mcp_evidence list" where
  "stable_evidence_items es = sort_key evidence_order es"

definition stable_server :: "mcp_env \<Rightarrow> mcp_server \<Rightarrow> jvalue" where
  "stable_server env s = jobj
     [(''id'', VStr (ms_id s)), (''canonicalName'', VStr (ms_canonical_name s)),
      (''definition'', mcp_canonical_definition_json (ms_definition s)), (''endpointFingerprint'', VStr (ms_endpoint_fingerprint s)),
      (''aliases'', VArr (map VStr (sort (ms_aliases s)))), (''provenance'', VArr (stable_evidence env (ms_provenance s))),
      (''secretRefs'', VArr (map mcp_secret_ref_json (ms_secret_refs s)))]"

definition stable_observation :: "mcp_env \<Rightarrow> observed_mcp_instance \<Rightarrow> jvalue" where
  "stable_observation env o1 = jobj
     [(''runtime'', VStr (oi_runtime o1)), (''serverId'', VStr (oi_server_id o1)), (''alias'', VStr (oi_alias o1)),
      (''sourcePath'', or_null VStr (oi_source_path o1)), (''discoverable'', VBool (oi_discoverable o1)),
      (''configured'', VBool (oi_configured o1)), (''loaded'', or_null VBool (oi_loaded o1)), (''enabled'', or_null VBool (oi_enabled o1)),
      (''approved'', or_null VBool (oi_approved o1)), (''authenticated'', or_null VBool (oi_authenticated o1)),
      (''healthy'', or_null VBool (oi_healthy o1)), (''startup'', or_null (VStr \<circ> startup_as_str) (oi_startup o1)),
      (''currentSessionVisible'', or_null VBool (oi_current_session_visible o1)), (''invoked'', or_null VBool (oi_invoked o1)),
      (''toolCount'', or_null (VNum \<circ> int) (oi_tool_count o1)), (''schemaHash'', or_null VStr (oi_schema_hash o1)),
      (''evidence'', VArr (stable_evidence env (oi_evidence o1)))]"

definition stable_diagnostic :: "mcp_env \<Rightarrow> mcp_diagnostic \<Rightarrow> jvalue" where
  "stable_diagnostic env d = jobj
     [(''code'', VStr (dg_code d)), (''severity'', VStr (severity_as_str (dg_severity d))), (''runtime'', VStr (dg_runtime d)),
      (''serverId'', or_null VStr (dg_server_id d)), (''message'', VStr (dg_message d)),
      (''evidence'', VArr (stable_evidence env (dg_evidence d)))]"

definition hash_mcp_observation :: "mcp_env \<Rightarrow> mcp_inventory \<Rightarrow> string" where
  "hash_mcp_observation env iv = hash_value env (jobj
     [(''servers'', VArr (sort_values env (map (stable_server env) (mi_servers iv)))),
      (''observations'', VArr (sort_values env (map (stable_observation env) (mi_observations iv)))),
      (''diagnostics'', VArr (sort_values env (map (stable_diagnostic env) (mi_diagnostics iv))))])"

definition hash_mcp_config :: "mcp_env \<Rightarrow> mcp_effective_desired_state \<Rightarrow> string" where
  "hash_mcp_config env st = hash_value env (mcp_effective_desired_state_json
     (st\<lparr>st_servers := sort_key (\<lambda>s. (md_runtime (me_desired s), md_server_id (me_desired s))) (st_servers st),
         st_conflicts := sort_key (\<lambda>c. (mc_runtime c, mc_server_id c, mc_precedence c)) (st_conflicts st),
         st_resolution := sort_key (\<lambda>r. (mr_profile_id r, mr_binding_id r)) (st_resolution st)\<rparr>))"

definition hash_mcp_capabilities :: "mcp_env \<Rightarrow> mcp_capability_snapshot \<Rightarrow> string" where
  "hash_mcp_capabilities env snap =
     hash_value env (VArr (map mcp_runtime_capability_json (sort_key rc_runtime (cs_runtimes snap))))"

definition bind_mcp_plan_capabilities :: "mcp_env \<Rightarrow> mcp_plan \<Rightarrow> mcp_capability_snapshot \<Rightarrow> mcp_plan" where
  "bind_mcp_plan_capabilities env plan snap =
     (let ch = hash_mcp_capabilities env snap
      in plan\<lparr>pn_capability_hash := ch,
              pn_plan_hash := hash_value env (jobj
                [(''observationHash'', VStr (pn_observation_hash plan)), (''configHash'', VStr (pn_config_hash plan)),
                 (''capabilityHash'', VStr ch), (''actions'', VArr (map mcp_plan_action_json (pn_actions plan)))])\<rparr>)"

definition mcp_definition_fingerprint :: "mcp_env \<Rightarrow> mcp_canonical_definition \<Rightarrow> string" where
  "mcp_definition_fingerprint env d = hash_value env (mcp_canonical_definition_json d)"

section \<open>Source hashes\<close>

fun before_space :: "string \<Rightarrow> string" where
  "before_space [] = []"
| "before_space (c # s) = (if list_ex (\<lambda>w. prefix w (c # s)) ws_seqs then [] else c # before_space s)"

text \<open>\<open>split_whitespace().next()\<close>\<close>

definition first_word :: "string \<Rightarrow> string option" where
  "first_word s = (let w = before_space (trim_start s) in if w = [] then None else Some w)"

text \<open>\<open>split(marker).nth(1)\<close>: what stands between the first and the second marker.\<close>

definition after_marker :: "string \<Rightarrow> string \<Rightarrow> string option" where
  "after_marker marker s =
     map_option (\<lambda>(_, rest). case split_once marker rest of None \<Rightarrow> rest | Some (part, _) \<Rightarrow> part) (split_once marker s)"

definition is_ascii_hexdigit :: "char \<Rightarrow> bool" where
  "is_ascii_hexdigit c \<longleftrightarrow> byte_in 0x30 0x39 c \<or> byte_in 0x41 0x46 c \<or> byte_in 0x61 0x66 c"

definition evidence_hash :: "mcp_evidence \<Rightarrow> string option" where
  "evidence_hash e =
     (case Option.bind (after_marker ''source_sha256='' (ev_detail e)) first_word of
        None \<Rightarrow> None
      | Some v \<Rightarrow> if length v = 64 \<and> list_all is_ascii_hexdigit v then Some v else None)"

definition source_hash :: "mcp_env \<Rightarrow> observed_mcp_instance \<Rightarrow> string option" where
  "source_hash env o1 =
     (case List.map_filter evidence_hash (oi_evidence o1) of
        h # _ \<Rightarrow> Some h
      | [] \<Rightarrow> if oi_evidence o1 = [] then None else Some (hash_value env (VArr (stable_evidence env (oi_evidence o1)))))"

section \<open>Actions\<close>

definition empty_summary :: mcp_state_summary where
  "empty_summary = \<lparr>ss_configured = None, ss_enabled = None, ss_endpoint_fingerprint = None, ss_allow_tools = [], ss_deny_tools = [],
     ss_approval_mode = None, ss_secret_ref_count = 0\<rparr>"

definition before_summary :: "observed_mcp_instance \<Rightarrow> mcp_server option \<Rightarrow> mcp_state_summary" where
  "before_summary o1 srv =
     \<lparr>ss_configured = Some (oi_configured o1), ss_enabled = oi_enabled o1,
      ss_endpoint_fingerprint = map_option ms_endpoint_fingerprint srv, ss_allow_tools = [], ss_deny_tools = [],
      ss_approval_mode = None, ss_secret_ref_count = (case srv of None \<Rightarrow> 0 | Some s \<Rightarrow> length (ms_secret_refs s))\<rparr>"

definition after_summary :: "mcp_env \<Rightarrow> mcp_desired_server \<Rightarrow> mcp_state_summary" where
  "after_summary env d =
     \<lparr>ss_configured = Some (md_desired_enabled d), ss_enabled = Some (md_desired_enabled d),
      ss_endpoint_fingerprint = map_option (mcp_definition_fingerprint env) (md_definition d),
      ss_allow_tools = md_allow_tools d, ss_deny_tools = md_deny_tools d,
      ss_approval_mode = Some (md_approval_mode d), ss_secret_ref_count = length (md_secret_refs d)\<rparr>"

definition desired_fingerprint :: "mcp_env \<Rightarrow> mcp_desired_server \<Rightarrow> string" where
  "desired_fingerprint env d = (case md_definition d of None \<Rightarrow> md_server_id d | Some f \<Rightarrow> mcp_definition_fingerprint env f)"

definition action_risk :: "mcp_effective_server \<Rightarrow> mcp_risk_level \<Rightarrow> mcp_risk_level" where
  "action_risk e base =
     (let requested = (case md_risk_override (me_desired e) of None \<Rightarrow> LowRisk | Some r \<Rightarrow> r);
          context_risk = (if me_high_risk_context e \<or> md_allow_tools (me_desired e) \<noteq> [] then HighRisk else LowRisk)
      in max (max base requested) context_risk)"

definition plan_action ::
  "mcp_env \<Rightarrow> mcp_plan_action_kind \<Rightarrow> string \<Rightarrow> mcp_effective_server \<Rightarrow> string \<Rightarrow> observed_mcp_instance \<Rightarrow> mcp_server option \<Rightarrow> mcp_risk_level \<Rightarrow> mcp_plan_action" where
  "plan_action env kind target e reason o1 srv base =
     \<lparr>pa_kind = kind, pa_runtime = md_runtime (me_desired e), pa_scope = precedence_label (me_inherited_from e), pa_target = target,
      pa_server_id = md_server_id (me_desired e), pa_server_fingerprint = desired_fingerprint env (me_desired e),
      pa_before = before_summary o1 srv, pa_after = after_summary env (me_desired e), pa_risk = action_risk e base, pa_reason = reason,
      pa_evidence = stable_evidence_items (oi_evidence o1), pa_expected_source_hash = source_hash env o1,
      pa_expected_schema_hash = oi_schema_hash o1, pa_blocked = (kind = ApprovalRequired \<or> kind = AuthenticationRequired)\<rparr>"

definition manual_action ::
  "string \<Rightarrow> string \<Rightarrow> string \<Rightarrow> string \<Rightarrow> mcp_evidence list \<Rightarrow> string option \<Rightarrow> string option \<Rightarrow> mcp_plan_action" where
  "manual_action target runtime server_id reason evidence source_h schema_h =
     \<lparr>pa_kind = ManualUnsupported, pa_runtime = runtime, pa_scope = ''effective_target'', pa_target = target,
      pa_server_id = server_id, pa_server_fingerprint = server_id, pa_before = empty_summary, pa_after = empty_summary,
      pa_risk = HighRisk, pa_reason = reason, pa_evidence = stable_evidence_items evidence, pa_expected_source_hash = source_h,
      pa_expected_schema_hash = schema_h, pa_blocked = True\<rparr>"

definition manual_desired_action ::
  "mcp_env \<Rightarrow> string \<Rightarrow> mcp_effective_server \<Rightarrow> string \<Rightarrow> observed_mcp_instance option \<Rightarrow> mcp_server option \<Rightarrow> mcp_plan_action" where
  "manual_desired_action env target e reason obs srv =
     \<lparr>pa_kind = ManualUnsupported, pa_runtime = md_runtime (me_desired e), pa_scope = precedence_label (me_inherited_from e), pa_target = target,
      pa_server_id = md_server_id (me_desired e), pa_server_fingerprint = desired_fingerprint env (me_desired e),
      pa_before = (case obs of None \<Rightarrow> empty_summary | Some o1 \<Rightarrow> before_summary o1 srv), pa_after = after_summary env (me_desired e),
      pa_risk = HighRisk, pa_reason = reason, pa_evidence = (case obs of None \<Rightarrow> [] | Some o1 \<Rightarrow> stable_evidence_items (oi_evidence o1)),
      pa_expected_source_hash = Option.bind obs (source_hash env), pa_expected_schema_hash = Option.bind obs oi_schema_hash, pa_blocked = True\<rparr>"

definition action_order :: "mcp_plan_action \<Rightarrow> string \<times> string \<times> string \<times> string \<times> nat \<times> string \<times> string" where
  "action_order a = (pa_runtime a, pa_scope a, pa_target a, pa_server_fingerprint a, kind_rank (pa_kind a), pa_server_id a, pa_reason a)"

section \<open>Plans\<close>

definition observed_servers :: "mcp_inventory \<Rightarrow> (string, mcp_server) btree" where
  "observed_servers iv = foldl (\<lambda>m s. bt_insert (ms_id s) s m) [] (mi_servers iv)"

definition observation_of :: "mcp_inventory \<Rightarrow> mcp_desired_server \<Rightarrow> observed_mcp_instance option" where
  "observation_of iv d = find (\<lambda>o1. oi_runtime o1 = md_runtime d \<and> oi_server_id o1 = md_server_id d) (mi_observations iv)"

definition planned_runtimes :: "string set" where
  "planned_runtimes = {''codex'', ''cursor'', ''claude'', ''grok''}"

definition configuration_actions :: "mcp_env \<Rightarrow> string \<Rightarrow> mcp_effective_server \<Rightarrow> observed_mcp_instance \<Rightarrow> mcp_server option \<Rightarrow> mcp_plan_action list" where
  "configuration_actions env label e o1 srv =
     (let d = me_desired e
      in if \<not> oi_configured o1 \<and> md_desired_enabled d
         then [plan_action env AddConfigure label e ''desired server is discovered but not configured'' o1 srv MediumRisk]
         else if oi_configured o1
         then (let fp = map_option (mcp_definition_fingerprint env) (md_definition d)
               in if fp \<noteq> None \<and> map_option ms_endpoint_fingerprint srv \<noteq> fp
                  then [plan_action env Update label e ''desired definition fingerprint differs from observation'' o1 srv MediumRisk] else [])
              @ (case oi_enabled o1 of
                   Some en \<Rightarrow>
                     if en \<noteq> md_desired_enabled d
                     then [plan_action env (if md_desired_enabled d then Enable else Disable) label e
                             ''desired enabled state differs from observation'' o1 srv (if md_desired_enabled d then LowRisk else MediumRisk)]
                     else []
                 | None \<Rightarrow> [manual_desired_action env label e ''enabled state is unknown'' (Some o1) srv])
         else [])"

definition gate_actions :: "mcp_env \<Rightarrow> string \<Rightarrow> mcp_effective_server \<Rightarrow> observed_mcp_instance \<Rightarrow> mcp_server option \<Rightarrow> mcp_plan_action list" where
  "gate_actions env label e o1 srv =
     (let d = me_desired e
      in (if md_desired_enabled d \<and> oi_approved o1 = Some False
          then [plan_action env ApprovalRequired label e ''Runtime reports approval is required'' o1 srv HighRisk] else [])
         @ (if md_desired_enabled d \<and> (oi_authenticated o1 = Some False \<or> (md_secret_refs d \<noteq> [] \<and> oi_authenticated o1 \<noteq> Some True))
            then [plan_action env AuthenticationRequired label e
                    ''credentials must be supplied through secret references by a future apply flow'' o1 srv HighRisk] else [])
         @ (if md_desired_enabled d \<and> oi_approved o1 = None
            then [manual_desired_action env label e ''approval state is unknown'' (Some o1) srv] else [])
         @ (if md_desired_enabled d \<and> oi_authenticated o1 = None
            then [manual_desired_action env label e ''authentication state is unknown'' (Some o1) srv] else [])
         @ (if md_allow_tools d \<noteq> [] \<or> md_deny_tools d \<noteq> [] \<or> md_approval_mode d \<noteq> ManualApproval
            then [manual_desired_action env label e
                    ''observed tool policy is unavailable; policy change requires manual verification'' (Some o1) srv] else []))"

text \<open>The body of the loop over the desired servers.\<close>

definition desired_actions :: "mcp_env \<Rightarrow> string \<Rightarrow> mcp_inventory \<Rightarrow> mcp_effective_server \<Rightarrow> mcp_plan_action list" where
  "desired_actions env label iv e =
     (let d = me_desired e; obs = observation_of iv d; srv = bt_get (observed_servers iv) (md_server_id d)
      in if md_runtime d \<notin> planned_runtimes
         then [manual_desired_action env label e ''Runtime has no Phase 2A planning contract'' obs srv]
         else case obs of
                None \<Rightarrow>
                  if md_desired_enabled d
                  then [manual_desired_action env label e
                          ''no observation exists; add/configure cannot be represented as safely automatable'' None None]
                  else []
              | Some o1 \<Rightarrow>
                  if oi_evidence o1 = [] then [manual_desired_action env label e ''observation has no evidence'' (Some o1) srv]
                  else configuration_actions env label e o1 srv @ gate_actions env label e o1 srv)"

text \<open>The body of the loop over observed servers that no profile asks for.\<close>

definition removal_action :: "mcp_env \<Rightarrow> string \<Rightarrow> mcp_inventory \<Rightarrow> observed_mcp_instance \<Rightarrow> mcp_plan_action" where
  "removal_action env label iv o1 =
     (if oi_evidence o1 = []
      then manual_action label (oi_runtime o1) (oi_server_id o1)
             ''configured server is absent from desired state, but removal evidence is missing'' [] None (oi_schema_hash o1)
      else let srv = bt_get (observed_servers iv) (oi_server_id o1)
           in \<lparr>pa_kind = Remove, pa_runtime = oi_runtime o1, pa_scope = ''effective_target'', pa_target = label,
               pa_server_id = oi_server_id o1,
               pa_server_fingerprint = (case srv of None \<Rightarrow> oi_server_id o1 | Some s \<Rightarrow> ms_endpoint_fingerprint s),
               pa_before = before_summary o1 srv,
               pa_after = \<lparr>ss_configured = Some False, ss_enabled = Some False, ss_endpoint_fingerprint = None, ss_allow_tools = [],
                           ss_deny_tools = [], ss_approval_mode = None, ss_secret_ref_count = 0\<rparr>,
               pa_risk = CriticalRisk, pa_reason = ''observed configured server is absent from effective desired state'',
               pa_evidence = stable_evidence_items (oi_evidence o1), pa_expected_source_hash = source_hash env o1,
               pa_expected_schema_hash = oi_schema_hash o1, pa_blocked = False\<rparr>)"

definition unwanted :: "mcp_effective_desired_state \<Rightarrow> observed_mcp_instance \<Rightarrow> bool" where
  "unwanted st o1 \<longleftrightarrow> st_resolution st \<noteq> [] \<and> oi_configured o1
     \<and> (oi_runtime o1, oi_server_id o1) \<notin> server_key ` set (st_servers st)"

definition plan_actions :: "mcp_env \<Rightarrow> mcp_effective_desired_state \<Rightarrow> mcp_inventory \<Rightarrow> mcp_plan_action list" where
  "plan_actions env st iv =
     (let label = target_label (st_target st)
      in map (\<lambda>c. manual_action label (mc_runtime c) (mc_server_id c) ''profile conflict blocks deterministic planning'' [] None None) (st_conflicts st)
         @ concat (map (desired_actions env label iv) (st_servers st))
         @ map (removal_action env label iv) (filter (unwanted st) (mi_observations iv)))"

definition generate_mcp_plan :: "mcp_env \<Rightarrow> string \<Rightarrow> string \<Rightarrow> mcp_effective_desired_state \<Rightarrow> mcp_inventory \<Rightarrow> mcp_plan" where
  "generate_mcp_plan env i now st iv =
     (let oh = hash_mcp_observation env iv;
          ch = hash_mcp_config env st;
          actions = sort_key action_order (plan_actions env st iv)
      in \<lparr>pn_id = i, pn_target = st_target st, pn_effective_desired_state = st, pn_actions = actions, pn_observation_hash = oh,
          pn_config_hash = ch, pn_capability_hash = [],
          pn_plan_hash = hash_value env (jobj [(''observationHash'', VStr oh), (''configHash'', VStr ch),
                                               (''actions'', VArr (map mcp_plan_action_json actions))]),
          pn_generated_at = now, pn_dry_run = True, pn_applied = False\<rparr>)"

section \<open>What a plan contains\<close>

definition gated_kinds :: "mcp_plan_action_kind set" where
  "gated_kinds = {ApprovalRequired, AuthenticationRequired, ManualUnsupported}"

lemma plan_action_simps [simp]:
  "pa_kind (plan_action env kind t e r o1 srv base) = kind"
  "pa_blocked (plan_action env kind t e r o1 srv base) \<longleftrightarrow> kind = ApprovalRequired \<or> kind = AuthenticationRequired"
  "pa_evidence (plan_action env kind t e r o1 srv base) = stable_evidence_items (oi_evidence o1)"
  "pa_expected_source_hash (plan_action env kind t e r o1 srv base) = source_hash env o1"
  "pa_runtime (plan_action env kind t e r o1 srv base) = md_runtime (me_desired e)"
  "pa_server_id (plan_action env kind t e r o1 srv base) = md_server_id (me_desired e)"
  "pa_risk (plan_action env kind t e r o1 srv base) = action_risk e base"
  by (auto simp: plan_action_def)

lemma manual_simps [simp]:
  "pa_kind (manual_action t rt sid r ev sh sc) = ManualUnsupported" "pa_blocked (manual_action t rt sid r ev sh sc)"
  "pa_kind (manual_desired_action env t e r obs srv) = ManualUnsupported" "pa_blocked (manual_desired_action env t e r obs srv)"
  by (simp_all add: manual_action_def manual_desired_action_def)

lemma source_hash_evidence: "oi_evidence o1 \<noteq> [] \<Longrightarrow> source_hash env o1 \<noteq> None"
  by (simp add: source_hash_def split: list.split)

lemma stable_items_Nil [simp]: "stable_evidence_items es = [] \<longleftrightarrow> es = []"
  by (metis set_empty set_sort stable_evidence_items_def)

lemma risk_floor: "base \<le> action_risk e base" "md_risk_override (me_desired e) = Some r \<Longrightarrow> r \<le> action_risk e base"
  "me_high_risk_context e \<Longrightarrow> HighRisk \<le> action_risk e base"
  by (simp_all add: action_risk_def Let_def le_max_iff_disj)

lemma desired_actionE:
  assumes "a \<in> set (desired_actions env label iv e)" "\<not> pa_blocked a"
  obtains o1 reason base where "observation_of iv (me_desired e) = Some o1" "oi_evidence o1 \<noteq> []" "md_runtime (me_desired e) \<in> planned_runtimes"
    "pa_kind a \<in> {AddConfigure, Enable, Disable, Update}"
    "a = plan_action env (pa_kind a) label e reason o1 (bt_get (observed_servers iv) (md_server_id (me_desired e))) base"
proof -
  let ?srv = "bt_get (observed_servers iv) (md_server_id (me_desired e))"
  have r: "md_runtime (me_desired e) \<in> planned_runtimes"
    using assms by (auto simp: desired_actions_def Let_def split: if_splits)
  obtain o1 where o1: "observation_of iv (me_desired e) = Some o1" "oi_evidence o1 \<noteq> []"
    and a: "a \<in> set (configuration_actions env label e o1 ?srv @ gate_actions env label e o1 ?srv)"
    using assms r by (auto simp: desired_actions_def Let_def split: option.splits if_splits)
  have "a \<in> set (configuration_actions env label e o1 ?srv)"
    using a assms(2) by (auto simp: gate_actions_def Let_def split: if_splits)
  then have "\<exists>kind reason base. kind \<in> {AddConfigure, Enable, Disable, Update} \<and> a = plan_action env kind label e reason o1 ?srv base"
    using assms(2) unfolding configuration_actions_def Let_def by (auto split: if_splits option.splits)
  with o1 r show thesis by (auto intro: that)
qed

lemma desired_blocked: "a \<in> set (desired_actions env label iv e) \<Longrightarrow> pa_blocked a \<longleftrightarrow> pa_kind a \<in> gated_kinds"
  unfolding desired_actions_def configuration_actions_def gate_actions_def Let_def gated_kinds_def
  by (auto split: if_splits option.splits)

lemma removal_simps [simp]:
  "pa_blocked (removal_action env label iv o1) \<longleftrightarrow> oi_evidence o1 = []"
  "pa_kind (removal_action env label iv o1) = (if oi_evidence o1 = [] then ManualUnsupported else Remove)"
  "oi_evidence o1 \<noteq> [] \<Longrightarrow> pa_evidence (removal_action env label iv o1) = stable_evidence_items (oi_evidence o1)"
  "oi_evidence o1 \<noteq> [] \<Longrightarrow> pa_expected_source_hash (removal_action env label iv o1) = source_hash env o1"
  "oi_evidence o1 \<noteq> [] \<Longrightarrow> pa_risk (removal_action env label iv o1) = CriticalRisk"
  by (simp_all add: removal_action_def Let_def)

lemma removal_key:
  "oi_evidence o1 \<noteq> [] \<Longrightarrow> pa_runtime (removal_action env label iv o1) = oi_runtime o1 \<and> pa_server_id (removal_action env label iv o1) = oi_server_id o1"
  by (simp add: removal_action_def Let_def)

lemma plan_actions_cases:
  assumes "a \<in> set (pn_actions (generate_mcp_plan env i now st iv))"
  obtains (conflict) c where "c \<in> set (st_conflicts st)" "pa_kind a = ManualUnsupported" "pa_blocked a"
  | (desired) e where "e \<in> set (st_servers st)" "a \<in> set (desired_actions env (target_label (st_target st)) iv e)"
  | (removal) o1 where "o1 \<in> set (mi_observations iv)" "unwanted st o1" "a = removal_action env (target_label (st_target st)) iv o1"
  using assms by (auto simp: generate_mcp_plan_def plan_actions_def Let_def)

lemma plan_blocked:
  assumes "a \<in> set (pn_actions (generate_mcp_plan env i now st iv))"
  shows "pa_blocked a \<longleftrightarrow> pa_kind a \<in> gated_kinds"
  using assms by (cases rule: plan_actions_cases) (auto simp: gated_kinds_def dest: desired_blocked)

lemma plan_evidence:
  assumes "a \<in> set (pn_actions (generate_mcp_plan env i now st iv))" "\<not> pa_blocked a"
  shows "pa_evidence a \<noteq> [] \<and> pa_expected_source_hash a \<noteq> None"
  using assms(1)
proof (cases rule: plan_actions_cases)
  case (desired e)
  from desired(2) assms(2) show ?thesis
  proof (rule desired_actionE)
    fix o1 reason base
    assume "oi_evidence o1 \<noteq> []"
      and "a = plan_action env (pa_kind a) (target_label (st_target st)) e reason o1 (bt_get (observed_servers iv) (md_server_id (me_desired e))) base"
    then show ?thesis using source_hash_evidence [of o1 env] by (metis plan_action_simps(3,4) stable_items_Nil)
  qed
next
  case (removal o1)
  with assms(2) show ?thesis using source_hash_evidence [of o1 env] by auto
qed (use assms(2) in simp)

lemma plan_remove:
  assumes "a \<in> set (pn_actions (generate_mcp_plan env i now st iv))" "pa_kind a = Remove"
  obtains o1 where "o1 \<in> set (mi_observations iv)" "unwanted st o1" "oi_evidence o1 \<noteq> []"
    "pa_runtime a = oi_runtime o1" "pa_server_id a = oi_server_id o1" "pa_risk a = CriticalRisk"
  using assms(1)
proof (cases rule: plan_actions_cases)
  case (desired e)
  have "\<not> pa_blocked a" using assms(2) desired_blocked [OF desired(2)] by (simp add: gated_kinds_def)
  with desired(2) assms(2) show thesis by (auto elim: desired_actionE)
next
  case (removal o1)
  then have "oi_evidence o1 \<noteq> []" using assms(2) by (auto split: if_splits)
  with removal removal_key [OF this, of env "target_label (st_target st)" iv] show thesis by (intro that) simp_all
qed (use assms(2) in simp)

section \<open>Conflicts and removals\<close>

lemma length_mark_applied [simp]: "length (mark_applied b r xs) = length xs"
  by (induction xs) auto

lemma length_mark_fold: "length (foldl (\<lambda>res (p, b, s). mark_applied (pb_id b) r res) res es) = length res"
  by (induction es arbitrary: res) (auto split: prod.splits)

lemma resolution_length: "length (snd (snd (foldl resolve_server acc xs))) = length (snd (snd acc))"
proof (induction xs arbitrary: acc)
  case (Cons x xs)
  have "length (snd (snd (resolve_server acc x))) = length (snd (snd acc))"
    by (auto simp: resolve_server_def Let_def length_mark_fold split: prod.splits)
  with Cons show ?case by simp
qed simp

lemma resolution_Nil: "st_resolution (resolve_mcp_desired_state ps bs t) = [] \<longleftrightarrow> applicable ps bs t = []"
proof -
  let ?f = "foldl resolve_server ([], [], map initial_resolution (applicable ps bs t)) (by_server (candidate_list (applicable ps bs t)))"
  have "length (st_resolution (resolve_mcp_desired_state ps bs t)) = length (snd (snd ?f))"
    by (simp add: resolve_mcp_desired_state_def Let_def split: prod.split)
  also have "\<dots> = length (applicable ps bs t)" by (simp add: resolution_length)
  finally show ?thesis by (metis length_0_conv)
qed

lemma conflict_not_server:
  assumes "c \<in> set (st_conflicts (resolve_mcp_desired_state ps bs t))"
  shows "conflict_key c \<notin> server_key ` set (st_servers (resolve_mcp_desired_state ps bs t))"
proof
  let ?W = "wanted ps bs t (conflict_key c)"
  assume "conflict_key c \<in> server_key ` set (st_servers (resolve_mcp_desired_state ps bs t))"
  then obtain e where x: "e \<in> set (st_servers (resolve_mcp_desired_state ps bs t))" "server_key e = conflict_key c" by auto
  then have e: "?W (me_inherited_from e) = {me_desired e}" "\<forall>q. me_inherited_from e < q \<longrightarrow> ?W q = {}"
    using resolve_server_iff [of ps bs t "conflict_key c" "me_inherited_from e" "me_desired e"] by blast+
  have c: "\<exists>d \<in> ?W (mc_precedence c). \<exists>d' \<in> ?W (mc_precedence c). d \<noteq> d'" "\<forall>q. mc_precedence c < q \<longrightarrow> ?W q = {}"
    using assms resolve_conflict_iff [of ps bs t "conflict_key c" "mc_precedence c"] by blast+
  have "me_inherited_from e = mc_precedence c"
    by (rule linorder_cases [of "me_inherited_from e" "mc_precedence c"]) (use e c in auto)
  with e(1) c(1) show False by auto
qed

lemma conflict_applicable:
  assumes "c \<in> set (st_conflicts (resolve_mcp_desired_state ps bs t))"
  shows "applicable ps bs t \<noteq> []"
proof -
  have "wanted ps bs t (conflict_key c) (mc_precedence c) \<noteq> {}"
    using assms resolve_conflict_iff [of ps bs t "conflict_key c" "mc_precedence c"] by blast
  then show ?thesis by (auto simp: wanted_level level_of_def candidate_list_def)
qed

section \<open>Servers that need nothing\<close>






section \<open>Hashes do not depend on order or time\<close>

fun join_with :: "string \<Rightarrow> string list \<Rightarrow> string" where
  "join_with sep [] = []"
| "join_with sep [x] = x"
| "join_with sep (x # xs) = x @ sep @ join_with sep xs"

text \<open>
  What the JSON printer documents: arrays and objects are printed element by element.
\<close>

definition compact_json :: "mcp_env \<Rightarrow> bool" where
  "compact_json env \<longleftrightarrow>
     (\<forall>vs. mv_to_string env (VArr vs) = ''['' @ join_with '','' (map (mv_to_string env) vs) @ '']'')
     \<and> (\<forall>kvs. mv_to_string env (VObj kvs) =
          ''{'' @ join_with '','' (map (\<lambda>(k, v). mv_to_string env (VStr k) @ '':'' @ mv_to_string env v) kvs) @ ''}'')"

lemma collect_map_map: "map (map_prod id f) (collect_map kvs) = foldl (\<lambda>m p. bt_insert (fst p) (snd p) m) [] (map (map_prod id f) kvs)"
proof (induction kvs rule: rev_induct)
  case (snoc kv kvs)
  have "map (map_prod id f) (collect_map (kvs @ [kv])) = map (map_prod id f) (bt_insert (fst kv) (snd kv) (collect_map kvs))"
    by (simp add: collect_map_def)
  also have "\<dots> = bt_insert (fst kv) (f (snd kv)) (map (map_prod id f) (collect_map kvs))"
    by (rule bt_insert_map [symmetric])
  finally show ?case unfolding snoc.IH by (cases kv) (simp add: id_def)
qed (simp add: collect_map_def)

lemma print_object:
  assumes "compact_json env" "map (map_prod id (mv_to_string env)) kvs = map (map_prod id (mv_to_string env)) kvs'"
  shows "mv_to_string env (jobj kvs) = mv_to_string env (jobj kvs')"
proof -
  let ?p = "mv_to_string env"
  have print: "?p (jobj xs) = ''{'' @ join_with '','' (map (\<lambda>(k, v). ?p (VStr k) @ '':'' @ v) (map (map_prod id ?p) (collect_map xs))) @ ''}''" for xs
    using assms(1) by (simp add: compact_json_def jobj_def comp_def case_prod_unfold)
  have "map (map_prod id ?p) (collect_map kvs) = map (map_prod id ?p) (collect_map kvs')"
    by (simp add: collect_map_map assms(2))
  then show ?thesis by (simp add: print)
qed

lemma print_sorted:
  assumes "compact_json env" "mset (map (mv_to_string env) vs) = mset (map (mv_to_string env) vs')"
  shows "mv_to_string env (VArr (sort_values env vs)) = mv_to_string env (VArr (sort_values env vs'))"
proof -
  have "sort (map (mv_to_string env) vs) = sort (map (mv_to_string env) vs')"
    using assms(2) by (metis properties_for_sort mset_sort sorted_sort)
  then show ?thesis using assms(1) by (simp add: compact_json_def sort_values_def map_sort_key)
qed

definition evidence_print :: "mcp_env \<Rightarrow> mcp_evidence list \<Rightarrow> string" where
  "evidence_print env es = mv_to_string env (VArr (stable_evidence env es))"

lemma evidence_print_mset:
  assumes "compact_json env" "mset es = mset es'"
  shows "evidence_print env es = evidence_print env es'"
  unfolding evidence_print_def stable_evidence_def by (rule print_sorted [OF assms(1)]) (simp add: assms(2))

text \<open>What a hash may depend on: everything but times and the order of the lists.\<close>

definition server_core :: "mcp_server \<Rightarrow> mcp_server \<times> string multiset \<times> mcp_evidence multiset" where
  "server_core s = (s\<lparr>ms_aliases := [], ms_provenance := []\<rparr>, mset (ms_aliases s), mset (ms_provenance s))"

definition observation_core :: "observed_mcp_instance \<Rightarrow> observed_mcp_instance \<times> mcp_evidence multiset" where
  "observation_core o1 = (o1\<lparr>oi_evidence := [], oi_observed_at := []\<rparr>, mset (oi_evidence o1))"

definition diagnostic_core :: "mcp_diagnostic \<Rightarrow> mcp_diagnostic \<times> mcp_evidence multiset" where
  "diagnostic_core d = (d\<lparr>dg_evidence := [], dg_observed_at := []\<rparr>, mset (dg_evidence d))"

lemma server_print:
  assumes "compact_json env" "server_core s = server_core s'"
  shows "mv_to_string env (stable_server env s) = mv_to_string env (stable_server env s')"
proof -
  have c: "s\<lparr>ms_aliases := [], ms_provenance := []\<rparr> = s'\<lparr>ms_aliases := [], ms_provenance := []\<rparr>"
    using assms(2) by (simp add: server_core_def)
  have f: "ms_id s = ms_id s'" "ms_canonical_name s = ms_canonical_name s'" "ms_definition s = ms_definition s'"
      "ms_endpoint_fingerprint s = ms_endpoint_fingerprint s'" "ms_secret_refs s = ms_secret_refs s'"
    using arg_cong [OF c, of ms_id] arg_cong [OF c, of ms_canonical_name] arg_cong [OF c, of ms_definition]
      arg_cong [OF c, of ms_endpoint_fingerprint] arg_cong [OF c, of ms_secret_refs] by simp_all
  have "sort (ms_aliases s) = sort (ms_aliases s')" using assms(2)
    by (metis server_core_def prod.inject properties_for_sort mset_sort sorted_sort)
  moreover have "evidence_print env (ms_provenance s) = evidence_print env (ms_provenance s')"
    using assms by (intro evidence_print_mset) (auto simp: server_core_def)
  ultimately show ?thesis unfolding stable_server_def f evidence_print_def
    by (intro print_object [OF assms(1)]) simp
qed

lemma observation_print:
  assumes "compact_json env" "observation_core s = observation_core s'"
  shows "mv_to_string env (stable_observation env s) = mv_to_string env (stable_observation env s')"
proof -
  have c: "s\<lparr>oi_evidence := [], oi_observed_at := []\<rparr> = s'\<lparr>oi_evidence := [], oi_observed_at := []\<rparr>"
    using assms(2) by (simp add: observation_core_def)
  have f: "oi_runtime s = oi_runtime s'" "oi_server_id s = oi_server_id s'" "oi_alias s = oi_alias s'" "oi_source_path s = oi_source_path s'"
      "oi_discoverable s = oi_discoverable s'" "oi_configured s = oi_configured s'" "oi_loaded s = oi_loaded s'" "oi_enabled s = oi_enabled s'"
      "oi_approved s = oi_approved s'" "oi_authenticated s = oi_authenticated s'" "oi_healthy s = oi_healthy s'" "oi_startup s = oi_startup s'"
      "oi_current_session_visible s = oi_current_session_visible s'" "oi_invoked s = oi_invoked s'" "oi_tool_count s = oi_tool_count s'"
      "oi_schema_hash s = oi_schema_hash s'"
    using arg_cong [OF c, of oi_runtime] arg_cong [OF c, of oi_server_id] arg_cong [OF c, of oi_alias] arg_cong [OF c, of oi_source_path] arg_cong [OF c, of oi_discoverable] arg_cong [OF c, of oi_configured] arg_cong [OF c, of oi_loaded] arg_cong [OF c, of oi_enabled] arg_cong [OF c, of oi_approved] arg_cong [OF c, of oi_authenticated] arg_cong [OF c, of oi_healthy] arg_cong [OF c, of oi_startup] arg_cong [OF c, of oi_current_session_visible] arg_cong [OF c, of oi_invoked] arg_cong [OF c, of oi_tool_count] arg_cong [OF c, of oi_schema_hash] by simp_all
  have "evidence_print env (oi_evidence s) = evidence_print env (oi_evidence s')"
    using assms by (intro evidence_print_mset) (auto simp: observation_core_def)
  then show ?thesis unfolding stable_observation_def f evidence_print_def
    by (intro print_object [OF assms(1)]) simp
qed

lemma diagnostic_print:
  assumes "compact_json env" "diagnostic_core s = diagnostic_core s'"
  shows "mv_to_string env (stable_diagnostic env s) = mv_to_string env (stable_diagnostic env s')"
proof -
  have f: "dg_code s = dg_code s'" "dg_severity s = dg_severity s'" "dg_runtime s = dg_runtime s'" "dg_server_id s = dg_server_id s'"
      "dg_message s = dg_message s'"
    using assms(2) by (cases s; cases s'; simp add: diagnostic_core_def)+
  have "evidence_print env (dg_evidence s) = evidence_print env (dg_evidence s')"
    using assms by (intro evidence_print_mset) (auto simp: diagnostic_core_def)
  then show ?thesis unfolding stable_diagnostic_def f evidence_print_def
    by (intro print_object [OF assms(1)]) simp
qed

lemma mset_print_core:
  assumes "mset (map core xs) = mset (map core ys)" "\<And>x y. core x = core y \<Longrightarrow> print x = print y"
  shows "mset (map print xs) = mset (map print ys)"
proof -
  obtain g where g: "\<And>x. print x = g (core x)"
  proof (rule that)
    show "print x = (\<lambda>c. print (SOME y. core y = c)) (core x)" for x
      by (rule assms(2)) (metis (mono_tags, lifting) someI_ex)
  qed
  have "image_mset g (mset (map core xs)) = image_mset g (mset (map core ys))" by (simp only: assms(1))
  then show ?thesis by (simp add: multiset.map_comp comp_def g [symmetric] flip: mset_map)
qed

definition same_inventory :: "mcp_inventory \<Rightarrow> mcp_inventory \<Rightarrow> bool" where
  "same_inventory iv iv' \<longleftrightarrow> mset (map server_core (mi_servers iv)) = mset (map server_core (mi_servers iv'))
     \<and> mset (map observation_core (mi_observations iv)) = mset (map observation_core (mi_observations iv'))
     \<and> mset (map diagnostic_core (mi_diagnostics iv)) = mset (map diagnostic_core (mi_diagnostics iv'))"

lemma hash_observation_same:
  assumes "compact_json env" "same_inventory iv iv'"
  shows "hash_mcp_observation env iv = hash_mcp_observation env iv'"
proof -
  have s: "mv_to_string env (VArr (sort_values env (map (stable_server env) (mi_servers iv))))
      = mv_to_string env (VArr (sort_values env (map (stable_server env) (mi_servers iv'))))"
  proof (rule print_sorted [OF assms(1)])
    show "mset (map (mv_to_string env) (map (stable_server env) (mi_servers iv))) = mset (map (mv_to_string env) (map (stable_server env) (mi_servers iv')))"
      unfolding map_map using assms(2)
      by - (rule mset_print_core [of server_core], simp add: same_inventory_def, simp only: comp_apply, rule server_print [OF assms(1)])
  qed
  have o: "mv_to_string env (VArr (sort_values env (map (stable_observation env) (mi_observations iv))))
      = mv_to_string env (VArr (sort_values env (map (stable_observation env) (mi_observations iv'))))"
  proof (rule print_sorted [OF assms(1)])
    show "mset (map (mv_to_string env) (map (stable_observation env) (mi_observations iv))) = mset (map (mv_to_string env) (map (stable_observation env) (mi_observations iv')))"
      unfolding map_map using assms(2)
      by - (rule mset_print_core [of observation_core], simp add: same_inventory_def, simp only: comp_apply, rule observation_print [OF assms(1)])
  qed
  have d: "mv_to_string env (VArr (sort_values env (map (stable_diagnostic env) (mi_diagnostics iv))))
      = mv_to_string env (VArr (sort_values env (map (stable_diagnostic env) (mi_diagnostics iv'))))"
  proof (rule print_sorted [OF assms(1)])
    show "mset (map (mv_to_string env) (map (stable_diagnostic env) (mi_diagnostics iv))) = mset (map (mv_to_string env) (map (stable_diagnostic env) (mi_diagnostics iv')))"
      unfolding map_map using assms(2)
      by - (rule mset_print_core [of diagnostic_core], simp add: same_inventory_def, simp only: comp_apply, rule diagnostic_print [OF assms(1)])
  qed
  show ?thesis unfolding hash_mcp_observation_def hash_value_def
    by (intro arg_cong [of _ _ "\<lambda>s. hex_digest (mv_digest env s)"] print_object [OF assms(1)]) (simp only: list.map map_prod_simp s o d)
qed

section \<open>Properties\<close>

primrec print_json :: "jvalue \<Rightarrow> string" where
  "print_json VNull = ''null''"
| "print_json (VBool b) = (if b then ''true'' else ''false'')"
| "print_json (VNum n) = replicate (nat n) CHR ''1''"
| "print_json (VStr s) = [CHR 0x22] @ s @ [CHR 0x22]"
| "print_json (VArr vs) = ''['' @ join_with '','' (map print_json vs) @ '']''"
| "print_json (VObj kvs) = ''{'' @ join_with '','' (map (\<lambda>p. [CHR 0x22] @ fst p @ [CHR 0x22] @ '':'' @ snd p) (map (map_prod id print_json) kvs)) @ ''}''"

definition wit_env :: mcp_env where
  "wit_env = \<lparr>mv_to_string = print_json, mv_digest = (\<lambda>s. s)\<rparr>"

lemma wit_env_compact: "compact_json wit_env"
  by (simp add: compact_json_def wit_env_def comp_def case_prod_unfold)

definition wit_docs :: "bool \<Rightarrow> mcp_desired_server" where
  "wit_docs en = \<lparr>md_server_id = ''docs'', md_runtime = ''codex'', md_alias = ''docs'', md_definition = None, md_desired_enabled = en,
     md_allow_tools = [], md_deny_tools = [], md_approval_mode = ManualApproval, md_risk_override = None, md_secret_refs = []\<rparr>"

definition wit_profile :: "string \<Rightarrow> bool \<Rightarrow> mcp_profile" where
  "wit_profile i en = \<lparr>mp_id = i, mp_name = i, mp_description = None, mp_version = 1, mp_servers = [wit_docs en], mp_created_at = [], mp_updated_at = []\<rparr>"

definition wit_bind :: "string \<Rightarrow> string \<Rightarrow> mcp_binding_target_type \<Rightarrow> string \<Rightarrow> mcp_profile_binding" where
  "wit_bind i p lv tid = \<lparr>pb_id = i, pb_profile_id = p, pb_target = \<lparr>bt_target_type = lv, bt_target_id = tid\<rparr>, pb_version = 1, pb_created_at = [], pb_updated_at = []\<rparr>"

definition wit_ps :: "mcp_profile list" where
  "wit_ps = [wit_profile ''on'' True, wit_profile ''off'' False]"

definition wit_tgt :: mcp_desired_target where
  "wit_tgt = \<lparr>dt_machine_id = ''m'', dt_workspace_id = None, dt_agent_id = Some ''a''\<rparr>"

definition wit_layered :: "mcp_profile_binding list" where
  "wit_layered = [wit_bind ''b1'' ''on'' TMachine ''m'', wit_bind ''b2'' ''off'' TAgent ''a'']"

definition wit_clash :: "mcp_profile_binding list" where
  "wit_clash = [wit_bind ''b2'' ''off'' TAgent ''a'', wit_bind ''b3'' ''on'' TAgent ''a'']"

definition wit_ev :: "string \<Rightarrow> mcp_evidence" where
  "wit_ev s = \<lparr>ev_source = s, ev_detail = [], ev_source_path = None, ev_proves_runtime_loaded = False, ev_proves_current_session_visibility = False\<rparr>"

definition wit_obs :: "string \<Rightarrow> mcp_evidence list \<Rightarrow> observed_mcp_instance" where
  "wit_obs now evs = \<lparr>oi_runtime = ''codex'', oi_server_id = ''docs'', oi_alias = ''docs'', oi_source_path = None, oi_discoverable = True,
     oi_configured = True, oi_loaded = None, oi_enabled = Some True, oi_approved = Some True, oi_authenticated = Some True, oi_healthy = None,
     oi_startup = None, oi_current_session_visible = None, oi_invoked = None, oi_tool_count = None, oi_schema_hash = None,
     oi_evidence = evs, oi_observed_at = now\<rparr>"

definition wit_inventory :: "string \<Rightarrow> mcp_evidence list \<Rightarrow> mcp_inventory" where
  "wit_inventory now evs = \<lparr>mi_servers = [], mi_bindings = [], mi_observations = [wit_obs now evs], mi_diagnostics = [], mi_observed_at = now\<rparr>"

text \<open>
  C23. Resolution is the highest bound level: a server is in the effective state with a desired state
  \<open>d\<close> inherited from a level exactly when the profiles bound at that level ask for \<open>d\<close> and nothing
  else, and no profile bound at a higher level mentions it; it is reported as a conflict exactly when
  the highest level that mentions it asks for two different things. No server is both.
\<close>

theorem mcp_resolution_highest_level:
  "((\<exists>e \<in> set (st_servers (resolve_mcp_desired_state ps bs t)). server_key e = k \<and> me_inherited_from e = lv \<and> me_desired e = d)
      \<longleftrightarrow> wanted ps bs t k lv = {d} \<and> (\<forall>q. lv < q \<longrightarrow> wanted ps bs t k q = {}))
   \<and> ((\<exists>c \<in> set (st_conflicts (resolve_mcp_desired_state ps bs t)). conflict_key c = k \<and> mc_precedence c = lv)
      \<longleftrightarrow> (\<exists>d \<in> wanted ps bs t k lv. \<exists>d' \<in> wanted ps bs t k lv. d \<noteq> d') \<and> (\<forall>q. lv < q \<longrightarrow> wanted ps bs t k q = {}))
   \<and> server_key ` set (st_servers (resolve_mcp_desired_state ps bs t)) \<inter> conflict_key ` set (st_conflicts (resolve_mcp_desired_state ps bs t)) = {}"
proof (intro conjI equals0I)
  fix x
  assume x: "x \<in> server_key ` set (st_servers (resolve_mcp_desired_state ps bs t)) \<inter> conflict_key ` set (st_conflicts (resolve_mcp_desired_state ps bs t))"
  then obtain c where c: "c \<in> set (st_conflicts (resolve_mcp_desired_state ps bs t))" "x = conflict_key c" by blast
  show False using conflict_not_server [OF c(1)] x unfolding c(2) by simp
qed (rule resolve_server_iff, rule resolve_conflict_iff)

theorem mcp_resolution_highest_level_witness:
  "wanted wit_ps wit_layered wit_tgt (''codex'', ''docs'') TAgent = {wit_docs False}"
proof -
  have "\<exists>e \<in> set (st_servers (resolve_mcp_desired_state wit_ps wit_layered wit_tgt)).
      server_key e = (''codex'', ''docs'') \<and> me_inherited_from e = TAgent \<and> me_desired e = wit_docs False" by code_simp
  then show ?thesis using mcp_resolution_highest_level [of wit_ps wit_layered wit_tgt "(''codex'', ''docs'')" TAgent "wit_docs False"] by blast
qed

text \<open>
  C24. What a plan may do on its own: an action is blocked exactly when it is a manual, approval or
  authentication step; every other action rests on evidence and on the hash of its source; and a
  removal is critical and only of a server that is configured now and that the effective state does
  not contain.
\<close>

theorem mcp_plan_gated:
  assumes "a \<in> set (pn_actions (generate_mcp_plan env i now st iv))"
  shows "(pa_blocked a \<longleftrightarrow> pa_kind a \<in> {ApprovalRequired, AuthenticationRequired, ManualUnsupported})
    \<and> (\<not> pa_blocked a \<longrightarrow> pa_evidence a \<noteq> [] \<and> pa_expected_source_hash a \<noteq> None)
    \<and> (pa_kind a = Remove \<longrightarrow> pa_risk a = CriticalRisk \<and> (pa_runtime a, pa_server_id a) \<notin> server_key ` set (st_servers st)
         \<and> (\<exists>o1 \<in> set (mi_observations iv). oi_configured o1 \<and> oi_runtime o1 = pa_runtime a \<and> oi_server_id o1 = pa_server_id a))"
proof (intro conjI impI)
  show "pa_blocked a \<longleftrightarrow> pa_kind a \<in> {ApprovalRequired, AuthenticationRequired, ManualUnsupported}"
    using plan_blocked [OF assms] by (simp add: gated_kinds_def)
  show "pa_evidence a \<noteq> []" "pa_expected_source_hash a \<noteq> None" if "\<not> pa_blocked a"
    using plan_evidence [OF assms that] by simp_all
  assume "pa_kind a = Remove"
  with assms show "pa_risk a = CriticalRisk" "(pa_runtime a, pa_server_id a) \<notin> server_key ` set (st_servers st)"
    "\<exists>o1 \<in> set (mi_observations iv). oi_configured o1 \<and> oi_runtime o1 = pa_runtime a \<and> oi_server_id o1 = pa_server_id a"
    by (auto elim!: plan_remove simp: unwanted_def)
qed

definition wit_plan :: "mcp_profile_binding list \<Rightarrow> mcp_plan" where
  "wit_plan bs = generate_mcp_plan wit_env ''p'' ''now'' (resolve_mcp_desired_state wit_ps bs wit_tgt) (wit_inventory ''t'' [wit_ev ''cfg''])"

definition wit_actions :: "mcp_plan_action list" where
  "wit_actions = sort_key action_order (plan_actions wit_env (resolve_mcp_desired_state wit_ps wit_layered wit_tgt) (wit_inventory ''t'' [wit_ev ''cfg'']))"

lemma wit_actions: "pn_actions (wit_plan wit_layered) = wit_actions"
  by (simp add: wit_plan_def generate_mcp_plan_def wit_actions_def Let_def)

theorem mcp_plan_gated_witness:
  "pa_evidence (hd (pn_actions (wit_plan wit_layered))) \<noteq> [] \<and> pa_kind (hd (pn_actions (wit_plan wit_layered))) = Disable"
proof -
  have "hd wit_actions \<in> set wit_actions" "\<not> pa_blocked (hd wit_actions)" "pa_kind (hd wit_actions) = Disable" by code_simp+
  note h = this [folded wit_actions]
  show ?thesis using mcp_plan_gated [OF h(1) [unfolded wit_plan_def], folded wit_plan_def] h(2,3) by blast
qed


text \<open>
  A conflict does not protect a server from removal: when profiles of the same level disagree on
  a server that is configured and observed with evidence, the plan contains, next to the blocked
  manual step for the conflict, an unblocked removal of that server.
\<close>

theorem conflict_still_removed:
  assumes "c \<in> set (st_conflicts (resolve_mcp_desired_state ps bs t))" "o1 \<in> set (mi_observations iv)"
    "oi_configured o1" "oi_evidence o1 \<noteq> []" "conflict_key c = (oi_runtime o1, oi_server_id o1)"
  shows "(Remove, conflict_key c, False)
    \<in> (\<lambda>a. (pa_kind a, (pa_runtime a, pa_server_id a), pa_blocked a)) ` set (pn_actions (generate_mcp_plan env i now (resolve_mcp_desired_state ps bs t) iv))"
proof -
  let ?st = "resolve_mcp_desired_state ps bs t" and ?l = "target_label (st_target (resolve_mcp_desired_state ps bs t))"
  have "unwanted ?st o1"
    using assms conflict_not_server [OF assms(1)] conflict_applicable [OF assms(1)] by (simp add: unwanted_def resolution_Nil)
  then have "removal_action env ?l iv o1 \<in> set (pn_actions (generate_mcp_plan env i now ?st iv))"
    using assms(2) by (auto simp: generate_mcp_plan_def plan_actions_def Let_def)
  then show ?thesis using assms(4,5) removal_key [OF assms(4), of env ?l iv] by (intro image_eqI) auto
qed

theorem conflict_still_removed_witness:
  "(Remove, (''codex'', ''docs''), False)
     \<in> (\<lambda>a. (pa_kind a, (pa_runtime a, pa_server_id a), pa_blocked a)) ` set (pn_actions (wit_plan wit_clash))"
proof -
  let ?c = "hd (st_conflicts (resolve_mcp_desired_state wit_ps wit_clash wit_tgt))"
  have h: "?c \<in> set (st_conflicts (resolve_mcp_desired_state wit_ps wit_clash wit_tgt))"
    "wit_obs ''t'' [wit_ev ''cfg''] \<in> set (mi_observations (wit_inventory ''t'' [wit_ev ''cfg'']))"
    "oi_configured (wit_obs ''t'' [wit_ev ''cfg''])" "oi_evidence (wit_obs ''t'' [wit_ev ''cfg'']) \<noteq> []"
    and k: "conflict_key ?c = (oi_runtime (wit_obs ''t'' [wit_ev ''cfg'']), oi_server_id (wit_obs ''t'' [wit_ev ''cfg'']))" by code_simp+
  from conflict_still_removed [OF h k, of wit_env "''p''" "''now''", unfolded k, folded wit_plan_def] show ?thesis
    by (simp only: wit_obs_def observed_mcp_instance.select_convs)
qed

text \<open>
  The observation hash a plan is bound to depends only on what was observed: two inventories that
  differ in the order of servers, observations, diagnostics, aliases and evidence, and in all the
  times of observation, have the same hash, provided the JSON printer prints arrays and objects
  element by element.
\<close>

theorem observation_hash_invariant:
  assumes "compact_json env" "same_inventory iv iv'"
  shows "hash_mcp_observation env iv = hash_mcp_observation env iv'"
  using assms by (rule hash_observation_same)

theorem observation_hash_invariant_witness:
  "hash_mcp_observation wit_env (wit_inventory ''t1'' [wit_ev ''x'', wit_ev ''y'']) = hash_mcp_observation wit_env (wit_inventory ''t2'' [wit_ev ''y'', wit_ev ''x''])"
  by (rule observation_hash_invariant [OF wit_env_compact])
    (simp add: same_inventory_def wit_inventory_def wit_obs_def observation_core_def add_mset_commute)

text \<open>
  Validation carries through resolution: when every profile passes validation, every server of
  the effective state does, so no effective server carries a suspected plaintext secret, a secret
  reference outside the approved schemes, or a tool both allowed and denied.
\<close>

theorem effective_servers_validated:
  assumes "list_all (\<lambda>p. validate_mcp_profile p = Inr ()) ps" "e \<in> set (st_servers (resolve_mcp_desired_state ps bs t))"
  shows "validate_server (me_desired e) = Inr ()"
  using effective_server_valid [OF _ assms(2)] assms(1) by (simp add: list_all_iff)

theorem effective_servers_validated_witness:
  "validate_server (me_desired (hd (st_servers (resolve_mcp_desired_state wit_ps wit_layered wit_tgt)))) = Inr ()"
proof (rule effective_servers_validated)
  show "list_all (\<lambda>p. validate_mcp_profile p = Inr ()) wit_ps" by code_simp
  show "hd (st_servers (resolve_mcp_desired_state wit_ps wit_layered wit_tgt)) \<in> set (st_servers (resolve_mcp_desired_state wit_ps wit_layered wit_tgt))" by code_simp
qed

end
