(* ===== verification/McpConfig.thy ===== *)
theory McpConfig
  imports McpPlan
begin

text \<open>
  MCP servers in the configuration files of the runtimes (\<open>crates/cocli-server/src/mcp.rs\<close>): reading a
  server from JSON or TOML with credentials redacted, detecting credentials in a file, and the edit
  that an approved action makes to a JSON configuration. The JSON parser is a parameter.
\<close>

section \<open>Strings\<close>

text \<open>\<open>rsplit_once\<close> on a character\<close>

definition rsplit_once_char :: "char \<Rightarrow> string \<Rightarrow> (string \<times> string) option" where
  "rsplit_once_char c s =
     (if c \<in> set s
      then Some (rev (drop 1 (dropWhile (\<lambda>x. x \<noteq> c) (rev s))), rev (takeWhile (\<lambda>x. x \<noteq> c) (rev s)))
      else None)"

text \<open>\<open>trim_matches\<close> on a set of ASCII characters\<close>

definition trim_matches :: "char list \<Rightarrow> string \<Rightarrow> string" where
  "trim_matches cs s = rev (dropWhile (\<lambda>c. c \<in> set cs) (rev (dropWhile (\<lambda>c. c \<in> set cs) s)))"

definition strip_suffix :: "string \<Rightarrow> string \<Rightarrow> string option" where
  "strip_suffix p s = map_option rev (strip_prefix (rev p) (rev s))"

definition quote_char :: char where "quote_char = CHR 0x22"

definition apostrophe :: char where "apostrophe = CHR 0x27"

definition backslash :: char where "backslash = CHR 0x5C"

text \<open>The characters of a well-formed text, each as its bytes.\<close>

function utf8_chars :: "string \<Rightarrow> string list" where
  "utf8_chars s = (if s = [] then [] else
     let n = (if utf8_len s = 0 then 1 else utf8_len s) in take n s # utf8_chars (drop n s))"
  by pat_completeness auto
termination
  by (relation "measure length") (auto simp: Let_def)

declare utf8_chars.simps [simp del]

section \<open>Redaction\<close>

definition secret_like :: "string \<Rightarrow> bool" where
  "secret_like s =
     (let lower = to_ascii_lowercase s
      in list_ex (contains lower)
           [''token'', ''secret'', ''api_key'', ''api-key'', ''apikey'', ''access_key'', ''access-key'', ''client-secret'',
            ''password'', ''authorization'', ''bearer'']
         \<or> list_ex (starts_with lower) [''sk-'', ''sk_'', ''ghp_'', ''github_pat_'', ''xox'', ''eyj''])"

definition redacted :: string where
  "redacted = ''<redacted>''"

definition redact_base :: "string \<Rightarrow> string" where
  "redact_base base =
     (case split_once ''://'' base of
        None \<Rightarrow> base
      | Some (scheme, remainder) \<Rightarrow>
          (case rsplit_once_char CHR ''@'' remainder of
             None \<Rightarrow> base
           | Some (_, host) \<Rightarrow> scheme @ ''://'' @ redacted @ ''@'' @ host))"

definition redact_query_part :: "string \<Rightarrow> string" where
  "redact_query_part part =
     (case split_once ''='' part of
        None \<Rightarrow> part
      | Some (key, v) \<Rightarrow> if secret_like key then key @ ''='' @ redacted else key @ ''='' @ v)"

definition redact_url :: "string \<Rightarrow> string" where
  "redact_url s =
     (case split_once ''?'' s of
        None \<Rightarrow> redact_base s
      | Some (base, query) \<Rightarrow>
          if query = [] then redact_base base
          else redact_base base @ ''?'' @ join_with ''&'' (map redact_query_part (split_on CHR ''&'' query)))"

definition redact_text :: "string \<Rightarrow> string" where
  "redact_text s = (if secret_like s then redacted else redact_url s)"

fun redact_from :: "bool \<Rightarrow> string list \<Rightarrow> string list" where
  "redact_from redact_next [] = []"
| "redact_from True (arg # args) = redacted # redact_from False args"
| "redact_from False (arg # args) =
     (case split_once ''='' arg of
        Some (key, v) \<Rightarrow>
          (if secret_like key then key @ ''='' @ redacted else key @ ''='' @ redact_url v) # redact_from False args
      | None \<Rightarrow>
          if secret_like arg then
            (if starts_with arg ''--'' then arg # redact_from True args else redacted # redact_from False args)
          else redact_url arg # redact_from False args)"

definition redact_args :: "string list \<Rightarrow> string list" where
  "redact_args args = redact_from False args"

definition looks_unauthorized :: "string \<Rightarrow> bool" where
  "looks_unauthorized s =
     list_ex (contains (to_ascii_lowercase s)) [''unauthorized'', ''not authenticated'', ''permission denied'', ''login'']"

section \<open>JSON values\<close>

definition as_object :: "jvalue \<Rightarrow> (string, jvalue) btree option" where
  "as_object v = (case v of VObj m \<Rightarrow> Some m | _ \<Rightarrow> None)"

definition as_array :: "jvalue \<Rightarrow> jvalue list option" where
  "as_array v = (case v of VArr xs \<Rightarrow> Some xs | _ \<Rightarrow> None)"

definition as_str :: "jvalue \<Rightarrow> string option" where
  "as_str v = (case v of VStr s \<Rightarrow> Some s | _ \<Rightarrow> None)"

definition as_bool :: "jvalue \<Rightarrow> bool option" where
  "as_bool v = (case v of VBool b \<Rightarrow> Some b | _ \<Rightarrow> None)"

definition as_u64 :: "jvalue \<Rightarrow> nat option" where
  "as_u64 v = (case v of VNum n \<Rightarrow> if 0 \<le> n \<and> n < 2 ^ 64 then Some (nat n) else None | _ \<Rightarrow> None)"

text \<open>\<open>Value::get\<close> with a key, and the first of several keys that is present\<close>

definition json_get :: "jvalue \<Rightarrow> string \<Rightarrow> jvalue option" where
  "json_get v k = Option.bind (as_object v) (\<lambda>m. bt_get m k)"

fun first_of :: "(string, jvalue) btree \<Rightarrow> string list \<Rightarrow> jvalue option" where
  "first_of m [] = None"
| "first_of m (k # ks) = (case bt_get m k of Some v \<Rightarrow> Some v | None \<Rightarrow> first_of m ks)"

definition json_first :: "jvalue \<Rightarrow> string list \<Rightarrow> jvalue option" where
  "json_first v ks = (case as_object v of None \<Rightarrow> None | Some m \<Rightarrow> first_of m ks)"

section \<open>Servers of a configuration file\<close>

record server_definition =
  sd_alias :: string
  sd_definition :: mcp_canonical_definition
  sd_desired_enabled :: "bool option"
  sd_policy :: "string option"
  sd_secret_refs :: "mcp_secret_ref list"
  sd_plaintext_secret :: bool

definition secret_refs :: "string \<Rightarrow> string list \<Rightarrow> mcp_secret_ref list" where
  "secret_refs alias keys =
     map (\<lambda>key. \<lparr>sr_location = ''mcpServers.'' @ alias @ ''.env'', sr_kind = ''env'', sr_reference = key\<rparr>) (filter secret_like keys)"

definition json_transport :: "(string, jvalue) btree \<Rightarrow> mcp_transport" where
  "json_transport m =
     (let otherwise = (if first_of m [''url'', ''endpoint''] \<noteq> None then Http
                       else if bt_get m ''command'' \<noteq> None then Stdio else UnknownTransport)
      in case Option.bind (first_of m [''transport'', ''type'']) as_str of
           None \<Rightarrow> otherwise
         | Some t \<Rightarrow>
             if t = ''sse'' then Sse
             else if t \<in> {''streamable-http'', ''streamableHttp''} then StreamableHttp
             else if t \<in> {''http'', ''remote''} then Http
             else if t \<in> {''stdio'', ''local''} then Stdio
             else otherwise)"

definition json_enabled :: "(string, jvalue) btree \<Rightarrow> bool option" where
  "json_enabled m =
     (case Option.bind (bt_get m ''enabled'') as_bool of
        Some b \<Rightarrow> Some b
      | None \<Rightarrow> map_option Not (Option.bind (bt_get m ''disabled'') as_bool))"

definition server_from_value :: "mcp_env \<Rightarrow> string \<Rightarrow> jvalue \<Rightarrow> server_definition option" where
  "server_from_value env alias v =
     (case as_object v of
        None \<Rightarrow> None
      | Some m \<Rightarrow>
          (let safe_alias = redact_text alias;
               args = (case Option.bind (bt_get m ''args'') as_array of
                         None \<Rightarrow> [] | Some xs \<Rightarrow> redact_args (List.map_filter as_str xs));
               refs = (case Option.bind (bt_get m ''env'') as_object of
                         None \<Rightarrow> [] | Some e \<Rightarrow> secret_refs safe_alias (map fst e))
           in Some \<lparr>sd_alias = safe_alias,
                    sd_definition =
                      \<lparr>cd_transport = json_transport m,
                       cd_command = map_option redact_text (Option.bind (bt_get m ''command'') as_str),
                       cd_args = args,
                       cd_endpoint = map_option redact_url (Option.bind (first_of m [''url'', ''endpoint'']) as_str)\<rparr>,
                    sd_desired_enabled = json_enabled m,
                    sd_policy = map_option (\<lambda>p. redact_text (mv_to_string env p)) (first_of m [''approval'', ''policy'', ''required'']),
                    sd_secret_refs = refs,
                    sd_plaintext_secret = (refs \<noteq> [] \<or> redacted \<in> set args)\<rparr>))"

definition parse_json_servers :: "(string \<Rightarrow> jvalue option) \<Rightarrow> mcp_env \<Rightarrow> string \<Rightarrow> string + server_definition list" where
  "parse_json_servers parse env s =
     (case parse s of
        None \<Rightarrow> Inl ''MCP config contains invalid JSON''
      | Some v \<Rightarrow>
          (case Option.bind (json_first v [''mcpServers'', ''mcp_servers'', ''mcp'']) as_object of
             None \<Rightarrow> Inr []
           | Some servers \<Rightarrow> Inr (List.map_filter (\<lambda>(alias, x). server_from_value env alias x) servers)))"

section \<open>TOML\<close>

definition toml_server_alias :: "string \<Rightarrow> string option" where
  "toml_server_alias section =
     (case List.map_filter (\<lambda>p. strip_prefix p section) [''mcp_servers.'', ''mcpServers.'', ''mcp.''] of
        [] \<Rightarrow> None
      | alias # _ \<Rightarrow> Some (trim_matches [quote_char] alias))"

definition toml_string :: "string \<Rightarrow> string option" where
  "toml_string v0 =
     (let v = trim v0
      in if v \<noteq> [] \<and> hd v = quote_char \<and> last v = quote_char \<and> 2 \<le> length v then Some (butlast (tl v)) else None)"

definition parse_toml_string_array :: "(string \<Rightarrow> jvalue option) \<Rightarrow> string \<Rightarrow> string list" where
  "parse_toml_string_array parse v =
     (case parse v of
        Some (VArr xs) \<Rightarrow> if list_all (\<lambda>x. as_str x \<noteq> None) xs then List.map_filter as_str xs else []
      | _ \<Rightarrow> [])"

definition bracketed :: "string \<Rightarrow> string option" where
  "bracketed line = Option.bind (strip_prefix ''['' line) (strip_suffix '']'')"

type_synonym toml_raw = "(string, (string, string) btree) btree"

definition toml_step :: "string option \<times> toml_raw \<Rightarrow> string \<Rightarrow> string option \<times> toml_raw" where
  "toml_step st raw_line =
     (let line = trim raw_line
      in if line = [] \<or> starts_with line ''#'' then st
         else case bracketed line of
                Some section \<Rightarrow> (toml_server_alias section, snd st)
              | None \<Rightarrow>
                  (case fst st of
                     None \<Rightarrow> st
                   | Some alias \<Rightarrow>
                       (case split_once ''='' line of
                          None \<Rightarrow> st
                        | Some (key, v) \<Rightarrow>
                            (fst st, bt_insert alias (bt_insert (trim key) (trim v) (case bt_get (snd st) alias of None \<Rightarrow> [] | Some t \<Rightarrow> t)) (snd st)))))"

definition parse_bool :: "string \<Rightarrow> bool option" where
  "parse_bool s = (if s = ''true'' then Some True else if s = ''false'' then Some False else None)"

definition toml_server :: "(string \<Rightarrow> jvalue option) \<Rightarrow> string \<times> (string, string) btree \<Rightarrow> server_definition" where
  "toml_server parse entry =
     (case entry of (alias, vs) \<Rightarrow>
        (let get = (\<lambda>k1 k2. case bt_get vs k1 of Some v \<Rightarrow> Some v | None \<Rightarrow> bt_get vs k2);
             command = map_option redact_text (Option.bind (bt_get vs ''command'') toml_string);
             endpoint = map_option redact_url (Option.bind (get ''url'' ''endpoint'') toml_string);
             args = (case bt_get vs ''args'' of None \<Rightarrow> [] | Some v \<Rightarrow> parse_toml_string_array parse v)
         in \<lparr>sd_alias = alias,
             sd_definition =
               \<lparr>cd_transport = (if endpoint \<noteq> None then Http else if command \<noteq> None then Stdio else UnknownTransport),
                cd_command = command, cd_args = redact_args args, cd_endpoint = endpoint\<rparr>,
             sd_desired_enabled = Option.bind (bt_get vs ''enabled'') parse_bool,
             sd_policy = get ''required'' ''approval'',
             sd_secret_refs =
               map (\<lambda>key. \<lparr>sr_location = ''config'', sr_kind = ''inline'', sr_reference = key\<rparr>) (filter secret_like (map fst vs)),
             sd_plaintext_secret = (list_ex secret_like (map fst vs) \<or> list_ex secret_like args)\<rparr>))"

definition parse_toml_servers :: "(string \<Rightarrow> jvalue option) \<Rightarrow> string \<Rightarrow> server_definition list" where
  "parse_toml_servers parse s = map (toml_server parse) (snd (foldl toml_step (None, []) (rust_lines s)))"

section \<open>Credentials in a file\<close>

text \<open>\<open>String::from_utf8_lossy\<close>: each maximal malformed piece becomes U+FFFD.\<close>

definition malformed_len :: "string \<Rightarrow> nat" where
  "malformed_len s =
     (case s of
        b0 # b1 # t \<Rightarrow>
          let three = byte_in 0xE0 0xE0 b0 \<and> byte_in 0xA0 0xBF b1 \<or> (byte_in 0xE1 0xEC b0 \<or> byte_in 0xEE 0xEF b0) \<and> cont_byte b1
                      \<or> byte_in 0xED 0xED b0 \<and> byte_in 0x80 0x9F b1;
              four = byte_in 0xF0 0xF0 b0 \<and> byte_in 0x90 0xBF b1 \<or> byte_in 0xF1 0xF3 b0 \<and> cont_byte b1
                     \<or> byte_in 0xF4 0xF4 b0 \<and> byte_in 0x80 0x8F b1
          in if three then 2
             else if four then (case t of b2 # _ \<Rightarrow> if cont_byte b2 then 3 else 2 | [] \<Rightarrow> 2)
             else 1
      | _ \<Rightarrow> 1)"

lemma malformed_len_pos [simp]: "0 < malformed_len s"
  by (auto simp: malformed_len_def Let_def split: list.split)

function utf8_lossy :: "string \<Rightarrow> string" where
  "utf8_lossy s =
     (if s = [] then []
      else if utf8_len s = 0 then [CHR 0xEF, CHR 0xBF, CHR 0xBD] @ utf8_lossy (drop (malformed_len s) s)
      else take (utf8_len s) s @ utf8_lossy (drop (utf8_len s) s))"
  by pat_completeness auto
termination
  by (relation "measure length") auto

declare utf8_lossy.simps [simp del]

definition contains_secret_bytes :: "string \<Rightarrow> bool" where
  "contains_secret_bytes src =
     list_ex (contains (to_ascii_lowercase (utf8_lossy src)))
       [''bearer '', ''api_key'', ''api-key'', ''access_token'', ''client_secret'', ''password'', ''authorization'']"

text \<open>
  The scan for a comment: the quote that is open, and whether the next character is escaped. Only
  ASCII characters matter, so bytes are scanned.
\<close>

fun before_comment :: "char option \<Rightarrow> bool \<Rightarrow> string \<Rightarrow> string" where
  "before_comment open_quote escaped [] = []"
| "before_comment open_quote escaped (c # s) =
     (if escaped then c # before_comment open_quote False s
      else if open_quote = Some quote_char \<and> c = backslash then c # before_comment open_quote True s
      else if c = apostrophe \<or> c = quote_char then
        c # before_comment (if open_quote = Some c then None else if open_quote = None then Some c else open_quote) False s
      else if c = CHR ''#'' \<and> open_quote = None then []
      else c # before_comment open_quote False s)"

definition toml_without_comment :: "string \<Rightarrow> string" where
  "toml_without_comment line = before_comment None False line"

record key_scan =
  ks_segment :: string
  ks_segments :: "string list"
  ks_quote :: "char option"
  ks_escaped :: bool
  ks_had_escape :: bool

definition key_step :: "key_scan \<Rightarrow> string \<Rightarrow> key_scan" where
  "key_step k c =
     (if ks_escaped k then k\<lparr>ks_segment := ks_segment k @ c, ks_escaped := False\<rparr>
      else if ks_quote k = Some quote_char \<and> c = [backslash] then k\<lparr>ks_escaped := True, ks_had_escape := True\<rparr>
      else if c = [apostrophe] \<or> c = [quote_char] then
        (if ks_quote k = Some (hd c) then k\<lparr>ks_quote := None\<rparr>
         else if ks_quote k = None then k\<lparr>ks_quote := Some (hd c)\<rparr>
         else k\<lparr>ks_segment := ks_segment k @ c\<rparr>)
      else if c = ''.'' \<and> ks_quote k = None then k\<lparr>ks_segments := ks_segments k @ [ks_segment k], ks_segment := []\<rparr>
      else if c \<notin> set ws_seqs \<or> ks_quote k \<noteq> None then k\<lparr>ks_segment := ks_segment k @ c\<rparr>
      else k)"

definition toml_key_path_is_sensitive :: "string \<Rightarrow> bool" where
  "toml_key_path_is_sensitive path =
     (let k = foldl key_step \<lparr>ks_segment = [], ks_segments = [], ks_quote = None, ks_escaped = False, ks_had_escape = False\<rparr> (utf8_chars path)
      in ks_had_escape k \<or> ks_escaped k \<or> ks_quote k \<noteq> None
         \<or> list_ex (\<lambda>s. to_ascii_lowercase s \<in> {''env'', ''headers'', ''authentication''}) (ks_segments k @ [ks_segment k]))"

fun toml_lines_secret :: "(string \<Rightarrow> jvalue option) \<Rightarrow> bool \<Rightarrow> string list \<Rightarrow> bool" where
  "toml_lines_secret parse sensitive_table [] = False"
| "toml_lines_secret parse sensitive_table (raw_line # ls) =
     (let line = trim (toml_without_comment raw_line)
      in if starts_with line ''['' \<and> suffix '']'' line then toml_lines_secret parse (toml_key_path_is_sensitive (trim_matches ''[]'' line)) ls
         else case split_once ''='' line of
                None \<Rightarrow> toml_lines_secret parse sensitive_table ls
              | Some (key0, v) \<Rightarrow>
                  (let key = trim key0; arr = parse_toml_string_array parse (trim v)
                   in (sensitive_table \<or> toml_key_path_is_sensitive key) \<and> trim v \<noteq> [] \<or> secret_like key
                      \<or> (case toml_string (trim v) of None \<Rightarrow> False | Some x \<Rightarrow> redact_url x \<noteq> x \<or> redact_text x \<noteq> x)
                      \<or> arr \<noteq> [] \<and> redact_args arr \<noteq> arr
                      \<or> toml_lines_secret parse sensitive_table ls))"

definition toml_contains_secret_material :: "(string \<Rightarrow> jvalue option) \<Rightarrow> string \<Rightarrow> bool" where
  "toml_contains_secret_material parse src \<longleftrightarrow>
     contains_secret_bytes src \<or> \<not> utf8_valid src \<or> toml_lines_secret parse False (rust_lines src)"

definition names_server :: "string \<Rightarrow> string \<Rightarrow> bool" where
  "names_server alias section =
     list_ex (\<lambda>p. case strip_prefix p section of None \<Rightarrow> False | Some rest \<Rightarrow> rest = alias \<or> starts_with rest (alias @ ''.''))
       [''mcp_servers.'', ''mcpServers.'', ''mcp.'']"

fun retained_lines :: "string \<Rightarrow> bool \<Rightarrow> string list \<Rightarrow> string list" where
  "retained_lines alias skip [] = []"
| "retained_lines alias skip (line # ls) =
     (let skip' = (case bracketed (trim line) of None \<Rightarrow> skip | Some section \<Rightarrow> names_server alias section)
      in if skip' then retained_lines alias skip' ls else trim_end line # retained_lines alias skip' ls)"

definition toml_without_server :: "string \<Rightarrow> string \<Rightarrow> string" where
  "toml_without_server s alias = trim (join_with [CHR 0x0A] (retained_lines alias False (rust_lines s)))"

definition toml_changes_only_server :: "string \<Rightarrow> string \<Rightarrow> string \<Rightarrow> bool" where
  "toml_changes_only_server before after alias \<longleftrightarrow>
     utf8_valid before \<and> utf8_valid after \<and> toml_without_server before alias = toml_without_server after alias"

fun json_contains_secret_material :: "jvalue \<Rightarrow> bool" where
  "json_contains_secret_material (VObj m) =
     list_ex (\<lambda>(key, v). eq_ignore_ascii_case key ''env'' \<and> (case as_object v of None \<Rightarrow> False | Some e \<Rightarrow> e \<noteq> [])
                        \<or> secret_like key \<and> (case as_str v of None \<Rightarrow> False | Some s \<Rightarrow> s \<noteq> [])
                        \<or> json_contains_secret_material v) m"
| "json_contains_secret_material (VArr vs) = list_ex json_contains_secret_material vs"
| "json_contains_secret_material (VStr s) \<longleftrightarrow> secret_like s \<or> redact_url s \<noteq> s"
| "json_contains_secret_material _ = False"

section \<open>The edit of a JSON configuration\<close>

definition server_id :: "string \<Rightarrow> string" where
  "server_id fingerprint = ''mcp:'' @ take 24 fingerprint"

definition endpoint_fingerprint :: "mcp_env \<Rightarrow> mcp_canonical_definition \<Rightarrow> string" where
  "endpoint_fingerprint env d = mcp_definition_fingerprint env d"

definition find_server_alias :: "mcp_env \<Rightarrow> (string, jvalue) btree \<Rightarrow> mcp_plan_action \<Rightarrow> string option" where
  "find_server_alias env servers action =
     map_option fst (find (\<lambda>(alias, v).
       case server_from_value env alias v of
         None \<Rightarrow> False
       | Some d \<Rightarrow>
           (let fp = endpoint_fingerprint env (sd_definition d)
            in server_id fp = pa_server_id action \<or> ss_endpoint_fingerprint (pa_before action) = Some fp)) servers)"

fun type_name :: "mcp_transport \<Rightarrow> string option" where
  "type_name Stdio = Some ''stdio''"
| "type_name Sse = Some ''sse''"
| "type_name StreamableHttp = Some ''streamable-http''"
| "type_name Http = Some ''http''"
| "type_name UnknownTransport = None"

definition definition_entries :: "mcp_canonical_definition \<Rightarrow> bool \<Rightarrow> (string \<times> jvalue) list" where
  "definition_entries d enabled =
     opt_field ''type'' (type_name (cd_transport d))
     @ opt_field ''command'' (cd_command d)
     @ (if cd_args d = [] then [] else [(''args'', VArr (map VStr (cd_args d)))])
     @ opt_field ''url'' (cd_endpoint d)
     @ [(''disabled'', VBool (\<not> enabled))]"

definition definition_json :: "mcp_canonical_definition \<Rightarrow> bool \<Rightarrow> jvalue" where
  "definition_json d enabled = jobj (definition_entries d enabled)"

definition owned_fields :: "string list" where
  "owned_fields = [''type'', ''transport'', ''command'', ''args'', ''url'', ''endpoint'', ''enabled'', ''disabled'']"

definition merge_owned_server_fields :: "jvalue \<Rightarrow> jvalue \<Rightarrow> string + jvalue" where
  "merge_owned_server_fields existing desired =
     (case as_object existing of
        None \<Rightarrow> Inl ''configured server entry cannot be round-tripped safely''
      | Some m \<Rightarrow>
          (case as_object desired of
             None \<Rightarrow> Inl ''desired server entry is invalid''
           | Some d \<Rightarrow> Inr (VObj (foldl (\<lambda>m p. bt_insert (fst p) (snd p) m) (foldl (\<lambda>m k. bt_remove k m) m owned_fields) d))))"

definition servers_key :: "(string, jvalue) btree \<Rightarrow> string" where
  "servers_key root =
     (case filter (\<lambda>k. bt_get root k \<noteq> None) [''mcpServers'', ''mcp_servers'', ''mcp''] of [] \<Rightarrow> ''mcpServers'' | k # _ \<Rightarrow> k)"

definition edit_servers ::
  "mcp_env \<Rightarrow> mcp_plan_action \<Rightarrow> mcp_effective_server option \<Rightarrow> string option \<Rightarrow> (string, jvalue) btree \<Rightarrow> string + (string, jvalue) btree" where
  "edit_servers env action desired current_alias servers =
     (let configure =
        (case desired of
           None \<Rightarrow> Inl ''desired server is unavailable''
         | Some d \<Rightarrow>
             (case md_definition (me_desired d) of
                None \<Rightarrow> Inl ''desired definition is unavailable''
              | Some def \<Rightarrow>
                  (let alias = (case current_alias of Some a \<Rightarrow> a | None \<Rightarrow> md_alias (me_desired d));
                       entry = definition_json def (md_desired_enabled (me_desired d))
                   in case bt_get servers alias of
                        Some existing \<Rightarrow> map_sum id (\<lambda>v. bt_insert alias v servers) (merge_owned_server_fields existing entry)
                      | None \<Rightarrow> Inr (bt_insert alias entry servers))));
          switch =
        (case current_alias of
           None \<Rightarrow> Inl ''configured server no longer exists''
         | Some alias \<Rightarrow>
             (case Option.bind (bt_get servers alias) as_object of
                None \<Rightarrow> Inl ''configured server entry is invalid''
              | Some m \<Rightarrow> Inr (bt_insert alias (VObj (bt_insert ''disabled'' (VBool (pa_kind action = Disable)) (bt_remove ''enabled'' m))) servers)))
      in case pa_kind action of
           Remove \<Rightarrow>
             (case current_alias of
                None \<Rightarrow> Inl ''configured server no longer exists; CAS rejected removal''
              | Some alias \<Rightarrow> Inr (bt_remove alias servers))
         | AddConfigure \<Rightarrow> configure
         | Update \<Rightarrow> configure
         | Enable \<Rightarrow> switch
         | Disable \<Rightarrow> switch
         | _ \<Rightarrow> Inl ''non-executable action reached the writer'')"

definition current_alias :: "mcp_env \<Rightarrow> mcp_plan_action \<Rightarrow> mcp_effective_server option \<Rightarrow> (string, jvalue) btree \<Rightarrow> string option" where
  "current_alias env action desired servers =
     (case find_server_alias env servers action of
        Some a \<Rightarrow> Some a
      | None \<Rightarrow>
          (case desired of
             None \<Rightarrow> None
           | Some d \<Rightarrow> if bt_get servers (md_alias (me_desired d)) \<noteq> None then Some (md_alias (me_desired d)) else None))"

text \<open>The part of \<open>mutate_json_config\<close> between reading and writing: the document to write, or why there is none.\<close>

definition edit_config :: "mcp_env \<Rightarrow> mcp_plan_action \<Rightarrow> mcp_effective_server option \<Rightarrow> jvalue \<Rightarrow> string + jvalue" where
  "edit_config env action desired root =
     (if json_contains_secret_material root then
        Inl ''source configuration contains inline credential material; backup and apply are blocked''
      else case as_object root of
        None \<Rightarrow> Inl ''configuration root must be a JSON object''
      | Some r \<Rightarrow>
          (let key = servers_key r;
               r' = (if bt_get r key = None then bt_insert key (VObj []) r else r)
           in case Option.bind (bt_get r' key) as_object of
                None \<Rightarrow> Inl ''MCP configuration entry must be a JSON object''
              | Some servers \<Rightarrow>
                  (let current = current_alias env action desired servers
                   in if pa_kind action = AddConfigure \<and> ss_configured (pa_before action) = Some False
                         \<and> opt_any (\<lambda>d. bt_get servers (md_alias (me_desired d)) \<noteq> None) desired then
                        Inl ''configuration alias appeared after planning; CAS rejected add/configure''
                      else if (case (current, ss_endpoint_fingerprint (pa_before action)) of
                                 (Some alias, Some expected) \<Rightarrow>
                                   map_option (\<lambda>d. endpoint_fingerprint env (sd_definition d))
                                     (Option.bind (bt_get servers alias) (server_from_value env alias)) \<noteq> Some expected
                               | _ \<Rightarrow> False) then
                        Inl ''configuration source changed after planning; CAS rejected the write''
                      else map_sum id (\<lambda>servers'. VObj (bt_insert key (VObj servers') r'))
                             (edit_servers env action desired current servers))))"

section \<open>What the edit changes\<close>

text \<open>One server entry of a configuration, and one field of it.\<close>

definition config_entry :: "(string, jvalue) btree \<Rightarrow> string \<Rightarrow> string \<Rightarrow> jvalue option" where
  "config_entry root key alias = Option.bind (Option.bind (bt_get root key) as_object) (\<lambda>servers. bt_get servers alias)"

definition entry_field :: "jvalue option \<Rightarrow> string \<Rightarrow> jvalue option" where
  "entry_field entry f = Option.bind (Option.bind entry as_object) (\<lambda>m. bt_get m f)"

lemma as_object_simps [simp]:
  "as_object (VObj m) = Some m" "as_str (VStr s) = Some s" "as_bool (VBool b) = Some b" "as_array (VArr vs) = Some vs"
  by (simp_all add: as_object_def as_str_def as_bool_def as_array_def)

lemma as_object_Some_iff: "as_object v = Some m \<longleftrightarrow> v = VObj m"
  by (cases v) (auto simp: as_object_def)

lemma merge_owned_field:
  assumes "merge_owned_server_fields existing (definition_json d enabled) = Inr v"
  shows "entry_field (Some v) f
     = (case map_of (rev (definition_entries d enabled)) f of
          Some x \<Rightarrow> Some x
        | None \<Rightarrow> if f \<in> set owned_fields then None else entry_field (Some existing) f)"
proof -
  from assms obtain m where m: "existing = VObj m"
    by (auto simp: merge_owned_server_fields_def as_object_Some_iff split: option.splits)
  with assms have "v = VObj (foldl (\<lambda>m p. bt_insert (fst p) (snd p) m) (foldl (\<lambda>m k. bt_remove k m) m owned_fields)
                       (collect_map (definition_entries d enabled)))"
    by (simp add: merge_owned_server_fields_def definition_json_def jobj_def)
  then show ?thesis
    by (simp add: entry_field_def m bt_get_foldl_insert bt_get_foldl_remove map_of_rev_collect_map split: option.split)
qed

lemma fresh_field:
  "entry_field (Some (definition_json d enabled)) f = map_of (rev (definition_entries d enabled)) f"
  by (simp add: entry_field_def definition_json_def jobj_def collect_map_get)

lemma entry_fields:
  "map_of (rev (definition_entries d enabled)) ''type'' = map_option VStr (type_name (cd_transport d))"
  "map_of (rev (definition_entries d enabled)) ''transport'' = None"
  "map_of (rev (definition_entries d enabled)) ''command'' = map_option VStr (cd_command d)"
  "map_of (rev (definition_entries d enabled)) ''args'' = (if cd_args d = [] then None else Some (VArr (map VStr (cd_args d))))"
  "map_of (rev (definition_entries d enabled)) ''url'' = map_option VStr (cd_endpoint d)"
  "map_of (rev (definition_entries d enabled)) ''endpoint'' = None"
  "map_of (rev (definition_entries d enabled)) ''enabled'' = None"
  "map_of (rev (definition_entries d enabled)) ''disabled'' = Some (VBool (\<not> enabled))"
  by (simp_all add: definition_entries_def opt_field_def split: option.split)

lemma entry_fields_owned: "map_of (rev (definition_entries d enabled)) f \<noteq> None \<Longrightarrow> f \<in> set owned_fields"
  by (auto simp: definition_entries_def opt_field_def owned_fields_def split: option.splits if_splits)

text \<open>What a written entry is read back as.\<close>

definition clean_definition :: "mcp_canonical_definition \<Rightarrow> bool" where
  "clean_definition d \<longleftrightarrow> map_option redact_text (cd_command d) = cd_command d
     \<and> map_option redact_url (cd_endpoint d) = cd_endpoint d \<and> redact_args (cd_args d) = cd_args d"

lemma map_filter_VStr [simp]: "List.map_filter as_str (map VStr xs) = xs"
  by (induction xs) (simp_all add: List.map_filter_simps)

lemma type_name_read: "type_name t = Some s \<Longrightarrow> json_transport m = t" if "Option.bind (first_of m [''transport'', ''type'']) as_str = Some s"
  using that by (cases t) (auto simp: json_transport_def)

lemma read_back:
  assumes fields: "\<And>f. f \<in> set owned_fields \<Longrightarrow> bt_get m f = map_of (rev (definition_entries d enabled)) f"
    and known: "cd_transport d \<noteq> UnknownTransport" and clean: "clean_definition d"
  shows "\<exists>s. server_from_value env alias (VObj m) = Some s \<and> sd_definition s = d \<and> sd_desired_enabled s = Some enabled"
proof -
  note get = fields [unfolded owned_fields_def, simplified]
  from known obtain s where s: "type_name (cd_transport d) = Some s" by (cases "cd_transport d") auto
  have "json_transport m = cd_transport d"
    by (rule type_name_read [OF _ s]) (simp add: get entry_fields s)
  moreover have "json_enabled m = Some enabled"
    by (simp add: json_enabled_def get entry_fields)
  moreover have "map_option redact_text (Option.bind (bt_get m ''command'') as_str) = cd_command d"
    using clean by (cases "cd_command d") (simp_all add: get entry_fields clean_definition_def)
  moreover have "map_option redact_url (Option.bind (first_of m [''url'', ''endpoint'']) as_str) = cd_endpoint d"
    using clean by (cases "cd_endpoint d") (simp_all add: get entry_fields clean_definition_def)
  moreover have "(case Option.bind (bt_get m ''args'') as_array of None \<Rightarrow> [] | Some xs \<Rightarrow> redact_args (List.map_filter as_str xs)) = cd_args d"
    using clean by (simp add: get entry_fields clean_definition_def)
  ultimately show ?thesis by (simp add: server_from_value_def Let_def)
qed

lemma edit_config_Inr:
  assumes "edit_config env a d (VObj r) = Inr v"
  obtains servers servers' r' where
    "v = VObj r'" "\<And>k. k \<noteq> servers_key r \<Longrightarrow> bt_get r' k = bt_get r k"
    "\<And>n. config_entry r (servers_key r) n = bt_get servers n" "bt_get r' (servers_key r) = Some (VObj servers')"
    "edit_servers env a d (current_alias env a d servers) servers = Inr servers'"
    "\<not> json_contains_secret_material (VObj r)" "bt_get r (servers_key r) = Some (VObj servers) \<or> servers = []"
proof -
  define key where "key = servers_key r"
  define r1 where "r1 = (if bt_get r key = None then bt_insert key (VObj []) r else r)"
  from assms obtain servers where s: "Option.bind (bt_get r1 key) as_object = Some servers"
    and ns: "\<not> json_contains_secret_material (VObj r)"
    by (auto simp: edit_config_def Let_def key_def r1_def split: if_splits option.splits)
  have "\<exists>servers'. edit_servers env a d (current_alias env a d servers) servers = Inr servers'
          \<and> v = VObj (bt_insert key (VObj servers') r1)"
    using assms s ns unfolding edit_config_def Let_def key_def [symmetric] r1_def [symmetric] as_object_simps option.case
    by (cases "edit_servers env a d (current_alias env a d servers) servers") (auto split: if_splits)
  then obtain servers' where e: "edit_servers env a d (current_alias env a d servers) servers = Inr servers'"
    and v: "v = VObj (bt_insert key (VObj servers') r1)" by blast
  have "config_entry r key n = bt_get servers n" for n
    using s by (cases "bt_get r key") (auto simp: config_entry_def r1_def)
  moreover have "bt_get r key = Some (VObj servers) \<or> servers = []"
    using s by (cases "bt_get r key") (auto simp: r1_def as_object_Some_iff)
  ultimately show thesis
    using that [of "bt_insert key (VObj servers') r1" servers servers'] e v ns unfolding key_def by (simp add: r1_def key_def)
qed

lemma find_Some_get:
  assumes "find_server_alias env servers a = Some n"
  shows "bt_get servers n \<noteq> None"
proof -
  from assms obtain p where "p \<in> set servers" "fst p = n"
    by (auto simp: find_server_alias_def find_Some_iff dest!: nth_mem)
  then show ?thesis by (auto simp: bt_get_def map_of_eq_None_iff)
qed

lemma current_alias_get: "current_alias env a d servers = Some n \<Longrightarrow> bt_get servers n \<noteq> None"
  by (auto simp: current_alias_def dest: find_Some_get split: option.splits if_splits)

text \<open>
  Which entry an action is about: one whose definition has the identifier or the fingerprint that the
  plan recorded. Only when no entry has, it is the one under the alias of the desired server.
\<close>

definition identifies :: "mcp_env \<Rightarrow> mcp_plan_action \<Rightarrow> string \<Rightarrow> jvalue \<Rightarrow> bool" where
  "identifies env a n v \<longleftrightarrow> (\<exists>s. server_from_value env n v = Some s
     \<and> (server_id (endpoint_fingerprint env (sd_definition s)) = pa_server_id a
        \<or> ss_endpoint_fingerprint (pa_before a) = Some (endpoint_fingerprint env (sd_definition s))))"

lemma find_server_alias_Some:
  "find_server_alias env servers a = Some n \<Longrightarrow> \<exists>v. (n, v) \<in> set servers \<and> identifies env a n v"
  by (auto simp: find_server_alias_def identifies_def Let_def find_Some_iff split: option.splits dest!: nth_mem)

lemma find_server_alias_None:
  "find_server_alias env servers a = None \<Longrightarrow> bt_get servers n = Some v \<Longrightarrow> \<not> identifies env a n v"
  by (auto simp: find_server_alias_def identifies_def Let_def find_None_iff bt_get_def split: option.splits dest!: map_of_SomeD)

definition edit_target :: "mcp_effective_server option \<Rightarrow> string option \<Rightarrow> string" where
  "edit_target d current = (case current of Some n \<Rightarrow> n | None \<Rightarrow> (case d of None \<Rightarrow> [] | Some x \<Rightarrow> md_alias (me_desired x)))"

definition entry_lookup :: "mcp_canonical_definition \<Rightarrow> bool \<Rightarrow> jvalue option \<Rightarrow> string \<Rightarrow> jvalue option" where
  "entry_lookup dfn enabled old f =
     (case map_of (rev (definition_entries dfn enabled)) f of
        Some v \<Rightarrow> Some v
      | None \<Rightarrow> if f \<in> set owned_fields then None else entry_field old f)"

lemma configured_entry:
  assumes "(case old of
              Some existing \<Rightarrow> map_sum id g (merge_owned_server_fields existing (definition_json dfn enabled))
            | None \<Rightarrow> Inr (g (definition_json dfn enabled))) = Inr servers'"
  shows "\<exists>m. servers' = g (VObj m) \<and> bt_get m = entry_lookup dfn enabled old"
proof (cases old)
  case None
  obtain m where m: "definition_json dfn enabled = VObj m" by (simp add: definition_json_def jobj_def)
  have "bt_get m f = entry_lookup dfn enabled old f" for f
    using fresh_field [of dfn enabled f] by (simp add: m None entry_lookup_def entry_field_def split: option.split)
  with assms None m show ?thesis by auto
next
  case (Some existing)
  with assms obtain v where v: "merge_owned_server_fields existing (definition_json dfn enabled) = Inr v" "servers' = g v"
    by (cases "merge_owned_server_fields existing (definition_json dfn enabled)") auto
  from v(1) obtain m where m: "v = VObj m"
    by (auto simp: merge_owned_server_fields_def split: option.splits)
  have "bt_get m f = entry_lookup dfn enabled old f" for f
    using merge_owned_field [OF v(1), of f] by (simp add: m Some entry_lookup_def entry_field_def)
  with v m show ?thesis by auto
qed

lemma edit_configure:
  assumes e: "edit_servers env a d current servers = Inr servers'" and k: "pa_kind a = AddConfigure \<or> pa_kind a = Update"
  shows "\<exists>x dfn m. d = Some x \<and> md_definition (me_desired x) = Some dfn
     \<and> servers' = bt_insert (edit_target d current) (VObj m) servers
     \<and> bt_get m = entry_lookup dfn (md_desired_enabled (me_desired x)) (bt_get servers (edit_target d current))"
proof -
  from e k obtain x dfn where x: "d = Some x" and dfn: "md_definition (me_desired x) = Some dfn"
    by (auto simp: edit_servers_def split: option.splits)
  have al: "edit_target (Some x) current = (case current of Some a \<Rightarrow> a | None \<Rightarrow> md_alias (me_desired x))"
    by (simp add: edit_target_def x split: option.split)
  have "(case bt_get servers (edit_target d current) of
           Some existing \<Rightarrow> map_sum id (\<lambda>v. bt_insert (edit_target d current) v servers)
             (merge_owned_server_fields existing (definition_json dfn (md_desired_enabled (me_desired x))))
         | None \<Rightarrow> Inr (bt_insert (edit_target d current) (definition_json dfn (md_desired_enabled (me_desired x))) servers))
        = Inr servers'"
    using k
  proof (elim disjE)
    show ?thesis if "pa_kind a = AddConfigure"
      using e unfolding edit_servers_def that mcp_plan_action_kind.case x dfn option.case Let_def al .
    show ?thesis if "pa_kind a = Update"
      using e unfolding edit_servers_def that mcp_plan_action_kind.case x dfn option.case Let_def al .
  qed
  from configured_entry [OF this] x dfn show ?thesis by blast
qed

lemma configure_frame:
  assumes "edit_servers env a d current servers = Inr servers'" "pa_kind a = AddConfigure \<or> pa_kind a = Update"
  shows "n \<noteq> edit_target d current \<longrightarrow> bt_get servers' n = bt_get servers n"
    "f \<notin> set owned_fields \<longrightarrow>
       entry_field (bt_get servers' (edit_target d current)) f = entry_field (bt_get servers (edit_target d current)) f"
proof -
  obtain x :: mcp_effective_server and dfn m where "servers' = bt_insert (edit_target d current) (VObj m) servers"
    "bt_get m = entry_lookup dfn (md_desired_enabled (me_desired x)) (bt_get servers (edit_target d current))"
    using edit_configure [OF assms] by blast
  then show "n \<noteq> edit_target d current \<longrightarrow> bt_get servers' n = bt_get servers n"
    "f \<notin> set owned_fields \<longrightarrow>
       entry_field (bt_get servers' (edit_target d current)) f = entry_field (bt_get servers (edit_target d current)) f"
    using entry_fields_owned [of dfn _ f] by (auto simp: entry_field_def entry_lookup_def split: option.split)
qed

lemma edit_servers_frame:
  assumes e: "edit_servers env a d current servers = Inr servers'"
  shows "(n \<noteq> edit_target d current \<longrightarrow> bt_get servers' n = bt_get servers n)
     \<and> (pa_kind a \<noteq> Remove \<longrightarrow> f \<notin> set owned_fields \<longrightarrow>
          entry_field (bt_get servers' (edit_target d current)) f = entry_field (bt_get servers (edit_target d current)) f)
     \<and> (pa_kind a = Remove \<longrightarrow> current \<noteq> None \<and> bt_get servers' (edit_target d current) = None)"
proof (cases "pa_kind a")
  case Remove
  with e show ?thesis by (auto simp: edit_servers_def edit_target_def split: option.splits)
next
  case Enable
  with e show ?thesis
    by (auto simp: edit_servers_def edit_target_def entry_field_def owned_fields_def Let_def as_object_Some_iff split: option.splits bind_splits)
next
  case Disable
  with e show ?thesis
    by (auto simp: edit_servers_def edit_target_def entry_field_def owned_fields_def Let_def as_object_Some_iff split: option.splits bind_splits)
next
  case AddConfigure
  with configure_frame [OF e] show ?thesis by simp
next
  case Update
  with configure_frame [OF e] show ?thesis by simp
qed (use e in \<open>simp_all add: edit_servers_def\<close>)

section \<open>Properties\<close>

lemma json_secret_member:
  "bt_get m k = Some x \<Longrightarrow> json_contains_secret_material x \<Longrightarrow> json_contains_secret_material (VObj m)"
  by (force simp: list_ex_iff bt_get_def dest: map_of_SomeD)

definition wit_dfn :: "string \<Rightarrow> mcp_canonical_definition" where
  "wit_dfn c = \<lparr>cd_transport = Stdio, cd_command = Some c, cd_args = [''--stdio''], cd_endpoint = None\<rparr>"

definition wit_eff :: "string \<Rightarrow> mcp_effective_server" where
  "wit_eff c = \<lparr>me_desired = (wit_docs True)\<lparr>md_runtime := ''cursor'', md_definition := Some (wit_dfn c)\<rparr>, me_source_profile_ids = [], me_source_profile_names = [],
     me_inherited_from = TMachine, me_high_risk_context = False\<rparr>"

definition wit_act :: "mcp_plan_action_kind \<Rightarrow> mcp_plan_action" where
  "wit_act k = \<lparr>pa_kind = k, pa_runtime = ''cursor'', pa_scope = ''machine'', pa_target = ''m'', pa_server_id = ''docs'',
     pa_server_fingerprint = [], pa_before = empty_summary, pa_after = empty_summary, pa_risk = LowRisk, pa_reason = [], pa_evidence = [],
     pa_expected_source_hash = None, pa_expected_schema_hash = None, pa_blocked = False\<rparr>"

definition wit_servers :: "(string, jvalue) btree" where
  "wit_servers = [(''docs'', VObj [(''command'', VStr ''old''), (''cwd'', VStr ''/srv''), (''transport'', VStr ''sse'')]), (''other'', VObj [(''url'', VStr ''http://h'')])]"

definition wit_root :: "(string, jvalue) btree" where
  "wit_root = [(''mcpServers'', VObj wit_servers), (''theme'', VStr ''dark'')]"

definition wit_written :: "string \<Rightarrow> jvalue" where
  "wit_written c = VObj [(''mcpServers'', VObj
     [(''docs'', VObj [(''args'', VArr [VStr ''--stdio'']), (''command'', VStr c), (''cwd'', VStr ''/srv''), (''disabled'', VBool False), (''type'', VStr ''stdio'')]),
      (''other'', VObj [(''url'', VStr ''http://h'')])]), (''theme'', VStr ''dark'')]"

lemma wit_edit: "edit_config wit_env (wit_act Update) (Some (wit_eff ''npx'')) (VObj wit_root) = Inr (wit_written ''npx'')"
  by code_simp

lemma wit_edit_secret: "edit_config wit_env (wit_act Update) (Some (wit_eff ''tokenizer'')) (VObj wit_root) = Inr (wit_written ''tokenizer'')"
  by code_simp

lemma edit_servers_aim:
  assumes "edit_servers env a d (current_alias env a d servers) servers = Inr servers'" "distinct (map fst servers)"
    and "n = edit_target d (current_alias env a d servers)"
  shows "(\<exists>e. bt_get servers n = Some e \<and> identifies env a n e)
     \<or> (\<forall>n' e. bt_get servers n' = Some e \<longrightarrow> \<not> identifies env a n' e) \<and> (\<exists>x. d = Some x \<and> n = md_alias (me_desired x))"
proof (cases "find_server_alias env servers a")
  case None
  moreover have "d \<noteq> None"
    using assms(1) None by (cases "pa_kind a") (auto simp: edit_servers_def current_alias_def split: option.splits)
  ultimately show ?thesis
    using find_server_alias_None [OF None] assms(3) by (auto simp: current_alias_def edit_target_def split: option.splits)
next
  case (Some k)
  then obtain e where "(k, e) \<in> set servers" "identifies env a k e" using find_server_alias_Some by blast
  moreover from this have "bt_get servers k = Some e" using assms(2) by (simp add: bt_get_def)
  ultimately show ?thesis using Some assms(3) by (auto simp: current_alias_def edit_target_def)
qed

text \<open>
  C6. An approved edit of a JSON configuration touches one server entry, the one its action is about.
  That is an entry whose definition has the identifier or the fingerprint that the plan recorded; only
  when the file has none, it is the entry under the alias of the desired server. Every other setting of
  the file and every other server is as before. A removal removes that entry, which existed; any other
  edit keeps the fields of it that the program does not own; enabling and disabling set its flag. (The
  hypothesis says that the object of servers has each name once, as every parsed object has.)
\<close>

theorem edit_touches_one_entry:
  assumes "edit_config env a d (VObj r) = Inr v"
    and "\<And>servers. bt_get r (servers_key r) = Some (VObj servers) \<Longrightarrow> distinct (map fst servers)"
  shows "\<exists>r' n. v = VObj r' \<and> (\<forall>k. k \<noteq> servers_key r \<longrightarrow> bt_get r' k = bt_get r k)
    \<and> ((\<exists>e. config_entry r (servers_key r) n = Some e \<and> identifies env a n e)
       \<or> (\<forall>n' e. config_entry r (servers_key r) n' = Some e \<longrightarrow> \<not> identifies env a n' e)
          \<and> (\<exists>x. d = Some x \<and> n = md_alias (me_desired x)))
    \<and> (\<forall>n'. n' \<noteq> n \<longrightarrow> config_entry r' (servers_key r) n' = config_entry r (servers_key r) n')
    \<and> (if pa_kind a = Remove then config_entry r (servers_key r) n \<noteq> None \<and> config_entry r' (servers_key r) n = None
       else \<forall>f. f \<notin> set owned_fields \<longrightarrow>
              entry_field (config_entry r' (servers_key r) n) f = entry_field (config_entry r (servers_key r) n) f)
    \<and> (pa_kind a \<in> {Enable, Disable} \<longrightarrow> entry_field (config_entry r' (servers_key r) n) ''disabled'' = Some (VBool (pa_kind a = Disable)))"
proof -
  obtain servers servers' r' where v: "v = VObj r'" and rest: "\<And>k. k \<noteq> servers_key r \<Longrightarrow> bt_get r' k = bt_get r k"
    and old: "\<And>n. config_entry r (servers_key r) n = bt_get servers n" and new: "bt_get r' (servers_key r) = Some (VObj servers')"
    and e: "edit_servers env a d (current_alias env a d servers) servers = Inr servers'"
    and src: "bt_get r (servers_key r) = Some (VObj servers) \<or> servers = []"
    using edit_config_Inr [OF assms(1)] by metis
  define n where "n = edit_target d (current_alias env a d servers)"
  have new': "config_entry r' (servers_key r) n = bt_get servers' n" for n by (simp add: config_entry_def new)
  have "distinct (map fst servers)" using src assms(2) by auto
  note aim = edit_servers_aim [OF e this n_def]
  have flag: "entry_field (bt_get servers' n) ''disabled'' = Some (VBool (pa_kind a = Disable))" if "pa_kind a \<in> {Enable, Disable}"
    using e that by (auto simp: edit_servers_def n_def edit_target_def entry_field_def Let_def split: option.splits)
  note frame = edit_servers_frame [OF e, folded n_def]
  have gone: "bt_get servers n \<noteq> None" if "pa_kind a = Remove"
    using frame current_alias_get [of env a d servers] that by (auto simp: n_def edit_target_def split: option.splits)
  show ?thesis
    by (rule exI [of _ r'], rule exI [of _ n]) (use v rest aim flag gone frame in \<open>simp add: old new'\<close>)
qed

theorem edit_touches_one_entry_witness:
  "\<exists>r'. wit_written ''npx'' = VObj r' \<and> bt_get r' ''theme'' = Some (VStr ''dark'')
     \<and> config_entry r' ''mcpServers'' ''other'' = config_entry wit_root ''mcpServers'' ''other''"
proof -
  have k: "servers_key wit_root = ''mcpServers''" "bt_get wit_root ''theme'' = Some (VStr ''dark'')"
    "bt_get wit_root ''mcpServers'' = Some (VObj wit_servers)" "distinct (map fst wit_servers)" by code_simp+
  obtain r' n where r: "wit_written ''npx'' = VObj r'" "\<forall>k. k \<noteq> ''mcpServers'' \<longrightarrow> bt_get r' k = bt_get wit_root k"
    and n: "(\<exists>e. config_entry wit_root ''mcpServers'' n = Some e \<and> identifies wit_env (wit_act Update) n e) \<or> n = md_alias (me_desired (wit_eff ''npx''))"
    and frame: "\<forall>n'. n' \<noteq> n \<longrightarrow> config_entry r' ''mcpServers'' n' = config_entry wit_root ''mcpServers'' n'"
    using edit_touches_one_entry [OF wit_edit, unfolded k(1)] k(3,4) by auto
  have "find_server_alias wit_env wit_servers (wit_act Update) = None" by code_simp
  then have "\<not> identifies wit_env (wit_act Update) n e" if "config_entry wit_root ''mcpServers'' n = Some e" for e
    using find_server_alias_None that k(3) by (simp add: config_entry_def)
  then have "n = ''docs''" using n by (auto simp: wit_eff_def wit_docs_def)
  then show ?thesis using r frame k(2) by auto
qed

text \<open>
  C11. What is written is what is read: after a configuration or an update, reading the written file
  gives a server with the desired definition and the desired enabled flag, provided the definition
  has a known transport and nothing that redaction would change.
\<close>

theorem configured_server_reads_back:
  assumes e: "edit_config env a (Some x) (VObj r) = Inr v" and k: "pa_kind a \<in> {AddConfigure, Update}"
    and x: "md_definition (me_desired x) = Some dfn" "cd_transport dfn \<noteq> UnknownTransport" "clean_definition dfn"
    and p: "parse text = Some v"
  shows "\<exists>ss s. parse_json_servers parse env text = Inr ss \<and> s \<in> set ss \<and> sd_definition s = dfn
    \<and> sd_desired_enabled s = Some (md_desired_enabled (me_desired x))"
proof -
  obtain servers servers' r' where v: "v = VObj r'" and rest: "\<And>k. k \<noteq> servers_key r \<Longrightarrow> bt_get r' k = bt_get r k"
    and new: "bt_get r' (servers_key r) = Some (VObj servers')"
    and es: "edit_servers env a (Some x) (current_alias env a (Some x) servers) servers = Inr servers'"
    using edit_config_Inr [OF e] by metis
  define n where "n = edit_target (Some x) (current_alias env a (Some x) servers)"
  obtain m where m: "servers' = bt_insert n (VObj m) servers"
    "bt_get m = entry_lookup dfn (md_desired_enabled (me_desired x)) (bt_get servers n)"
    using edit_configure [OF es] k x(1) by (auto simp: n_def)
  have "bt_get m f = map_of (rev (definition_entries dfn (md_desired_enabled (me_desired x)))) f" if "f \<in> set owned_fields" for f
    using that by (simp add: m(2) entry_lookup_def split: option.split)
  from read_back [OF this x(2,3)] obtain s where s: "server_from_value env n (VObj m) = Some s" "sd_definition s = dfn"
    "sd_desired_enabled s = Some (md_desired_enabled (me_desired x))"
    by blast
  have "servers_key r \<in> {''mcpServers'', ''mcp_servers'', ''mcp''}"
    by (auto simp: servers_key_def)
  moreover have "first_of r' [''mcpServers'', ''mcp_servers'', ''mcp''] = Some (VObj servers')"
    using new rest [of "''mcpServers''"] rest [of "''mcp_servers''"] by (auto simp: servers_key_def split: if_splits option.splits)
  ultimately have "parse_json_servers parse env text = Inr (List.map_filter (\<lambda>(al, y). server_from_value env al y) servers')"
    by (simp add: parse_json_servers_def p v json_first_def)
  moreover have "(n, VObj m) \<in> set servers'"
    using bt_get_insert [of n "VObj m" servers n] unfolding m(1) bt_get_def by (auto dest: map_of_SomeD)
  then have "s \<in> set (List.map_filter (\<lambda>(al, y). server_from_value env al y) servers')"
    using s(1) by (force simp: List.map_filter_def)
  ultimately show ?thesis using s(2,3) by blast
qed

theorem configured_server_reads_back_witness:
  "\<exists>ss s. parse_json_servers (\<lambda>_. Some (wit_written ''npx'')) wit_env [] = Inr ss \<and> s \<in> set ss \<and> sd_definition s = wit_dfn ''npx''"
proof -
  have "md_definition (me_desired (wit_eff ''npx'')) = Some (wit_dfn ''npx'')" by (simp add: wit_eff_def)
  moreover have "cd_transport (wit_dfn ''npx'') \<noteq> UnknownTransport" by (simp add: wit_dfn_def)
  moreover have "clean_definition (wit_dfn ''npx'')" by code_simp
  moreover have "pa_kind (wit_act Update) \<in> {AddConfigure, Update}" by (simp add: wit_act_def)
  ultimately show ?thesis
    using configured_server_reads_back [OF wit_edit, of "wit_dfn ''npx''" "\<lambda>_. Some (wit_written ''npx'')" "[]"] by blast
qed

text \<open>
  A server whose command merely looks like a credential (a word such as \<open>tokenizer\<close>) is accepted
  by profile validation and written, and from then on every edit of the same file is refused, the
  removal of that server included: the writer takes its own output for credential material.
\<close>

theorem written_server_locks_file:
  assumes e: "edit_config env a (Some x) (VObj r) = Inr v" and k: "pa_kind a \<in> {AddConfigure, Update}"
    and x: "md_definition (me_desired x) = Some dfn" "cd_command dfn = Some c" "secret_like c"
  shows "edit_config env a' d' v = Inl ''source configuration contains inline credential material; backup and apply are blocked''"
proof -
  obtain servers servers' r' where v: "v = VObj r'" and new: "bt_get r' (servers_key r) = Some (VObj servers')"
    and es: "edit_servers env a (Some x) (current_alias env a (Some x) servers) servers = Inr servers'"
    using edit_config_Inr [OF e] by metis
  define n where "n = edit_target (Some x) (current_alias env a (Some x) servers)"
  obtain m where m: "servers' = bt_insert n (VObj m) servers"
    "bt_get m = entry_lookup dfn (md_desired_enabled (me_desired x)) (bt_get servers n)"
    using edit_configure [OF es] k x(1) by (auto simp: n_def)
  have "bt_get m ''command'' = Some (VStr c)" by (simp add: m(2) entry_lookup_def entry_fields x(2))
  then have "json_contains_secret_material (VObj m)" by (rule json_secret_member) (simp add: x(3))
  then have "json_contains_secret_material (VObj servers')"
    using json_secret_member [of servers' n "VObj m"] m(1) by simp
  then have "json_contains_secret_material v" unfolding v by (rule json_secret_member [OF new])
  then show ?thesis by (simp add: edit_config_def)
qed

theorem written_server_locks_file_witness:
  "validate_server (me_desired (wit_eff ''tokenizer'')) = Inr ()
   \<and> edit_config wit_env (wit_act Remove) None (wit_written ''tokenizer'')
       = Inl ''source configuration contains inline credential material; backup and apply are blocked''"
proof
  have "md_definition (me_desired (wit_eff ''tokenizer'')) = Some (wit_dfn ''tokenizer'')" by (simp add: wit_eff_def)
  moreover have "cd_command (wit_dfn ''tokenizer'') = Some ''tokenizer''" by (simp add: wit_dfn_def)
  moreover have "secret_like ''tokenizer''" by code_simp
  moreover have "pa_kind (wit_act Update) \<in> {AddConfigure, Update}" by (simp add: wit_act_def)
  ultimately show "edit_config wit_env (wit_act Remove) None (wit_written ''tokenizer'')
       = Inl ''source configuration contains inline credential material; backup and apply are blocked''"
    by (intro written_server_locks_file [OF wit_edit_secret])
  show "validate_server (me_desired (wit_eff ''tokenizer'')) = Inr ()" by code_simp
qed

text \<open>
  Redaction takes everything up to the last \<open>@\<close> of a URL for credentials, also in its path, so two
  servers on different hosts are read as one.
\<close>

theorem redaction_conflates_hosts:
  "server_from_value env n (VObj [(''url'', VStr ''https://a.example/@team/mcp'')])
     = server_from_value env n (VObj [(''url'', VStr ''https://b.example/@team/mcp'')])"
proof -
  have "redact_url ''https://a.example/@team/mcp'' = redact_url ''https://b.example/@team/mcp''" by code_simp
  then show ?thesis by (simp add: server_from_value_def bt_get_def json_transport_def json_enabled_def)
qed

end
