(* ===== verification/McpInventory.thy ===== *)
theory McpInventory
  imports McpConfig
begin

text \<open>
  Discovery of MCP servers (\<open>crates/cocli-server/src/mcp.rs\<close>): configuration files and probes of the
  runtimes are read into snapshots, merged into one inventory and annotated with diagnostics; what
  each runtime supports; and the preflight of a plan. What the operating system answers (files,
  commands, the application server of Codex) is collected in the record \<open>mcp_host\<close>.
\<close>

section \<open>The host\<close>

datatype command_outcome =
    CmdMissing
  | CmdTimeout
  | CmdStartFailed string
  | CmdOutput (cmd_success: bool) (cmd_stdout: string) (cmd_stderr: string)

datatype meta_answer = MetaMissing | MetaError string | MetaOther | MetaFile nat

datatype read_answer = ReadMissing | ReadError string | ReadBytes string

record runtime_info =
  ri_name :: string
  ri_binary :: "string option"
  ri_version :: "string option"

record mcp_host =
  mh_env :: mcp_env
  mh_parse :: "string \<Rightarrow> jvalue option"
  mh_pretty :: "jvalue \<Rightarrow> string"
  mh_catalog :: "runtime_info list"
  mh_home :: "string option"
  mh_workspace :: string
  mh_run :: "string \<Rightarrow> string list \<Rightarrow> command_outcome"
  mh_app_server :: "string \<Rightarrow> string list option"
  mh_meta :: "string \<Rightarrow> meta_answer"
  mh_read :: "string \<Rightarrow> read_answer"

definition max_config_bytes :: nat where
  "max_config_bytes = 1024 * 1024"

section \<open>Paths\<close>

text \<open>Paths are texts without repeated or trailing separators, as the adapters build them.\<close>

definition join_path :: "string \<Rightarrow> string \<Rightarrow> string" where
  "join_path a b = (if starts_with b ''/'' then b else if a = [] \<or> last a = CHR ''/'' then a @ b else a @ ''/'' @ b)"

definition path_starts_with :: "string \<Rightarrow> string \<Rightarrow> bool" where
  "path_starts_with p base \<longleftrightarrow> p = base \<or> starts_with p (base @ ''/'')"

definition file_name :: "string \<Rightarrow> string" where
  "file_name p = (case rsplit_once_char CHR ''/'' p of None \<Rightarrow> p | Some (_, f) \<Rightarrow> f)"

definition parent_path :: "string \<Rightarrow> string option" where
  "parent_path p =
     (if p = [] \<or> p = ''/'' then None
      else case rsplit_once_char CHR ''/'' p of None \<Rightarrow> Some [] | Some (d, _) \<Rightarrow> Some (if d = [] then ''/'' else d))"

text \<open>\<open>Path::extension\<close> and \<open>Path::with_extension\<close>\<close>

definition file_stem_ext :: "string \<Rightarrow> string \<times> string option" where
  "file_stem_ext f =
     (if f = ''..'' then (f, None)
      else case rsplit_once_char CHR ''.'' f of
             None \<Rightarrow> (f, None)
           | Some (stem, ext) \<Rightarrow> if stem = [] then (f, None) else (stem, Some ext))"

definition extension :: "string \<Rightarrow> string option" where
  "extension p = snd (file_stem_ext (file_name p))"

definition with_extension :: "string \<Rightarrow> string \<Rightarrow> string" where
  "with_extension p ext =
     (let f = file_name p in take (length p - length f) p @ fst (file_stem_ext f) @ ''.'' @ ext)"

section \<open>Evidence and diagnostics\<close>

definition evidence :: "string \<Rightarrow> string \<Rightarrow> string option \<Rightarrow> bool \<Rightarrow> bool \<Rightarrow> mcp_evidence" where
  "evidence source detail path loaded visible =
     \<lparr>ev_source = source, ev_detail = detail, ev_source_path = path, ev_proves_runtime_loaded = loaded,
      ev_proves_current_session_visibility = visible\<rparr>"

definition diagnostic ::
  "string \<Rightarrow> mcp_diagnostic_severity \<Rightarrow> string \<Rightarrow> string option \<Rightarrow> string \<Rightarrow> mcp_evidence list \<Rightarrow> string \<Rightarrow> mcp_diagnostic" where
  "diagnostic code severity runtime sid message ev now =
     \<lparr>dg_code = code, dg_severity = severity, dg_runtime = runtime, dg_server_id = sid, dg_message = message,
      dg_evidence = ev, dg_observed_at = now\<rparr>"

definition sha256_bytes :: "mcp_env \<Rightarrow> string \<Rightarrow> string" where
  "sha256_bytes env bytes = hex_digest (mv_digest env bytes)"

definition sanitize_schema_hash :: "mcp_env \<Rightarrow> string \<Rightarrow> string" where
  "sanitize_schema_hash env v =
     (if 16 \<le> length v \<and> length v \<le> 128 \<and> list_all is_ascii_hexdigit v then to_ascii_lowercase v else sha256_bytes env v)"

section \<open>Snapshots\<close>

record snapshot =
  sn_servers :: "mcp_server list"
  sn_bindings :: "mcp_binding list"
  sn_observations :: "observed_mcp_instance list"
  sn_diagnostics :: "mcp_diagnostic list"

definition empty_snapshot :: snapshot where
  "empty_snapshot = \<lparr>sn_servers = [], sn_bindings = [], sn_observations = [], sn_diagnostics = []\<rparr>"

definition newer :: "'a option \<Rightarrow> 'a option \<Rightarrow> 'a option" where
  "newer old new = (case new of None \<Rightarrow> old | Some _ \<Rightarrow> new)"

definition merge_observation :: "observed_mcp_instance \<Rightarrow> observed_mcp_instance \<Rightarrow> observed_mcp_instance" where
  "merge_observation existing next1 =
     existing\<lparr>oi_discoverable := oi_discoverable existing \<or> oi_discoverable next1,
       oi_configured := oi_configured existing \<or> oi_configured next1,
       oi_loaded := newer (oi_loaded existing) (oi_loaded next1),
       oi_enabled := newer (oi_enabled existing) (oi_enabled next1),
       oi_approved := newer (oi_approved existing) (oi_approved next1),
       oi_authenticated := newer (oi_authenticated existing) (oi_authenticated next1),
       oi_healthy := newer (oi_healthy existing) (oi_healthy next1),
       oi_startup := newer (oi_startup existing) (oi_startup next1),
       oi_current_session_visible := newer (oi_current_session_visible existing) (oi_current_session_visible next1),
       oi_invoked := newer (oi_invoked existing) (oi_invoked next1),
       oi_tool_count := newer (oi_tool_count existing) (oi_tool_count next1),
       oi_schema_hash := newer (oi_schema_hash existing) (oi_schema_hash next1),
       oi_evidence := oi_evidence existing @ oi_evidence next1\<rparr>"

fun add_observation :: "observed_mcp_instance list \<Rightarrow> observed_mcp_instance \<Rightarrow> observed_mcp_instance list" where
  "add_observation [] o1 = [o1]"
| "add_observation (e # es) o1 =
     (if oi_runtime e = oi_runtime o1 \<and> oi_alias e = oi_alias o1 then merge_observation e o1 # es else e # add_observation es o1)"

definition snapshot_extend :: "snapshot \<Rightarrow> snapshot \<Rightarrow> snapshot" where
  "snapshot_extend a b =
     \<lparr>sn_servers = sn_servers a @ sn_servers b, sn_bindings = sn_bindings a @ sn_bindings b,
      sn_observations = foldl add_observation (sn_observations a) (sn_observations b),
      sn_diagnostics = sn_diagnostics a @ sn_diagnostics b\<rparr>"

definition push_diagnostic :: "snapshot \<Rightarrow> mcp_diagnostic \<Rightarrow> snapshot" where
  "push_diagnostic s d = s\<lparr>sn_diagnostics := sn_diagnostics s @ [d]\<rparr>"

section \<open>Configuration files\<close>

definition target_runtimes :: "runtime_info list \<Rightarrow> string list" where
  "target_runtimes catalog =
     (let all_runtimes = [''codex'', ''cursor'', ''claude'', ''grok''];
          names = filter (\<lambda>n. n \<in> set all_runtimes) (map ri_name catalog)
      in dedup_by (=) (sort (foldl (\<lambda>ns r. if r \<in> set ns then ns else ns @ [r]) names all_runtimes)))"

definition config_paths :: "string \<Rightarrow> string option \<Rightarrow> string \<Rightarrow> string list" where
  "config_paths runtime home workspace =
     (let at_home = (\<lambda>ps. case home of None \<Rightarrow> [] | Some h \<Rightarrow> map (join_path h) ps)
      in if runtime = ''codex'' then at_home [''.codex/config.toml''] @ [join_path workspace ''.codex/config.toml'']
         else if runtime = ''cursor'' then at_home [''.cursor/mcp.json''] @ [join_path workspace ''.cursor/mcp.json'']
         else if runtime = ''claude'' then
           at_home [''.claude.json'', ''.claude/mcp.json'']
           @ map (join_path workspace) [''.mcp.json'', ''.mcp-config.json'', ''.claude/mcp.json'']
         else if runtime = ''grok'' then at_home [''.grok/config.toml''] @ [join_path workspace ''.grok/config.toml'']
         else [])"

definition config_snapshot_of ::
  "mcp_env \<Rightarrow> string \<Rightarrow> string \<Rightarrow> string option \<Rightarrow> string \<Rightarrow> string \<Rightarrow> server_definition \<Rightarrow> snapshot" where
  "config_snapshot_of env runtime path scope shash now d =
     (let fp = endpoint_fingerprint env (sd_definition d);
          sid = server_id fp;
          ev = evidence ''config'' (''configured MCP server; source_sha256='' @ shash) (Some path) False False
      in \<lparr>sn_servers = [\<lparr>ms_id = sid, ms_canonical_name = sd_alias d, ms_definition = sd_definition d, ms_endpoint_fingerprint = fp,
              ms_aliases = [sd_alias d], ms_provenance = [ev], ms_secret_refs = sd_secret_refs d\<rparr>],
          sn_bindings = [\<lparr>mb_server_id = sid, mb_runtime = runtime, mb_agent_id = None, mb_workspace = scope,
              mb_profile = Some (if scope \<noteq> None then ''workspace'' else ''user''),
              mb_desired_enabled = sd_desired_enabled d, mb_policy = sd_policy d\<rparr>],
          sn_observations = [\<lparr>oi_runtime = runtime, oi_server_id = sid, oi_alias = sd_alias d, oi_source_path = Some path,
              oi_discoverable = True, oi_configured = True, oi_loaded = None, oi_enabled = sd_desired_enabled d, oi_approved = None,
              oi_authenticated = None, oi_healthy = None, oi_startup = Some NotAttempted, oi_current_session_visible = None,
              oi_invoked = None, oi_tool_count = None, oi_schema_hash = None, oi_evidence = [ev], oi_observed_at = now\<rparr>],
          sn_diagnostics =
            (if sd_plaintext_secret d then
               [diagnostic ''mcp_plaintext_secret'' mcp_diagnostic_severity.SevWarning runtime (Some sid)
                  ''MCP config contains inline secret material; values were redacted'' [ev] now]
             else [])\<rparr>)"

definition snapshot_config ::
  "mcp_env \<Rightarrow> string \<Rightarrow> string \<Rightarrow> string option \<Rightarrow> server_definition list \<Rightarrow> string \<Rightarrow> string \<Rightarrow> snapshot" where
  "snapshot_config env runtime path scope defs shash now =
     (let parts = map (config_snapshot_of env runtime path scope shash now) defs
      in \<lparr>sn_servers = concat (map sn_servers parts), sn_bindings = concat (map sn_bindings parts),
          sn_observations = concat (map sn_observations parts), sn_diagnostics = concat (map sn_diagnostics parts)\<rparr>)"

datatype config_read = ConfigMissing | ConfigSnapshot snapshot | ConfigDiagnostic mcp_diagnostic

definition discover_config :: "mcp_host \<Rightarrow> string \<Rightarrow> string \<Rightarrow> string option \<Rightarrow> string \<Rightarrow> config_read" where
  "discover_config h runtime path scope now =
     (let unreadable = (\<lambda>kind detail. ConfigDiagnostic (diagnostic ''mcp_config_unreadable'' mcp_diagnostic_severity.SevWarning runtime None
              (''MCP config could not be read: '' @ kind) [evidence ''config'' detail (Some path) False False] now))
      in case mh_meta h path of
           MetaMissing \<Rightarrow> ConfigMissing
         | MetaError kind \<Rightarrow> unreadable kind ''metadata failed''
         | MetaOther \<Rightarrow> ConfigMissing
         | MetaFile len \<Rightarrow>
             if max_config_bytes < len then
               ConfigDiagnostic (diagnostic ''mcp_config_too_large'' mcp_diagnostic_severity.SevWarning runtime None
                 ''MCP config was skipped because it is larger than the read-only inventory limit''
                 [evidence ''config'' ''file exceeds 1 MiB'' (Some path) False False] now)
             else case mh_read h path of
               ReadMissing \<Rightarrow> unreadable ''entity not found'' ''read failed''
             | ReadError kind \<Rightarrow> unreadable kind ''read failed''
             | ReadBytes bytes \<Rightarrow>
                 (let txt = utf8_lossy bytes
                  in case (if extension path = Some ''toml'' then Inr (parse_toml_servers (mh_parse h) txt)
                           else parse_json_servers (mh_parse h) (mh_env h) txt) of
                       Inr defs \<Rightarrow> ConfigSnapshot (snapshot_config (mh_env h) runtime path scope defs (sha256_bytes (mh_env h) bytes) now)
                     | Inl message \<Rightarrow>
                         ConfigDiagnostic (diagnostic ''mcp_config_bad_json'' mcp_diagnostic_severity.SevWarning runtime None message
                           [evidence ''config'' ''parse failed'' (Some path) False False] now)))"

section \<open>Probes\<close>

definition detail_probe_args :: "string \<Rightarrow> string \<Rightarrow> string list option" where
  "detail_probe_args runtime n =
     (if runtime = ''cursor'' then Some [''mcp'', ''list-tools'', n]
      else if runtime = ''claude'' then Some [''mcp'', ''get'', n] else None)"

definition probe_args :: "string \<Rightarrow> string list" where
  "probe_args runtime =
     (if runtime \<in> {''codex'', ''grok''} then [''mcp'', ''list'', ''--json'']
      else if runtime \<in> {''claude'', ''cursor''} then [''mcp'', ''list''] else [])"

definition probe_outputs_json :: "string \<Rightarrow> bool" where
  "probe_outputs_json runtime \<longleftrightarrow> runtime \<in> {''codex'', ''grok''}"

definition startup_state :: "jvalue \<Rightarrow> mcp_startup_state option" where
  "startup_state v =
     map_option (\<lambda>s. if s \<in> {''ready'', ''connected'', ''ok''} then Ready
                     else if s \<in> {''failed'', ''error''} then FailedStartup
                     else if s = ''starting'' then Starting
                     else if s \<in> {''not_attempted'', ''notAttempted''} then NotAttempted
                     else UnknownStartup)
       (Option.bind (json_first v [''startup'', ''status'']) as_str)"

definition unknown_definition :: mcp_canonical_definition where
  "unknown_definition = \<lparr>cd_transport = UnknownTransport, cd_command = None, cd_args = [], cd_endpoint = None\<rparr>"

definition as_u32 :: "nat \<Rightarrow> nat" where
  "as_u32 n = n mod 2 ^ 32"

fun digits :: "nat \<Rightarrow> string" where
  "digits n = (if n < 10 then [hex_digit n] else digits (n div 10) @ [hex_digit (n mod 10)])"

declare digits.simps [simp del]

definition probe_entries :: "jvalue \<Rightarrow> (string \<times> jvalue) list" where
  "probe_entries v =
     (let servers = (case json_first v [''servers'', ''mcpServers'', ''mcp_servers''] of None \<Rightarrow> v | Some s \<Rightarrow> s)
      in case as_object servers of
           Some m \<Rightarrow> m
         | None \<Rightarrow>
             map (\<lambda>(i, x). (case Option.bind (json_first x [''name'', ''alias'']) as_str of Some n \<Rightarrow> n | None \<Rightarrow> ''server-'' @ digits i, x))
               (enumerate 0 (case as_array servers of None \<Rightarrow> [] | Some xs \<Rightarrow> xs)))"

definition probe_observation :: "mcp_env \<Rightarrow> string \<Rightarrow> string \<Rightarrow> bool \<Rightarrow> string \<times> jvalue \<Rightarrow> observed_mcp_instance" where
  "probe_observation env runtime now loaded_evidence entry =
     (case entry of (n, v) \<Rightarrow>
       (let dfn = (case server_from_value env n v of None \<Rightarrow> unknown_definition | Some s \<Rightarrow> sd_definition s);
            flag = (\<lambda>ks. Option.bind (json_first v ks) as_bool);
            visible = flag [''currentSessionVisible'', ''current_session_visible'']
        in \<lparr>oi_runtime = runtime, oi_server_id = server_id (endpoint_fingerprint env dfn), oi_alias = redact_text n,
            oi_source_path = None, oi_discoverable = True,
            oi_configured = (flag [''configured''] = Some True),
            oi_loaded = (if loaded_evidence then flag [''loaded'', ''connected''] else None),
            oi_enabled = flag [''enabled''], oi_approved = flag [''approved''], oi_authenticated = flag [''authenticated''],
            oi_healthy = flag [''healthy'', ''ok''], oi_startup = startup_state v, oi_current_session_visible = visible,
            oi_invoked = flag [''invoked''],
            oi_tool_count = map_option as_u32 (Option.bind (json_first v [''toolCount'', ''tool_count'']) as_u64),
            oi_schema_hash = map_option (sanitize_schema_hash env) (Option.bind (json_first v [''schemaHash'', ''schema_hash'']) as_str),
            oi_evidence = [evidence ''runtime_probe'' ''runtime-reported MCP state'' None loaded_evidence (visible \<noteq> None)],
            oi_observed_at = now\<rparr>))"

definition observations_from_json_probe :: "mcp_env \<Rightarrow> string \<Rightarrow> jvalue \<Rightarrow> string \<Rightarrow> bool \<Rightarrow> observed_mcp_instance list" where
  "observations_from_json_probe env runtime v now loaded_evidence =
     map (probe_observation env runtime now loaded_evidence) (probe_entries v)"

text \<open>The bullet \<open>U+2022\<close> as its bytes\<close>

definition bullet_seqs :: "string list" where
  "bullet_seqs = [''-'', ''*'', [CHR 0xE2, CHR 0x80, CHR 0xA2]] @ ws_seqs"

definition text_probe_alias :: "string \<Rightarrow> string option" where
  "text_probe_alias line0 =
     (let line = trim line0
      in if line = [] \<or> list_ex (starts_with line) [''No MCP'', ''MCP'', ''Name'', ''---''] then None
         else case first_word (strip_any bullet_seqs line) of
                None \<Rightarrow> None
              | Some w \<Rightarrow>
                  (let c = trim_matches [CHR '':'', CHR '','', quote_char, apostrophe] w
                   in if c = [] then None else Some (redact_text c)))"

definition text_observation :: "mcp_env \<Rightarrow> string \<Rightarrow> string \<Rightarrow> string \<Rightarrow> observed_mcp_instance" where
  "text_observation env runtime now n =
     \<lparr>oi_runtime = runtime,
      oi_server_id = ''runtime:'' @ runtime @ '':'' @ n @ '':'' @ take 12 (endpoint_fingerprint env unknown_definition),
      oi_alias = n, oi_source_path = None, oi_discoverable = True, oi_configured = False, oi_loaded = None, oi_enabled = None,
      oi_approved = None, oi_authenticated = None, oi_healthy = None, oi_startup = Some UnknownStartup,
      oi_current_session_visible = None, oi_invoked = None, oi_tool_count = None, oi_schema_hash = None,
      oi_evidence = [evidence ''runtime_probe'' ''runtime text MCP list output'' None False False], oi_observed_at = now\<rparr>"

definition observations_from_text_probe :: "mcp_env \<Rightarrow> string \<Rightarrow> string \<Rightarrow> string \<Rightarrow> observed_mcp_instance list" where
  "observations_from_text_probe env runtime stdout now =
     map (text_observation env runtime now) (List.map_filter text_probe_alias (rust_lines stdout))"

definition tri_state :: "bool \<Rightarrow> bool \<Rightarrow> bool option" where
  "tri_state no yes = (if no then Some False else if yes then Some True else None)"

definition observation_from_detail_text :: "mcp_env \<Rightarrow> string \<Rightarrow> string \<Rightarrow> string \<Rightarrow> string \<Rightarrow> observed_mcp_instance" where
  "observation_from_detail_text env runtime n out now =
     (let lower = to_ascii_lowercase out;
          tool_line = (\<lambda>l0. let l = trim l0 in l \<noteq> [] \<and> \<not> starts_with l ''MCP'' \<and> \<not> starts_with l ''Tool'' \<and> \<not> starts_with l ''---'');
          tool_count = (if runtime = ''cursor'' then Some (as_u32 (length (filter tool_line (rust_lines out)))) else None);
          approved = tri_state (contains lower ''not approved'' \<or> contains lower ''approval required'') (contains lower ''approved'');
          authenticated = tri_state (looks_unauthorized out \<or> contains lower ''login required'') (contains lower ''authenticated'');
          healthy = tri_state (contains lower ''failed'' \<or> contains lower ''disconnected'' \<or> contains lower ''unhealthy'')
                      (contains lower ''connected'' \<or> contains lower ''healthy'');
          tools_visible = (runtime = ''cursor'' \<and> tool_count \<noteq> None)
      in \<lparr>oi_runtime = runtime, oi_server_id = ''runtime:'' @ runtime @ '':'' @ n, oi_alias = n, oi_source_path = None,
          oi_discoverable = True, oi_configured = (runtime = ''claude''),
          oi_loaded = (if tools_visible then Some True else healthy), oi_enabled = None,
          oi_approved = (if tools_visible then Some True else approved), oi_authenticated = authenticated,
          oi_healthy = (if tools_visible then Some True else healthy),
          oi_startup = (if tools_visible then Some Ready else map_option (\<lambda>b. if b then Ready else FailedStartup) healthy),
          oi_current_session_visible = None, oi_invoked = None, oi_tool_count = tool_count,
          oi_schema_hash = map_option (\<lambda>_. sha256_bytes env out) tool_count,
          oi_evidence = [evidence ''runtime_probe'' (if runtime = ''cursor'' then ''cursor-agent mcp list-tools'' else ''claude mcp get'')
                           None tools_visible False],
          oi_observed_at = now\<rparr>)"

definition warn :: "string \<Rightarrow> string \<Rightarrow> string \<Rightarrow> string \<Rightarrow> mcp_diagnostic" where
  "warn code runtime message now = diagnostic code mcp_diagnostic_severity.SevWarning runtime None message [] now"

definition failure_code :: "string \<Rightarrow> string \<Rightarrow> string \<Rightarrow> string" where
  "failure_code code stdout stderr =
     (if looks_unauthorized stdout \<or> looks_unauthorized stderr then ''mcp_probe_unauthorized'' else code)"

definition probe_alias_detail :: "mcp_host \<Rightarrow> string \<Rightarrow> string \<Rightarrow> string \<Rightarrow> string \<Rightarrow> snapshot" where
  "probe_alias_detail h runtime binary now n =
     (case detail_probe_args runtime n of
        None \<Rightarrow> empty_snapshot
      | Some args \<Rightarrow>
          (let tick = ''`'' @ redact_text n @ ''`''
           in case mh_run h binary args of
             CmdOutput True out _ \<Rightarrow>
               empty_snapshot\<lparr>sn_observations :=
                 (case mh_parse h out of
                    Some v \<Rightarrow> observations_from_json_probe (mh_env h) runtime v now True
                  | None \<Rightarrow> [observation_from_detail_text (mh_env h) runtime n out now])\<rparr>
           | CmdOutput False out err \<Rightarrow>
               push_diagnostic empty_snapshot (warn (failure_code ''mcp_probe_detail_failed'' out err) runtime
                 (''Runtime MCP detail probe failed for alias '' @ tick) now)
           | CmdMissing \<Rightarrow> empty_snapshot
           | CmdTimeout \<Rightarrow>
               push_diagnostic empty_snapshot (warn ''mcp_probe_timeout'' runtime (''Runtime MCP detail probe timed out for alias '' @ tick) now)
           | CmdStartFailed kind \<Rightarrow>
               push_diagnostic empty_snapshot (warn ''mcp_probe_detail_failed'' runtime
                 (''Runtime MCP detail probe failed to start for alias '' @ tick @ '': '' @ kind) now)))"

definition probe_grok_doctor :: "mcp_host \<Rightarrow> string \<Rightarrow> string \<Rightarrow> snapshot" where
  "probe_grok_doctor h binary now =
     (case mh_run h binary [''mcp'', ''doctor'', ''--json''] of
        CmdOutput True out _ \<Rightarrow>
          (case mh_parse h out of
             Some v \<Rightarrow> empty_snapshot\<lparr>sn_observations := observations_from_json_probe (mh_env h) ''grok'' v now True\<rparr>
           | None \<Rightarrow> push_diagnostic empty_snapshot (warn ''mcp_doctor_bad_json'' ''grok'' ''Runtime MCP doctor returned invalid JSON'' now))
      | CmdOutput False out err \<Rightarrow>
          push_diagnostic empty_snapshot (warn (failure_code ''mcp_doctor_failed'' out err) ''grok'' ''Runtime MCP doctor exited unsuccessfully'' now)
      | CmdMissing \<Rightarrow> empty_snapshot
      | CmdTimeout \<Rightarrow> push_diagnostic empty_snapshot (warn ''mcp_probe_timeout'' ''grok'' ''Runtime MCP doctor timed out'' now)
      | CmdStartFailed kind \<Rightarrow>
          push_diagnostic empty_snapshot (warn ''mcp_doctor_failed'' ''grok'' (''Runtime MCP doctor failed to start: '' @ kind) now))"

text \<open>
  The exchange with the application server of Codex. The lines it prints are the input (none when it
  cannot be started, breaks off or takes too long); the answer to a request is the first line with its
  identifier.
\<close>

fun read_jsonrpc_response :: "(string \<Rightarrow> jvalue option) \<Rightarrow> nat \<Rightarrow> string list \<Rightarrow> (jvalue \<times> string list) option" where
  "read_jsonrpc_response parse i [] = None"
| "read_jsonrpc_response parse i (line # ls) =
     (case parse line of
        None \<Rightarrow> None
      | Some v \<Rightarrow>
          if Option.bind (json_get v ''id'') as_u64 \<noteq> Some i then read_jsonrpc_response parse i ls
          else if json_get v ''error'' \<noteq> None then None
          else Some (case json_get v ''result'' of None \<Rightarrow> v | Some r \<Rightarrow> r, ls))"

definition codex_app_server_request :: "mcp_host \<Rightarrow> string \<Rightarrow> jvalue option" where
  "codex_app_server_request h binary =
     (case mh_app_server h binary of
        None \<Rightarrow> None
      | Some lines1 \<Rightarrow>
          (case read_jsonrpc_response (mh_parse h) 1 lines1 of
             None \<Rightarrow> None
           | Some (_, rest) \<Rightarrow> map_option fst (read_jsonrpc_response (mh_parse h) 2 rest)))"

definition probe_codex_app_server :: "mcp_host \<Rightarrow> string \<Rightarrow> string \<Rightarrow> mcp_diagnostic + snapshot" where
  "probe_codex_app_server h binary now =
     (case codex_app_server_request h binary of
        Some v \<Rightarrow> Inr (empty_snapshot\<lparr>sn_observations := observations_from_json_probe (mh_env h) ''codex'' v now True\<rparr>)
      | None \<Rightarrow>
          Inl (diagnostic ''mcp_codex_app_server_probe_fallback'' mcp_diagnostic_severity.SevInfo ''codex'' None
            ''Codex app-server MCP probe was unavailable; falling back to codex mcp list --json''
            [evidence ''codex_app_server'' ''attempted mcpServerStatus/list JSON-RPC'' None False False] now))"

definition probe_details :: "mcp_host \<Rightarrow> string \<Rightarrow> string \<Rightarrow> string \<Rightarrow> snapshot \<Rightarrow> snapshot" where
  "probe_details h runtime binary now s =
     (let s1 = foldl (\<lambda>acc n. snapshot_extend acc (probe_alias_detail h runtime binary now n)) s (map oi_alias (sn_observations s))
      in if runtime = ''grok'' then snapshot_extend s1 (probe_grok_doctor h binary now) else s1)"

definition probe_listing :: "mcp_host \<Rightarrow> string \<Rightarrow> string \<Rightarrow> string \<Rightarrow> snapshot \<Rightarrow> snapshot" where
  "probe_listing h runtime binary now s =
     (case mh_run h binary (probe_args runtime) of
        CmdMissing \<Rightarrow>
          push_diagnostic s (diagnostic ''mcp_probe_command_missing'' mcp_diagnostic_severity.SevInfo runtime None
            ''Runtime MCP probe command was not found'' [] now)
      | CmdStartFailed kind \<Rightarrow> push_diagnostic s (warn ''mcp_probe_failed'' runtime (''Runtime MCP probe failed to start: '' @ kind) now)
      | CmdTimeout \<Rightarrow> push_diagnostic s (warn ''mcp_probe_timeout'' runtime ''Runtime MCP probe timed out'' now)
      | CmdOutput False out err \<Rightarrow>
          push_diagnostic s (warn (failure_code ''mcp_probe_failed'' out err) runtime ''Runtime MCP probe exited unsuccessfully'' now)
      | CmdOutput True out _ \<Rightarrow>
          if probe_outputs_json runtime then
            (case mh_parse h out of
               Some v \<Rightarrow>
                 probe_details h runtime binary now
                   (s\<lparr>sn_observations := (if v = VNull then [] else observations_from_json_probe (mh_env h) runtime v now False)\<rparr>)
             | None \<Rightarrow>
                 (let s' = push_diagnostic s (warn ''mcp_probe_bad_json'' runtime ''Runtime MCP probe returned invalid JSON'' now)
                  in if runtime = ''grok'' then probe_details h runtime binary now (s'\<lparr>sn_observations := []\<rparr>) else s'))
          else probe_details h runtime binary now (s\<lparr>sn_observations := observations_from_text_probe (mh_env h) runtime out now\<rparr>))"

definition probe_runtime :: "mcp_host \<Rightarrow> string \<Rightarrow> string option \<Rightarrow> string \<Rightarrow> snapshot" where
  "probe_runtime h runtime binary now =
     (case binary of
        None \<Rightarrow>
          push_diagnostic empty_snapshot (diagnostic ''mcp_probe_command_missing'' mcp_diagnostic_severity.SevInfo runtime None
            ''Runtime MCP probe skipped because the runtime command is not installed'' [] now)
      | Some bin \<Rightarrow>
          if runtime = ''codex'' then
            (case probe_codex_app_server h bin now of
               Inr s \<Rightarrow> s
             | Inl d \<Rightarrow> probe_listing h runtime bin now (push_diagnostic empty_snapshot d))
          else probe_listing h runtime bin now empty_snapshot)"

definition runtime_entry :: "mcp_host \<Rightarrow> string \<Rightarrow> runtime_info option" where
  "runtime_entry h runtime = find (\<lambda>e. ri_name e = runtime) (mh_catalog h)"

definition run_probes :: "mcp_host \<Rightarrow> string list \<Rightarrow> string \<Rightarrow> snapshot list" where
  "run_probes h runtimes now =
     map (\<lambda>runtime. probe_runtime h runtime (Option.bind (runtime_entry h runtime) ri_binary) now) runtimes"

section \<open>The aggregate\<close>

record aggregate =
  ag_servers :: "(string, mcp_server) btree"
  ag_bindings :: "mcp_binding list"
  ag_observations :: "observed_mcp_instance list"
  ag_diagnostics :: "mcp_diagnostic list"
  ag_observed_at :: string

definition aggregate_new :: "string \<Rightarrow> aggregate" where
  "aggregate_new now = \<lparr>ag_servers = [], ag_bindings = [], ag_observations = [], ag_diagnostics = [], ag_observed_at = now\<rparr>"

definition merge_server :: "mcp_server \<Rightarrow> mcp_server \<Rightarrow> mcp_server" where
  "merge_server existing s =
     existing\<lparr>ms_aliases := foldl (\<lambda>as n. if n \<in> set as then as else as @ [n]) (ms_aliases existing) (ms_aliases s),
       ms_provenance := ms_provenance existing @ ms_provenance s, ms_secret_refs := ms_secret_refs existing @ ms_secret_refs s\<rparr>"

definition add_server :: "(string, mcp_server) btree \<Rightarrow> mcp_server \<Rightarrow> (string, mcp_server) btree" where
  "add_server m s = bt_insert (ms_id s) (case bt_get m (ms_id s) of None \<Rightarrow> s | Some existing \<Rightarrow> merge_server existing s) m"

definition aggregate_extend :: "aggregate \<Rightarrow> snapshot \<Rightarrow> aggregate" where
  "aggregate_extend g s =
     g\<lparr>ag_servers := foldl add_server (ag_servers g) (sn_servers s), ag_bindings := ag_bindings g @ sn_bindings s,
       ag_observations := ag_observations g @ sn_observations s, ag_diagnostics := ag_diagnostics g @ sn_diagnostics s\<rparr>"

definition observation_key :: "observed_mcp_instance \<Rightarrow> string \<times> string" where
  "observation_key o1 = (oi_runtime o1, oi_alias o1)"

definition align_probe_observations :: "aggregate \<Rightarrow> aggregate" where
  "align_probe_observations g =
     (let configured = map_of (rev (map (\<lambda>o1. (observation_key o1, oi_server_id o1))
                         (filter (\<lambda>o1. oi_configured o1 \<and> oi_source_path o1 \<noteq> None) (ag_observations g))))
      in g\<lparr>ag_observations := map (\<lambda>o1.
           if oi_source_path o1 = None then
             (case configured (observation_key o1) of None \<Rightarrow> o1 | Some sid \<Rightarrow> o1\<lparr>oi_server_id := sid, oi_configured := True\<rparr>)
           else o1) (ag_observations g)\<rparr>)"

definition native_server :: "mcp_env \<Rightarrow> observed_mcp_instance \<Rightarrow> mcp_server" where
  "native_server env o1 =
     \<lparr>ms_id = oi_server_id o1, ms_canonical_name = oi_alias o1, ms_definition = unknown_definition,
      ms_endpoint_fingerprint = endpoint_fingerprint env unknown_definition, ms_aliases = [oi_alias o1],
      ms_provenance = oi_evidence o1, ms_secret_refs = []\<rparr>"

definition add_native :: "mcp_env \<Rightarrow> (string, mcp_server) btree \<Rightarrow> observed_mcp_instance \<Rightarrow> (string, mcp_server) btree" where
  "add_native env m o1 =
     (case bt_get m (oi_server_id o1) of None \<Rightarrow> bt_insert (oi_server_id o1) (native_server env o1) m | Some _ \<Rightarrow> m)"

definition add_native_only_servers :: "mcp_env \<Rightarrow> aggregate \<Rightarrow> aggregate" where
  "add_native_only_servers env g = g\<lparr>ag_servers := foldl (add_native env) (ag_servers g) (ag_observations g)\<rparr>"

text \<open>Hash maps are iterated in the order in which their keys were first inserted.\<close>

definition first_keys :: "'a list \<Rightarrow> 'a list" where
  "first_keys ks = rev (remdups (rev ks))"

definition several :: "'a list \<Rightarrow> bool" where
  "several xs \<longleftrightarrow> 1 < length (remdups xs)"

definition add_diagnostics :: "aggregate \<Rightarrow> mcp_diagnostic list \<Rightarrow> aggregate" where
  "add_diagnostics g ds = g\<lparr>ag_diagnostics := ag_diagnostics g @ ds\<rparr>"

definition detect_duplicates :: "aggregate \<Rightarrow> aggregate" where
  "detect_duplicates g =
     (let ids = (\<lambda>k. map oi_server_id (filter (\<lambda>o1. observation_key o1 = k) (ag_observations g)));
          by_alias = map (\<lambda>(runtime, n). diagnostic ''mcp_duplicate_alias'' mcp_diagnostic_severity.SevWarning runtime None
                        (''MCP alias `'' @ n @ ''` maps to multiple endpoints'') [] (ag_observed_at g))
                      (filter (\<lambda>k. several (ids k)) (first_keys (map observation_key (ag_observations g))));
          by_endpoint = map (\<lambda>s. diagnostic ''mcp_duplicate_endpoint'' mcp_diagnostic_severity.SevInfo ''machine'' (Some (ms_id s))
                           ''Multiple MCP server aliases point at the same endpoint'' (ms_provenance s) (ag_observed_at g))
                         (filter (\<lambda>s. 1 < length (ms_aliases s) \<or> several (map (\<lambda>e. (ev_source e, ev_source_path e)) (ms_provenance s)))
                           (map snd (ag_servers g)))
      in add_diagnostics g (by_alias @ by_endpoint))"

definition detect_configuration_drift :: "aggregate \<Rightarrow> aggregate" where
  "detect_configuration_drift g =
     (let desired = map_of (rev (List.map_filter (\<lambda>b. map_option (\<lambda>e. ((mb_runtime b, mb_server_id b), e)) (mb_desired_enabled b)) (ag_bindings g)));
          drifted = filter (\<lambda>o1. oi_source_path o1 = None
                      \<and> (case (desired (oi_runtime o1, oi_server_id o1), oi_enabled o1) of (Some d, Some a) \<Rightarrow> d \<noteq> a | _ \<Rightarrow> False)) (ag_observations g);
          sourced = filter (\<lambda>o1. oi_source_path o1 \<noteq> None) (ag_observations g);
          ids = (\<lambda>n. map oi_server_id (filter (\<lambda>o1. oi_alias o1 = n) sourced))
      in add_diagnostics g
           (map (\<lambda>o1. diagnostic ''mcp_config_drift'' mcp_diagnostic_severity.SevWarning (oi_runtime o1) (Some (oi_server_id o1))
               ''Configured MCP enabled state differs from Runtime-observed state'' (oi_evidence o1) (ag_observed_at g)) drifted
            @ map (\<lambda>n. diagnostic ''mcp_config_drift'' mcp_diagnostic_severity.SevWarning ''machine'' None
               (''MCP alias `'' @ n @ ''` has different canonical definitions'') [] (ag_observed_at g))
               (filter (\<lambda>n. several (ids n)) (first_keys (map oi_alias sourced)))))"

definition state_issue :: "observed_mcp_instance \<Rightarrow> string option" where
  "state_issue o1 =
     (if oi_approved o1 = Some False then Some ''mcp_not_approved''
      else if oi_authenticated o1 = Some False then Some ''mcp_not_authenticated''
      else if oi_startup o1 = Some FailedStartup \<or> oi_healthy o1 = Some False then Some ''mcp_startup_failed''
      else if oi_configured o1 \<and> oi_loaded o1 = Some False then Some ''mcp_config_runtime_drift''
      else None)"

definition detect_runtime_state_issues :: "aggregate \<Rightarrow> aggregate" where
  "detect_runtime_state_issues g =
     add_diagnostics g (List.map_filter (\<lambda>o1. map_option (\<lambda>code. diagnostic code mcp_diagnostic_severity.SevWarning (oi_runtime o1)
       (Some (oi_server_id o1)) ''Runtime MCP state needs attention'' (oi_evidence o1) (ag_observed_at g)) (state_issue o1)) (ag_observations g))"

definition aggregate_finalize :: "mcp_env \<Rightarrow> aggregate \<Rightarrow> mcp_inventory" where
  "aggregate_finalize env g0 =
     (let g = detect_runtime_state_issues (detect_configuration_drift (detect_duplicates (add_native_only_servers env (align_probe_observations g0))))
      in \<lparr>mi_servers = sort_key ms_id (map snd (ag_servers g)),
          mi_bindings = sort_key (\<lambda>b. (mb_runtime b, mb_server_id b)) (ag_bindings g),
          mi_observations = sort_key (\<lambda>o1. (oi_runtime o1, oi_alias o1, oi_server_id o1)) (ag_observations g),
          mi_diagnostics = sort_key (\<lambda>d. (dg_runtime d, dg_code d, opt_rank (dg_server_id d))) (ag_diagnostics g),
          mi_observed_at = ag_observed_at g\<rparr>)"

definition inspect_config :: "mcp_host \<Rightarrow> string \<Rightarrow> string \<Rightarrow> aggregate \<Rightarrow> string \<Rightarrow> aggregate" where
  "inspect_config h now runtime g path =
     (let scope = (if path_starts_with path (mh_workspace h) then Some (mh_workspace h) else None)
      in case discover_config h runtime path scope now of
           ConfigMissing \<Rightarrow> g
         | ConfigSnapshot s \<Rightarrow> aggregate_extend g s
         | ConfigDiagnostic d \<Rightarrow> add_diagnostics g [d])"

definition inspect :: "mcp_host \<Rightarrow> string \<Rightarrow> mcp_inventory" where
  "inspect h now =
     (let runtimes = target_runtimes (mh_catalog h);
          g = foldl (\<lambda>g runtime. foldl (inspect_config h now runtime) g (config_paths runtime (mh_home h) (mh_workspace h)))
                (aggregate_new now) runtimes
      in aggregate_finalize (mh_env h) (foldl aggregate_extend g (run_probes h runtimes now)))"

section \<open>Capabilities\<close>

definition is_ascii_alphanumeric :: "char \<Rightarrow> bool" where
  "is_ascii_alphanumeric c \<longleftrightarrow> byte_in 0x30 0x39 c \<or> byte_in 0x41 0x5A c \<or> byte_in 0x61 0x7A c"

fun words_by :: "(char \<Rightarrow> bool) \<Rightarrow> string \<Rightarrow> string \<Rightarrow> string list" where
  "words_by sep cur [] = [rev cur]"
| "words_by sep cur (c # s) = (if sep c then rev cur # words_by sep [] s else words_by sep (c # cur) s)"

definition command_help_proves :: "command_outcome \<Rightarrow> string \<Rightarrow> bool" where
  "command_help_proves outcome subcommand =
     (case outcome of
        CmdOutput True out err \<Rightarrow>
          (let tokens = words_by (\<lambda>c. \<not> is_ascii_alphanumeric c \<and> c \<noteq> CHR ''-'') [] (to_ascii_lowercase (out @ [CHR 0x0A] @ err))
           in ''usage'' \<in> set tokens \<and> subcommand \<in> set tokens \<and> subcommand \<noteq> [])
      | _ \<Rightarrow> False)"

definition codex_writer_contract :: "mcp_host \<Rightarrow> string \<Rightarrow> mcp_capability_support \<times> string" where
  "codex_writer_contract h runtime =
     (if runtime \<noteq> ''codex'' then (Unsupported, ''native writer contract is not applicable'')
      else case Option.bind (runtime_entry h runtime) ri_binary of
             None \<Rightarrow> (Unsupported, ''Codex native CLI is unavailable'')
           | Some bin \<Rightarrow>
               (let add = mh_run h bin [''mcp'', ''add'', ''--help'']; remove = mh_run h bin [''mcp'', ''remove'', ''--help'']
                in if command_help_proves add ''add'' \<and> command_help_proves remove ''remove'' then
                     (Supported, ''native CLI independently proves bounded mcp add and remove contracts'')
                   else if add = CmdMissing \<or> remove = CmdMissing then
                     (Unsupported, ''native CLI disappeared during capability negotiation'')
                   else (UnknownSupport, ''native CLI add/remove help probes were incomplete, malformed, timed out, or unsuccessful'')))"

definition binary_path_of :: "mcp_host \<Rightarrow> string \<Rightarrow> string option" where
  "binary_path_of h runtime = Option.bind (runtime_entry h runtime) ri_binary"

definition capability_detail :: "mcp_host \<Rightarrow> string \<Rightarrow> mcp_capability_support \<Rightarrow> string \<Rightarrow> mcp_capability_detail" where
  "capability_detail h runtime support reason =
     \<lparr>cy_support = support, cy_reason = reason,
      cy_evidence = [evidence ''adapter_capability_probe'' reason (binary_path_of h runtime) False False]\<rparr>"

text \<open>Adapter, schema, destination, subtree and reload strategy\<close>

definition adapter_row :: "mcp_host \<Rightarrow> string \<Rightarrow> string \<times> string \<times> string \<times> string \<times> mcp_reload_strategy" where
  "adapter_row h runtime =
     (if runtime = ''codex'' then
        (if binary_path_of h runtime \<noteq> None then ''codex_native_cli'' else ''codex_read_only'',
         ''codex.mcp_servers.v1'', ''$CODEX_HOME/config.toml'', ''mcp_servers'', NewSessionOnly)
      else if runtime = ''cursor'' then
        (''cursor_structured_json_fallback'', ''cursor.mcpServers.v1'', ''.cursor/mcp.json'', ''mcpServers'', NewSessionOnly)
      else if runtime = ''claude'' then
        (''claude_structured_json_fallback'', ''claude.mcpServers.v1'', ''.mcp.json'', ''mcpServers'', NewSessionOnly)
      else (''grok_read_only'', ''grok.mcp_servers.v1'', ''$GROK_HOME/config.toml'', ''mcp_servers'', DeferredReload))"

definition structured_writer :: "string \<Rightarrow> bool" where
  "structured_writer runtime \<longleftrightarrow> runtime = ''cursor'' \<or> runtime = ''claude''"

definition write_support :: "mcp_host \<Rightarrow> string \<Rightarrow> mcp_capability_support" where
  "write_support h runtime =
     (if structured_writer runtime then Supported else if runtime = ''codex'' then fst (codex_writer_contract h runtime)
      else if runtime = ''grok'' then ReadOnly else Unsupported)"

definition write_reason :: "mcp_host \<Rightarrow> string \<Rightarrow> string" where
  "write_reason h runtime =
     (if runtime = ''codex'' then snd (codex_writer_contract h runtime)
      else if structured_writer runtime then ''controlled structured fallback preserves fields outside the MCP subtree''
      else ''no transactionally safe writer is enabled for this Runtime'')"

definition capability_operations :: "mcp_host \<Rightarrow> string \<Rightarrow> (mcp_capability_operation \<times> mcp_capability_detail) list" where
  "capability_operations h runtime =
     (let detail = capability_detail h runtime;
          installed = (binary_path_of h runtime \<noteq> None);
          write_detail = detail (write_support h runtime) (write_reason h runtime)
      in [(OpReadDiscover, detail (if installed then Supported else ReadOnly)
             (if installed then ''native readback probe and structured discovery are available''
              else ''binary is missing; only structured configuration discovery is available'')),
          (OpAddConfigure, write_detail),
          (OpEnableDisable, detail (if structured_writer runtime then Supported else Unsupported)
             (if structured_writer runtime then ''structured fallback has an explicit disabled field contract''
              else ''native enable/disable contract is not proven'')),
          (OpRemove, write_detail),
          (OpSecretReference, detail Unsupported
             ''opaque references are accepted, but this adapter has no proven non-persistent secret injection contract''),
          (OpReload, detail ReadOnly
             ''configuration becomes visible to new sessions; active sessions are never restarted implicitly''),
          (OpVerify, detail (if installed then Supported else ReadOnly)
             (if installed then ''fresh native readback plus inventory/doctor is available''
              else ''verification is limited to structured configuration readback'')),
          (OpRollback, write_detail)])"

definition runtime_capability :: "mcp_host \<Rightarrow> string \<Rightarrow> mcp_runtime_capability" where
  "runtime_capability h runtime =
     (case adapter_row h runtime of (adapter, schema, destination, subtree, reload) \<Rightarrow>
       \<lparr>rc_runtime = runtime, rc_adapter = adapter, rc_binary_path = binary_path_of h runtime,
        rc_binary_version = Option.bind (runtime_entry h runtime) ri_version, rc_config_schema_version = schema,
        rc_destination = (if starts_with destination ''.'' then join_path (mh_workspace h) destination else destination),
        rc_allowed_subtree = subtree, rc_reload_strategy = reload, rc_operations = capability_operations h runtime\<rparr>)"

definition capabilities :: "mcp_host \<Rightarrow> string \<Rightarrow> mcp_capability_snapshot" where
  "capabilities h now =
     (let snap = \<lparr>cs_hash = [], cs_observed_at = now, cs_runtimes = sort_key rc_runtime (map (runtime_capability h) (target_runtimes (mh_catalog h)))\<rparr>
      in snap\<lparr>cs_hash := hash_mcp_capabilities (mh_env h) snap\<rparr>)"

section \<open>Preflight\<close>

record mcp_preflight_action =
  pf_action_index :: nat
  pf_runtime :: string
  pf_server_id :: string
  pf_operation :: mcp_capability_operation
  pf_support :: mcp_capability_support
  pf_executable :: bool
  pf_reason :: string
  pf_adapter :: string
  pf_destination :: string
  pf_allowed_subtree :: string
  pf_reload_strategy :: mcp_reload_strategy
  pf_idempotency_key :: string
  pf_expected_source_hash :: "string option"
  pf_expected_schema_hash :: "string option"

record mcp_preflight_report =
  pr_plan_id :: string
  pr_plan_hash :: string
  pr_capability_hash :: string
  pr_observation_hash :: string
  pr_config_hash :: string
  pr_actions :: "mcp_preflight_action list"
  pr_stale_reasons :: "string list"
  pr_executable :: bool

definition authoritative_source_hash :: "mcp_plan_action \<Rightarrow> string option" where
  "authoritative_source_hash action =
     (case List.map_filter (\<lambda>e. map_option to_ascii_lowercase (evidence_hash e)) (filter (\<lambda>e. ev_source e = ''config'') (pa_evidence action)) of
        [] \<Rightarrow> None
      | h # _ \<Rightarrow> Some h)"

fun required_operation :: "mcp_plan_action_kind \<Rightarrow> mcp_capability_operation" where
  "required_operation AddConfigure = OpAddConfigure"
| "required_operation Update = OpAddConfigure"
| "required_operation Enable = OpEnableDisable"
| "required_operation Disable = OpEnableDisable"
| "required_operation Remove = OpRemove"
| "required_operation AuthenticationRequired = OpSecretReference"
| "required_operation ApprovalRequired = OpVerify"
| "required_operation ManualUnsupported = OpVerify"

definition idempotency_key :: "mcp_env \<Rightarrow> mcp_plan \<Rightarrow> nat \<Rightarrow> mcp_plan_action \<Rightarrow> string" where
  "idempotency_key env plan i action =
     sha256_bytes env (pn_plan_hash plan @ '':'' @ digits i @ '':'' @ pa_runtime action @ '':'' @ pa_server_id action)"

definition preflight_action :: "mcp_env \<Rightarrow> mcp_plan \<Rightarrow> mcp_capability_snapshot \<Rightarrow> nat \<Rightarrow> mcp_plan_action \<Rightarrow> mcp_preflight_action" where
  "preflight_action env plan snap i action =
     (let operation = required_operation (pa_kind action);
          capability = find (\<lambda>c. rc_runtime c = pa_runtime action) (cs_runtimes snap);
          detail = Option.bind capability (\<lambda>c. map_of (rc_operations c) operation);
          codex_change = (pa_runtime action = ''codex'' \<and> pa_kind action \<in> {Update, Enable, Disable});
          support = (if codex_change then Unsupported else case detail of None \<Rightarrow> UnknownSupport | Some d \<Rightarrow> cy_support d);
          executable_kind = (pa_kind action \<notin> {ApprovalRequired, AuthenticationRequired, ManualUnsupported});
          source_proven = (case authoritative_source_hash action of None \<Rightarrow> False | Some h \<Rightarrow> pa_expected_source_hash action = Some h);
          write_requires_source = (pa_kind action \<in> {AddConfigure, Enable, Disable, Update, Remove})
      in \<lparr>pf_action_index = i, pf_runtime = pa_runtime action, pf_server_id = pa_server_id action, pf_operation = operation,
          pf_support = support,
          pf_executable = (executable_kind \<and> \<not> pa_blocked action \<and> support = Supported
                           \<and> cs_hash snap = pn_capability_hash plan \<and> (\<not> write_requires_source \<or> source_proven)),
          pf_reason =
            (if write_requires_source \<and> \<not> source_proven then ''no authoritative configuration source hash proves a safe write destination''
             else if codex_change then ''Codex native adapter does not expose a transactionally safe update or enable/disable contract''
             else if \<not> executable_kind \<or> pa_blocked action then ''plan action requires manual handling''
             else (case detail of None \<Rightarrow> ''adapter capability is unknown'' | Some d \<Rightarrow> cy_reason d)),
          pf_adapter = (case capability of None \<Rightarrow> ''unknown'' | Some c \<Rightarrow> rc_adapter c),
          pf_destination = (case capability of None \<Rightarrow> [] | Some c \<Rightarrow> rc_destination c),
          pf_allowed_subtree = (case capability of None \<Rightarrow> [] | Some c \<Rightarrow> rc_allowed_subtree c),
          pf_reload_strategy = (case capability of None \<Rightarrow> UnsupportedReload | Some c \<Rightarrow> rc_reload_strategy c),
          pf_idempotency_key = idempotency_key env plan i action,
          pf_expected_source_hash = pa_expected_source_hash action, pf_expected_schema_hash = pa_expected_schema_hash action\<rparr>)"

definition preflight_report :: "mcp_env \<Rightarrow> mcp_capability_snapshot \<Rightarrow> mcp_inventory \<Rightarrow> mcp_plan \<Rightarrow> mcp_preflight_report" where
  "preflight_report env snap inventory plan =
     (let stale = (if cs_hash snap \<noteq> pn_capability_hash plan then [''adapter_capability_or_version_drift''] else [])
                  @ (if hash_mcp_observation env inventory \<noteq> pn_observation_hash plan then [''observation_drift''] else []);
          actions = sort_key pf_action_index (map (\<lambda>(i, a). preflight_action env plan snap i a) (enumerate 0 (pn_actions plan)))
      in \<lparr>pr_plan_id = pn_id plan, pr_plan_hash = pn_plan_hash plan, pr_capability_hash = cs_hash snap,
          pr_observation_hash = hash_mcp_observation env inventory, pr_config_hash = pn_config_hash plan, pr_actions = actions,
          pr_stale_reasons = stale,
          pr_executable = (stale = [] \<and> list_all (\<lambda>a. pf_support a = Supported) (filter pf_executable actions))\<rparr>)"

definition preflight :: "mcp_host \<Rightarrow> string \<Rightarrow> mcp_plan \<Rightarrow> mcp_preflight_report" where
  "preflight h now plan = preflight_report (mh_env h) (capabilities h now) (inspect h now) plan"

section \<open>What the inventory and the preflight give\<close>

lemma dedup_sorted:
  assumes "sorted xs"
  shows "sorted (dedup_by (=) xs)" "distinct (dedup_by (=) xs)" "set (dedup_by (=) xs) = set xs"
proof -
  have set: "set (dedup_by (=) ys) = set ys" for ys :: "'a list"
    by (induction "(=) :: 'a \<Rightarrow> 'a \<Rightarrow> bool" ys rule: dedup_by.induct) auto
  show "set (dedup_by (=) xs) = set xs" by (rule set)
  have "sorted (dedup_by (=) xs) \<and> distinct (dedup_by (=) xs)"
    using assms by (induction "(=) :: 'a \<Rightarrow> 'a \<Rightarrow> bool" xs rule: dedup_by.induct) (auto simp: set)
  then show "sorted (dedup_by (=) xs)" "distinct (dedup_by (=) xs)" by simp_all
qed

lemma target_runtimes_fixed: "target_runtimes catalog = [''claude'', ''codex'', ''cursor'', ''grok'']"
proof -
  define names where "names = filter (\<lambda>n. n \<in> set [''codex'', ''cursor'', ''claude'', ''grok'']) (map ri_name catalog)"
  define xs where "xs = foldl (\<lambda>ns r. if r \<in> set ns then ns else ns @ [r]) names [''codex'', ''cursor'', ''claude'', ''grok'']"
  have sub: "set names \<subseteq> {''codex'', ''cursor'', ''claude'', ''grok''}" by (auto simp: names_def)
  have "set (foldl (\<lambda>ns r. if r \<in> set ns then ns else ns @ [r]) ns rs) = set ns \<union> set rs" for ns rs :: "string list"
    by (induction rs arbitrary: ns) auto
  then have "set (dedup_by (=) (sort xs)) = set [''claude'', ''codex'', ''cursor'', ''grok'']"
    using sub by (auto simp: xs_def dedup_sorted)
  moreover have "sorted [''claude'', ''codex'', ''cursor'', ''grok'']" by code_simp
  ultimately have "dedup_by (=) (sort xs) = [''claude'', ''codex'', ''cursor'', ''grok'']"
    by (intro sorted_distinct_set_unique) (simp_all add: dedup_sorted)
  then show ?thesis by (simp add: target_runtimes_def Let_def xs_def names_def)
qed

text \<open>Servers are kept under their own identifier; every binding and observation names one of them.\<close>

definition keyed :: "(string, mcp_server) btree \<Rightarrow> bool" where
  "keyed m \<longleftrightarrow> bt_ok m \<and> (\<forall>(k, s) \<in> set m. ms_id s = k)"

definition aggregate_ok :: "aggregate \<Rightarrow> bool" where
  "aggregate_ok g \<longleftrightarrow> keyed (ag_servers g) \<and> mb_server_id ` set (ag_bindings g) \<subseteq> fst ` set (ag_servers g)"

definition snapshot_ok :: "snapshot \<Rightarrow> bool" where
  "snapshot_ok s \<longleftrightarrow> mb_server_id ` set (sn_bindings s) \<subseteq> ms_id ` set (sn_servers s)"

lemma bt_insert_set: "bt_ok m \<Longrightarrow> set (bt_insert k v m) = insert (k, v) {p \<in> set m. fst p \<noteq> k}"
  by (induction k v m rule: bt_insert.induct) (force simp: bt_ok_Cons)+

lemma keyed_insert: "keyed m \<Longrightarrow> ms_id s = k \<Longrightarrow> keyed (bt_insert k s m)"
  by (auto simp: keyed_def bt_insert_set)

lemma keyed_get: "keyed m \<Longrightarrow> bt_get m k = Some s \<Longrightarrow> ms_id s = k"
  by (auto simp: keyed_def bt_get_iff)

lemma keyed_add_server: "keyed m \<Longrightarrow> keyed (add_server m s) \<and> fst ` set (add_server m s) = insert (ms_id s) (fst ` set m)"
  unfolding add_server_def
  by (intro conjI keyed_insert) (auto simp: keys_insert merge_server_def dest: keyed_get split: option.split)

lemma keyed_add_servers: "keyed m \<Longrightarrow> keyed (foldl add_server m ss) \<and> fst ` set (foldl add_server m ss) = ms_id ` set ss \<union> fst ` set m"
  by (induction ss arbitrary: m) (auto simp: keyed_add_server)

lemma aggregate_extend_ok: "aggregate_ok g \<Longrightarrow> snapshot_ok s \<Longrightarrow> aggregate_ok (aggregate_extend g s)"
  using keyed_add_servers [of "ag_servers g" "sn_servers s"]
  by (auto simp: aggregate_ok_def snapshot_ok_def aggregate_extend_def)

lemma snapshot_config_ok: "snapshot_ok (snapshot_config env runtime path scope defs sh now)"
  by (force simp: snapshot_ok_def snapshot_config_def config_snapshot_of_def Let_def)

lemma add_diagnostics_ok [simp]: "aggregate_ok (add_diagnostics g ds) = aggregate_ok g"
  by (simp add: aggregate_ok_def add_diagnostics_def)

lemma inspect_config_ok: "aggregate_ok g \<Longrightarrow> aggregate_ok (inspect_config h now runtime g path)"
proof -
  assume g: "aggregate_ok g"
  have "snapshot_ok s" if "discover_config h runtime path scope now = ConfigSnapshot s" for scope s
    using that by (auto simp: discover_config_def Let_def snapshot_config_ok split: meta_answer.splits read_answer.splits if_splits sum.splits)
  with g show ?thesis
    by (auto simp: inspect_config_def Let_def aggregate_extend_ok split: config_read.split)
qed

lemma foldl_keeps: "P a \<Longrightarrow> (\<And>a x. P a \<Longrightarrow> P (f a x)) \<Longrightarrow> P (foldl f a xs)"
  by (induction xs arbitrary: a) auto

definition probe_only :: "snapshot \<Rightarrow> bool" where
  "probe_only s \<longleftrightarrow> sn_servers s = [] \<and> sn_bindings s = []"

lemma probe_only_simps [simp]:
  "probe_only empty_snapshot" "probe_only (push_diagnostic s d) = probe_only s" "probe_only (s\<lparr>sn_observations := os\<rparr>) = probe_only s"
  by (simp_all add: probe_only_def empty_snapshot_def push_diagnostic_def)

lemma probe_only_extend: "probe_only a \<Longrightarrow> probe_only b \<Longrightarrow> probe_only (snapshot_extend a b)"
  by (simp add: probe_only_def snapshot_extend_def)

lemma probe_only_detail [simp]: "probe_only (probe_alias_detail h runtime binary now n)" "probe_only (probe_grok_doctor h binary now)"
  by (auto simp: probe_alias_detail_def probe_grok_doctor_def Let_def split: option.split command_outcome.split bool.split)

lemma probe_only_details: "probe_only s \<Longrightarrow> probe_only (probe_details h runtime binary now s)"
proof -
  assume "probe_only s"
  then have "probe_only (foldl (\<lambda>acc n. snapshot_extend acc (probe_alias_detail h runtime binary now n)) s ns)" for ns
    by (rule foldl_keeps) (simp add: probe_only_extend)
  then show ?thesis by (auto simp: probe_details_def Let_def intro!: probe_only_extend)
qed

lemma probe_only_runtime: "probe_only (probe_runtime h runtime binary now)"
proof -
  have l: "probe_only (probe_listing h rt bin now s)" if "probe_only s" for rt bin s
    using that by (auto simp: probe_listing_def Let_def probe_only_details split: command_outcome.split option.split bool.split)
  show ?thesis
    by (auto simp: probe_runtime_def probe_codex_app_server_def l split: option.split sum.split)
qed

lemma detect_observations [simp]:
  "ag_servers (detect_duplicates g) = ag_servers g" "ag_bindings (detect_duplicates g) = ag_bindings g" "ag_observations (detect_duplicates g) = ag_observations g"
  "ag_servers (detect_configuration_drift g) = ag_servers g" "ag_bindings (detect_configuration_drift g) = ag_bindings g"
  "ag_observations (detect_configuration_drift g) = ag_observations g"
  "ag_servers (detect_runtime_state_issues g) = ag_servers g" "ag_bindings (detect_runtime_state_issues g) = ag_bindings g"
  "ag_observations (detect_runtime_state_issues g) = ag_observations g"
  by (simp_all add: detect_duplicates_def detect_configuration_drift_def detect_runtime_state_issues_def add_diagnostics_def Let_def)

lemma add_native_keyed:
  "keyed m \<Longrightarrow> keyed (foldl (add_native env) m os) \<and> fst ` set (foldl (add_native env) m os) = oi_server_id ` set os \<union> fst ` set m"
proof (induction os arbitrary: m)
  case (Cons o1 os)
  have "keyed (add_native env m o1)"
    using Cons.prems by (auto simp: add_native_def native_server_def intro!: keyed_insert split: option.split)
  moreover have "fst ` set (add_native env m o1) = insert (oi_server_id o1) (fst ` set m)"
  proof (cases "bt_get m (oi_server_id o1)")
    case None
    then show ?thesis by (simp add: add_native_def keys_insert)
  next
    case (Some s)
    then have "oi_server_id o1 \<in> fst ` set m"
      unfolding bt_get_def by (force dest: map_of_SomeD)
    with Some show ?thesis by (simp add: add_native_def insert_absorb)
  qed
  ultimately show ?case using Cons.IH [of "add_native env m o1"] by auto
qed simp

lemma finalize_ok:
  assumes "aggregate_ok g"
  shows "distinct (map ms_id (mi_servers (aggregate_finalize env g)))"
    "oi_server_id ` set (mi_observations (aggregate_finalize env g)) \<subseteq> ms_id ` set (mi_servers (aggregate_finalize env g))"
    "mb_server_id ` set (mi_bindings (aggregate_finalize env g)) \<subseteq> ms_id ` set (mi_servers (aggregate_finalize env g))"
proof -
  define g1 where "g1 = align_probe_observations g"
  define m where "m = ag_servers (add_native_only_servers env g1)"
  have "ag_servers g1 = ag_servers g" "ag_bindings g1 = ag_bindings g" by (simp_all add: g1_def align_probe_observations_def Let_def)
  with assms have k: "keyed m" "fst ` set m = oi_server_id ` set (ag_observations g1) \<union> fst ` set (ag_servers g)"
    using add_native_keyed [of "ag_servers g1" env "ag_observations g1"] by (auto simp: m_def add_native_only_servers_def aggregate_ok_def)
  have ids: "map ms_id (map snd m) = map fst m" using k(1) by (auto simp: keyed_def)
  have iv: "mi_servers (aggregate_finalize env g) = sort_key ms_id (map snd m)"
    "set (mi_observations (aggregate_finalize env g)) = set (ag_observations g1)"
    "set (mi_bindings (aggregate_finalize env g)) = set (ag_bindings g)"
    by (simp_all add: aggregate_finalize_def Let_def m_def add_native_only_servers_def g1_def align_probe_observations_def)
  have "ms_id ` set (mi_servers (aggregate_finalize env g)) = set (map ms_id (map snd m))" by (simp only: iv set_map set_sort)
  also have "\<dots> = fst ` set m" by (simp only: ids) simp
  finally have s: "ms_id ` set (mi_servers (aggregate_finalize env g)) = fst ` set m" .
  show "oi_server_id ` set (mi_observations (aggregate_finalize env g)) \<subseteq> ms_id ` set (mi_servers (aggregate_finalize env g))"
    "mb_server_id ` set (mi_bindings (aggregate_finalize env g)) \<subseteq> ms_id ` set (mi_servers (aggregate_finalize env g))"
    using assms by (auto simp: s iv(2,3) k(2) aggregate_ok_def)
  have "distinct (map fst m)" using k(1) by (simp add: keyed_def bt_distinct)
  then have "distinct (map ms_id (map snd m))" by (simp only: ids)
  then show "distinct (map ms_id (mi_servers (aggregate_finalize env g)))"
    by (simp add: iv(1) distinct_map_sort del: map_map)
qed

lemma inspect_ok: "\<exists>g. aggregate_ok g \<and> inspect h now = aggregate_finalize (mh_env h) g"
proof -
  have e: "aggregate_ok (aggregate_new now)" by (simp add: aggregate_ok_def aggregate_new_def keyed_def)
  have c: "aggregate_ok (foldl (\<lambda>g runtime. foldl (inspect_config h now runtime) g (config_paths runtime (mh_home h) (mh_workspace h)))
              (aggregate_new now) rs)" for rs
    by (intro foldl_keeps [of aggregate_ok] e inspect_config_ok)
  have "aggregate_ok (foldl aggregate_extend g (run_probes h rs now))" if "aggregate_ok g" for g rs
    using that unfolding run_probes_def
    by (induction rs arbitrary: g) (use probe_only_runtime in \<open>auto simp: aggregate_extend_ok snapshot_ok_def probe_only_def\<close>)
  with c show ?thesis unfolding inspect_def Let_def by blast
qed

lemma capability_lookup:
  assumes "find (\<lambda>c. rc_runtime c = r) (cs_runtimes (capabilities h now)) = Some c"
  shows "c = runtime_capability h r" "r \<in> {''claude'', ''codex'', ''cursor'', ''grok''}"
proof -
  have r: "rc_runtime (runtime_capability h x) = x" for x
    by (simp add: runtime_capability_def split: prod.split)
  from assms have "c \<in> set (cs_runtimes (capabilities h now))" "rc_runtime c = r"
    by (auto simp: find_Some_iff)
  then obtain x where "x \<in> set (target_runtimes (mh_catalog h))" "c = runtime_capability h x" "rc_runtime c = r"
    by (auto simp: capabilities_def Let_def)
  then show "c = runtime_capability h r" "r \<in> {''claude'', ''codex'', ''cursor'', ''grok''}"
    by (auto simp: r target_runtimes_fixed)
qed

lemma preflight_actions:
  "pr_actions (preflight_report env snap iv plan) = map (\<lambda>(i, a). preflight_action env plan snap i a) (enumerate 0 (pn_actions plan))"
proof -
  have "map pf_action_index (map (\<lambda>(i, a). preflight_action env plan snap i a) (enumerate n as)) = [n..<n + length as]" for n as
    by (simp add: comp_def case_prod_unfold preflight_action_def Let_def map_fst_enumerate [unfolded comp_def])
  then have "sorted (map pf_action_index (map (\<lambda>(i, a). preflight_action env plan snap i a) (enumerate 0 (pn_actions plan))))"
    by simp
  then show ?thesis by (simp add: preflight_report_def Let_def sort_key_id_if_sorted)
qed

definition writer_proven :: "mcp_host \<Rightarrow> mcp_plan_action \<Rightarrow> bool" where
  "writer_proven h a \<longleftrightarrow>
     pa_runtime a \<in> {''cursor'', ''claude''} \<and> pa_kind a \<in> {AddConfigure, Update, Enable, Disable, Remove}
     \<or> pa_runtime a = ''codex'' \<and> pa_kind a \<in> {AddConfigure, Remove} \<and> fst (codex_writer_contract h ''codex'') = Supported"

lemma capability_support:
  assumes "map_of (rc_operations (runtime_capability h r)) op = Some d"
  shows "(op = OpAddConfigure \<or> op = OpRemove \<longrightarrow> cy_support d = write_support h r)
     \<and> (op = OpEnableDisable \<longrightarrow> cy_support d = (if structured_writer r then Supported else Unsupported))"
proof -
  have "map_of (capability_operations h r) op = Some d"
    using assms by (simp add: runtime_capability_def split: prod.splits)
  then show ?thesis by (cases op) (auto simp: capability_operations_def Let_def capability_detail_def)
qed

lemma supported_writer:
  assumes "Option.bind (find (\<lambda>c. rc_runtime c = pa_runtime a) (cs_runtimes (capabilities h now))) (\<lambda>c. map_of (rc_operations c) (required_operation (pa_kind a))) = Some d"
    and "cy_support d = Supported" "pa_kind a \<notin> {ApprovalRequired, AuthenticationRequired, ManualUnsupported}"
    and "\<not> (pa_runtime a = ''codex'' \<and> pa_kind a \<in> {Update, Enable, Disable})"
  shows "writer_proven h a"
proof -
  obtain c where c: "find (\<lambda>c. rc_runtime c = pa_runtime a) (cs_runtimes (capabilities h now)) = Some c"
    "map_of (rc_operations c) (required_operation (pa_kind a)) = Some d"
    using assms(1) by (auto simp: bind_eq_Some_conv)
  note r = capability_lookup [OF c(1)]
  note s = capability_support [OF c(2) [unfolded r(1)]]
  show ?thesis
    using s assms(2-4) r(2) by (cases "pa_kind a") (auto simp: writer_proven_def write_support_def structured_writer_def split: if_splits)
qed

section \<open>Properties\<close>

text \<open>
  C10. The inventory is closed: whatever files and probes answer, server identifiers are unique, and
  every observation and every binding of the inventory names a server of it.
\<close>

theorem inventory_closed:
  "distinct (map ms_id (mi_servers (inspect h now)))
   \<and> oi_server_id ` set (mi_observations (inspect h now)) \<subseteq> ms_id ` set (mi_servers (inspect h now))
   \<and> mb_server_id ` set (mi_bindings (inspect h now)) \<subseteq> ms_id ` set (mi_servers (inspect h now))"
proof -
  obtain g where "aggregate_ok g" "inspect h now = aggregate_finalize (mh_env h) g" using inspect_ok by blast
  with finalize_ok [of g "mh_env h"] show ?thesis by simp
qed

text \<open>
  C7. Preflight lets an action through only if it is not blocked, the runtime has a proven writer for
  it (Cursor and Claude; Codex only to add or remove, and only when its command line documents both;
  Grok never), the capabilities are those the plan was bound to, and its source hash is the one that a
  configuration file was observed with.
\<close>

theorem preflight_executable_safe:
  assumes "p \<in> set (pr_actions (preflight h now plan))" "pf_executable p"
  shows "pf_action_index p < length (pn_actions plan)
    \<and> \<not> pa_blocked (pn_actions plan ! pf_action_index p) \<and> writer_proven h (pn_actions plan ! pf_action_index p)
    \<and> cs_hash (capabilities h now) = pn_capability_hash plan
    \<and> (\<exists>e \<in> set (pa_evidence (pn_actions plan ! pf_action_index p)). ev_source e = ''config''
         \<and> pa_expected_source_hash (pn_actions plan ! pf_action_index p) = map_option to_ascii_lowercase (evidence_hash e)
         \<and> evidence_hash e \<noteq> None)"
proof -
  obtain i where i: "i < length (pn_actions plan)" and p: "p = preflight_action (mh_env h) plan (capabilities h now) i (pn_actions plan ! i)"
    using assms(1) by (auto simp: preflight_def preflight_actions in_set_enumerate_eq)
  define a where "a = pn_actions plan ! i"
  have idx: "pf_action_index p = i" by (simp add: p preflight_action_def Let_def)
  note x = assms(2) [unfolded p a_def [symmetric] preflight_action_def Let_def, simplified]
  from x obtain d where d: "Option.bind (find (\<lambda>c. rc_runtime c = pa_runtime a) (cs_runtimes (capabilities h now)))
      (\<lambda>c. map_of (rc_operations c) (required_operation (pa_kind a))) = Some d" "cy_support d = Supported"
    and k: "pa_kind a \<notin> {ApprovalRequired, AuthenticationRequired, ManualUnsupported}" "\<not> (pa_runtime a = ''codex'' \<and> pa_kind a \<in> {Update, Enable, Disable})"
    by (auto split: if_splits option.splits)
  have "pa_kind a \<in> {AddConfigure, Enable, Disable, Update, Remove}" using k(1) by (cases "pa_kind a") auto
  with x obtain hh where hh: "authoritative_source_hash a = Some hh" "pa_expected_source_hash a = Some hh"
    by (auto split: option.splits)
  from hh(1) have "hh \<in> set (List.map_filter (\<lambda>e. map_option to_ascii_lowercase (evidence_hash e)) (filter (\<lambda>e. ev_source e = ''config'') (pa_evidence a)))"
    by (auto simp: authoritative_source_hash_def split: list.splits)
  then obtain e where "e \<in> set (pa_evidence a)" "ev_source e = ''config''" "map_option to_ascii_lowercase (evidence_hash e) = Some hh"
    by (auto simp: List.map_filter_def)
  with hh(2) have "\<exists>e \<in> set (pa_evidence a). ev_source e = ''config'' \<and> pa_expected_source_hash a = map_option to_ascii_lowercase (evidence_hash e) \<and> evidence_hash e \<noteq> None"
    by force
  with supported_writer [OF d k] x i show ?thesis unfolding idx a_def [symmetric] by simp
qed

definition wit_hash :: string where
  "wit_hash = replicate 64 CHR ''a''"

definition wit_config_ev :: mcp_evidence where
  "wit_config_ev = evidence ''config'' (''configured MCP server; source_sha256='' @ wit_hash) (Some ''/w/.cursor/mcp.json'') False False"

definition wit_host :: mcp_host where
  "wit_host = \<lparr>mh_env = wit_env\<lparr>mv_digest := (\<lambda>_. [])\<rparr>, mh_parse = (\<lambda>_. None), mh_pretty = print_json, mh_catalog = [], mh_home = None, mh_workspace = ''/w'',
     mh_run = (\<lambda>_ _. CmdMissing), mh_app_server = (\<lambda>_. None), mh_meta = (\<lambda>_. MetaMissing), mh_read = (\<lambda>_. ReadMissing)\<rparr>"

definition wit_exec_plan :: mcp_plan where
  "wit_exec_plan = (wit_plan wit_layered)\<lparr>pn_actions := [(wit_act Update)\<lparr>pa_evidence := [wit_config_ev], pa_expected_source_hash := Some wit_hash\<rparr>],
     pn_capability_hash := [], pn_plan_hash := [], pn_observation_hash := []\<rparr>"

theorem preflight_executable_safe_witness:
  "writer_proven wit_host (pn_actions wit_exec_plan ! 0)"
proof -
  let ?p = "preflight_action (mh_env wit_host) wit_exec_plan (capabilities wit_host []) 0 (pn_actions wit_exec_plan ! 0)"
  have "(0, pn_actions wit_exec_plan ! 0) \<in> set (enumerate 0 (pn_actions wit_exec_plan))"
    by (simp add: in_set_enumerate_eq) (simp add: wit_exec_plan_def)
  then have "?p \<in> set (pr_actions (preflight wit_host [] wit_exec_plan))"
    unfolding preflight_def preflight_actions set_map by force
  moreover have "pf_executable ?p"
  proof -
    let ?a = "pn_actions wit_exec_plan ! 0"
    have r: "cs_runtimes (capabilities wit_host []) = sort_key rc_runtime (map (runtime_capability wit_host) [''claude'', ''codex'', ''cursor'', ''grok''])"
      unfolding capabilities_def Let_def target_runtimes_fixed by (simp only: mcp_capability_snapshot.simps)
    have "Option.bind (find (\<lambda>c. rc_runtime c = ''cursor'') (sort_key rc_runtime (map (runtime_capability wit_host) [''claude'', ''codex'', ''cursor'', ''grok''])))
        (\<lambda>c. map_option cy_support (map_of (rc_operations c) OpAddConfigure)) = Some Supported" by code_simp
    then obtain c d where c: "find (\<lambda>c. rc_runtime c = ''cursor'') (cs_runtimes (capabilities wit_host [])) = Some c"
      "map_of (rc_operations c) OpAddConfigure = Some d" "cy_support d = Supported"
      unfolding r [symmetric] bind_eq_Some_conv map_option_eq_Some by blast
    have e: "mh_env wit_host = wit_env\<lparr>mv_digest := (\<lambda>_. [])\<rparr>" by (simp add: wit_host_def)
    have "cs_hash (capabilities wit_host []) = []"
      by (simp add: capabilities_def Let_def hash_mcp_capabilities_def hash_value_def e hex_digest_def)
    moreover have "authoritative_source_hash ((wit_act Update)\<lparr>pa_evidence := [wit_config_ev], pa_expected_source_hash := Some wit_hash\<rparr>) = Some wit_hash"
      by code_simp
    ultimately show ?thesis
      using c by (simp add: wit_exec_plan_def preflight_action_def Let_def wit_act_def)
  qed
  moreover have "pf_action_index ?p = 0" by (simp add: preflight_action_def Let_def)
  ultimately show ?thesis using preflight_executable_safe [of ?p wit_host "[]" wit_exec_plan] by simp
qed

text \<open>
  The flag of the whole report says no more than that the plan is fresh: an executable action is
  supported by definition, so a plan of which no action can run is reported as executable.
\<close>

theorem report_executable_iff_fresh:
  "pr_executable (preflight h now plan) \<longleftrightarrow> pr_stale_reasons (preflight h now plan) = []"
  by (auto simp: preflight_def preflight_report_def preflight_action_def Let_def list_all_iff)

text \<open>
  A source hash written in capitals is kept as it is by the planner and lowered by preflight, so an
  action that rests on it never runs.
\<close>

theorem capital_hash_never_executable:
  assumes "pa_expected_source_hash a = Some hh" "to_ascii_lowercase hh \<noteq> hh"
    "pa_kind a \<in> {AddConfigure, Enable, Disable, Update, Remove}"
  shows "\<not> pf_executable (preflight_action env plan snap i a)"
proof -
  have "authoritative_source_hash a \<noteq> Some hh"
  proof
    assume "authoritative_source_hash a = Some hh"
    then have "hh \<in> set (List.map_filter (\<lambda>e. map_option to_ascii_lowercase (evidence_hash e)) (filter (\<lambda>e. ev_source e = ''config'') (pa_evidence a)))"
      by (auto simp: authoritative_source_hash_def split: list.splits)
    then obtain x where "hh = to_ascii_lowercase x" by (auto simp: List.map_filter_def)
    with assms(2) show False by simp
  qed
  with assms(1,3) show ?thesis by (auto simp: preflight_action_def Let_def split: option.splits)
qed

end
