(* ===== verification/McpWorld.thy ===== *)
theory McpWorld
  imports McpInventory "HOL-Library.State_Monad"
begin

text \<open>
  What an apply run works on (\<open>crates/cocli-server/src/mcp.rs\<close>): the files, the durable journal behind
  the sink, and the journal in memory. Every call of the operating system or of the sink draws an
  answer: it is carried out, it fails, or the process is stopped there, after which nothing has an
  effect any more. The file primitives, the checkpoint and the lock are programs of the state monad
  over this world.
\<close>

section \<open>Types\<close>

datatype mcp_apply_journal_phase =
    PhPreflight | PhLocked | PhBackedUp | PhWritten | PhReloadPending | PhReloaded | PhVerified | PhFailed
  | PhRollingBack | PhRolledBack | PhRecoveryRequired

datatype mcp_apply_action_status = StApplied | StSkipped | StBlocked | StFailed | StVerified | StRolledBack

datatype mcp_reload_status = RlNotRequired | RlReloaded | RlDeferred | RlBlocked | RlFailed

datatype mcp_verification_status = VsMatched | VsMismatched | VsBlocked | VsFailed

datatype mcp_session_effective_status = SeEffective | SeNewSessionRequired | SeUnknown

record mcp_backup_descriptor =
  bd_id :: string
  bd_runtime :: string
  bd_source_path :: string
  bd_backup_path :: string
  bd_source_hash :: string
  bd_backup_hash :: string
  bd_applied_hash :: string
  bd_source_existed :: bool

record mcp_apply_journal_entry =
  je_sequence :: nat
  je_action_index :: nat
  je_runtime :: string
  je_server_id :: string
  je_idempotency_key :: string
  je_phase :: mcp_apply_journal_phase
  je_attempt :: nat
  je_expected_source_hash :: "string option"
  je_expected_schema_hash :: "string option"
  je_backup :: "mcp_backup_descriptor option"
  je_reason :: string
  je_evidence :: "mcp_evidence list"

record mcp_apply_action_result =
  ar_action_index :: nat
  ar_runtime :: string
  ar_server_id :: string
  ar_status :: mcp_apply_action_status
  ar_reason :: string
  ar_backup :: "mcp_backup_descriptor option"
  ar_before_source_hash :: "string option"
  ar_after_source_hash :: "string option"

record mcp_reload_result =
  rr_runtime :: string
  rr_status :: mcp_reload_status
  rr_reason :: string

record mcp_verification_result =
  vr_status :: mcp_verification_status
  vr_observation_hash :: string
  vr_mismatches :: "string list"
  vr_written_config_hashes :: "(string, string) btree"
  vr_session_effective :: mcp_session_effective_status

record mcp_apply_execution_request =
  rq_run_id :: string
  rq_plan :: mcp_plan
  rq_actor :: string
  rq_confirm_high_risk :: bool
  rq_capability_hash :: string
  rq_resume_journal :: "mcp_apply_journal_entry list"

record mcp_apply_execution_result =
  xr_actions :: "mcp_apply_action_result list"
  xr_reloads :: "mcp_reload_result list"
  xr_verification :: mcp_verification_result
  xr_journal :: "mcp_apply_journal_entry list"

section \<open>The world\<close>

datatype answer = Go | Fail | Halt

type_synonym files = "string \<Rightarrow> string option"

record apply_world =
  aw_files :: files
  aw_durable :: "mcp_apply_journal_entry list"
  aw_journal :: "mcp_apply_journal_entry list"
  aw_sequence :: nat
  aw_answers :: "nat \<Rightarrow> answer"
  aw_step :: nat
  aw_halted :: bool
  aw_fresh :: "nat \<Rightarrow> string"
  aw_draws :: nat

type_synonym 'a io = "(apply_world, 'a) state"

abbreviation ret :: "'a \<Rightarrow> 'a io" where
  "ret \<equiv> State_Monad.return"

definition draw :: "apply_world \<Rightarrow> bool \<times> apply_world" where
  "draw w =
     (if aw_halted w then (False, w)
      else case aw_answers w (aw_step w) of
             Go \<Rightarrow> (True, w\<lparr>aw_step := aw_step w + 1\<rparr>)
           | Fail \<Rightarrow> (False, w\<lparr>aw_step := aw_step w + 1\<rparr>)
           | Halt \<Rightarrow> (False, w\<lparr>aw_halted := True\<rparr>))"

text \<open>A call that changes the files when it succeeds, a call that only answers, and a call that reads\<close>

definition attempt :: "(files \<Rightarrow> files) \<Rightarrow> bool io" where
  "attempt f = State (\<lambda>w. case draw w of (ok, w') \<Rightarrow> (ok, if ok then w'\<lparr>aw_files := f (aw_files w')\<rparr> else w'))"

definition succeeds :: "bool io" where
  "succeeds = attempt (\<lambda>fs. fs)"

definition read_file :: "string \<Rightarrow> read_answer io" where
  "read_file p = State (\<lambda>w. case draw w of (ok, w') \<Rightarrow>
     (if \<not> ok then ReadError ''other error'' else case aw_files w p of None \<Rightarrow> ReadMissing | Some b \<Rightarrow> ReadBytes b, w'))"

definition peek :: "(apply_world \<Rightarrow> 'a) \<Rightarrow> 'a io" where
  "peek f = State (\<lambda>w. (f w, w))"

definition fresh_id :: "string io" where
  "fresh_id = State (\<lambda>w. (aw_fresh w (aw_draws w), w\<lparr>aw_draws := aw_draws w + 1\<rparr>))"

definition file_exists :: "string \<Rightarrow> bool io" where
  "file_exists p = do { r \<leftarrow> read_file p; ret (case r of ReadBytes _ \<Rightarrow> True | _ \<Rightarrow> False) }"

definition remove_file :: "string \<Rightarrow> bool io" where
  "remove_file p = attempt (\<lambda>fs. fs(p := None))"

text \<open>A new file that must not exist yet\<close>

definition create_new :: "string \<Rightarrow> bool io" where
  "create_new p = do {
     free \<leftarrow> peek (\<lambda>w. aw_files w p = None);
     if free then attempt (\<lambda>fs. fs(p := Some [])) else ret False }"

definition write_all :: "string \<Rightarrow> string \<Rightarrow> bool io" where
  "write_all p bytes = attempt (\<lambda>fs. fs(p := Some bytes))"

definition rename_file :: "string \<Rightarrow> string \<Rightarrow> bool io" where
  "rename_file src dst = attempt (\<lambda>fs. fs(dst := fs src, src := None))"

text \<open>\<open>?\<close> on a result\<close>

definition and_then :: "('e + 'a) io \<Rightarrow> ('a \<Rightarrow> ('e + 'b) io) \<Rightarrow> ('e + 'b) io" where
  "and_then m f = do { r \<leftarrow> m; case r of Inl e \<Rightarrow> ret (Inl e) | Inr x \<Rightarrow> f x }"

definition or_fail :: "bool io \<Rightarrow> string \<Rightarrow> (string + unit) io" where
  "or_fail m reason = do { ok \<leftarrow> m; ret (if ok then Inr () else Inl reason) }"

section \<open>Files\<close>

definition temporary_path :: "string \<Rightarrow> string \<Rightarrow> string" where
  "temporary_path parent u = join_path parent (''.cocli-mcp-'' @ u @ ''.tmp'')"

definition atomic_write :: "string \<Rightarrow> string \<Rightarrow> (string + unit) io" where
  "atomic_write path content =
     (case parent_path path of
        None \<Rightarrow> ret (Inl ''atomic write target has no parent'')
      | Some parent \<Rightarrow>
          and_then (or_fail succeeds ''atomic write parent could not be prepared'') (\<lambda>_. do {
            u \<leftarrow> fresh_id;
            let temporary = temporary_path parent u;
            and_then (or_fail (create_new temporary) ''atomic write temporary file could not be created'') (\<lambda>_.
            and_then (or_fail (write_all temporary content) ''atomic write temporary file failed'') (\<lambda>_.
            and_then (or_fail succeeds ''atomic write temporary file could not be synced'') (\<lambda>_.
            and_then (or_fail succeeds ''atomic write permissions could not be secured'') (\<lambda>_. do {
              ok \<leftarrow> rename_file temporary path;
              if ok then do { _ \<leftarrow> succeeds; ret (Inr ()) }
              else do { _ \<leftarrow> remove_file temporary; ret (Inl ''atomic replace failed: other error'') } })))) }))"

definition runtime_for_path :: "string \<Rightarrow> string" where
  "runtime_for_path path = (if contains path ''claude'' \<or> suffix ''.mcp-config.json'' path then ''claude'' else ''cursor'')"

definition backup_file :: "string \<Rightarrow> string \<Rightarrow> string" where
  "backup_file root i = join_path root (i @ ''.backup'')"

definition write_backup :: "mcp_env \<Rightarrow> string \<Rightarrow> string \<Rightarrow> string \<Rightarrow> bool \<Rightarrow> string \<Rightarrow> (string + mcp_backup_descriptor) io" where
  "write_backup env backup_root source_path source existed source_hash1 =
     and_then (or_fail succeeds ''backup directory could not be prepared'') (\<lambda>_. do {
       i \<leftarrow> fresh_id;
       let backup_path = backup_file backup_root i;
       and_then (atomic_write backup_path source) (\<lambda>_.
         ret (Inr \<lparr>bd_id = i, bd_runtime = runtime_for_path source_path, bd_source_path = source_path, bd_backup_path = backup_path,
                   bd_source_hash = source_hash1, bd_backup_hash = sha256_bytes env source, bd_applied_hash = [], bd_source_existed = existed\<rparr>)) })"

section \<open>The lock\<close>

text \<open>
  \<open>stale\<close> tells of the first line of a marker whether it is a time more than fifteen minutes ago, and
  \<open>now\<close> is the current time as text.
\<close>

record clock =
  ck_now :: string
  ck_stale :: "string \<Rightarrow> bool"

definition marker_of :: "clock \<Rightarrow> string \<Rightarrow> string" where
  "marker_of ck owner = ck_now ck @ [CHR 0x0A] @ owner"

definition second_line :: "string \<Rightarrow> string option" where
  "second_line s = (case rust_lines s of _ # l # _ \<Rightarrow> Some l | _ \<Rightarrow> None)"

definition may_take_over :: "clock \<Rightarrow> string \<Rightarrow> read_answer \<Rightarrow> bool" where
  "may_take_over ck owner r =
     (case r of
        ReadBytes marker \<Rightarrow>
          utf8_valid marker \<and>
          (second_line marker = Some owner
           \<or> (case rust_lines marker of [] \<Rightarrow> False | l # _ \<Rightarrow> ck_stale ck (trim l)))
      | _ \<Rightarrow> False)"

fun acquire_apply_lock_from :: "nat \<Rightarrow> clock \<Rightarrow> string \<Rightarrow> string \<Rightarrow> bool io" where
  "acquire_apply_lock_from 0 ck path owner = ret False"
| "acquire_apply_lock_from (Suc n) ck path owner = do {
     taken \<leftarrow> peek (\<lambda>w. aw_files w path \<noteq> None);
     if taken then
       (if n = 1 then do {
          marker \<leftarrow> read_file path;
          if may_take_over ck owner marker then do {
            _ \<leftarrow> remove_file path;
            acquire_apply_lock_from n ck path owner }
          else ret False }
        else ret False)
     else do {
       created \<leftarrow> create_new path;
       if \<not> created then ret False
       else do {
         written \<leftarrow> write_all path (marker_of ck owner);
         if \<not> written then ret False else succeeds } } }"

definition acquire_apply_lock :: "clock \<Rightarrow> string \<Rightarrow> string \<Rightarrow> bool io" where
  "acquire_apply_lock ck path owner = acquire_apply_lock_from 2 ck path owner"

definition lock_path_of :: "string \<Rightarrow> string" where
  "lock_path_of p = (if extension p = Some ''toml'' then with_extension p ''toml.cocli-mcp.lock'' else with_extension p ''json.cocli-mcp.lock'')"

definition release_owned_apply_lock :: "mcp_backup_descriptor \<Rightarrow> string \<Rightarrow> unit io" where
  "release_owned_apply_lock backup owner = do {
     r \<leftarrow> read_file (lock_path_of (bd_source_path backup));
     if (case r of ReadBytes marker \<Rightarrow> utf8_valid marker \<and> second_line marker = Some owner | _ \<Rightarrow> False)
     then do { _ \<leftarrow> remove_file (lock_path_of (bd_source_path backup)); ret () }
     else ret () }"

section \<open>The journal\<close>

definition journal_entry ::
  "nat \<Rightarrow> nat \<Rightarrow> mcp_plan_action \<Rightarrow> string \<Rightarrow> mcp_apply_journal_phase \<Rightarrow> mcp_backup_descriptor option \<Rightarrow> string \<Rightarrow> mcp_apply_journal_entry" where
  "journal_entry sq i action key phase backup reason =
     \<lparr>je_sequence = sq, je_action_index = i, je_runtime = pa_runtime action, je_server_id = pa_server_id action, je_idempotency_key = key,
      je_phase = phase, je_attempt = 1, je_expected_source_hash = pa_expected_source_hash action,
      je_expected_schema_hash = pa_expected_schema_hash action, je_backup = backup, je_reason = reason, je_evidence = pa_evidence action\<rparr>"

text \<open>
  The sink stores the entry or reports a failure, and a failure has stored nothing. This is the sink of
  a run that is still open: for one that is completed or rolled back, the one of the store
  (\<open>crates/cocli-store/src/mcp_apply.rs\<close>) answers without storing.
\<close>

definition sink_checkpoint :: "mcp_apply_journal_entry \<Rightarrow> bool io" where
  "sink_checkpoint e = State (\<lambda>w. case draw w of (ok, w') \<Rightarrow> (ok, if ok then w'\<lparr>aw_durable := aw_durable w' @ [e]\<rparr> else w'))"

definition has_phase :: "mcp_apply_journal_entry list \<Rightarrow> string \<Rightarrow> mcp_apply_journal_phase \<Rightarrow> bool" where
  "has_phase journal key phase \<longleftrightarrow> (\<exists>e \<in> set journal. je_idempotency_key e = key \<and> je_phase e = phase)"

definition push_entry :: "mcp_apply_journal_entry \<Rightarrow> unit io" where
  "push_entry e = State (\<lambda>w. ((), w\<lparr>aw_journal := aw_journal w @ [e], aw_sequence := je_sequence e\<rparr>))"

definition durable_checkpoint ::
  "nat \<Rightarrow> mcp_plan_action \<Rightarrow> string \<Rightarrow> mcp_apply_journal_phase \<Rightarrow> mcp_backup_descriptor option \<Rightarrow> string \<Rightarrow> (string + unit) io" where
  "durable_checkpoint i action key phase backup reason = do {
     known \<leftarrow> peek (\<lambda>w. has_phase (aw_journal w) key phase);
     if known then ret (Inr ())
     else do {
       sq \<leftarrow> peek aw_sequence;
       let entry = journal_entry (sq + 1) i action key phase backup reason;
       stored \<leftarrow> sink_checkpoint entry;
       if stored then do { _ \<leftarrow> push_entry entry; ret (Inr ()) }
       else ret (Inl ''durable apply journal checkpoint failed'') } }"

definition written_phase :: "mcp_apply_journal_phase \<Rightarrow> bool" where
  "written_phase ph \<longleftrightarrow> ph = PhWritten \<or> ph = PhReloadPending \<or> ph = PhReloaded \<or> ph = PhVerified"

definition recover_resume_state :: "mcp_env \<Rightarrow> mcp_apply_journal_entry list \<Rightarrow> string \<Rightarrow> (string + mcp_apply_journal_entry option) io" where
  "recover_resume_state env journal key =
     (case find (\<lambda>e. je_idempotency_key e = key \<and> written_phase (je_phase e)) (rev journal) of
        Some e \<Rightarrow> ret (Inr (Some e))
      | None \<Rightarrow>
          (case find (\<lambda>e. je_idempotency_key e = key \<and> je_phase e = PhBackedUp) (rev journal) of
             None \<Rightarrow> ret (Inr None)
           | Some e \<Rightarrow>
               (case je_backup e of
                  None \<Rightarrow> ret (Inl ''interrupted backup checkpoint has no recovery descriptor'')
                | Some b \<Rightarrow>
                    if bd_applied_hash b = [] then ret (Inl ''interrupted backup checkpoint has no expected applied hash'')
                    else do {
                      r \<leftarrow> read_file (bd_source_path b);
                      ret (case r of
                             ReadError _ \<Rightarrow> Inl ''interrupted destination could not be read for recovery''
                           | _ \<Rightarrow>
                               (let current = sha256_bytes env (case r of ReadBytes x \<Rightarrow> x | _ \<Rightarrow> [])
                                in if current = bd_applied_hash b then Inr (Some e)
                                   else if current = bd_source_hash b then Inr None
                                   else Inl ''interrupted destination differs from both backup and expected applied hashes; manual recovery is required'')) })))"

section \<open>What the primitives change\<close>

text \<open>A run that changes at most the files of a set, and the journals not at all\<close>

definition touches :: "string set \<Rightarrow> apply_world \<Rightarrow> apply_world \<Rightarrow> bool" where
  "touches X w w' \<longleftrightarrow> (\<forall>q. q \<notin> X \<longrightarrow> aw_files w' q = aw_files w q) \<and> aw_durable w' = aw_durable w \<and> aw_journal w' = aw_journal w"

definition within :: "string set \<Rightarrow> 'a io \<Rightarrow> bool" where
  "within X m \<longleftrightarrow> (\<forall>w. touches X w (snd (run_state m w)))"

lemma touches_refl [simp]: "touches X w w"
  by (simp add: touches_def)

lemma touches_trans: "touches X w w1 \<Longrightarrow> touches X w1 w2 \<Longrightarrow> touches X w w2"
  by (simp add: touches_def)

lemma touches_mono: "touches X w w' \<Longrightarrow> X \<subseteq> Y \<Longrightarrow> touches Y w w'"
  by (auto simp: touches_def)

named_theorems within_intros

lemma within_mono: "within X m \<Longrightarrow> X \<subseteq> Y \<Longrightarrow> within Y m"
  by (auto simp: within_def intro: touches_mono)

lemma within_ret [within_intros]: "within X (ret x)"
  by (simp add: within_def)

lemma within_bind [within_intros]:
  assumes "within X m" "\<And>x. within X (f x)"
  shows "within X (m \<bind> f)"
  unfolding within_def
proof
  fix w
  obtain x w1 where run: "run_state m w = (x, w1)" by fastforce
  have "touches X w w1" using assms(1) run by (auto simp: within_def dest: spec [of _ w])
  moreover have "touches X w1 (snd (run_state (f x) w1))" using assms(2) [of x] by (simp add: within_def)
  ultimately show "touches X w (snd (run_state (m \<bind> f) w))" by (simp add: run touches_trans)
qed

lemma within_peek [within_intros]: "within X (peek f)"
  by (simp add: within_def peek_def)

lemma within_fresh [within_intros]: "within X fresh_id"
  by (simp add: within_def fresh_id_def touches_def)

lemma draw_same [simp]:
  "aw_files (snd (draw w)) = aw_files w" "aw_durable (snd (draw w)) = aw_durable w" "aw_journal (snd (draw w)) = aw_journal w"
  "aw_sequence (snd (draw w)) = aw_sequence w"
  by (simp_all add: draw_def split: answer.split)

lemma draw_halted: "aw_halted w \<Longrightarrow> draw w = (False, w)"
  by (simp add: draw_def)

lemma within_attempt: "(\<And>fs q. q \<notin> X \<Longrightarrow> f fs q = fs q) \<Longrightarrow> within X (attempt f)"
  by (auto simp: within_def attempt_def touches_def case_prod_unfold)

lemma within_read [within_intros]: "within X (read_file p)"
  by (simp add: within_def read_file_def touches_def case_prod_unfold)

lemma within_succeeds [within_intros]: "within X succeeds"
  unfolding succeeds_def by (rule within_attempt) simp

lemma within_write [within_intros]: "p \<in> X \<Longrightarrow> within X (write_all p c)"
  unfolding write_all_def by (rule within_attempt) auto

lemma within_remove [within_intros]: "p \<in> X \<Longrightarrow> within X (remove_file p)"
  unfolding remove_file_def by (rule within_attempt) auto

lemma within_rename [within_intros]: "p \<in> X \<Longrightarrow> q \<in> X \<Longrightarrow> within X (rename_file p q)"
  unfolding rename_file_def by (rule within_attempt) auto

lemma within_create [within_intros]: "p \<in> X \<Longrightarrow> within X (create_new p)"
  unfolding create_new_def by (auto intro!: within_intros within_attempt)

lemma within_exists [within_intros]: "within X (file_exists p)"
  unfolding file_exists_def by (intro within_intros)

lemma within_or_fail [within_intros]: "within X m \<Longrightarrow> within X (or_fail m e)"
  unfolding or_fail_def by (intro within_intros)

lemma within_and_then [within_intros]: "within X m \<Longrightarrow> (\<And>x. within X (f x)) \<Longrightarrow> within X (and_then m f)"
  unfolding and_then_def by (auto intro!: within_intros split: sum.split)

lemma within_if [within_intros]: "within X a \<Longrightarrow> within X b \<Longrightarrow> within X (if c then a else b)"
  by simp

definition temporaries :: "string set" where
  "temporaries = {q. suffix ''.tmp'' q}"

definition backups :: "string set" where
  "backups = {q. suffix ''.backup'' q}"

lemma temporary_name: "temporary_path d u \<in> temporaries"
  by (simp add: temporary_path_def temporaries_def join_path_def suffix_def)

lemma backup_name: "backup_file root i \<in> backups"
  by (auto simp: backup_file_def backups_def join_path_def suffix_def)

lemma within_atomic_write [within_intros]: "insert p temporaries \<subseteq> X \<Longrightarrow> within X (atomic_write p c)"
  unfolding atomic_write_def Let_def
  by (auto intro!: within_intros temporary_name [THEN subsetD [of temporaries, rotated]] split: option.split)

lemma within_write_backup [within_intros]: "temporaries \<union> backups \<subseteq> X \<Longrightarrow> within X (write_backup env root p c ex hh)"
  unfolding write_backup_def Let_def
  by (auto intro!: within_intros backup_name [THEN subsetD [of backups, rotated]])

lemma within_lock [within_intros]: "p \<in> X \<Longrightarrow> within X (acquire_apply_lock_from n ck p owner)"
  by (induction n ck p owner rule: acquire_apply_lock_from.induct) (auto intro!: within_intros)

lemma within_acquire [within_intros]: "p \<in> X \<Longrightarrow> within X (acquire_apply_lock ck p owner)"
  unfolding acquire_apply_lock_def by (rule within_lock)

lemma within_release [within_intros]: "lock_path_of (bd_source_path b) \<in> X \<Longrightarrow> within X (release_owned_apply_lock b owner)"
  unfolding release_owned_apply_lock_def by (auto intro!: within_intros)

lemma within_recover [within_intros]: "within X (recover_resume_state env journal key)"
  unfolding recover_resume_state_def by (auto intro!: within_intros split: option.split)

section \<open>Weakest preconditions\<close>

definition wp :: "'a io \<Rightarrow> ('a \<Rightarrow> apply_world \<Rightarrow> bool) \<Rightarrow> apply_world \<Rightarrow> bool" where
  "wp m Q w = (case run_state m w of (r, w') \<Rightarrow> Q r w')"

text \<open>Worlds that differ at most in the answers still to come\<close>

definition core :: "apply_world \<Rightarrow> apply_world \<Rightarrow> bool" where
  "core w w' \<longleftrightarrow> aw_files w' = aw_files w \<and> aw_durable w' = aw_durable w \<and> aw_journal w' = aw_journal w \<and> aw_sequence w' = aw_sequence w"

lemma wp_run: "run_state m w = (r, w') \<Longrightarrow> wp m Q w = Q r w'"
  by (simp add: wp_def)

lemma wp_simps [simp]:
  "wp (ret x) Q = Q x"
  "wp (m \<bind> f) Q = wp m (\<lambda>x. wp (f x) Q)"
  "wp (peek g) Q = (\<lambda>w. Q (g w) w)"
  by (simp_all add: wp_def peek_def case_prod_unfold fun_eq_iff)

lemma wp_and_then [simp]: "wp (and_then m f) Q = wp m (\<lambda>r. case r of Inl e \<Rightarrow> Q (Inl e) | Inr x \<Rightarrow> wp (f x) Q)"
  by (simp add: and_then_def wp_def case_prod_unfold fun_eq_iff split: sum.split)

lemma wp_or_fail [simp]: "wp (or_fail m e) Q = wp m (\<lambda>ok. Q (if ok then Inr () else Inl e))"
  by (simp add: or_fail_def)

lemma wp_if [simp]: "wp (if c then a else b) Q = (if c then wp a Q else wp b Q)"
  by simp

lemma wp_mono: "wp m Q w \<Longrightarrow> (\<And>r w'. Q r w' \<Longrightarrow> Q' r w') \<Longrightarrow> wp m Q' w"
  by (auto simp: wp_def)

lemma wp_conj: "wp m Q w \<Longrightarrow> wp m Q' w \<Longrightarrow> wp m (\<lambda>r w'. Q r w' \<and> Q' r w') w"
  by (auto simp: wp_def)

lemma wp_within: "within X m \<Longrightarrow> wp m (\<lambda>_. touches X w) w"
  by (auto simp: wp_def within_def split: prod.split dest: spec [of _ w])

lemma core_draw [simp]: "core w (snd (draw w))"
  by (simp add: core_def)

lemma core_refl [simp]: "core w w"
  by (simp add: core_def)

named_theorems wp_intros

lemma wp_attempt [wp_intros]:
  assumes "\<And>w1. core w w1 \<Longrightarrow> Q False w1" "\<And>w1. core w w1 \<Longrightarrow> Q True (w1\<lparr>aw_files := f (aw_files w)\<rparr>)"
  shows "wp (attempt f) Q w"
  using assms by (auto simp: wp_def attempt_def case_prod_unfold core_def)

lemma wp_succeeds [wp_intros]:
  assumes "\<And>ok w1. core w w1 \<Longrightarrow> Q ok w1"
  shows "wp succeeds Q w"
  unfolding succeeds_def by (rule wp_attempt) (use assms in \<open>auto simp: core_def\<close>)

lemma wp_fresh [wp_intros]:
  assumes "\<And>i w1. core w w1 \<Longrightarrow> Q i w1"
  shows "wp fresh_id Q w"
  using assms by (auto simp: wp_def fresh_id_def core_def)

lemma wp_read [wp_intros]:
  assumes "\<And>e w1. core w w1 \<Longrightarrow> Q (ReadError e) w1" "\<And>w1. core w w1 \<Longrightarrow> Q (case aw_files w p of None \<Rightarrow> ReadMissing | Some b \<Rightarrow> ReadBytes b) w1"
  shows "wp (read_file p) Q w"
  using assms by (auto simp: wp_def read_file_def case_prod_unfold)

lemma wp_create [wp_intros]:
  assumes "\<And>w1. core w w1 \<Longrightarrow> Q False w1" "\<And>w1. core w w1 \<Longrightarrow> Q True (w1\<lparr>aw_files := (aw_files w)(p := Some [])\<rparr>)"
  shows "wp (create_new p) Q w"
  using assms unfolding create_new_def by (auto intro!: wp_attempt)

lemma wp_write [wp_intros]:
  assumes "\<And>w1. core w w1 \<Longrightarrow> Q False w1" "\<And>w1. core w w1 \<Longrightarrow> Q True (w1\<lparr>aw_files := (aw_files w)(p := Some c)\<rparr>)"
  shows "wp (write_all p c) Q w"
  using assms unfolding write_all_def by (intro wp_attempt)

lemma wp_remove [wp_intros]:
  assumes "\<And>w1. core w w1 \<Longrightarrow> Q False w1" "\<And>w1. core w w1 \<Longrightarrow> Q True (w1\<lparr>aw_files := (aw_files w)(p := None)\<rparr>)"
  shows "wp (remove_file p) Q w"
  using assms unfolding remove_file_def by (intro wp_attempt)

lemma wp_rename [wp_intros]:
  assumes "\<And>w1. core w w1 \<Longrightarrow> Q False w1"
    "\<And>w1. core w w1 \<Longrightarrow> Q True (w1\<lparr>aw_files := (aw_files w)(q := aw_files w p, p := None)\<rparr>)"
  shows "wp (rename_file p q) Q w"
  using assms unfolding rename_file_def by (intro wp_attempt)

lemma wp_exists [wp_intros]:
  assumes "\<And>w1. core w w1 \<Longrightarrow> Q False w1" "\<And>w1. core w w1 \<Longrightarrow> aw_files w p \<noteq> None \<Longrightarrow> Q True w1"
  shows "wp (file_exists p) Q w"
  unfolding file_exists_def wp_simps by (rule wp_read) (use assms in \<open>auto split: option.split\<close>)

lemma atomic_write_result:
  assumes "p \<notin> temporaries"
  shows "wp (atomic_write p c) (\<lambda>r w'. aw_files w' p = (case r of Inl _ \<Rightarrow> aw_files w p | Inr _ \<Rightarrow> Some c)) w"
proof (cases "parent_path p")
  case None
  then show ?thesis by (simp add: atomic_write_def)
next
  case (Some d)
  have ne: "p \<noteq> temporary_path d u" for u
    using assms temporary_name [of d u] by metis
  show ?thesis
    unfolding atomic_write_def Some option.case wp_and_then wp_or_fail wp_simps Let_def
    by (intro wp_succeeds) (auto simp: ne [symmetric] ne core_def intro!: wp_intros)
qed

lemma checkpoint_result:
  "wp (durable_checkpoint i a key phase b reason)
     (\<lambda>r w'. aw_files w' = aw_files w
        \<and> (case r of
             Inl _ \<Rightarrow> aw_durable w' = aw_durable w \<and> aw_journal w' = aw_journal w \<and> \<not> has_phase (aw_journal w) key phase
           | Inr _ \<Rightarrow>
               if has_phase (aw_journal w) key phase then aw_durable w' = aw_durable w \<and> aw_journal w' = aw_journal w
               else (\<exists>e. je_idempotency_key e = key \<and> je_phase e = phase \<and> je_backup e = b
                       \<and> aw_durable w' = aw_durable w @ [e] \<and> aw_journal w' = aw_journal w @ [e]))) w"
proof -
  have s: "wp (sink_checkpoint e) Q v"
    if "\<And>w1. core v w1 \<Longrightarrow> Q False w1" "\<And>w1. core v w1 \<Longrightarrow> Q True (w1\<lparr>aw_durable := aw_durable v @ [e]\<rparr>)" for e v Q
    using that by (auto simp: wp_def sink_checkpoint_def case_prod_unfold)
  have p: "wp (push_entry e) Q v = Q () (v\<lparr>aw_journal := aw_journal v @ [e], aw_sequence := je_sequence e\<rparr>)" for e v Q
    by (simp add: wp_def push_entry_def)
  show ?thesis
    unfolding durable_checkpoint_def wp_simps wp_if Let_def
    by (auto intro!: s simp: p core_def journal_entry_def)
qed

lemma backup_not_temporary: "q \<in> backups \<Longrightarrow> q \<notin> temporaries"
  by (auto simp: temporaries_def backups_def suffix_def)

lemma write_backup_result:
  "wp (write_backup env root p src ex hh)
     (\<lambda>r w'. touches (temporaries \<union> backups) w w' \<and> (\<forall>q \<in> backups. aw_files w' q = aw_files w q \<or> aw_files w' q = Some src)
        \<and> (\<forall>b. r = Inr b \<longrightarrow> bd_source_path b = p \<and> bd_backup_path b \<in> backups \<and> aw_files w' (bd_backup_path b) = Some src
             \<and> bd_source_hash b = hh \<and> bd_backup_hash b = sha256_bytes env src \<and> bd_source_existed b = ex)) w"
proof -
  have w: "wp (atomic_write q src) (\<lambda>r w'. touches (insert q temporaries) v w' \<and> aw_files w' q = (case r of Inl _ \<Rightarrow> aw_files v q | Inr _ \<Rightarrow> Some src)) v"
    if "q \<in> backups" for q v
    by (intro wp_conj wp_within within_atomic_write atomic_write_result backup_not_temporary that) simp
  define P where "P r w' \<longleftrightarrow> touches (temporaries \<union> backups) w w' \<and> (\<forall>q \<in> backups. aw_files w' q = aw_files w q \<or> aw_files w' q = Some src)
        \<and> (\<forall>b. r = Inr b \<longrightarrow> bd_source_path b = p \<and> bd_backup_path b \<in> backups \<and> aw_files w' (bd_backup_path b) = Some src
             \<and> bd_source_hash b = hh \<and> bd_backup_hash b = sha256_bytes env src \<and> bd_source_existed b = ex)"
    for r :: "string + mcp_backup_descriptor" and w'
  define D where "D i = \<lparr>bd_id = i, bd_runtime = runtime_for_path p, bd_source_path = p, bd_backup_path = backup_file root i,
      bd_source_hash = hh, bd_backup_hash = sha256_bytes env src, bd_applied_hash = [], bd_source_existed = ex\<rparr>" for i
  have k: "wp (atomic_write (backup_file root i) src) (\<lambda>r. case r of Inl e \<Rightarrow> P (Inl e) | Inr _ \<Rightarrow> P (Inr (D i))) v" if v: "core w v" for i v
  proof (rule wp_mono [OF w [OF backup_name]])
    fix r :: "string + unit" and w'
    assume h: "touches (insert (backup_file root i) temporaries) v w'
      \<and> aw_files w' (backup_file root i) = (case r of Inl _ \<Rightarrow> aw_files v (backup_file root i) | Inr _ \<Rightarrow> Some src)"
    then have "touches (temporaries \<union> backups) v w'" using backup_name [of root i] by (auto elim: touches_mono)
    with v have "touches (temporaries \<union> backups) w w'" by (simp add: touches_def core_def)
    moreover have "aw_files w' q = aw_files w q \<or> aw_files w' q = Some src" if "q \<in> backups" for q
      using h v backup_not_temporary [OF that] by (cases "q = backup_file root i") (auto simp: touches_def core_def split: sum.splits)
    ultimately show "(case r of Inl e \<Rightarrow> P (Inl e) | Inr _ \<Rightarrow> P (Inr (D i))) w'"
      using h backup_name [of root i] by (auto simp: P_def D_def split: sum.splits)
  qed
  have e: "P (Inl e) v" if "core w v" for e v using that by (auto simp: P_def core_def touches_def)
  have trans: "core w w2" if "core w w1" "core w1 w2" for w1 w2 using that by (simp add: core_def)
  have "wp (write_backup env root p src ex hh) P w"
    unfolding write_backup_def wp_and_then wp_or_fail wp_simps Let_def D_def [symmetric]
    by (intro wp_succeeds) (auto simp: e intro!: wp_fresh k elim: trans)
  then show ?thesis unfolding P_def .
qed

end
