(* ===== verification/McpApply.thy ===== *)
theory McpApply
  imports McpWorld
begin

text \<open>
  Applying an approved plan to the configuration files of the runtimes, resuming an interrupted run,
  rolling a run back and verifying the outcome (\<open>crates/cocli-server/src/mcp.rs\<close>).
\<close>

text \<open>
  The surroundings of a run: the host as it answers for given files, the clock, the environment
  variables, and what the command line of Codex makes of a staged configuration (nothing when it
  fails or takes too long).
\<close>

record apply_env =
  ae_host :: "files \<Rightarrow> mcp_host"
  ae_env :: mcp_env
  ae_parse :: "string \<Rightarrow> jvalue option"
  ae_pretty :: "jvalue \<Rightarrow> string"
  ae_codex_binary :: "string option"
  ae_workspace :: string
  ae_clock :: clock
  ae_env_var :: "string \<Rightarrow> string option"
  ae_codex :: "string list \<Rightarrow> string option \<Rightarrow> string option option"

section \<open>Secrets\<close>

definition resolve_secret :: "(string \<Rightarrow> string option) \<Rightarrow> mcp_secret_ref \<Rightarrow> string + string" where
  "resolve_secret env_var r =
     (case strip_prefix ''env://'' (sr_reference r) of
        None \<Rightarrow> Inl ''secret reference requires an unavailable secure keychain resolver''
      | Some name \<Rightarrow>
          if name = [] \<or> \<not> list_all (\<lambda>c. byte_in 0x41 0x5A c \<or> byte_in 0x30 0x39 c \<or> c = CHR ''_'') name
          then Inl ''environment secret reference is invalid''
          else case env_var name of
                 None \<Rightarrow> Inl ''environment secret reference is unavailable''
               | Some v \<Rightarrow> Inr (utf8_lossy v))"

fun secrets_reason :: "(string \<Rightarrow> string option) \<Rightarrow> mcp_secret_ref list \<Rightarrow> string" where
  "secrets_reason env_var [] =
     ''secret reference resolved only at execution boundary, but this Runtime adapter has no proven non-persistent injection contract; action is blocked''"
| "secrets_reason env_var (r # rs) =
     (case resolve_secret env_var r of
        Inl reason \<Rightarrow> reason
      | Inr secret \<Rightarrow> if secret = [] then ''secret reference resolved to an empty value; action is blocked'' else secrets_reason env_var rs)"

section \<open>Results\<close>

definition action_result :: "nat \<Rightarrow> mcp_plan_action \<Rightarrow> mcp_apply_action_status \<Rightarrow> string \<Rightarrow> mcp_apply_action_result" where
  "action_result i action status reason =
     \<lparr>ar_action_index = i, ar_runtime = pa_runtime action, ar_server_id = pa_server_id action, ar_status = status, ar_reason = reason,
      ar_backup = None, ar_before_source_hash = None, ar_after_source_hash = None\<rparr>"

definition with_backup :: "mcp_apply_action_result \<Rightarrow> mcp_backup_descriptor option \<Rightarrow> mcp_apply_action_result" where
  "with_backup r b = r\<lparr>ar_backup := b, ar_before_source_hash := map_option bd_source_hash b, ar_after_source_hash := map_option bd_applied_hash b\<rparr>"

definition action_config_path :: "string \<Rightarrow> mcp_plan_action \<Rightarrow> string" where
  "action_config_path workspace action =
     (case Option.bind (find (\<lambda>e. ev_source e = ''config'') (pa_evidence action)) ev_source_path of
        Some p \<Rightarrow> p
      | None \<Rightarrow>
          if pa_runtime action = ''codex'' then join_path (join_path workspace ''.codex'') ''config.toml''
          else if pa_runtime action = ''claude'' then join_path workspace ''.mcp.json''
          else join_path (join_path workspace ''.cursor'') ''mcp.json'')"

definition read_bytes :: "read_answer \<Rightarrow> string" where
  "read_bytes r = (case r of ReadBytes b \<Rightarrow> b | _ \<Rightarrow> [])"

definition is_read_error :: "read_answer \<Rightarrow> bool" where
  "is_read_error r \<longleftrightarrow> (case r of ReadError _ \<Rightarrow> True | _ \<Rightarrow> False)"

section \<open>The JSON adapter\<close>

text \<open>The new content of a configuration, from the checks between its reading and its backup\<close>

definition json_content :: "apply_env \<Rightarrow> mcp_plan_action \<Rightarrow> mcp_effective_server option \<Rightarrow> string \<Rightarrow> string + string" where
  "json_content ae action desired source =
     (let before_hash = sha256_bytes (ae_env ae) source
      in case pa_expected_source_hash action of
           None \<Rightarrow> Inl ''plan has no authoritative source hash; structured write is blocked''
         | Some expected \<Rightarrow>
             if expected \<noteq> before_hash then Inl ''configuration source hash changed after planning; CAS rejected the write''
             else case (if source = [] then Some (VObj []) else ae_parse ae source) of
               None \<Rightarrow> Inl ''configuration contains invalid JSON; no write was attempted''
             | Some root \<Rightarrow>
                 (case edit_config (ae_env ae) action desired root of
                    Inl e \<Rightarrow> Inl e
                  | Inr root' \<Rightarrow>
                      (let content = ae_pretty ae root'
                       in if before_hash = sha256_bytes (ae_env ae) content then Inl ''configuration already matches the requested action''
                          else Inr content)))"

definition backed_up_reason :: string where
  "backed_up_reason = ''source backup and expected applied hash were durably recorded before mutation''"

definition written_reason :: string where
  "written_reason = ''configuration mutation completed with source CAS and atomic replace''"

definition recovery_reason :: string where
  "recovery_reason = ''configuration changed, but the written checkpoint failed; recovery is required''"

text \<open>The end of \<open>mutate_json_config\<close>: the file is replaced, and the whole step from the journalled backup\<close>

definition install_json ::
  "apply_env \<Rightarrow> string \<Rightarrow> nat \<Rightarrow> mcp_plan_action \<Rightarrow> string \<Rightarrow> mcp_backup_descriptor \<Rightarrow> string \<Rightarrow> string \<Rightarrow> (string + (mcp_backup_descriptor \<times> string \<times> string)) io" where
  "install_json ae path i action key b before_hash content =
     and_then (atomic_write path content) (\<lambda>_. do {
       c \<leftarrow> durable_checkpoint i action key PhWritten (Some b) written_reason;
       ret (case c of
              Inl _ \<Rightarrow> Inl recovery_reason
            | Inr _ \<Rightarrow> Inr (b, before_hash, sha256_bytes (ae_env ae) content)) })"

definition replace_json ::
  "apply_env \<Rightarrow> string \<Rightarrow> nat \<Rightarrow> mcp_plan_action \<Rightarrow> string \<Rightarrow> mcp_backup_descriptor \<Rightarrow> string \<Rightarrow> string \<Rightarrow> (string + (mcp_backup_descriptor \<times> string \<times> string)) io" where
  "replace_json ae path i action key b before_hash content =
     and_then (durable_checkpoint i action key PhBackedUp (Some b) backed_up_reason) (\<lambda>_. do {
       r' \<leftarrow> read_file path;
       if is_read_error r' then ret (Inl ''configuration could not be re-read before replace'')
       else if sha256_bytes (ae_env ae) (read_bytes r') \<noteq> before_hash
       then ret (Inl ''configuration changed after backup; CAS rejected atomic replace'')
       else install_json ae path i action key b before_hash content })"

definition prepare_json ::
  "apply_env \<Rightarrow> string \<Rightarrow> string \<Rightarrow> nat \<Rightarrow> mcp_plan_action \<Rightarrow> mcp_effective_server option \<Rightarrow> string \<Rightarrow> string \<Rightarrow> bool
     \<Rightarrow> (string + (mcp_backup_descriptor \<times> string \<times> string)) io" where
  "prepare_json ae path backup_root i action desired key source existed =
     (let before_hash = sha256_bytes (ae_env ae) source
      in case json_content ae action desired source of
           Inl e \<Rightarrow> ret (Inl e)
         | Inr content \<Rightarrow>
             and_then (write_backup (ae_env ae) backup_root path source existed before_hash) (\<lambda>b.
               replace_json ae path i action key (b\<lparr>bd_applied_hash := sha256_bytes (ae_env ae) content\<rparr>) before_hash content))"

definition mutate_json_config ::
  "apply_env \<Rightarrow> string \<Rightarrow> string \<Rightarrow> nat \<Rightarrow> mcp_plan_action \<Rightarrow> mcp_effective_server option \<Rightarrow> string
     \<Rightarrow> (string + (mcp_backup_descriptor \<times> string \<times> string)) io" where
  "mutate_json_config ae path backup_root i action desired key = do {
     r \<leftarrow> read_file path;
     let source = read_bytes r;
     if is_read_error r then ret (Inl ''configuration could not be read'')
     else if max_config_bytes < length source then ret (Inl ''configuration exceeds the safe write limit'')
     else do {
       existed \<leftarrow> (if source \<noteq> [] then ret True else file_exists path);
       prepare_json ae path backup_root i action desired key source existed } }"

definition last_backup :: "mcp_apply_journal_entry list \<Rightarrow> string \<Rightarrow> mcp_backup_descriptor option" where
  "last_backup journal key =
     Option.bind (find (\<lambda>e. je_idempotency_key e = key \<and> je_phase e = PhBackedUp) (rev journal)) je_backup"

section \<open>The Codex adapter\<close>

definition codex_alias :: "apply_env \<Rightarrow> mcp_plan_action \<Rightarrow> mcp_effective_server option \<Rightarrow> string \<Rightarrow> string option" where
  "codex_alias ae action desired source =
     (case desired of
        Some d \<Rightarrow> Some (md_alias (me_desired d))
      | None \<Rightarrow>
          if \<not> utf8_valid source then None
          else map_option sd_alias (find (\<lambda>s.
                 (let fp = endpoint_fingerprint (ae_env ae) (sd_definition s)
                  in fp = pa_server_fingerprint action \<or> ss_endpoint_fingerprint (pa_before action) = Some fp))
               (parse_toml_servers (ae_parse ae) source)))"

definition codex_args :: "mcp_plan_action \<Rightarrow> mcp_effective_server option \<Rightarrow> string \<Rightarrow> string + string list" where
  "codex_args action desired n =
     (if pa_kind action = Remove then Inr [''mcp'', ''remove'', n]
      else case Option.bind desired (\<lambda>d. md_definition (me_desired d)) of
        None \<Rightarrow> Inl ''Codex desired definition is unavailable''
      | Some dfn \<Rightarrow>
          (case cd_endpoint dfn of
             Some e \<Rightarrow> Inr [''mcp'', ''add'', n, ''--url'', e]
           | None \<Rightarrow>
               (case cd_command dfn of
                  Some c \<Rightarrow> Inr ([''mcp'', ''add'', n, ''--'', c] @ cd_args dfn)
                | None \<Rightarrow> Inl ''Codex desired definition has no supported endpoint'')))"

definition native_change_proven :: "apply_env \<Rightarrow> mcp_plan_action_kind \<Rightarrow> string \<Rightarrow> string \<Rightarrow> bool" where
  "native_change_proven ae kind n after \<longleftrightarrow>
     utf8_valid after \<and>
     (if kind = AddConfigure then list_ex (\<lambda>s. sd_alias s = n) (parse_toml_servers (ae_parse ae) after)
      else kind = Remove \<and> list_all (\<lambda>s. sd_alias s \<noteq> n) (parse_toml_servers (ae_parse ae) after))"

definition remove_dir_all :: "string \<Rightarrow> bool io" where
  "remove_dir_all d = attempt (\<lambda>fs p. if path_starts_with p d then None else fs p)"

definition clean_up :: "string option \<Rightarrow> string \<Rightarrow> mcp_apply_action_result \<Rightarrow> mcp_apply_action_result io" where
  "clean_up staging lock r = do {
     _ \<leftarrow> (case staging of None \<Rightarrow> ret True | Some d \<Rightarrow> remove_dir_all d);
     _ \<leftarrow> remove_file lock;
     ret r }"

text \<open>From the run of the command in the staging directory to the installed file\<close>

definition codex_install ::
  "apply_env \<Rightarrow> nat \<Rightarrow> mcp_plan_action \<Rightarrow> string \<Rightarrow> string \<Rightarrow> string \<Rightarrow> string \<Rightarrow> string \<Rightarrow> mcp_backup_descriptor \<Rightarrow> string \<Rightarrow> mcp_apply_action_result io" where
  "codex_install ae i action key n path lock staging b0 source = do {
     let blocked = action_result i action StBlocked;
     r \<leftarrow> read_file (join_path staging ''config.toml'');
     let after = read_bytes r;
     let before_hash = sha256_bytes (ae_env ae) source;
     let after_hash = sha256_bytes (ae_env ae) after;
     if \<not> native_change_proven ae (pa_kind action) n after \<or> toml_contains_secret_material (ae_parse ae) after
        \<or> \<not> toml_changes_only_server source after n
     then clean_up (Some staging) lock (blocked ''Codex native output could not be safely validated; real configuration was not touched'')
     else if before_hash = after_hash
     then clean_up (Some staging) lock (blocked ''Codex native command did not produce a provable source change'')
     else do {
       r' \<leftarrow> read_file path;
       if sha256_bytes (ae_env ae) (read_bytes r') \<noteq> before_hash
       then clean_up (Some staging) lock (blocked ''Codex source changed during native staging; CAS rejected atomic replace'')
       else do {
         let b = b0\<lparr>bd_applied_hash := after_hash\<rparr>;
         c \<leftarrow> durable_checkpoint i action key PhBackedUp (Some b) backed_up_reason;
         case c of
           Inl _ \<Rightarrow> clean_up (Some staging) lock ((blocked ''durable backup checkpoint failed; real configuration was not touched'')\<lparr>ar_backup := Some b\<rparr>)
         | Inr _ \<Rightarrow> do {
             wr \<leftarrow> atomic_write path after;
             case wr of
               Inl reason \<Rightarrow> clean_up (Some staging) lock (blocked reason)
             | Inr _ \<Rightarrow> do {
                 _ \<leftarrow> remove_dir_all staging;
                 c' \<leftarrow> durable_checkpoint i action key PhWritten (Some b) written_reason;
                 case c' of
                   Inl _ \<Rightarrow> clean_up None lock (with_backup (action_result i action StFailed recovery_reason) (Some b))
                 | Inr _ \<Rightarrow> clean_up None lock (with_backup (action_result i action StApplied
                     ''Codex native MCP command completed in staging and was atomically installed under source CAS'') (Some b)) } } } } }"

definition codex_stage ::
  "apply_env \<Rightarrow> nat \<Rightarrow> mcp_plan_action \<Rightarrow> mcp_effective_server option \<Rightarrow> string \<Rightarrow> string \<Rightarrow> string \<Rightarrow> string \<Rightarrow> mcp_backup_descriptor \<Rightarrow> string \<Rightarrow> bool \<Rightarrow> mcp_apply_action_result io" where
  "codex_stage ae i action desired backup_root key path lock b0 source existed = do {
     let blocked = action_result i action StBlocked;
     case codex_alias ae action desired source of
       None \<Rightarrow> clean_up None lock (blocked ''Codex server alias could not be proven from the approved source'')
     | Some n \<Rightarrow>
         if n = [] \<or> \<not> list_all (\<lambda>c. is_ascii_alphanumeric c \<or> c = CHR ''_'' \<or> c = CHR ''-'') n
         then clean_up None lock (blocked ''Codex server alias cannot be isolated safely by the native adapter'')
         else case codex_args action desired n of
           Inl reason \<Rightarrow> clean_up None lock (blocked reason)
         | Inr args \<Rightarrow> do {
             u \<leftarrow> fresh_id;
             let staging = join_path backup_root (''codex-native-stage-'' @ u);
             ok \<leftarrow> succeeds;
             if \<not> ok then clean_up None lock (blocked ''Codex native staging home could not be prepared'')
             else do {
               copied \<leftarrow> (if existed then atomic_write (join_path staging ''config.toml'') source else ret (Inr ()));
               case copied of
                 Inl _ \<Rightarrow> clean_up (Some staging) lock (blocked ''Codex source could not be copied into isolated staging'')
               | Inr _ \<Rightarrow> do {
                   started \<leftarrow> succeeds;
                   staged \<leftarrow> peek (\<lambda>w. aw_files w (join_path staging ''config.toml''));
                   case ae_codex ae args staged of
                     Some after \<Rightarrow>
                       if started then do {
                         _ \<leftarrow> attempt (\<lambda>fs. fs(join_path staging ''config.toml'' := after));
                         codex_install ae i action key n path lock staging b0 source }
                       else clean_up (Some staging) lock (blocked ''Codex native MCP command failed or timed out; real configuration was not touched'')
                   | None \<Rightarrow> clean_up (Some staging) lock (blocked ''Codex native MCP command failed or timed out; real configuration was not touched'') } } } }"

definition apply_codex_native ::
  "apply_env \<Rightarrow> mcp_apply_execution_request \<Rightarrow> nat \<Rightarrow> mcp_plan_action \<Rightarrow> mcp_effective_server option \<Rightarrow> string \<Rightarrow> string \<Rightarrow> mcp_apply_action_result io" where
  "apply_codex_native ae request i action desired backup_root key =
     (let blocked = action_result i action StBlocked;
          path = action_config_path (ae_workspace ae) action
      in if pa_kind action \<noteq> AddConfigure \<and> pa_kind action \<noteq> Remove
         then ret (blocked ''Codex native adapter only enables transactionally bounded add and remove'')
         else if ae_codex_binary ae = None then ret (blocked ''Codex native CLI is unavailable'')
         else if parent_path path = None then ret (blocked ''Codex configuration destination is invalid'')
         else do {
           ok \<leftarrow> succeeds;
           if \<not> ok then ret (blocked ''Codex configuration destination could not be prepared'')
           else do {
             r \<leftarrow> read_file path;
             let source = read_bytes r;
             let before_hash = sha256_bytes (ae_env ae) source;
             if is_read_error r then ret (blocked ''Codex configuration could not be read'')
             else if max_config_bytes < length source \<or> toml_contains_secret_material (ae_parse ae) source
             then ret (blocked ''Codex source is too large or contains inline credential material'')
             else case pa_expected_source_hash action of
               None \<Rightarrow> ret (blocked ''Codex plan has no authoritative source evidence; native apply is blocked'')
             | Some expected \<Rightarrow>
                 if expected \<noteq> before_hash
                 then ret (blocked ''Codex source hash changed after planning; native apply CAS rejected the write'')
                 else do {
                   let lock = with_extension path ''toml.cocli-mcp.lock'';
                   locked \<leftarrow> acquire_apply_lock (ae_clock ae) lock (rq_run_id request);
                   if \<not> locked then ret (blocked ''Codex configuration is locked by another apply operation'')
                   else do {
                     c \<leftarrow> durable_checkpoint i action key PhLocked None ''exclusive destination lock was acquired'';
                     case c of
                       Inl _ \<Rightarrow> clean_up None lock (blocked ''durable lock checkpoint failed; no native command was attempted'')
                     | Inr _ \<Rightarrow> do {
                         existed \<leftarrow> file_exists path;
                         bk \<leftarrow> write_backup (ae_env ae) backup_root path source existed before_hash;
                         case bk of
                           Inl reason \<Rightarrow> clean_up None lock (blocked reason)
                         | Inr b0 \<Rightarrow> codex_stage ae i action desired backup_root key path lock b0 source existed } } } } })"

section \<open>One action\<close>

definition desired_for :: "mcp_plan \<Rightarrow> mcp_plan_action \<Rightarrow> mcp_effective_server option" where
  "desired_for plan action =
     find (\<lambda>s. md_runtime (me_desired s) = pa_runtime action \<and> md_server_id (me_desired s) = pa_server_id action)
       (st_servers (pn_effective_desired_state plan))"

definition apply_json ::
  "apply_env \<Rightarrow> mcp_apply_execution_request \<Rightarrow> nat \<Rightarrow> mcp_plan_action \<Rightarrow> mcp_effective_server option \<Rightarrow> string \<Rightarrow> string \<Rightarrow> mcp_apply_action_result io" where
  "apply_json ae request i action desired backup_root key =
     (let blocked = action_result i action StBlocked;
          path = action_config_path (ae_workspace ae) action
      in if extension path \<noteq> Some ''json'' then ret (blocked ''only isolated JSON Runtime adapters are supported in this phase'')
         else if parent_path path = None then ret (blocked ''configuration path has no parent'')
         else do {
           ok \<leftarrow> succeeds;
           if \<not> ok then ret (blocked ''configuration parent could not be prepared'')
           else do {
             let lock = with_extension path ''json.cocli-mcp.lock'';
             locked \<leftarrow> acquire_apply_lock (ae_clock ae) lock (rq_run_id request);
             if \<not> locked then ret (blocked ''configuration is locked by another apply operation'')
             else do {
               c \<leftarrow> durable_checkpoint i action key PhLocked None ''exclusive destination lock was acquired'';
               case c of
                 Inl _ \<Rightarrow> clean_up None lock (blocked ''durable lock checkpoint failed; no configuration write was attempted'')
               | Inr _ \<Rightarrow> do {
                   outcome \<leftarrow> mutate_json_config ae path backup_root i action desired key;
                   _ \<leftarrow> remove_file lock;
                   case outcome of
                     Inr (b, _, _) \<Rightarrow>
                       ret (with_backup (action_result i action StApplied ''configuration subtree updated atomically; reload is handled separately'') (Some b))
                   | Inl reason \<Rightarrow> do {
                       found \<leftarrow> peek (\<lambda>w. last_backup (aw_journal w) key);
                       ret (with_backup (action_result i action (if contains reason ''recovery is required'' then StFailed else StBlocked) reason) found) } } } } })"

definition apply_action ::
  "apply_env \<Rightarrow> mcp_apply_execution_request \<Rightarrow> nat \<Rightarrow> mcp_plan_action \<Rightarrow> string \<Rightarrow> string \<Rightarrow> mcp_apply_action_result io" where
  "apply_action ae request i action backup_root key =
     (let blocked = action_result i action StBlocked;
          desired = desired_for (rq_plan request) action
      in if pa_blocked action \<or> pa_kind action \<in> {ApprovalRequired, AuthenticationRequired, ManualUnsupported}
         then ret (action_result i action StSkipped ''plan action is manual, blocked, authentication-required, or unsupported'')
         else if HighRisk \<le> pa_risk action \<and> \<not> rq_confirm_high_risk request
         then ret (blocked ''high-risk action requires explicit second confirmation'')
         else if pa_runtime action \<notin> {''codex'', ''cursor'', ''claude''}
         then ret (blocked ''Runtime writer is not supported without a reliable native adapter'')
         else if opt_any (\<lambda>d. md_secret_refs (me_desired d) \<noteq> []) desired
         then ret (blocked (secrets_reason (ae_env_var ae) (md_secret_refs (me_desired (the desired)))))
         else if opt_any (\<lambda>d. md_allow_tools (me_desired d) \<noteq> [] \<or> md_deny_tools (me_desired d) \<noteq> []
                              \<or> md_approval_mode (me_desired d) \<noteq> ManualApproval) desired
         then ret (blocked ''Runtime tool policy writer is unavailable'')
         else if pa_runtime action = ''codex'' then apply_codex_native ae request i action desired backup_root key
         else apply_json ae request i action desired backup_root key)"

section \<open>A run\<close>

definition action_with_chained_source_hash :: "mcp_plan_action \<Rightarrow> string option \<Rightarrow> mcp_plan_action" where
  "action_with_chained_source_hash action current =
     (case current of None \<Rightarrow> action | Some h \<Rightarrow> action\<lparr>pa_expected_source_hash := Some h\<rparr>)"

definition blocked_execution :: "mcp_apply_execution_request \<Rightarrow> string \<Rightarrow> mcp_apply_execution_result" where
  "blocked_execution request reason =
     \<lparr>xr_actions = map (\<lambda>(i, a). action_result i a StBlocked reason) (enumerate 0 (pn_actions (rq_plan request))), xr_reloads = [],
      xr_verification = \<lparr>vr_status = VsBlocked, vr_observation_hash = [], vr_mismatches = [reason], vr_written_config_hashes = [],
        vr_session_effective = SeUnknown\<rparr>,
      xr_journal = rq_resume_journal request\<rparr>"

definition done_status :: "mcp_apply_action_status \<Rightarrow> bool" where
  "done_status st \<longleftrightarrow> st = StApplied \<or> st = StVerified"

definition observed_for :: "mcp_inventory \<Rightarrow> mcp_plan \<Rightarrow> mcp_plan_action \<Rightarrow> observed_mcp_instance option" where
  "observed_for inventory plan action =
     find (\<lambda>o1. oi_runtime o1 = pa_runtime action
              \<and> (oi_server_id o1 = pa_server_id action
                 \<or> opt_any (\<lambda>s. oi_alias o1 = md_alias (me_desired s)) (desired_for plan action))) (mi_observations inventory)"

definition verify_mismatch :: "mcp_inventory \<Rightarrow> mcp_plan \<Rightarrow> mcp_plan_action \<Rightarrow> string option" where
  "verify_mismatch inventory plan action =
     (let label = pa_runtime action @ ''/'' @ pa_server_id action;
          observation = observed_for inventory plan action
      in if pa_kind action = Remove then
           (if opt_any oi_configured observation then Some (label @ '' remains configured'') else None)
         else
           (let expected = map_option (\<lambda>s. md_desired_enabled (me_desired s)) (desired_for plan action)
            in if (case observation of
                     None \<Rightarrow> True
                   | Some o1 \<Rightarrow> \<not> oi_configured o1 \<or> opt_any (\<lambda>e. oi_enabled o1 \<noteq> Some e) expected)
               then Some (label @ '' does not match desired configuration'') else None))"

definition verify_plan :: "mcp_env \<Rightarrow> mcp_plan \<Rightarrow> mcp_apply_action_result list \<Rightarrow> mcp_inventory \<Rightarrow> mcp_verification_result" where
  "verify_plan env plan results inventory =
     (let not_applied = map (\<lambda>r. ar_runtime r @ ''/'' @ ar_server_id r @ '' was not applied: '' @ ar_reason r)
            (filter (\<lambda>r. ar_status r \<in> {StSkipped, StBlocked, StFailed}) results);
          wrong = List.map_filter (\<lambda>r. verify_mismatch inventory plan (pn_actions plan ! ar_action_index r)) (filter (\<lambda>r. done_status (ar_status r)) results);
          mismatches = not_applied @ wrong;
          applied = list_ex (\<lambda>r. done_status (ar_status r)) results
      in \<lparr>vr_status =
            (if list_ex (\<lambda>r. ar_status r = StFailed) results then VsFailed
             else if \<not> applied \<and> mismatches \<noteq> [] then VsBlocked
             else if mismatches = [] then VsMatched else VsMismatched),
          vr_observation_hash = hash_mcp_observation env inventory, vr_mismatches = mismatches,
          vr_written_config_hashes = foldl (\<lambda>m p. bt_insert (fst p) (snd p) m) []
            (List.map_filter (\<lambda>r. map_option (\<lambda>h. (ar_runtime r @ ''/'' @ ar_server_id r, h)) (ar_after_source_hash r)) results),
          vr_session_effective = (if applied then SeNewSessionRequired else SeUnknown)\<rparr>)"

text \<open>What the loop carries: the hashes of the files written so far and the results\<close>

record loop_state =
  ls_source_hashes :: "(string \<times> string) list"
  ls_results :: "mcp_apply_action_result list"
  ls_execution :: "mcp_plan_action list"

definition resumed_result :: "nat \<Rightarrow> mcp_plan_action \<Rightarrow> string \<Rightarrow> mcp_apply_execution_request \<Rightarrow> mcp_apply_journal_entry \<Rightarrow> (mcp_apply_action_result + mcp_apply_action_result) io" where
  "resumed_result i action key request e = do {
     _ \<leftarrow> (case je_backup e of None \<Rightarrow> ret () | Some b \<Rightarrow> release_owned_apply_lock b (rq_run_id request));
     c \<leftarrow> (if je_phase e = PhBackedUp
          then durable_checkpoint i action key PhWritten (je_backup e) ''source hash proves the staged mutation completed before interruption''
          else ret (Inr ()));
     ret (case c of
            Inl _ \<Rightarrow> Inl (with_backup (action_result i action StFailed ''applied source was recovered, but the written checkpoint still failed'') (je_backup e))
          | Inr _ \<Rightarrow> Inr (with_backup (action_result i action StApplied ''durable journal proves write completed; non-idempotent mutation was not repeated'') (je_backup e))) }"

definition finish_action :: "string \<Rightarrow> nat \<Rightarrow> mcp_plan_action \<Rightarrow> string \<Rightarrow> loop_state \<Rightarrow> mcp_apply_action_result \<Rightarrow> loop_state io" where
  "finish_action path i action key ls result =
     (if ar_status result = StApplied then
        ret (ls\<lparr>ls_source_hashes := (case ar_after_source_hash result of None \<Rightarrow> ls_source_hashes ls | Some h \<Rightarrow> (path, h) # ls_source_hashes ls),
                ls_results := ls_results ls @ [result]\<rparr>)
      else do {
        _ \<leftarrow> (if ar_status result = StFailed \<or> ar_status result = StBlocked
             then durable_checkpoint i action key PhFailed (ar_backup result) (ar_reason result) else ret (Inr ()));
        ret (ls\<lparr>ls_results := ls_results ls @ [result]\<rparr>) })"

text \<open>The idempotency key under which an action is journalled\<close>

definition run_key :: "apply_env \<Rightarrow> mcp_plan \<Rightarrow> mcp_preflight_report \<Rightarrow> nat \<Rightarrow> string" where
  "run_key ae plan report i =
     (case find (\<lambda>p. pf_action_index p = i) (pr_actions report) of
        None \<Rightarrow> sha256_bytes (ae_env ae) (pn_plan_hash plan @ '':'' @ digits i)
      | Some p \<Rightarrow> pf_idempotency_key p)"

definition run_action ::
  "apply_env \<Rightarrow> mcp_apply_execution_request \<Rightarrow> mcp_preflight_report \<Rightarrow> bool \<Rightarrow> string \<Rightarrow> loop_state \<Rightarrow> nat \<times> mcp_plan_action \<Rightarrow> loop_state io" where
  "run_action ae request report drift backup_root ls0 entry =
     (case entry of (i, planned) \<Rightarrow>
       (let path = action_config_path (ae_workspace ae) planned;
            action = action_with_chained_source_hash planned (map_of (ls_source_hashes ls0) path);
            ls = ls0\<lparr>ls_execution := ls_execution ls0 @ [action]\<rparr>;
            pre = find (\<lambda>p. pf_action_index p = i) (pr_actions report);
            key = run_key ae (rq_plan request) report i
        in do {
          c \<leftarrow> durable_checkpoint i action key PhPreflight None ''adapter capability and approved hashes were revalidated'';
          case c of
            Inl _ \<Rightarrow> ret (ls\<lparr>ls_results := ls_results ls @ [action_result i action StBlocked ''durable preflight checkpoint failed; no mutation was attempted'']\<rparr>)
          | Inr _ \<Rightarrow> do {
              state \<leftarrow> recover_resume_state (ae_env ae) (rq_resume_journal request) key;
              case state of
                Inr (Some e) \<Rightarrow> do {
                  rr \<leftarrow> resumed_result i action key request e;
                  case rr of
                    Inl failed \<Rightarrow> ret (ls\<lparr>ls_results := ls_results ls @ [failed]\<rparr>)
                  | Inr result \<Rightarrow> finish_action path i action key ls result }
              | Inl reason \<Rightarrow> finish_action path i action key ls (action_result i action StBlocked reason)
              | Inr None \<Rightarrow>
                  if drift then
                    finish_action path i action key ls (action_result i action StBlocked
                      ''observation drift blocks actions not proven written by the durable journal'')
                  else if (case pre of None \<Rightarrow> False | Some p \<Rightarrow> \<not> pf_executable p) then
                    finish_action path i action key ls (action_result i action StBlocked
                      (case pre of None \<Rightarrow> ''adapter preflight did not authorize execution'' | Some p \<Rightarrow> pf_reason p))
                  else do {
                    result \<leftarrow> apply_action ae request i action backup_root key;
                    finish_action path i action key ls result } } }))"

fun run_actions ::
  "apply_env \<Rightarrow> mcp_apply_execution_request \<Rightarrow> mcp_preflight_report \<Rightarrow> bool \<Rightarrow> string \<Rightarrow> loop_state \<Rightarrow> (nat \<times> mcp_plan_action) list \<Rightarrow> loop_state io" where
  "run_actions ae request report drift backup_root ls [] = ret ls"
| "run_actions ae request report drift backup_root ls (x # xs) = do {
     ls' \<leftarrow> run_action ae request report drift backup_root ls x;
     run_actions ae request report drift backup_root ls' xs }"

text \<open>The later checkpoints of the actions that were applied\<close>

fun mark_results ::
  "mcp_preflight_report \<Rightarrow> mcp_apply_journal_phase \<Rightarrow> string \<Rightarrow> mcp_plan_action list \<Rightarrow> mcp_apply_action_result list \<Rightarrow> unit io" where
  "mark_results report phase reason execution [] = ret ()"
| "mark_results report phase reason execution (r # rs) = do {
     _ \<leftarrow> (if ar_status r = StApplied
          then durable_checkpoint (ar_action_index r) (execution ! ar_action_index r) (pf_idempotency_key (pr_actions report ! ar_action_index r))
                 phase (ar_backup r) reason
          else ret (Inr ()));
     mark_results report phase reason execution rs }"

definition recovering :: "mcp_apply_execution_request \<Rightarrow> bool" where
  "recovering request \<longleftrightarrow> (\<exists>e \<in> set (rq_resume_journal request). je_phase e = PhBackedUp \<or> written_phase (je_phase e))"

definition max_sequence :: "mcp_apply_journal_entry list \<Rightarrow> nat" where
  "max_sequence journal = foldl max 0 (map je_sequence journal)"

definition reload_results :: "mcp_apply_action_result list \<Rightarrow> mcp_reload_result list" where
  "reload_results results =
     map (\<lambda>r. \<lparr>rr_runtime = r, rr_status = RlDeferred,
               rr_reason = ''configuration is visible to new Runtime sessions; active sessions were not restarted''\<rparr>)
       (sort (remdups (map ar_runtime (filter (\<lambda>r. ar_status r = StApplied) results))))"

definition backup_root_of :: "apply_env \<Rightarrow> mcp_apply_execution_request \<Rightarrow> string" where
  "backup_root_of ae request =
     join_path (join_path (case parent_path (ae_workspace ae) of None \<Rightarrow> ae_workspace ae | Some p \<Rightarrow> p) ''mcp-backups'') (rq_run_id request)"

definition load_journal :: "mcp_apply_journal_entry list \<Rightarrow> unit io" where
  "load_journal journal = State (\<lambda>w. ((), w\<lparr>aw_journal := journal, aw_sequence := max_sequence journal\<rparr>))"

definition host_now :: "apply_env \<Rightarrow> mcp_host io" where
  "host_now ae = peek (\<lambda>w. ae_host ae (aw_files w))"

definition execute_plan :: "apply_env \<Rightarrow> mcp_apply_execution_request \<Rightarrow> mcp_preflight_report \<Rightarrow> bool \<Rightarrow> string \<Rightarrow> mcp_apply_execution_result io" where
  "execute_plan ae request report drift now = do {
     _ \<leftarrow> load_journal (rq_resume_journal request);
     ls \<leftarrow> run_actions ae request report drift (backup_root_of ae request) \<lparr>ls_source_hashes = [], ls_results = [], ls_execution = []\<rparr>
            (enumerate 0 (pn_actions (rq_plan request)));
     _ \<leftarrow> mark_results report PhReloadPending ''active sessions were not restarted; new session activation is required'' (ls_execution ls) (ls_results ls);
     h \<leftarrow> host_now ae;
     let verification = verify_plan (ae_env ae) (rq_plan request) (ls_results ls) (inspect h now);
     _ \<leftarrow> (if vr_status verification = VsMatched
          then mark_results report PhVerified ''fresh inventory and structured readback match desired configuration'' (ls_execution ls) (ls_results ls)
          else ret ());
     journal \<leftarrow> peek aw_journal;
     ret \<lparr>xr_actions = (if vr_status verification = VsMatched
                        then map (\<lambda>r. if ar_status r = StApplied then r\<lparr>ar_status := StVerified\<rparr> else r) (ls_results ls) else ls_results ls),
          xr_reloads = reload_results (ls_results ls), xr_verification = verification, xr_journal = journal\<rparr> }"

definition apply_plan :: "apply_env \<Rightarrow> mcp_apply_execution_request \<Rightarrow> string \<Rightarrow> mcp_apply_execution_result io" where
  "apply_plan ae request now = do {
     h \<leftarrow> host_now ae;
     let drift = (hash_mcp_observation (ae_env ae) (inspect h now) \<noteq> pn_observation_hash (rq_plan request));
     let report = preflight h now (rq_plan request);
     if cs_hash (capabilities h now) \<noteq> rq_capability_hash request \<or> pn_capability_hash (rq_plan request) \<noteq> rq_capability_hash request
     then ret (blocked_execution request ''adapter capability or binary version changed after plan approval'')
     else if drift \<and> \<not> recovering request
     then ret (blocked_execution request ''observation changed before the configuration lock was acquired'')
     else if list_ex (\<lambda>reason. reason \<noteq> ''observation_drift'' \<or> \<not> recovering request) (pr_stale_reasons report)
     then ret (blocked_execution request ''adapter preflight detected stale plan inputs'')
     else execute_plan ae request report drift now }"

section \<open>Rollback\<close>

definition restore_source :: "mcp_env \<Rightarrow> mcp_backup_descriptor \<Rightarrow> string \<Rightarrow> string \<Rightarrow> (mcp_apply_action_status \<times> string) io" where
  "restore_source env b bytes lock = do {
     r' \<leftarrow> read_file (bd_source_path b);
     let current = sha256_bytes env (read_bytes r');
     if is_read_error r' then do { _ \<leftarrow> remove_file lock; ret (StBlocked, ''configuration could not be read before rollback'') }
     else if current = bd_source_hash b then do { _ \<leftarrow> remove_file lock; ret (StRolledBack, ''backup was already restored'') }
     else if current \<noteq> bd_applied_hash b
     then do { _ \<leftarrow> remove_file lock; ret (StBlocked, ''configuration changed after apply; rollback CAS rejected restore'') }
     else do {
       restored \<leftarrow> (if bd_source_existed b then atomic_write (bd_source_path b) bytes
                   else or_fail (remove_file (bd_source_path b)) ''rollback remove failed: other error'');
       _ \<leftarrow> remove_file lock;
       ret (case restored of Inr _ \<Rightarrow> (StRolledBack, ''backup restored atomically'') | Inl reason \<Rightarrow> (StFailed, reason)) } }"

definition rollback_backup :: "mcp_env \<Rightarrow> clock \<Rightarrow> mcp_backup_descriptor \<Rightarrow> (mcp_apply_action_status \<times> string) io" where
  "rollback_backup env ck b = do {
     r \<leftarrow> read_file (bd_backup_path b);
     case r of
       ReadBytes bytes \<Rightarrow>
         if sha256_bytes env bytes \<noteq> bd_backup_hash b then ret (StBlocked, ''backup checksum mismatch'')
         else do {
           let lock = lock_path_of (bd_source_path b);
           locked \<leftarrow> acquire_apply_lock ck lock (''rollback:'' @ bd_id b);
           if \<not> locked then ret (StBlocked, ''configuration is locked by another apply or rollback operation'')
           else restore_source env b bytes lock }
     | _ \<Rightarrow> ret (StBlocked, ''backup is unavailable'') }"

fun rollback_backups :: "mcp_env \<Rightarrow> clock \<Rightarrow> nat \<Rightarrow> mcp_backup_descriptor list \<Rightarrow> mcp_apply_action_result list io" where
  "rollback_backups env ck i [] = ret []"
| "rollback_backups env ck i (b # bs) = do {
     st \<leftarrow> rollback_backup env ck b;
     rest \<leftarrow> rollback_backups env ck (i + 1) bs;
     ret (\<lparr>ar_action_index = i, ar_runtime = bd_runtime b, ar_server_id = [], ar_status = fst st, ar_reason = snd st,
           ar_backup = Some b, ar_before_source_hash = None, ar_after_source_hash = None\<rparr> # rest) }"

definition rollback :: "apply_env \<Rightarrow> mcp_backup_descriptor list \<Rightarrow> string \<Rightarrow> (mcp_apply_action_result list \<times> mcp_verification_result) io" where
  "rollback ae bs now = do {
     actions \<leftarrow> rollback_backups (ae_env ae) (ae_clock ae) 0 bs;
     h \<leftarrow> host_now ae;
     let failed = list_ex (\<lambda>a. ar_status a \<noteq> StRolledBack) actions;
     ret (actions, \<lparr>vr_status = (if failed then VsFailed else VsMatched), vr_observation_hash = hash_mcp_observation (ae_env ae) (inspect h now),
                    vr_mismatches = (if failed then [''one or more backups could not be restored''] else []), vr_written_config_hashes = [],
                    vr_session_effective = SeUnknown\<rparr>) }"

section \<open>Exactly one application\<close>

lemma rsplit_once_char_Some: "rsplit_once_char c s = Some (a, b) \<Longrightarrow> s = a @ c # b"
proof -
  assume h: "rsplit_once_char c s = Some (a, b)"
  then have c: "c \<in> set (rev s)" by (auto simp: rsplit_once_char_def split: if_splits)
  then have "rev s = takeWhile (\<lambda>x. x \<noteq> c) (rev s) @ c # drop 1 (dropWhile (\<lambda>x. x \<noteq> c) (rev s))"
    by (metis (mono_tags, lifting) One_nat_def drop0 drop_Suc dropWhile_eq_Nil_conv hd_dropWhile list.collapse takeWhile_dropWhile_id)
  then have "s = rev (takeWhile (\<lambda>x. x \<noteq> c) (rev s) @ c # drop 1 (dropWhile (\<lambda>x. x \<noteq> c) (rev s)))" by (metis rev_rev_ident)
  with h show ?thesis by (auto simp: rsplit_once_char_def split: if_splits)
qed

lemma file_name_suffix: "suffix (file_name p) p"
  by (auto simp: file_name_def suffix_def dest: rsplit_once_char_Some split: option.split)

lemma extension_suffix: "extension p = Some ext \<Longrightarrow> suffix (CHR ''.'' # ext) p"
proof -
  assume "extension p = Some ext"
  then obtain stem where "rsplit_once_char CHR ''.'' (file_name p) = Some (stem, ext)"
    by (auto simp: extension_def file_stem_ext_def split: if_splits option.splits)
  then have "suffix (CHR ''.'' # ext) (file_name p)" by (auto simp: suffix_def dest: rsplit_once_char_Some)
  then show ?thesis using file_name_suffix by (rule suffix_order.trans)
qed

lemma with_extension_suffix: "suffix ext (with_extension p ext)"
  by (auto simp: with_extension_def Let_def suffix_def)

lemma json_path_distinct:
  assumes "extension p = Some ''json''"
  shows "p \<notin> temporaries" "p \<notin> backups" "with_extension p ''json.cocli-mcp.lock'' \<noteq> p" "with_extension p ''json.cocli-mcp.lock'' \<notin> backups"
  using extension_suffix [OF assms] with_extension_suffix [of "''json.cocli-mcp.lock''" p]
  by (auto simp: temporaries_def backups_def suffix_def)

text \<open>
  One action on one JSON configuration. A descriptor tells how to restore what was there, and which
  content the action puts in its place.
\<close>

record json_case =
  jc_ae :: apply_env
  jc_action :: mcp_plan_action
  jc_desired :: "mcp_effective_server option"
  jc_path :: string
  jc_old :: "string option"
  jc_key :: string

definition old_bytes :: "json_case \<Rightarrow> string" where
  "old_bytes j = (case jc_old j of None \<Rightarrow> [] | Some b \<Rightarrow> b)"

definition new_content :: "json_case \<Rightarrow> string \<Rightarrow> bool" where
  "new_content j c \<longleftrightarrow> json_content (jc_ae j) (jc_action j) (jc_desired j) (old_bytes j) = Inr c"

definition describes :: "json_case \<Rightarrow> files \<Rightarrow> mcp_backup_descriptor \<Rightarrow> bool" where
  "describes j fs b \<longleftrightarrow> bd_source_path b = jc_path j \<and> bd_source_hash b = sha256_bytes (ae_env (jc_ae j)) (old_bytes j)
     \<and> bd_backup_hash b = sha256_bytes (ae_env (jc_ae j)) (old_bytes j)
     \<and> (\<exists>c. new_content j c \<and> bd_applied_hash b = sha256_bytes (ae_env (jc_ae j)) c)
     \<and> (bd_source_existed b = (jc_old j \<noteq> None) \<or> jc_old j = Some [])
     \<and> bd_backup_path b \<in> backups \<and> fs (bd_backup_path b) = Some (old_bytes j)"

definition mutating :: "mcp_apply_journal_phase \<Rightarrow> bool" where
  "mutating ph \<longleftrightarrow> ph = PhBackedUp \<or> written_phase ph"

definition committed :: "json_case \<Rightarrow> apply_world \<Rightarrow> bool" where
  "committed j w \<longleftrightarrow> (\<exists>c. new_content j c \<and> aw_files w (jc_path j) = Some c) \<and> has_phase (aw_durable w) (jc_key j) PhBackedUp"

definition untouched :: "json_case \<Rightarrow> apply_world \<Rightarrow> bool" where
  "untouched j w \<longleftrightarrow> aw_files w (jc_path j) = jc_old j
     \<and> (\<forall>e \<in> set (aw_durable w). je_idempotency_key e = jc_key j \<longrightarrow> \<not> written_phase (je_phase e))"

definition journalled :: "json_case \<Rightarrow> apply_world \<Rightarrow> bool" where
  "journalled j w \<longleftrightarrow> (\<forall>e \<in> set (aw_durable w). je_idempotency_key e = jc_key j \<longrightarrow> mutating (je_phase e) \<longrightarrow>
     (\<exists>b. je_backup e = Some b \<and> describes j (aw_files w) b))"

definition once_inv :: "json_case \<Rightarrow> apply_world \<Rightarrow> bool" where
  "once_inv j w \<longleftrightarrow> aw_journal w = aw_durable w \<and> journalled j w \<and> (committed j w \<or> untouched j w)"

lemma describes_backups:
  "describes j fs b \<Longrightarrow> (\<And>q. q \<in> backups \<Longrightarrow> fs' q = fs q \<or> fs' q = Some (old_bytes j)) \<Longrightarrow> describes j fs' b"
  unfolding describes_def by metis

lemma same_state:
  assumes "aw_files w' (jc_path j) = aw_files w (jc_path j)" "aw_durable w' = aw_durable w" "aw_journal w' = aw_journal w"
    and "\<And>q. q \<in> backups \<Longrightarrow> aw_files w' q = aw_files w q \<or> aw_files w' q = Some (old_bytes j)"
  shows "once_inv j w \<Longrightarrow> once_inv j w'" "untouched j w' = untouched j w" "committed j w' = committed j w"
proof -
  show u: "untouched j w' = untouched j w" and c: "committed j w' = committed j w"
    using assms(1,2) by (simp_all add: untouched_def committed_def)
  have "describes j (aw_files w') b" if "describes j (aw_files w) b" for b
    using that by (rule describes_backups) (rule assms(4))
  then have "journalled j w'" if "journalled j w"
    using that unfolding journalled_def assms(2) by blast
  then show "once_inv j w'" if "once_inv j w" using that u c assms(2,3) by (simp add: once_inv_def)
qed

lemma once_inv_touches:
  assumes "touches X w w'" "jc_path j \<notin> X" "X \<inter> backups = {}"
  shows "once_inv j w \<Longrightarrow> once_inv j w'" "untouched j w' = untouched j w" "committed j w' = committed j w"
  using same_state [of w' j w] assms by (auto simp: touches_def)

lemma once_inv_core:
  assumes "core w w'"
  shows "once_inv j w \<Longrightarrow> once_inv j w'" "untouched j w' = untouched j w" "committed j w' = committed j w"
  using same_state [of w' j w] assms by (auto simp: core_def)

text \<open>A new entry of the journal\<close>

lemma once_inv_entry:
  assumes inv: "once_inv j w" and key: "je_idempotency_key e = jc_key j"
    and new: "aw_files w' = aw_files w" "aw_durable w' = aw_durable w @ [e]" "aw_journal w' = aw_journal w @ [e]"
    and ok: "mutating (je_phase e) \<Longrightarrow> \<exists>b. je_backup e = Some b \<and> describes j (aw_files w) b"
    and wr: "written_phase (je_phase e) \<Longrightarrow> committed j w"
  shows "once_inv j w'"
proof -
  have "journalled j w'" using inv ok new(1,2) by (auto simp: once_inv_def journalled_def)
  moreover have "committed j w'" if "committed j w" using that new(1,2) by (auto simp: committed_def has_phase_def)
  moreover have "untouched j w'" if "untouched j w" "\<not> committed j w" using that new(1,2) wr by (auto simp: untouched_def)
  ultimately show ?thesis using inv new(2,3) by (auto simp: once_inv_def)
qed

lemma once_inv_checkpoint:
  assumes inv: "once_inv j w"
    and ok: "mutating phase \<Longrightarrow> \<exists>d. b = Some d \<and> describes j (aw_files w) d" and wr: "written_phase phase \<Longrightarrow> committed j w"
  shows "wp (durable_checkpoint i a (jc_key j) phase b reason)
     (\<lambda>r w'. once_inv j w' \<and> aw_files w' = aw_files w \<and> (\<forall>u. r = Inr u \<longrightarrow> has_phase (aw_durable w') (jc_key j) phase)
        \<and> set (aw_durable w) \<subseteq> set (aw_durable w') \<and> (\<not> written_phase phase \<longrightarrow> untouched j w \<longrightarrow> untouched j w')
        \<and> (\<not> mutating phase \<longrightarrow> filter (\<lambda>e. mutating (je_phase e)) (aw_durable w') = filter (\<lambda>e. mutating (je_phase e)) (aw_durable w))) w"
proof (rule wp_mono [OF checkpoint_result], elim conjE)
  fix r and w' :: apply_world
  assume f: "aw_files w' = aw_files w" and r: "case r of
             Inl _ \<Rightarrow> aw_durable w' = aw_durable w \<and> aw_journal w' = aw_journal w \<and> \<not> has_phase (aw_journal w) (jc_key j) phase
           | Inr _ \<Rightarrow>
               if has_phase (aw_journal w) (jc_key j) phase then aw_durable w' = aw_durable w \<and> aw_journal w' = aw_journal w
               else (\<exists>e. je_idempotency_key e = jc_key j \<and> je_phase e = phase \<and> je_backup e = b
                       \<and> aw_durable w' = aw_durable w @ [e] \<and> aw_journal w' = aw_journal w @ [e])"
  have jd: "aw_journal w = aw_durable w" using inv by (simp add: once_inv_def)
  consider (same) "aw_durable w' = aw_durable w" "aw_journal w' = aw_journal w" "\<And>u. r = Inr u \<Longrightarrow> has_phase (aw_durable w) (jc_key j) phase"
    | (new) e where "je_idempotency_key e = jc_key j" "je_phase e = phase" "je_backup e = b" "aw_durable w' = aw_durable w @ [e]" "aw_journal w' = aw_journal w @ [e]"
    using r jd by (auto split: sum.splits if_splits)
  then show "once_inv j w' \<and> aw_files w' = aw_files w \<and> (\<forall>u. r = Inr u \<longrightarrow> has_phase (aw_durable w') (jc_key j) phase)
      \<and> set (aw_durable w) \<subseteq> set (aw_durable w') \<and> (\<not> written_phase phase \<longrightarrow> untouched j w \<longrightarrow> untouched j w')
      \<and> (\<not> mutating phase \<longrightarrow> filter (\<lambda>e. mutating (je_phase e)) (aw_durable w') = filter (\<lambda>e. mutating (je_phase e)) (aw_durable w))"
  proof cases
    case same
    then show ?thesis using inv f same_state [of w' j w] by simp
  next
    case new
    have "once_inv j w'" by (rule once_inv_entry [OF inv new(1) f new(4,5)]) (use ok wr new(2,3) in auto)
    then show ?thesis using f new by (auto simp: has_phase_def untouched_def)
  qed
qed

lemma new_content_changes: "new_content j c \<Longrightarrow> sha256_bytes (ae_env (jc_ae j)) c \<noteq> sha256_bytes (ae_env (jc_ae j)) (old_bytes j)"
  by (auto simp: new_content_def json_content_def Let_def split: option.splits if_splits sum.splits)

lemma not_both: "untouched j w \<Longrightarrow> \<not> committed j w"
  by (auto simp: untouched_def committed_def old_bytes_def dest: new_content_changes)

text \<open>The replacement of the file, once the backup is journalled\<close>

lemma once_inv_write:
  assumes inv: "once_inv j w" and u: "untouched j w" and b: "has_phase (aw_durable w) (jc_key j) PhBackedUp" and c: "new_content j c"
    and p: "extension (jc_path j) = Some ''json''"
  shows "wp (atomic_write (jc_path j) c) (\<lambda>r w'. once_inv j w' \<and> (\<forall>x. r = Inr x \<longrightarrow> committed j w') \<and> (\<forall>q \<in> backups. aw_files w' q = aw_files w q)) w"
proof (rule wp_mono [OF wp_conj [OF wp_within [OF within_atomic_write [OF order_refl]] atomic_write_result [OF json_path_distinct(1) [OF p]]]], elim conjE)
  fix r :: "string + unit" and w'
  assume t: "touches (insert (jc_path j) temporaries) w w'" and f: "aw_files w' (jc_path j) = (case r of Inl _ \<Rightarrow> aw_files w (jc_path j) | Inr _ \<Rightarrow> Some c)"
  have bk: "aw_files w' q = aw_files w q" if "q \<in> backups" for q
  proof -
    have "q \<noteq> jc_path j" using that json_path_distinct(2) [OF p] by metis
    with t backup_not_temporary [OF that] show ?thesis by (simp add: touches_def)
  qed
  have jd: "aw_durable w' = aw_durable w" "aw_journal w' = aw_journal w" using t by (simp_all add: touches_def)
  show "once_inv j w' \<and> (\<forall>x. r = Inr x \<longrightarrow> committed j w') \<and> (\<forall>q \<in> backups. aw_files w' q = aw_files w q)"
  proof (cases r)
    case (Inl e)
    then show ?thesis using same_state(1) [of w' j w] f jd bk inv by simp
  next
    case (Inr x)
    have "committed j w'" using f c b jd Inr by (auto simp: committed_def)
    moreover have "describes j (aw_files w') b" if "describes j (aw_files w) b" for b
      using that by (rule describes_backups) (simp add: bk)
    then have "journalled j w'"
      using inv unfolding once_inv_def journalled_def jd(1) by blast
    ultimately show ?thesis using inv jd bk by (simp add: once_inv_def)
  qed
qed

lemma wp_case_sum: "(\<And>e. x = Inl e \<Longrightarrow> wp (f e) Q w) \<Longrightarrow> (\<And>y. x = Inr y \<Longrightarrow> wp (g y) Q w) \<Longrightarrow> wp (case x of Inl e \<Rightarrow> f e | Inr y \<Rightarrow> g y) Q w"
  by (cases x) auto

lemma json_content_new:
  "json_content (jc_ae j) (jc_action j) (jc_desired j) (old_bytes j) = Inr c \<Longrightarrow> new_content j c"
  by (simp add: new_content_def)

text \<open>From the journalled backup to the written file\<close>

lemma install_once:
  assumes inv: "once_inv j w" and u: "untouched j w" and b: "has_phase (aw_durable w) (jc_key j) PhBackedUp" "describes j (aw_files w) b"
    and c: "new_content j c" and p: "extension (jc_path j) = Some ''json''"
  shows "wp (install_json (jc_ae j) (jc_path j) i a (jc_key j) b hh c) (\<lambda>_. once_inv j) w"
  unfolding install_json_def wp_and_then wp_simps
proof (rule wp_mono [OF once_inv_write [OF inv u b(1) c p]], elim conjE)
  fix r :: "string + unit" and w'
  assume h: "once_inv j w'" "\<forall>x. r = Inr x \<longrightarrow> committed j w'" "\<forall>q\<in>backups. aw_files w' q = aw_files w q"
  have "describes j (aw_files w') b" using b(2) by (rule describes_backups) (use h(3) in auto)
  then have "wp (durable_checkpoint i a (jc_key j) PhWritten (Some b) written_reason) (\<lambda>_. once_inv j) w'" if "committed j w'"
    by (intro wp_mono [OF once_inv_checkpoint [OF h(1)]]) (use that in auto)
  with h show "(case r of Inl e \<Rightarrow> once_inv j | Inr x \<Rightarrow> wp (durable_checkpoint i a (jc_key j) PhWritten (Some b) written_reason) (\<lambda>x. once_inv j)) w'"
    by (cases r) auto
qed

lemma replace_once:
  assumes inv: "once_inv j w" and u: "untouched j w" and b: "describes j (aw_files w) b" and c: "new_content j c"
    and p: "extension (jc_path j) = Some ''json''"
  shows "wp (replace_json (jc_ae j) (jc_path j) i a (jc_key j) b hh c) (\<lambda>_. once_inv j) w"
  unfolding replace_json_def wp_and_then
proof (rule wp_mono [OF once_inv_checkpoint [OF inv]])
  show "written_phase PhBackedUp \<Longrightarrow> committed j w" by (simp add: written_phase_def)
  show "\<exists>d. Some b = Some d \<and> describes j (aw_files w) d" using b by simp
  fix r :: "string + unit" and w'
  assume h: "once_inv j w' \<and> aw_files w' = aw_files w \<and> (\<forall>u. r = Inr u \<longrightarrow> has_phase (aw_durable w') (jc_key j) PhBackedUp)
      \<and> set (aw_durable w) \<subseteq> set (aw_durable w') \<and> (\<not> written_phase PhBackedUp \<longrightarrow> untouched j w \<longrightarrow> untouched j w')
      \<and> (\<not> mutating PhBackedUp \<longrightarrow> filter (\<lambda>e. mutating (je_phase e)) (aw_durable w') = filter (\<lambda>e. mutating (je_phase e)) (aw_durable w))"
  have k: "once_inv j v" "wp (install_json (jc_ae j) (jc_path j) i a (jc_key j) b hh c) (\<lambda>_. once_inv j) v" if "core w' v" "r = Inr x" for v x
    using h u b that once_inv_core [OF that(1), of j] by (auto simp: core_def written_phase_def intro!: install_once c p)
  show "(case r of Inl e \<Rightarrow> once_inv j | Inr x \<Rightarrow> wp (do {
       r' \<leftarrow> read_file (jc_path j);
       if is_read_error r' then ret (Inl ''configuration could not be re-read before replace'')
       else if sha256_bytes (ae_env (jc_ae j)) (read_bytes r') \<noteq> hh
       then ret (Inl ''configuration changed after backup; CAS rejected atomic replace'')
       else install_json (jc_ae j) (jc_path j) i a (jc_key j) b hh c }) (\<lambda>_. once_inv j)) w'"
  proof (cases r)
    case (Inl e)
    then show ?thesis using h by simp
  next
    case (Inr x)
    show ?thesis unfolding Inr sum.case wp_simps wp_if
      by (rule wp_read) (use k [OF _ Inr] in \<open>simp_all split: if_split\<close>)
  qed
qed

lemma prepare_once:
  assumes inv: "once_inv j w" and u: "untouched j w" and p: "extension (jc_path j) = Some ''json''"
    and ex: "existed = (jc_old j \<noteq> None) \<or> jc_old j = Some []"
  shows "wp (prepare_json (jc_ae j) (jc_path j) root i (jc_action j) (jc_desired j) (jc_key j) (old_bytes j) existed) (\<lambda>_. once_inv j) w"
  unfolding prepare_json_def Let_def
proof (rule wp_case_sum)
  show "wp (ret (Inl e)) (\<lambda>_. once_inv j) w" for e using inv by simp
  fix content assume "json_content (jc_ae j) (jc_action j) (jc_desired j) (old_bytes j) = Inr content"
  then have c: "new_content j content" by (simp add: new_content_def)
  let ?hh = "sha256_bytes (ae_env (jc_ae j)) (old_bytes j)"
  let ?f = "\<lambda>b. b\<lparr>bd_applied_hash := sha256_bytes (ae_env (jc_ae j)) content\<rparr>"
  show "wp (and_then (write_backup (ae_env (jc_ae j)) root (jc_path j) (old_bytes j) existed ?hh) (\<lambda>b.
           replace_json (jc_ae j) (jc_path j) i (jc_action j) (jc_key j) (?f b) ?hh content)) (\<lambda>_. once_inv j) w"
    unfolding wp_and_then
  proof (rule wp_mono [OF write_backup_result], elim conjE)
    fix r :: "string + mcp_backup_descriptor" and w'
    assume t: "touches (temporaries \<union> backups) w w'" and q: "\<forall>q\<in>backups. aw_files w' q = aw_files w q \<or> aw_files w' q = Some (old_bytes j)"
      and b: "\<forall>b. r = Inr b \<longrightarrow> bd_source_path b = jc_path j \<and> bd_backup_path b \<in> backups \<and> aw_files w' (bd_backup_path b) = Some (old_bytes j)
           \<and> bd_source_hash b = ?hh \<and> bd_backup_hash b = ?hh \<and> bd_source_existed b = existed"
    have same: "aw_files w' (jc_path j) = aw_files w (jc_path j)" "aw_durable w' = aw_durable w" "aw_journal w' = aw_journal w"
      "\<And>q. q \<in> backups \<Longrightarrow> aw_files w' q = aw_files w q \<or> aw_files w' q = Some (old_bytes j)"
      using t q json_path_distinct(1,2) [OF p] by (auto simp: touches_def)
    note s = same_state [of w' j w, OF same]
    have "describes j (aw_files w') (?f d)" if "r = Inr d" for d
      using b that c ex by (auto simp: describes_def)
    then show "(case r of Inl e \<Rightarrow> once_inv j
        | Inr b \<Rightarrow> wp (replace_json (jc_ae j) (jc_path j) i (jc_action j) (jc_key j) (?f b) ?hh content) (\<lambda>_. once_inv j)) w'"
      using s inv u by (auto intro!: replace_once c p split: sum.split)
  qed
qed

lemma mutate_once:
  assumes inv: "once_inv j w" and u: "untouched j w" and p: "extension (jc_path j) = Some ''json''"
  shows "wp (mutate_json_config (jc_ae j) (jc_path j) root i (jc_action j) (jc_desired j) (jc_key j)) (\<lambda>_. once_inv j) w"
proof -
  have fin: "wp (prepare_json (jc_ae j) (jc_path j) root i (jc_action j) (jc_desired j) (jc_key j) (old_bytes j) existed) (\<lambda>_. once_inv j) v"
    if "core w v" "existed = (jc_old j \<noteq> None) \<or> jc_old j = Some []" for v existed
    using once_inv_core [OF that(1), of j] inv u by (auto intro!: prepare_once p that(2))
  have f: "aw_files w (jc_path j) = jc_old j" using u by (simp add: untouched_def)
  have ie: "once_inv j v" if "core w v" for v using that inv by (rule once_inv_core(1))
  show ?thesis
    unfolding mutate_json_config_def wp_simps Let_def wp_if
  proof (rule wp_read, goal_cases)
    case (1 e w1)
    then show ?case by (simp add: is_read_error_def ie)
  next
    case (2 w1)
    let ?r = "case aw_files w (jc_path j) of None \<Rightarrow> ReadMissing | Some b \<Rightarrow> ReadBytes b"
    have r: "read_bytes ?r = old_bytes j" "\<not> is_read_error ?r"
      by (auto simp: read_bytes_def is_read_error_def old_bytes_def f split: option.split)
    have tr: "core w v" if "core w1 v" for v using 2 that by (simp add: core_def)
    have old: "jc_old j = None \<or> jc_old j = Some []" if "old_bytes j = []"
      using that by (auto simp: old_bytes_def split: option.splits)
    have "wp (file_exists (jc_path j)) (\<lambda>existed. wp (prepare_json (jc_ae j) (jc_path j) root i (jc_action j) (jc_desired j) (jc_key j) (old_bytes j) existed)
        (\<lambda>_. once_inv j)) w1" if "old_bytes j = []"
      by (rule wp_exists) (use old [OF that] 2 f tr fin in \<open>auto simp: core_def\<close>)
    then show ?case
      unfolding r(1) using r(2) fin [OF 2, of True] ie [OF 2] by (auto simp: old_bytes_def split: option.splits)
  qed
qed

lemma wp_seq: "wp m P w \<Longrightarrow> (\<And>r w'. P r w' \<Longrightarrow> wp (f r) Q w') \<Longrightarrow> wp (m \<bind> f) Q w"
  unfolding wp_simps by (rule wp_mono)

lemma touch_once:
  assumes "within X m" "jc_path j \<notin> X" "X \<inter> backups = {}" "once_inv j w"
  shows "wp m (\<lambda>_ w'. once_inv j w' \<and> untouched j w' = untouched j w \<and> committed j w' = committed j w \<and> touches X w w') w"
proof (rule wp_mono [OF wp_within [OF assms(1)]])
  fix w' assume t: "touches X w w'"
  show "once_inv j w' \<and> untouched j w' = untouched j w \<and> committed j w' = committed j w \<and> touches X w w'"
    using once_inv_touches [OF t assms(2,3)] assms(4) t by blast
qed

lemma lock_clear:
  assumes "extension p = Some ''json''"
  shows "p \<notin> {with_extension p ''json.cocli-mcp.lock''}" "{with_extension p ''json.cocli-mcp.lock''} \<inter> backups = {}"
    "lock_path_of p = with_extension p ''json.cocli-mcp.lock''"
proof -
  show "p \<notin> {with_extension p ''json.cocli-mcp.lock''}"
    unfolding singleton_iff using json_path_distinct(3) [OF assms] by (rule not_sym)
  show "{with_extension p ''json.cocli-mcp.lock''} \<inter> backups = {}"
    using json_path_distinct(4) [OF assms] by simp
  show "lock_path_of p = with_extension p ''json.cocli-mcp.lock''"
    unfolding lock_path_of_def assms by simp
qed

lemma within_clean_up: "lock \<in> X \<Longrightarrow> within X (clean_up None lock r)"
  unfolding clean_up_def by (auto intro!: within_intros)

lemma apply_json_once:
  assumes inv: "once_inv j w" and u: "untouched j w" and p: "extension (jc_path j) = Some ''json''"
    and path: "action_config_path (ae_workspace (jc_ae j)) (jc_action j) = jc_path j"
  shows "wp (apply_json (jc_ae j) request i (jc_action j) (jc_desired j) root (jc_key j)) (\<lambda>_. once_inv j) w"
proof -
  let ?lock = "with_extension (jc_path j) ''json.cocli-mcp.lock''"
  note lc = lock_clear [OF p]
  have rm: "wp (remove_file ?lock) (\<lambda>_. once_inv j) v" "wp (clean_up None ?lock r) (\<lambda>_. once_inv j) v" if "once_inv j v" for v r
    by (rule wp_mono [OF touch_once [OF _ lc(1,2) that]]; auto intro!: within_intros within_clean_up)+
  have ck: "wp (durable_checkpoint i (jc_action j) (jc_key j) PhLocked None reason) (\<lambda>_ v. once_inv j v \<and> untouched j v) v"
    if "once_inv j v" "untouched j v" for v reason
    by (rule wp_mono [OF once_inv_checkpoint [OF that(1)]]) (use that in \<open>auto simp: mutating_def written_phase_def\<close>)
  have lk: "wp (acquire_apply_lock (ae_clock (jc_ae j)) ?lock (rq_run_id request)) (\<lambda>_ v. once_inv j v \<and> untouched j v) v"
    if "once_inv j v" "untouched j v" for v
    by (rule wp_mono [OF touch_once [OF _ lc(1,2) that(1)]]) (use that in \<open>auto intro!: within_intros\<close>)
  have c: "once_inv j v \<and> untouched j v" if "core w v" for v using once_inv_core [OF that, of j] inv u by simp
  show ?thesis
    supply wp_simps(2) [simp del]
    unfolding apply_json_def path Let_def wp_if wp_simps(1)
    apply (auto simp: inv)
    apply (rule wp_seq [OF wp_succeeds [where Q = "\<lambda>_. core w"]], assumption)
    apply (auto simp: c)
    apply (rule wp_seq [OF lk], (simp_all add: c)[2])
    apply (auto)
    apply (rule wp_seq [OF ck], auto split: sum.split)
    apply (erule rm)
    apply (rule wp_seq [OF mutate_once [OF _ _ p]], assumption+)
    apply (rule wp_seq [OF rm(1)], assumption)
    apply (auto simp: wp_simps split: sum.split)
    done
qed

lemma touches_backup: "touches X w w' \<Longrightarrow> X \<inter> backups = {} \<Longrightarrow> q \<in> backups \<Longrightarrow> aw_files w' q = aw_files w q"
  by (auto simp: touches_def)

lemma apply_action_once:
  assumes inv: "once_inv j w" and u: "untouched j w" and p: "extension (jc_path j) = Some ''json''"
    and path: "action_config_path (ae_workspace (jc_ae j)) (jc_action j) = jc_path j"
    and d: "desired_for (rq_plan request) (jc_action j) = jc_desired j" and rt: "pa_runtime (jc_action j) \<noteq> ''codex''"
  shows "wp (apply_action (jc_ae j) request i (jc_action j) root (jc_key j)) (\<lambda>_. once_inv j) w"
  using inv rt apply_json_once [OF inv u p path, of request i root] by (simp add: apply_action_def Let_def d)

text \<open>What a resumed run learns from the journal and the file\<close>

lemma recover_once:
  assumes inv: "once_inv j w"
    and res: "filter (\<lambda>e. mutating (je_phase e)) journal = filter (\<lambda>e. mutating (je_phase e)) (aw_durable w)"
  shows "wp (recover_resume_state (ae_env (jc_ae j)) journal (jc_key j))
     (\<lambda>r w'. core w w' \<and> (\<forall>e. r = Inr (Some e) \<longrightarrow> committed j w \<and> (\<exists>b. je_backup e = Some b \<and> describes j (aw_files w) b))
        \<and> (r = Inr None \<longrightarrow> untouched j w)) w"
proof -
  have mem: "e \<in> set (aw_durable w) \<longleftrightarrow> e \<in> set journal" if "mutating (je_phase e)" for e
    using arg_cong [OF res, of "\<lambda>xs. e \<in> set xs"] that by simp
  have either: "committed j w \<or> untouched j w" and jn: "journalled j w" using inv by (simp_all add: once_inv_def)
  have bk: "\<exists>b. je_backup e = Some b \<and> describes j (aw_files w) b" if "e \<in> set journal" "je_idempotency_key e = jc_key j" "mutating (je_phase e)" for e
    using jn that mem unfolding journalled_def by blast
  define W where "W = find (\<lambda>e. je_idempotency_key e = jc_key j \<and> written_phase (je_phase e)) (rev journal)"
  define B where "B = find (\<lambda>e. je_idempotency_key e = jc_key j \<and> je_phase e = PhBackedUp) (rev journal)"
  show ?thesis
  proof (cases W)
    case (Some e)
    then have e: "e \<in> set journal" "je_idempotency_key e = jc_key j" "written_phase (je_phase e)"
      by (auto simp: W_def find_Some_iff rev_nth)
    then have "e \<in> set (aw_durable w)" using mem by (simp add: mutating_def)
    with e either have "committed j w" by (auto simp: untouched_def)
    with bk e Some show ?thesis by (simp add: recover_resume_state_def W_def [symmetric] mutating_def)
  next
    case W: None
    show ?thesis
    proof (cases B)
      case None
      then have "\<not> has_phase (aw_durable w) (jc_key j) PhBackedUp"
        using mem by (auto simp: B_def find_None_iff has_phase_def mutating_def)
      with either have "untouched j w" by (auto simp: committed_def)
      with W None show ?thesis by (simp add: recover_resume_state_def W_def [symmetric] B_def [symmetric])
    next
      case (Some e)
      then have e: "e \<in> set journal" "je_idempotency_key e = jc_key j" "je_phase e = PhBackedUp"
        by (auto simp: B_def find_Some_iff rev_nth)
      then obtain b where b: "je_backup e = Some b" "describes j (aw_files w) b" using bk by (auto simp: mutating_def)
      then obtain c where c: "new_content j c" "bd_applied_hash b = sha256_bytes (ae_env (jc_ae j)) c"
        and src: "bd_source_path b = jc_path j" "bd_source_hash b = sha256_bytes (ae_env (jc_ae j)) (old_bytes j)"
        by (auto simp: describes_def)
      define cur where "cur = sha256_bytes (ae_env (jc_ae j)) (case aw_files w (jc_path j) of None \<Rightarrow> [] | Some x \<Rightarrow> x)"
      have ucur: "cur = bd_source_hash b" if "untouched j w" using that by (simp add: cur_def untouched_def src old_bytes_def)
      have ccur: "cur = bd_applied_hash b" if "committed j w" using that c by (auto simp: cur_def committed_def new_content_def)
      have ne: "bd_applied_hash b \<noteq> bd_source_hash b" using new_content_changes [OF c(1)] c(2) src(2) by simp
      show ?thesis
        unfolding recover_resume_state_def W_def [symmetric] B_def [symmetric] W Some option.case b(1) src(1)
      proof (simp, intro impI wp_read, goal_cases)
        case (2 w1)
        then show ?case
          using either ucur ccur ne b by (auto simp: cur_def Let_def split: option.splits)
      qed simp
    qed
  qed
qed

lemma finish_once:
  assumes inv: "once_inv j w"
  shows "wp (finish_action p i a (jc_key j) ls r) (\<lambda>_. once_inv j) w"
proof -
  have "wp (durable_checkpoint i a (jc_key j) PhFailed b reason) (\<lambda>_. once_inv j) w" for b reason
    by (rule wp_mono [OF once_inv_checkpoint [OF inv]]) (auto simp: mutating_def written_phase_def)
  then show ?thesis using inv by (simp add: finish_action_def)
qed

lemma resumed_once:
  assumes inv: "once_inv j w" and c: "committed j w" and b: "je_backup e = Some b" "describes j (aw_files w) b"
    and p: "extension (jc_path j) = Some ''json''"
  shows "wp (resumed_result i a (jc_key j) request e) (\<lambda>_. once_inv j) w"
proof -
  note lc = lock_clear [OF p]
  have sp: "lock_path_of (bd_source_path b) = with_extension (jc_path j) ''json.cocli-mcp.lock''"
    using b(2) lc(3) by (simp add: describes_def)
  have rl: "wp (release_owned_apply_lock b (rq_run_id request)) (\<lambda>_ w'. once_inv j w' \<and> committed j w' \<and> describes j (aw_files w') b) w"
  proof (rule wp_mono [OF touch_once [OF _ lc(1,2) inv]])
    show "within {with_extension (jc_path j) ''json.cocli-mcp.lock''} (release_owned_apply_lock b (rq_run_id request))"
      by (rule within_release) (simp add: sp)
    fix w' assume h: "once_inv j w' \<and> untouched j w' = untouched j w \<and> committed j w' = committed j w \<and> touches {with_extension (jc_path j) ''json.cocli-mcp.lock''} w w'"
    have "describes j (aw_files w') b" using b(2)
      by (rule describes_backups) (use h touches_backup [OF _ lc(2)] in blast)
    with h c show "once_inv j w' \<and> committed j w' \<and> describes j (aw_files w') b" by blast
  qed
  have ck: "wp (durable_checkpoint i a (jc_key j) PhWritten (Some b) reason) (\<lambda>_. once_inv j) v"
    if "once_inv j v \<and> committed j v \<and> describes j (aw_files v) b" for v reason
    by (rule wp_mono [OF once_inv_checkpoint]) (use that in auto)
  show ?thesis
    unfolding resumed_result_def b(1) option.case
    by (rule wp_seq [OF rl]) (auto simp: ck)
qed

lemma run_action_once:
  assumes inv: "once_inv j w" and p: "extension (jc_path j) = Some ''json''"
    and path: "action_config_path (ae_workspace (jc_ae j)) (jc_action j) = jc_path j"
    and d: "desired_for (rq_plan request) (jc_action j) = jc_desired j" and rt: "pa_runtime (jc_action j) \<noteq> ''codex''"
    and key: "run_key (jc_ae j) (rq_plan request) report i = jc_key j"
    and first: "map_of (ls_source_hashes ls0) (jc_path j) = None" and res: "rq_resume_journal request = aw_durable w"
  shows "wp (run_action (jc_ae j) request report drift root ls0 (i, jc_action j)) (\<lambda>_. once_inv j) w"
proof -
  have act: "action_with_chained_source_hash (jc_action j) (map_of (ls_source_hashes ls0) (jc_path j)) = jc_action j"
    by (simp add: first action_with_chained_source_hash_def)
  have ck: "wp (durable_checkpoint i (jc_action j) (jc_key j) PhPreflight None reason)
      (\<lambda>_ w'. once_inv j w' \<and> filter (\<lambda>e. mutating (je_phase e)) (aw_durable w') = filter (\<lambda>e. mutating (je_phase e)) (aw_durable w)) w" for reason
    by (rule wp_mono [OF once_inv_checkpoint [OF inv]]) (auto simp: mutating_def written_phase_def)
  show ?thesis
    unfolding run_action_def prod.case path act key Let_def
  proof (rule wp_seq [OF ck], elim conjE, rule wp_case_sum, goal_cases)
    case (1 r w1 e)
    then show ?case by simp
  next
    case (2 r w1 y)
    note rec = recover_once [OF 2(1), of "rq_resume_journal request", unfolded res, OF 2(2) [symmetric]]
    show ?case unfolding res
    proof (rule wp_seq [OF rec], elim conjE, rule wp_case_sum, goal_cases)
      case (1 st w2 e)
      then show ?case by (intro finish_once once_inv_core(1) [OF _ 2(1)])
    next
      case (2 st w2 oe)
      note inv2 = once_inv_core(1) [OF 2(1) \<open>once_inv j w1\<close>]
      note uc = once_inv_core(2,3) [OF 2(1), of j]
      show ?case
      proof (cases oe)
        case None
        with 2 uc have "untouched j w2" by simp
        then show ?thesis
          unfolding None option.case wp_if
          by (auto intro!: finish_once inv2 wp_seq [OF apply_action_once [OF inv2 _ p path d rt]] simp del: wp_simps(2))
      next
        case (Some e)
        with 2 uc obtain b where "committed j w2" "je_backup e = Some b" "describes j (aw_files w2) b"
          by (auto simp: core_def)
        then show ?thesis
          unfolding Some option.case
          by (intro wp_seq [OF resumed_once [OF inv2 _ _ _ p]] wp_case_sum finish_once) auto
      qed
    qed
  qed
qed

end
