(* ===== verification/McpRecovery.thy ===== *)
theory McpRecovery
  imports McpApply
begin

text \<open>
  What a journalled run promises when it is interrupted: an action reaches its file at most once, the
  bytes it replaced stay restorable, and with an operating system that answers, an action is carried
  out and a rollback ends (\<open>crates/cocli-server/src/mcp.rs\<close>). One action is looked at, as the loop of
  \<open>apply\<close> runs it: with no earlier action of the run on the same file, and no other program writing it.
\<close>

section \<open>Interrupted runs\<close>

text \<open>
  A plan is tried any number of times. Each attempt takes up the journal that is stored, meets its own
  answers of the operating system, and may be stopped anywhere.
\<close>

definition restart :: "apply_world \<Rightarrow> (nat \<Rightarrow> answer) \<Rightarrow> (nat \<Rightarrow> string) \<Rightarrow> apply_world" where
  "restart w answers fresh = w\<lparr>aw_answers := answers, aw_step := 0, aw_halted := False, aw_fresh := fresh, aw_draws := 0\<rparr>"

definition empty_loop :: loop_state where
  "empty_loop = \<lparr>ls_source_hashes = [], ls_results = [], ls_execution = []\<rparr>"

definition resume_action ::
  "apply_env \<Rightarrow> mcp_apply_execution_request \<Rightarrow> mcp_preflight_report \<Rightarrow> bool \<Rightarrow> string \<Rightarrow> nat \<Rightarrow> loop_state io" where
  "resume_action ae request report drift root i = do {
     _ \<leftarrow> load_journal (rq_resume_journal request);
     run_action ae request report drift root empty_loop (i, pn_actions (rq_plan request) ! i) }"

inductive attempts :: "apply_env \<Rightarrow> mcp_plan \<Rightarrow> nat \<Rightarrow> apply_world \<Rightarrow> apply_world \<Rightarrow> bool"
  for ae plan i w0 where
  attempts_start: "attempts ae plan i w0 w0"
| attempts_again:
    "attempts ae plan i w0 w \<Longrightarrow> rq_plan request = plan \<Longrightarrow> rq_resume_journal request = aw_durable w \<Longrightarrow> mh_env h = ae_env ae \<Longrightarrow>
     run_state (resume_action ae request (preflight h now plan) drift root i) (restart w answers fresh) = (ls, w') \<Longrightarrow>
     attempts ae plan i w0 w'"

lemma preflight_key:
  assumes "i < length (pn_actions plan)" "mh_env h = ae_env ae"
  shows "run_key ae plan (preflight h now plan) i = idempotency_key (ae_env ae) plan i (pn_actions plan ! i)"
proof -
  have idx: "pf_action_index (preflight_action env plan snap n a) = n" "pf_idempotency_key (preflight_action env plan snap n a) = idempotency_key env plan n a" for env snap n a
    by (simp_all add: preflight_action_def Let_def)
  have "find (\<lambda>p. pf_action_index p = i) (map (\<lambda>(n, a). preflight_action env plan snap n a) (enumerate 0 (pn_actions plan)))
      = Some (preflight_action env plan snap i (pn_actions plan ! i))" for env snap
    unfolding find_Some_iff using assms(1) by (intro exI [of _ i]) (auto simp: nth_enumerate_eq idx)
  then show ?thesis using assms(2) by (simp add: run_key_def preflight_def preflight_actions idx)
qed

definition json_case_of :: "apply_env \<Rightarrow> mcp_plan \<Rightarrow> nat \<Rightarrow> apply_world \<Rightarrow> json_case" where
  "json_case_of ae plan i w0 =
     (let a = pn_actions plan ! i; p = action_config_path (ae_workspace ae) a
      in \<lparr>jc_ae = ae, jc_action = a, jc_desired = desired_for plan a, jc_path = p, jc_old = aw_files w0 p, jc_key = idempotency_key (ae_env ae) plan i a\<rparr>)"

definition json_action :: "apply_env \<Rightarrow> mcp_plan \<Rightarrow> nat \<Rightarrow> bool" where
  "json_action ae plan i \<longleftrightarrow> i < length (pn_actions plan) \<and> pa_runtime (pn_actions plan ! i) \<noteq> ''codex''
     \<and> extension (action_config_path (ae_workspace ae) (pn_actions plan ! i)) = Some ''json''"

lemma attempts_inv:
  assumes "attempts ae plan i w0 w" "json_action ae plan i"
    and fresh: "\<And>e. e \<in> set (aw_durable w0) \<Longrightarrow> je_idempotency_key e \<noteq> idempotency_key (ae_env ae) plan i (pn_actions plan ! i)"
  shows "journalled (json_case_of ae plan i w0) w \<and> (committed (json_case_of ae plan i w0) w \<or> untouched (json_case_of ae plan i w0) w)"
  using assms(1)
proof (induction rule: attempts.induct)
  case attempts_start
  show ?case using fresh by (auto simp: journalled_def untouched_def json_case_of_def Let_def)
next
  case (attempts_again w request h now drift root answers fr ls w')
  define j where "j = json_case_of ae plan i w0"
  define v where "v = (restart w answers fr)\<lparr>aw_journal := aw_durable w, aw_sequence := max_sequence (aw_durable w)\<rparr>"
  have j: "jc_ae j = ae" "jc_action j = pn_actions plan ! i" "jc_desired j = desired_for plan (pn_actions plan ! i)"
    "jc_path j = action_config_path (ae_workspace ae) (pn_actions plan ! i)" "jc_key j = idempotency_key (ae_env ae) plan i (pn_actions plan ! i)"
    by (simp_all add: j_def json_case_of_def Let_def)
  have inv: "once_inv j v"
    using attempts_again.IH unfolding j_def [symmetric] by (simp add: once_inv_def journalled_def committed_def untouched_def v_def restart_def)
  have "wp (run_action ae request (preflight h now plan) drift root empty_loop (i, pn_actions plan ! i)) (\<lambda>_. once_inv j) v"
    using run_action_once [OF inv, of request "preflight h now plan" i empty_loop drift root] assms(2) attempts_again(2-4) preflight_key [of i plan h ae now]
    by (simp add: j json_action_def empty_loop_def v_def restart_def)
  moreover have "run_state (run_action ae request (preflight h now plan) drift root empty_loop (i, pn_actions plan ! i)) v = (ls, w')"
    using attempts_again(2,3,5) by (simp add: resume_action_def load_journal_def v_def restart_def)
  ultimately have "once_inv j w'" by (simp add: wp_def)
  then show ?case by (simp add: once_inv_def j_def)
qed

section \<open>Rollback\<close>

definition restored :: "json_case \<Rightarrow> apply_world \<Rightarrow> bool" where
  "restored j w \<longleftrightarrow> aw_files w (jc_path j) = jc_old j \<or> jc_old j = Some [] \<and> aw_files w (jc_path j) = None"

lemma rollback_once:
  assumes st: "committed j w \<or> untouched j w" and b: "describes j (aw_files w) b" and p: "extension (jc_path j) = Some ''json''"
  shows "wp (rollback_backup (ae_env (jc_ae j)) ck b)
     (\<lambda>r w'. if fst r = StRolledBack then restored j w' else aw_files w' (jc_path j) = aw_files w (jc_path j)) w"
proof -
  note lc = lock_clear [OF p]
  have lock: "lock_path_of (bd_source_path b) = with_extension (jc_path j) ''json.cocli-mcp.lock''"
    using b lc(3) by (simp add: describes_def)
  obtain c where c: "new_content j c" "bd_applied_hash b = sha256_bytes (ae_env (jc_ae j)) c"
    and src: "bd_source_path b = jc_path j" "bd_source_hash b = sha256_bytes (ae_env (jc_ae j)) (old_bytes j)"
    and f: "aw_files w (bd_backup_path b) = Some (old_bytes j)" and ex: "bd_source_existed b = (jc_old j \<noteq> None) \<or> jc_old j = Some []"
    using b by (auto simp: describes_def)
  have ne: "bd_applied_hash b \<noteq> bd_source_hash b" using new_content_changes [OF c(1)] c(2) src(2) by simp
  let ?p = "jc_path j" and ?lock = "with_extension (jc_path j) ''json.cocli-mcp.lock''" and ?env = "ae_env (jc_ae j)"
  let ?Q = "\<lambda>r :: mcp_apply_action_status \<times> string. \<lambda>w'. if fst r = StRolledBack then restored j w' else aw_files w' ?p = aw_files w ?p"
  have keep: "wp m (\<lambda>_ w'. aw_files w' ?p = aw_files v ?p) v" if "within {?lock} m" for m :: "'x io" and v
    by (rule wp_mono [OF wp_within [OF that]]) (use lc(1) in \<open>simp add: touches_def\<close>)
  have rm: "wp (remove_file ?lock) (\<lambda>_ w'. aw_files w' ?p = aw_files v ?p) v" for v by (rule keep) (intro within_intros singletonI)
  have lk: "wp (acquire_apply_lock ck ?lock owner) (\<lambda>_ w'. aw_files w' ?p = aw_files v ?p) v" for v owner by (rule keep) (intro within_intros singletonI)
  have aw: "wp (atomic_write ?p (old_bytes j)) (\<lambda>r w'. case r of Inl _ \<Rightarrow> aw_files w' ?p = aw_files v ?p | Inr _ \<Rightarrow> bd_source_existed b \<longrightarrow> restored j w') v" for v
    by (rule wp_mono [OF atomic_write_result [OF json_path_distinct(1) [OF p]]])
      (use ex in \<open>auto simp: restored_def old_bytes_def split: sum.splits option.splits\<close>)
  have rp: "wp (or_fail (remove_file ?p) e) (\<lambda>r w'. case r of Inl _ \<Rightarrow> aw_files w' ?p = aw_files v ?p | Inr _ \<Rightarrow> \<not> bd_source_existed b \<longrightarrow> restored j w') v" for v e
    unfolding wp_or_fail by (rule wp_remove) (use ex in \<open>auto simp: restored_def core_def\<close>)
  have bck: "restored j v" if "aw_files v ?p = aw_files w ?p" "sha256_bytes ?env (case aw_files w ?p of None \<Rightarrow> [] | Some x \<Rightarrow> x) = bd_source_hash b" for v
    using st that ne c by (auto simp: restored_def untouched_def committed_def new_content_def)
  have keepR: "wp (remove_file ?lock) (\<lambda>_. restored j) v" if "restored j v" for v
    by (rule wp_mono [OF rm]) (use that in \<open>auto simp: restored_def\<close>)
  have keepU: "wp (remove_file ?lock) (\<lambda>_ w'. aw_files w' ?p = aw_files w ?p) v" if "aw_files v ?p = aw_files w ?p" for v
    by (rule wp_mono [OF rm]) (use that in simp)
  have finish: "wp (remove_file ?lock) (\<lambda>_. ?Q (case r of Inr _ \<Rightarrow> (StRolledBack, ''backup restored atomically'') | Inl reason \<Rightarrow> (StFailed, reason))) v"
    if "case r of Inl _ \<Rightarrow> aw_files v ?p = aw_files w ?p | Inr _ \<Rightarrow> restored j v" for v and r :: "string + unit"
    using that keepR [of v] keepU [of v] by (cases r) simp_all
  have wr: "wp (if bd_source_existed b then atomic_write ?p (old_bytes j) else or_fail (remove_file ?p) e)
      (\<lambda>r. wp (remove_file ?lock) (\<lambda>_. ?Q (case r of Inr _ \<Rightarrow> (StRolledBack, ''backup restored atomically'') | Inl reason \<Rightarrow> (StFailed, reason)))) v"
    if "aw_files v ?p = aw_files w ?p" for v e
    using that by (cases "bd_source_existed b")
      (auto intro!: wp_mono [OF aw] wp_mono [OF rp] keepR keepU split: sum.splits simp del: wp_or_fail)
  have rs: "wp (restore_source ?env b (old_bytes j) ?lock) ?Q v" if v: "aw_files v ?p = aw_files w ?p" for v
    unfolding restore_source_def src(1) Let_def wp_simps(2)
  proof (rule wp_read, goal_cases)
    case (1 e w1)
    then show ?case using keepU [of w1] v by (simp add: is_read_error_def core_def)
  next
    case (2 w1)
    let ?h = "sha256_bytes ?env (case aw_files w ?p of None \<Rightarrow> [] | Some x \<Rightarrow> x)"
    have r: "\<not> is_read_error (case aw_files v ?p of None \<Rightarrow> ReadMissing | Some x \<Rightarrow> ReadBytes x)"
      "read_bytes (case aw_files v ?p of None \<Rightarrow> ReadMissing | Some x \<Rightarrow> ReadBytes x) = (case aw_files w ?p of None \<Rightarrow> [] | Some x \<Rightarrow> x)"
      by (auto simp: is_read_error_def read_bytes_def v split: option.split)
    have w1: "aw_files w1 ?p = aw_files w ?p" using 2 v by (simp add: core_def)
    consider "?h = bd_source_hash b" | "?h \<noteq> bd_source_hash b" "?h \<noteq> bd_applied_hash b" | "?h = bd_applied_hash b" "bd_applied_hash b \<noteq> bd_source_hash b"
      using ne by auto
    then show ?case
    proof cases
      case 1
      then show ?thesis using keepR [OF bck [OF w1]] r by simp
    next
      case 2
      then show ?thesis using keepU [OF w1] r by simp
    next
      case 3
      then show ?thesis using wr [OF w1] r by (simp del: wp_or_fail wp_if)
    qed
  qed
  show ?thesis
    unfolding rollback_backup_def lock Let_def wp_simps(2)
  proof (rule wp_read, goal_cases)
    case (1 e w1)
    then show ?case by (simp add: core_def)
  next
    case (2 w1)
    have bh: "sha256_bytes ?env (old_bytes j) = bd_backup_hash b" using b by (simp add: describes_def)
    have "wp (acquire_apply_lock ck ?lock owner) (\<lambda>ok. wp (if \<not> ok then ret (StBlocked, ''configuration is locked by another apply or rollback operation'')
        else restore_source ?env b (old_bytes j) ?lock) ?Q) w1" for owner
      by (rule wp_mono [OF lk]) (use 2 rs in \<open>auto simp: core_def\<close>)
    then show ?case by (simp add: f bh)
  qed
qed

section \<open>Runs that meet no failure\<close>

definition steady :: "apply_world \<Rightarrow> bool" where
  "steady w \<longleftrightarrow> \<not> aw_halted w \<and> (\<forall>n. aw_answers w n = Go)"

definition tick :: "apply_world \<Rightarrow> apply_world" where
  "tick w = w\<lparr>aw_step := aw_step w + 1\<rparr>"

lemma tick_simps [simp]:
  "aw_files (tick w) = aw_files w" "aw_durable (tick w) = aw_durable w" "aw_journal (tick w) = aw_journal w"
  "aw_fresh (tick w) = aw_fresh w" "aw_draws (tick w) = aw_draws w" "aw_sequence (tick w) = aw_sequence w"
  by (simp_all add: tick_def)

lemma steady_simps [simp]:
  "steady (tick w) = steady w" "steady (w\<lparr>aw_files := fs\<rparr>) = steady w" "steady (w\<lparr>aw_durable := es\<rparr>) = steady w"
  "steady (w\<lparr>aw_journal := es\<rparr>) = steady w" "steady (w\<lparr>aw_sequence := n\<rparr>) = steady w" "steady (w\<lparr>aw_draws := n\<rparr>) = steady w"
  by (simp_all add: steady_def tick_def)

lemma steady_attempt [simp]: "steady w \<Longrightarrow> wp (attempt f) Q w = Q True ((tick w)\<lparr>aw_files := f (aw_files w)\<rparr>)"
  by (simp add: wp_def attempt_def draw_def steady_def tick_def)

lemma steady_succeeds [simp]: "steady w \<Longrightarrow> wp succeeds Q w = Q True (tick w)"
  by (simp add: succeeds_def tick_def)

lemma steady_read [simp]: "steady w \<Longrightarrow> wp (read_file p) Q w = Q (case aw_files w p of None \<Rightarrow> ReadMissing | Some b \<Rightarrow> ReadBytes b) (tick w)"
  by (simp add: wp_def read_file_def draw_def steady_def tick_def)

lemma steady_sink [simp]: "steady w \<Longrightarrow> wp (sink_checkpoint e) Q w = Q True ((tick w)\<lparr>aw_durable := aw_durable w @ [e]\<rparr>)"
  by (simp add: wp_def sink_checkpoint_def draw_def steady_def tick_def)

lemma wp_fresh_id [simp]: "wp fresh_id Q w = Q (aw_fresh w (aw_draws w)) (w\<lparr>aw_draws := aw_draws w + 1\<rparr>)"
  by (simp add: wp_def fresh_id_def)

text \<open>No temporary file is left from a run before\<close>

definition tidy :: "apply_world \<Rightarrow> bool" where
  "tidy w \<longleftrightarrow> steady w \<and> (\<forall>q \<in> temporaries. aw_files w q = None)"

lemma tidy_create: "steady w \<Longrightarrow> aw_files w p = None \<Longrightarrow> wp (create_new p) Q w = Q True ((tick w)\<lparr>aw_files := (aw_files w)(p := Some [])\<rparr>)"
  by (simp add: create_new_def)

lemma steady_write:
  assumes "tidy w" "parent_path p \<noteq> None" "p \<notin> temporaries"
  shows "wp (atomic_write p c) (\<lambda>r w'. r = Inr () \<and> tidy w' \<and> aw_files w' = (aw_files w)(p := Some c) \<and> aw_durable w' = aw_durable w \<and> aw_journal w' = aw_journal w) w"
proof -
  obtain d where d: "parent_path p = Some d" using assms(2) by blast
  have t: "aw_files w (temporary_path d u) = None" "p \<noteq> temporary_path d u" for u
    using assms(1,3) temporary_name [of d u] by (auto simp: tidy_def)
  show ?thesis
    using assms(1,3) t temporary_name [of d]
    by (auto simp: atomic_write_def d tidy_def tidy_create write_all_def rename_file_def Let_def fun_eq_iff)
qed

lemma steady_lock:
  assumes "tidy w" "aw_files w p = None" "p \<notin> temporaries"
  shows "wp (acquire_apply_lock ck p owner) (\<lambda>r w'. r \<and> tidy w' \<and> aw_files w' = (aw_files w)(p := Some (marker_of ck owner)) \<and> aw_durable w' = aw_durable w \<and> aw_journal w' = aw_journal w) w"
  using assms by (auto simp: acquire_apply_lock_def numeral_2_eq_2 tidy_create tidy_def write_all_def)

lemma steady_checkpoint:
  assumes "tidy w"
  shows "wp (durable_checkpoint i a key phase b reason)
     (\<lambda>r w'. r = Inr () \<and> tidy w' \<and> aw_files w' = aw_files w
        \<and> (\<not> has_phase (aw_journal w) key phase \<longrightarrow> (\<exists>e. je_idempotency_key e = key \<and> je_phase e = phase \<and> je_backup e = b
                       \<and> aw_durable w' = aw_durable w @ [e] \<and> aw_journal w' = aw_journal w @ [e]))) w"
  using assms by (auto simp: durable_checkpoint_def tidy_def Let_def journal_entry_def push_entry_def wp_def [of "State _"])

lemma wp_chain: "wp m P w \<Longrightarrow> (\<And>r w'. P r w' \<Longrightarrow> wp (f r) Q w') \<Longrightarrow> wp (m \<bind> f) Q w"
  unfolding wp_simps(2) by (rule wp_mono)

lemma json_path_parent: "extension p = Some ''json'' \<Longrightarrow> parent_path p \<noteq> None"
  using extension_suffix [of p "''json''"] by (auto simp: parent_path_def suffix_def Cons_eq_append_conv split: option.split)

lemma backup_parent: "parent_path (backup_file root i) \<noteq> None"
  using backup_name [of root i] by (auto simp: parent_path_def backups_def suffix_def Cons_eq_append_conv split: option.split)

lemma lock_not_temporary: "extension p = Some ''json'' \<Longrightarrow> with_extension p ''json.cocli-mcp.lock'' \<notin> temporaries"
  using with_extension_suffix [of "''json.cocli-mcp.lock''" p] by (auto simp: temporaries_def suffix_def)

lemma rollback_ends:
  assumes st: "committed j w \<or> untouched j w" and b: "describes j (aw_files w) b" and p: "extension (jc_path j) = Some ''json''"
    and w: "tidy w" "aw_files w (lock_path_of (jc_path j)) = None"
  shows "wp (rollback_backup (ae_env (jc_ae j)) ck b) (\<lambda>r w'. fst r = StRolledBack) w"
proof -
  let ?p = "jc_path j" and ?lock = "lock_path_of (jc_path j)" and ?env = "ae_env (jc_ae j)"
  have lock: "?lock = with_extension ?p ''json.cocli-mcp.lock''" by (simp add: lock_path_of_def p)
  note pd = json_path_distinct [OF p]
  obtain c where c: "new_content j c" "bd_applied_hash b = sha256_bytes ?env c"
    and src: "bd_source_path b = ?p" "bd_source_hash b = sha256_bytes ?env (old_bytes j)" "bd_backup_hash b = sha256_bytes ?env (old_bytes j)"
    and f: "aw_files w (bd_backup_path b) = Some (old_bytes j)"
    using b by (auto simp: describes_def)
  have known: "sha256_bytes ?env (case aw_files w ?p of None \<Rightarrow> [] | Some x \<Rightarrow> x) \<in> {bd_source_hash b, bd_applied_hash b}"
    using st c src(2) by (auto simp: untouched_def committed_def new_content_def old_bytes_def)
  have rd: "\<not> is_read_error (case x of None \<Rightarrow> ReadMissing | Some y \<Rightarrow> ReadBytes y)"
    "read_bytes (case x of None \<Rightarrow> ReadMissing | Some y \<Rightarrow> ReadBytes y) = (case x of None \<Rightarrow> [] | Some y \<Rightarrow> y)" for x
    by (auto simp: is_read_error_def read_bytes_def split: option.split)
  have wr: "wp (atomic_write ?p (old_bytes j)) (\<lambda>r v'. wp (remove_file ?lock) (\<lambda>_ _. fst (case r of Inr _ \<Rightarrow> (StRolledBack, m) | Inl e \<Rightarrow> (StFailed, e)) = StRolledBack) v') v"
    if "tidy v" for v m
    by (rule wp_mono [OF steady_write [OF that json_path_parent [OF p] pd(1)]]) (auto simp: tidy_def remove_file_def)
  have rs: "wp (restore_source ?env b (old_bytes j) ?lock) (\<lambda>r _. fst r = StRolledBack) v" if v: "tidy v" "aw_files v ?p = aw_files w ?p" for v
  proof -
    have s: "steady v" "tidy (tick v)" using v(1) by (simp_all add: tidy_def)
    show ?thesis using known wr [OF s(2)] s by (auto simp: restore_source_def Let_def src(1) rd v(2) remove_file_def)
  qed
  have lk: "wp (acquire_apply_lock ck ?lock owner) (\<lambda>r v. wp (if \<not> r then ret (StBlocked, m) else restore_source ?env b (old_bytes j) ?lock) (\<lambda>r _. fst r = StRolledBack) v) v"
    if "tidy v" "aw_files v = aw_files w" for v owner m
    by (rule wp_mono [OF steady_lock [OF that(1)]]) (use that w lock_not_temporary [OF p] lock pd(3) in \<open>auto intro!: rs [unfolded lock]\<close>)
  have "tidy (tick w)" using w(1) by (simp add: tidy_def)
  with w(1) lk [of "tick w"] show ?thesis by (simp add: rollback_backup_def tidy_def f src Let_def)
qed

text \<open>An action that preflight lets through, on a configuration that it can edit\<close>

lemma read_present [simp]:
  "\<not> is_read_error (case x of None \<Rightarrow> ReadMissing | Some y \<Rightarrow> ReadBytes y)"
  "read_bytes (case x of None \<Rightarrow> ReadMissing | Some y \<Rightarrow> ReadBytes y) = (case x of None \<Rightarrow> [] | Some y \<Rightarrow> y)"
  by (auto simp: is_read_error_def read_bytes_def split: option.split)

lemma tidyD [simp]: "tidy w \<Longrightarrow> steady w"
  by (simp add: tidy_def)

lemma tidy_tick [simp]: "tidy (tick w) = tidy w" "tidy (w\<lparr>aw_draws := n\<rparr>) = tidy w"
  by (simp_all add: tidy_def)

lemma steady_backup:
  assumes "tidy w" "p \<notin> backups"
  shows "wp (write_backup env root p src ex hh) (\<lambda>r w'. \<exists>b. r = Inr b \<and> tidy w' \<and> aw_files w' p = aw_files w p) w"
proof -
  have s: "steady w" using assms(1) by (simp add: tidy_def)
  have k: "wp (atomic_write (backup_file root i) src) (\<lambda>r v'. r = Inr () \<and> tidy v' \<and> aw_files v' p = aw_files w p) v"
    if "tidy v" "aw_files v = aw_files w" for i v
    by (rule wp_mono [OF steady_write [OF that(1) backup_parent backup_not_temporary [OF backup_name]]])
      (use that(2) backup_name [of root i] assms(2) in auto)
  show ?thesis
    using s assms(1) by (auto simp: write_backup_def Let_def intro!: wp_mono [OF k])
qed

lemma mutate_completes:
  assumes "tidy w" "extension p = Some ''json''" "length (case aw_files w p of None \<Rightarrow> [] | Some x \<Rightarrow> x) \<le> max_config_bytes"
    and c: "json_content ae a desired (case aw_files w p of None \<Rightarrow> [] | Some x \<Rightarrow> x) = Inr c"
  shows "wp (mutate_json_config ae p root i a desired key) (\<lambda>r w'. (\<exists>b x y. r = Inr (b, x, y)) \<and> tidy w' \<and> aw_files w' p = Some c) w"
proof -
  let ?old = "case aw_files w p of None \<Rightarrow> [] | Some x \<Rightarrow> x" and ?Q = "\<lambda>r w'. (\<exists>b x y. r = Inr (b, x, y)) \<and> tidy w' \<and> aw_files w' p = Some c"
  note pd = json_path_distinct [OF assms(2)]
  have install: "wp (install_json ae p i a key b hh c) ?Q v" if "tidy v" for v b hh
    unfolding install_json_def wp_and_then
    by (rule wp_mono [OF steady_write [OF that json_path_parent [OF assms(2)] pd(1)]])
      (auto intro!: wp_mono [OF steady_checkpoint])
  have replace: "wp (replace_json ae p i a key b (sha256_bytes (ae_env ae) ?old) c) ?Q v" if "tidy v" "aw_files v p = aw_files w p" for v b
    unfolding replace_json_def wp_and_then
    by (rule wp_mono [OF steady_checkpoint [OF that(1)]]) (use that(2) in \<open>auto intro!: install\<close>)
  have prepare: "wp (prepare_json ae p root i a desired key ?old ex) ?Q v" if "tidy v" "aw_files v p = aw_files w p" for v ex
    unfolding prepare_json_def c Let_def sum.case wp_and_then
    by (rule wp_mono [OF steady_backup [OF that(1) pd(2)]]) (use that(2) in \<open>auto intro!: replace\<close>)
  have s: "steady w" "steady (tick w)" using assms(1) by (simp_all add: tidy_def)
  show ?thesis
    using assms(1,3) s prepare [of "tick w"] prepare [of "tick (tick w)"]
    by (auto simp: mutate_json_config_def Let_def file_exists_def)
qed

lemma apply_json_completes:
  assumes "tidy w" "extension p = Some ''json''" "action_config_path (ae_workspace ae) a = p" "aw_files w (with_extension p ''json.cocli-mcp.lock'') = None"
    and len: "length (case aw_files w p of None \<Rightarrow> [] | Some x \<Rightarrow> x) \<le> max_config_bytes"
    and c: "json_content ae a desired (case aw_files w p of None \<Rightarrow> [] | Some x \<Rightarrow> x) = Inr c"
  shows "wp (apply_json ae request i a desired root key) (\<lambda>r w'. ar_status r = StApplied \<and> aw_files w' p = Some c \<and> tidy w' \<and> aw_files w' (with_extension p ''json.cocli-mcp.lock'') = None) w"
proof -
  let ?lock = "with_extension p ''json.cocli-mcp.lock''"
  note pd = json_path_distinct [OF assms(2)]
  have m: "wp (mutate_json_config ae p root i a desired key) (\<lambda>r v'. wp (remove_file ?lock) (\<lambda>_. wp (f r) Q) v') v"
    if "tidy v" "aw_files v p = aw_files w p" "\<And>b x y v. aw_files v p = Some c \<Longrightarrow> tidy v \<Longrightarrow> aw_files v ?lock = None \<Longrightarrow> wp (f (Inr (b, x, y))) Q v" for v f Q
    by (rule wp_mono [OF mutate_completes [of v p ae a desired c]])
      (use that assms(2) len c pd(3) in \<open>auto simp: remove_file_def tidy_def\<close>)
  have k: "wp (durable_checkpoint i a key ph b reason) (\<lambda>r v'. wp (f r) Q v') v"
    if "tidy v" "\<And>v'. tidy v' \<Longrightarrow> aw_files v' = aw_files v \<Longrightarrow> wp (f (Inr ())) Q v'" for v f Q ph b reason
    by (rule wp_mono [OF steady_checkpoint [OF that(1)]]) (use that(2) in auto)
  have par: "parent_path p \<noteq> None" by (rule json_path_parent [OF assms(2)])
  show ?thesis
    unfolding apply_json_def Let_def assms(3) using assms(1,2,4) par pd(3) lock_not_temporary [OF assms(2)]
    by (auto intro!: wp_mono [OF steady_lock] k m simp: with_backup_def action_result_def)
qed

text \<open>
  What \<open>apply_action\<close> asks of an action on a JSON configuration beyond its preflight: a runtime with a
  structured writer, a confirmation when the risk is high, and a desired server without secret
  references, tool lists or an approval mode other than manual.
\<close>

definition accepted :: "mcp_apply_execution_request \<Rightarrow> mcp_plan_action \<Rightarrow> bool" where
  "accepted request a \<longleftrightarrow> pa_runtime a \<in> {''cursor'', ''claude''} \<and> (HighRisk \<le> pa_risk a \<longrightarrow> rq_confirm_high_risk request)
     \<and> (case desired_for (rq_plan request) a of
          None \<Rightarrow> True
        | Some d \<Rightarrow> md_secret_refs (me_desired d) = [] \<and> md_allow_tools (me_desired d) = [] \<and> md_deny_tools (me_desired d) = []
            \<and> md_approval_mode (me_desired d) = ManualApproval)"

lemma find_preflight:
  assumes "i < length (pn_actions plan)"
  shows "find (\<lambda>p. pf_action_index p = i) (pr_actions (preflight h now plan))
    = Some (preflight_action (mh_env h) plan (capabilities h now) i (pn_actions plan ! i))"
proof -
  have idx: "pf_action_index (preflight_action env plan snap n a) = n" for env snap n a by (simp add: preflight_action_def Let_def)
  show ?thesis
    unfolding find_Some_iff preflight_def preflight_actions using assms by (intro exI [of _ i]) (auto simp: nth_enumerate_eq idx)
qed

lemma run_action_completes:
  assumes ja: "json_action ae plan i" and rq: "rq_plan request = plan" and h: "mh_env h = ae_env ae"
    and ex: "pf_executable (preflight_action (mh_env h) plan (capabilities h now) i a)" and acc: "accepted request a"
    and a: "a = pn_actions plan ! i" and p: "p = action_config_path (ae_workspace ae) a"
    and new: "\<And>e. e \<in> set (rq_resume_journal request) \<Longrightarrow> je_idempotency_key e \<noteq> idempotency_key (ae_env ae) plan i a"
    and w: "tidy w" "aw_files w (lock_path_of p) = None" "length (case aw_files w p of None \<Rightarrow> [] | Some x \<Rightarrow> x) \<le> max_config_bytes"
    and c: "json_content ae a (desired_for plan a) (case aw_files w p of None \<Rightarrow> [] | Some x \<Rightarrow> x) = Inr c"
  shows "wp (run_action ae request (preflight h now plan) False root empty_loop (i, a))
    (\<lambda>ls w'. map ar_status (ls_results ls) = [StApplied] \<and> aw_files w' p = Some c \<and> tidy w' \<and> aw_files w' (lock_path_of p) = None) w"
proof -
  have i: "i < length (pn_actions plan)" and e: "extension p = Some ''json''" using ja by (auto simp: json_action_def p a)
  note key = preflight_key [OF i h, of now] and f = find_preflight [OF i, of h now]
  have nokey: "find (\<lambda>e. je_idempotency_key e = idempotency_key (ae_env ae) plan i a \<and> P e) (rev (rq_resume_journal request)) = None" for P
    using new by (auto simp: find_None_iff)
  have rec: "recover_resume_state (ae_env ae) (rq_resume_journal request) (idempotency_key (ae_env ae) plan i a) = ret (Inr None)"
    by (simp add: recover_resume_state_def nokey)
  have nb: "\<not> pa_blocked a" "pa_kind a \<notin> {ApprovalRequired, AuthenticationRequired, ManualUnsupported}"
    using ex by (auto simp: preflight_action_def Let_def)
  have aa: "apply_action ae request i a root key = apply_json ae request i a (desired_for plan a) root key" for key
    using nb acc rq by (cases "desired_for plan a") (auto simp: apply_action_def accepted_def Let_def opt_any_def)
  have lock: "lock_path_of p = with_extension p ''json.cocli-mcp.lock''" by (simp add: lock_path_of_def e)
  have fin: "wp (apply_json ae request i a (desired_for plan a) root key)
      (\<lambda>r v'. wp (finish_action p i a key (empty_loop\<lparr>ls_execution := [a]\<rparr>) r) (\<lambda>ls w'. map ar_status (ls_results ls) = [StApplied] \<and> aw_files w' p = Some c \<and> tidy w' \<and> aw_files w' (lock_path_of p) = None) v') v"
    if "tidy v" "aw_files v = aw_files w" for v key
    by (rule wp_mono [OF apply_json_completes [of v p ae a "desired_for plan a" c]])
      (use that w(2,3) c lock e p in \<open>auto simp: finish_action_def empty_loop_def split: option.splits\<close>)
  have el: "ls_source_hashes empty_loop = []" "ls_execution empty_loop = []" by (simp_all add: empty_loop_def)
  show ?thesis
    unfolding run_action_def using w(1) ex
    by (auto simp: Let_def el action_with_chained_source_hash_def rq f p [symmetric] key [folded a] a [symmetric] rec aa
        intro!: wp_mono [OF steady_checkpoint] fin)
qed

lemma refused_action:
  assumes "\<not> accepted request a" "pa_runtime a \<noteq> ''codex''" "\<not> pa_blocked a" "pa_kind a \<notin> {ApprovalRequired, AuthenticationRequired, ManualUnsupported}"
  shows "\<exists>reason. apply_action ae request i a root key = ret (action_result i a StBlocked reason)"
proof (cases "desired_for (rq_plan request) a")
  case None
  then show ?thesis using assms by (auto simp: apply_action_def accepted_def Let_def opt_any_def)
next
  case (Some d)
  then show ?thesis using assms by (auto simp: apply_action_def accepted_def Let_def opt_any_def)
qed

lemma run_action_refused:
  assumes ja: "json_action ae plan i" and rq: "rq_plan request = plan" and h: "mh_env h = ae_env ae"
    and ex: "pf_executable (preflight_action (mh_env h) plan (capabilities h now) i a)" and acc: "\<not> accepted request a"
    and a: "a = pn_actions plan ! i"
    and new: "\<And>e. e \<in> set (rq_resume_journal request) \<Longrightarrow> je_idempotency_key e \<noteq> idempotency_key (ae_env ae) plan i a"
    and w: "tidy w"
  shows "wp (run_action ae request (preflight h now plan) False root empty_loop (i, a))
    (\<lambda>ls w'. map ar_status (ls_results ls) = [StBlocked] \<and> aw_files w' = aw_files w) w"
proof -
  have i: "i < length (pn_actions plan)" and r: "pa_runtime a \<noteq> ''codex''" using ja by (auto simp: json_action_def a)
  note key = preflight_key [OF i h, of now] and f = find_preflight [OF i, of h now]
  have nokey: "find (\<lambda>e. je_idempotency_key e = idempotency_key (ae_env ae) plan i a \<and> P e) (rev (rq_resume_journal request)) = None" for P
    using new by (auto simp: find_None_iff)
  have rec: "recover_resume_state (ae_env ae) (rq_resume_journal request) (idempotency_key (ae_env ae) plan i a) = ret (Inr None)"
    by (simp add: recover_resume_state_def nokey)
  have nb: "\<not> pa_blocked a" "pa_kind a \<notin> {ApprovalRequired, AuthenticationRequired, ManualUnsupported}"
    using ex by (auto simp: preflight_action_def Let_def)
  obtain reason where aa: "apply_action ae request i a root (idempotency_key (ae_env ae) plan i a) = ret (action_result i a StBlocked reason)"
    using refused_action [OF acc r nb] by blast
  have fin: "wp (finish_action p i a key (empty_loop\<lparr>ls_execution := [a]\<rparr>) (action_result i a StBlocked reason))
      (\<lambda>ls w'. map ar_status (ls_results ls) = [StBlocked] \<and> aw_files w' = aw_files w) v"
    if "tidy v" "aw_files v = aw_files w" for v p key
    using that by (auto simp: finish_action_def action_result_def empty_loop_def intro!: wp_mono [OF steady_checkpoint])
  have el: "ls_source_hashes empty_loop = []" "ls_execution empty_loop = []" by (simp_all add: empty_loop_def)
  show ?thesis
    unfolding run_action_def using w ex
    by (auto simp: Let_def el action_with_chained_source_hash_def rq f key [folded a] a [symmetric] rec aa
        intro!: wp_mono [OF steady_checkpoint] fin)
qed

lemma json_case_simps [simp]:
  "jc_ae (json_case_of ae plan i w0) = ae" "jc_action (json_case_of ae plan i w0) = pn_actions plan ! i"
  "jc_desired (json_case_of ae plan i w0) = desired_for plan (pn_actions plan ! i)"
  "jc_path (json_case_of ae plan i w0) = action_config_path (ae_workspace ae) (pn_actions plan ! i)"
  "jc_old (json_case_of ae plan i w0) = aw_files w0 (action_config_path (ae_workspace ae) (pn_actions plan ! i))"
  "jc_key (json_case_of ae plan i w0) = idempotency_key (ae_env ae) plan i (pn_actions plan ! i)"
  by (simp_all add: json_case_of_def Let_def)

lemma json_action_path: "json_action ae plan i \<Longrightarrow> extension (jc_path (json_case_of ae plan i w0)) = Some ''json''"
  by (simp add: json_action_def)

lemma backup_described:
  assumes "attempts ae plan i w0 w" "json_action ae plan i"
    and "\<And>e. e \<in> set (aw_durable w0) \<Longrightarrow> je_idempotency_key e \<noteq> idempotency_key (ae_env ae) plan i (pn_actions plan ! i)"
    and "e \<in> set (aw_durable w)" "je_idempotency_key e = idempotency_key (ae_env ae) plan i (pn_actions plan ! i)" "je_phase e = PhBackedUp" "je_backup e = Some b"
  shows "describes (json_case_of ae plan i w0) (aw_files w) b"
  using attempts_inv [OF assms(1-3)] assms(4-7) by (auto simp: journalled_def mutating_def)

section \<open>Properties\<close>

text \<open>
  C4. Wherever an action on a JSON configuration is interrupted, however often it is resumed from the
  journal that was stored, and whatever fails on the way: its file holds either the bytes from before
  the first attempt, or the one edit that the plan asks for of those bytes. In the second case the
  journal has a backup of the replaced bytes, and the backup file holds them. (The action is the first
  of its runs on this file, and no other program writes the file.)
\<close>

theorem applied_at_most_once:
  assumes "attempts ae plan i w0 w" "json_action ae plan i" "a = pn_actions plan ! i" "p = action_config_path (ae_workspace ae) a"
    and "\<And>e. e \<in> set (aw_durable w0) \<Longrightarrow> je_idempotency_key e \<noteq> idempotency_key (ae_env ae) plan i a"
    and "old = (case aw_files w0 p of None \<Rightarrow> [] | Some x \<Rightarrow> x)"
  shows "aw_files w p = aw_files w0 p
     \<or> (\<exists>c e b. json_content ae a (desired_for plan a) old = Inr c \<and> aw_files w p = Some c
          \<and> e \<in> set (aw_durable w) \<and> je_phase e = PhBackedUp \<and> je_backup e = Some b \<and> bd_source_path b = p
          \<and> aw_files w (bd_backup_path b) = Some old)"
  using attempts_inv [OF assms(1,2)] assms(3-6)
  by (auto simp: journalled_def committed_def untouched_def has_phase_def mutating_def describes_def new_content_def old_bytes_def)

text \<open>
  C5. After any number of interrupted attempts, a rollback from a journalled backup either reports that
  it rolled back, and then the file is as before the first attempt (an empty file may be gone), or it
  reports something else, and then the file is as it found it. This holds whatever fails meanwhile.
\<close>

theorem rollback_restores:
  assumes "attempts ae plan i w0 w" "json_action ae plan i" "a = pn_actions plan ! i" "p = action_config_path (ae_workspace ae) a"
    and "\<And>e. e \<in> set (aw_durable w0) \<Longrightarrow> je_idempotency_key e \<noteq> idempotency_key (ae_env ae) plan i a"
    and "e \<in> set (aw_durable w)" "je_idempotency_key e = idempotency_key (ae_env ae) plan i a" "je_phase e = PhBackedUp" "je_backup e = Some b"
    and run: "run_state (rollback_backup (ae_env ae) ck b) (restart w answers ids) = (r, w')"
  shows "if fst r = StRolledBack then aw_files w' p = aw_files w0 p \<or> aw_files w0 p = Some [] \<and> aw_files w' p = None
         else aw_files w' p = aw_files w p"
proof -
  let ?j = "json_case_of ae plan i w0" and ?w = "restart w answers ids"
  have fresh: "\<And>e. e \<in> set (aw_durable w0) \<Longrightarrow> je_idempotency_key e \<noteq> idempotency_key (ae_env ae) plan i (pn_actions plan ! i)"
    using assms(3,5) by simp
  have w: "aw_files ?w = aw_files w" "aw_durable ?w = aw_durable w" by (simp_all add: restart_def)
  have "committed ?j ?w \<or> untouched ?j ?w" using attempts_inv [OF assms(1,2) fresh] w by (simp add: committed_def untouched_def)
  moreover have "describes ?j (aw_files ?w) b"
    using backup_described [OF assms(1,2) fresh assms(6)] assms(3,7-9) w by simp
  ultimately show ?thesis
    using rollback_once [of ?j ?w b ck, OF _ _ json_action_path [OF assms(2)]] run w assms(3,4)
    by (auto simp: wp_def restored_def split: if_splits)
qed

text \<open>
  C9. Such a rollback ends well when the operating system answers every call, no lock and no temporary
  file is left over.
\<close>

theorem rollback_completes:
  assumes "attempts ae plan i w0 w" "json_action ae plan i" "a = pn_actions plan ! i"
    and "\<And>e. e \<in> set (aw_durable w0) \<Longrightarrow> je_idempotency_key e \<noteq> idempotency_key (ae_env ae) plan i a"
    and "e \<in> set (aw_durable w)" "je_idempotency_key e = idempotency_key (ae_env ae) plan i a" "je_phase e = PhBackedUp" "je_backup e = Some b"
    and "aw_files w (lock_path_of (action_config_path (ae_workspace ae) a)) = None" "\<And>q. q \<in> temporaries \<Longrightarrow> aw_files w q = None"
  shows "fst (fst (run_state (rollback_backup (ae_env ae) ck b) (restart w (\<lambda>_. Go) ids))) = StRolledBack"
proof -
  let ?j = "json_case_of ae plan i w0" and ?w = "restart w (\<lambda>_. Go) ids"
  have fresh: "\<And>e. e \<in> set (aw_durable w0) \<Longrightarrow> je_idempotency_key e \<noteq> idempotency_key (ae_env ae) plan i (pn_actions plan ! i)"
    using assms(3,4) by simp
  have w: "aw_files ?w = aw_files w" "aw_durable ?w = aw_durable w" "tidy ?w"
    using assms(10) by (simp_all add: restart_def tidy_def steady_def)
  have "committed ?j ?w \<or> untouched ?j ?w" using attempts_inv [OF assms(1,2) fresh] w by (simp add: committed_def untouched_def)
  moreover have "describes ?j (aw_files ?w) b"
    using backup_described [OF assms(1,2) fresh assms(5)] assms(3,6-8) w by simp
  ultimately have "wp (rollback_backup (ae_env ae) ck b) (\<lambda>r _. fst r = StRolledBack) ?w"
    using rollback_ends [of ?j ?w b ck] json_action_path [OF assms(2)] assms(3,9) w by simp
  then show ?thesis by (simp add: wp_def case_prod_unfold)
qed

text \<open>
  C8. What becomes of an action on a JSON configuration that preflight lets through, when every system
  call succeeds: with no entry of it in the journal, no lock and no temporary file left over, and an
  edit that is possible. If \<open>apply_action\<close> accepts it (Cursor or Claude, high risk confirmed, no secret
  references, no tool lists, manual approval), it ends as applied, its file holds the edit, and it
  leaves no lock. Otherwise it ends as blocked, and no file changes.
\<close>

theorem executable_action_applied:
  assumes "json_action ae plan i" "rq_plan request = plan" "mh_env h = ae_env ae"
    and "pf_executable (preflight_action (mh_env h) plan (capabilities h now) i a)"
    and "a = pn_actions plan ! i" "p = action_config_path (ae_workspace ae) a"
    and "\<And>e. e \<in> set (rq_resume_journal request) \<Longrightarrow> je_idempotency_key e \<noteq> idempotency_key (ae_env ae) plan i a"
    and "aw_files w (lock_path_of p) = None" "\<And>q. q \<in> temporaries \<Longrightarrow> aw_files w q = None"
    and "old = (case aw_files w p of None \<Rightarrow> [] | Some x \<Rightarrow> x)" "length old \<le> max_config_bytes"
    and "json_content ae a (desired_for plan a) old = Inr c"
    and "run_state (resume_action ae request (preflight h now plan) False root i) (restart w (\<lambda>_. Go) ids) = (ls, w')"
  shows "if accepted request a
         then map ar_status (ls_results ls) = [StApplied] \<and> aw_files w' p = Some c \<and> aw_files w' (lock_path_of p) = None
         else map ar_status (ls_results ls) = [StBlocked] \<and> aw_files w' = aw_files w"
proof -
  define v where "v = (restart w (\<lambda>_. Go) ids)\<lparr>aw_journal := rq_resume_journal request, aw_sequence := max_sequence (rq_resume_journal request)\<rparr>"
  have v: "aw_files v = aw_files w" "tidy v"
    using assms(9) by (simp_all add: v_def restart_def tidy_def steady_def)
  have run: "run_state (run_action ae request (preflight h now plan) False root empty_loop (i, a)) v = (ls, w')"
    using assms(13) assms(2,5) by (simp add: resume_action_def load_journal_def v_def)
  show ?thesis
  proof (cases "accepted request a")
    case True
    with run run_action_completes [OF assms(1-4) True assms(5,6) _ v(2), of c root] assms(7,8,10-12) show ?thesis
      by (simp add: v(1) wp_def)
  next
    case False
    with run run_action_refused [OF assms(1-4) False assms(5) _ v(2), of root] assms(7) show ?thesis
      by (simp add: v(1) wp_def)
  qed
qed

section \<open>A concrete run\<close>

text \<open>A plan that adds a server to a configuration of Cursor that does not exist yet\<close>

definition rec_env :: mcp_env where
  "rec_env = wit_env\<lparr>mv_digest := (\<lambda>s. replicate 32 (if s = [] then CHR ''a'' else CHR ''b''))\<rparr>"

definition rec_host :: mcp_host where
  "rec_host = wit_host\<lparr>mh_env := rec_env\<rparr>"

definition rec_hash :: string where
  "rec_hash = concat (replicate 32 ''61'')"

definition rec_action :: mcp_plan_action where
  "rec_action = (wit_act AddConfigure)\<lparr>pa_expected_source_hash := Some rec_hash,
     pa_evidence := [evidence ''config'' (''configured MCP server; source_sha256='' @ rec_hash) (Some ''/w/.cursor/mcp.json'') False False]\<rparr>"

definition rec_state :: mcp_effective_desired_state where
  "rec_state = (resolve_mcp_desired_state wit_ps wit_layered wit_tgt)\<lparr>st_servers := [wit_eff ''npx'']\<rparr>"

definition rec_plan :: mcp_plan where
  "rec_plan = (wit_plan wit_layered)\<lparr>pn_actions := [rec_action], pn_effective_desired_state := rec_state,
     pn_capability_hash := cs_hash (capabilities rec_host []), pn_plan_hash := ''h''\<rparr>"

definition rec_ae :: apply_env where
  "rec_ae = \<lparr>ae_host = (\<lambda>_. rec_host), ae_env = rec_env, ae_parse = (\<lambda>_. None), ae_pretty = print_json, ae_codex_binary = None, ae_workspace = ''/w'',
     ae_clock = \<lparr>ck_now = ''t'', ck_stale = (\<lambda>_. False)\<rparr>, ae_env_var = (\<lambda>_. None), ae_codex = (\<lambda>_ _. None)\<rparr>"

definition rec_request :: mcp_apply_execution_request where
  "rec_request = \<lparr>rq_run_id = ''r'', rq_plan = rec_plan, rq_actor = ''u'', rq_confirm_high_risk = True,
     rq_capability_hash = cs_hash (capabilities rec_host []), rq_resume_journal = []\<rparr>"

definition rec_world :: apply_world where
  "rec_world = \<lparr>aw_files = (\<lambda>_. None), aw_durable = [], aw_journal = [], aw_sequence = 0, aw_answers = (\<lambda>_. Go), aw_step = 0, aw_halted = False,
     aw_fresh = (\<lambda>n. ''id'' @ digits n), aw_draws = 0\<rparr>"

definition rec_after :: apply_world where
  "rec_after = snd (run_state (resume_action rec_ae rec_request (preflight rec_host [] rec_plan) False ''/b'' 0) (restart rec_world (\<lambda>_. Go) (aw_fresh rec_world)))"

lemma rec_simps [simp]:
  "pn_actions rec_plan = [rec_action]" "rq_plan rec_request = rec_plan" "rq_resume_journal rec_request = []" "ae_env rec_ae = rec_env"
  "mh_env rec_host = rec_env" "ae_workspace rec_ae = ''/w''" "pa_runtime rec_action = ''cursor''" "aw_files rec_world = (\<lambda>_. None)" "aw_durable rec_world = []"
  by (simp_all add: rec_plan_def rec_request_def rec_ae_def rec_host_def rec_action_def wit_act_def rec_world_def)

lemma rec_path [simp]: "action_config_path ''/w'' rec_action = ''/w/.cursor/mcp.json''"
  by (simp add: action_config_path_def rec_action_def evidence_def)

lemma rec_json: "json_action rec_ae rec_plan 0"
  unfolding json_action_def by simp code_simp

lemma rec_content: "\<exists>c. json_content rec_ae rec_action (Some (wit_eff ''npx'')) [] = Inr c"
proof -
  have "case json_content rec_ae rec_action (Some (wit_eff ''npx'')) [] of Inr _ \<Rightarrow> True | Inl _ \<Rightarrow> False" by code_simp
  then show ?thesis by (cases "json_content rec_ae rec_action (Some (wit_eff ''npx'')) []") auto
qed

lemma rec_desired [simp]: "desired_for rec_plan rec_action = Some (wit_eff ''npx'')"
  by (simp add: desired_for_def rec_plan_def rec_state_def rec_action_def wit_act_def wit_eff_def wit_docs_def)

lemma rec_executable: "pf_executable (preflight_action rec_env rec_plan (capabilities rec_host []) 0 rec_action)"
proof -
  have r: "cs_runtimes (capabilities rec_host []) = sort_key rc_runtime (map (runtime_capability rec_host) [''claude'', ''codex'', ''cursor'', ''grok''])"
    unfolding capabilities_def Let_def target_runtimes_fixed by (simp only: mcp_capability_snapshot.simps)
  have "Option.bind (find (\<lambda>c. rc_runtime c = ''cursor'') (sort_key rc_runtime (map (runtime_capability rec_host) [''claude'', ''codex'', ''cursor'', ''grok''])))
      (\<lambda>c. map_option cy_support (map_of (rc_operations c) OpAddConfigure)) = Some Supported" by code_simp
  then obtain c d where c: "find (\<lambda>c. rc_runtime c = ''cursor'') (cs_runtimes (capabilities rec_host [])) = Some c"
    "map_of (rc_operations c) OpAddConfigure = Some d" "cy_support d = Supported"
    unfolding r [symmetric] bind_eq_Some_conv map_option_eq_Some by blast
  have s: "authoritative_source_hash rec_action = Some rec_hash" "pa_expected_source_hash rec_action = Some rec_hash" "pa_kind rec_action = AddConfigure" "\<not> pa_blocked rec_action"
    by code_simp+
  have "cs_hash (capabilities rec_host []) = pn_capability_hash rec_plan" by (simp add: rec_plan_def)
  then show ?thesis using c s by (simp add: preflight_action_def Let_def)
qed

lemma rec_accepted: "accepted rec_request rec_action"
  by (simp add: accepted_def wit_eff_def wit_docs_def) (simp add: rec_request_def)

lemma rec_run:
  "\<exists>ls c. run_state (resume_action rec_ae rec_request (preflight rec_host [] rec_plan) False ''/b'' 0) (restart rec_world (\<lambda>_. Go) (aw_fresh rec_world)) = (ls, rec_after)
     \<and> json_content rec_ae rec_action (Some (wit_eff ''npx'')) [] = Inr c \<and> aw_files rec_after ''/w/.cursor/mcp.json'' = Some c
     \<and> tidy rec_after \<and> aw_files rec_after (lock_path_of ''/w/.cursor/mcp.json'') = None"
proof -
  obtain c where c: "json_content rec_ae rec_action (Some (wit_eff ''npx'')) [] = Inr c" using rec_content by blast
  define v where "v = (restart rec_world (\<lambda>_. Go) (aw_fresh rec_world))\<lparr>aw_journal := [], aw_sequence := max_sequence []\<rparr>"
  have v: "aw_files v = (\<lambda>_. None)" "tidy v" by (simp_all add: v_def restart_def tidy_def steady_def)
  let ?m = "run_action rec_ae rec_request (preflight rec_host [] rec_plan) False ''/b'' empty_loop (0, rec_action)"
  have "run_state (resume_action rec_ae rec_request (preflight rec_host [] rec_plan) False ''/b'' 0) (restart rec_world (\<lambda>_. Go) (aw_fresh rec_world)) = run_state ?m v"
    by (simp add: resume_action_def load_journal_def v_def)
  moreover have "wp ?m (\<lambda>ls w'. map ar_status (ls_results ls) = [StApplied] \<and> aw_files w' ''/w/.cursor/mcp.json'' = Some c \<and> tidy w' \<and> aw_files w' (lock_path_of ''/w/.cursor/mcp.json'') = None) v"
    using run_action_completes [OF rec_json, of rec_request rec_host "[]" rec_action "''/w/.cursor/mcp.json''" v c "''/b''"] rec_executable rec_accepted c v
    by simp
  ultimately show ?thesis using c by (auto simp: rec_after_def wp_def case_prod_unfold prod_eq_iff)
qed

lemma rec_attempt: "attempts rec_ae rec_plan 0 rec_world rec_after"
proof -
  obtain ls where "run_state (resume_action rec_ae rec_request (preflight rec_host [] rec_plan) False ''/b'' 0) (restart rec_world (\<lambda>_. Go) (aw_fresh rec_world)) = (ls, rec_after)"
    using rec_run by blast
  then show ?thesis
    using attempts_again [OF attempts_start, of rec_request rec_plan rec_world rec_host rec_ae "[]" False "''/b''" 0 "\<lambda>_. Go" "aw_fresh rec_world" ls rec_after]
    by simp
qed

lemma rec_backup:
  obtains e b where "e \<in> set (aw_durable rec_after)" "je_idempotency_key e = idempotency_key rec_env rec_plan 0 rec_action" "je_phase e = PhBackedUp" "je_backup e = Some b"
proof -
  let ?j = "json_case_of rec_ae rec_plan 0 rec_world"
  have "journalled ?j rec_after" "committed ?j rec_after \<or> untouched ?j rec_after"
    using attempts_inv [OF rec_attempt rec_json] by simp_all
  moreover have "\<not> untouched ?j rec_after" using rec_run by (auto simp: untouched_def)
  ultimately show thesis using that by (auto simp: committed_def has_phase_def journalled_def mutating_def)
qed

lemma rec_rolls_back:
  assumes "e \<in> set (aw_durable rec_after)" "je_idempotency_key e = idempotency_key rec_env rec_plan 0 rec_action" "je_phase e = PhBackedUp" "je_backup e = Some b"
  shows "fst (fst (run_state (rollback_backup rec_env (ae_clock rec_ae) b) (restart rec_after (\<lambda>_. Go) ids))) = StRolledBack"
proof -
  let ?j = "json_case_of rec_ae rec_plan 0 rec_world" and ?w = "restart rec_after (\<lambda>_. Go) ids"
  have "tidy rec_after" "aw_files rec_after (lock_path_of ''/w/.cursor/mcp.json'') = None" using rec_run by auto
  then have w: "tidy ?w" "aw_files ?w = aw_files rec_after" "aw_durable ?w = aw_durable rec_after" "aw_files ?w (lock_path_of ''/w/.cursor/mcp.json'') = None"
    by (simp_all add: restart_def tidy_def steady_def)
  have "committed ?j ?w \<or> untouched ?j ?w" using attempts_inv [OF rec_attempt rec_json] w by (simp add: committed_def untouched_def)
  moreover have "describes ?j (aw_files ?w) b" using backup_described [OF rec_attempt rec_json _ assms(1)] assms w by simp
  ultimately show ?thesis using rollback_ends [of ?j ?w b] json_action_path [OF rec_json] w by (simp add: wp_def case_prod_unfold)
qed

theorem applied_at_most_once_witness:
  "\<exists>e b. e \<in> set (aw_durable rec_after) \<and> je_backup e = Some b \<and> aw_files rec_after (bd_backup_path b) = Some []"
proof -
  have "aw_files rec_after ''/w/.cursor/mcp.json'' \<noteq> None" using rec_run by auto
  with applied_at_most_once [OF rec_attempt rec_json, of rec_action "''/w/.cursor/mcp.json''" "[]"] show ?thesis by simp blast
qed

theorem rollback_restores_witness:
  "\<exists>b r w'. run_state (rollback_backup rec_env (ae_clock rec_ae) b) (restart rec_after (\<lambda>_. Go) (\<lambda>_. ''x'')) = (r, w') \<and> fst r = StRolledBack
     \<and> aw_files w' ''/w/.cursor/mcp.json'' = None"
proof -
  obtain e b where e: "e \<in> set (aw_durable rec_after)" "je_idempotency_key e = idempotency_key rec_env rec_plan 0 rec_action" "je_phase e = PhBackedUp" "je_backup e = Some b"
    by (rule rec_backup)
  obtain r w' where r: "run_state (rollback_backup rec_env (ae_clock rec_ae) b) (restart rec_after (\<lambda>_. Go) (\<lambda>_. ''x'')) = (r, w')" by fastforce
  moreover have "fst r = StRolledBack" using rec_rolls_back [OF e, of "\<lambda>_. ''x''"] r by simp
  moreover have "aw_files w' ''/w/.cursor/mcp.json'' = None"
    using rollback_restores [OF rec_attempt rec_json, of rec_action "''/w/.cursor/mcp.json''" e b "ae_clock rec_ae" "\<lambda>_. Go" "\<lambda>_. ''x''" r w'] e r calculation(2) by simp
  ultimately show ?thesis by blast
qed

theorem rollback_completes_witness:
  "\<exists>b. fst (fst (run_state (rollback_backup rec_env (ae_clock rec_ae) b) (restart rec_after (\<lambda>_. Go) (\<lambda>_. ''y'')))) = StRolledBack"
proof -
  obtain e b where e: "e \<in> set (aw_durable rec_after)" "je_idempotency_key e = idempotency_key rec_env rec_plan 0 rec_action" "je_phase e = PhBackedUp" "je_backup e = Some b"
    by (rule rec_backup)
  have "tidy rec_after" "aw_files rec_after (lock_path_of ''/w/.cursor/mcp.json'') = None" using rec_run by auto
  then show ?thesis
    using rollback_completes [OF rec_attempt rec_json, of rec_action e b "ae_clock rec_ae" "\<lambda>_. ''y''"] e by (auto simp: tidy_def)
qed

theorem executable_action_applied_witness: "aw_files rec_after ''/w/.cursor/mcp.json'' \<noteq> None"
proof -
  obtain ls c where r: "run_state (resume_action rec_ae rec_request (preflight rec_host [] rec_plan) False ''/b'' 0) (restart rec_world (\<lambda>_. Go) (aw_fresh rec_world)) = (ls, rec_after)"
    and c: "json_content rec_ae rec_action (Some (wit_eff ''npx'')) [] = Inr c" using rec_run by blast
  show ?thesis
    using executable_action_applied [OF rec_json, of rec_request rec_host "[]" rec_action "''/w/.cursor/mcp.json''" rec_world "[]" c "''/b''" "aw_fresh rec_world" ls rec_after]
      rec_executable rec_accepted r c by simp
qed

section \<open>Verification and refusals\<close>

text \<open>
  C12. A verification that reports a match says something about every action: none was skipped, blocked
  or failed, a removed server is not observed as configured, and any other server is observed as
  configured and, where the plan knows it, enabled or disabled as desired.
\<close>

theorem verification_matched:
  assumes "vr_status (verify_plan env plan results inventory) = VsMatched" "r \<in> set results" "a = pn_actions plan ! ar_action_index r"
  shows "ar_status r \<notin> {StSkipped, StBlocked, StFailed}
     \<and> (done_status (ar_status r) \<longrightarrow>
          (if pa_kind a = Remove then \<not> opt_any oi_configured (observed_for inventory plan a)
           else \<exists>o1. observed_for inventory plan a = Some o1 \<and> oi_configured o1
                  \<and> (\<forall>s. desired_for plan a = Some s \<longrightarrow> oi_enabled o1 = Some (md_desired_enabled (me_desired s)))))"
proof -
  have none: "\<forall>x \<in> set results. ar_status x \<notin> {StSkipped, StBlocked, StFailed}"
    and ok: "List.map_filter (\<lambda>r. verify_mismatch inventory plan (pn_actions plan ! ar_action_index r)) (filter (\<lambda>r. done_status (ar_status r)) results) = []"
    using assms(1) by (auto simp: verify_plan_def Let_def filter_empty_conv split: if_splits)
  have "verify_mismatch inventory plan a = None" if "done_status (ar_status r)"
    using ok that assms(2,3) by (auto simp: List.map_filter_def filter_empty_conv)
  then show ?thesis
    using none assms(2)
    by (auto simp: verify_mismatch_def Let_def opt_any_def split: if_splits option.splits)
qed

definition rec_inventory :: mcp_inventory where
  "rec_inventory = (wit_inventory ''t'' [])\<lparr>mi_observations := [(wit_obs ''docs'' [])\<lparr>oi_runtime := ''cursor'', oi_server_id := ''docs'', oi_configured := True, oi_enabled := Some True\<rparr>]\<rparr>"

theorem verification_matched_witness:
  "\<exists>o1. observed_for rec_inventory rec_plan rec_action = Some o1 \<and> oi_enabled o1 = Some True"
proof -
  let ?r = "action_result 0 rec_action StApplied []"
  have m: "verify_mismatch rec_inventory rec_plan rec_action = None"
    by (simp add: verify_mismatch_def Let_def observed_for_def opt_any_def rec_inventory_def wit_eff_def wit_docs_def) (simp add: rec_action_def wit_act_def)
  have "vr_status (verify_plan rec_env rec_plan [?r] rec_inventory) = VsMatched"
    by (simp add: verify_plan_def Let_def action_result_def done_status_def List.map_filter_def m)
  moreover have "pa_kind rec_action = AddConfigure" "md_desired_enabled (me_desired (wit_eff ''npx''))"
    by (simp_all add: rec_action_def wit_act_def wit_eff_def wit_docs_def)
  ultimately show ?thesis
    using verification_matched [of rec_env rec_plan "[?r]" rec_inventory ?r rec_action]
    by (auto simp: action_result_def done_status_def)
qed

text \<open>
  C13. A run whose adapter capabilities are no longer those of the approved plan touches nothing, and
  neither does a run that finds another observation than the planned one, unless it resumes a journal
  in which a write was already under way: no file, no journal entry, and every action is reported as
  blocked. (A resumed run with an entry at or past \<open>backed_up\<close> goes on in spite of a changed observation,
  since its own writes change it.)
\<close>

theorem stale_plan_touches_nothing:
  assumes "h = ae_host ae (aw_files w)"
    and "cs_hash (capabilities h now) \<noteq> pn_capability_hash (rq_plan request)
       \<or> hash_mcp_observation (ae_env ae) (inspect h now) \<noteq> pn_observation_hash (rq_plan request) \<and> \<not> recovering request"
    and "run_state (apply_plan ae request now) w = (result, w')"
  shows "w' = w \<and> (\<forall>r \<in> set (xr_actions result). ar_status r = StBlocked) \<and> length (xr_actions result) = length (pn_actions (rq_plan request))
     \<and> vr_status (xr_verification result) = VsBlocked"
proof -
  have b: "(\<forall>r \<in> set (xr_actions (blocked_execution request x)). ar_status r = StBlocked)
      \<and> length (xr_actions (blocked_execution request x)) = length (pn_actions (rq_plan request))
      \<and> vr_status (xr_verification (blocked_execution request x)) = VsBlocked" for x
    by (auto simp: blocked_execution_def action_result_def)
  have "\<exists>x. run_state (apply_plan ae request now) w = (blocked_execution request x, w)"
    using assms(1,2) by (auto simp: apply_plan_def host_now_def peek_def Let_def)
  with assms(3) b show ?thesis by auto
qed

definition rec_stale :: mcp_apply_execution_request where
  "rec_stale = rec_request\<lparr>rq_plan := rec_plan\<lparr>pn_capability_hash := CHR ''x'' # cs_hash (capabilities rec_host [])\<rparr>\<rparr>"

theorem stale_plan_touches_nothing_witness:
  "snd (run_state (apply_plan rec_ae rec_stale []) rec_world) = rec_world"
proof -
  obtain result w' where r: "run_state (apply_plan rec_ae rec_stale []) rec_world = (result, w')" by fastforce
  have "ae_host rec_ae (aw_files rec_world) = rec_host" "cs_hash (capabilities rec_host []) \<noteq> pn_capability_hash (rq_plan rec_stale)"
    by (simp_all add: rec_ae_def rec_stale_def)
  then show ?thesis
    using stale_plan_touches_nothing [of rec_host rec_ae rec_world "[]" rec_stale result w'] r by simp
qed

section \<open>Findings\<close>

text \<open>
  A lock file that was created and whose marker was never written stays for good: no owner and no
  clock can take it over, whatever the operating system answers.
\<close>

theorem unmarked_lock_blocks:
  "wp (acquire_apply_lock ck p owner) (\<lambda>r w'. aw_files w p = Some [] \<longrightarrow> \<not> r \<and> aw_files w' p = Some []) w"
proof -
  have no: "\<not> may_take_over ck owner (ReadBytes [])" "\<not> may_take_over ck owner (ReadError e)" for e
    by (simp_all add: may_take_over_def second_line_def rust_lines_def)
  show ?thesis
  proof (cases "aw_files w p = Some []")
    case True
    then show ?thesis by (auto simp: acquire_apply_lock_def numeral_2_eq_2 no core_def intro!: wp_read)
  qed (simp add: wp_def split: prod.split)
qed

theorem failed_marker_leaves_unmarked_lock:
  assumes "aw_files w p = None" "\<not> aw_halted w" "aw_answers w (aw_step w) = Go" "aw_answers w (aw_step w + 1) \<noteq> Go"
  shows "wp (acquire_apply_lock ck p owner) (\<lambda>r w'. \<not> r \<and> aw_files w' p = Some []) w"
  using assms
  by (cases "aw_answers w (Suc (aw_step w))")
    (simp_all add: acquire_apply_lock_def numeral_2_eq_2 wp_def create_new_def peek_def attempt_def draw_def write_all_def case_prod_unfold)

text \<open>The backup of a Codex configuration, and that of the workspace file of Claude, are labelled as Cursor's.\<close>

theorem codex_backup_labelled_cursor:
  "runtime_for_path (action_config_path ''/w'' (rec_action\<lparr>pa_runtime := ''codex'', pa_evidence := []\<rparr>)) = ''cursor''
   \<and> runtime_for_path (action_config_path ''/w'' (rec_action\<lparr>pa_runtime := ''claude'', pa_evidence := []\<rparr>)) = ''cursor''"
  by code_simp

end
