(* ===== verification/Sha256Spec.thy ===== *)
theory Sha256Spec
  imports Complex_Main Sha256
begin

unbundle bit_operations_syntax

text \<open>
  SHA-256 as the standard (FIPS 180-4) defines it, written independently of the code's \<open>Sha256\<close>: the
  constants as the fractional parts of square and cube roots of primes, the message words
  and the message schedule as functions of an index, the working variables and the hash values by
  recursion on the round and on the block. The theorem is that \<open>sha256_hex\<close>, with its tables, its
  growing schedule vector and its loops, computes this function.
\<close>

section \<open>The standard\<close>

text \<open>The first 64 primes, by trial division: a composite number below 18 * 18 has a divisor from 2 to 17.\<close>

definition fips_primes :: "int list" where
  "fips_primes = filter (\<lambda>p. list_all (\<lambda>d. d < p \<longrightarrow> p mod d \<noteq> 0) [2..17]) [2..311]"

text \<open>The first 32 bits of the fractional part: the word drops the integral part.\<close>

definition fips_h0 :: "nat \<Rightarrow> 32 word" where
  "fips_h0 j = word_of_int \<lfloor>sqrt (real_of_int (fips_primes ! j)) * 2 ^ 32\<rfloor>"

definition fips_k :: "nat \<Rightarrow> 32 word" where
  "fips_k t = word_of_int \<lfloor>root 3 (real_of_int (fips_primes ! t)) * 2 ^ 32\<rfloor>"

definition fips_rotr :: "nat \<Rightarrow> 32 word \<Rightarrow> 32 word" where
  "fips_rotr n x = drop_bit n x OR push_bit (32 - n) x"

definition fips_Ch :: "32 word \<Rightarrow> 32 word \<Rightarrow> 32 word \<Rightarrow> 32 word" where
  "fips_Ch x y z = (x AND y) XOR (NOT x AND z)"

definition fips_Maj :: "32 word \<Rightarrow> 32 word \<Rightarrow> 32 word \<Rightarrow> 32 word" where
  "fips_Maj x y z = (x AND y) XOR (x AND z) XOR (y AND z)"

definition fips_S0 :: "32 word \<Rightarrow> 32 word" where
  "fips_S0 x = fips_rotr 2 x XOR fips_rotr 13 x XOR fips_rotr 22 x"

definition fips_S1 :: "32 word \<Rightarrow> 32 word" where
  "fips_S1 x = fips_rotr 6 x XOR fips_rotr 11 x XOR fips_rotr 25 x"

definition fips_s0 :: "32 word \<Rightarrow> 32 word" where
  "fips_s0 x = fips_rotr 7 x XOR fips_rotr 18 x XOR drop_bit 3 x"

definition fips_s1 :: "32 word \<Rightarrow> 32 word" where
  "fips_s1 x = fips_rotr 17 x XOR fips_rotr 19 x XOR drop_bit 10 x"

text \<open>
  The padded message of 8-bit characters: a one bit, the least number of zero bits that
  leaves 64 to a multiple of 512, and the length in bits, 64 bits long.
\<close>

definition fips_message :: "string \<Rightarrow> string" where
  "fips_message s = s @ [CHR 0x80] @ replicate (nat ((55 - int (length s)) mod 64)) (CHR 0x00)
     @ map (\<lambda>i. char_of (8 * length s div 256 ^ (7 - i))) [0..<8]"

definition fips_M :: "string \<Rightarrow> nat \<Rightarrow> nat \<Rightarrow> 32 word" where
  "fips_M bs i t = word_of_nat (\<Sum>j<4. of_char (bs ! (64 * i + 4 * t + j)) * 256 ^ (3 - j))"

fun fips_W :: "(nat \<Rightarrow> 32 word) \<Rightarrow> nat \<Rightarrow> 32 word" where
  "fips_W M t = (if t < 16 then M t
     else fips_s1 (fips_W M (t - 2)) + fips_W M (t - 7) + fips_s0 (fips_W M (t - 15)) + fips_W M (t - 16))"

declare fips_W.simps [simp del]

text \<open>The working variables \<open>a\<close> to \<open>h\<close>, numbered 0 to 7, after \<open>t\<close> rounds.\<close>

fun fips_vars :: "(nat \<Rightarrow> 32 word) \<Rightarrow> (nat \<Rightarrow> 32 word) \<Rightarrow> nat \<Rightarrow> nat \<Rightarrow> 32 word" where
  "fips_vars H W 0 = H"
| "fips_vars H W (Suc t) =
     (let v = fips_vars H W t;
          T1 = v 7 + fips_S1 (v 4) + fips_Ch (v 4) (v 5) (v 6) + fips_k t + W t;
          T2 = fips_S0 (v 0) + fips_Maj (v 0) (v 1) (v 2)
      in (\<lambda>j. if j = 0 then T1 + T2 else if j = 4 then v 3 + T1 else v (j - 1)))"

fun fips_H :: "(nat \<Rightarrow> nat \<Rightarrow> 32 word) \<Rightarrow> nat \<Rightarrow> nat \<Rightarrow> 32 word" where
  "fips_H M 0 = fips_h0"
| "fips_H M (Suc i) = (\<lambda>j. fips_vars (fips_H M i) (fips_W (M i)) 64 j + fips_H M i j)"

text \<open>The digest, written with four bits per hexadecimal digit, most significant first.\<close>

definition fips_hex :: "32 word \<Rightarrow> string" where
  "fips_hex w = map (\<lambda>i. ''0123456789abcdef'' ! unat (drop_bit (28 - 4 * i) w AND 15)) [0..<8]"

definition fips_sha256 :: "string \<Rightarrow> string" where
  "fips_sha256 s = (let bs = fips_message s
     in concat (map (\<lambda>j. fips_hex (fips_H (fips_M bs) (length bs div 64) j)) [0..<8]))"

section \<open>Constants\<close>

lemma fips_primes_list:
  "fips_primes = [2, 3, 5, 7, 11, 13, 17, 19, 23, 29, 31, 37, 41, 43, 47, 53, 59, 61, 67, 71, 73, 79, 83, 89, 97, 101,
     103, 107, 109, 113, 127, 131, 137, 139, 149, 151, 157, 163, 167, 173, 179, 181, 191, 193, 197, 199, 211, 223,
     227, 229, 233, 239, 241, 251, 257, 263, 269, 271, 277, 281, 283, 293, 307, 311]"
  by code_simp

lemma floor_root:
  assumes "0 < n" "0 \<le> r" "r ^ n \<le> p * 2 ^ (32 * n)" "p * 2 ^ (32 * n) < (r + 1) ^ n"
  shows "\<lfloor>root n (real_of_int p) * 2 ^ 32\<rfloor> = r"
proof -
  have e: "root n (real_of_int p) * 2 ^ 32 = root n (real_of_int p * 2 ^ (32 * n))"
    using assms(1) by (simp add: real_root_mult power_mult real_root_power_cancel real_root_pos2)
  have "real_of_int (r ^ n) \<le> real_of_int (p * 2 ^ (32 * n))" using assms(3) by (rule of_int_le_iff [THEN iffD2])
  then have "root n (real_of_int r ^ n) \<le> root n (real_of_int p * 2 ^ (32 * n))" using assms(1) by (simp add: real_root_le_iff)
  moreover have "real_of_int (p * 2 ^ (32 * n)) < real_of_int ((r + 1) ^ n)" using assms(4) by (rule of_int_less_iff [THEN iffD2])
  then have "root n (real_of_int p * 2 ^ (32 * n)) < root n (real_of_int (r + 1) ^ n)" using assms(1) by (simp add: real_root_less_iff)
  ultimately show ?thesis
    using assms(1,2) unfolding e by (intro floor_unique) (simp_all add: real_root_power_cancel real_root_pos2)
qed

text \<open>Both tables, checked against integer roots.\<close>

definition root_bits :: "nat \<Rightarrow> int \<Rightarrow> int \<Rightarrow> 32 word \<Rightarrow> bool" where
  "root_bits n p r w \<longleftrightarrow> 0 \<le> r \<and> r ^ n \<le> p * 2 ^ (32 * n) \<and> p * 2 ^ (32 * n) < (r + 1) ^ n \<and> w = word_of_int r"

lemma root_bits_floor: "root_bits n p r w \<Longrightarrow> 0 < n \<Longrightarrow> word_of_int \<lfloor>root n (real_of_int p) * 2 ^ 32\<rfloor> = w"
  unfolding root_bits_def by (metis floor_root)

definition square_roots :: "int list" where
  "square_roots = [0x16a09e667, 0x1bb67ae85, 0x23c6ef372, 0x2a54ff53a, 0x3510e527f, 0x39b05688c, 0x41f83d9ab, 0x45be0cd19]"

definition cube_roots :: "int list" where
  "cube_roots = [0x1428a2f98, 0x171374491, 0x1b5c0fbcf, 0x1e9b5dba5, 0x23956c25b, 0x259f111f1, 0x2923f82a4, 0x2ab1c5ed5,
     0x2d807aa98, 0x312835b01, 0x3243185be, 0x3550c7dc3, 0x372be5d74, 0x380deb1fe, 0x39bdc06a7, 0x3c19bf174,
     0x3e49b69c1, 0x3efbe4786, 0x40fc19dc6, 0x4240ca1cc, 0x42de92c6f, 0x44a7484aa, 0x45cb0a9dc, 0x476f988da,
     0x4983e5152, 0x4a831c66d, 0x4b00327c8, 0x4bf597fc7, 0x4c6e00bf3, 0x4d5a79147, 0x506ca6351, 0x514292967,
     0x527b70a85, 0x52e1b2138, 0x54d2c6dfc, 0x553380d13, 0x5650a7354, 0x5766a0abb, 0x581c2c92e, 0x592722c85,
     0x5a2bfe8a1, 0x5a81a664b, 0x5c24b8b70, 0x5c76c51a3, 0x5d192e819, 0x5d6990624, 0x5f40e3585, 0x6106aa070,
     0x619a4c116, 0x61e376c08, 0x62748774c, 0x634b0bcb5, 0x6391c0cb3, 0x64ed8aa4a, 0x65b9cca4f, 0x6682e6ff3,
     0x6748f82ee, 0x678a5636f, 0x684c87814, 0x68cc70208, 0x690befffa, 0x6a4506ceb, 0x6bef9a3f7, 0x6c67178f2]"

lemma square_roots_ok: "list_all (\<lambda>((p, r), w). root_bits 2 p r w) (zip (zip fips_primes square_roots) sha_initial)"
  unfolding fips_primes_list by code_simp

lemma cube_roots_ok: "list_all (\<lambda>((p, r), w). root_bits 3 p r w) (zip (zip fips_primes cube_roots) sha_k)"
  unfolding fips_primes_list by code_simp

lemma table_lengths: "length fips_primes = 64" "length square_roots = 8" "length cube_roots = 64" "length sha_initial = 8" "length sha_k = 64"
  by (simp_all add: fips_primes_list square_roots_def cube_roots_def sha_initial_def sha_k_def)

lemma sha_initial_fips: "sha_initial = map fips_h0 [0..<8]"
proof (rule nth_equalityI)
  fix j assume "j < length sha_initial"
  then have "root_bits 2 (fips_primes ! j) (square_roots ! j) (sha_initial ! j)"
    using square_roots_ok by (simp add: list_all_length table_lengths)
  then show "sha_initial ! j = map fips_h0 [0..<8] ! j"
    using root_bits_floor [of 2] \<open>j < _\<close> by (simp add: fips_h0_def sqrt_def table_lengths)
qed (simp add: table_lengths)

lemma sha_k_fips: "sha_k = map fips_k [0..<64]"
proof (rule nth_equalityI)
  fix t assume "t < length sha_k"
  then have "root_bits 3 (fips_primes ! t) (cube_roots ! t) (sha_k ! t)"
    using cube_roots_ok by (simp add: list_all_length table_lengths)
  then show "sha_k ! t = map fips_k [0..<64] ! t"
    using root_bits_floor [of 3] \<open>t < _\<close> by (simp add: fips_k_def table_lengths)
qed (simp add: table_lengths)

section \<open>Padding and message words\<close>

lemma pad_count_fips: "pad_count (Suc n) = nat ((55 - int n) mod 64)"
proof -
  define r where "r = n mod 64"
  have r: "r < 64" "(55 - int n) mod 64 = (55 - int r) mod 64" by (simp_all add: r_def zmod_int mod_diff_right_eq)
  show ?thesis
  proof (cases "r \<le> 55")
    case True
    then show ?thesis using r by (simp add: pad_count_def mod_Suc r_def)
  next
    case False
    have "(55 - int r) mod 64 = (119 - int r) mod 64" using mod_add_self2 [of "55 - int r" 64] by simp
    with False r show ?thesis by (auto simp: pad_count_def mod_Suc simp flip: r_def)
  qed
qed

lemma char_of_int: "(char_of (int n) :: char) = char_of n"
  by (simp add: char_of_def bit_of_nat_iff_bit)

lemma be_bytes_fips: "be_bytes 8 (int n) = map (\<lambda>i. char_of (n div 256 ^ (7 - i))) [0..<8]"
proof -
  have "(char_of (int n div 256 ^ i) :: char) = char_of (n div 256 ^ i)" for i
    using char_of_int [of "n div 256 ^ i"] by (simp add: zdiv_int)
  then show ?thesis by (simp add: be_bytes_def upt_rec)
qed

lemma sha_pad_fips: "length s < 2 ^ 61 \<Longrightarrow> sha_pad s = fips_message s"
  using bit_length [of "length s"] be_bytes_fips [of "8 * length s"]
  by (simp add: sha_pad_def fips_message_def pad_zeros_eq pad_count_fips)

lemma chunks_exact_nth: "0 < n \<Longrightarrow> chunks_exact n xs = map (\<lambda>i. take n (drop (n * i) xs)) [0..<length xs div n]"
proof (induction n xs rule: chunks_exact.induct)
  case (1 n xs)
  show ?case
  proof (cases "length xs < n")
    case True
    then show ?thesis by (simp add: chunks_exact.simps)
  next
    case False
    with 1 have l: "length xs div n = Suc (length (drop n xs) div n)" by (simp add: le_div_geq)
    have "chunks_exact n xs = take n xs # chunks_exact n (drop n xs)"
      using False 1 by (subst chunks_exact.simps) simp
    also have "\<dots> = take n xs # map (\<lambda>i. take n (drop (n * Suc i) xs)) [0..<length (drop n xs) div n]"
      using False 1 by (simp add: add.commute)
    also have "\<dots> = map (\<lambda>i. take n (drop (n * i) xs)) [0..<length xs div n]"
      unfolding l by (simp add: map_upt_Suc del: upt_Suc)
    finally show ?thesis .
  qed
qed

lemma sum_four: "(\<Sum>j<4. f j) = f 0 + f 1 + f 2 + f 3" for f :: "nat \<Rightarrow> nat"
  by (simp add: numeral_eq_Suc)

lemma be_words_nth:
  "length cs = 4 * n \<Longrightarrow> be_words cs = map (\<lambda>t. word_of_nat (\<Sum>j<4. of_char (cs ! (4 * t + j)) * 256 ^ (3 - j))) [0..<n]"
  unfolding sum_four
proof (induction cs arbitrary: n rule: be_words.induct)
  case (1 a b c d cs)
  then obtain m where n: "n = Suc m" and m: "length cs = 4 * m" by (cases n) auto
  have "(word_of_int (of_char x) :: 32 word) = word_of_nat (of_char x)" for x :: char
    by (simp only: of_nat_of_char of_int_of_char)
  with "1.IH" [OF m] show ?case unfolding n by (simp add: map_upt_Suc algebra_simps del: upt_Suc)
qed auto

lemma be_words_chunk:
  assumes "length bs = 64 * n" "i < n"
  shows "be_words (take 64 (drop (64 * i) bs)) = map (fips_M bs i) [0..<16]"
proof -
  have "64 * i + 64 \<le> length bs" using assms by simp
  then show ?thesis
    using be_words_nth [of "take 64 (drop (64 * i) bs)" 16] by (simp add: fips_M_def add.assoc)
qed

section \<open>Schedule and rounds\<close>

lemma fips_rotr_eq: "n < 32 \<Longrightarrow> fips_rotr n w = word_rotr n w"
proof (rule bit_word_eqI)
  fix i assume "n < 32" "i < LENGTH(32)"
  then have "(i + n) mod 32 = (if i + n < 32 then i + n else i + n - 32)" by (simp add: mod_if)
  moreover have "\<not> bit w (n + i)" if "\<not> i + n < 32" using that bit_imp_le_length [of w "n + i"] by auto
  ultimately show "bit (fips_rotr n w) i = bit (word_rotr n w) i"
    using \<open>n < 32\<close> \<open>i < LENGTH(32)\<close> by (auto simp: fips_rotr_def bit_simps add.commute)
qed

lemma sigma_fips: "sigma_0 w = fips_s0 w" "sigma_1 w = fips_s1 w"
  by (simp_all add: sigma_0_def sigma_1_def fips_s0_def fips_s1_def fips_rotr_eq)

lemma schedule_fips: "16 \<le> k \<Longrightarrow> schedule n (map (fips_W M) [0..<k]) = map (fips_W M) [0..<k + n]"
proof (induction n arbitrary: k)
  case (Suc n)
  then have "map (fips_W M) [0..<k] @ [fips_W M k] = map (fips_W M) [0..<Suc k]" by simp
  moreover have "fips_W M k = fips_W M (k - 16) + fips_s0 (fips_W M (k - 15)) + fips_W M (k - 7) + fips_s1 (fips_W M (k - 2))"
    using Suc.prems by (subst fips_W.simps) (simp add: ac_simps)
  ultimately show ?case using Suc.IH [of "Suc k"] Suc.prems by (simp add: sigma_fips Let_def del: upt_Suc)
qed simp

definition fips_regs :: "(nat \<Rightarrow> 32 word) \<Rightarrow> sha_regs" where
  "fips_regs v = (v 0, v 1, v 2, v 3, v 4, v 5, v 6, v 7)"

lemma sha_rounds_fips:
  "foldl sha_round (fips_regs H) (zip (map fips_k [0..<n]) (map W [0..<n])) = fips_regs (fips_vars H W n)"
proof (induction n)
  case (Suc n)
  then show ?case
    by (simp add: Let_def fips_regs_def fips_S0_def fips_S1_def fips_Ch_def fips_Maj_def fips_rotr_eq)
qed (simp add: fips_regs_def)

lemma sha_chunk_fips:
  assumes "be_words chunk = map M [0..<16]"
  shows "sha_chunk (map H [0..<8]) chunk = map (\<lambda>j. fips_vars H (fips_W M) 64 j + H j) [0..<8]"
proof -
  have "map M [0..<16] = map (fips_W M) [0..<16]" by (simp add: fips_W.simps)
  with assms have "be_words chunk = map (fips_W M) [0..<16]" by (rule trans)
  then have "schedule 48 (be_words chunk) = map (fips_W M) [0..<64]" using schedule_fips [of 16 48 M] by simp
  moreover have "sha_regs (map H [0..<8]) = fips_regs H" by (simp add: sha_regs_def fips_regs_def numeral_2_eq_2)
  ultimately have "sha_chunk (map H [0..<8]) chunk = sha_add (map H [0..<8]) (fips_regs (fips_vars H (fips_W M) 64))"
    by (simp only: sha_chunk_def sha_k_fips sha_rounds_fips)
  moreover have "sha_add (map H [0..<8]) (fips_regs v) = map (\<lambda>j. v j + H j) [0..<8]" for v
    by (simp add: fips_regs_def upt_rec add.commute numeral_eq_Suc)
  ultimately show ?thesis by (simp only:)
qed

lemma sha_chunks_fips:
  assumes "length bs = 64 * n" "m \<le> n"
  shows "foldl sha_chunk sha_initial (map (\<lambda>i. take 64 (drop (64 * i) bs)) [0..<m]) = map (fips_H (fips_M bs) m) [0..<8]"
  using assms(2)
proof (induction m)
  case (Suc m)
  then have "be_words (take 64 (drop (64 * m) bs)) = map (fips_M bs m) [0..<16]" by (intro be_words_chunk [OF assms(1)]) simp
  with Suc show ?case by (simp add: sha_chunk_fips)
qed (simp add: sha_initial_fips)

section \<open>The digest\<close>

lemma hex_digits_fips: "nat (uint w div 16 ^ i mod 16) = unat (drop_bit (4 * i) w AND 15)" for w :: "32 word"
proof -
  have "uint w mod 2 ^ 32 = uint w" using uint_lt2p [of w] by simp
  moreover have "drop_bit (4 * i) w AND 15 = take_bit 4 (drop_bit (4 * i) w)" by (simp add: take_bit_eq_mask mask_eq_exp_minus_1)
  ultimately have "uint (drop_bit (4 * i) w AND 15) = uint w div 2 ^ (4 * i) mod 2 ^ 4"
    by (simp only: unsigned_take_bit_eq unsigned_drop_bit_eq) (simp add: drop_bit_eq_div take_bit_eq_mod)
  then show ?thesis unfolding unat_eq_nat_uint by (simp add: power_mult)
qed

lemma hex_word_fips: "hex_word w = fips_hex w"
proof -
  have "rev [0..<8] = map (\<lambda>i. 7 - i) [0..<8 :: nat]" by (simp add: upt_rec)
  moreover have "28 - 4 * i = 4 * (7 - i)" for i :: nat by simp
  ultimately show ?thesis unfolding hex_word_def fips_hex_def hex_digit_def hex_digits_fips by simp
qed

text \<open>
  C40. For every input shorter than 2 to the 61 bytes (longer ones are outside the standard) \<open>sha256_hex\<close> is
  SHA-256 as FIPS 180-4 defines it: the padding, the two tables of constants (square and cube roots of the first
  primes), the message schedule, the 64 rounds, the chaining of blocks and the hexadecimal digest.
\<close>

theorem sha256_hex_is_fips:
  assumes "length s < 2 ^ 61"
  shows "sha256_hex s = fips_sha256 s"
proof -
  let ?bs = "fips_message s"
  have "length ?bs = 64 * (length ?bs div 64)"
    using sha_pad_length [of s] sha_pad_fips [OF assms] by (metis add.right_neutral mult_div_mod_eq)
  from sha_chunks_fips [OF this order_refl] show ?thesis
    by (simp add: sha256_hex_def fips_sha256_def chunks_exact_nth sha_pad_fips [OF assms] hex_word_fips comp_def Let_def)
qed

text \<open>C40 at the input of the repository's own test, whose digest is the published vector.\<close>

theorem sha256_hex_is_fips_witness:
  "fips_sha256 ''abc'' = ''ba7816bf8f01cfea414140de5dae2223b00361a396177a9cb410ff61f20015ad''"
  using sha256_hex_is_fips [of "''abc''"] by (simp add: sha256_matches_the_standard_vector)

end
