(* ===== verification/Spec2Isabelle.thy ===== *)
theory Spec2Isabelle
  imports Router Actor Watchdog Recovery Coordinator StoreMemory GovSystem MaterialSystem SkillDrift McpRecovery Sha256Spec
begin

text \<open>
  \<^bold>\<open>Verification development for cocli\<close>, a local collaboration server that runs coding agents
  (Claude, Codex, Gemini and others) as child processes, delivers channel messages to them, keeps
  everything in a SQLite database and governs the skills installed for them.

  \<^bold>\<open>The program and how its parts meet.\<close> A user message is stored in a channel and fanned out into one
  durable delivery per subscribed agent, in one transaction (\<open>crates/cocli-store/src/lib.rs\<close>). The
  delivery coordinator of the HTTP service (\<open>crates/cocli-api/src/lib.rs\<close>) reserves due deliveries,
  tries the runtime of each agent and stores the outcome: completed, deferred with backoff, or
  exhausted. On the daemon side the router (\<open>crates/cocli-agent/src/router.rs\<close>) owns one mailbox per
  agent and a bounded in-memory queue for agents that are not ready; an actor
  (\<open>crates/cocli-agent/src/actor.rs\<close>) owns the process of one agent, writes bundles of deliveries to it
  and reports turns, sessions and acknowledgements. A watchdog restarts failed agents within a budget
  and the recovery store probes agents that ran out of quota. Agents read and write memory documents
  and tasks through the store. Skill governance (\<open>crates/cocli-store/src/skill_governance.rs\<close>) keeps
  profiles, plans, scoped leases, a journal of apply runs, managed artifacts and what is installed
  where; its pure core (\<open>crates/cocli-api/src/skill_governance.rs\<close>) resolves the layers of profiles
  into the skills an agent should have, compares them with what is found on disk and plans the
  repair. MCP governance (\<open>crates/cocli-driver-core/src/mcp_governance.rs\<close>) does the same for the MCP servers
  in the configuration files of the runtimes; the server side of it (\<open>crates/cocli-server/src/mcp.rs\<close>) reads
  those files and the probes into an inventory, checks a plan before it runs, edits the files under a
  lock with a backup and a durable journal, resumes a run that was interrupted, verifies what it did and
  rolls it back.

  \<^bold>\<open>Theories and sources.\<close>
  \<^item> \<open>Prelude\<close>: base types, \<open>HashMap\<close> as an association list with distinct keys, saturating
    arithmetic, reachability, and the interface locales \<open>invariant_system\<close> (a step relation with an
    invariant), \<open>keyed_store\<close> (a table whose operations touch one key) and \<open>wire_codec\<close> (an enum
    with its persisted spelling). \<open>RustStr\<close>: the string functions of the standard library on UTF-8 bytes.
  \<^item> \<open>Protocol\<close> (\<open>crates/cocli-protocol\<close>, \<open>cocli-driver-core/src/event.rs\<close>): messages and driver events.
  \<^item> \<open>DeliveryQueue\<close> (\<open>queue.rs\<close>), \<open>Metrics\<close> (\<open>metrics.rs\<close>), \<open>WorkingMemory\<close> (\<open>working.rs\<close>),
    \<open>Workspace\<close> (\<open>workspace.rs\<close>), \<open>AgentText\<close> (\<open>format.rs\<close>, \<open>fork_reason.rs\<close>, \<open>prompt.rs\<close>),
    \<open>AgentTypes\<close>, \<open>Router\<close>, \<open>Actor\<close>, \<open>Watchdog\<close>, \<open>Recovery\<close>: the agent crate, one theory per file.
  \<^item> \<open>StoreTypes\<close>, \<open>StoreDelivery\<close>, \<open>StoreTasks\<close>, \<open>StoreChannels\<close>: tables as lists of rows and one
    definition per method of \<open>Store\<close>; \<open>StoreSystem\<close>: all of them as one step relation with the
    invariant of the database; \<open>StoreMemory\<close> (\<open>memory.rs\<close>): memory documents.
  \<^item> \<open>Coordinator\<close>: the delivery coordinator over the store, with an abstract round it refines.
  \<^item> \<open>GovTypes\<close>, \<open>SkillGovernance\<close>, \<open>GovSystem\<close>: skill governance; the locale \<open>cas_table\<close> states what
    compare-and-swap on a version column gives and is interpreted for plans, leases, runs and actions.
    \<open>GovMaterial\<close>, \<open>MaterialSystem\<close>: managed artifacts, materializations, adoption, lockfiles and
    garbage collection, and their methods as one step relation.
  \<^item> \<open>SortedMap\<close> (\<open>BTreeMap\<close> and \<open>sort_by\<close>), \<open>Json\<close> (\<open>serde_json::Value\<close>), \<open>Sha256\<close>
    (the digest, and the hashes built on it): shared by the two governance cores. \<open>Sha256Spec\<close>: SHA-256 as
    the standard defines it, which the code's routine equals.
  \<^item> \<open>SkillDesired\<close>, \<open>SkillDrift\<close>: desired state, lockfile, drift and plans of skills.
  \<^item> \<open>McpTypes\<close>, \<open>McpDesired\<close>, \<open>McpPlan\<close>: data, validation, layered resolution, hashes and plans of
    MCP servers.
  \<^item> \<open>McpConfig\<close> (\<open>mcp.rs\<close>): reading a server out of a configuration file, redaction, and the edit of a
    JSON document that one plan action asks for. \<open>McpInventory\<close>: discovery, aggregation, diagnostics,
    capabilities and preflight. \<open>McpWorld\<close>: the world of an apply run, files, durable journal and the
    answers of the operating system, in which every call may fail or be the last; locks, atomic
    writes, backups, checkpoints. \<open>McpApply\<close>: apply, resume, rollback and verification. \<open>McpRecovery\<close>: what
    they promise over any number of interrupted attempts.

  \<^bold>\<open>Conventions.\<close> A Rust struct is a record, an enum a datatype; a method that writes returns an error
  or a result with the new state (\<open>error + ('a \<times> state)\<close>), and an error leaves no new state, as a
  rolled-back transaction does. What a method draws (fresh identifiers, clock readings, random
  numbers) is an argument. A statement of SQL is the list function it denotes: \<open>update_rows\<close>, \<open>filter\<close>,
  \<open>sort_key\<close>; unique indexes, foreign keys and \<open>CHECK\<close> clauses are the guards that return \<open>constraint\<close>.
  A method that reads outside the transaction in which it writes is split into the two parts, so that
  what other callers do in between can be stated. Counters of the metrics are 64-bit words; row
  counters are unbounded integers, far from the 63 bits of SQLite. Locks are never poisoned: no
  modelled critical section panics.

  \<^bold>\<open>What runs at the same time.\<close> In \<open>store_step\<close> and \<open>task_step\<close> each method call runs alone. Where the code
  spreads a call over several statements and a property speaks of overlapping calls, the statements
  are steps of their own: claims of tasks, additions of task dependencies (\<open>dep_step\<close>, at most one
  under way per channel; overlapping ones can store a cycle, \<open>overlapping_dependencies_cycle\<close>),
  transitions of governance runs (\<open>GovSystem\<close>) and writes to materializations (\<open>MaterialSystem\<close>, whose
  writers pass the methods' own checks on a state that may be out of date). \<open>McpRecovery\<close> follows one action
  of a plan through interruptions, with no earlier action of the run on the same file and no other writer of it.

  \<^bold>\<open>Parameters.\<close> Code outside the repository is an argument: runtime drivers and process input and
  output (answers of the environment), the file system, \<open>chrono\<close> formatting, \<open>uuid\<close> printing, the
  \<open>url\<close> crate and path canonicalization (record \<open>gov_env\<close>), the printer of \<open>serde_json\<close> and the digest
  of \<open>sha2\<close> (record \<open>mcp_env\<close>), the host that MCP discovery asks (record \<open>mcp_host\<close>), and what surrounds an
  apply run: the clock, environment variables and the command line of Codex (records \<open>clock\<close> and
  \<open>apply_env\<close>). The checkpoint sink of a run is assumed to store what it accepts while the run is
  open and nothing when it fails. What a property needs of them is a named hypothesis (\<open>chrono_ok\<close>,
  \<open>uuid_printing\<close>, \<open>compact_json\<close>), with an instance in the property's witness. Numbers inside JSON
  values are integers that no definition inspects.

  \<^bold>\<open>What the lemmas show.\<close>
  \<^item> Router and queue: in every reachable state the registry, the mailboxes and the queue agree and
    bounds hold; a delivery that the router accepts is sent or kept, in order, and agents do not
    influence each other.
  \<^item> Actor: over whole runs of the loop the receipts are exactly those of the deliveries taken, in
    order, acknowledged when and only when written; turns are reported without loss.
  \<^item> Watchdog, recovery, working memory, workspace: restart and probe budgets, isolation of agents,
    paths never leave the workspace.
  \<^item> Store: an invariant of the whole database over all interleavings of its methods; fan-out,
    reservation, completion and inbox consumption without loss or duplication; acyclic task
    dependencies unless additions overlap, exclusive claims, final states; fresh memory indexes and optimistic locking.
  \<^item> Coordinator: each poll refines an abstract round of the store, every coordinator run is a run of
    the store, and polls are bounded by the retry budget.
  \<^item> Governance: complete audit trails, exclusive leases with fencing of former holders, idempotent
    run creation, and linearizability of overlapping run transitions; rows of files that the program
    does not own are never taken over, every reachable state of the material tables is consistent,
    and the collector's preview names exactly what it deletes.
  \<^item> Desired state: resolution is a layered override in which the highest level wins; a plan is empty
    exactly when observation and desired state agree; every executable action is gated by ownership,
    capability and approval; hashes do not depend on the order of observation. Where the code does
    not do what it means to, a theorem states what it does (\<open>conflict_still_removed\<close>,
    \<open>artifact_delete_race\<close>, \<open>lost_lockfile_update\<close> and others).
  \<^item> MCP apply: an edit changes one entry, the one the plan identified; a written server is read back; preflight
    lets only unblocked actions with evidence and a proven writer through; an action reaches
    its file at most once however often it is interrupted, an accepted one is carried out and a
    refused one changes nothing; a rollback restores the bytes; a matched verification means the
    observed state is the desired one.
  \<^item> \<open>sha256_hex\<close> is SHA-256.

  \<^bold>\<open>Loops and fuel.\<close> No definition uses fuel. Loops over data are structural; the loops that are not
  (\<open>trim\<close>, \<open>strip_any\<close>, the path climb of \<open>resolve_within\<close>, the padding and chunking of \<open>Sha256\<close>, the decimal
  \<open>digits\<close>, and \<open>utf8_chars\<close> and \<open>utf8_lossy\<close> of \<open>McpConfig\<close>) have termination proofs.

  \<^bold>\<open>Not modelled\<close>, with the reason: HTTP routing, JSON decoding and response shapes of \<open>cocli-api\<close>, the
  WebSocket layer, the embedded web page and the web front end (input and output around the store
  methods that are modelled); \<open>cocli-server/src/runtime.rs\<close> and \<open>skills.rs\<close> (process supervision
  and file scanning over operating-system calls); of \<open>cocli-server/src/mcp.rs\<close> the parser of the \<open>toml\<close> crate and the
  processes of the probes (their answers are parameters); the runtime drivers (they translate JSON of external
  programs and build command lines); \<open>cocli-health\<close>, \<open>cocli-pidfile\<close>, \<open>cocli-reaper\<close>, the plugin crates
  and \<open>bin/cocli\<close> (thin layers over sockets, files and signals). The tables of MCP
  governance, the skill library files and portable workspaces of the store are plain row operations of
  the kind modelled here.
\<close>

end
